(* ===== verification/Go_Base.thy ===== *)
theory Go_Base
  imports Complex_Main "HOL-Library.Word" "HOL-Library.Signed_Division" "HOL-Library.DAList"
    "HOL-Library.Char_ord" "HOL-Library.List_Lexorder" "HOL-Library.Multiset"
begin

text \<open>
  The prelude: what the Go sources use of the language and of its standard library.
  \<^item> results: a Go function \<open>func f(x) (T, error)\<close> is a function into \<open>'e + 't\<close>, \<open>Inl\<close> the
    error; a \<open>func g(x) error\<close> is a function into \<open>'e option\<close>, \<open>None\<close> for \<open>nil\<close>. An error value
    is modelled by what \<open>errors.Is\<close> and \<open>errors.As\<close> can tell about it (its sentinel and, for a
    struct error, its fields); the rendered message text is left out;
  \<^item> \<open>int64\<close>, \<open>int32\<close> and \<open>int\<close> (64 bits on the targets) as words read through \<open>sint\<close>, so that
    arithmetic wraps as it does in Go;
  \<^item> strings as byte strings, \<open>strings.TrimSpace\<close> with the whole Unicode \<open>White_Space\<close> set,
    the \<open>%d\<close> verb of \<open>fmt\<close>;
  \<^item> \<open>time.Time\<close> as an instant with a flag for the UTC location;
  \<^item> a Go \<open>map\<close> as a \<open>DAList\<close> association list, whose keys are distinct by its type;
  \<^item> two generic interfaces: a life cycle whose transitions never go back, and a command that a
    log of fingerprints makes idempotent.
\<close>

section \<open>Results\<close>

named_theorems result_simps \<open>inversion of early returns\<close>

lemma if_Inl_eq_Inr [result_simps]:
  "((if b then Inl e else k) = Inr r) \<longleftrightarrow> \<not> b \<and> k = Inr r"
  by simp

lemma if_Some_eq_None [result_simps]:
  "((if b then Some e else k) = None) \<longleftrightarrow> \<not> b \<and> k = None"
  by simp

lemma case_option_Inl_eq_Inr [result_simps]:
  "((case v of None \<Rightarrow> k | Some e \<Rightarrow> Inl (g e)) = Inr r) \<longleftrightarrow> v = None \<and> k = Inr r"
  by (simp split: option.splits)

lemma case_option_Some_eq_None [result_simps]:
  "((case v of None \<Rightarrow> k | Some e \<Rightarrow> Some (g e)) = None) \<longleftrightarrow> v = None \<and> k = None"
  by (simp split: option.splits)

lemma case_sum_Inl_eq_Inr [result_simps]:
  "((case x of Inl e \<Rightarrow> Inl (g e) | Inr a \<Rightarrow> f a) = Inr r) \<longleftrightarrow> (\<exists>a. x = Inr a \<and> f a = Inr r)"
  by (simp split: sum.splits)

lemma case_sum_Some_eq_None [result_simps]:
  "((case x of Inl e \<Rightarrow> Some (g e) | Inr a \<Rightarrow> f a) = None) \<longleftrightarrow> (\<exists>a. x = Inr a \<and> f a = None)"
  by (simp split: sum.splits)

lemma map_sum_eq_Inr [result_simps]:
  "map_sum f g x = Inr r \<longleftrightarrow> (\<exists>a. x = Inr a \<and> r = g a)"
  by (cases x) auto

definition err_of :: "'e + 'a \<Rightarrow> 'e option" where
  \<comment> \<open>\<open>_, err := f(x); return err\<close>\<close>
  "err_of x = (case x of Inl e \<Rightarrow> Some e | Inr _ \<Rightarrow> None)"

lemma err_of_simps [simp]: "err_of (Inl e) = Some e" "err_of (Inr a) = None"
  by (simp_all add: err_of_def)

lemma err_of_None: "err_of x = None \<longleftrightarrow> (\<exists>a. x = Inr a)"
  by (cases x) simp_all

section \<open>Machine integers\<close>

type_synonym int64 = "64 word"

type_synonym int32 = "32 word"

type_synonym go_int = "64 word"

definition MaxInt64 :: int64 where
  "MaxInt64 = 9223372036854775807"

definition MinInt64 :: int64 where
  "MinInt64 = - 9223372036854775808"

definition quo64 :: "int64 \<Rightarrow> int64 \<Rightarrow> int64" where
  \<comment> \<open>Go's \<open>a / b\<close>: truncated towards zero; the sources never divide by zero\<close>
  "quo64 a b = word_of_int (sint a sdiv sint b)"

definition rem64 :: "int64 \<Rightarrow> int64 \<Rightarrow> int64" where
  "rem64 a b = word_of_int (sint a smod sint b)"

definition int64_of_int32 :: "int32 \<Rightarrow> int64" where
  "int64_of_int32 x = word_of_int (sint x)"

definition go_len :: "'a list \<Rightarrow> int" where
  "go_len xs = int (length xs)"

declare of_int_sint [simp del]

named_theorems i64 \<open>signed readings of 64-bit arithmetic\<close>

lemma sint64_ge: "- 9223372036854775808 \<le> sint (x :: int64)"
  using sint_ge [of x] by simp

lemma sint64_le: "sint (x :: int64) \<le> 9223372036854775807"
  using sint_lt [of x] by simp

lemma sint32_ge: "- 2147483648 \<le> sint (x :: int32)"
  using sint_ge [of x] by simp

lemma sint32_le: "sint (x :: int32) \<le> 2147483647"
  using sint_lt [of x] by simp

lemmas sint_bounds = sint64_ge sint64_le sint32_ge sint32_le

lemma sint_MaxInt64 [simp, i64]: "sint MaxInt64 = 9223372036854775807"
  by (simp add: MaxInt64_def)

lemma sint_MinInt64 [simp, i64]: "sint MinInt64 = - 9223372036854775808"
  by (simp add: MinInt64_def)

lemma sint64_of_int:
  "- 9223372036854775808 \<le> k \<Longrightarrow> k \<le> 9223372036854775807 \<Longrightarrow> sint (word_of_int k :: int64) = k"
  by (simp add: sint_sbintrunc' signed_take_bit_int_eq_self)

lemma sint32_of_int:
  "- 2147483648 \<le> k \<Longrightarrow> k \<le> 2147483647 \<Longrightarrow> sint (word_of_int k :: int32) = k"
  by (simp add: sint_sbintrunc' signed_take_bit_int_eq_self)

lemma word32_eq_iff: "(a :: int32) = b \<longleftrightarrow> sint a = sint b"
  by (simp add: word_eq_iff_signed)

lemma sint64_add:
  "- 9223372036854775808 \<le> sint a + sint b \<Longrightarrow> sint a + sint b \<le> 9223372036854775807
    \<Longrightarrow> sint (a + b :: int64) = sint a + sint b"
  by (simp add: sint_word_add signed_take_bit_int_eq_self)

lemma sint64_diff:
  "- 9223372036854775808 \<le> sint a - sint b \<Longrightarrow> sint a - sint b \<le> 9223372036854775807
    \<Longrightarrow> sint (a - b :: int64) = sint a - sint b"
  by (simp add: sint_word_diff signed_take_bit_int_eq_self)

lemma sint64_mult:
  "- 9223372036854775808 \<le> sint a * sint b \<Longrightarrow> sint a * sint b \<le> 9223372036854775807
    \<Longrightarrow> sint (a * b :: int64) = sint a * sint b"
  by (simp add: sint_word_mult signed_take_bit_int_eq_self)

lemma sint64_minus:
  assumes "(x :: int64) \<noteq> MinInt64"
  shows "sint (- x) = - sint x"
proof -
  have "sint x \<noteq> sint MinInt64"
    using assms signed_word_eqI by blast
  then show ?thesis
    using sint64_ge [of x] sint64_le [of x]
    by (simp add: sint_word_minus signed_take_bit_int_eq_self)
qed

lemma int_div_less: "0 < q \<Longrightarrow> m < n * q \<Longrightarrow> m div q < n" for m n q :: int
proof (rule ccontr)
  assume q: "0 < q" and m: "m < n * q" and "\<not> m div q < n"
  then have "n * q \<le> m div q * q" by (intro mult_right_mono) simp_all
  also have "\<dots> \<le> m" using q pos_mod_sign [of q m] div_mult_mod_eq [of m q] by linarith
  finally show False using m by simp
qed

lemma int_div_ge: "0 < q \<Longrightarrow> n * q \<le> m \<Longrightarrow> n \<le> m div q" for m n q :: int
  using zdiv_mono1 [of "n * q" m q] by simp

lemma word64_eq_iff: "(a :: int64) = b \<longleftrightarrow> sint a = sint b"
  by (simp add: word_eq_iff_signed)

lemma word_of_int_sint [simp]: "word_of_int (sint x) = (x :: int64)" "word_of_int (sint y) = (y :: int32)"
  by (simp_all add: word64_eq_iff word32_eq_iff sint64_of_int sint32_of_int sint_bounds)

lemma sint64_zero_iff: "sint (a :: int64) = 0 \<longleftrightarrow> a = 0"
  by (simp add: word64_eq_iff)

lemma sint_int64_of_int32 [simp, i64]: "sint (int64_of_int32 x) = sint x"
  using sint32_ge [of x] sint32_le [of x]
  unfolding int64_of_int32_def by (intro sint64_of_int) simp_all

lemma sint_quo64:
  assumes "0 \<le> sint a" "0 < sint b"
  shows "sint (quo64 a b) = sint a div sint b"
proof -
  have eq: "sint a sdiv sint b = sint a div sint b"
    using assms by (simp add: signed_divide_int_def sgn_if)
  have "sint a div sint b \<le> sint a"
    using assms zdiv_mono2 [of "sint a" 1 "sint b"] by simp
  moreover have "0 \<le> sint a div sint b"
    using assms by (simp add: pos_imp_zdiv_nonneg_iff)
  ultimately show ?thesis
    unfolding quo64_def eq using sint64_le [of a] by (intro sint64_of_int) linarith+
qed

lemma sint_rem64:
  assumes "0 \<le> sint a" "0 < sint b"
  shows "sint (rem64 a b) = sint a mod sint b"
proof -
  have eq: "sint a smod sint b = sint a mod sint b"
    using assms by (simp add: smod_mod_positive)
  have "0 \<le> sint a mod sint b" "sint a mod sint b < sint b"
    using assms by simp_all
  then show ?thesis
    unfolding rem64_def eq using sint64_le [of b] by (intro sint64_of_int) linarith+
qed

section \<open>Strings\<close>

text \<open>
  A Go string is a sequence of bytes, here a \<open>char list\<close>. \<open>strings.TrimSpace\<close> removes the runes
  with the Unicode property \<open>White_Space\<close> from both ends; UTF-8 is self-synchronising, so it is
  enough to compare the first (last) bytes with the encodings of those runes.
\<close>

definition space_runes :: "string list" where
  "space_runes =
    [[CHR 0x09], [CHR 0x0A], [CHR 0x0B], [CHR 0x0C], [CHR 0x0D], [CHR 0x20],
     [CHR 0xC2, CHR 0x85], [CHR 0xC2, CHR 0xA0],
     [CHR 0xE1, CHR 0x9A, CHR 0x80],
     [CHR 0xE2, CHR 0x80, CHR 0x80], [CHR 0xE2, CHR 0x80, CHR 0x81],
     [CHR 0xE2, CHR 0x80, CHR 0x82], [CHR 0xE2, CHR 0x80, CHR 0x83],
     [CHR 0xE2, CHR 0x80, CHR 0x84], [CHR 0xE2, CHR 0x80, CHR 0x85],
     [CHR 0xE2, CHR 0x80, CHR 0x86], [CHR 0xE2, CHR 0x80, CHR 0x87],
     [CHR 0xE2, CHR 0x80, CHR 0x88], [CHR 0xE2, CHR 0x80, CHR 0x89],
     [CHR 0xE2, CHR 0x80, CHR 0x8A], [CHR 0xE2, CHR 0x80, CHR 0xA8],
     [CHR 0xE2, CHR 0x80, CHR 0xA9], [CHR 0xE2, CHR 0x80, CHR 0xAF],
     [CHR 0xE2, CHR 0x81, CHR 0x9F], [CHR 0xE3, CHR 0x80, CHR 0x80]]"

fun strip_one :: "string list \<Rightarrow> string \<Rightarrow> string option" where
  "strip_one [] s = None"
| "strip_one (p # ps) s = (if p \<noteq> [] \<and> take (length p) s = p then Some (drop (length p) s) else strip_one ps s)"

lemma strip_one_shorter: "strip_one ps s = Some t \<Longrightarrow> length t < length s"
proof (induction ps)
  case (Cons p ps)
  show ?case
  proof (cases "p \<noteq> [] \<and> take (length p) s = p")
    case True
    then have "0 < length p" "length p \<le> length s"
      by (auto dest: arg_cong [where f = length])
    then have "length s - length p < length s" by linarith
    with True Cons.prems show ?thesis by auto
  next
    case False
    with Cons show ?thesis by auto
  qed
qed simp

function strip_all :: "string list \<Rightarrow> string \<Rightarrow> string" where
  "strip_all ps s = (case strip_one ps s of None \<Rightarrow> s | Some t \<Rightarrow> strip_all ps t)"
  by pat_completeness auto
termination
  by (relation "measure (\<lambda>(ps, s). length s)") (auto dest: strip_one_shorter)

declare strip_all.simps [simp del]

definition TrimSpace :: "string \<Rightarrow> string" where
  "TrimSpace s = rev (strip_all (map rev space_runes) (rev (strip_all space_runes s)))"

definition blank :: "string \<Rightarrow> bool" where
  "blank s = (TrimSpace s = [])"

lemma strip_all_Nil [simp]: "strip_all ps [] = []"
proof -
  have "strip_one ps [] = None" by (induction ps) auto
  then show ?thesis by (simp add: strip_all.simps)
qed

lemma strip_all_id: "strip_one ps s = None \<Longrightarrow> strip_all ps s = s"
  by (subst strip_all.simps) simp

lemma strip_one_strip_all: "strip_one ps (strip_all ps s) = None"
proof (induction ps s rule: strip_all.induct)
  case (1 ps s)
  show ?case
  proof (cases "strip_one ps s")
    case None
    then show ?thesis by (simp add: strip_all.simps [of ps s])
  next
    case (Some t)
    with 1 [of t] show ?thesis by (simp add: strip_all.simps [of ps s])
  qed
qed

lemma strip_all_idem [simp]: "strip_all ps (strip_all ps s) = strip_all ps s"
  by (rule strip_all_id) (rule strip_one_strip_all)

lemma strip_one_suffix: "strip_one ps s = Some t \<Longrightarrow> \<exists>u. s = u @ t"
proof (induction ps)
  case (Cons p ps)
  then show ?case
    using append_take_drop_id [of "length p" s] by (auto split: if_splits simp del: append_take_drop_id)
qed simp

lemma strip_all_suffix: "\<exists>u. s = u @ strip_all ps s"
proof (induction ps s rule: strip_all.induct)
  case (1 ps s)
  show ?case
  proof (cases "strip_one ps s")
    case None
    then show ?thesis by (simp add: strip_all_id)
  next
    case (Some t)
    then have eq: "strip_all ps s = strip_all ps t"
      by (simp add: strip_all.simps [of ps s])
    obtain u v where "s = u @ t" "t = v @ strip_all ps t"
      using strip_one_suffix [OF Some] 1 [OF Some] by blast
    then show ?thesis
      unfolding eq by (metis append.assoc)
  qed
qed

lemma strip_one_prefix: "strip_one ps (t @ u) = None \<Longrightarrow> strip_one ps t = None"
  by (induction ps) (auto split: if_splits)

lemma TrimSpace_idem [simp]: "TrimSpace (TrimSpace s) = TrimSpace s"
proof -
  define a where "a = strip_all space_runes s"
  define b where "b = strip_all (map rev space_runes) (rev a)"
  obtain u where "rev a = u @ b" using strip_all_suffix unfolding b_def by blast
  then have "a = rev b @ rev u" by (metis rev_append rev_rev_ident)
  moreover have "strip_one space_runes a = None"
    unfolding a_def by (rule strip_one_strip_all)
  ultimately have "strip_all space_runes (rev b) = rev b"
    by (metis strip_one_prefix strip_all_id)
  moreover have "TrimSpace s = rev b"
    by (simp add: TrimSpace_def a_def b_def)
  ultimately show ?thesis
    by (simp add: TrimSpace_def b_def)
qed

lemma blank_TrimSpace [simp]: "blank (TrimSpace s) = blank s"
  by (simp add: blank_def)

lemma blank_Nil [simp]: "blank []"
  by (simp add: blank_def TrimSpace_def)


lemma TrimSpace_plain: "strip_one space_runes s = None \<Longrightarrow>
    strip_one (map rev space_runes) (rev s) = None \<Longrightarrow> TrimSpace s = s"
  by (simp add: TrimSpace_def strip_all_id)

text \<open>A string is blank only if it is empty or starts with a space rune.\<close>

lemma strip_one_in: "strip_one ps s = Some t \<Longrightarrow> \<exists>p \<in> set ps. p \<noteq> [] \<and> s = p @ t"
proof (induction ps)
  case (Cons p ps)
  then show ?case
    using append_take_drop_id [of "length p" s] by (auto split: if_splits simp del: append_take_drop_id)
qed simp

lemma strip_one_start: "p \<in> set ps \<Longrightarrow> p \<noteq> [] \<Longrightarrow> strip_one ps (p @ s) \<noteq> None"
  by (induction ps) auto

lemma strip_all_rev_Nil: "strip_all (map rev ps) u = [] \<Longrightarrow> u \<noteq> [] \<Longrightarrow> strip_one ps (rev u) \<noteq> None"
proof (induction "map rev ps" u rule: strip_all.induct)
  case (1 u)
  then obtain t where t: "strip_one (map rev ps) u = Some t"
    by (auto simp: strip_all.simps [of "map rev ps" u] split: option.splits)
  obtain p where p: "p \<in> set ps" "p \<noteq> []" "rev u = rev t @ p"
    using strip_one_in [OF t] by auto
  show ?case
  proof (cases "t = []")
    case True
    then show ?thesis using p strip_one_start [of p ps "[]"] by simp
  next
    case False
    then have "strip_one ps (rev t) \<noteq> None"
      using 1 t by (simp add: strip_all.simps [of "map rev ps" u])
    then show ?thesis unfolding p(3) by (rule contrapos_nn) (rule strip_one_prefix)
  qed
qed

lemma not_blank_start: "strip_one space_runes s = None \<Longrightarrow> s \<noteq> [] \<Longrightarrow> \<not> blank s"
  using strip_all_rev_Nil [of space_runes "rev s"] by (auto simp: blank_def TrimSpace_def strip_all_id)

subsection \<open>Decimal rendering\<close>

definition decimal_digit :: "nat \<Rightarrow> char" where
  "decimal_digit n = ''0123456789'' ! n"

fun decimal_nat :: "nat \<Rightarrow> string" where
  "decimal_nat n = (if n < 10 then [decimal_digit n] else decimal_nat (n div 10) @ [decimal_digit (n mod 10)])"

declare decimal_nat.simps [simp del]

definition decimal :: "int \<Rightarrow> string" where
  \<comment> \<open>the verb \<open>%d\<close>\<close>
  "decimal k = (if k < 0 then CHR ''-'' # decimal_nat (nat (- k)) else decimal_nat (nat k))"

definition decimal_chars :: "char set" where
  "decimal_chars = set ''-0123456789''"

lemma less_ten_cases:
  assumes "(n::nat) < 10"
  obtains "n = 0" | "n = 1" | "n = 2" | "n = 3" | "n = 4" | "n = 5" | "n = 6" | "n = 7" | "n = 8" | "n = 9"
proof -
  have "n = 0 \<or> n = 1 \<or> n = 2 \<or> n = 3 \<or> n = 4 \<or> n = 5 \<or> n = 6 \<or> n = 7 \<or> n = 8 \<or> n = 9"
    using assms by presburger
  then show thesis using that by blast
qed

lemma decimal_digit_inj: "m < 10 \<Longrightarrow> n < 10 \<Longrightarrow> decimal_digit m = decimal_digit n \<longleftrightarrow> m = n"
  by (elim less_ten_cases) (simp_all add: decimal_digit_def)

lemma decimal_digit_in: "n < 10 \<Longrightarrow> decimal_digit n \<in> decimal_chars - {CHR ''-''}"
  by (elim less_ten_cases) (simp_all add: decimal_digit_def decimal_chars_def)

lemma decimal_nat_in: "set (decimal_nat n) \<subseteq> decimal_chars - {CHR ''-''}"
proof (induction n rule: decimal_nat.induct)
  case (1 n)
  show ?case
  proof (cases "n < 10")
    case True
    then show ?thesis using decimal_digit_in by (simp add: decimal_nat.simps [of n])
  next
    case False
    have "decimal_digit (n mod 10) \<in> decimal_chars - {CHR ''-''}"
      by (rule decimal_digit_in) simp
    then show ?thesis
      using 1 [OF False] False by (subst decimal_nat.simps) simp
  qed
qed

lemma decimal_in: "set (decimal k) \<subseteq> decimal_chars"
proof -
  have "CHR ''-'' \<in> decimal_chars" by (simp add: decimal_chars_def)
  then show ?thesis
    using decimal_nat_in [of "nat k"] decimal_nat_in [of "nat (- k)"] by (auto simp: decimal_def)
qed

lemma decimal_nat_not_Nil [simp]: "decimal_nat n \<noteq> []"
  by (subst decimal_nat.simps) simp

lemma decimal_not_Nil [simp]: "decimal k \<noteq> []"
  by (simp add: decimal_def)

lemma decimal_nat_inj: "decimal_nat m = decimal_nat n \<Longrightarrow> m = n"
proof (induction m arbitrary: n rule: decimal_nat.induct)
  case (1 m)
  show ?case
  proof (cases "m < 10 \<or> n < 10")
    case True
    have "n < 10 \<longleftrightarrow> length (decimal_nat n) = 1" for n
      by (subst decimal_nat.simps) simp
    then have "m < 10" "n < 10" using True "1.prems" by metis+
    then show ?thesis
      using "1.prems" by (simp add: decimal_nat.simps [of m] decimal_nat.simps [of n] decimal_digit_inj)
  next
    case False
    then have "decimal_nat (m div 10) = decimal_nat (n div 10)"
      and "decimal_digit (m mod 10) = decimal_digit (n mod 10)"
      using "1.prems" by (simp_all add: decimal_nat.simps [of m] decimal_nat.simps [of n])
    then have "m div 10 = n div 10" and "m mod 10 = n mod 10"
      using "1.IH" False by (auto simp: decimal_digit_inj)
    then show ?thesis by (metis div_mult_mod_eq)
  qed
qed

lemma decimal_inj: "decimal j = decimal k \<longleftrightarrow> j = k"
proof
  assume eq: "decimal j = decimal k"
  have no: "decimal_nat n \<noteq> CHR ''-'' # xs" for n xs
    using decimal_nat_in [of n] by auto
  show "j = k"
    using eq no no [symmetric] by (auto simp: decimal_def dest: decimal_nat_inj split: if_splits)
qed simp

text \<open>Two rendered numbers after different text never meet: the last byte before the digits decides.\<close>

lemma append_decimal_inj:
  assumes "s @ c # decimal j = t @ d # decimal k" "c \<notin> decimal_chars" "d \<notin> decimal_chars"
  shows "s = t \<and> c = d \<and> j = k"
proof -
  let ?P = "\<lambda>x. x \<in> decimal_chars"
  have tail: "takeWhile ?P (rev (u @ e # decimal n)) = rev (decimal n)" if "e \<notin> decimal_chars" for u e n
  proof -
    have "\<And>x. x \<in> set (rev (decimal n)) \<Longrightarrow> ?P x" using decimal_in [of n] by auto
    then have "takeWhile ?P (rev (decimal n) @ e # rev u) = rev (decimal n) @ takeWhile ?P (e # rev u)"
      by (rule takeWhile_append2)
    with that show ?thesis by simp
  qed
  have "rev (decimal j) = rev (decimal k)"
    using tail [OF assms(2), of s j] tail [OF assms(3), of t k] assms(1) by simp
  then have "j = k" by (simp add: decimal_inj)
  with assms(1) show ?thesis by simp
qed

section \<open>Time\<close>

text \<open>
  A \<open>time.Time\<close> is the instant in nanoseconds since the zero time (January 1, year 1, UTC) and
  whether its location is UTC; \<open>Before\<close>, \<open>After\<close> and \<open>Equal\<close> compare instants.
\<close>

datatype go_time = Time (instant: int) (in_utc: bool)

definition IsZero :: "go_time \<Rightarrow> bool" where
  "IsZero t \<longleftrightarrow> instant t = 0"

definition UTC :: "go_time \<Rightarrow> go_time" where
  "UTC t = Time (instant t) True"

definition Before :: "go_time \<Rightarrow> go_time \<Rightarrow> bool" where
  "Before t u \<longleftrightarrow> instant t < instant u"

definition After :: "go_time \<Rightarrow> go_time \<Rightarrow> bool" where
  "After t u \<longleftrightarrow> Before u t"

definition zero_time :: go_time where
  "zero_time = Time 0 True"

lemma UTC_simps [simp]: "instant (UTC t) = instant t" "in_utc (UTC t)" "IsZero (UTC t) = IsZero t"
  "Before (UTC t) u = Before t u" "UTC (UTC t) = UTC t"
  by (simp_all add: UTC_def IsZero_def Before_def)

section \<open>Maps\<close>

type_synonym ('k, 'v) go_map = "('k, 'v) alist"

definition map_size :: "('k, 'v) go_map \<Rightarrow> nat" where
  "map_size m = length (DAList.impl_of m)"

definition map_values :: "('k, 'v) go_map \<Rightarrow> 'v list" where
  \<comment> \<open>the values a \<open>range\<close> over the map visits; Go fixes no order\<close>
  "map_values m = map snd (DAList.impl_of m)"

definition map_of_list :: "('k \<times> 'v) list \<Rightarrow> ('k, 'v) go_map" where
  "map_of_list xs = foldr (\<lambda>(k, v) m. DAList.update k v m) xs DAList.empty"

definition get_or :: "'v \<Rightarrow> ('k, 'v) go_map \<Rightarrow> 'k \<Rightarrow> 'v" where
  \<comment> \<open>\<open>m[k]\<close> without the comma-ok form: the zero value when the key is absent\<close>
  "get_or z m k = (case DAList.lookup m k of None \<Rightarrow> z | Some v \<Rightarrow> v)"

lemma map_size_keys: "map_size m = card (dom (DAList.lookup m))"
proof -
  have "card (set (map fst (DAList.impl_of m))) = length (map fst (DAList.impl_of m))"
    by (rule distinct_card) (rule impl_of_distinct)
  then show ?thesis
    by (simp add: map_size_def DAList.lookup_def dom_map_of_conv_image_fst)
qed

section \<open>Sorting by identifier\<close>

text \<open>
  \<open>sort.Slice\<close> with \<open>a[i].ID < a[j].ID\<close>: \<open>sort_key\<close> over the byte order of strings. With equal
  keys Go leaves their order open; the statements about sorted lists assume distinct ones.
\<close>

lemma distinct_filter_eq: "distinct xs \<Longrightarrow> k \<in> set xs \<Longrightarrow> filter (\<lambda>x. x = k) xs = [k]"
  by (induction xs) (auto simp: filter_empty_conv)

lemma sort_key_permutation:
  assumes "mset xs = mset ys" "distinct (map f xs)"
  shows "sort_key f xs = sort_key f ys"
proof (rule properties_for_sort_key)
  have inj: "inj_on f (set xs)" using assms(2) by (simp add: distinct_map)
  have set: "set (sort_key f ys) = set xs" using mset_eq_setD [OF assms(1)] by simp
  show "mset (sort_key f ys) = mset xs" using assms(1) by simp
  show "sorted (map f (sort_key f ys))" by simp
  fix k assume "k \<in> set (sort_key f ys)"
  with inj set have only: "f k = f x \<longleftrightarrow> x = k" if "x \<in> set xs" for x
    using that by (auto simp: inj_on_def)
  have "distinct (sort_key f ys)" "distinct xs"
    using assms by (auto simp: distinct_map dest: mset_eq_imp_distinct_iff)
  then have "filter (\<lambda>x. x = k) (sort_key f ys) = filter (\<lambda>x. x = k) xs"
    using \<open>k \<in> set (sort_key f ys)\<close> set
    by (metis distinct_filter_eq)
  moreover have "filter (\<lambda>x. f k = f x) zs = filter (\<lambda>x. x = k) zs" if "set zs = set xs" for zs
    using only that by (intro filter_cong) simp_all
  ultimately show "filter (\<lambda>x. f k = f x) (sort_key f ys) = filter (\<lambda>x. f k = f x) xs"
    using set by metis
qed

section \<open>Life cycles\<close>

text \<open>A state machine whose every transition raises a rank: no state is ever entered twice.\<close>

locale lifecycle =
  fixes can :: "'s \<Rightarrow> 's \<Rightarrow> bool" and rank :: "'s \<Rightarrow> nat"
  assumes can_raises: "can s t \<Longrightarrow> rank s < rank t"
begin

lemma path_rank: "can\<^sup>+\<^sup>+ s t \<Longrightarrow> rank s < rank t"
  by (induction rule: tranclp_induct) (auto dest: can_raises)

lemma no_return: "\<not> can\<^sup>+\<^sup>+ s s"
  using path_rank by blast

lemma run_bound: "successively can (s # ss) \<Longrightarrow> rank s + length ss \<le> rank (last (s # ss))"
proof (induction ss arbitrary: s)
  case (Cons u us)
  then have "rank s < rank u" "rank u + length us \<le> rank (last (u # us))"
    by (auto dest: can_raises)
  then show ?case by simp
qed simp

lemma run_distinct: "successively can ss \<Longrightarrow> distinct ss"
proof (induction ss)
  case (Cons s ss)
  have "rank s < rank u" if "u \<in> set ss" for u
    using Cons.prems that
  proof (induction ss arbitrary: s)
    case (Cons v vs)
    then have "rank s < rank v" by (auto dest: can_raises)
    with Cons show ?case by fastforce
  qed simp
  then have "s \<notin> set ss" by blast
  moreover have "successively can ss" using Cons.prems by (cases ss) auto
  ultimately show ?case using Cons.IH by simp
qed simp

end


section \<open>Idempotent commands\<close>

text \<open>
  A command carries a key and a fingerprint of its content; the state logs the fingerprint a key ran
  under. A second run under the same key is a no-op when the fingerprint agrees, a conflict when not.
\<close>

locale idempotent_command =
  fixes run :: "'c \<Rightarrow> 's \<Rightarrow> 'e + ('s \<times> 'v list)"
    and key :: "'c \<Rightarrow> string" and mark :: "'c \<Rightarrow> string"
    and log :: "'s \<Rightarrow> string \<Rightarrow> string option"
    and valid_key :: "string \<Rightarrow> bool" and conflict :: 'e
  assumes checks: "run c s = Inr r \<Longrightarrow> valid_key (key c)"
    and replays: "valid_key (key c) \<Longrightarrow> log s (key c) = Some (mark c) \<Longrightarrow> run c s = Inr (s, [])"
    and conflicts: "valid_key (key c) \<Longrightarrow> log s (key c) = Some f \<Longrightarrow> f \<noteq> mark c \<Longrightarrow> run c s = Inl conflict"
    and records: "run c s = Inr (s', es) \<Longrightarrow> log s' = (log s)(key c \<mapsto> mark c)"
begin

lemma log_grows: "run c s = Inr (s', es) \<Longrightarrow> log s \<subseteq>\<^sub>m log s'"
proof -
  assume R: "run c s = Inr (s', es)"
  have "log s (key c) = None \<or> log s (key c) = Some (mark c)"
    using conflicts [OF checks [OF R], of s] R by (cases "log s (key c)") auto
  then show ?thesis using records [OF R] by (auto simp: map_le_def)
qed

lemma again: "run c s = Inr (s1, es) \<Longrightarrow> log s1 \<subseteq>\<^sub>m log s2 \<Longrightarrow> run c s2 = Inr (s2, [])"
  using checks records by (intro replays) (auto simp: map_le_def)

lemma reused: "run c s = Inr (s1, es) \<Longrightarrow> log s1 \<subseteq>\<^sub>m log s2 \<Longrightarrow> key d = key c \<Longrightarrow> mark d \<noteq> mark c \<Longrightarrow>
    run d s2 = Inl conflict"
  using checks [of c s] records [of c s s1 es] by (intro conflicts [where f = "mark c"]) (auto simp: map_le_def)

end

end
