(* ===== verification/Float64.thy ===== *)
theory Float64
  imports Go_Base "HOL-Library.Log_Nat"
begin

text \<open>
  The binary64 arithmetic that \<open>internal/pricing\<close> and \<open>internal/betting/parlayprice.go\<close> compute
  with. A finite float is the rational it denotes; an operation is the exact result rounded to 53
  significant bits, ties to even (IEEE 754, the rounding Go uses). Every value the sources reach lies
  between \<open>2 powi -220\<close> and \<open>2 powi 400\<close> in magnitude, far from subnormals and overflow, so the exponent
  is left unbounded. The sources contain no product followed by a sum in one expression, so no
  fused multiply-add can arise.
\<close>

section \<open>Rounding\<close>

type_synonym float64 = rat

definition ilog2 :: "rat \<Rightarrow> int" where
  \<comment> \<open>\<open>\<lfloor>log 2 x\<rfloor>\<close> for positive \<open>x\<close>\<close>
  "ilog2 x = (let (n, d) = quotient_of x; k = bitlen n - bitlen d
     in if x < 2 powi k then k - 1 else k)"

definition round_even :: "rat \<Rightarrow> int" where
  "round_even y = (let f = \<lfloor>y\<rfloor>; r = y - of_int f
     in if r < 1 / 2 then f else if 1 / 2 < r then f + 1 else if even f then f else f + 1)"

definition round_sig :: "rat \<Rightarrow> float64" where
  "round_sig x = (let e = ilog2 x - 52 in of_int (round_even (x / 2 powi e)) * 2 powi e)"

definition fl :: "rat \<Rightarrow> float64" where
  "fl x = (if x = 0 then 0 else if 0 < x then round_sig x else - round_sig (- x))"

definition fadd :: "float64 \<Rightarrow> float64 \<Rightarrow> float64" where "fadd a b = fl (a + b)"
definition fsub :: "float64 \<Rightarrow> float64 \<Rightarrow> float64" where "fsub a b = fl (a - b)"
definition fmul :: "float64 \<Rightarrow> float64 \<Rightarrow> float64" where "fmul a b = fl (a * b)"
definition fdiv :: "float64 \<Rightarrow> float64 \<Rightarrow> float64" where "fdiv a b = fl (a / b)"

definition math_Round :: "float64 \<Rightarrow> int" where
  \<comment> \<open>\<open>int64(math.Round(x))\<close>: halves away from zero\<close>
  "math_Round x = (if 0 \<le> x then \<lfloor>x + 1 / 2\<rfloor> else - \<lfloor>1 / 2 - x\<rfloor>)"

section \<open>The binary exponent\<close>

lemma powi_less: "i < j \<Longrightarrow> (2::rat) powi i < 2 powi j"
  by (simp add: power_int_strict_increasing)

lemma powi_le: "i \<le> j \<Longrightarrow> (2::rat) powi i \<le> 2 powi j"
  by (simp add: power_int_increasing)

lemma powi_pos [simp]: "0 < (2::rat) powi i"
  by simp

lemma powi_split: "(2::rat) powi (i + j) = 2 powi i * 2 powi j"
  by (simp add: power_int_add)

lemma powi_nat: "0 \<le> i \<Longrightarrow> (2::rat) powi i = of_int (2 ^ nat i)"
  by (simp add: power_int_def)

lemma powi_less_cancel: "(2::rat) powi i < 2 powi j \<longleftrightarrow> i < j"
  using powi_less [of i j] powi_le [of j i] by fastforce

lemma bitlen_powi:
  assumes "0 < n"
  shows "2 powi (bitlen n - 1) \<le> (of_int n :: rat)" "(of_int n :: rat) < 2 powi bitlen n"
proof -
  have "1 \<le> bitlen n" using assms by (simp add: bitlen_ge_iff_power)
  then have eq: "2 powi (bitlen n - 1) = (of_int (2 ^ nat (bitlen n - 1)) :: rat)"
    "2 powi bitlen n = (of_int (2 ^ nat (bitlen n)) :: rat)"
    by (simp_all only: powi_nat bitlen_nonneg diff_ge_0_iff_ge)
  show "2 powi (bitlen n - 1) \<le> (of_int n :: rat)" "(of_int n :: rat) < 2 powi bitlen n"
    using bitlen_bounds [OF assms] by (simp_all only: eq of_int_le_iff of_int_less_iff)
qed

lemma ilog2_bounds:
  assumes "0 < x"
  shows "2 powi ilog2 x \<le> x" "x < 2 powi (ilog2 x + 1)"
proof -
  obtain n d where q: "quotient_of x = (n, d)" by (cases "quotient_of x")
  have d: "0 < d" using quotient_of_denom_pos [OF q] .
  have x: "x = of_int n / of_int d" using quotient_of_div [OF q] .
  have n: "0 < n" using assms d by (simp add: x zero_less_divide_iff)
  let ?k = "bitlen n - bitlen d"
  note n' = bitlen_powi [OF n] and d' = bitlen_powi [OF d]
  have "(2::rat) powi (?k - 1) * of_int d < 2 powi (?k - 1) * 2 powi bitlen d"
    using d'(2) by simp
  also have "\<dots> = 2 powi (bitlen n - 1)" by (simp flip: powi_split)
  finally have lower: "2 powi (?k - 1) < x"
    using n'(1) d by (simp add: x pos_less_divide_eq)
  have "2 powi bitlen n = 2 powi (?k + 1) * (2::rat) powi (bitlen d - 1)"
    by (simp flip: powi_split)
  also have "\<dots> \<le> 2 powi (?k + 1) * of_int d" using d'(1) by simp
  finally have upper: "x < 2 powi (?k + 1)"
    using n'(2) d by (simp add: x pos_divide_less_eq)
  show "2 powi ilog2 x \<le> x" "x < 2 powi (ilog2 x + 1)"
    using lower upper by (auto simp: ilog2_def q Let_def)
qed

lemma ilog2_unique:
  assumes "2 powi k \<le> x" "x < 2 powi (k + 1)"
  shows "ilog2 x = k"
proof -
  have "0 < x" using assms(1) by (rule less_le_trans [OF powi_pos])
  note b = ilog2_bounds [OF this]
  have "2 powi k < (2::rat) powi (ilog2 x + 1)" "2 powi ilog2 x < (2::rat) powi (k + 1)"
    using assms b by linarith+
  then have "k < ilog2 x + 1" "ilog2 x < k + 1"
    by (simp_all add: powi_less_cancel)
  then show ?thesis by simp
qed

lemma ilog2_mono: "0 < x \<Longrightarrow> x \<le> y \<Longrightarrow> ilog2 x \<le> ilog2 y"
proof -
  assume "0 < x" "x \<le> y"
  then have "2 powi ilog2 x < (2::rat) powi (ilog2 y + 1)"
    using ilog2_bounds(1) [of x] ilog2_bounds(2) [of y] by linarith
  then show ?thesis by (simp add: powi_less_cancel)
qed


section \<open>Rounding error, monotonicity, exactness\<close>

lemma round_even_le: "\<bar>of_int (round_even y) - y\<bar> \<le> 1 / 2"
proof -
  have "of_int \<lfloor>y\<rfloor> \<le> y" "y < of_int \<lfloor>y\<rfloor> + 1" by linarith+
  then show ?thesis by (auto simp: round_even_def Let_def abs_le_iff)
qed

lemma round_even_int [simp]: "round_even (of_int n) = n"
  by (simp add: round_even_def)

lemma round_even_mono: "x \<le> y \<Longrightarrow> round_even x \<le> round_even y"
proof (rule ccontr)
  assume le: "x \<le> y" and "\<not> round_even x \<le> round_even y"
  then have gt: "round_even y + 1 \<le> round_even x" by simp
  then have "(of_int (round_even y) :: rat) + 1 \<le> of_int (round_even x)"
    by (metis of_int_1 of_int_add of_int_le_iff)
  with le round_even_le [of x] round_even_le [of y] have "x = y"
    by (simp add: abs_le_iff)
  with gt show False by simp
qed

lemma round_even_eqI: "\<bar>y - of_int m\<bar> < 1 / 2 \<Longrightarrow> round_even y = m"
proof -
  assume "\<bar>y - of_int m\<bar> < 1 / 2"
  with round_even_le [of y] have "\<bar>(of_int (round_even y - m) :: rat)\<bar> < 1"
    unfolding of_int_diff by linarith
  then have "of_int \<bar>round_even y - m\<bar> < (of_int 1 :: rat)" by simp
  then have "\<bar>round_even y - m\<bar> < 1" by (simp only: of_int_less_iff)
  then show ?thesis by simp
qed

text \<open>With \<open>e\<close> the exponent of the last place, the significand lies between \<open>2 ^ 52\<close> and \<open>2 ^ 53\<close>.\<close>

lemma significand_bounds:
  assumes "0 < x" "e = ilog2 x - 52"
  shows "2 ^ 52 \<le> x / 2 powi e" "x / 2 powi e < 2 ^ 53"
proof -
  note b = ilog2_bounds [OF assms(1)]
  have "2 powi ilog2 x = 2 ^ 52 * (2::rat) powi e" "2 powi (ilog2 x + 1) = 2 ^ 53 * (2::rat) powi e"
    using powi_split [of 52 e] powi_split [of 53 e] by (simp_all add: assms(2) algebra_simps)
  with b show "2 ^ 52 \<le> x / 2 powi e" "x / 2 powi e < 2 ^ 53"
    by (simp_all add: pos_le_divide_eq pos_divide_less_eq)
qed

lemma round_sig_significand:
  assumes "0 < x" "e = ilog2 x - 52"
  shows "round_sig x = of_int (round_even (x / 2 powi e)) * 2 powi e"
    "2 ^ 52 \<le> round_even (x / 2 powi e)" "round_even (x / 2 powi e) \<le> 2 ^ 53"
proof -
  show "round_sig x = of_int (round_even (x / 2 powi e)) * 2 powi e"
    unfolding round_sig_def Let_def assms(2) ..
  note b = significand_bounds [OF assms]
  have "of_int (2 ^ 52) \<le> x / 2 powi e" "x / 2 powi e \<le> of_int (2 ^ 53)"
    using b by simp_all
  from round_even_mono [OF this(1)] round_even_mono [OF this(2)]
  show "2 ^ 52 \<le> round_even (x / 2 powi e)" "round_even (x / 2 powi e) \<le> 2 ^ 53"
    by (simp_all only: round_even_int)
qed

lemma round_sig_ge: "0 < x \<Longrightarrow> 2 powi ilog2 x \<le> round_sig x"
proof -
  assume x: "0 < x"
  define e where "e = ilog2 x - 52"
  note s = round_sig_significand [OF x e_def]
  have "(of_int (2 ^ 52) :: rat) \<le> of_int (round_even (x / 2 powi e))"
    using s(2) by (simp only: of_int_le_iff)
  then have "2 ^ 52 * (2::rat) powi e \<le> of_int (round_even (x / 2 powi e)) * 2 powi e"
    by (intro mult_right_mono) simp_all
  moreover have "ilog2 x = 52 + e" by (simp add: e_def)
  ultimately show ?thesis unfolding s(1) by (simp only: powi_split) simp
qed

lemma round_sig_le: "0 < x \<Longrightarrow> round_sig x \<le> 2 powi (ilog2 x + 1)"
proof -
  assume x: "0 < x"
  define e where "e = ilog2 x - 52"
  note s = round_sig_significand [OF x e_def]
  have "of_int (round_even (x / 2 powi e)) \<le> (of_int (2 ^ 53) :: rat)"
    using s(3) by (simp only: of_int_le_iff)
  then have "of_int (round_even (x / 2 powi e)) * 2 powi e \<le> 2 ^ 53 * (2::rat) powi e"
    by (intro mult_right_mono) simp_all
  moreover have "ilog2 x + 1 = 53 + e" by (simp add: e_def)
  ultimately show ?thesis unfolding s(1) by (simp only: powi_split) simp
qed

lemma round_sig_mono: "0 < x \<Longrightarrow> x \<le> y \<Longrightarrow> round_sig x \<le> round_sig y"
proof -
  assume x: "0 < x" and le: "x \<le> y"
  show ?thesis
  proof (cases "ilog2 x = ilog2 y")
    case True
    have "round_even (x / 2 powi (ilog2 y - 52)) \<le> round_even (y / 2 powi (ilog2 y - 52))"
      using le by (intro round_even_mono divide_right_mono) simp_all
    with True show ?thesis by (simp add: round_sig_def Let_def)
  next
    case False
    with ilog2_mono [OF x le] have "ilog2 x + 1 \<le> ilog2 y" by simp
    then have "(2::rat) powi (ilog2 x + 1) \<le> 2 powi ilog2 y" by (rule powi_le)
    with round_sig_le [OF x] round_sig_ge [of y] x le show ?thesis by linarith
  qed
qed

lemma round_sig_pos: "0 < x \<Longrightarrow> 0 < round_sig x"
  using round_sig_ge [of x] powi_pos less_le_trans by blast

lemma round_sig_error: "0 < x \<Longrightarrow> \<bar>round_sig x - x\<bar> \<le> x / 2 ^ 53"
proof -
  assume x: "0 < x"
  define e where "e = ilog2 x - 52"
  note s = round_sig_significand [OF x e_def]
  have "round_sig x - x = (of_int (round_even (x / 2 powi e)) - x / 2 powi e) * 2 powi e"
    by (simp add: s(1) left_diff_distrib)
  then have "\<bar>round_sig x - x\<bar> = \<bar>of_int (round_even (x / 2 powi e)) - x / 2 powi e\<bar> * 2 powi e"
    by (simp add: abs_mult)
  also have "\<dots> \<le> 1 / 2 * 2 powi e"
    by (intro mult_right_mono round_even_le) simp
  also have "\<dots> = 2 ^ 52 * 2 powi e / 2 ^ 53" by simp
  also have "\<dots> \<le> x / 2 ^ 53"
    using significand_bounds(1) [OF x e_def] by (intro divide_right_mono) (simp_all add: pos_le_divide_eq)
  finally show ?thesis .
qed


text \<open>Scaling by a power of two commutes with rounding, so integers of 53 bits are exact.\<close>

lemma round_sig_exact:
  assumes "2 ^ 52 \<le> m" "m \<le> 2 ^ 53"
  shows "round_sig (of_int m * 2 powi e) = of_int m * 2 powi e"
proof -
  let ?x = "of_int m * (2::rat) powi e"
  have m: "2 ^ 52 \<le> (of_int m :: rat)" "(of_int m :: rat) \<le> 2 ^ 53"
    using assms by (metis of_int_le_iff of_int_numeral of_int_power)+
  show ?thesis
  proof (cases "m = 2 ^ 53")
    case True
    then have x: "?x = 2 powi (53 + e)" by (simp add: powi_split)
    have "ilog2 ?x = 53 + e"
      unfolding x by (rule ilog2_unique) (simp_all add: powi_le powi_less)
    then have "round_sig ?x = of_int (round_even (2 powi (53 + e) / 2 powi (53 + e - 52))) * 2 powi (53 + e - 52)"
      unfolding round_sig_def Let_def by (simp only: x)
    also have "2 powi (53 + e) / 2 powi (53 + e - 52) = (of_int (2 ^ 52) :: rat)"
      by (simp add: power_int_diff [symmetric])
    also have "of_int (round_even (of_int (2 ^ 52))) * 2 powi (53 + e - 52) = (2::rat) powi (53 + e)"
      unfolding round_even_int using powi_split [of 52 "e + 1"] by (simp add: algebra_simps)
    finally show ?thesis by (simp only: x)
  next
    case False
    with assms have "m < 2 ^ 53" by simp
    then have lt: "(of_int m :: rat) < 2 ^ 53"
      by (metis of_int_less_iff of_int_numeral of_int_power)
    have "ilog2 ?x = 52 + e"
      using m lt by (intro ilog2_unique) (simp_all add: powi_split add.commute [of _ 1] add.assoc [symmetric])
    then show ?thesis by (simp add: round_sig_def)
  qed
qed

lemma round_sig_idem: "0 < x \<Longrightarrow> round_sig (round_sig x) = round_sig x"
proof -
  assume x: "0 < x"
  define e where "e = ilog2 x - 52"
  note s = round_sig_significand [OF x e_def]
  show ?thesis unfolding s(1) using s(2,3) by (rule round_sig_exact)
qed

lemma fl_zero [simp]: "fl 0 = 0"
  by (simp add: fl_def)

lemma fl_pos: "0 < x \<Longrightarrow> 0 < fl x"
  by (simp add: fl_def round_sig_pos)

lemma fl_minus: "fl (- x) = - fl x"
  by (auto simp: fl_def)

lemma fl_neg: "x < 0 \<Longrightarrow> fl x < 0"
  using fl_pos [of "- x"] by (simp add: fl_minus)

lemma fl_idem [simp]: "fl (fl x) = fl x"
proof -
  have pos: "fl (fl y) = fl y" if "0 < y" for y
    using that by (simp add: fl_def round_sig_idem round_sig_pos)
  consider "x = 0" | "0 < x" | "0 < - x" by linarith
  then show ?thesis
    using pos [of x] pos [of "- x"] by cases (simp_all add: fl_minus)
qed

lemma fl_mono: "x \<le> y \<Longrightarrow> fl x \<le> fl y"
proof -
  assume le: "x \<le> y"
  consider "0 < x" | "x = 0" | "x < 0" "0 \<le> y" | "y < 0" using le by linarith
  then show ?thesis
  proof cases
    case 1
    with le show ?thesis by (simp add: fl_def round_sig_mono)
  next
    case 2
    with le show ?thesis using fl_pos [of y] by (cases "y = 0") auto
  next
    case 3
    with fl_neg [of x] fl_pos [of y] show ?thesis by (cases "y = 0") auto
  next
    case 4
    with le round_sig_mono [of "- y" "- x"] show ?thesis by (simp add: fl_def)
  qed
qed

lemma fl_error: "\<bar>fl x - x\<bar> \<le> \<bar>x\<bar> / 2 ^ 53"
proof -
  consider "x = 0" | "0 < x" | "x < 0" by linarith
  then show ?thesis
  proof cases
    case 2
    then show ?thesis using round_sig_error [of x] by (simp add: fl_def)
  next
    case 3
    then show ?thesis using round_sig_error [of "- x"] by (simp add: fl_def abs_minus_commute)
  qed simp
qed

lemma fl_upper: "0 \<le> x \<Longrightarrow> fl x \<le> x * (1 + 1 / 2 ^ 53)"
proof -
  assume "0 \<le> x"
  with fl_error [of x] have "fl x \<le> x + x / 2 ^ 53" by (simp only: abs_of_nonneg)
  then show ?thesis by (simp only: distrib_left mult_1_right times_divide_eq_right)
qed

lemma fl_lower: "0 \<le> x \<Longrightarrow> x * (1 - 1 / 2 ^ 53) \<le> fl x"
proof -
  assume "0 \<le> x"
  with fl_error [of x] have "x - x / 2 ^ 53 \<le> fl x" by (simp only: abs_of_nonneg)
  then show ?thesis by (simp only: right_diff_distrib mult_1_right times_divide_eq_right)
qed

lemma fl_pos_int_exact:
  assumes "0 < n" "n \<le> 2 ^ 53"
  shows "fl (of_int n) = of_int n"
proof -
  have n: "0 < (of_int n :: rat)" using assms by simp
  define k where "k = ilog2 (of_int n)"
  note b = ilog2_bounds [OF n, folded k_def]
  have "(of_int n :: rat) \<le> of_int (2 ^ 53)" using assms(2) by (simp only: of_int_le_iff)
  then have le: "(of_int n :: rat) \<le> 2 powi 53" by simp
  have k53: "k \<le> 53"
  proof -
    have "2 powi k \<le> (2::rat) powi 53" using b(1) le by linarith
    then show ?thesis using powi_less_cancel [of 53 k] by linarith
  qed
  have k0: "0 \<le> k"
  proof -
    have "1 \<le> (of_int n :: rat)" using assms by simp
    then have "2 powi 0 < (2::rat) powi (k + 1)" using b(2) by simp
    then have "0 < k + 1" by (simp only: powi_less_cancel)
    then show ?thesis by simp
  qed
  show ?thesis
  proof (cases "k = 53")
    case True
    with b le have "(of_int n :: rat) = of_int (2 ^ 52) * 2 powi 1" by simp
    then show ?thesis
      using round_sig_exact [of "2 ^ 52" 1] n unfolding fl_def by simp
  next
    case False
    let ?m = "n * 2 ^ nat (52 - k)"
    have m: "of_int ?m = (of_int n :: rat) * 2 powi (52 - k)"
      using k53 False by (simp add: powi_nat)
    then have eq: "of_int n = of_int ?m * (2::rat) powi (k - 52)"
      using powi_split [of "52 - k" "k - 52"] unfolding m by simp
    have "2 powi k * 2 powi (52 - k) \<le> (of_int ?m :: rat)" "of_int ?m < 2 powi (k + 1) * (2::rat) powi (52 - k)"
      unfolding m using b by simp_all
    then have "(of_int (2 ^ 52) :: rat) \<le> of_int ?m" "of_int ?m < (of_int (2 ^ 53) :: rat)"
      by (simp_all flip: powi_split)
    then have "2 ^ 52 \<le> ?m" "?m \<le> 2 ^ 53"
      by (simp_all only: of_int_le_iff of_int_less_iff less_imp_le)
    then show ?thesis
      using round_sig_exact [of ?m "k - 52"] n unfolding fl_def by (simp only: eq [symmetric]) simp
  qed
qed

lemma fl_int_exact: "\<bar>n\<bar> \<le> 2 ^ 53 \<Longrightarrow> fl (of_int n) = of_int n"
proof -
  assume le: "\<bar>n\<bar> \<le> 2 ^ 53"
  consider "n = 0" | "0 < n" | "n < 0" by linarith
  then show ?thesis
  proof cases
    case 3
    then have "fl (of_int (- n)) = of_int (- n)" using le by (intro fl_pos_int_exact) simp_all
    then show ?thesis using fl_minus [of "of_int n"] by simp
  qed (use le in \<open>simp_all add: fl_pos_int_exact\<close>)
qed

lemma fl_numeral [simp]: "numeral n \<le> (2 ^ 53 :: int) \<Longrightarrow> fl (numeral n) = numeral n"
  using fl_int_exact [of "numeral n"] by simp

lemma fl_one [simp]: "fl 1 = 1"
  using fl_int_exact [of 1] by simp

lemma fl_half [simp]: "fl (1 / 2) = 1 / 2"
  using round_sig_exact [of "2 ^ 52" "- 53"] by (simp add: fl_def power_int_minus)

lemma math_Round_nearest: "0 \<le> x \<Longrightarrow> \<bar>x - of_int n\<bar> < 1 / 2 \<Longrightarrow> math_Round x = n"
proof -
  assume x: "0 \<le> x" "\<bar>x - of_int n\<bar> < 1 / 2"
  then have "of_int n \<le> x + 1 / 2" "x + 1 / 2 < of_int n + 1" by linarith+
  then have "\<lfloor>x + 1 / 2\<rfloor> = n" by (rule floor_unique)
  with x show ?thesis by (simp add: math_Round_def)
qed

end
