(* ===== verification/Ledger.thy ===== *)
theory Ledger
  imports Go_Base
begin

text \<open>
  The package \<open>internal/ledger\<close>: money in signed integer cents (\<open>money.go\<close>), American odds and
  the profit of a stake (\<open>odds.go\<close>), transactions and the validation of their postings
  (\<open>posting.go\<close>). A field \<open>F\<close> of a Go struct is the record field \<open>x_F\<close>, with a letter for the
  struct, since record fields share one name space.
\<close>

section \<open>Money\<close>

datatype ledger_error =
    ErrInvalidCurrency | ErrCurrencyMismatch | ErrAmountOverflow
  | ErrInvalidAmericanOdds | ErrInvalidStake
  | ErrInvalidTransaction | ErrUnbalancedPostings

type_synonym currency = string

definition CAD :: currency where
  "CAD = ''CAD''"

definition ParseCurrency :: "string \<Rightarrow> ledger_error + currency" where
  \<comment> \<open>the loop visits rune starts; a byte that is no rune start follows one outside \<open>A\<close>--\<open>Z\<close>\<close>
  "ParseCurrency v =
    (if length v \<noteq> 3 then Inl ErrInvalidCurrency
     else if list_ex (\<lambda>c. c < CHR ''A'' \<or> CHR ''Z'' < c) v then Inl ErrInvalidCurrency
     else Inr v)"

definition Currency_Validate :: "currency \<Rightarrow> ledger_error option" where
  "Currency_Validate c = err_of (ParseCurrency c)"

record money =
  m_Cents :: int64
  m_Currency :: currency

definition NewMoney :: "int64 \<Rightarrow> currency \<Rightarrow> ledger_error + money" where
  "NewMoney cents c =
    (case Currency_Validate c of Some e \<Rightarrow> Inl e
     | None \<Rightarrow> Inr \<lparr>m_Cents = cents, m_Currency = c\<rparr>)"

definition Money_Validate :: "money \<Rightarrow> ledger_error option" where
  "Money_Validate m = Currency_Validate (m_Currency m)"

definition add_overflows :: "int64 \<Rightarrow> int64 \<Rightarrow> bool" where
  \<comment> \<open>the guard before adding \<open>b\<close> to \<open>a\<close>, in \<open>Money.Add\<close> and in \<open>ValidatePostings\<close>\<close>
  "add_overflows a b \<longleftrightarrow>
    (sint b > 0 \<and> sint a > sint (MaxInt64 - b)) \<or> (sint b < 0 \<and> sint a < sint (MinInt64 - b))"

definition Money_Add :: "money \<Rightarrow> money \<Rightarrow> ledger_error + money" where
  "Money_Add m other =
    (case Money_Validate m of Some e \<Rightarrow> Inl e
     | None \<Rightarrow> case Money_Validate other of Some e \<Rightarrow> Inl e
     | None \<Rightarrow> if m_Currency m \<noteq> m_Currency other then Inl ErrCurrencyMismatch
     else if add_overflows (m_Cents m) (m_Cents other) then Inl ErrAmountOverflow
     else Inr \<lparr>m_Cents = m_Cents m + m_Cents other, m_Currency = m_Currency m\<rparr>)"

definition Money_Negate :: "money \<Rightarrow> ledger_error + money" where
  "Money_Negate m =
    (case Money_Validate m of Some e \<Rightarrow> Inl e
     | None \<Rightarrow> if m_Cents m = MinInt64 then Inl ErrAmountOverflow
     else Inr \<lparr>m_Cents = - m_Cents m, m_Currency = m_Currency m\<rparr>)"

abbreviation cents :: "money \<Rightarrow> int" where
  "cents m \<equiv> sint (m_Cents m)"

lemma Currency_Validate_None:
  "Currency_Validate c = None \<longleftrightarrow> length c = 3 \<and> list_all (\<lambda>x. CHR ''A'' \<le> x \<and> x \<le> CHR ''Z'') c"
  by (auto simp: Currency_Validate_def ParseCurrency_def list_all_iff list_ex_iff not_less) (meson leD)+

lemma add_overflows_iff:
  "add_overflows a b \<longleftrightarrow> sint a + sint b < - 9223372036854775808 \<or> sint a + sint b > 9223372036854775807"
proof -
  have "sint (MaxInt64 - b) = 9223372036854775807 - sint b" if "sint b > 0"
    using that sint64_le [of b] by (subst sint64_diff) simp_all
  moreover have "sint (MinInt64 - b) = - 9223372036854775808 - sint b" if "sint b < 0"
    using that sint64_ge [of b] by (subst sint64_diff) simp_all
  ultimately show ?thesis
    using sint64_le [of a] sint64_ge [of a] by (auto simp: add_overflows_def)
qed

lemma sint_add_not_overflows: "\<not> add_overflows a b \<Longrightarrow> sint (a + b) = sint a + sint b"
  by (intro sint64_add) (simp_all add: add_overflows_iff)

lemma Money_Add_Inr:
  "Money_Add m n = Inr s \<Longrightarrow> m_Currency m = m_Currency n \<and> m_Currency s = m_Currency m
     \<and> cents s = cents m + cents n \<and> Money_Validate s = None"
  by (auto simp: Money_Add_def Money_Validate_def result_simps sint_add_not_overflows)

lemma Money_Negate_Inr:
  "Money_Negate m = Inr n \<longleftrightarrow> Money_Validate m = None \<and> m_Cents m \<noteq> MinInt64
     \<and> n = \<lparr>m_Cents = - m_Cents m, m_Currency = m_Currency m\<rparr>"
  by (auto simp: Money_Negate_def result_simps)

lemma Money_Negate_cents:
  "Money_Negate m = Inr n \<Longrightarrow> cents n = - cents m \<and> m_Currency n = m_Currency m \<and> Money_Validate n = None"
  by (auto simp: Money_Negate_Inr sint64_minus Money_Validate_def)

lemma Money_Negate_total:
  "Money_Validate m = None \<Longrightarrow> 0 \<le> cents m \<Longrightarrow> \<exists>n. Money_Negate m = Inr n"
  by (auto simp: Money_Negate_Inr)

section \<open>American odds\<close>

type_synonym american_odds = int32

definition Odds_Validate :: "american_odds \<Rightarrow> ledger_error option" where
  "Odds_Validate o' = (if sint o' > - 100 \<and> sint o' < 100 then Some ErrInvalidAmericanOdds else None)"

definition NewAmericanOdds :: "int32 \<Rightarrow> ledger_error + american_odds" where
  "NewAmericanOdds v = (case Odds_Validate v of Some e \<Rightarrow> Inl e | None \<Rightarrow> Inr v)"

definition Odds_Profit :: "american_odds \<Rightarrow> money \<Rightarrow> ledger_error + money" where
  "Odds_Profit o' stake =
    (case Odds_Validate o' of Some e \<Rightarrow> Inl e
     | None \<Rightarrow> case Money_Validate stake of Some e \<Rightarrow> Inl e
     | None \<Rightarrow> if cents stake \<le> 0 then Inl ErrInvalidStake
     else
       let numerator = (if sint o' > 0 then int64_of_int32 o' else 100);
           denominator = (if sint o' > 0 then 100 else - int64_of_int32 o')
       in if cents stake > sint (quo64 MaxInt64 numerator) then Inl ErrAmountOverflow
       else
         let product = m_Cents stake * numerator;
             profit = quo64 product denominator
         in if sint (rem64 product denominator) \<ge> sint (quo64 (denominator + 1) 2)
            then if profit = MaxInt64 then Inl ErrAmountOverflow
                 else Inr \<lparr>m_Cents = profit + 1, m_Currency = m_Currency stake\<rparr>
            else Inr \<lparr>m_Cents = profit, m_Currency = m_Currency stake\<rparr>)"

definition Odds_Return :: "american_odds \<Rightarrow> money \<Rightarrow> ledger_error + money" where
  "Odds_Return o' stake =
    (case Odds_Profit o' stake of Inl e \<Rightarrow> Inl e | Inr profit \<Rightarrow> Money_Add stake profit)"


text \<open>
  The reference: with \<open>n / d\<close> the net price per unit staked, the profit is \<open>stake * n / d\<close>
  rounded to the nearest integer, a tie upwards.
\<close>

definition odds_num :: "american_odds \<Rightarrow> int" where
  "odds_num o' = (if sint o' > 0 then sint o' else 100)"

definition odds_den :: "american_odds \<Rightarrow> int" where
  "odds_den o' = (if sint o' > 0 then 100 else - sint o')"

definition round_half_up :: "int \<Rightarrow> int \<Rightarrow> int" where
  "round_half_up p d = (2 * p + d) div (2 * d)"

lemma round_half_up_floor: "0 < d \<Longrightarrow> round_half_up p d = \<lfloor>of_int p / of_int d + 1 / 2 :: real\<rfloor>"
proof -
  assume d: "0 < d"
  then have "of_int p / of_int d + 1 / 2 = (of_int (2 * p + d) / of_int (2 * d) :: real)"
    by (simp add: field_simps)
  then show ?thesis unfolding round_half_up_def by (simp only: floor_divide_of_int_eq)
qed

lemma round_half_up_step:
  assumes "0 < d"
  shows "round_half_up p d = p div d + (if p mod d \<ge> (d + 1) div 2 then 1 else 0)"
proof -
  have expand: "p = d * q + r \<Longrightarrow> 2 * p + d = 2 * d * q + (2 * r + d)" for q r
    by (simp add: algebra_simps)
  have r: "0 \<le> p mod d" "p mod d < d" using assms by simp_all
  have "2 * p + d = 2 * d * (p div d) + (2 * (p mod d) + d)"
    by (rule expand) simp
  then have "round_half_up p d = p div d + (2 * (p mod d) + d) div (2 * d)"
    using assms unfolding round_half_up_def by (simp only:) (rule div_mult_self4, simp)
  moreover have "(2 * (p mod d) + d) div (2 * d) = (if p mod d \<ge> (d + 1) div 2 then 1 else 0)"
  proof (cases "p mod d \<ge> (d + 1) div 2")
    case True
    then have "2 * d \<le> 2 * (p mod d) + d" by linarith
    with r have "(2 * (p mod d) + d) div (2 * d) = 1"
      by (intro int_div_pos_eq [where r = "2 * (p mod d) - d"]) linarith+
    with True show ?thesis by simp
  next
    case False
    with r assms show ?thesis by (auto simp: div_pos_pos_trivial)
  qed
  ultimately show ?thesis by simp
qed

lemma odds_valid_bounds:
  assumes "Odds_Validate o' = None"
  shows "100 \<le> odds_num o'" "100 \<le> odds_den o'"
    "odds_num o' \<le> 2147483647" "odds_den o' \<le> 2147483648"
  using assms sint32_ge [of o'] sint32_le [of o']
  by (auto simp: Odds_Validate_def odds_num_def odds_den_def split: if_splits)

lemma round_half_up_bounds:
  assumes "100 \<le> d" "0 \<le> p" "p \<le> 9223372036854775807"
  shows "0 \<le> round_half_up p d" "round_half_up p d \<le> 92233720368547759"
proof -
  have "0 \<le> (2 * p + d) div (2 * d)"
    using assms by (simp add: pos_imp_zdiv_nonneg_iff)
  then show "0 \<le> round_half_up p d" by (simp add: round_half_up_def)
  have "(2 * p + d) div (2 * d) < 92233720368547760"
    using assms by (intro int_div_less) linarith+
  then show "round_half_up p d \<le> 92233720368547759" by (simp add: round_half_up_def)
qed


lemma quo64_MaxInt64:
  "0 < sint n \<Longrightarrow> sint s > sint (quo64 MaxInt64 n) \<longleftrightarrow> sint s * sint n > 9223372036854775807"
proof -
  assume n: "0 < sint n"
  have "sint (quo64 MaxInt64 n) = 9223372036854775807 div sint n"
    using n by (simp add: sint_quo64)
  moreover have "sint s > 9223372036854775807 div sint n \<longleftrightarrow> sint s * sint n > 9223372036854775807"
  proof
    assume "sint s > 9223372036854775807 div sint n"
    then show "sint s * sint n > 9223372036854775807"
      using int_div_ge [OF n, of "sint s" 9223372036854775807] by linarith
  next
    assume "sint s * sint n > 9223372036854775807"
    then show "sint s > 9223372036854775807 div sint n"
      by (rule int_div_less [OF n])
  qed
  ultimately show ?thesis by simp
qed

lemma sint_odds_words:
  assumes "Odds_Validate o' = None"
  shows "sint (if sint o' > 0 then int64_of_int32 o' else 100) = odds_num o'"
    "sint (if sint o' > 0 then 100 else - int64_of_int32 o') = odds_den o'"
proof -
  show "sint (if sint o' > 0 then int64_of_int32 o' else 100) = odds_num o'"
    by (simp add: odds_num_def)
  have "int64_of_int32 o' \<noteq> MinInt64"
    using sint32_ge [of o'] by (auto simp: word64_eq_iff)
  then show "sint (if sint o' > 0 then 100 else - int64_of_int32 o') = odds_den o'"
    by (simp add: odds_den_def sint64_minus)
qed

lemma sint_inc_half:
  "0 < sint d \<Longrightarrow> sint d \<le> 2147483648 \<Longrightarrow> sint (quo64 (d + 1) 2) = (sint d + 1) div 2"
  by (subst sint_quo64) (simp_all add: sint64_add)

text \<open>The whole of \<open>Profit\<close> on valid input: the reference value, or overflow; no other outcome.\<close>

lemma Odds_Profit_eq:
  assumes "Odds_Validate o' = None" "Money_Validate stake = None" "0 < cents stake"
  shows "Odds_Profit o' stake =
    (if cents stake * odds_num o' > 9223372036854775807 then Inl ErrAmountOverflow
     else Inr \<lparr>m_Cents = word_of_int (round_half_up (cents stake * odds_num o') (odds_den o')),
               m_Currency = m_Currency stake\<rparr>)"
proof -
  define n where "n = (if sint o' > 0 then int64_of_int32 o' else (100 :: int64))"
  define d where "d = (if sint o' > 0 then (100 :: int64) else - int64_of_int32 o')"
  have n: "sint n = odds_num o'" and d: "sint d = odds_den o'"
    using sint_odds_words [OF assms(1)] unfolding n_def d_def by simp_all
  note b = odds_valid_bounds [OF assms(1)]
  let ?p = "cents stake * odds_num o'"
  have code: "Odds_Profit o' stake =
     (if cents stake > sint (quo64 MaxInt64 n) then Inl ErrAmountOverflow
      else if sint (rem64 (m_Cents stake * n) d) \<ge> sint (quo64 (d + 1) 2)
        then if quo64 (m_Cents stake * n) d = MaxInt64 then Inl ErrAmountOverflow
          else Inr \<lparr>m_Cents = quo64 (m_Cents stake * n) d + 1, m_Currency = m_Currency stake\<rparr>
        else Inr \<lparr>m_Cents = quo64 (m_Cents stake * n) d, m_Currency = m_Currency stake\<rparr>)"
    using assms by (simp add: Odds_Profit_def Let_def n_def [symmetric] d_def [symmetric] not_le)
  show ?thesis
  proof (cases "?p > 9223372036854775807")
    case True
    then show ?thesis using b by (simp add: code quo64_MaxInt64 n)
  next
    case False
    have p: "0 < ?p" using assms(3) b by (intro mult_pos_pos) simp_all
    then have prod: "sint (m_Cents stake * n) = ?p"
      using False by (subst sint64_mult) (simp_all add: n)
    have q: "sint (quo64 (m_Cents stake * n) d) = ?p div odds_den o'"
      "sint (rem64 (m_Cents stake * n) d) = ?p mod odds_den o'"
      using p b by (simp_all add: sint_quo64 sint_rem64 prod d)
    have small: "?p div odds_den o' < 92233720368547760"
      using False b by (intro int_div_less) linarith+
    have nn: "0 \<le> ?p div odds_den o'" using p b by (simp add: pos_imp_zdiv_nonneg_iff)
    have half: "sint (quo64 (d + 1) 2) = (odds_den o' + 1) div 2"
      using b by (subst sint_inc_half) (simp_all add: d)
    have step: "round_half_up ?p (odds_den o') =
        ?p div odds_den o' + (if ?p mod odds_den o' \<ge> (odds_den o' + 1) div 2 then 1 else 0)"
      using b by (intro round_half_up_step) simp
    have "quo64 (m_Cents stake * n) d \<noteq> MaxInt64"
      using small q by (auto simp: word64_eq_iff)
    moreover have "quo64 (m_Cents stake * n) d + 1 = word_of_int (?p div odds_den o' + 1)"
      "quo64 (m_Cents stake * n) d = word_of_int (?p div odds_den o')"
      using small nn by (simp_all add: word64_eq_iff q sint64_add sint64_of_int)
    ultimately show ?thesis
      using False b step by (simp add: code quo64_MaxInt64 n q half)
  qed
qed

lemma Odds_Profit_InrD:
  assumes "Odds_Profit o' stake = Inr r"
  shows "Odds_Validate o' = None" "Money_Validate stake = None" "0 < cents stake"
    "cents stake * odds_num o' \<le> 9223372036854775807"
    "cents r = round_half_up (cents stake * odds_num o') (odds_den o')"
    "m_Currency r = m_Currency stake" "0 \<le> cents r" "cents r \<le> 92233720368547759"
    "cents stake \<le> 92233720368547758"
proof -
  show v: "Odds_Validate o' = None" "Money_Validate stake = None" "0 < cents stake"
    using assms by (auto simp: Odds_Profit_def result_simps not_le)
  note eq = Odds_Profit_eq [OF v]
  note b = odds_valid_bounds [OF v(1)]
  show le: "cents stake * odds_num o' \<le> 9223372036854775807"
    using assms unfolding eq by (simp split: if_splits)
  have r: "r = \<lparr>m_Cents = word_of_int (round_half_up (cents stake * odds_num o') (odds_den o')),
               m_Currency = m_Currency stake\<rparr>"
    using assms le unfolding eq by simp
  have "0 \<le> cents stake * odds_num o'" using v(3) b by simp
  note rb = round_half_up_bounds [OF b(2) this le]
  show c: "cents r = round_half_up (cents stake * odds_num o') (odds_den o')"
    using rb by (simp add: r sint64_of_int)
  show "m_Currency r = m_Currency stake" by (simp add: r)
  show "0 \<le> cents r" "cents r \<le> 92233720368547759" using rb c by simp_all
  have "cents stake * 100 \<le> cents stake * odds_num o'"
    using v(3) b by (intro mult_left_mono) simp_all
  then show "cents stake \<le> 92233720368547758" using le by linarith
qed

text \<open>Stake and profit of a priced wager can always be added: \<open>Return\<close> adds no failure of its own.\<close>

lemma Odds_Return_eq:
  assumes "Odds_Profit o' stake = Inr r"
  shows "\<exists>t. Odds_Return o' stake = Inr t \<and> cents t = cents stake + cents r \<and> m_Currency t = m_Currency stake"
proof -
  note D = Odds_Profit_InrD [OF assms]
  have no: "\<not> add_overflows (m_Cents stake) (m_Cents r)"
    using D by (simp add: add_overflows_iff)
  have "Money_Validate r = None" using D by (simp add: Money_Validate_def)
  with no D have "Odds_Return o' stake = Inr \<lparr>m_Cents = m_Cents stake + m_Cents r, m_Currency = m_Currency stake\<rparr>"
    using assms by (simp add: Odds_Return_def Money_Add_def)
  then show ?thesis using no by (simp add: sint_add_not_overflows)
qed

end
