(* ===== verification/Pricing.thy ===== *)
theory Pricing
  imports Float64 Ledger
begin

text \<open>
  The package \<open>internal/pricing\<close>: conversion between American odds and implied probability, and
  exposure-based repricing with its drift floors. The arithmetic is binary64 as the theory
  \<open>Float64\<close> has it; \<open>math.Exp\<close> has no specified result in its last place, so it is the
  parameter \<open>exp64\<close> of \<open>Reprice\<close>.
\<close>

section \<open>Odds and probabilities\<close>

datatype pricing_error =
    ErrTooFewSelections | ErrLiquidityNotPositive | ErrNegativeStake | PricingLedger ledger_error

definition MaxOdds :: int where
  "MaxOdds = 10000"

definition ImpliedProbability :: "american_odds \<Rightarrow> float64" where
  "ImpliedProbability o' =
    (let value = fl (of_int (sint o'))
     in if sint o' > 0 then fdiv 100 (fadd value 100)
        else fdiv (- value) (fadd (- value) 100))"

definition AmericanFromProbability :: "float64 \<Rightarrow> pricing_error + american_odds" where
  "AmericanFromProbability probability =
    (let minProb = fl (100 / (of_int MaxOdds + 100));
         maxProb = fl (of_int MaxOdds / (of_int MaxOdds + 100));
         p1 = (if probability < minProb then minProb else probability);
         p = (if p1 > maxProb then maxProb else p1);
         value1 =
           (if p \<le> 1 / 2
            then let v = math_Round (fdiv (fmul 100 (fsub 1 p)) p) in if v < 100 then 100 else v
            else let v = - math_Round (fdiv (fmul 100 p) (fsub 1 p)) in if v > - 100 then - 100 else v);
         value2 = (if value1 > MaxOdds then MaxOdds else value1);
         value3 = (if value2 < - MaxOdds then - MaxOdds else value2)
     in map_sum PricingLedger id (NewAmericanOdds (word_of_int value3)))"

definition shortenOnePoint :: "american_odds \<Rightarrow> ledger_error + american_odds" where
  "shortenOnePoint o' =
    (if sint o' > 100 then NewAmericanOdds (o' - 1)
     else if o' = 100 then NewAmericanOdds (- 100)
     else if sint o' > - MaxOdds then NewAmericanOdds (o' - 1)
     else Inr o')"

section \<open>Repricing\<close>

record selection_input =
  si_OpeningOdds :: american_odds
  si_StakeCents :: int64

fun reprice_priors :: "selection_input list \<Rightarrow> float64 \<Rightarrow> pricing_error + (float64 list \<times> float64)" where
  \<comment> \<open>the first loop of \<open>Reprice\<close>: the priors and their running sum\<close>
  "reprice_priors [] overround = Inr ([], overround)"
| "reprice_priors (s # ss) overround =
    (case Odds_Validate (si_OpeningOdds s) of Some e \<Rightarrow> Inl (PricingLedger e)
     | None \<Rightarrow> if sint (si_StakeCents s) < 0 then Inl ErrNegativeStake
     else let prior = ImpliedProbability (si_OpeningOdds s)
       in case reprice_priors ss (fadd overround prior) of Inl e \<Rightarrow> Inl e
          | Inr (priors, margin) \<Rightarrow> Inr (prior # priors, margin))"

definition maxTiltExponent :: float64 where
  "maxTiltExponent = 40"

definition reprice_weight :: "(float64 \<Rightarrow> float64) \<Rightarrow> float64 \<Rightarrow> selection_input \<Rightarrow> float64 \<Rightarrow> float64" where
  "reprice_weight exp64 liquidity s prior =
    (let exponent = fdiv (fl (of_int (sint (si_StakeCents s)))) liquidity
     in fmul prior (exp64 (if exponent > maxTiltExponent then maxTiltExponent else exponent)))"

definition fsum :: "float64 list \<Rightarrow> float64" where
  "fsum xs = foldl fadd 0 xs"

definition driftFloors :: "float64 list \<Rightarrow> float64 \<Rightarrow> float64 list" where
  "driftFloors priors overround =
    (let f = fmul (fdiv (fsub overround 1) overround) (fl (8 / 10));
         fraction = (if f < 0 then 0 else f)
     in map (\<lambda>prior. fmul prior (fsub 1 fraction)) priors)"

text \<open>
  One pass of \<open>applyDriftFloors\<close> over triples (probability, floor, clamped): the updated triples,
  the sums \<open>fixed\<close> and \<open>free\<close>, and whether something was newly clamped.
\<close>

type_synonym drift = "float64 \<times> float64 \<times> bool"

fun drift_scan :: "drift list \<Rightarrow> float64 \<Rightarrow> float64 \<Rightarrow> bool \<Rightarrow> drift list \<times> float64 \<times> float64 \<times> bool" where
  "drift_scan [] fixed free newly = ([], fixed, free, newly)"
| "drift_scan ((p, f, clamped) # ds) fixed free newly =
    (if clamped
     then let (r, rest) = drift_scan ds (fadd fixed f) free newly in ((p, f, True) # r, rest)
     else if p < f
     then let (r, rest) = drift_scan ds (fadd fixed f) free True in ((f, f, True) # r, rest)
     else let (r, rest) = drift_scan ds fixed (fadd free p) newly in ((p, f, False) # r, rest))"

definition drift_scale :: "float64 \<Rightarrow> drift \<Rightarrow> drift" where
  "drift_scale scale d = (case d of (p, f, clamped) \<Rightarrow> (if clamped then p else fmul p scale, f, clamped))"

fun drift_passes :: "nat \<Rightarrow> drift list \<Rightarrow> float64 \<Rightarrow> drift list" where
  "drift_passes 0 ds overround = ds"
| "drift_passes (Suc n) ds overround =
    (let (r, fixed, free, newly) = drift_scan ds 0 0 False
     in if \<not> newly \<or> free \<le> 0 then r
        else drift_passes n (map (drift_scale (fdiv (fsub overround fixed) free)) r) overround)"

definition applyDriftFloors :: "float64 list \<Rightarrow> float64 list \<Rightarrow> float64 \<Rightarrow> float64 list" where
  "applyDriftFloors probabilities floors overround =
    map fst (drift_passes (Suc (length probabilities))
      (map (\<lambda>(p, f). (p, f, False)) (zip probabilities floors)) overround)"

definition maxRoundingSteps :: nat where
  "maxRoundingSteps = 32"

fun round_back :: "nat \<Rightarrow> american_odds \<Rightarrow> float64 \<Rightarrow> american_odds" where
  "round_back 0 o' floor' = o'"
| "round_back (Suc n) o' floor' =
    (if ImpliedProbability o' < floor'
     then case shortenOnePoint o' of Inl e \<Rightarrow> o'
       | Inr shorter \<Rightarrow> if shorter = o' then o' else round_back n shorter floor'
     else o')"

fun reprice_results :: "float64 list \<Rightarrow> float64 list \<Rightarrow> pricing_error + american_odds list" where
  "reprice_results (p # ps) (f # fs) =
    (case AmericanFromProbability p of Inl e \<Rightarrow> Inl e
     | Inr o' \<Rightarrow> case reprice_results ps fs of Inl e \<Rightarrow> Inl e
       | Inr os \<Rightarrow> Inr (round_back maxRoundingSteps o' f # os))"
| "reprice_results _ _ = Inr []"

definition Reprice :: "(float64 \<Rightarrow> float64) \<Rightarrow> selection_input list \<Rightarrow> int64 \<Rightarrow> pricing_error + american_odds list" where
  "Reprice exp64 selections liquidityCents =
    (if length selections < 2 then Inl ErrTooFewSelections
     else if sint liquidityCents \<le> 0 then Inl ErrLiquidityNotPositive
     else case reprice_priors selections 0 of Inl e \<Rightarrow> Inl e
     | Inr (priors, overround) \<Rightarrow>
       let liquidity = fl (of_int (sint liquidityCents));
           weights = map2 (reprice_weight exp64 liquidity) selections priors;
           ratio = fdiv overround (fsum weights);
           floors = driftFloors priors overround;
           probabilities = applyDriftFloors (map (\<lambda>w. fmul w ratio) weights) floors overround
       in reprice_results probabilities floors)"


section \<open>Implied probabilities\<close>

lemma fl_odds: "fl (of_int (sint (o' :: int32))) = of_int (sint o')"
  using sint32_ge [of o'] sint32_le [of o'] by (intro fl_int_exact) simp

lemma fl_odds_100: "\<bar>k\<bar> \<le> 2147483648 \<Longrightarrow> fl (of_int k + 100) = of_int k + 100"
  using fl_int_exact [of "k + 100"] by simp

lemma ImpliedProbability_underdog:
  "0 < sint o' \<Longrightarrow> ImpliedProbability o' = fl (100 / (of_int (sint o') + 100))"
  using sint32_le [of o']
  by (simp add: ImpliedProbability_def Let_def fl_odds fadd_def fdiv_def fl_odds_100)

lemma ImpliedProbability_favourite:
  assumes "sint o' \<le> 0"
  shows "ImpliedProbability o' = fl (of_int (- sint o') / (of_int (- sint o') + 100))"
proof -
  have "fl (of_int (- sint o') + 100) = of_int (- sint o') + 100"
    using assms sint32_ge [of o'] by (intro fl_odds_100) simp
  with assms show ?thesis
    by (simp add: ImpliedProbability_def Let_def fl_odds fadd_def fdiv_def)
qed

lemma ImpliedProbability_underdog_le:
  assumes "100 \<le> sint o'"
  shows "ImpliedProbability o' \<le> 1 / 2"
proof -
  have "100 \<le> (of_int (sint o') :: rat)" using assms by simp
  then have "100 / (of_int (sint o') + 100 :: rat) \<le> 1 / 2" by (simp add: field_simps)
  from fl_mono [OF this] show ?thesis using assms by (simp add: ImpliedProbability_underdog)
qed

lemma ImpliedProbability_bounds:
  assumes "Odds_Validate o' = None"
  shows "0 < ImpliedProbability o'" "ImpliedProbability o' < 1"
proof -
  consider "100 \<le> sint o'" | "sint o' \<le> - 100"
    using assms by (auto simp: Odds_Validate_def split: if_splits)
  then have "0 < ImpliedProbability o' \<and> ImpliedProbability o' < 1"
  proof cases
    case 1
    then have "0 < fl (100 / (of_int (sint o') + 100))"
      by (intro fl_pos divide_pos_pos) simp_all
    with 1 ImpliedProbability_underdog_le [OF 1] show ?thesis
      by (simp add: ImpliedProbability_underdog)
  next
    case 2
    let ?n = "of_int (- sint o') :: rat"
    have n: "100 \<le> ?n" "?n \<le> 2147483648"
      using 2 sint32_ge [of o'] by linarith+
    have "0 < fl (?n / (?n + 100))" using n by (intro fl_pos divide_pos_pos) linarith+
    moreover have "fl (?n / (?n + 100)) < 1"
    proof -
      have "?n * (1 + 1 / 2 ^ 53) < ?n + 100" using n by simp
      then have "?n / (?n + 100) * (1 + 1 / 2 ^ 53) < 1" using n by (simp add: field_simps)
      moreover have "0 \<le> ?n / (?n + 100)" using n by (intro divide_nonneg_pos) linarith+
      ultimately show ?thesis using fl_upper [of "?n / (?n + 100)"] by linarith
    qed
    ultimately show ?thesis using 2 by (simp add: ImpliedProbability_favourite)
  qed
  then show "0 < ImpliedProbability o'" "ImpliedProbability o' < 1" by simp_all
qed

section \<open>From a probability to a line\<close>

definition in_window :: "american_odds \<Rightarrow> bool" where
  "in_window o' \<longleftrightarrow> (100 \<le> sint o' \<and> sint o' \<le> MaxOdds) \<or> (- MaxOdds \<le> sint o' \<and> sint o' \<le> - 100)"

lemma in_window_valid: "in_window o' \<Longrightarrow> Odds_Validate o' = None"
  by (auto simp: in_window_def Odds_Validate_def)

definition clamp_probability :: "float64 \<Rightarrow> float64" where
  "clamp_probability p = min (max p (fl (100 / 10100))) (fl (10000 / 10100))"

definition underdog_line :: "float64 \<Rightarrow> int" where
  "underdog_line p = math_Round (fdiv (fmul 100 (fsub 1 p)) p)"

definition favourite_line :: "float64 \<Rightarrow> int" where
  "favourite_line p = math_Round (fdiv (fmul 100 p) (fsub 1 p))"

lemma AmericanFromProbability_eq:
  "AmericanFromProbability probability =
    (let p = clamp_probability probability
     in if p \<le> 1 / 2 then Inr (word_of_int (min 10000 (max 100 (underdog_line p))))
        else Inr (word_of_int (max (- 10000) (min (- 100) (- favourite_line p)))))"
proof -
  define lo hi where "lo = fl (100 / (of_int MaxOdds + 100))" and "hi = fl (of_int MaxOdds / (of_int MaxOdds + 100))"
  have le: "lo \<le> hi" unfolding lo_def hi_def by (intro fl_mono) (simp add: MaxOdds_def)
  let ?q = "if probability < lo then lo else probability"
  have p: "(if ?q > hi then hi else ?q) = clamp_probability probability"
    using le by (auto simp: clamp_probability_def lo_def hi_def MaxOdds_def min_def max_def)
  have valid: "NewAmericanOdds (word_of_int k) = Inr (word_of_int k)"
    if "(100 \<le> k \<and> k \<le> 10000) \<or> (- 10000 \<le> k \<and> k \<le> - 100)" for k
    using that by (auto simp: NewAmericanOdds_def Odds_Validate_def sint32_of_int)
  show ?thesis
    unfolding AmericanFromProbability_def Let_def lo_def [symmetric] hi_def [symmetric] p
      underdog_line_def [symmetric] favourite_line_def [symmetric]
    using valid by (auto simp: MaxOdds_def min_def max_def)
qed

lemma AmericanFromProbability_window:
  "\<exists>o'. AmericanFromProbability p = Inr o' \<and> in_window o' \<and> (0 < sint o' \<longleftrightarrow> clamp_probability p \<le> 1 / 2)"
proof (cases "clamp_probability p \<le> 1 / 2")
  case True
  define k where "k = min 10000 (max 100 (underdog_line (clamp_probability p)))"
  have "100 \<le> k" "k \<le> 10000" by (simp_all add: k_def)
  then show ?thesis
    using True by (simp add: AmericanFromProbability_eq Let_def in_window_def MaxOdds_def sint32_of_int flip: k_def)
next
  case False
  define k where "k = max (- 10000) (min (- 100) (- favourite_line (clamp_probability p)))"
  have "k \<le> - 100" "- 10000 \<le> k" by (simp_all add: k_def)
  then show ?thesis
    using False by (simp add: AmericanFromProbability_eq Let_def in_window_def MaxOdds_def sint32_of_int flip: k_def)
qed


section \<open>Round trip\<close>

text \<open>
  Four roundings lie between a line and the line recovered from its implied probability; together
  they move it by far less than half a point.
\<close>

abbreviation ulp :: rat where
  "ulp \<equiv> 1 / 2 ^ 53"

lemma fl_between: "0 \<le> x \<Longrightarrow> x * (1 - ulp) \<le> fl x \<and> fl x \<le> x * (1 + ulp)"
  using fl_lower fl_upper by blast


lemma mult_between: "0 \<le> c \<Longrightarrow> a \<le> b \<Longrightarrow> c * a \<le> c * b" for a b c :: rat
  by (rule mult_left_mono)

text \<open>A rounded quotient of a rounded hundredfold: within three roundings of the exact one.\<close>

lemma rounded_quotient:
  assumes "0 \<le> a" "0 < b"
    and "a * (1 - ulp) \<le> a'" "a' \<le> a * (1 + ulp)" "b * (1 - ulp) \<le> b'" "b' \<le> b * (1 + ulp)"
  shows "100 * a / b * ((1 - ulp) * (1 - ulp) * (1 - ulp) / (1 + ulp)) \<le> fl (fl (100 * a') / b')"
    "fl (fl (100 * a') / b') \<le> 100 * a / b * ((1 + ulp) * (1 + ulp) * (1 + ulp) / (1 - ulp))"
proof -
  define r where "r = fl (100 * a')"
  have a0: "0 \<le> a'" using assms(1,3) mult_nonneg_nonneg [of a "1 - ulp"] by simp
  have b0: "0 < b'" using assms(2,5) mult_pos_pos [of b "1 - ulp"] by simp
  have r: "100 * a' * (1 - ulp) \<le> r" "r \<le> 100 * a' * (1 + ulp)"
    unfolding r_def using fl_between [of "100 * a'"] a0 by simp_all
  have "100 * (a * (1 - ulp)) * (1 - ulp) \<le> 100 * a' * (1 - ulp)"
    "100 * a' * (1 + ulp) \<le> 100 * (a * (1 + ulp)) * (1 + ulp)"
    using assms by (intro mult_right_mono mult_left_mono; simp)+
  with r have r': "100 * (a * (1 - ulp)) * (1 - ulp) \<le> r" "r \<le> 100 * (a * (1 + ulp)) * (1 + ulp)"
    by (blast intro: order_trans)+
  have r0: "0 \<le> r" using r(1) a0 mult_nonneg_nonneg [of "100 * a'" "1 - ulp"] by simp
  have "100 * (a * (1 - ulp)) * (1 - ulp) / (b * (1 + ulp)) \<le> r / b'"
    using assms r' r0 b0 by (intro frac_le) simp_all
  then have "100 * (a * (1 - ulp)) * (1 - ulp) / (b * (1 + ulp)) * (1 - ulp) \<le> r / b' * (1 - ulp)"
    by (rule mult_right_mono) simp
  moreover have "r / b' \<le> 100 * (a * (1 + ulp)) * (1 + ulp) / (b * (1 - ulp))"
    using assms r' r0 b0 by (intro frac_le) simp_all
  then have "r / b' * (1 + ulp) \<le> 100 * (a * (1 + ulp)) * (1 + ulp) / (b * (1 - ulp)) * (1 + ulp)"
    by (rule mult_right_mono) simp
  moreover have "r / b' * (1 - ulp) \<le> fl (r / b')" "fl (r / b') \<le> r / b' * (1 + ulp)"
    using fl_between [of "r / b'"] r0 b0 by simp_all
  ultimately have
    "100 * (a * (1 - ulp)) * (1 - ulp) / (b * (1 + ulp)) * (1 - ulp) \<le> fl (r / b')"
    "fl (r / b') \<le> 100 * (a * (1 + ulp)) * (1 + ulp) / (b * (1 - ulp)) * (1 + ulp)"
    by (blast intro: order_trans)+
  moreover have "100 * (a * x) * x / (b * y) * x = 100 * a / b * (x * x * x / y)" for x y
    by simp
  ultimately show "100 * a / b * ((1 - ulp) * (1 - ulp) * (1 - ulp) / (1 + ulp)) \<le> fl (fl (100 * a') / b')"
    "fl (fl (100 * a') / b') \<le> 100 * a / b * ((1 + ulp) * (1 + ulp) * (1 + ulp) / (1 - ulp))"
    unfolding r_def by (simp_all only:)
qed

lemma rounded_line:
  assumes "101 \<le> n \<or> 100 \<le> n" "n \<le> 10000" "0 \<le> a" "0 < b"
    and "of_int n - 1 / 10 \<le> 100 * a / b" "100 * a / b \<le> of_int n + 1 / 10"
    and "a * (1 - ulp) \<le> a'" "a' \<le> a * (1 + ulp)" "b * (1 - ulp) \<le> b'" "b' \<le> b * (1 + ulp)"
  shows "math_Round (fl (fl (100 * a') / b')) = n"
proof -
  let ?N = "of_int n :: rat" and ?v = "fl (fl (100 * a') / b')"
  have N: "100 \<le> ?N" "?N \<le> 10000" using assms(1,2) by auto
  note q = rounded_quotient [OF assms(3,4,7-10)]
  have "?v \<le> (?N + 1 / 10) * ((1 + ulp) * (1 + ulp) * (1 + ulp) / (1 - ulp))"
    by (rule order_trans [OF q(2)]) (intro mult_right_mono assms(6), simp)
  then have "?v < ?N + 1 / 2" using N by simp
  moreover have "(?N - 1 / 10) * ((1 - ulp) * (1 - ulp) * (1 - ulp) / (1 + ulp)) \<le> ?v"
    by (rule order_trans [OF _ q(1)]) (intro mult_right_mono assms(5), simp)
  then have "?N - 1 / 2 < ?v" using N by simp
  ultimately have "\<bar>?v - ?N\<bar> < 1 / 2" "0 \<le> ?v" using N by linarith+
  then show ?thesis by (intro math_Round_nearest)
qed

lemma self_between: "0 \<le> x \<Longrightarrow> x * (1 - ulp) \<le> x \<and> x \<le> x * (1 + ulp)"
  by (simp add: mult_le_cancel_left1 mult_le_cancel_left2)

lemma underdog_line_exact:
  assumes "100 \<le> n" "n \<le> 10000" "p = fl (100 / (of_int n + 100))"
  shows "underdog_line p = n"
proof -
  let ?N = "of_int n :: rat"
  have N: "100 \<le> ?N" "?N \<le> 10000" using assms by linarith+
  define P where "P = 100 / (?N + 100)"
  have P: "0 < P" "P \<le> 1 / 2" using N by (simp_all add: P_def field_simps)
  have p: "P * (1 - ulp) \<le> p" "p \<le> P * (1 + ulp)"
    using fl_between [of P] P by (simp_all add: assms(3) P_def)
  have "P * (1 - ulp) > 0" "P * (1 + ulp) < 1" using P by simp_all
  with p have p0: "0 < p" and p1: "p < 1" by linarith+
  have "100 / (P * (1 + ulp)) \<le> 100 / p" "100 / p \<le> 100 / (P * (1 - ulp))"
    using p p0 P by (intro divide_left_mono mult_pos_pos; simp)+
  then have inv: "(?N + 100) / (1 + ulp) \<le> 100 / p" "100 / p \<le> (?N + 100) / (1 - ulp)"
    using N by (simp_all add: P_def)
  have "100 * (1 - p) / p = 100 / p - 100" using p0 by (simp add: field_simps)
  moreover have "?N + 100 - 1 / 10 \<le> (?N + 100) / (1 + ulp)" "(?N + 100) / (1 - ulp) \<le> ?N + 100 + 1 / 10"
    using N by (simp_all add: field_simps)
  ultimately have "?N - 1 / 10 \<le> 100 * (1 - p) / p" "100 * (1 - p) / p \<le> ?N + 1 / 10"
    using inv by linarith+
  then have "math_Round (fl (fl (100 * fl (1 - p)) / p)) = n"
    using assms p0 p1 fl_between [of "1 - p"] self_between [of p]
    by (intro rounded_line [where a = "1 - p" and b = p]) simp_all
  then show ?thesis by (simp add: underdog_line_def fdiv_def fmul_def fsub_def)
qed

lemma favourite_exact_quotient:
  assumes "101 \<le> n" "n \<le> 10000" "p = fl (of_int n / (of_int n + 100))"
  shows "0 < p" "p < 1" "of_int n - 1 / 10 \<le> 100 * p / (1 - p)" "100 * p / (1 - p) \<le> of_int n + 1 / 10"
proof -
  let ?N = "of_int n :: rat"
  have N: "101 \<le> ?N" "?N \<le> 10000" using assms by linarith+
  define P where "P = ?N / (?N + 100)"
  have P: "0 < P" "(?N + 100) * P = ?N" using N by (simp_all add: P_def)
  have p: "P * (1 - ulp) \<le> p" "p \<le> P * (1 + ulp)"
    using fl_between [of P] P by (simp_all add: assms(3) P_def)
  show p0: "0 < p" using p(1) P mult_pos_pos [of P "1 - ulp"] by simp
  define A B where "A = (?N + 100) * p" and "B = (?N + 100) * (1 - p)"
  have "(?N + 100) * (P * (1 - ulp)) \<le> (?N + 100) * p" "(?N + 100) * p \<le> (?N + 100) * (P * (1 + ulp))"
    using p N by (intro mult_left_mono; simp)+
  then have "?N * (1 - ulp) \<le> A" "A \<le> ?N * (1 + ulp)"
    by (simp_all only: A_def mult.assoc [symmetric] P(2))
  moreover have AB: "A + B = ?N + 100" by (simp add: A_def B_def algebra_simps)
  ultimately have B: "100 - ?N * ulp \<le> B" "B \<le> 100 + ?N * ulp" by (simp_all add: algebra_simps)
  have B0: "0 < B" using B(1) N by simp
  then show p1: "p < 1" using N by (simp add: B_def zero_less_mult_iff)
  have "?N * B \<ge> ?N * (100 - ?N * ulp)" "?N * B \<le> ?N * (100 + ?N * ulp)"
    using B N by (intro mult_left_mono; simp)+
  moreover have "?N * ?N \<le> 10000 * 10000" using N by (intro mult_mono) simp_all
  ultimately have "100 * A \<le> (?N + 1 / 10) * B" "(?N - 1 / 10) * B \<le> 100 * A"
    using AB B N by (simp_all add: algebra_simps)
  then have "100 * A / B \<le> ?N + 1 / 10" "?N - 1 / 10 \<le> 100 * A / B"
    using B0 by (simp_all add: pos_divide_le_eq pos_le_divide_eq)
  moreover have "100 * p / (1 - p) = 100 * A / B" using N by (simp add: A_def B_def)
  ultimately show "?N - 1 / 10 \<le> 100 * p / (1 - p)" "100 * p / (1 - p) \<le> ?N + 1 / 10" by simp_all
qed

lemma favourite_line_exact:
  assumes "101 \<le> n" "n \<le> 10000" "p = fl (of_int n / (of_int n + 100))"
  shows "favourite_line p = n"
proof -
  note q = favourite_exact_quotient [OF assms]
  have "math_Round (fl (fl (100 * p) / fl (1 - p))) = n"
    using assms(1,2) q fl_between [of "1 - p"] self_between [of p]
    by (intro rounded_line [where a = p and b = "1 - p"]) simp_all
  then show ?thesis by (simp add: favourite_line_def fdiv_def fmul_def fsub_def)
qed


lemma AmericanFromProbability_implied:
  assumes "in_window o'" "o' \<noteq> - 100"
  shows "AmericanFromProbability (ImpliedProbability o') = Inr o'"
proof -
  let ?p = "ImpliedProbability o'"
  consider "100 \<le> sint o'" "sint o' \<le> 10000" | "- 10000 \<le> sint o'" "sint o' \<le> - 101"
  proof -
    have "sint o' \<noteq> - 100" using assms(2) by (auto simp: word32_eq_iff)
    then show thesis using assms(1) that by (auto simp: in_window_def MaxOdds_def)
  qed
  then show ?thesis
  proof cases
    case 1
    let ?n = "of_int (sint o') :: rat"
    have n: "100 \<le> ?n" "?n \<le> 10000" using 1 by simp_all
    have p: "?p = fl (100 / (?n + 100))" using 1 by (simp add: ImpliedProbability_underdog)
    have "100 / 10100 \<le> 100 / (?n + 100)" "100 / (?n + 100) \<le> 10000 / 10100"
      using n by (simp_all add: field_simps)
    then have "clamp_probability ?p = ?p"
      unfolding clamp_probability_def p by (simp add: fl_mono min_absorb1 max_absorb1)
    moreover have "?p \<le> 1 / 2" using 1 by (rule_tac ImpliedProbability_underdog_le)
    moreover have "underdog_line ?p = sint o'" using 1 p by (rule underdog_line_exact)
    ultimately show ?thesis using 1 by (simp add: AmericanFromProbability_eq Let_def)
  next
    case 2
    let ?n = "of_int (- sint o') :: rat"
    have n: "101 \<le> ?n" "?n \<le> 10000" using 2 by linarith+
    have p: "?p = fl (?n / (?n + 100))" using 2 by (simp add: ImpliedProbability_favourite)
    have "100 / 10100 \<le> ?n / (?n + 100)" "?n / (?n + 100) \<le> 10000 / 10100" "101 / 201 \<le> ?n / (?n + 100)"
      using n by (simp_all add: field_simps)
    then have "clamp_probability ?p = ?p" "fl (101 / 201) \<le> ?p"
      unfolding clamp_probability_def p by (simp_all add: fl_mono min_absorb1 max_absorb1)
    moreover have "1 / 2 < fl (101 / 201)" using fl_lower [of "101 / 201"] by simp
    moreover have "favourite_line ?p = - sint o'" using 2 p by (intro favourite_line_exact) simp_all
    ultimately show ?thesis using 2 by (simp add: AmericanFromProbability_eq Let_def)
  qed
qed

lemma round_back_window:
  "in_window o' \<Longrightarrow> in_window (round_back k o' f)"
proof (induction k o' f rule: round_back.induct)
  case (2 k o' f)
  have step: "in_window s" if "shortenOnePoint o' = Inr s" for s
  proof -
    have b: "sint (o' - 1) = sint o' - 1" if "- 2147483648 < sint o'"
      using that sint32_le [of o'] by (simp add: sint_word_diff signed_take_bit_int_eq_self)
    show ?thesis
      using that "2.prems" b
      by (auto simp: shortenOnePoint_def NewAmericanOdds_def in_window_def MaxOdds_def Odds_Validate_def
            split: if_splits option.splits)
  qed
  show ?case using 2 step by (auto split: sum.splits)
qed simp

text \<open>The walk back stops on a price that clears its floor, on the shortest price, or after its last step.\<close>

lemma round_back_shortens: "in_window o' \<Longrightarrow> sint o' < 0 \<Longrightarrow> sint (round_back k o' f) \<le> sint o'"
proof (induction k o' f rule: round_back.induct)
  case (2 k o' f)
  have b: "sint (o' - 1) = sint o' - 1" if "- 2147483648 < sint o'"
    using that sint32_le [of o'] by (simp add: sint_word_diff signed_take_bit_int_eq_self)
  have step: "in_window s \<and> sint s < 0 \<and> sint s \<le> sint o'" if "shortenOnePoint o' = Inr s" for s
    using that "2.prems" b
    by (auto simp: shortenOnePoint_def NewAmericanOdds_def in_window_def MaxOdds_def Odds_Validate_def
          split: if_splits option.splits)
  show ?case using 2 step by (fastforce split: sum.splits)
qed simp

end
