(* ===== verification/Postings.thy ===== *)
theory Postings
  imports Ledger
begin

text \<open>
  \<open>internal/ledger/posting.go\<close>: transactions, the validation of their postings, and what a valid
  transaction does to the balances of the book. The second half is the contract every money
  operation of \<open>internal/betting\<close> is held to: the locale \<open>transaction_builder\<close> assumes that a
  builder only returns transactions that validate, and shows that the book then conserves money.
\<close>

section \<open>Transactions\<close>

datatype transaction_type =
    TransactionWagerAcceptance | TransactionWagerWin | TransactionWagerLoss
  | TransactionWagerRefund | TransactionAdminAdjustment | TransactionMigrationAdjust
  | TransactionReversal | TransactionTypeOther string

fun TransactionType_Validate :: "transaction_type \<Rightarrow> ledger_error option" where
  "TransactionType_Validate (TransactionTypeOther s) = Some ErrInvalidTransaction"
| "TransactionType_Validate _ = None"

record posting =
  p_AccountID :: string
  p_Amount :: money

record transaction =
  t_Type :: transaction_type
  t_Currency :: currency
  t_IdempotencyKey :: string
  t_Actor :: string
  t_SourceType :: string
  t_SourceID :: string
  t_Reason :: string
  t_ReversalOf :: string
  t_Postings :: "posting list"

definition ExpectedPostingCount :: "transaction \<Rightarrow> nat" where
  "ExpectedPostingCount t = length (t_Postings t)"

fun validate_postings_loop :: "currency \<Rightarrow> posting list \<Rightarrow> string list \<Rightarrow> int64 \<Rightarrow> ledger_error option" where
  "validate_postings_loop c [] seen net = (if net \<noteq> 0 then Some ErrUnbalancedPostings else None)"
| "validate_postings_loop c (p # ps) seen net =
    (let accountID = TrimSpace (p_AccountID p); amount = m_Cents (p_Amount p)
     in if accountID = [] then Some ErrInvalidTransaction
     else if accountID \<in> set seen then Some ErrInvalidTransaction
     else case Money_Validate (p_Amount p) of Some e \<Rightarrow> Some ErrInvalidTransaction
     | None \<Rightarrow> if m_Currency (p_Amount p) \<noteq> c then Some ErrInvalidTransaction
     else if amount = 0 then Some ErrInvalidTransaction
     else if add_overflows net amount then Some ErrAmountOverflow
     else validate_postings_loop c ps (accountID # seen) (net + amount))"

definition ValidatePostings :: "currency \<Rightarrow> posting list \<Rightarrow> ledger_error option" where
  "ValidatePostings c ps =
    (case Currency_Validate c of Some e \<Rightarrow> Some e
     | None \<Rightarrow> if length ps < 2 then Some ErrUnbalancedPostings
     else validate_postings_loop c ps [] 0)"

definition Transaction_Validate :: "transaction \<Rightarrow> ledger_error option" where
  "Transaction_Validate t =
    (case TransactionType_Validate (t_Type t) of Some e \<Rightarrow> Some e
     | None \<Rightarrow> case Currency_Validate (t_Currency t) of Some e \<Rightarrow> Some ErrInvalidTransaction
     | None \<Rightarrow> if blank (t_IdempotencyKey t) \<or> blank (t_Actor t) \<or> blank (t_SourceType t) \<or> blank (t_SourceID t)
       then Some ErrInvalidTransaction
     else if t_Type t = TransactionReversal \<and> blank (t_ReversalOf t) then Some ErrInvalidTransaction
     else if (t_Type t = TransactionAdminAdjustment \<or> t_Type t = TransactionMigrationAdjust
              \<or> t_Type t = TransactionReversal) \<and> blank (t_Reason t)
       then Some ErrInvalidTransaction
     else ValidatePostings (t_Currency t) (t_Postings t))"

section \<open>What validation accepts\<close>

abbreviation posted_cents :: "posting \<Rightarrow> int" where
  "posted_cents p \<equiv> cents (p_Amount p)"

definition posted_sum :: "posting list \<Rightarrow> int" where
  "posted_sum ps = sum_list (map posted_cents ps)"

definition account_key :: "posting \<Rightarrow> string" where
  "account_key p = TrimSpace (p_AccountID p)"

lemma posted_sum_simps [simp]:
  "posted_sum [] = 0" "posted_sum (p # ps) = posted_cents p + posted_sum ps"
  by (simp_all add: posted_sum_def)

definition in_int64 :: "int \<Rightarrow> bool" where
  "in_int64 k \<longleftrightarrow> - 9223372036854775808 \<le> k \<and> k \<le> 9223372036854775807"

lemma in_int64_sint [simp]: "in_int64 (sint (x :: int64))"
  by (simp add: in_int64_def sint64_ge sint64_le)

definition well_posted :: "currency \<Rightarrow> posting \<Rightarrow> bool" where
  "well_posted c p \<longleftrightarrow> \<not> blank (p_AccountID p) \<and> Money_Validate (p_Amount p) = None
     \<and> m_Currency (p_Amount p) = c \<and> posted_cents p \<noteq> 0"

lemma validate_postings_loop_None:
  "validate_postings_loop c ps seen s = None \<longleftrightarrow>
     list_all (well_posted c) ps
     \<and> distinct (map account_key ps) \<and> account_key ` set ps \<inter> set seen = {}
     \<and> (\<forall>k \<le> length ps. in_int64 (sint s + posted_sum (take k ps)))
     \<and> sint s + posted_sum ps = 0"
proof (induction ps arbitrary: seen s)
  case Nil
  show ?case by (simp add: sint64_zero_iff)
next
  case (Cons p ps)
  let ?a = "m_Cents (p_Amount p)"
  have split: "(\<forall>k \<le> length (p # ps). in_int64 (sint s + posted_sum (take k (p # ps)))) \<longleftrightarrow>
      \<not> add_overflows s ?a \<and> (\<forall>k \<le> length ps. in_int64 (sint (s + ?a) + posted_sum (take k ps)))" (is "?L = ?R")
  proof
    assume L: ?L
    from L [rule_format, of 1] have no: "\<not> add_overflows s ?a"
      by (auto simp: add_overflows_iff in_int64_def)
    moreover have "in_int64 (sint (s + ?a) + posted_sum (take k ps))" if "k \<le> length ps" for k
      using L [rule_format, of "Suc k"] that no by (simp add: sint_add_not_overflows add.assoc)
    ultimately show ?R by simp
  next
    assume R: ?R
    show ?L
    proof (intro allI impI)
      fix k assume "k \<le> length (p # ps)"
      then show "in_int64 (sint s + posted_sum (take k (p # ps)))"
        using R by (cases k) (auto simp: sint_add_not_overflows add.assoc)
    qed
  qed
  have step: "validate_postings_loop c (p # ps) seen s = None \<longleftrightarrow>
      well_posted c p \<and> account_key p \<notin> set seen \<and> \<not> add_overflows s ?a
      \<and> validate_postings_loop c ps (account_key p # seen) (s + ?a) = None"
    by (auto simp: Let_def result_simps well_posted_def blank_def account_key_def sint64_zero_iff)
  show ?case
    unfolding step Cons.IH split by (auto simp: sint_add_not_overflows add.assoc)
qed

lemma ValidatePostings_None:
  "ValidatePostings c ps = None \<longleftrightarrow>
     Currency_Validate c = None \<and> 2 \<le> length ps \<and> list_all (well_posted c) ps
     \<and> distinct (map account_key ps)
     \<and> (\<forall>k \<le> length ps. in_int64 (posted_sum (take k ps))) \<and> posted_sum ps = 0"
  by (auto simp: ValidatePostings_def result_simps validate_postings_loop_None not_less)

lemma Transaction_Validate_postings:
  "Transaction_Validate t = None \<Longrightarrow> ValidatePostings (t_Currency t) (t_Postings t) = None"
  by (simp add: Transaction_Validate_def result_simps)

text \<open>Two legs that cancel always balance: the shape of nearly every transaction of the book.\<close>

lemma ValidatePostings_pair:
  assumes "\<not> blank a" "\<not> blank b" "TrimSpace a \<noteq> TrimSpace b"
    and "Money_Validate m = None" "m_Cents m \<noteq> 0" "Money_Negate m = Inr n"
  shows "ValidatePostings (m_Currency m) [\<lparr>p_AccountID = a, p_Amount = n\<rparr>, \<lparr>p_AccountID = b, p_Amount = m\<rparr>] = None"
    and "ValidatePostings (m_Currency m) [\<lparr>p_AccountID = a, p_Amount = m\<rparr>, \<lparr>p_AccountID = b, p_Amount = n\<rparr>] = None"
proof -
  note n = Money_Negate_cents [OF assms(6)]
  have "cents m \<noteq> 0" using assms(5) by (simp add: sint64_zero_iff)
  moreover have "in_int64 0" "in_int64 (cents m)" "in_int64 (- cents m)"
    using n sint64_ge [of "m_Cents m"] sint64_le [of "m_Cents m"] sint64_ge [of "m_Cents n"] sint64_le [of "m_Cents n"]
    by (simp_all add: in_int64_def)
  ultimately show
    "ValidatePostings (m_Currency m) [\<lparr>p_AccountID = a, p_Amount = n\<rparr>, \<lparr>p_AccountID = b, p_Amount = m\<rparr>] = None"
    "ValidatePostings (m_Currency m) [\<lparr>p_AccountID = a, p_Amount = m\<rparr>, \<lparr>p_AccountID = b, p_Amount = n\<rparr>] = None"
    using assms n
    by (auto simp: ValidatePostings_None well_posted_def account_key_def Money_Validate_def numeral_2_eq_2 le_Suc_eq)
qed

section \<open>The book\<close>

text \<open>
  The abstract state of the ledger: a balance per account, as the sum of its postings. Accounts
  are compared as \<open>ValidatePostings\<close> compares them, after trimming.
\<close>

type_synonym book = "string \<Rightarrow> int"

fun post_all :: "posting list \<Rightarrow> book \<Rightarrow> book" where
  "post_all [] b = b"
| "post_all (p # ps) b = post_all ps (b(account_key p := b (account_key p) + posted_cents p))"

definition post :: "transaction \<Rightarrow> book \<Rightarrow> book" where
  "post t = post_all (t_Postings t)"

definition moved :: "posting list \<Rightarrow> string \<Rightarrow> int" where
  "moved ps a = posted_sum (filter (\<lambda>p. account_key p = a) ps)"

lemma moved_simps [simp]:
  "moved [] a = 0"
  "moved (p # ps) a = (if account_key p = a then posted_cents p else 0) + moved ps a"
  by (simp_all add: moved_def)

lemma post_all_moved: "post_all ps b a = b a + moved ps a"
  by (induction ps arbitrary: b) (auto simp: fun_upd_def)

lemma post_moved: "post t b a = b a + moved (t_Postings t) a"
  by (simp add: post_def post_all_moved)

lemma sum_moved:
  "finite A \<Longrightarrow> account_key ` set ps \<subseteq> A \<Longrightarrow> (\<Sum>a\<in>A. moved ps a) = posted_sum ps"
  by (induction ps) (simp_all add: sum.distrib sum.delta')

lemma moved_distinct:
  "distinct (map account_key ps) \<Longrightarrow> p \<in> set ps \<Longrightarrow> moved ps (account_key p) = posted_cents p"
proof (induction ps)
  case (Cons q ps)
  have none: "moved ps a = 0" if "a \<notin> account_key ` set ps" for a
    using that by (induction ps) auto
  show ?case using Cons none by fastforce
qed simp

lemma post_commute: "post t (post u b) = post u (post t b)"
  by (rule ext) (simp add: post_moved)

locale transaction_builder =
  fixes build :: "'c \<Rightarrow> 'e + transaction"
  assumes builds_valid: "build c = Inr t \<Longrightarrow> Transaction_Validate t = None"
begin

lemma built_balanced: "build c = Inr t \<Longrightarrow> posted_sum (t_Postings t) = 0"
  using builds_valid Transaction_Validate_postings ValidatePostings_None by blast

lemma built_accounts_distinct: "build c = Inr t \<Longrightarrow> distinct (map account_key (t_Postings t))"
  using builds_valid Transaction_Validate_postings ValidatePostings_None by blast

lemma built_nonzero: "build c = Inr t \<Longrightarrow> p \<in> set (t_Postings t) \<Longrightarrow> posted_cents p \<noteq> 0"
  using builds_valid Transaction_Validate_postings ValidatePostings_None
  by (metis (no_types, lifting) list_all_iff well_posted_def)

lemma built_one_currency:
  "build c = Inr t \<Longrightarrow> p \<in> set (t_Postings t) \<Longrightarrow> m_Currency (p_Amount p) = t_Currency t"
  using builds_valid Transaction_Validate_postings ValidatePostings_None
  by (metis (no_types, lifting) list_all_iff well_posted_def)

text \<open>Posting what a builder returns moves money between accounts and neither makes nor loses any.\<close>

lemma post_conserves:
  assumes "build c = Inr t" "finite A" "account_key ` set (t_Postings t) \<subseteq> A"
  shows "(\<Sum>a\<in>A. post t b a) = (\<Sum>a\<in>A. b a)"
  using built_balanced [OF assms(1)] sum_moved [OF assms(2,3)] by (simp add: post_moved sum.distrib)

lemma post_all_conserves:
  assumes "\<forall>t \<in> set ts. \<exists>c. build c = Inr t" "finite A"
    "\<forall>t \<in> set ts. account_key ` set (t_Postings t) \<subseteq> A"
  shows "(\<Sum>a\<in>A. fold post ts b a) = (\<Sum>a\<in>A. b a)"
  using assms(1,3)
proof (induction ts arbitrary: b)
  case (Cons t ts)
  then obtain c where "build c = Inr t" by auto
  then have "(\<Sum>a\<in>A. post t b a) = (\<Sum>a\<in>A. b a)"
    using Cons.prems assms(2) by (intro post_conserves) simp_all
  with Cons show ?case by simp
qed simp

end

end
