(* ===== verification/Json.thy ===== *)
theory Json
  imports Go_Base
begin

text \<open>
  What the sources use of \<open>encoding/json\<close>: \<open>Marshal\<close> of a struct with string and integer fields, and
  \<open>Valid\<close>. The first is the library's string escaping (HTML characters, control characters,
  invalid UTF-8 and the two line separators are escaped); the second is the library's scanner, a
  byte machine with a stack of open objects and arrays.
\<close>

section \<open>Marshal\<close>

definition byte :: "char \<Rightarrow> nat" where
  "byte c = of_char c"

definition between :: "nat \<Rightarrow> nat \<Rightarrow> char \<Rightarrow> bool" where
  "between lo hi c \<longleftrightarrow> lo \<le> byte c \<and> byte c \<le> hi"

abbreviation cont :: "char \<Rightarrow> bool" where
  "cont \<equiv> between 128 191"

text \<open>Length of the UTF-8 encoding at the front of a string; \<open>None\<close> when it is invalid.\<close>

fun utf8_size :: "string \<Rightarrow> nat option" where
  "utf8_size [] = None"
| "utf8_size (a # s) =
    (if byte a < 128 then Some 1
     else if between 194 223 a then (case s of b # _ \<Rightarrow> if cont b then Some 2 else None | [] \<Rightarrow> None)
     else if between 224 239 a then
       (case s of b # c # _ \<Rightarrow>
          if between (if byte a = 224 then 160 else 128) (if byte a = 237 then 159 else 191) b \<and> cont c
          then Some 3 else None
        | _ \<Rightarrow> None)
     else if between 240 244 a then
       (case s of b # c # d # _ \<Rightarrow>
          if between (if byte a = 240 then 144 else 128) (if byte a = 244 then 143 else 191) b \<and> cont c \<and> cont d
          then Some 4 else None
        | _ \<Rightarrow> None)
     else None)"

definition hex_digit :: "nat \<Rightarrow> char" where
  "hex_digit n = ''0123456789abcdef'' ! n"

definition escape_ascii :: "char \<Rightarrow> string" where
  "escape_ascii c =
    (if c = CHR 0x5C \<or> c = CHR 0x22 then [CHR 0x5C, c]
     else if c = CHR 0x08 then [CHR 0x5C, CHR ''b'']
     else if c = CHR 0x0C then [CHR 0x5C, CHR ''f'']
     else if c = CHR 0x0A then [CHR 0x5C, CHR ''n'']
     else if c = CHR 0x0D then [CHR 0x5C, CHR ''r'']
     else if c = CHR 0x09 then [CHR 0x5C, CHR ''t'']
     else if byte c < 32 \<or> c = CHR ''<'' \<or> c = CHR ''>'' \<or> c = CHR ''&''
       then CHR 0x5C # ''u00'' @ [hex_digit (byte c div 16), hex_digit (byte c mod 16)]
     else [c])"

fun json_escape :: "string \<Rightarrow> string" where
  "json_escape [] = []"
| "json_escape (c # s) =
    (if byte c < 128 then escape_ascii c @ json_escape s
     else case utf8_size (c # s) of
       None \<Rightarrow> CHR 0x5C # ''ufffd'' @ json_escape s
     | Some n \<Rightarrow>
         (if take 3 (c # s) = [CHR 0xE2, CHR 0x80, CHR 0xA8] then CHR 0x5C # ''u2028''
          else if take 3 (c # s) = [CHR 0xE2, CHR 0x80, CHR 0xA9] then CHR 0x5C # ''u2029''
          else take n (c # s)) @ json_escape (drop (n - 1) s))"

datatype json_field = JString string | JInt int | JBool bool

fun json_field_text :: "json_field \<Rightarrow> string" where
  "json_field_text (JString s) = CHR 0x22 # json_escape s @ [CHR 0x22]"
| "json_field_text (JInt k) = decimal k"
| "json_field_text (JBool b) = (if b then ''true'' else ''false'')"

fun json_members :: "(string \<times> json_field) list \<Rightarrow> string" where
  "json_members [] = []"
| "json_members [(k, v)] = CHR 0x22 # k @ [CHR 0x22, CHR '':''] @ json_field_text v"
| "json_members ((k, v) # kvs) =
    CHR 0x22 # k @ [CHR 0x22, CHR '':''] @ json_field_text v @ CHR '','' # json_members kvs"

definition json_Marshal :: "(string \<times> json_field) list \<Rightarrow> string" where
  "json_Marshal kvs = CHR ''{'' # json_members kvs @ [CHR ''}'']"

section \<open>Valid\<close>

datatype json_state =
    BeginValue | BeginValueOrEmpty | BeginString | BeginStringOrEmpty | EndValue | EndTop
  | InString | InStringEsc | InStringU nat
  | Neg | Num0 | Num1 | Dot | Dot0 | Exp | ExpSign | Exp0
  | Literal string

datatype json_frame = ObjectKey | ObjectValue | ArrayValue

type_synonym json_config = "json_state \<times> json_frame list"

definition is_json_space :: "char \<Rightarrow> bool" where
  "is_json_space c \<longleftrightarrow> c = CHR '' '' \<or> c = CHR 0x09 \<or> c = CHR 0x0D \<or> c = CHR 0x0A"

abbreviation is_digit :: "char \<Rightarrow> bool" where
  "is_digit \<equiv> between 48 57"

definition is_hex :: "char \<Rightarrow> bool" where
  "is_hex c \<longleftrightarrow> is_digit c \<or> between 97 102 c \<or> between 65 70 c"

definition json_push :: "json_frame \<Rightarrow> json_frame list \<Rightarrow> json_state \<Rightarrow> json_config option" where
  "json_push f st q = (if length st < 10000 then Some (q, f # st) else None)"

definition json_pop :: "json_frame list \<Rightarrow> json_config" where
  "json_pop st = (if tl st = [] then (EndTop, []) else (EndValue, tl st))"

fun json_end_value :: "char \<Rightarrow> json_frame list \<Rightarrow> json_config option" where
  \<comment> \<open>a byte after a complete value\<close>
  "json_end_value c [] = (if is_json_space c then Some (EndTop, []) else None)"
| "json_end_value c (ObjectKey # st) =
    (if is_json_space c then Some (EndValue, ObjectKey # st)
     else if c = CHR '':'' then Some (BeginValue, ObjectValue # st) else None)"
| "json_end_value c (ObjectValue # st) =
    (if is_json_space c then Some (EndValue, ObjectValue # st)
     else if c = CHR '','' then Some (BeginString, ObjectKey # st)
     else if c = CHR ''}'' then Some (json_pop (ObjectValue # st)) else None)"
| "json_end_value c (ArrayValue # st) =
    (if is_json_space c then Some (EndValue, ArrayValue # st)
     else if c = CHR '','' then Some (BeginValue, ArrayValue # st)
     else if c = CHR '']'' then Some (json_pop (ArrayValue # st)) else None)"

definition json_begin_value :: "char \<Rightarrow> json_frame list \<Rightarrow> json_config option" where
  "json_begin_value c st =
    (if is_json_space c then Some (BeginValue, st)
     else if c = CHR ''{'' then json_push ObjectKey st BeginStringOrEmpty
     else if c = CHR ''['' then json_push ArrayValue st BeginValueOrEmpty
     else if c = CHR 0x22 then Some (InString, st)
     else if c = CHR ''-'' then Some (Neg, st)
     else if c = CHR ''0'' then Some (Num0, st)
     else if between 49 57 c then Some (Num1, st)
     else if c = CHR ''t'' then Some (Literal ''rue'', st)
     else if c = CHR ''f'' then Some (Literal ''alse'', st)
     else if c = CHR ''n'' then Some (Literal ''ull'', st)
     else None)"

definition json_begin_string :: "char \<Rightarrow> json_frame list \<Rightarrow> json_config option" where
  "json_begin_string c st =
    (if is_json_space c then Some (BeginString, st)
     else if c = CHR 0x22 then Some (InString, st) else None)"

definition json_num0 :: "char \<Rightarrow> json_frame list \<Rightarrow> json_config option" where
  \<comment> \<open>after the integer part\<close>
  "json_num0 c st =
    (if c = CHR ''.'' then Some (Dot, st)
     else if c = CHR ''e'' \<or> c = CHR ''E'' then Some (Exp, st)
     else json_end_value c st)"

fun json_step :: "char \<Rightarrow> json_config \<Rightarrow> json_config option" where
  "json_step c (BeginValue, st) = json_begin_value c st"
| "json_step c (BeginValueOrEmpty, st) =
    (if is_json_space c then Some (BeginValueOrEmpty, st)
     else if c = CHR '']'' then json_end_value c st else json_begin_value c st)"
| "json_step c (BeginString, st) = json_begin_string c st"
| "json_step c (BeginStringOrEmpty, st) =
    (if is_json_space c then Some (BeginStringOrEmpty, st)
     else if c = CHR ''}'' then Some (json_pop st) else json_begin_string c st)"
| "json_step c (EndValue, st) = json_end_value c st"
| "json_step c (EndTop, st) = (if is_json_space c then Some (EndTop, st) else None)"
| "json_step c (InString, st) =
    (if c = CHR 0x22 then Some (EndValue, st)
     else if c = CHR 0x5C then Some (InStringEsc, st)
     else if byte c < 32 then None else Some (InString, st))"
| "json_step c (InStringEsc, st) =
    (if c \<in> {CHR ''b'', CHR ''f'', CHR ''n'', CHR ''r'', CHR ''t'', CHR 0x5C, CHR ''/'', CHR 0x22}
     then Some (InString, st)
     else if c = CHR ''u'' then Some (InStringU 3, st) else None)"
| "json_step c (InStringU n, st) =
    (if \<not> is_hex c then None
     else if n = 0 then Some (InString, st) else Some (InStringU (n - 1), st))"
| "json_step c (Neg, st) =
    (if c = CHR ''0'' then Some (Num0, st) else if between 49 57 c then Some (Num1, st) else None)"
| "json_step c (Num1, st) = (if is_digit c then Some (Num1, st) else json_num0 c st)"
| "json_step c (Num0, st) = json_num0 c st"
| "json_step c (Dot, st) = (if is_digit c then Some (Dot0, st) else None)"
| "json_step c (Dot0, st) =
    (if is_digit c then Some (Dot0, st)
     else if c = CHR ''e'' \<or> c = CHR ''E'' then Some (Exp, st) else json_end_value c st)"
| "json_step c (Exp, st) =
    (if c = CHR ''+'' \<or> c = CHR ''-'' then Some (ExpSign, st)
     else if is_digit c then Some (Exp0, st) else None)"
| "json_step c (ExpSign, st) = (if is_digit c then Some (Exp0, st) else None)"
| "json_step c (Exp0, st) = (if is_digit c then Some (Exp0, st) else json_end_value c st)"
| "json_step c (Literal l, st) =
    (case l of [] \<Rightarrow> None
     | d # ds \<Rightarrow> if c \<noteq> d then None else if ds = [] then Some (EndValue, st) else Some (Literal ds, st))"

fun json_run :: "string \<Rightarrow> json_config \<Rightarrow> json_config option" where
  "json_run [] q = Some q"
| "json_run (c # s) q = (case json_step c q of None \<Rightarrow> None | Some q' \<Rightarrow> json_run s q')"

definition json_Valid :: "string \<Rightarrow> bool" where
  \<comment> \<open>the scanner ends its input with a virtual space\<close>
  "json_Valid s \<longleftrightarrow> json_run (s @ '' '') (BeginValue, []) = Some (EndTop, [])"


section \<open>What Marshal writes, Valid accepts\<close>

lemma json_run_append:
  "json_run (s @ t) q = (case json_run s q of None \<Rightarrow> None | Some q' \<Rightarrow> json_run t q')"
  by (induction s arbitrary: q) (auto split: option.splits)

lemma utf8_size_high:
  assumes "utf8_size (c # s) = Some n" "\<not> byte c < 128"
  shows "\<forall>x \<in> set (take n (c # s)). 128 \<le> byte x"
  using assms
  by (auto simp: between_def numeral_eq_Suc split: if_splits list.splits)

lemma in_string_raw:
  "\<forall>x \<in> set s. 128 \<le> byte x \<Longrightarrow> json_run s (InString, st) = Some (InString, st)"
proof (induction s)
  case (Cons c s)
  then have "128 \<le> byte c" by simp
  moreover have "byte (CHR 0x22) = 34" "byte (CHR 0x5C) = 92" by (simp_all add: byte_def)
  ultimately have "c \<noteq> CHR 0x22" "c \<noteq> CHR 0x5C" "\<not> byte c < 32" by auto
  with Cons show ?case by simp
qed simp

lemma hex_digit_is_hex: "n < 16 \<Longrightarrow> is_hex (hex_digit n)"
proof -
  assume "n < 16"
  then have "hex_digit n \<in> set ''0123456789abcdef''"
    unfolding hex_digit_def by (intro nth_mem) simp
  moreover have "\<forall>c \<in> set ''0123456789abcdef''. is_hex c"
    by (simp add: is_hex_def between_def byte_def)
  ultimately show ?thesis by blast
qed

lemma byte_less: "byte c < 256"
  by (simp add: byte_def)

lemma unicode_escape_run:
  assumes "is_hex a" "is_hex b"
  shows "json_run (CHR 0x5C # ''u00'' @ [a, b]) (InString, st) = Some (InString, st)"
proof -
  have "is_hex (CHR ''0'')" by (simp add: is_hex_def between_def byte_def)
  with assms show ?thesis by (simp add: numeral_3_eq_3)
qed

lemma escape_ascii_run: "json_run (escape_ascii c) (InString, st) = Some (InString, st)"
proof (cases "c \<in> {CHR 0x5C, CHR 0x22, CHR 0x08, CHR 0x0C, CHR 0x0A, CHR 0x0D, CHR 0x09}")
  case True
  then show ?thesis by (elim insertE emptyE) (simp_all add: escape_ascii_def)
next
  case False
  let ?u = "byte c < 32 \<or> c = CHR ''<'' \<or> c = CHR ''>'' \<or> c = CHR ''&''"
  have eq: "escape_ascii c = (if ?u
      then CHR 0x5C # ''u00'' @ [hex_digit (byte c div 16), hex_digit (byte c mod 16)] else [c])"
    using False by (simp add: escape_ascii_def)
  have "byte c div 16 < 16" using byte_less [of c] by (simp add: less_mult_imp_div_less)
  then have u: "json_run (CHR 0x5C # ''u00'' @ [hex_digit (byte c div 16), hex_digit (byte c mod 16)]) (InString, st)
      = Some (InString, st)"
    by (intro unicode_escape_run hex_digit_is_hex) simp_all
  show ?thesis
  proof (cases ?u)
    case True
    with u show ?thesis unfolding eq by (simp only: if_True)
  next
    case no: False
    with False show ?thesis unfolding eq by (simp only: if_False) simp
  qed
qed

lemma json_escape_run: "json_run (json_escape s) (InString, st) = Some (InString, st)"
proof (induction s rule: json_escape.induct)
  case (2 c s)
  have hex: "is_hex CHR ''f''" "is_hex CHR ''d''" "is_hex CHR ''2''" "is_hex CHR ''0''"
    "is_hex CHR ''8''" "is_hex CHR ''9''" by (simp_all add: is_hex_def between_def byte_def)
  show ?case
  proof (cases "byte c < 128")
    case True
    with 2 show ?thesis by (simp add: json_run_append escape_ascii_run)
  next
    case False
    show ?thesis
    proof (cases "utf8_size (c # s)")
      case None
      with 2 False hex show ?thesis by (simp add: numeral_eq_Suc)
    next
      case (Some n)
      have "json_run (take n (c # s)) (InString, st) = Some (InString, st)"
        using utf8_size_high [OF Some False] by (rule in_string_raw)
      with 2 False Some hex show ?thesis
        by (auto simp: json_run_append numeral_eq_Suc simp del: utf8_size.simps)
    qed
  qed
qed simp

definition value_done :: "json_state \<Rightarrow> bool" where
  "value_done q \<longleftrightarrow> q = EndValue \<or> q = Num0 \<or> q = Num1"

lemma decimal_digit_is_digit: "n < 10 \<Longrightarrow> is_digit (decimal_digit n)"
  by (elim less_ten_cases) (simp_all add: decimal_digit_def between_def byte_def)

lemma decimal_nat_digits: "\<forall>c \<in> set (decimal_nat n). is_digit c"
proof (induction n rule: decimal_nat.induct)
  case (1 n)
  then show ?case
    by (cases "n < 10") (simp_all add: decimal_nat.simps [of n] decimal_digit_is_digit)
qed

lemma decimal_nat_head: "0 < n \<Longrightarrow> between 49 57 (hd (decimal_nat n))"
proof (induction n rule: decimal_nat.induct)
  case (1 n)
  show ?case
  proof (cases "n < 10")
    case True
    then have "between 49 57 (decimal_digit n)"
      using "1.prems" by (elim less_ten_cases) (simp_all add: decimal_digit_def between_def byte_def)
    with True show ?thesis by (simp add: decimal_nat.simps [of n])
  next
    case False
    with 1 show ?thesis by (simp add: decimal_nat.simps [of n])
  qed
qed

lemma digits_run: "\<forall>c \<in> set s. is_digit c \<Longrightarrow> json_run s (Num1, st) = Some (Num1, st)"
  by (induction s) auto

lemma between_first: "between 49 57 c \<Longrightarrow>
    \<not> is_json_space c \<and> c \<notin> {CHR ''{'', CHR ''['', CHR 0x22, CHR ''-'', CHR ''0''}"
  by (auto simp: between_def byte_def is_json_space_def)

lemma decimal_nat_run:
  "q = BeginValue \<or> q = Neg \<Longrightarrow> \<exists>q'. json_run (decimal_nat n) (q, st) = Some (q', st) \<and> value_done q'"
proof (cases "n = 0")
  case True
  assume "q = BeginValue \<or> q = Neg"
  with True show ?thesis
    by (auto simp: decimal_nat.simps [of 0] decimal_digit_def json_begin_value_def is_json_space_def value_done_def)
next
  case False
  assume q: "q = BeginValue \<or> q = Neg"
  obtain d ds where eq: "decimal_nat n = d # ds" by (cases "decimal_nat n") auto
  have "between 49 57 d" using False decimal_nat_head [of n] by (simp add: eq)
  then have "json_step d (q, st) = Some (Num1, st)"
    using q between_first [of d] by (auto simp: json_begin_value_def)
  moreover have "json_run ds (Num1, st) = Some (Num1, st)"
    using decimal_nat_digits [of n] by (intro digits_run) (simp add: eq)
  ultimately show ?thesis by (auto simp: eq value_done_def)
qed

lemma decimal_run:
  "\<exists>q'. json_run (decimal k) (BeginValue, st) = Some (q', st) \<and> value_done q'"
proof (cases "k < 0")
  case True
  have "json_step CHR ''-'' (BeginValue, st) = Some (Neg, st)"
    by (simp add: json_begin_value_def is_json_space_def)
  with True show ?thesis using decimal_nat_run [of Neg "nat (- k)" st] by (simp add: decimal_def)
next
  case False
  then show ?thesis using decimal_nat_run [of BeginValue "nat k" st] by (simp add: decimal_def)
qed

lemma json_field_run:
  "\<exists>q. json_run (json_field_text v) (BeginValue, st) = Some (q, st) \<and> value_done q"
proof (cases v)
  case (JString s)
  then show ?thesis
    by (simp add: json_begin_value_def is_json_space_def json_run_append json_escape_run value_done_def)
next
  case (JInt k)
  then show ?thesis by (simp add: decimal_run)
next
  case (JBool b)
  then show ?thesis
    by (cases b) (simp_all add: json_begin_value_def is_json_space_def value_done_def between_def byte_def)
qed

lemma value_done_end:
  "value_done q \<Longrightarrow> c \<in> {CHR '','', CHR ''}''} \<Longrightarrow> json_step c (q, st) = json_end_value c st"
  by (auto simp: value_done_def json_num0_def between_def byte_def)

definition plain_key :: "string \<Rightarrow> bool" where
  "plain_key k \<longleftrightarrow> list_all (\<lambda>c. 32 \<le> byte c \<and> c \<noteq> CHR 0x22 \<and> c \<noteq> CHR 0x5C) k"

lemma plain_key_run: "plain_key k \<Longrightarrow> json_run k (InString, st) = Some (InString, st)"
  by (induction k) (auto simp: plain_key_def)

lemma json_member_run:
  assumes "plain_key k" "q = BeginString \<or> q = BeginStringOrEmpty"
  shows "\<exists>q'. json_run (CHR 0x22 # k @ [CHR 0x22, CHR '':''] @ json_field_text v) (q, ObjectKey # st)
      = Some (q', ObjectValue # st) \<and> value_done q'"
proof -
  have "json_step CHR 0x22 (q, ObjectKey # st) = Some (InString, ObjectKey # st)"
    using assms(2) by (auto simp: json_begin_string_def is_json_space_def)
  then show ?thesis
    using plain_key_run [OF assms(1)] json_field_run [of v "ObjectValue # st"]
    by (simp add: json_run_append is_json_space_def)
qed

lemma json_members_run:
  "kvs \<noteq> [] \<Longrightarrow> \<forall>(k, v) \<in> set kvs. plain_key k \<Longrightarrow> q = BeginString \<or> q = BeginStringOrEmpty \<Longrightarrow>
   \<exists>q'. json_run (json_members kvs) (q, ObjectKey # st) = Some (q', ObjectValue # st) \<and> value_done q'"
proof (induction kvs arbitrary: q rule: json_members.induct)
  case (2 k v)
  then show ?case using json_member_run [of k q v st] by simp
next
  case (3 k v kv kvs)
  obtain q1 where q1: "json_run (CHR 0x22 # k @ [CHR 0x22, CHR '':''] @ json_field_text v) (q, ObjectKey # st)
      = Some (q1, ObjectValue # st)" "value_done q1"
    using json_member_run [of k q v st] "3.prems" by auto
  have "json_step CHR '','' (q1, ObjectValue # st) = Some (BeginString, ObjectKey # st)"
    using value_done_end [OF q1(2), of "CHR '',''" "ObjectValue # st"] by (simp add: is_json_space_def)
  moreover have "\<exists>q'. json_run (json_members (kv # kvs)) (BeginString, ObjectKey # st) = Some (q', ObjectValue # st) \<and> value_done q'"
    using "3.IH" "3.prems" by auto
  moreover have "json_members ((k, v) # kv # kvs) =
      (CHR 0x22 # k @ [CHR 0x22, CHR '':''] @ json_field_text v) @ CHR '','' # json_members (kv # kvs)"
    by simp
  ultimately show ?case
    using q1(1) by (simp only: json_run_append json_run.simps option.case)
qed simp

theorem json_Valid_Marshal:
  assumes "\<forall>(k, v) \<in> set kvs. plain_key k"
  shows "json_Valid (json_Marshal kvs)"
proof -
  have start: "json_step CHR ''{'' (BeginValue, []) = Some (BeginStringOrEmpty, [ObjectKey])"
    by (simp add: json_begin_value_def json_push_def is_json_space_def)
  show ?thesis
  proof (cases "kvs = []")
    case True
    with start show ?thesis by (simp add: json_Valid_def json_Marshal_def json_pop_def is_json_space_def)
  next
    case False
    obtain q where q: "json_run (json_members kvs) (BeginStringOrEmpty, [ObjectKey]) = Some (q, [ObjectValue])"
      "value_done q"
      using json_members_run [OF False assms, of BeginStringOrEmpty "[]"] by auto
    have "json_step CHR ''}'' (q, [ObjectValue]) = Some (EndTop, [])"
      using value_done_end [OF q(2), of "CHR ''}''" "[ObjectValue]"] by (simp add: json_pop_def is_json_space_def)
    with start q(1) show ?thesis
      by (simp add: json_Valid_def json_Marshal_def json_run_append is_json_space_def)
  qed
qed

end
