(* ===== verification/Events.thy ===== *)
theory Events
  imports Json
begin

text \<open>
  The package \<open>internal/events\<close>, its data: event types, the envelope every domain event is
  published in and its validation (\<open>envelope.go\<close>), the outbox states (\<open>state.go\<close>). The dispatcher
  is the theory \<open>Dispatcher\<close>.
\<close>

section \<open>Event types\<close>

datatype events_error = ErrInvalidEnvelope

type_synonym event_type = string

definition MatchResultSubmitted :: event_type where "MatchResultSubmitted = ''MatchResultSubmitted.v1''"
definition MatchResultDisputed :: event_type where "MatchResultDisputed = ''MatchResultDisputed.v1''"
definition MatchResultVerified :: event_type where "MatchResultVerified = ''MatchResultVerified.v1''"
definition MatchResultCorrected :: event_type where "MatchResultCorrected = ''MatchResultCorrected.v1''"
definition PlayerStatisticsProjected :: event_type where "PlayerStatisticsProjected = ''PlayerStatisticsProjected.v1''"
definition PlayerLinkedToUser :: event_type where "PlayerLinkedToUser = ''PlayerLinkedToUser.v1''"
definition PlayerUnlinkedFromUser :: event_type where "PlayerUnlinkedFromUser = ''PlayerUnlinkedFromUser.v1''"
definition CompetitionSetupDeleted :: event_type where "CompetitionSetupDeleted = ''CompetitionSetupDeleted.v1''"
definition TeamRosterChanged :: event_type where "TeamRosterChanged = ''TeamRosterChanged.v1''"
definition MarketCreated :: event_type where "MarketCreated = ''MarketCreated.v1''"
definition MarketOpened :: event_type where "MarketOpened = ''MarketOpened.v1''"
definition MarketClosed :: event_type where "MarketClosed = ''MarketClosed.v1''"
definition MarketSettlementRequested :: event_type where "MarketSettlementRequested = ''MarketSettlementRequested.v1''"
definition MarketSettled :: event_type where "MarketSettled = ''MarketSettled.v1''"
definition WagerAccepted :: event_type where "WagerAccepted = ''WagerAccepted.v1''"
definition WagerSettled :: event_type where "WagerSettled = ''WagerSettled.v1''"
definition LedgerTransactionPosted :: event_type where "LedgerTransactionPosted = ''LedgerTransactionPosted.v1''"
definition MediaPublished :: event_type where "MediaPublished = ''MediaPublished.v1''"

definition is_upper :: "char \<Rightarrow> bool" where
  "is_upper = between 65 90"

definition is_lower :: "char \<Rightarrow> bool" where
  "is_lower = between 97 122"

definition is_alnum :: "char \<Rightarrow> bool" where
  "is_alnum c \<longleftrightarrow> is_upper c \<or> is_lower c \<or> is_digit c"

definition eventTypePattern :: "string \<Rightarrow> bool" where
  \<comment> \<open>\<open>^[A-Z][A-Za-z0-9]+\.v[1-9][0-9]*$\<close>; a dot is no letter, so the name is the longest run\<close>
  "eventTypePattern s = (case s of [] \<Rightarrow> False
     | c # r \<Rightarrow> is_upper c \<and> takeWhile is_alnum r \<noteq> [] \<and>
        (case dropWhile is_alnum r of
           d # v # n # ns \<Rightarrow> d = CHR ''.'' \<and> v = CHR ''v'' \<and> between 49 57 n \<and> list_all is_digit ns
         | _ \<Rightarrow> False))"

definition Type_Validate :: "event_type \<Rightarrow> events_error option" where
  "Type_Validate t = (if \<not> eventTypePattern t then Some ErrInvalidEnvelope else None)"

section \<open>The envelope\<close>

record envelope =
  e_ID :: string
  e_AggregateType :: string
  e_AggregateID :: string
  e_AggregateVersion :: int64
  e_Type :: event_type
  e_Payload :: string
  e_OccurredAt :: go_time
  e_CorrelationID :: string
  e_CausationID :: string

definition validUUID :: "string \<Rightarrow> bool" where
  "validUUID v \<longleftrightarrow>
     \<not> (length v \<noteq> 36 \<or> v ! 8 \<noteq> CHR ''-'' \<or> v ! 13 \<noteq> CHR ''-'' \<or> v ! 18 \<noteq> CHR ''-'' \<or> v ! 23 \<noteq> CHR ''-'')
     \<and> (let compact = filter (\<lambda>c. c \<noteq> CHR ''-'') v in even (length compact) \<and> list_all is_hex compact)"

definition Envelope_Validate :: "envelope \<Rightarrow> events_error option" where
  "Envelope_Validate e =
    (if \<not> validUUID (e_ID e) \<or> \<not> validUUID (e_AggregateID e) then Some ErrInvalidEnvelope
     else if blank (e_AggregateType e) \<or> length (e_AggregateType e) > 80 then Some ErrInvalidEnvelope
     else if sint (e_AggregateVersion e) \<le> 0 then Some ErrInvalidEnvelope
     else case Type_Validate (e_Type e) of Some err \<Rightarrow> Some err
     | None \<Rightarrow> if IsZero (e_OccurredAt e) \<or> \<not> in_utc (e_OccurredAt e) then Some ErrInvalidEnvelope
     else if e_CorrelationID e \<noteq> [] \<and> \<not> validUUID (e_CorrelationID e) then Some ErrInvalidEnvelope
     else if e_CausationID e \<noteq> [] \<and> \<not> validUUID (e_CausationID e) then Some ErrInvalidEnvelope
     else if \<not> json_Valid (e_Payload e) then Some ErrInvalidEnvelope
     else let trimmed = TrimSpace (e_Payload e)
       in if length trimmed < 2 \<or> hd trimmed \<noteq> CHR ''{'' \<or> last trimmed \<noteq> CHR ''}''
          then Some ErrInvalidEnvelope else None)"

section \<open>Outbox states\<close>

datatype outbox_state = OutboxPending | OutboxProcessing | OutboxCompleted | OutboxFailed | OutboxOther string

fun OutboxState_Validate :: "outbox_state \<Rightarrow> string option" where
  "OutboxState_Validate (OutboxOther s) = Some s"
| "OutboxState_Validate _ = None"

definition OutboxState_CanTransitionTo :: "outbox_state \<Rightarrow> outbox_state \<Rightarrow> bool" where
  "OutboxState_CanTransitionTo s next' =
    (if OutboxState_Validate s \<noteq> None \<or> OutboxState_Validate next' \<noteq> None \<or> s = next' then False
     else case s of
       OutboxPending \<Rightarrow> next' = OutboxProcessing \<or> next' = OutboxFailed
     | OutboxProcessing \<Rightarrow> next' = OutboxPending \<or> next' = OutboxCompleted \<or> next' = OutboxFailed
     | _ \<Rightarrow> False)"

section \<open>Facts\<close>

definition event_types :: "event_type list" where
  "event_types = [MatchResultSubmitted, MatchResultDisputed, MatchResultVerified, MatchResultCorrected,
     PlayerStatisticsProjected, PlayerLinkedToUser, PlayerUnlinkedFromUser, CompetitionSetupDeleted,
     TeamRosterChanged, MarketCreated, MarketOpened, MarketClosed, MarketSettlementRequested,
     MarketSettled, WagerAccepted, WagerSettled, LedgerTransactionPosted, MediaPublished]"

lemmas event_type_defs = MatchResultSubmitted_def MatchResultDisputed_def MatchResultVerified_def
  MatchResultCorrected_def PlayerStatisticsProjected_def PlayerLinkedToUser_def
  PlayerUnlinkedFromUser_def CompetitionSetupDeleted_def TeamRosterChanged_def MarketCreated_def
  MarketOpened_def MarketClosed_def MarketSettlementRequested_def MarketSettled_def
  WagerAccepted_def WagerSettled_def LedgerTransactionPosted_def MediaPublished_def

lemma event_types_valid: "t \<in> set event_types \<Longrightarrow> Type_Validate t = None"
  unfolding event_types_def
  by (simp, elim disjE)
    (simp_all add: event_type_defs Type_Validate_def eventTypePattern_def is_alnum_def is_upper_def
       is_lower_def between_def byte_def)

lemma Marshal_trimmed:
  "TrimSpace (json_Marshal kvs) = json_Marshal kvs"
  by (rule TrimSpace_plain) (simp_all add: json_Marshal_def space_runes_def)

lemma Marshal_object:
  "hd (json_Marshal kvs) = CHR ''{''" "last (json_Marshal kvs) = CHR ''}''" "2 \<le> length (json_Marshal kvs)"
  by (simp_all add: json_Marshal_def)

text \<open>An envelope around a marshalled struct is valid as soon as its identifiers, version and time are.\<close>

lemma Envelope_Validate_Marshal:
  assumes "e_Payload e = json_Marshal kvs" "\<forall>(k, v) \<in> set kvs. plain_key k"
    and "e_Type e \<in> set event_types" "e_CorrelationID e = []" "e_CausationID e = []"
    and "\<not> blank (e_AggregateType e)" "length (e_AggregateType e) \<le> 80"
  shows "Envelope_Validate e = None \<longleftrightarrow> validUUID (e_ID e) \<and> validUUID (e_AggregateID e)
     \<and> 0 < sint (e_AggregateVersion e) \<and> \<not> IsZero (e_OccurredAt e) \<and> in_utc (e_OccurredAt e)"
  using assms json_Valid_Marshal [OF assms(2)] event_types_valid [OF assms(3)]
    Marshal_object [of kvs]
  by (auto simp: Envelope_Validate_def result_simps Let_def Marshal_trimmed not_le not_less)

end
