(* ===== verification/Betting_Types.thy ===== *)
theory Betting_Types
  imports Pricing Postings Events
begin

text \<open>
  \<open>internal/betting/types.go\<close>, \<open>errors.go\<close> and \<open>events.go\<close>: identifiers, the enumerations with
  their transition tables, markets, selections and wagers with their validation, the event
  payloads and the envelope builder. A Go string type with named constants is a datatype with one
  constructor per constant and \<open>\<dots>Other\<close> for any other string.
\<close>

section \<open>Errors and identifiers\<close>

datatype betting_error =
    ErrInvalid | ErrUnauthorized | ErrReasonRequired | ErrNotFound | ErrAlreadyExists
  | ErrIdempotencyConflict | ErrMarketNotOpen | ErrSelectionInactive | ErrSelectionMismatch
  | ErrUserRestricted | ErrStakeAboveLimit | ErrPayoutAboveLimit | ErrParlayTooFewLegs
  | ErrParlayTooManyLegs | ErrParlayMarketNotEligible | ErrSideFull | ErrParlayDuplicateMarket
  | ErrParlayTooShort | ErrIncompleteOutcome | ErrWagerMarketMismatch
  | TransitionError (te_Operation: string) (te_State: string)
  | BettingLedger ledger_error | BettingPricing pricing_error | BettingEvents events_error

type_synonym ID = string

definition validID :: "ID \<Rightarrow> bool" where
  "validID i \<longleftrightarrow> TrimSpace i \<noteq> []"

lemma validID_blank: "validID i \<longleftrightarrow> \<not> blank i"
  by (simp add: validID_def blank_def)

fun selection_key_rest :: "bool \<Rightarrow> string \<Rightarrow> bool" where
  "selection_key_rest after_alnum [] = after_alnum"
| "selection_key_rest after_alnum (c # cs) =
    (if is_lower c \<or> is_digit c then selection_key_rest True cs
     else after_alnum \<and> c \<in> set ''._-'' \<and> selection_key_rest False cs)"

definition selectionKeyPattern :: "string \<Rightarrow> bool" where
  \<comment> \<open>\<open>^[a-z0-9]+(?:[._-][a-z0-9]+)*$\<close>\<close>
  "selectionKeyPattern s = selection_key_rest False s"

section \<open>Enumerations and their transitions\<close>

datatype market_type = MarketMatch | MarketFuture | MarketProp | MarketTypeOther string

fun MarketType_Validate :: "market_type \<Rightarrow> betting_error option" where
  "MarketType_Validate (MarketTypeOther s) = Some ErrInvalid"
| "MarketType_Validate _ = None"

datatype market_state =
    MarketDraft | MarketOpen | MarketClosed | MarketSettlementPending | MarketSettled'
  | MarketVoided | MarketCancelled | MarketNoAction | MarketStateOther string

fun MarketState_Validate :: "market_state \<Rightarrow> betting_error option" where
  "MarketState_Validate (MarketStateOther s) = Some ErrInvalid"
| "MarketState_Validate _ = None"

fun market_state_string :: "market_state \<Rightarrow> string" where
  "market_state_string MarketDraft = ''draft''"
| "market_state_string MarketOpen = ''open''"
| "market_state_string MarketClosed = ''closed''"
| "market_state_string MarketSettlementPending = ''settlement_pending''"
| "market_state_string MarketSettled' = ''settled''"
| "market_state_string MarketVoided = ''voided''"
| "market_state_string MarketCancelled = ''cancelled''"
| "market_state_string MarketNoAction = ''closed_no_action''"
| "market_state_string (MarketStateOther s) = s"

fun marketTransitions :: "market_state \<Rightarrow> market_state list" where
  "marketTransitions MarketDraft = [MarketOpen, MarketCancelled]"
| "marketTransitions MarketOpen = [MarketClosed, MarketCancelled]"
| "marketTransitions MarketClosed = [MarketVoided, MarketSettlementPending, MarketNoAction]"
| "marketTransitions MarketSettlementPending = [MarketSettled', MarketVoided, MarketNoAction]"
| "marketTransitions _ = []"

definition MarketState_CanTransitionTo :: "market_state \<Rightarrow> market_state \<Rightarrow> bool" where
  "MarketState_CanTransitionTo s t \<longleftrightarrow> t \<in> set (marketTransitions s)"

datatype wager_state =
  WagerPending | WagerAccepted' | WagerRejected | WagerSettled' | WagerVoided | WagerStateOther string

fun WagerState_Validate :: "wager_state \<Rightarrow> betting_error option" where
  "WagerState_Validate (WagerStateOther s) = Some ErrInvalid"
| "WagerState_Validate _ = None"

fun wager_state_string :: "wager_state \<Rightarrow> string" where
  "wager_state_string WagerPending = ''pending''"
| "wager_state_string WagerAccepted' = ''accepted''"
| "wager_state_string WagerRejected = ''rejected''"
| "wager_state_string WagerSettled' = ''settled''"
| "wager_state_string WagerVoided = ''voided''"
| "wager_state_string (WagerStateOther s) = s"

fun wagerTransitions :: "wager_state \<Rightarrow> wager_state list" where
  "wagerTransitions WagerPending = [WagerAccepted', WagerRejected]"
| "wagerTransitions WagerAccepted' = [WagerSettled', WagerVoided]"
| "wagerTransitions _ = []"

definition WagerState_CanTransitionTo :: "wager_state \<Rightarrow> wager_state \<Rightarrow> bool" where
  "WagerState_CanTransitionTo s t \<longleftrightarrow> t \<in> set (wagerTransitions s)"

datatype settlement_result = ResultWin | ResultLoss | ResultPush | ResultVoid | ResultOther string

fun SettlementResult_Validate :: "settlement_result \<Rightarrow> betting_error option" where
  "SettlementResult_Validate (ResultOther s) = Some ErrInvalid"
| "SettlementResult_Validate _ = None"

fun result_string :: "settlement_result \<Rightarrow> string" where
  "result_string ResultWin = ''win''"
| "result_string ResultLoss = ''loss''"
| "result_string ResultPush = ''push''"
| "result_string ResultVoid = ''void''"
| "result_string (ResultOther s) = s"

datatype funding_account_type = FundingUserCash | FundingUserFreePlay | FundingOther string

fun FundingAccountType_Validate :: "funding_account_type \<Rightarrow> betting_error option" where
  "FundingAccountType_Validate (FundingOther s) = Some ErrInvalid"
| "FundingAccountType_Validate _ = None"

section \<open>Markets, selections, wagers\<close>

record market =
  mk_ID :: ID
  mk_Type :: market_type
  mk_MatchID :: ID
  mk_Title :: string
  mk_State :: market_state
  mk_Currency :: currency
  mk_OpensAt :: go_time
  mk_ClosesAt :: go_time

definition Market_Validate :: "market \<Rightarrow> betting_error option" where
  "Market_Validate m =
    (if \<not> validID (mk_ID m) then Some ErrInvalid
     else case MarketType_Validate (mk_Type m) of Some e \<Rightarrow> Some e
     | None \<Rightarrow> if mk_Type m = MarketMatch \<and> \<not> validID (mk_MatchID m) then Some ErrInvalid
     else if mk_Type m \<noteq> MarketMatch \<and> validID (mk_MatchID m) then Some ErrInvalid
     else let title = TrimSpace (mk_Title m)
       in if title = [] \<or> length title > 200 then Some ErrInvalid
     else case MarketState_Validate (mk_State m) of Some e \<Rightarrow> Some e
     | None \<Rightarrow> case Currency_Validate (mk_Currency m) of Some e \<Rightarrow> Some (BettingLedger e)
     | None \<Rightarrow> if IsZero (mk_ClosesAt m) then Some ErrInvalid
     else if \<not> IsZero (mk_OpensAt m) \<and> \<not> After (mk_ClosesAt m) (mk_OpensAt m) then Some ErrInvalid
     else None)"

record selection =
  s_ID :: ID
  s_MarketID :: ID
  s_Key :: string
  s_DisplayTerms :: string
  s_OfferedAmericanOdds :: american_odds
  s_SemanticResultKey :: string
  s_Active :: bool

definition Selection_Validate :: "selection \<Rightarrow> betting_error option" where
  "Selection_Validate s =
    (if \<not> validID (s_ID s) \<or> \<not> validID (s_MarketID s) then Some ErrInvalid
     else if \<not> selectionKeyPattern (s_Key s) then Some ErrInvalid
     else let terms = TrimSpace (s_DisplayTerms s)
       in if terms = [] \<or> length terms > 500 then Some ErrInvalid
     else case Odds_Validate (s_OfferedAmericanOdds s) of Some e \<Rightarrow> Some (BettingLedger e)
     | None \<Rightarrow> None)"

record wager =
  w_ID :: ID
  w_UserID :: ID
  w_MarketID :: ID
  w_SelectionID :: ID
  w_FundingAccountType :: funding_account_type
  w_Stake :: money
  w_AcceptedOdds :: american_odds
  w_AcceptedTerms :: string
  w_PotentialProfit :: money
  w_State :: wager_state
  w_IdempotencyKey :: string
  w_PlacedBy :: ID
  w_PlacedAt :: go_time

definition PlacedForMember :: "wager \<Rightarrow> bool" where
  "PlacedForMember w \<longleftrightarrow> w_PlacedBy w \<noteq> [] \<and> w_PlacedBy w \<noteq> w_UserID w"

definition Wager_Validate :: "wager \<Rightarrow> betting_error option" where
  "Wager_Validate w =
    (if \<not> validID (w_ID w) \<or> \<not> validID (w_UserID w) \<or> \<not> validID (w_MarketID w) \<or> \<not> validID (w_SelectionID w)
     then Some ErrInvalid
     else case FundingAccountType_Validate (w_FundingAccountType w) of Some e \<Rightarrow> Some e
     | None \<Rightarrow> case Money_Validate (w_Stake w) of Some e \<Rightarrow> Some (BettingLedger e)
     | None \<Rightarrow> if sint (m_Cents (w_Stake w)) \<le> 0 then Some ErrInvalid
     else case Odds_Validate (w_AcceptedOdds w) of Some e \<Rightarrow> Some (BettingLedger e)
     | None \<Rightarrow> let terms = TrimSpace (w_AcceptedTerms w)
       in if terms = [] \<or> length terms > 1000 then Some ErrInvalid
     else case Money_Validate (w_PotentialProfit w) of Some e \<Rightarrow> Some (BettingLedger e)
     | None \<Rightarrow> if sint (m_Cents (w_PotentialProfit w)) < 0 then Some ErrInvalid
     else case WagerState_Validate (w_State w) of Some e \<Rightarrow> Some e
     | None \<Rightarrow> let key = TrimSpace (w_IdempotencyKey w)
       in if key = [] \<or> length key > 200 then Some ErrInvalid else None)"

section \<open>Events\<close>

text \<open>\<open>NewEventID\<close> over the sixteen bytes \<open>rand.Read\<close> filled in, or its error.\<close>

definition hex_byte :: "nat \<Rightarrow> string" where
  "hex_byte b = [hex_digit (b div 16), hex_digit (b mod 16)]"

definition NewEventID :: "8 word list option \<Rightarrow> ID option" where
  "NewEventID rand = (case rand of None \<Rightarrow> None
     | Some buf0 \<Rightarrow>
       let buf1 = buf0[6 := or (and (buf0 ! 6) 0x0f) 0x40];
           buf = buf1[8 := or (and (buf1 ! 8) 0x3f) 0x80];
           hex = (\<lambda>i j. concat (map (\<lambda>b. hex_byte (unat b)) (take (j - i) (drop i buf))))
       in Some (hex 0 4 @ ''-'' @ hex 4 6 @ ''-'' @ hex 6 8 @ ''-'' @ hex 8 10 @ ''-'' @ hex 10 16))"

definition buildEnvelope ::
  "ID \<Rightarrow> ID \<Rightarrow> string \<Rightarrow> int64 \<Rightarrow> event_type \<Rightarrow> go_time \<Rightarrow> (string \<times> json_field) list \<Rightarrow> betting_error + envelope" where
  \<comment> \<open>the payload structs hold strings and integers only: \<open>json.Marshal\<close> returns no error on them\<close>
  "buildEnvelope i aggregateID aggregateType aggregateVersion eventType occurredAt payload =
    (let envelope = \<lparr>e_ID = i, e_AggregateType = aggregateType, e_AggregateID = aggregateID,
           e_AggregateVersion = aggregateVersion, e_Type = eventType, e_Payload = json_Marshal payload,
           e_OccurredAt = UTC occurredAt, e_CorrelationID = [], e_CausationID = []\<rparr>
     in case Envelope_Validate envelope of Some e \<Rightarrow> Inl (BettingEvents e) | None \<Rightarrow> Inr envelope)"

definition wagerAcceptedPayload :: "wager \<Rightarrow> (string \<times> json_field) list" where
  "wagerAcceptedPayload w =
    [(''wager_id'', JString (w_ID w)), (''user_id'', JString (w_UserID w)),
     (''market_id'', JString (w_MarketID w)), (''selection_id'', JString (w_SelectionID w)),
     (''stake_cents'', JInt (sint (m_Cents (w_Stake w)))), (''currency'', JString (m_Currency (w_Stake w))),
     (''accepted_american_odds'', JInt (sint (w_AcceptedOdds w))),
     (''potential_profit_cents'', JInt (sint (m_Cents (w_PotentialProfit w))))]"

section \<open>Life cycles\<close>

fun market_rank :: "market_state \<Rightarrow> nat" where
  "market_rank MarketDraft = 0"
| "market_rank MarketOpen = 1"
| "market_rank MarketClosed = 2"
| "market_rank MarketSettlementPending = 3"
| "market_rank _ = 4"

fun wager_rank :: "wager_state \<Rightarrow> nat" where
  "wager_rank WagerPending = 0"
| "wager_rank WagerAccepted' = 1"
| "wager_rank _ = 2"

interpretation market_life: lifecycle MarketState_CanTransitionTo market_rank
proof
  show "market_rank s < market_rank t" if "MarketState_CanTransitionTo s t" for s t
    using that by (cases s) (auto simp: MarketState_CanTransitionTo_def)
qed

interpretation wager_life: lifecycle WagerState_CanTransitionTo wager_rank
proof
  show "wager_rank s < wager_rank t" if "WagerState_CanTransitionTo s t" for s t
    using that by (cases s) (auto simp: WagerState_CanTransitionTo_def)
qed

lemma CanTransitionTo_from:
  "WagerState_CanTransitionTo s WagerAccepted' \<longleftrightarrow> s = WagerPending"
  "WagerState_CanTransitionTo s WagerRejected \<longleftrightarrow> s = WagerPending"
  "WagerState_CanTransitionTo s WagerSettled' \<longleftrightarrow> s = WagerAccepted'"
  "WagerState_CanTransitionTo s WagerVoided \<longleftrightarrow> s = WagerAccepted'"
  by (cases s; simp add: WagerState_CanTransitionTo_def)+

section \<open>What validation accepts\<close>

lemma Enum_Validate_None:
  "MarketType_Validate t = None \<longleftrightarrow> (\<nexists>s. t = MarketTypeOther s)"
  "MarketState_Validate ms = None \<longleftrightarrow> (\<nexists>s. ms = MarketStateOther s)"
  "WagerState_Validate ws = None \<longleftrightarrow> (\<nexists>s. ws = WagerStateOther s)"
  "SettlementResult_Validate r = None \<longleftrightarrow> (\<nexists>s. r = ResultOther s)"
  "FundingAccountType_Validate f = None \<longleftrightarrow> (\<nexists>s. f = FundingOther s)"
proof -
  show "MarketType_Validate t = None \<longleftrightarrow> (\<nexists>s. t = MarketTypeOther s)" by (cases t) simp_all
  show "MarketState_Validate ms = None \<longleftrightarrow> (\<nexists>s. ms = MarketStateOther s)" by (cases ms) simp_all
  show "WagerState_Validate ws = None \<longleftrightarrow> (\<nexists>s. ws = WagerStateOther s)" by (cases ws) simp_all
  show "SettlementResult_Validate r = None \<longleftrightarrow> (\<nexists>s. r = ResultOther s)" by (cases r) simp_all
  show "FundingAccountType_Validate f = None \<longleftrightarrow> (\<nexists>s. f = FundingOther s)" by (cases f) simp_all
qed

lemma Wager_Validate_None:
  "Wager_Validate w = None \<longleftrightarrow>
     \<not> blank (w_ID w) \<and> \<not> blank (w_UserID w) \<and> \<not> blank (w_MarketID w) \<and> \<not> blank (w_SelectionID w)
     \<and> FundingAccountType_Validate (w_FundingAccountType w) = None
     \<and> Money_Validate (w_Stake w) = None \<and> 0 < cents (w_Stake w) \<and> Odds_Validate (w_AcceptedOdds w) = None
     \<and> \<not> blank (w_AcceptedTerms w) \<and> length (TrimSpace (w_AcceptedTerms w)) \<le> 1000
     \<and> Money_Validate (w_PotentialProfit w) = None \<and> 0 \<le> cents (w_PotentialProfit w)
     \<and> WagerState_Validate (w_State w) = None
     \<and> \<not> blank (w_IdempotencyKey w) \<and> length (TrimSpace (w_IdempotencyKey w)) \<le> 200"
  by (auto simp: Wager_Validate_def result_simps Let_def validID_def blank_def not_le not_less)

lemma Selection_Validate_None:
  "Selection_Validate s = None \<longleftrightarrow>
     \<not> blank (s_ID s) \<and> \<not> blank (s_MarketID s) \<and> selectionKeyPattern (s_Key s)
     \<and> \<not> blank (s_DisplayTerms s) \<and> length (TrimSpace (s_DisplayTerms s)) \<le> 500
     \<and> Odds_Validate (s_OfferedAmericanOdds s) = None"
  by (auto simp: Selection_Validate_def result_simps Let_def validID_def blank_def not_less)

lemma Market_Validate_None:
  "Market_Validate m = None \<longleftrightarrow>
     \<not> blank (mk_ID m) \<and> MarketType_Validate (mk_Type m) = None
     \<and> (mk_Type m = MarketMatch \<longleftrightarrow> \<not> blank (mk_MatchID m))
     \<and> \<not> blank (mk_Title m) \<and> length (TrimSpace (mk_Title m)) \<le> 200
     \<and> MarketState_Validate (mk_State m) = None \<and> Currency_Validate (mk_Currency m) = None
     \<and> \<not> IsZero (mk_ClosesAt m) \<and> (IsZero (mk_OpensAt m) \<or> Before (mk_OpensAt m) (mk_ClosesAt m))"
  by (auto simp: Market_Validate_def result_simps Let_def validID_def blank_def not_less After_def)

section \<open>Envelopes and identifiers\<close>

lemma buildEnvelope_Inr:
  assumes "\<forall>(k, v) \<in> set payload. plain_key k" "eventType \<in> set event_types"
    and "\<not> blank aggregateType" "length aggregateType \<le> 80"
  shows "buildEnvelope i a aggregateType v eventType t payload = Inr e \<longleftrightarrow>
     validUUID i \<and> validUUID a \<and> 0 < sint v \<and> \<not> IsZero t
     \<and> e = \<lparr>e_ID = i, e_AggregateType = aggregateType, e_AggregateID = a, e_AggregateVersion = v,
         e_Type = eventType, e_Payload = json_Marshal payload, e_OccurredAt = UTC t,
         e_CorrelationID = [], e_CausationID = []\<rparr>"
  using Envelope_Validate_Marshal [of "\<lparr>e_ID = i, e_AggregateType = aggregateType, e_AggregateID = a,
      e_AggregateVersion = v, e_Type = eventType, e_Payload = json_Marshal payload, e_OccurredAt = UTC t,
      e_CorrelationID = [], e_CausationID = []\<rparr>" payload] assms
  by (auto simp: buildEnvelope_def Let_def result_simps split: option.splits)

lemma buildEnvelope_valid: "buildEnvelope i a atype v et t payload = Inr e \<Longrightarrow> Envelope_Validate e = None"
  by (auto simp: buildEnvelope_def Let_def split: option.splits)


text \<open>Any sixteen random bytes give a version-4 identifier that envelope validation accepts.\<close>

lemma hex_byte_hex: "b < 256 \<Longrightarrow> c \<in> set (hex_byte b) \<Longrightarrow> is_hex c \<and> c \<noteq> CHR ''-''"
proof -
  assume b: "b < 256" and c: "c \<in> set (hex_byte b)"
  have "b div 16 < 16" "b mod 16 < 16" using b by simp_all
  then have "is_hex c" using c hex_digit_is_hex by (auto simp: hex_byte_def)
  moreover have "\<not> is_hex CHR ''-''" by (simp add: is_hex_def between_def byte_def)
  ultimately show ?thesis by auto
qed

lemma hex_bytes:
  "list_all is_hex (concat (map (\<lambda>b. hex_byte (unat (b :: 8 word))) bs))"
  "filter (\<lambda>c. c \<noteq> CHR ''-'') (concat (map (\<lambda>b. hex_byte (unat b)) bs)) = concat (map (\<lambda>b. hex_byte (unat b)) bs)"
  "length (concat (map (\<lambda>b. hex_byte (unat b)) bs)) = 2 * length bs"
proof -
  have 0: "unat (b :: 8 word) < 256" for b using unsigned_less [of b] by simp
  show "list_all is_hex (concat (map (\<lambda>b. hex_byte (unat b)) bs))"
    using hex_byte_hex [OF 0] by (auto simp: list_all_iff)
  show "filter (\<lambda>c. c \<noteq> CHR ''-'') (concat (map (\<lambda>b. hex_byte (unat b)) bs)) = concat (map (\<lambda>b. hex_byte (unat b)) bs)"
    using hex_byte_hex [OF 0] by (auto simp: filter_id_conv)
  show "length (concat (map (\<lambda>b. hex_byte (unat b)) bs)) = 2 * length bs"
    by (induction bs) (simp_all add: hex_byte_def)
qed

lemma validUUID_parts:
  assumes "length a = 8" "length b = 4" "length c = 4" "length d = 4" "length e = 12"
    and "list_all is_hex (a @ b @ c @ d @ e)" "CHR ''-'' \<notin> set (a @ b @ c @ d @ e)"
  shows "validUUID (a @ ''-'' @ b @ ''-'' @ c @ ''-'' @ d @ ''-'' @ e)"
proof -
  have "filter (\<lambda>x. x \<noteq> CHR ''-'') (a @ ''-'' @ b @ ''-'' @ c @ ''-'' @ d @ ''-'' @ e) = a @ b @ c @ d @ e"
  proof -
    have keep: "filter (\<lambda>x. x \<noteq> CHR ''-'') s = s" if "CHR ''-'' \<notin> set s" for s
      using that by (intro filter_True) auto
    from assms(7) show ?thesis by (simp add: keep)
  qed
  then show ?thesis using assms(1-6) by (simp add: validUUID_def nth_append Let_def)
qed

lemma NewEventID_valid:
  assumes "length buf = 16"
  shows "\<exists>i. NewEventID (Some buf) = Some i \<and> validUUID i"
proof -
  define buf' where "buf' = (let buf1 = buf[6 := or (and (buf ! 6) 0x0f) 0x40] in buf1[8 := or (and (buf1 ! 8) 0x3f) 0x80])"
  let ?h = "\<lambda>i j. concat (map (\<lambda>b. hex_byte (unat b)) (take (j - i) (drop i buf')))"
  have len: "length buf' = 16" using assms by (simp add: buf'_def Let_def)
  have no: "CHR ''-'' \<notin> set (?h i j)" for i j
    using hex_bytes(2) [of "take (j - i) (drop i buf')"] unfolding filter_id_conv by blast
  have "validUUID (?h 0 4 @ ''-'' @ ?h 4 6 @ ''-'' @ ?h 6 8 @ ''-'' @ ?h 8 10 @ ''-'' @ ?h 10 16)"
  proof (rule validUUID_parts)
    show "list_all is_hex (?h 0 4 @ ?h 4 6 @ ?h 6 8 @ ?h 8 10 @ ?h 10 16)"
      by (simp only: list_all_append hex_bytes(1) simp_thms)
    show "CHR ''-'' \<notin> set (?h 0 4 @ ?h 4 6 @ ?h 6 8 @ ?h 8 10 @ ?h 10 16)"
      by (simp only: set_append Un_iff no simp_thms)
  qed (simp_all only: hex_bytes(3) length_take length_drop len)
  then show ?thesis by (simp add: NewEventID_def Let_def buf'_def)
qed

end
