(* ===== verification/Betting_Place.thy ===== *)
theory Betting_Place
  imports Betting_Types
begin

text \<open>
  \<open>internal/betting/place.go\<close>: placing a wager against a market, and the three ways a pending
  wager leaves that state (accepted by an admin, rejected by an admin, cancelled by its owner).
\<close>

section \<open>Placing\<close>

record restriction =
  r_UserID :: ID
  r_SelectionID :: ID
  r_Reason :: string

definition Restricts :: "restriction \<Rightarrow> ID \<Rightarrow> ID \<Rightarrow> bool" where
  "Restricts r userID selectionID =
    (if r_UserID r \<noteq> userID then False else r_SelectionID r = [] \<or> r_SelectionID r = selectionID)"

record place_wager_command =
  pw_WagerID :: ID
  pw_UserID :: ID
  pw_Market :: market
  pw_Selection :: selection
  pw_Restrictions :: "restriction list"
  pw_MaxStakeCents :: int64
  pw_ExistingStakeCents :: int64
  pw_SelectionMaxStakeCents :: int64
  pw_ExistingSelectionStakeCents :: int64
  pw_TotalStakeCapCents :: int64
  pw_ExistingTotalStakeCents :: int64
  pw_MaxPayoutCents :: int64
  pw_PlacedBy :: ID
  pw_FundingAccountType :: funding_account_type
  pw_Stake :: money
  pw_IdempotencyKey :: string
  pw_Now :: go_time

definition over_cap :: "int64 \<Rightarrow> int64 \<Rightarrow> int64 \<Rightarrow> bool" where
  \<comment> \<open>\<open>cap > 0 && existing + stake > cap\<close>, the addition wrapping\<close>
  "over_cap cap existing stake \<longleftrightarrow> sint cap > 0 \<and> sint (existing + stake) > sint cap"

definition PlaceWager :: "place_wager_command \<Rightarrow> betting_error + wager" where
  "PlaceWager c =
    (let market = pw_Market c; selection = pw_Selection c; stake = pw_Stake c; now = UTC (pw_Now c)
     in if \<not> validID (pw_WagerID c) \<or> \<not> validID (pw_UserID c) then Inl ErrInvalid
     else case Market_Validate market of Some e \<Rightarrow> Inl e
     | None \<Rightarrow> case Selection_Validate selection of Some e \<Rightarrow> Inl e
     | None \<Rightarrow> if s_MarketID selection \<noteq> mk_ID market then Inl ErrSelectionMismatch
     else if IsZero (pw_Now c) then Inl ErrInvalid
     else if mk_State market \<noteq> MarketOpen then Inl ErrMarketNotOpen
     else if \<not> IsZero (mk_OpensAt market) \<and> Before now (mk_OpensAt market) then Inl ErrMarketNotOpen
     else if \<not> Before now (mk_ClosesAt market) then Inl ErrMarketNotOpen
     else if \<not> s_Active selection then Inl ErrSelectionInactive
     else if list_ex (\<lambda>r. Restricts r (pw_UserID c) (s_ID selection)) (pw_Restrictions c) then Inl ErrUserRestricted
     else case FundingAccountType_Validate (pw_FundingAccountType c) of Some e \<Rightarrow> Inl e
     | None \<Rightarrow> case Money_Validate stake of Some e \<Rightarrow> Inl (BettingLedger e)
     | None \<Rightarrow> if sint (m_Cents stake) \<le> 0 then Inl ErrInvalid
     else if m_Currency stake \<noteq> mk_Currency market then Inl (BettingLedger ErrCurrencyMismatch)
     else if over_cap (pw_MaxStakeCents c) (pw_ExistingStakeCents c) (m_Cents stake) then Inl ErrStakeAboveLimit
     else if over_cap (pw_SelectionMaxStakeCents c) (pw_ExistingSelectionStakeCents c) (m_Cents stake)
       then Inl ErrStakeAboveLimit
     else if over_cap (pw_TotalStakeCapCents c) (pw_ExistingTotalStakeCents c) (m_Cents stake) then Inl ErrSideFull
     else if TrimSpace (pw_IdempotencyKey c) = [] then Inl ErrInvalid
     else case Odds_Profit (s_OfferedAmericanOdds selection) stake of Inl e \<Rightarrow> Inl (BettingLedger e)
     | Inr profit \<Rightarrow> if sint (m_Cents profit) \<le> 0 then Inl ErrInvalid
     else if sint (pw_MaxPayoutCents c) > 0 \<and> sint (m_Cents profit) > sint (pw_MaxPayoutCents c)
       then Inl ErrPayoutAboveLimit
     else
       let wager = \<lparr>w_ID = pw_WagerID c, w_UserID = pw_UserID c, w_MarketID = mk_ID market,
             w_SelectionID = s_ID selection, w_FundingAccountType = pw_FundingAccountType c,
             w_Stake = stake, w_AcceptedOdds = s_OfferedAmericanOdds selection,
             w_AcceptedTerms = s_DisplayTerms selection, w_PotentialProfit = profit,
             w_State = WagerPending, w_IdempotencyKey = TrimSpace (pw_IdempotencyKey c),
             w_PlacedBy = pw_PlacedBy c, w_PlacedAt = now\<rparr>
       in case Wager_Validate wager of Some e \<Rightarrow> Inl e | None \<Rightarrow> Inr wager)"

section \<open>Accepting, rejecting, cancelling\<close>

record acceptance_account_refs =
  ar_UserFundingAccountID :: string
  ar_EscrowAccountID :: string

definition AcceptanceAccountRefs_validate :: "acceptance_account_refs \<Rightarrow> betting_error option" where
  "AcceptanceAccountRefs_validate r =
    (if TrimSpace (ar_UserFundingAccountID r) = [] \<or> TrimSpace (ar_EscrowAccountID r) = [] then Some ErrInvalid
     else if ar_UserFundingAccountID r = ar_EscrowAccountID r then Some ErrInvalid
     else None)"

record accept_wager_result =
  aw_Wager :: wager
  aw_Transaction :: transaction
  aw_Event :: envelope

definition acceptance_key :: "ID \<Rightarrow> string" where
  \<comment> \<open>\<open>fmt.Sprintf("wager:%s:acceptance", wager.ID)\<close>\<close>
  "acceptance_key i = ''wager:'' @ i @ '':acceptance''"

definition AcceptWager ::
  "wager \<Rightarrow> ID \<Rightarrow> go_time \<Rightarrow> acceptance_account_refs \<Rightarrow> ID \<Rightarrow> betting_error + accept_wager_result" where
  "AcceptWager w actor occurredAt refs eventID =
    (case Wager_Validate w of Some e \<Rightarrow> Inl e
     | None \<Rightarrow> if \<not> WagerState_CanTransitionTo (w_State w) WagerAccepted'
       then Inl (TransitionError ''accept wager'' (wager_state_string (w_State w)))
     else if \<not> validID actor then Inl ErrUnauthorized
     else case AcceptanceAccountRefs_validate refs of Some e \<Rightarrow> Inl e
     | None \<Rightarrow> if IsZero occurredAt then Inl ErrInvalid
     else if \<not> validID eventID then Inl ErrInvalid
     else let at' = UTC occurredAt
       in case Money_Negate (w_Stake w) of Inl e \<Rightarrow> Inl (BettingLedger e)
     | Inr negatedStake \<Rightarrow>
       let txn = \<lparr>t_Type = TransactionWagerAcceptance, t_Currency = m_Currency (w_Stake w),
             t_IdempotencyKey = acceptance_key (w_ID w), t_Actor = actor,
             t_SourceType = ''wager'', t_SourceID = w_ID w, t_Reason = [], t_ReversalOf = [],
             t_Postings = [\<lparr>p_AccountID = ar_UserFundingAccountID refs, p_Amount = negatedStake\<rparr>,
                           \<lparr>p_AccountID = ar_EscrowAccountID refs, p_Amount = w_Stake w\<rparr>]\<rparr>
       in case Transaction_Validate txn of Some e \<Rightarrow> Inl (BettingLedger e)
     | None \<Rightarrow> case buildEnvelope eventID (w_ID w) ''wager'' 1 WagerAccepted at' (wagerAcceptedPayload w) of
         Inl e \<Rightarrow> Inl e
       | Inr envelope \<Rightarrow>
           Inr \<lparr>aw_Wager = w\<lparr>w_State := WagerAccepted'\<rparr>, aw_Transaction = txn, aw_Event = envelope\<rparr>)"

definition RejectWager :: "wager \<Rightarrow> ID \<Rightarrow> string \<Rightarrow> betting_error + wager" where
  "RejectWager w actor reason =
    (case Wager_Validate w of Some e \<Rightarrow> Inl e
     | None \<Rightarrow> if \<not> WagerState_CanTransitionTo (w_State w) WagerRejected
       then Inl (TransitionError ''reject wager'' (wager_state_string (w_State w)))
     else if \<not> validID actor then Inl ErrUnauthorized
     else if TrimSpace reason = [] then Inl ErrReasonRequired
     else Inr (w\<lparr>w_State := WagerRejected\<rparr>))"

definition CancelWager :: "wager \<Rightarrow> ID \<Rightarrow> betting_error + wager" where
  "CancelWager w actor =
    (case Wager_Validate w of Some e \<Rightarrow> Inl e
     | None \<Rightarrow> if \<not> validID actor \<or> actor \<noteq> w_UserID w then Inl ErrUnauthorized
     else if \<not> WagerState_CanTransitionTo (w_State w) WagerRejected
       then Inl (TransitionError ''cancel wager'' (wager_state_string (w_State w)))
     else Inr (w\<lparr>w_State := WagerRejected\<rparr>))"

section \<open>What a placement guarantees\<close>

lemma not_over_cap:
  assumes "\<not> over_cap cap existing stake" "0 < sint cap"
    and "0 \<le> sint existing" "0 < sint stake" "sint existing + sint stake \<le> 9223372036854775807"
  shows "sint existing + sint stake \<le> sint cap"
  using assms by (simp add: over_cap_def sint64_add)

lemma PlaceWager_Inr:
  "PlaceWager c = Inr w \<longleftrightarrow>
    (\<exists>profit. \<not> blank (pw_WagerID c) \<and> \<not> blank (pw_UserID c)
     \<and> Market_Validate (pw_Market c) = None \<and> Selection_Validate (pw_Selection c) = None
     \<and> s_MarketID (pw_Selection c) = mk_ID (pw_Market c) \<and> \<not> IsZero (pw_Now c)
     \<and> mk_State (pw_Market c) = MarketOpen
     \<and> (IsZero (mk_OpensAt (pw_Market c)) \<or> \<not> Before (pw_Now c) (mk_OpensAt (pw_Market c)))
     \<and> Before (pw_Now c) (mk_ClosesAt (pw_Market c)) \<and> s_Active (pw_Selection c)
     \<and> (\<forall>r \<in> set (pw_Restrictions c). \<not> Restricts r (pw_UserID c) (s_ID (pw_Selection c)))
     \<and> FundingAccountType_Validate (pw_FundingAccountType c) = None
     \<and> m_Currency (pw_Stake c) = mk_Currency (pw_Market c)
     \<and> \<not> over_cap (pw_MaxStakeCents c) (pw_ExistingStakeCents c) (m_Cents (pw_Stake c))
     \<and> \<not> over_cap (pw_SelectionMaxStakeCents c) (pw_ExistingSelectionStakeCents c) (m_Cents (pw_Stake c))
     \<and> \<not> over_cap (pw_TotalStakeCapCents c) (pw_ExistingTotalStakeCents c) (m_Cents (pw_Stake c))
     \<and> \<not> blank (pw_IdempotencyKey c) \<and> length (TrimSpace (pw_IdempotencyKey c)) \<le> 200
     \<and> Odds_Profit (s_OfferedAmericanOdds (pw_Selection c)) (pw_Stake c) = Inr profit \<and> 0 < cents profit
     \<and> (0 < sint (pw_MaxPayoutCents c) \<longrightarrow> cents profit \<le> sint (pw_MaxPayoutCents c))
     \<and> w = \<lparr>w_ID = pw_WagerID c, w_UserID = pw_UserID c, w_MarketID = mk_ID (pw_Market c),
             w_SelectionID = s_ID (pw_Selection c), w_FundingAccountType = pw_FundingAccountType c,
             w_Stake = pw_Stake c, w_AcceptedOdds = s_OfferedAmericanOdds (pw_Selection c),
             w_AcceptedTerms = s_DisplayTerms (pw_Selection c), w_PotentialProfit = profit,
             w_State = WagerPending, w_IdempotencyKey = TrimSpace (pw_IdempotencyKey c),
             w_PlacedBy = pw_PlacedBy c, w_PlacedAt = UTC (pw_Now c)\<rparr>)" (is "?L \<longleftrightarrow> ?R")
proof
  assume ?L
  then show ?R
    unfolding PlaceWager_def Let_def result_simps validID_blank blank_def [symmetric] not_less
    by (auto simp: Wager_Validate_None list_ex_iff result_simps Let_def not_le split: option.splits)
next
  assume ?R
  then obtain profit where profit: "Odds_Profit (s_OfferedAmericanOdds (pw_Selection c)) (pw_Stake c) = Inr profit"
      "0 < cents profit"
    by blast
  note D = Odds_Profit_InrD [OF profit(1)]
  define wager where "wager = \<lparr>w_ID = pw_WagerID c, w_UserID = pw_UserID c, w_MarketID = mk_ID (pw_Market c),
             w_SelectionID = s_ID (pw_Selection c), w_FundingAccountType = pw_FundingAccountType c,
             w_Stake = pw_Stake c, w_AcceptedOdds = s_OfferedAmericanOdds (pw_Selection c),
             w_AcceptedTerms = s_DisplayTerms (pw_Selection c), w_PotentialProfit = profit,
             w_State = WagerPending, w_IdempotencyKey = TrimSpace (pw_IdempotencyKey c),
             w_PlacedBy = pw_PlacedBy c, w_PlacedAt = UTC (pw_Now c)\<rparr>"
  have "Wager_Validate wager = None"
    using \<open>?R\<close> D profit
    by (auto simp: wager_def Wager_Validate_None Selection_Validate_None Market_Validate_None Money_Validate_def)
  then show ?L
    using \<open>?R\<close> D profit
    by (auto simp: PlaceWager_def Let_def validID_blank blank_def [symmetric] list_ex_iff not_le wager_def)
qed

lemma AcceptWager_Inr:
  "AcceptWager w actor t refs eid = Inr r \<Longrightarrow>
     Wager_Validate w = None \<and> w_State w = WagerPending \<and> \<not> blank actor
     \<and> aw_Wager r = w\<lparr>w_State := WagerAccepted'\<rparr>
     \<and> Transaction_Validate (aw_Transaction r) = None \<and> Envelope_Validate (aw_Event r) = None
     \<and> t_IdempotencyKey (aw_Transaction r) = acceptance_key (w_ID w)
     \<and> t_Currency (aw_Transaction r) = m_Currency (w_Stake w)
     \<and> (\<exists>n. Money_Negate (w_Stake w) = Inr n
         \<and> t_Postings (aw_Transaction r) = [\<lparr>p_AccountID = ar_UserFundingAccountID refs, p_Amount = n\<rparr>,
                           \<lparr>p_AccountID = ar_EscrowAccountID refs, p_Amount = w_Stake w\<rparr>])"
  unfolding AcceptWager_def Let_def result_simps
  by (auto simp: CanTransitionTo_from validID_blank dest: buildEnvelope_valid)

interpretation acceptance: transaction_builder
  "\<lambda>(w, actor, t, refs, eid). map_sum id aw_Transaction (AcceptWager w actor t refs eid)"
proof
  show "Transaction_Validate t = None"
    if "(case c of (w, actor, t, refs, eid) \<Rightarrow> map_sum id aw_Transaction (AcceptWager w actor t refs eid)) = Inr t"
    for c :: "wager \<times> ID \<times> go_time \<times> acceptance_account_refs \<times> ID" and t
    using that by (cases c) (auto simp: result_simps dest: AcceptWager_Inr)
qed

end
