(* ===== verification/Betting_Settle.thy ===== *)
theory Betting_Settle
  imports Betting_Place
begin

text \<open>
  \<open>internal/betting/settle.go\<close>: grading a market (\<open>SettleMarket\<close>, with dead heats and regrades) and
  voiding one (\<open>VoidMarket\<close>), over the settlement of one wager (\<open>settleWager\<close>). The loops over the
  accepted wagers are \<open>settle_loop\<close> and \<open>void_loop\<close>, whose accumulator holds the variables the Go
  loops update.
\<close>

section \<open>Outcomes, accounts, dead heats\<close>

type_synonym market_outcome = "(ID, settlement_result) go_map"

fun outcome_loop :: "market_outcome \<Rightarrow> selection list \<Rightarrow> betting_error option" where
  "outcome_loop o' [] = None"
| "outcome_loop o' (s # ss) =
    (case DAList.lookup o' (s_ID s) of None \<Rightarrow> Some ErrIncompleteOutcome
     | Some result \<Rightarrow> case SettlementResult_Validate result of Some e \<Rightarrow> Some e
     | None \<Rightarrow> outcome_loop o' ss)"

definition MarketOutcome_validate :: "market_outcome \<Rightarrow> selection list \<Rightarrow> betting_error option" where
  "MarketOutcome_validate o' selections =
    (if map_size o' \<noteq> length selections then Some ErrIncompleteOutcome else outcome_loop o' selections)"

record settlement_account_refs =
  sr_UserFundingAccountID :: string
  sr_EscrowAccountID :: string
  sr_HouseClearingAccountID :: string

definition SettlementAccountRefs_validate ::
  "settlement_account_refs \<Rightarrow> settlement_result \<Rightarrow> betting_error option" where
  "SettlementAccountRefs_validate r result =
    (if TrimSpace (sr_UserFundingAccountID r) = [] \<or> TrimSpace (sr_EscrowAccountID r) = [] then Some ErrInvalid
     else if (result = ResultWin \<or> result = ResultLoss) \<and> TrimSpace (sr_HouseClearingAccountID r) = []
       then Some ErrInvalid
     else None)"

record wager_settlement =
  ws_ID :: ID
  ws_WagerID :: ID
  ws_MarketSettlementID :: ID
  ws_Result :: settlement_result
  ws_Stake :: money
  ws_Profit :: money
  ws_Returned :: money
  ws_DeadHeatDivisor :: go_int
  ws_Transaction :: transaction

definition deadHeatSplit :: "money \<Rightarrow> go_int \<Rightarrow> money \<times> money" where
  "deadHeatSplit stake divisor0 =
    (let divisor = (if sint divisor0 < 1 then 1 else divisor0);
         winningCents = quo64 (m_Cents stake) divisor
     in (\<lparr>m_Cents = winningCents, m_Currency = m_Currency stake\<rparr>,
         \<lparr>m_Cents = m_Cents stake - winningCents, m_Currency = m_Currency stake\<rparr>))"

section \<open>One wager\<close>

definition settlement_key :: "ID \<Rightarrow> go_int \<Rightarrow> string" where
  \<comment> \<open>\<open>fmt.Sprintf("wager:%s:settlement:v%d", wager.ID, version)\<close>\<close>
  "settlement_key i version = ''wager:'' @ i @ '':settlement:v'' @ decimal (sint version)"

definition wagerSettledPayload ::
  "wager \<Rightarrow> settlement_result \<Rightarrow> money \<Rightarrow> money \<Rightarrow> (string \<times> json_field) list" where
  "wagerSettledPayload w result profit returned =
    [(''wager_id'', JString (w_ID w)), (''user_id'', JString (w_UserID w)),
     (''result'', JString (result_string result)), (''stake_cents'', JInt (cents (w_Stake w))),
     (''profit_cents'', JInt (cents profit)), (''returned_cents'', JInt (cents returned)),
     (''currency'', JString (m_Currency (w_Stake w)))]"

text \<open>The switch of \<open>settleWager\<close>: transaction type, profit, returned amount and postings.\<close>

definition settle_win ::
  "wager \<Rightarrow> settlement_account_refs \<Rightarrow> money \<Rightarrow> go_int \<Rightarrow>
     betting_error + (transaction_type \<times> money \<times> money \<times> posting list)" where
  "settle_win w refs negatedStake divisor =
    (let currency = m_Currency (w_Stake w); (winningStake, lostStake) = deadHeatSplit (w_Stake w) divisor
     in case (if m_Cents winningStake = 0 then Inr \<lparr>m_Cents = 0, m_Currency = currency\<rparr>
              else Odds_Profit (w_AcceptedOdds w) winningStake) of Inl e \<Rightarrow> Inl (BettingLedger e)
     | Inr profit \<Rightarrow> case Money_Add winningStake profit of Inl e \<Rightarrow> Inl (BettingLedger e)
     | Inr returned \<Rightarrow>
       let houseAmount = \<lparr>m_Cents = m_Cents lostStake - m_Cents profit, m_Currency = currency\<rparr>;
           postings = [\<lparr>p_AccountID = sr_EscrowAccountID refs, p_Amount = negatedStake\<rparr>];
           postings = (if m_Cents houseAmount \<noteq> 0
             then postings @ [\<lparr>p_AccountID = sr_HouseClearingAccountID refs, p_Amount = houseAmount\<rparr>] else postings);
           postings = (if m_Cents returned \<noteq> 0
             then postings @ [\<lparr>p_AccountID = sr_UserFundingAccountID refs, p_Amount = returned\<rparr>] else postings)
       in Inr (TransactionWagerWin, profit, returned, postings))"

definition settle_switch ::
  "wager \<Rightarrow> settlement_result \<Rightarrow> settlement_account_refs \<Rightarrow> money \<Rightarrow> go_int \<Rightarrow>
     betting_error + (transaction_type \<times> money \<times> money \<times> posting list)" where
  "settle_switch w result refs negatedStake divisor =
    (let zero = \<lparr>m_Cents = 0, m_Currency = m_Currency (w_Stake w)\<rparr>;
         refund = Inr (TransactionWagerRefund, zero, w_Stake w,
           [\<lparr>p_AccountID = sr_EscrowAccountID refs, p_Amount = negatedStake\<rparr>,
            \<lparr>p_AccountID = sr_UserFundingAccountID refs, p_Amount = w_Stake w\<rparr>])
     in case result of
       ResultWin \<Rightarrow> settle_win w refs negatedStake divisor
     | ResultLoss \<Rightarrow> Inr (TransactionWagerLoss, zero, zero,
           [\<lparr>p_AccountID = sr_EscrowAccountID refs, p_Amount = negatedStake\<rparr>,
            \<lparr>p_AccountID = sr_HouseClearingAccountID refs, p_Amount = w_Stake w\<rparr>])
     | ResultPush \<Rightarrow> refund
     | ResultVoid \<Rightarrow> refund
     | ResultOther s \<Rightarrow> Inl ErrInvalid)"

definition settleWager ::
  "wager \<Rightarrow> settlement_result \<Rightarrow> settlement_account_refs \<Rightarrow> ID \<Rightarrow> ID \<Rightarrow> go_int \<Rightarrow> ID \<Rightarrow> go_time \<Rightarrow> ID \<Rightarrow> go_int \<Rightarrow>
     betting_error + (wager_settlement \<times> wager \<times> envelope)" where
  "settleWager w result refs marketSettlementID wagerSettlementID version actor at' eventID deadHeatDivisor0 =
    (case SettlementAccountRefs_validate refs result of Some e \<Rightarrow> Inl e
     | None \<Rightarrow>
       let deadHeatDivisor1 = (if sint deadHeatDivisor0 < 1 then 1 else deadHeatDivisor0);
           deadHeatDivisor = (if result \<noteq> ResultWin then 1 else deadHeatDivisor1);
           nextState = (if result = ResultVoid then WagerVoided else WagerSettled')
       in if \<not> WagerState_CanTransitionTo (w_State w) nextState
          then Inl (TransitionError ''settle wager'' (wager_state_string (w_State w)))
     else case Money_Negate (w_Stake w) of Inl e \<Rightarrow> Inl (BettingLedger e)
     | Inr negatedStake \<Rightarrow> case settle_switch w result refs negatedStake deadHeatDivisor of Inl e \<Rightarrow> Inl e
     | Inr (txnType, profit, returned, postings) \<Rightarrow>
       let txn = \<lparr>t_Type = txnType, t_Currency = m_Currency (w_Stake w),
             t_IdempotencyKey = settlement_key (w_ID w) version, t_Actor = actor,
             t_SourceType = ''market_settlement'', t_SourceID = marketSettlementID,
             t_Reason = [], t_ReversalOf = [], t_Postings = postings\<rparr>
       in case Transaction_Validate txn of Some e \<Rightarrow> Inl (BettingLedger e)
     | None \<Rightarrow>
       let settlement = \<lparr>ws_ID = wagerSettlementID, ws_WagerID = w_ID w,
             ws_MarketSettlementID = marketSettlementID, ws_Result = result, ws_Stake = w_Stake w,
             ws_Profit = profit, ws_Returned = returned, ws_DeadHeatDivisor = deadHeatDivisor,
             ws_Transaction = txn\<rparr>
       in case buildEnvelope eventID (w_ID w) ''wager'' version WagerSettled at'
                 (wagerSettledPayload w result profit returned) of
         Inl e \<Rightarrow> Inl e
       | Inr envelope \<Rightarrow> Inr (settlement, w\<lparr>w_State := nextState\<rparr>, envelope))"

section \<open>A market\<close>

record settle_market_command =
  sm_Market :: market
  sm_Selections :: "selection list"
  sm_Outcome :: market_outcome
  sm_Wagers :: "wager list"
  sm_Refs :: "(ID, settlement_account_refs) go_map"
  sm_WagerSettlementIDs :: "(ID, ID) go_map"
  sm_WagerEventIDs :: "(ID, ID) go_map"
  sm_SettlementID :: ID
  sm_Version :: go_int
  sm_Actor :: ID
  sm_OccurredAt :: go_time
  sm_MarketEventID :: ID
  sm_Regrade :: bool
  sm_DeadHeat :: bool
  sm_DeadHeatDivisor :: go_int

record settle_market_result =
  sx_Market :: market
  sx_Wagers :: "wager list"
  sx_Settlements :: "wager_settlement list"
  sx_MarketEvent :: envelope
  sx_WagerEvents :: "envelope list"
  sx_DeadHeatDivisor :: go_int

definition resultIndex :: "settlement_result \<Rightarrow> nat" where
  "resultIndex r = (case r of ResultWin \<Rightarrow> 0 | ResultLoss \<Rightarrow> 1 | ResultPush \<Rightarrow> 2 | _ \<Rightarrow> 3)"

definition splitAcceptedWagers :: "ID \<Rightarrow> wager list \<Rightarrow> betting_error + (wager list \<times> wager list)" where
  \<comment> \<open>the wagers appended to \<open>result.Wagers\<close> unchanged, and the accepted ones by identifier\<close>
  "splitAcceptedWagers marketID wagers =
    (if list_ex (\<lambda>w. w_MarketID w \<noteq> marketID) wagers then Inl ErrWagerMarketMismatch
     else Inr (filter (\<lambda>w. w_State w \<noteq> WagerAccepted') wagers,
               sort_key w_ID (filter (\<lambda>w. w_State w = WagerAccepted') wagers)))"

definition deadHeatDivisor :: "settle_market_command \<Rightarrow> betting_error + go_int" where
  "deadHeatDivisor c =
    (if \<not> sm_DeadHeat c
     then if sint (sm_DeadHeatDivisor c) > 1 then Inl ErrInvalid else Inr 1
     else if sint (sm_DeadHeatDivisor c) > 0
     then if sint (sm_DeadHeatDivisor c) < 2 then Inl ErrInvalid else Inr (sm_DeadHeatDivisor c)
     else let winners = (of_nat (length (filter (\<lambda>r. r = ResultWin) (map_values (sm_Outcome c)))) :: go_int)
       in if sint winners < 2 then Inl ErrInvalid else Inr winners)"

definition marketSettledPayload ::
  "ID \<Rightarrow> go_int \<Rightarrow> int list \<Rightarrow> int64 \<Rightarrow> int64 \<Rightarrow> int64 \<Rightarrow> currency \<Rightarrow> (string \<times> json_field) list" where
  "marketSettledPayload marketID version counts totalStake totalProfit totalReturned currency =
    [(''market_id'', JString marketID), (''version'', JInt (sint version)),
     (''win_count'', JInt (counts ! 0)), (''loss_count'', JInt (counts ! 1)),
     (''push_count'', JInt (counts ! 2)), (''void_count'', JInt (counts ! 3)),
     (''total_stake_cents'', JInt (sint totalStake)), (''total_profit_cents'', JInt (sint totalProfit)),
     (''total_returned_cents'', JInt (sint totalReturned)), (''currency'', JString currency)]"

record settle_acc =
  a_Settlements :: "wager_settlement list"
  a_Wagers :: "wager list"
  a_WagerEvents :: "envelope list"
  a_counts :: "go_int list"
  a_totalStake :: int64
  a_totalProfit :: int64
  a_totalReturned :: int64

fun settle_loop :: "settle_market_command \<Rightarrow> go_int \<Rightarrow> wager list \<Rightarrow> settle_acc \<Rightarrow> betting_error + settle_acc" where
  "settle_loop c divisor [] acc = Inr acc"
| "settle_loop c divisor (w # ws) acc =
    (case DAList.lookup (sm_Outcome c) (w_SelectionID w) of None \<Rightarrow> Inl ErrIncompleteOutcome
     | Some outcome \<Rightarrow> case DAList.lookup (sm_Refs c) (w_ID w) of None \<Rightarrow> Inl ErrInvalid
     | Some refs \<Rightarrow>
       let settlementID = get_or [] (sm_WagerSettlementIDs c) (w_ID w);
           eventID = get_or [] (sm_WagerEventIDs c) (w_ID w)
       in if \<not> validID settlementID \<or> \<not> validID eventID then Inl ErrInvalid
     else case settleWager w outcome refs (sm_SettlementID c) settlementID (sm_Version c) (sm_Actor c)
                 (UTC (sm_OccurredAt c)) eventID divisor of
         Inl e \<Rightarrow> Inl e
       | Inr (settlement, updatedWager, envelope) \<Rightarrow>
           settle_loop c divisor ws
            \<lparr>a_Settlements = a_Settlements acc @ [settlement],
             a_Wagers = a_Wagers acc @ [updatedWager],
             a_WagerEvents = a_WagerEvents acc @ [envelope],
             a_counts = (a_counts acc)[resultIndex outcome := a_counts acc ! resultIndex outcome + 1],
             a_totalStake = a_totalStake acc + m_Cents (ws_Stake settlement),
             a_totalProfit = a_totalProfit acc + m_Cents (ws_Profit settlement),
             a_totalReturned = a_totalReturned acc + m_Cents (ws_Returned settlement)\<rparr>)"

definition settle_source_error :: "market_state \<Rightarrow> bool \<Rightarrow> betting_error option" where
  \<comment> \<open>the switch on the market's state at the head of \<open>SettleMarket\<close>\<close>
  "settle_source_error s regrade =
    (case s of MarketClosed \<Rightarrow> None | MarketSettlementPending \<Rightarrow> None
     | MarketSettled' \<Rightarrow> if \<not> regrade then Some (TransitionError ''settle market'' (market_state_string s)) else None
     | _ \<Rightarrow> Some (TransitionError ''settle market'' (market_state_string s)))"

definition SettleMarket :: "settle_market_command \<Rightarrow> betting_error + settle_market_result" where
  "SettleMarket c =
    (case Market_Validate (sm_Market c) of Some e \<Rightarrow> Inl e
     | None \<Rightarrow> case settle_source_error (mk_State (sm_Market c)) (sm_Regrade c) of Some e \<Rightarrow> Inl e
     | None \<Rightarrow> if sint (sm_Version c) \<le> 0 then Inl ErrInvalid
     else if \<not> validID (sm_SettlementID c) \<or> \<not> validID (sm_Actor c) \<or> \<not> validID (sm_MarketEventID c)
       then Inl ErrInvalid
     else if IsZero (sm_OccurredAt c) then Inl ErrInvalid
     else if list_ex (\<lambda>s. s_MarketID s \<noteq> mk_ID (sm_Market c)) (sm_Selections c) then Inl ErrSelectionMismatch
     else case MarketOutcome_validate (sm_Outcome c) (sm_Selections c) of Some e \<Rightarrow> Inl e
     | None \<Rightarrow> case deadHeatDivisor c of Inl e \<Rightarrow> Inl e
     | Inr divisor \<Rightarrow> case splitAcceptedWagers (mk_ID (sm_Market c)) (sm_Wagers c) of Inl e \<Rightarrow> Inl e
     | Inr (unchanged, acceptedWagers) \<Rightarrow>
       case settle_loop c divisor acceptedWagers
              \<lparr>a_Settlements = [], a_Wagers = unchanged, a_WagerEvents = [], a_counts = [0, 0, 0, 0],
               a_totalStake = 0, a_totalProfit = 0, a_totalReturned = 0\<rparr> of Inl e \<Rightarrow> Inl e
     | Inr acc \<Rightarrow>
       case buildEnvelope (sm_MarketEventID c) (mk_ID (sm_Market c)) ''market'' (sm_Version c) MarketSettled
              (UTC (sm_OccurredAt c))
              (marketSettledPayload (mk_ID (sm_Market c)) (sm_Version c) (map sint (a_counts acc))
                (a_totalStake acc) (a_totalProfit acc) (a_totalReturned acc) (mk_Currency (sm_Market c))) of
         Inl e \<Rightarrow> Inl e
       | Inr envelope \<Rightarrow>
           Inr \<lparr>sx_Market = (sm_Market c)\<lparr>mk_State := MarketSettled'\<rparr>, sx_Wagers = a_Wagers acc,
                sx_Settlements = a_Settlements acc, sx_MarketEvent = envelope,
                sx_WagerEvents = a_WagerEvents acc, sx_DeadHeatDivisor = divisor\<rparr>)"

section \<open>Voiding a market\<close>

record void_market_command =
  vm_Market :: market
  vm_Wagers :: "wager list"
  vm_Refs :: "(ID, settlement_account_refs) go_map"
  vm_WagerSettlementIDs :: "(ID, ID) go_map"
  vm_WagerEventIDs :: "(ID, ID) go_map"
  vm_SettlementID :: ID
  vm_Version :: go_int
  vm_Actor :: ID
  vm_Reason :: string
  vm_OccurredAt :: go_time
  vm_MarketEventID :: ID

fun void_loop :: "void_market_command \<Rightarrow> wager list \<Rightarrow> settle_acc \<Rightarrow> betting_error + settle_acc" where
  "void_loop c [] acc = Inr acc"
| "void_loop c (w # ws) acc =
    (case DAList.lookup (vm_Refs c) (w_ID w) of None \<Rightarrow> Inl ErrInvalid
     | Some refs \<Rightarrow>
       let settlementID = get_or [] (vm_WagerSettlementIDs c) (w_ID w);
           eventID = get_or [] (vm_WagerEventIDs c) (w_ID w)
       in if \<not> validID settlementID \<or> \<not> validID eventID then Inl ErrInvalid
     else case settleWager w ResultVoid refs (vm_SettlementID c) settlementID (vm_Version c) (vm_Actor c)
                 (UTC (vm_OccurredAt c)) eventID 1 of
         Inl e \<Rightarrow> Inl e
       | Inr (settlement, updatedWager, envelope) \<Rightarrow>
           void_loop c ws (acc
            \<lparr>a_Settlements := a_Settlements acc @ [settlement],
             a_Wagers := a_Wagers acc @ [updatedWager],
             a_WagerEvents := a_WagerEvents acc @ [envelope],
             a_totalStake := a_totalStake acc + m_Cents (ws_Stake settlement)\<rparr>))"

definition VoidMarket :: "void_market_command \<Rightarrow> betting_error + settle_market_result" where
  "VoidMarket c =
    (case Market_Validate (vm_Market c) of Some e \<Rightarrow> Inl e
     | None \<Rightarrow> if mk_State (vm_Market c) \<notin> {MarketOpen, MarketClosed, MarketSettlementPending}
       then Inl (TransitionError ''void market'' (market_state_string (mk_State (vm_Market c))))
     else if TrimSpace (vm_Reason c) = [] then Inl ErrReasonRequired
     else if sint (vm_Version c) \<le> 0 then Inl ErrInvalid
     else if \<not> validID (vm_SettlementID c) \<or> \<not> validID (vm_Actor c) \<or> \<not> validID (vm_MarketEventID c)
       then Inl ErrInvalid
     else if IsZero (vm_OccurredAt c) then Inl ErrInvalid
     else case splitAcceptedWagers (mk_ID (vm_Market c)) (vm_Wagers c) of Inl e \<Rightarrow> Inl e
     | Inr (unchanged, acceptedWagers) \<Rightarrow>
       case void_loop c acceptedWagers
              \<lparr>a_Settlements = [], a_Wagers = unchanged, a_WagerEvents = [], a_counts = [],
               a_totalStake = 0, a_totalProfit = 0, a_totalReturned = 0\<rparr> of Inl e \<Rightarrow> Inl e
     | Inr acc \<Rightarrow>
       case buildEnvelope (vm_MarketEventID c) (mk_ID (vm_Market c)) ''market'' (vm_Version c) MarketSettled
              (UTC (vm_OccurredAt c))
              (marketSettledPayload (mk_ID (vm_Market c)) (vm_Version c) [0, 0, 0, go_len acceptedWagers]
                (a_totalStake acc) 0 (a_totalStake acc) (mk_Currency (vm_Market c))) of
         Inl e \<Rightarrow> Inl e
       | Inr envelope \<Rightarrow>
           Inr \<lparr>sx_Market = (vm_Market c)\<lparr>mk_State := MarketVoided\<rparr>, sx_Wagers = a_Wagers acc,
                sx_Settlements = a_Settlements acc, sx_MarketEvent = envelope,
                sx_WagerEvents = a_WagerEvents acc, sx_DeadHeatDivisor = 0\<rparr>)"

end
