(* ===== verification/Settlement.thy ===== *)
theory Settlement
  imports Betting_Settle
begin

text \<open>
  What a settlement pays: the amounts of \<open>settleWager\<close> against a reference definition over the
  integers, the accounts it moves, when it succeeds, and what that means for a whole market.
\<close>

section \<open>The amounts\<close>

definition settle_profit :: "wager \<Rightarrow> settlement_result \<Rightarrow> int \<Rightarrow> int" where
  "settle_profit w result d =
    (if result = ResultWin
     then round_half_up (cents (w_Stake w) div d * odds_num (w_AcceptedOdds w)) (odds_den (w_AcceptedOdds w))
     else 0)"

definition settle_returned :: "wager \<Rightarrow> settlement_result \<Rightarrow> int \<Rightarrow> int" where
  "settle_returned w result d =
    (case result of ResultWin \<Rightarrow> cents (w_Stake w) div d + settle_profit w result d
     | ResultLoss \<Rightarrow> 0 | _ \<Rightarrow> cents (w_Stake w))"

definition effective_divisor :: "settlement_result \<Rightarrow> go_int \<Rightarrow> int" where
  "effective_divisor result d = (if result = ResultWin then max 1 (sint d) else 1)"

lemma effective_divisor_pos: "1 \<le> effective_divisor result d"
  by (simp add: effective_divisor_def)

lemma div_self_bounds: "0 \<le> s \<Longrightarrow> 1 \<le> d \<Longrightarrow> 0 \<le> s div d \<and> s div d \<le> s" for s d :: int
  by (metis div_by_1 zdiv_mono2 pos_imp_zdiv_nonneg_iff zero_less_one_class.zero_le_one order_trans
      zero_less_one linorder_not_le not_less order_less_le_trans)

lemma deadHeatSplit_cents:
  assumes "0 < cents s" "1 \<le> sint d" "deadHeatSplit s d = (win, lost)"
  shows "cents win = cents s div sint d" "cents lost = cents s - cents s div sint d"
    "m_Currency win = m_Currency s" "m_Currency lost = m_Currency s"
proof -
  have win: "win = \<lparr>m_Cents = quo64 (m_Cents s) d, m_Currency = m_Currency s\<rparr>"
    and lost: "lost = \<lparr>m_Cents = m_Cents s - quo64 (m_Cents s) d, m_Currency = m_Currency s\<rparr>"
    using assms(2,3) by (auto simp: deadHeatSplit_def Let_def)
  show q: "cents win = cents s div sint d" using assms(1,2) by (simp add: win sint_quo64)
  show "cents lost = cents s - cents s div sint d"
    using q div_self_bounds [of "cents s" "sint d"] assms(1,2) sint64_le [of "m_Cents s"]
    by (simp add: win lost sint64_diff)
  show "m_Currency win = m_Currency s" "m_Currency lost = m_Currency s" by (simp_all add: win lost)
qed

text \<open>What the three accounts of a settlement should see; coinciding accounts add up.\<close>

definition settlement_moves :: "settlement_account_refs \<Rightarrow> int \<Rightarrow> int \<Rightarrow> string \<Rightarrow> int" where
  "settlement_moves refs stake returned a =
    (if a = TrimSpace (sr_EscrowAccountID refs) then - stake else 0)
    + (if a = TrimSpace (sr_HouseClearingAccountID refs) then stake - returned else 0)
    + (if a = TrimSpace (sr_UserFundingAccountID refs) then returned else 0)"

lemma settle_win_Inr:
  assumes "settle_win w refs n d = Inr (ty, profit, returned, ps)"
    and "0 < cents (w_Stake w)" "1 \<le> sint d" "Money_Negate (w_Stake w) = Inr n"
  shows "cents profit = settle_profit w ResultWin (sint d)" "cents returned = settle_returned w ResultWin (sint d)"
    "moved ps = settlement_moves refs (cents (w_Stake w)) (cents returned)"
    "\<exists>qs. ps = \<lparr>p_AccountID = sr_EscrowAccountID refs, p_Amount = n\<rparr> # qs"
proof -
  obtain win lost where split: "deadHeatSplit (w_Stake w) d = (win, lost)" by fastforce
  note s = deadHeatSplit_cents [OF assms(2,3) split]
  note b = div_self_bounds [of "cents (w_Stake w)" "sint d"]
  obtain profit' where p: "(if m_Cents win = 0 then Inr \<lparr>m_Cents = 0, m_Currency = m_Currency (w_Stake w)\<rparr>
              else Odds_Profit (w_AcceptedOdds w) win) = Inr profit'"
      and add: "Money_Add win profit' = Inr returned" and eq: "profit' = profit"
    using assms(1) by (simp add: settle_win_def split Let_def result_simps)
  let ?h = "\<lparr>m_Cents = m_Cents lost - m_Cents profit, m_Currency = m_Currency (w_Stake w)\<rparr>"
  have ps: "ps = [\<lparr>p_AccountID = sr_EscrowAccountID refs, p_Amount = n\<rparr>]
      @ (if m_Cents ?h \<noteq> 0 then [\<lparr>p_AccountID = sr_HouseClearingAccountID refs, p_Amount = ?h\<rparr>] else [])
      @ (if m_Cents returned \<noteq> 0 then [\<lparr>p_AccountID = sr_UserFundingAccountID refs, p_Amount = returned\<rparr>] else [])"
    using assms(1) p add eq by (auto simp: settle_win_def split Let_def)
  have profit: "cents profit = settle_profit w ResultWin (sint d) \<and> 0 \<le> cents profit \<and> cents profit \<le> 92233720368547759"
  proof (cases "m_Cents win = 0")
    case True
    then have "cents (w_Stake w) div sint d = 0" using s(1) by simp
    moreover have "round_half_up 0 (odds_den (w_AcceptedOdds w)) = 0"
      by (simp add: round_half_up_def odds_den_def)
    ultimately show ?thesis using True p eq by (auto simp: settle_profit_def)
  next
    case False
    then have "Odds_Profit (w_AcceptedOdds w) win = Inr profit" using p eq by simp
    from Odds_Profit_InrD [OF this] s(1) show ?thesis by (simp add: settle_profit_def)
  qed
  then show "cents profit = settle_profit w ResultWin (sint d)" by simp
  have ret: "cents returned = cents (w_Stake w) div sint d + cents profit"
    using Money_Add_Inr [OF add] s(1) eq by simp
  with profit show "cents returned = settle_returned w ResultWin (sint d)" by (simp add: settle_returned_def)
  have house: "cents ?h = cents (w_Stake w) - cents returned"
    using profit ret s(2) b assms(2,3) sint64_le [of "m_Cents (w_Stake w)"] by (simp add: sint64_diff)
  then have zero: "m_Cents ?h = 0 \<longleftrightarrow> cents (w_Stake w) = cents returned"
    by (simp add: sint64_zero_iff [symmetric])
  have "moved ps a = settlement_moves refs (cents (w_Stake w)) (cents returned) a" for a
    using house zero Money_Negate_cents [OF assms(4)]
    by (auto simp: ps settlement_moves_def account_key_def sint64_zero_iff [symmetric])
  then show "moved ps = settlement_moves refs (cents (w_Stake w)) (cents returned)" by (rule ext)
  show "\<exists>qs. ps = \<lparr>p_AccountID = sr_EscrowAccountID refs, p_Amount = n\<rparr> # qs" by (simp add: ps)
qed

lemma settle_switch_Inr:
  assumes "settle_switch w result refs n d = Inr (ty, profit, returned, ps)"
    and "0 < cents (w_Stake w)" "sint d = effective_divisor result d0" "Money_Negate (w_Stake w) = Inr n"
  shows "cents profit = settle_profit w result (sint d)" "cents returned = settle_returned w result (sint d)"
    "moved ps = settlement_moves refs (cents (w_Stake w)) (cents returned)"
    "\<exists>qs. ps = \<lparr>p_AccountID = sr_EscrowAccountID refs, p_Amount = n\<rparr> # qs"
    "\<nexists>s. result = ResultOther s"
proof -
  have d: "1 \<le> sint d" using assms(3) effective_divisor_pos by simp
  have neg: "cents n = - cents (w_Stake w)" using Money_Negate_cents [OF assms(4)] by simp
  have "cents profit = settle_profit w result (sint d) \<and> cents returned = settle_returned w result (sint d)
      \<and> moved ps = settlement_moves refs (cents (w_Stake w)) (cents returned)
      \<and> (\<exists>qs. ps = \<lparr>p_AccountID = sr_EscrowAccountID refs, p_Amount = n\<rparr> # qs)"
  proof (cases result)
    case ResultWin
    with settle_win_Inr [OF _ assms(2) d assms(4)] assms(1) show ?thesis
      by (simp add: settle_switch_def Let_def)
  qed (use assms(1) neg in \<open>auto simp: settle_switch_def Let_def settle_profit_def settle_returned_def
        settlement_moves_def account_key_def intro!: ext\<close>)
  then show "cents profit = settle_profit w result (sint d)" "cents returned = settle_returned w result (sint d)"
    "moved ps = settlement_moves refs (cents (w_Stake w)) (cents returned)"
    "\<exists>qs. ps = \<lparr>p_AccountID = sr_EscrowAccountID refs, p_Amount = n\<rparr> # qs" by blast+
  show "\<nexists>s. result = ResultOther s" using assms(1) by (auto simp: settle_switch_def Let_def)
qed


section \<open>One wager\<close>

lemma case_prod_eq_Inr: "(case p of (a, b) \<Rightarrow> f a b) = Inr r \<longleftrightarrow> (\<exists>a b. p = (a, b) \<and> f a b = Inr r)"
  by (cases p) simp

text \<open>The settlement record, the wager and the event of a successful settlement.\<close>

definition settlement_of ::
  "wager \<Rightarrow> settlement_result \<Rightarrow> settlement_account_refs \<Rightarrow> go_int \<Rightarrow> go_int \<Rightarrow> wager_settlement \<Rightarrow> bool" where
  "settlement_of w result refs version d s \<longleftrightarrow>
     ws_WagerID s = w_ID w \<and> ws_Result s = result \<and> ws_Stake s = w_Stake w
     \<and> sint (ws_DeadHeatDivisor s) = effective_divisor result d
     \<and> cents (ws_Profit s) = settle_profit w result (effective_divisor result d)
     \<and> cents (ws_Returned s) = settle_returned w result (effective_divisor result d)
     \<and> t_IdempotencyKey (ws_Transaction s) = settlement_key (w_ID w) version
     \<and> Transaction_Validate (ws_Transaction s) = None
     \<and> moved (t_Postings (ws_Transaction s)) = settlement_moves refs (cents (w_Stake w)) (cents (ws_Returned s))
     \<and> moved (t_Postings (ws_Transaction s)) (TrimSpace (sr_EscrowAccountID refs)) = - cents (w_Stake w)"

lemma settleWager_Inr:
  assumes "settleWager w result refs msid sid version actor t eid d = Inr (s, w', e)"
    and "0 < cents (w_Stake w)"
  shows "w_State w = WagerAccepted'" "\<nexists>x. result = ResultOther x"
    "w' = w\<lparr>w_State := if result = ResultVoid then WagerVoided else WagerSettled'\<rparr>"
    "Envelope_Validate e = None" "settlement_of w result refs version d s"
proof -
  let ?d = "if result \<noteq> ResultWin then 1 else if sint d < 1 then 1 else d"
  have d: "sint ?d = effective_divisor result d" by (auto simp: effective_divisor_def)
  obtain n ty profit returned ps txn where
      can: "WagerState_CanTransitionTo (w_State w) (if result = ResultVoid then WagerVoided else WagerSettled')"
    and n: "Money_Negate (w_Stake w) = Inr n"
    and sw: "settle_switch w result refs n ?d = Inr (ty, profit, returned, ps)"
    and txn: "txn = \<lparr>t_Type = ty, t_Currency = m_Currency (w_Stake w),
             t_IdempotencyKey = settlement_key (w_ID w) version, t_Actor = actor,
             t_SourceType = ''market_settlement'', t_SourceID = msid,
             t_Reason = [], t_ReversalOf = [], t_Postings = ps\<rparr>"
    and valid: "Transaction_Validate txn = None"
    and s: "s = \<lparr>ws_ID = sid, ws_WagerID = w_ID w,
             ws_MarketSettlementID = msid, ws_Result = result, ws_Stake = w_Stake w,
             ws_Profit = profit, ws_Returned = returned, ws_DeadHeatDivisor = ?d,
             ws_Transaction = txn\<rparr>"
    and e: "Envelope_Validate e = None"
    and w': "w' = w\<lparr>w_State := if result = ResultVoid then WagerVoided else WagerSettled'\<rparr>"
  proof -
    from assms(1) show thesis
      unfolding settleWager_def Let_def result_simps case_prod_eq_Inr
      by (elim exE conjE, intro that) (auto dest: buildEnvelope_valid)
  qed
  note sw' = settle_switch_Inr [OF sw assms(2) d n]
  show "w_State w = WagerAccepted'" using can by (auto simp: CanTransitionTo_from split: if_splits)
  show "\<nexists>x. result = ResultOther x" by (rule sw'(5))
  show "w' = w\<lparr>w_State := if result = ResultVoid then WagerVoided else WagerSettled'\<rparr>" by (rule w')
  show "Envelope_Validate e = None" by (rule e)
  have "distinct (map account_key ps)"
    using Transaction_Validate_postings [OF valid] by (simp add: txn ValidatePostings_None)
  moreover obtain qs where ps: "ps = \<lparr>p_AccountID = sr_EscrowAccountID refs, p_Amount = n\<rparr> # qs"
    using sw'(4) by blast
  ultimately have "moved ps (TrimSpace (sr_EscrowAccountID refs)) = - cents (w_Stake w)"
    using moved_distinct [of ps "hd ps"] Money_Negate_cents [OF n] by (simp add: account_key_def)
  then show "settlement_of w result refs version d s"
    using sw' valid d by (simp add: settlement_of_def s txn)
qed

interpretation settlement: transaction_builder
  "\<lambda>(w, result, refs, msid, sid, version, actor, t, eid, d).
     map_sum id (\<lambda>(s, w', e). ws_Transaction s) (settleWager w result refs msid sid version actor t eid d)"
proof
  fix c :: "wager \<times> settlement_result \<times> settlement_account_refs \<times> ID \<times> ID \<times> go_int \<times> ID \<times> go_time \<times> ID \<times> go_int"
    and t
  assume "(case c of (w, result, refs, msid, sid, version, actor, t, eid, d) \<Rightarrow>
     map_sum id (\<lambda>(s, w', e). ws_Transaction s) (settleWager w result refs msid sid version actor t eid d)) = Inr t"
  then show "Transaction_Validate t = None"
    unfolding settleWager_def Let_def
    by (cases c) (auto simp: result_simps split: prod.splits)
qed

text \<open>A key names one settlement of one wager, and no other transaction of the wager.\<close>

lemma settlement_key_inj: "settlement_key i v = settlement_key j u \<longleftrightarrow> i = j \<and> v = u"
proof
  assume "settlement_key i v = settlement_key j u"
  then have "(i @ '':settlement:'') @ CHR ''v'' # decimal (sint v) = (j @ '':settlement:'') @ CHR ''v'' # decimal (sint u)"
    by (simp add: settlement_key_def)
  from append_decimal_inj [OF this] show "i = j \<and> v = u"
    by (simp add: decimal_chars_def word64_eq_iff)
qed simp

section \<open>When a settlement succeeds\<close>

lemma postings_balance:
  assumes "Currency_Validate c = None" "list_all (\<lambda>p. \<not> blank (p_AccountID p) \<and> m_Currency (p_Amount p) = c
      \<and> posted_cents p \<noteq> 0) ps"
    and "distinct (map account_key ps)" "posted_sum ps = 0" "2 \<le> length ps"
    and "\<forall>k \<le> length ps. in_int64 (posted_sum (take k ps))"
  shows "ValidatePostings c ps = None"
  using assms by (auto simp: ValidatePostings_None well_posted_def Money_Validate_def list_all_iff)

definition refs_ok :: "settlement_account_refs \<Rightarrow> bool" where
  "refs_ok r \<longleftrightarrow> \<not> blank (sr_UserFundingAccountID r) \<and> \<not> blank (sr_EscrowAccountID r)
     \<and> \<not> blank (sr_HouseClearingAccountID r)
     \<and> distinct (map TrimSpace [sr_UserFundingAccountID r, sr_EscrowAccountID r, sr_HouseClearingAccountID r])"

lemma settle_win_total:
  assumes "Odds_Profit (w_AcceptedOdds w) (w_Stake w) = Inr p" "1 \<le> sint d" "refs_ok refs"
    and "Money_Negate (w_Stake w) = Inr n"
  shows "\<exists>ty profit returned ps. settle_win w refs n d = Inr (ty, profit, returned, ps)
     \<and> ty = TransactionWagerWin \<and> ValidatePostings (m_Currency (w_Stake w)) ps = None"
proof -
  note D = Odds_Profit_InrD [OF assms(1)]
  obtain win lost where split: "deadHeatSplit (w_Stake w) d = (win, lost)" by fastforce
  note s = deadHeatSplit_cents [OF D(3) assms(2) split]
  note b = div_self_bounds [of "cents (w_Stake w)" "sint d"]
  note ob = odds_valid_bounds [OF D(1)]
  have cur: "Currency_Validate (m_Currency (w_Stake w)) = None" using D(2) by (simp add: Money_Validate_def)
  have "cents win * odds_num (w_AcceptedOdds w) \<le> cents (w_Stake w) * odds_num (w_AcceptedOdds w)"
    using s(1) b D(3) assms(2) ob by (intro mult_right_mono) simp_all
  then have small: "cents win * odds_num (w_AcceptedOdds w) \<le> 9223372036854775807" using D(4) by linarith
  obtain profit where p: "(if m_Cents win = 0 then Inr \<lparr>m_Cents = 0, m_Currency = m_Currency (w_Stake w)\<rparr>
              else Odds_Profit (w_AcceptedOdds w) win) = Inr profit"
      and pb: "0 \<le> cents profit" "cents profit \<le> 92233720368547759" "m_Currency profit = m_Currency (w_Stake w)"
  proof (cases "m_Cents win = 0")
    case True
    then show thesis using that by simp
  next
    case False
    then have "0 < cents win" using s(1) b D(3) assms(2) by (simp add: sint64_zero_iff [symmetric])
    then obtain q where q: "Odds_Profit (w_AcceptedOdds w) win = Inr q"
      using small D(1,2) s(3) by (simp add: Odds_Profit_eq Money_Validate_def)
    from Odds_Profit_InrD(6-8) [OF q] q False s(3) show thesis by (intro that [of q]) simp_all
  qed
  have wb: "0 \<le> cents win" "cents win \<le> cents (w_Stake w)" using s(1) b D(3) assms(2) by simp_all
  then have no: "\<not> add_overflows (m_Cents win) (m_Cents profit)"
    using pb D(9) by (simp add: add_overflows_iff)
  define returned where "returned = \<lparr>m_Cents = m_Cents win + m_Cents profit, m_Currency = m_Currency (w_Stake w)\<rparr>"
  have ret: "cents returned = cents win + cents profit" using no by (simp add: returned_def sint_add_not_overflows)
  have add: "Money_Add win profit = Inr returned"
    using no pb s(3) cur by (simp add: Money_Add_def Money_Validate_def returned_def)
  define h where "h = \<lparr>m_Cents = m_Cents lost - m_Cents profit, m_Currency = m_Currency (w_Stake w)\<rparr>"
  have house: "cents h = cents (w_Stake w) - cents returned"
    using pb ret s wb D(9) by (simp add: h_def sint64_diff)
  have nz: "m_Cents h = 0 \<longleftrightarrow> cents h = 0" "m_Cents returned = 0 \<longleftrightarrow> cents returned = 0" "m_Cents n \<noteq> 0"
    using D(3) Money_Negate_cents [OF assms(4)] by (auto simp: sint64_zero_iff [symmetric])
  define ps where "ps = [\<lparr>p_AccountID = sr_EscrowAccountID refs, p_Amount = n\<rparr>]
      @ (if m_Cents h \<noteq> 0 then [\<lparr>p_AccountID = sr_HouseClearingAccountID refs, p_Amount = h\<rparr>] else [])
      @ (if m_Cents returned \<noteq> 0 then [\<lparr>p_AccountID = sr_UserFundingAccountID refs, p_Amount = returned\<rparr>] else [])"
  have "settle_win w refs n d = Inr (TransactionWagerWin, profit, returned, ps)"
    using p add by (simp add: settle_win_def split Let_def ps_def h_def)
  moreover have "ValidatePostings (m_Currency (w_Stake w)) ps = None"
  proof (rule postings_balance [OF cur])
    have "m_Currency n = m_Currency (w_Stake w)" "m_Currency h = m_Currency (w_Stake w)"
      "m_Currency returned = m_Currency (w_Stake w)"
      using Money_Negate_cents [OF assms(4)] by (simp_all add: h_def returned_def)
    then show "list_all (\<lambda>p. \<not> blank (p_AccountID p) \<and> m_Currency (p_Amount p) = m_Currency (w_Stake w)
      \<and> posted_cents p \<noteq> 0) ps"
      using nz D(3) Money_Negate_cents [OF assms(4)] assms(3) by (simp add: ps_def refs_ok_def)
    show "distinct (map account_key ps)" using assms(3) by (auto simp: ps_def refs_ok_def account_key_def)
    show "posted_sum ps = 0" "2 \<le> length ps" "\<forall>k \<le> length ps. in_int64 (posted_sum (take k ps))"
      using nz house Money_Negate_cents [OF assms(4)] D(3,9) pb ret wb
      by (auto simp: ps_def in_int64_def take_Cons' split: if_splits)
  qed
  ultimately show ?thesis by blast
qed

end
