(* ===== verification/Betting_Adjust.thy ===== *)
theory Betting_Adjust
  imports Settlement
begin

text \<open>
  \<open>internal/betting/adjust.go\<close>, \<open>voidwager.go\<close> and \<open>reducewager.go\<close>: money that changed hands
  outside the app and its reversal, the void of a single wager, and the reduction of a stake at
  unchanged odds. Every one of them returns a ledger transaction; the idempotency keys that keep a
  repeated submission from posting twice are at the end.
\<close>

section \<open>Settling up\<close>

datatype adjustment_direction =
  AdjustmentPaymentReceived | AdjustmentPayoutSent | AdjustmentDirectionOther string

fun AdjustmentDirection_Validate :: "adjustment_direction \<Rightarrow> betting_error option" where
  "AdjustmentDirection_Validate (AdjustmentDirectionOther s) = Some ErrInvalid"
| "AdjustmentDirection_Validate _ = None"

record adjustment_account_refs =
  adr_UserFundingAccountID :: string
  adr_HouseClearingAccountID :: string

definition AdjustmentAccountRefs_validate :: "adjustment_account_refs \<Rightarrow> betting_error option" where
  "AdjustmentAccountRefs_validate r =
    (if TrimSpace (adr_UserFundingAccountID r) = [] \<or> TrimSpace (adr_HouseClearingAccountID r) = [] then Some ErrInvalid
     else if adr_UserFundingAccountID r = adr_HouseClearingAccountID r then Some ErrInvalid
     else None)"

record adjustment_command =
  ad_AdjustmentID :: string
  ad_UserID :: ID
  ad_Direction :: adjustment_direction
  ad_Amount :: money
  ad_Reason :: string
  ad_Actor :: ID
  ad_Refs :: adjustment_account_refs
  ad_OccurredAt :: go_time

definition AdjustmentSourceType :: string where
  "AdjustmentSourceType = ''settlement''"

definition AdjustmentIdempotencyKey :: "string \<Rightarrow> string" where
  "AdjustmentIdempotencyKey i = ''settlement:'' @ i"

definition ReversalIdempotencyKey :: "string \<Rightarrow> string" where
  "ReversalIdempotencyKey i = ''settlement:'' @ i @ '':reversal''"

definition RecordAdjustment :: "adjustment_command \<Rightarrow> betting_error + transaction" where
  "RecordAdjustment c =
    (if \<not> validID (ad_AdjustmentID c) then Inl ErrInvalid
     else if \<not> validID (ad_UserID c) then Inl ErrInvalid
     else if \<not> validID (ad_Actor c) then Inl ErrUnauthorized
     else case AdjustmentDirection_Validate (ad_Direction c) of Some e \<Rightarrow> Inl e
     | None \<Rightarrow> case Money_Validate (ad_Amount c) of Some e \<Rightarrow> Inl (BettingLedger e)
     | None \<Rightarrow> if sint (m_Cents (ad_Amount c)) \<le> 0 then Inl ErrInvalid
     else let reason = TrimSpace (ad_Reason c)
       in if reason = [] then Inl ErrReasonRequired
     else case AdjustmentAccountRefs_validate (ad_Refs c) of Some e \<Rightarrow> Inl e
     | None \<Rightarrow> if IsZero (ad_OccurredAt c) then Inl ErrInvalid
     else case (if ad_Direction c = AdjustmentPayoutSent then Money_Negate (ad_Amount c) else Inr (ad_Amount c)) of
       Inl e \<Rightarrow> Inl (BettingLedger e)
     | Inr memberAmount \<Rightarrow> case Money_Negate memberAmount of Inl e \<Rightarrow> Inl (BettingLedger e)
     | Inr houseAmount \<Rightarrow>
       let txn = \<lparr>t_Type = TransactionAdminAdjustment, t_Currency = m_Currency (ad_Amount c),
             t_IdempotencyKey = AdjustmentIdempotencyKey (ad_AdjustmentID c), t_Actor = ad_Actor c,
             t_SourceType = AdjustmentSourceType, t_SourceID = ad_AdjustmentID c, t_Reason = reason,
             t_ReversalOf = [],
             t_Postings = [\<lparr>p_AccountID = adr_UserFundingAccountID (ad_Refs c), p_Amount = memberAmount\<rparr>,
                           \<lparr>p_AccountID = adr_HouseClearingAccountID (ad_Refs c), p_Amount = houseAmount\<rparr>]\<rparr>
       in case Transaction_Validate txn of Some e \<Rightarrow> Inl (BettingLedger e) | None \<Rightarrow> Inr txn)"

fun negate_postings :: "posting list \<Rightarrow> ledger_error + posting list" where
  \<comment> \<open>the loop of \<open>ReverseAdjustment\<close>\<close>
  "negate_postings [] = Inr []"
| "negate_postings (p # ps) =
    (case Money_Negate (p_Amount p) of Inl e \<Rightarrow> Inl e
     | Inr negated \<Rightarrow> case negate_postings ps of Inl e \<Rightarrow> Inl e
     | Inr qs \<Rightarrow> Inr (\<lparr>p_AccountID = p_AccountID p, p_Amount = negated\<rparr> # qs))"

definition ReverseAdjustment :: "transaction \<Rightarrow> string \<Rightarrow> ID \<Rightarrow> string \<Rightarrow> betting_error + transaction" where
  "ReverseAdjustment original originalTransactionID actor reason0 =
    (if t_Type original \<noteq> TransactionAdminAdjustment then Inl ErrInvalid
     else if \<not> validID originalTransactionID then Inl ErrInvalid
     else if \<not> validID actor then Inl ErrUnauthorized
     else let reason = TrimSpace reason0
       in if reason = [] then Inl ErrReasonRequired
     else case negate_postings (t_Postings original) of Inl e \<Rightarrow> Inl (BettingLedger e)
     | Inr postings \<Rightarrow>
       let reversal = \<lparr>t_Type = TransactionReversal, t_Currency = t_Currency original,
             t_IdempotencyKey = ReversalIdempotencyKey (t_SourceID original), t_Actor = actor,
             t_SourceType = AdjustmentSourceType, t_SourceID = t_SourceID original, t_Reason = reason,
             t_ReversalOf = originalTransactionID, t_Postings = postings\<rparr>
       in case Transaction_Validate reversal of Some e \<Rightarrow> Inl (BettingLedger e) | None \<Rightarrow> Inr reversal)"

section \<open>Voiding one wager\<close>

record void_wager_account_refs =
  vr_UserFundingAccountID :: string
  vr_EscrowAccountID :: string

definition VoidWagerAccountRefs_validate :: "void_wager_account_refs \<Rightarrow> betting_error option" where
  "VoidWagerAccountRefs_validate r =
    (if TrimSpace (vr_UserFundingAccountID r) = [] \<or> TrimSpace (vr_EscrowAccountID r) = [] then Some ErrInvalid
     else if vr_UserFundingAccountID r = vr_EscrowAccountID r then Some ErrInvalid
     else None)"

definition VoidIdempotencyKey :: "ID \<Rightarrow> string" where
  "VoidIdempotencyKey i = ''wager:'' @ i @ '':void''"

definition VoidWager ::
  "wager \<Rightarrow> ID \<Rightarrow> string \<Rightarrow> void_wager_account_refs \<Rightarrow> go_time \<Rightarrow> betting_error + (wager \<times> transaction)" where
  "VoidWager w actor reason0 refs occurredAt =
    (case Wager_Validate w of Some e \<Rightarrow> Inl e
     | None \<Rightarrow> if \<not> WagerState_CanTransitionTo (w_State w) WagerVoided
       then Inl (TransitionError ''void wager'' (wager_state_string (w_State w)))
     else if \<not> validID actor then Inl ErrUnauthorized
     else let reason = TrimSpace reason0
       in if reason = [] then Inl ErrReasonRequired
     else case VoidWagerAccountRefs_validate refs of Some e \<Rightarrow> Inl e
     | None \<Rightarrow> if IsZero occurredAt then Inl ErrInvalid
     else case Money_Negate (w_Stake w) of Inl e \<Rightarrow> Inl (BettingLedger e)
     | Inr negatedStake \<Rightarrow>
       let txn = \<lparr>t_Type = TransactionWagerRefund, t_Currency = m_Currency (w_Stake w),
             t_IdempotencyKey = VoidIdempotencyKey (w_ID w), t_Actor = actor,
             t_SourceType = ''wager'', t_SourceID = w_ID w, t_Reason = reason, t_ReversalOf = [],
             t_Postings = [\<lparr>p_AccountID = vr_EscrowAccountID refs, p_Amount = negatedStake\<rparr>,
                           \<lparr>p_AccountID = vr_UserFundingAccountID refs, p_Amount = w_Stake w\<rparr>]\<rparr>
       in case Transaction_Validate txn of Some e \<Rightarrow> Inl (BettingLedger e)
     | None \<Rightarrow> Inr (w\<lparr>w_State := WagerVoided\<rparr>, txn))"

section \<open>Reducing a stake\<close>

definition ReduceIdempotencyKey :: "ID \<Rightarrow> int64 \<Rightarrow> string" where
  "ReduceIdempotencyKey i newStakeCents = ''wager:'' @ i @ '':reduce:'' @ decimal (sint newStakeCents)"

definition decimal2 :: "int \<Rightarrow> string" where
  \<comment> \<open>the verb \<open>%02d\<close> on a two-digit argument\<close>
  "decimal2 k = (let s = decimal k in if length s < 2 then CHR ''0'' # s else s)"

definition stakeText :: "money \<Rightarrow> string" where
  "stakeText amount =
    (let symbol = (if m_Currency amount = CAD then ''CA$'' else m_Currency amount @ '' '')
     in symbol @ decimal (sint (quo64 (m_Cents amount) 100)) @ ''.'' @ decimal2 (sint (rem64 (m_Cents amount) 100)))"

definition reduce_reason :: "money \<Rightarrow> money \<Rightarrow> string \<Rightarrow> string" where
  \<comment> \<open>\<open>"Stake reduced from %s to %s \<dots> %s"\<close>, an em dash in UTF-8 before the admin's note\<close>
  "reduce_reason old new' reason = ''Stake reduced from '' @ stakeText old @ '' to '' @ stakeText new'
     @ [CHR 0x20, CHR 0xE2, CHR 0x80, CHR 0x94, CHR 0x20] @ reason"

definition ReduceWager ::
  "wager \<Rightarrow> money \<Rightarrow> ID \<Rightarrow> string \<Rightarrow> void_wager_account_refs \<Rightarrow> go_time \<Rightarrow> betting_error + (wager \<times> money \<times> transaction)" where
  "ReduceWager w newStake actor reason0 refs occurredAt =
    (case Wager_Validate w of Some e \<Rightarrow> Inl e
     | None \<Rightarrow> if w_State w \<noteq> WagerAccepted'
       then Inl (TransitionError ''reduce wager'' (wager_state_string (w_State w)))
     else if \<not> validID actor then Inl ErrUnauthorized
     else let reason = TrimSpace reason0
       in if reason = [] then Inl ErrReasonRequired
     else case VoidWagerAccountRefs_validate refs of Some e \<Rightarrow> Inl e
     | None \<Rightarrow> if IsZero occurredAt then Inl ErrInvalid
     else case Money_Validate newStake of Some e \<Rightarrow> Inl (BettingLedger e)
     | None \<Rightarrow> if m_Currency newStake \<noteq> m_Currency (w_Stake w) then Inl ErrInvalid
     else if sint (m_Cents newStake) \<le> 0 then Inl ErrInvalid
     else if sint (m_Cents newStake) \<ge> sint (m_Cents (w_Stake w)) then Inl ErrInvalid
     else case NewMoney (m_Cents (w_Stake w) - m_Cents newStake) (m_Currency (w_Stake w)) of Inl e \<Rightarrow> Inl (BettingLedger e)
     | Inr refund \<Rightarrow> case Money_Negate refund of Inl e \<Rightarrow> Inl (BettingLedger e)
     | Inr negatedRefund \<Rightarrow> case Odds_Profit (w_AcceptedOdds w) newStake of Inl e \<Rightarrow> Inl (BettingLedger e)
     | Inr profit \<Rightarrow>
       let txn = \<lparr>t_Type = TransactionWagerRefund, t_Currency = m_Currency (w_Stake w),
             t_IdempotencyKey = ReduceIdempotencyKey (w_ID w) (m_Cents newStake), t_Actor = actor,
             t_SourceType = ''wager'', t_SourceID = w_ID w,
             t_Reason = reduce_reason (w_Stake w) newStake reason, t_ReversalOf = [],
             t_Postings = [\<lparr>p_AccountID = vr_EscrowAccountID refs, p_Amount = negatedRefund\<rparr>,
                           \<lparr>p_AccountID = vr_UserFundingAccountID refs, p_Amount = refund\<rparr>]\<rparr>
       in case Transaction_Validate txn of Some e \<Rightarrow> Inl (BettingLedger e)
     | None \<Rightarrow> Inr (w\<lparr>w_Stake := newStake, w_PotentialProfit := profit\<rparr>, refund, txn))"

section \<open>What the transactions move\<close>

interpretation adjustment: transaction_builder RecordAdjustment
proof
  show "Transaction_Validate t = None" if "RecordAdjustment c = Inr t" for c t
    using that by (simp add: RecordAdjustment_def Let_def result_simps) blast
qed

interpretation reversal: transaction_builder "\<lambda>(original, oid, actor, reason). ReverseAdjustment original oid actor reason"
proof
  show "Transaction_Validate t = None"
    if "(case c of (original, oid, actor, reason) \<Rightarrow> ReverseAdjustment original oid actor reason) = Inr t"
    for c :: "transaction \<times> string \<times> ID \<times> string" and t
    using that by (cases c) (auto simp: ReverseAdjustment_def Let_def result_simps)
qed

interpretation voiding: transaction_builder
  "\<lambda>(w, actor, reason, refs, t). map_sum id snd (VoidWager w actor reason refs t)"
proof
  show "Transaction_Validate t = None"
    if "(case c of (w, actor, reason, refs, t) \<Rightarrow> map_sum id snd (VoidWager w actor reason refs t)) = Inr t"
    for c :: "wager \<times> ID \<times> string \<times> void_wager_account_refs \<times> go_time" and t
    using that by (cases c) (auto simp: VoidWager_def Let_def result_simps)
qed

interpretation reduction: transaction_builder
  "\<lambda>(w, new, actor, reason, refs, t). map_sum id (snd \<circ> snd) (ReduceWager w new actor reason refs t)"
proof
  show "Transaction_Validate t = None"
    if "(case c of (w, new, actor, reason, refs, t) \<Rightarrow> map_sum id (snd \<circ> snd) (ReduceWager w new actor reason refs t)) = Inr t"
    for c :: "wager \<times> money \<times> ID \<times> string \<times> void_wager_account_refs \<times> go_time" and t
    using that by (cases c) (auto simp: ReduceWager_def Let_def result_simps)
qed

lemma negate_postings_Inr:
  "negate_postings ps = Inr qs \<Longrightarrow> length qs = length ps \<and> map account_key qs = map account_key ps
     \<and> (\<forall>a. moved qs a = - moved ps a)"
  by (induction ps arbitrary: qs)
    (auto simp: result_simps account_key_def Money_Negate_cents)

lemma negate_postings_total:
  "list_all (\<lambda>p. Money_Validate (p_Amount p) = None \<and> m_Cents (p_Amount p) \<noteq> MinInt64) ps \<Longrightarrow>
     \<exists>qs. negate_postings ps = Inr qs"
  by (induction ps) (auto simp: Money_Negate_def)

end
