(* ===== verification/Market_Settlement.thy ===== *)
theory Market_Settlement
  imports Settlement
begin

text \<open>
  Settlements at the level of a market: when the settlement of one wager succeeds, that grading
  covers every accepted wager once and leaves none to grade again, that it does not depend on the
  order the wagers were loaded in, and what it does to the book.
\<close>

section \<open>A settlement of one wager succeeds\<close>

lemma settlement_key_not_blank: "\<not> blank (settlement_key i v)"
  by (rule not_blank_start) (simp_all add: settlement_key_def space_runes_def)

lemma settle_switch_total:
  assumes "Wager_Validate w = None" "refs_ok refs" "Money_Negate (w_Stake w) = Inr n" "1 \<le> sint d"
    and "\<exists>p. Odds_Profit (w_AcceptedOdds w) (w_Stake w) = Inr p" "\<nexists>x. result = ResultOther x"
  shows "\<exists>ty profit returned ps. settle_switch w result refs n d = Inr (ty, profit, returned, ps)
     \<and> TransactionType_Validate ty = None \<and> ty \<notin> {TransactionReversal, TransactionAdminAdjustment, TransactionMigrationAdjust}
     \<and> ValidatePostings (m_Currency (w_Stake w)) ps = None"
proof -
  have w: "Money_Validate (w_Stake w) = None" "m_Cents (w_Stake w) \<noteq> 0"
    using assms(1) by (auto simp: Wager_Validate_None)
  note pair = ValidatePostings_pair(1) [OF _ _ _ w(1,2) assms(3)]
  show ?thesis
  proof (cases result)
    case ResultWin
    with settle_win_total assms(2-5) show ?thesis by (fastforce simp: settle_switch_def Let_def)
  qed (use assms(2,6) pair in \<open>auto simp: settle_switch_def Let_def refs_ok_def\<close>)
qed

lemma settleWager_total:
  assumes "Wager_Validate w = None" "w_State w = WagerAccepted'" "refs_ok refs"
    and "\<exists>p. Odds_Profit (w_AcceptedOdds w) (w_Stake w) = Inr p" "\<nexists>x. result = ResultOther x"
    and "\<not> blank msid" "\<not> blank actor" "0 < sint version" "validUUID (w_ID w)" "validUUID eid" "\<not> IsZero t"
  shows "\<exists>r. settleWager w result refs msid sid version actor t eid d = Inr r"
proof -
  let ?d = "if result \<noteq> ResultWin then 1 else if sint d < 1 then 1 else d"
  have w: "Money_Validate (w_Stake w) = None" "0 < cents (w_Stake w)"
    using assms(1) by (simp_all add: Wager_Validate_None)
  then obtain n where n: "Money_Negate (w_Stake w) = Inr n" using Money_Negate_total by fastforce
  have "1 \<le> sint ?d" by auto
  from settle_switch_total [OF assms(1,3) n this assms(4,5)]
  obtain ty profit returned ps where sw: "settle_switch w result refs n ?d = Inr (ty, profit, returned, ps)"
      "TransactionType_Validate ty = None" "ty \<notin> {TransactionReversal, TransactionAdminAdjustment, TransactionMigrationAdjust}"
      "ValidatePostings (m_Currency (w_Stake w)) ps = None"
    by blast
  have can: "WagerState_CanTransitionTo (w_State w) (if result = ResultVoid then WagerVoided else WagerSettled')"
    using assms(2) by (auto simp: CanTransitionTo_from)
  have refs: "SettlementAccountRefs_validate refs result = None"
    using assms(3) by (simp add: SettlementAccountRefs_validate_def refs_ok_def blank_def)
  have txn: "Transaction_Validate \<lparr>t_Type = ty, t_Currency = m_Currency (w_Stake w),
             t_IdempotencyKey = settlement_key (w_ID w) version, t_Actor = actor,
             t_SourceType = ''market_settlement'', t_SourceID = msid,
             t_Reason = [], t_ReversalOf = [], t_Postings = ps\<rparr> = None"
    using sw(2-4) assms(6,7) settlement_key_not_blank not_blank_start [of "''market_settlement''"] w(1)
    by (simp add: Transaction_Validate_def Money_Validate_def space_runes_def)
  have "\<exists>e. buildEnvelope eid (w_ID w) ''wager'' version WagerSettled t (wagerSettledPayload w result profit returned) = Inr e"
    using assms(8-11) not_blank_start [of "''wager''"]
    by (simp add: buildEnvelope_Inr wagerSettledPayload_def plain_key_def between_def byte_def
        event_types_def space_runes_def)
  then obtain e where "buildEnvelope eid (w_ID w) ''wager'' version WagerSettled t (wagerSettledPayload w result profit returned) = Inr e"
    by blast
  then show ?thesis
    using refs can n sw(1) txn by (simp add: settleWager_def Let_def)
qed

text \<open>A wager that pays out exactly what its owner was shown when placing it.\<close>

lemma settleWager_win_profit:
  assumes "settleWager w ResultWin refs msid sid version actor t eid 1 = Inr (s, w', e)"
    and "Odds_Profit (w_AcceptedOdds w) (w_Stake w) = Inr p"
  shows "cents (ws_Profit s) = cents p" "cents (ws_Returned s) = cents (w_Stake w) + cents p"
proof -
  note D = Odds_Profit_InrD [OF assms(2)]
  from settleWager_Inr(5) [OF assms(1) D(3)] D(5)
  show "cents (ws_Profit s) = cents p" "cents (ws_Returned s) = cents (w_Stake w) + cents p"
    by (simp_all add: settlement_of_def effective_divisor_def settle_profit_def settle_returned_def)
qed

section \<open>Bounds\<close>

lemma round_half_up_mono: "0 < d \<Longrightarrow> p \<le> q \<Longrightarrow> round_half_up p d \<le> round_half_up q d"
  unfolding round_half_up_def by (intro zdiv_mono1) simp_all

text \<open>Tying never pays more than winning outright, and nobody gets back less than nothing.\<close>

lemma settle_returned_bounds:
  assumes "0 < cents (w_Stake w)" "Odds_Validate (w_AcceptedOdds w) = None" "1 \<le> d"
  shows "0 \<le> settle_returned w result d" "settle_returned w result d \<le> settle_returned w ResultWin 1"
    "settle_profit w result d \<le> settle_profit w ResultWin 1" "0 \<le> settle_profit w result d"
proof -
  note ob = odds_valid_bounds [OF assms(2)]
  note db = div_self_bounds [of "cents (w_Stake w)" d]
  have mono: "round_half_up (k * odds_num (w_AcceptedOdds w)) (odds_den (w_AcceptedOdds w))
      \<le> round_half_up (cents (w_Stake w) * odds_num (w_AcceptedOdds w)) (odds_den (w_AcceptedOdds w))"
    if "k \<le> cents (w_Stake w)" for k
    using that ob by (intro round_half_up_mono mult_right_mono) simp_all
  have pos: "0 \<le> round_half_up (k * odds_num (w_AcceptedOdds w)) (odds_den (w_AcceptedOdds w))" if "0 \<le> k" for k
    using that ob by (simp add: round_half_up_def pos_imp_zdiv_nonneg_iff)
  show profit: "0 \<le> settle_profit w result d" "settle_profit w result d \<le> settle_profit w ResultWin 1"
    using mono [of "cents (w_Stake w) div d"] pos [of "cents (w_Stake w) div d"] pos [of "cents (w_Stake w)"] db assms
    by (simp_all add: settle_profit_def)
  show "0 \<le> settle_returned w result d"
    using profit db assms by (auto simp: settle_returned_def settle_profit_def split: settlement_result.split)
  have "0 \<le> settle_profit w ResultWin 1" using pos [of "cents (w_Stake w)"] assms(1) by (simp add: settle_profit_def)
  then show "settle_returned w result d \<le> settle_returned w ResultWin 1"
    using profit db assms
    by (auto simp: settle_returned_def split: settlement_result.split)
qed


section \<open>The loop over the accepted wagers\<close>

text \<open>What the loop does for one wager, and the vector of its results.\<close>

definition graded ::
  "settle_market_command \<Rightarrow> go_int \<Rightarrow> wager \<Rightarrow> wager_settlement \<times> wager \<times> envelope \<Rightarrow> bool" where
  "graded c divisor w r \<longleftrightarrow> (\<exists>outcome refs sid eid.
     DAList.lookup (sm_Outcome c) (w_SelectionID w) = Some outcome \<and> DAList.lookup (sm_Refs c) (w_ID w) = Some refs
     \<and> settleWager w outcome refs (sm_SettlementID c) sid (sm_Version c) (sm_Actor c) (UTC (sm_OccurredAt c)) eid divisor
         = Inr r)"

lemma settle_loop_Inr:
  "settle_loop c divisor ws acc = Inr acc' \<Longrightarrow> length (a_counts acc) = 4 \<Longrightarrow>
    \<exists>rs. list_all2 (graded c divisor) ws rs
     \<and> a_Settlements acc' = a_Settlements acc @ map fst rs
     \<and> a_Wagers acc' = a_Wagers acc @ map (fst \<circ> snd) rs
     \<and> a_WagerEvents acc' = a_WagerEvents acc @ map (snd \<circ> snd) rs
     \<and> a_totalStake acc' = a_totalStake acc + (\<Sum>r\<leftarrow>rs. m_Cents (ws_Stake (fst r)))
     \<and> a_totalProfit acc' = a_totalProfit acc + (\<Sum>r\<leftarrow>rs. m_Cents (ws_Profit (fst r)))
     \<and> a_totalReturned acc' = a_totalReturned acc + (\<Sum>r\<leftarrow>rs. m_Cents (ws_Returned (fst r)))"
proof (induction ws arbitrary: acc)
  case (Cons w ws)
  from Cons.prems(1) obtain outcome refs s w' e where
      lookups: "DAList.lookup (sm_Outcome c) (w_SelectionID w) = Some outcome"
        "DAList.lookup (sm_Refs c) (w_ID w) = Some refs"
    and sw: "settleWager w outcome refs (sm_SettlementID c) (get_or [] (sm_WagerSettlementIDs c) (w_ID w)) (sm_Version c)
        (sm_Actor c) (UTC (sm_OccurredAt c)) (get_or [] (sm_WagerEventIDs c) (w_ID w)) divisor = Inr (s, w', e)"
    and rest: "settle_loop c divisor ws
            \<lparr>a_Settlements = a_Settlements acc @ [s], a_Wagers = a_Wagers acc @ [w'],
             a_WagerEvents = a_WagerEvents acc @ [e],
             a_counts = (a_counts acc)[resultIndex outcome := a_counts acc ! resultIndex outcome + 1],
             a_totalStake = a_totalStake acc + m_Cents (ws_Stake s),
             a_totalProfit = a_totalProfit acc + m_Cents (ws_Profit s),
             a_totalReturned = a_totalReturned acc + m_Cents (ws_Returned s)\<rparr> = Inr acc'"
    by (auto simp: Let_def result_simps split: option.splits)
  have "graded c divisor w (s, w', e)" using lookups sw unfolding graded_def by blast
  moreover obtain rs where "list_all2 (graded c divisor) ws rs"
     "a_Settlements acc' = (a_Settlements acc @ [s]) @ map fst rs"
     "a_Wagers acc' = (a_Wagers acc @ [w']) @ map (fst \<circ> snd) rs"
     "a_WagerEvents acc' = (a_WagerEvents acc @ [e]) @ map (snd \<circ> snd) rs"
     "a_totalStake acc' = a_totalStake acc + m_Cents (ws_Stake s) + (\<Sum>r\<leftarrow>rs. m_Cents (ws_Stake (fst r)))"
     "a_totalProfit acc' = a_totalProfit acc + m_Cents (ws_Profit s) + (\<Sum>r\<leftarrow>rs. m_Cents (ws_Profit (fst r)))"
     "a_totalReturned acc' = a_totalReturned acc + m_Cents (ws_Returned s) + (\<Sum>r\<leftarrow>rs. m_Cents (ws_Returned (fst r)))"
    using Cons.IH [OF rest] Cons.prems(2) by auto
  ultimately show ?case by (intro exI [of _ "(s, w', e) # rs"]) (simp add: add.assoc)
qed simp

text \<open>The loop looks at the command and at the wagers; the list collected so far plays no role.\<close>

definition erase_wagers :: "settle_acc \<Rightarrow> settle_acc" where
  "erase_wagers acc = acc\<lparr>a_Wagers := []\<rparr>"

lemma erase_wagers_eq:
  "erase_wagers a = erase_wagers b \<longleftrightarrow> a_Settlements a = a_Settlements b \<and> a_WagerEvents a = a_WagerEvents b
     \<and> a_counts a = a_counts b \<and> a_totalStake a = a_totalStake b \<and> a_totalProfit a = a_totalProfit b
     \<and> a_totalReturned a = a_totalReturned b"
  by (cases a; cases b) (auto simp: erase_wagers_def)

lemma settle_loop_erase:
  "erase_wagers acc = erase_wagers acc2 \<Longrightarrow>
    map_sum id erase_wagers (settle_loop c divisor ws acc)
      = map_sum id erase_wagers (settle_loop (c\<lparr>sm_Wagers := us\<rparr>) divisor ws acc2)"
proof (induction ws arbitrary: acc acc2)
  case (Cons w ws)
  show ?case
    using Cons.prems
    by (cases acc; cases acc2)
      (auto simp: Let_def erase_wagers_def id_def intro!: Cons.IH [unfolded erase_wagers_def id_def]
        split: option.splits sum.splits)
qed simp


section \<open>A market\<close>

lemma splitAcceptedWagers_Inr:
  "splitAcceptedWagers m ws = Inr (unchanged, accepted) \<longleftrightarrow>
     (\<forall>w \<in> set ws. w_MarketID w = m) \<and> unchanged = filter (\<lambda>w. w_State w \<noteq> WagerAccepted') ws
     \<and> accepted = sort_key w_ID (filter (\<lambda>w. w_State w = WagerAccepted') ws)"
  by (auto simp: splitAcceptedWagers_def result_simps list_ex_iff)

lemma SettleMarket_Inr:
  assumes "SettleMarket c = Inr r"
  obtains divisor rs where
    "deadHeatDivisor c = Inr divisor" "sx_DeadHeatDivisor r = divisor"
    "settle_source_error (mk_State (sm_Market c)) (sm_Regrade c) = None"
    "\<forall>w \<in> set (sm_Wagers c). w_MarketID w = mk_ID (sm_Market c)"
    "list_all2 (graded c divisor) (sort_key w_ID (filter (\<lambda>w. w_State w = WagerAccepted') (sm_Wagers c))) rs"
    "sx_Settlements r = map fst rs"
    "sx_Wagers r = filter (\<lambda>w. w_State w \<noteq> WagerAccepted') (sm_Wagers c) @ map (fst \<circ> snd) rs"
    "sx_WagerEvents r = map (snd \<circ> snd) rs"
    "sx_Market r = (sm_Market c)\<lparr>mk_State := MarketSettled'\<rparr>"
    "Envelope_Validate (sx_MarketEvent r) = None"
    "\<exists>counts. e_Payload (sx_MarketEvent r) = json_Marshal (marketSettledPayload (mk_ID (sm_Market c)) (sm_Version c) counts
       (\<Sum>s\<leftarrow>sx_Settlements r. m_Cents (ws_Stake s)) (\<Sum>s\<leftarrow>sx_Settlements r. m_Cents (ws_Profit s))
       (\<Sum>s\<leftarrow>sx_Settlements r. m_Cents (ws_Returned s)) (mk_Currency (sm_Market c)))"
proof -
  let ?acc = "\<lparr>a_Settlements = [], a_Wagers = filter (\<lambda>w. w_State w \<noteq> WagerAccepted') (sm_Wagers c),
      a_WagerEvents = [], a_counts = [0, 0, 0, 0], a_totalStake = 0, a_totalProfit = 0, a_totalReturned = 0\<rparr>"
  let ?payload = "\<lambda>acc. marketSettledPayload (mk_ID (sm_Market c)) (sm_Version c) (map sint (a_counts acc))
                (a_totalStake acc) (a_totalProfit acc) (a_totalReturned acc) (mk_Currency (sm_Market c))"
  from assms obtain divisor acc e where d: "deadHeatDivisor c = Inr divisor"
    and src: "settle_source_error (mk_State (sm_Market c)) (sm_Regrade c) = None"
    and same: "\<forall>w \<in> set (sm_Wagers c). w_MarketID w = mk_ID (sm_Market c)"
    and loop: "settle_loop c divisor (sort_key w_ID (filter (\<lambda>w. w_State w = WagerAccepted') (sm_Wagers c))) ?acc = Inr acc"
    and e: "buildEnvelope (sm_MarketEventID c) (mk_ID (sm_Market c)) ''market'' (sm_Version c) MarketSettled
              (UTC (sm_OccurredAt c)) (?payload acc) = Inr e"
    and r: "r = \<lparr>sx_Market = (sm_Market c)\<lparr>mk_State := MarketSettled'\<rparr>, sx_Wagers = a_Wagers acc,
                sx_Settlements = a_Settlements acc, sx_MarketEvent = e,
                sx_WagerEvents = a_WagerEvents acc, sx_DeadHeatDivisor = divisor\<rparr>"
    by (auto simp: SettleMarket_def result_simps splitAcceptedWagers_Inr case_prod_eq_Inr)
  from settle_loop_Inr [OF loop] obtain rs where
      rs: "list_all2 (graded c divisor) (sort_key w_ID (filter (\<lambda>w. w_State w = WagerAccepted') (sm_Wagers c))) rs"
       "a_Settlements acc = map fst rs" "a_Wagers acc = a_Wagers ?acc @ map (fst \<circ> snd) rs"
       "a_WagerEvents acc = map (snd \<circ> snd) rs"
       "a_totalStake acc = (\<Sum>r\<leftarrow>rs. m_Cents (ws_Stake (fst r)))"
       "a_totalProfit acc = (\<Sum>r\<leftarrow>rs. m_Cents (ws_Profit (fst r)))"
       "a_totalReturned acc = (\<Sum>r\<leftarrow>rs. m_Cents (ws_Returned (fst r)))"
    by auto
  have p: "e_Payload e = json_Marshal (?payload acc)"
    using e by (simp add: buildEnvelope_def Let_def result_simps) auto
  show thesis
    by (rule that [OF d _ src same rs(1)])
      (use rs p buildEnvelope_valid [OF e] in \<open>auto simp: r comp_def\<close>)
qed


abbreviation stakes_positive :: "wager list \<Rightarrow> bool" where
  "stakes_positive ws \<equiv> \<forall>w \<in> set ws. 0 < cents (w_Stake w)"

lemma graded_settlement:
  assumes "graded c divisor w (s, w', e)" "0 < cents (w_Stake w)"
  shows "\<exists>outcome refs. DAList.lookup (sm_Outcome c) (w_SelectionID w) = Some outcome
     \<and> DAList.lookup (sm_Refs c) (w_ID w) = Some refs
     \<and> settlement_of w outcome refs (sm_Version c) divisor s
     \<and> w' = w\<lparr>w_State := if outcome = ResultVoid then WagerVoided else WagerSettled'\<rparr>"
  using assms settleWager_Inr unfolding graded_def by (metis (no_types, lifting))

lemma list_all2_map_eq: "list_all2 P xs ys \<Longrightarrow> (\<And>x y. x \<in> set xs \<Longrightarrow> P x y \<Longrightarrow> g y = f x) \<Longrightarrow> map g ys = map f xs"
  by (induction rule: list_all2_induct) auto

lemma list_all2_set2: "list_all2 P xs ys \<Longrightarrow> y \<in> set ys \<Longrightarrow> \<exists>x \<in> set xs. P x y"
  by (induction rule: list_all2_induct) auto

text \<open>Every settlement of a graded market, with the wager it settles.\<close>

lemma SettleMarket_settlements:
  assumes "SettleMarket c = Inr r" "stakes_positive (sm_Wagers c)"
  shows "map ws_WagerID (sx_Settlements r) = sort (map w_ID (filter (\<lambda>w. w_State w = WagerAccepted') (sm_Wagers c)))"
    and "s \<in> set (sx_Settlements r) \<Longrightarrow> \<exists>w \<in> set (sm_Wagers c). \<exists>outcome refs. w_State w = WagerAccepted'
      \<and> DAList.lookup (sm_Outcome c) (w_SelectionID w) = Some outcome
      \<and> DAList.lookup (sm_Refs c) (w_ID w) = Some refs
      \<and> settlement_of w outcome refs (sm_Version c) (sx_DeadHeatDivisor r) s"
    and "w' \<in> set (sx_Wagers r) \<Longrightarrow> w_State w' \<noteq> WagerAccepted'"
proof -
  let ?ws = "sort_key w_ID (filter (\<lambda>w. w_State w = WagerAccepted') (sm_Wagers c))"
  from assms(1) obtain divisor rs where
    d: "sx_DeadHeatDivisor r = divisor" and rs: "list_all2 (graded c divisor) ?ws rs"
    and st: "sx_Settlements r = map fst rs"
    and w: "sx_Wagers r = filter (\<lambda>w. w_State w \<noteq> WagerAccepted') (sm_Wagers c) @ map (fst \<circ> snd) rs"
    by (rule SettleMarket_Inr)
  have pos: "0 < cents (w_Stake w)" if "w \<in> set ?ws" for w using that assms(2) by simp
  have "map (ws_WagerID \<circ> fst) rs = map w_ID ?ws"
    by (rule list_all2_map_eq [OF rs]) (use pos graded_settlement in \<open>fastforce simp: settlement_of_def\<close>)
  moreover have "map w_ID ?ws = sort (map w_ID (filter (\<lambda>w. w_State w = WagerAccepted') (sm_Wagers c)))"
    by (rule properties_for_sort [symmetric]) simp_all
  ultimately show "map ws_WagerID (sx_Settlements r) = sort (map w_ID (filter (\<lambda>w. w_State w = WagerAccepted') (sm_Wagers c)))"
    by (simp add: st)
  show "\<exists>w \<in> set (sm_Wagers c). \<exists>outcome refs. w_State w = WagerAccepted'
      \<and> DAList.lookup (sm_Outcome c) (w_SelectionID w) = Some outcome
      \<and> DAList.lookup (sm_Refs c) (w_ID w) = Some refs
      \<and> settlement_of w outcome refs (sm_Version c) (sx_DeadHeatDivisor r) s" if s: "s \<in> set (sx_Settlements r)"
  proof -
    from s obtain x where x: "x \<in> set rs" "s = fst x" by (auto simp: st)
    from list_all2_set2 [OF rs x(1)] obtain w where "w \<in> set ?ws" "graded c divisor w x" by blast
    with x pos graded_settlement [of c divisor w s "fst (snd x)" "snd (snd x)"] show ?thesis by (auto simp: d)
  qed
  show "w_State w' \<noteq> WagerAccepted'" if w': "w' \<in> set (sx_Wagers r)"
  proof -
    have "w_State (fst (snd x)) \<noteq> WagerAccepted'" if "x \<in> set rs" for x
    proof -
      from list_all2_set2 [OF rs that] obtain w where "w \<in> set ?ws" "graded c divisor w x" by blast
      with pos graded_settlement [of c divisor w "fst x" "fst (snd x)" "snd (snd x)"] show ?thesis
        by (auto split: if_splits)
    qed
    with w' show ?thesis by (auto simp: w)
  qed
qed

section \<open>The book after a market\<close>

definition settle_book :: "settle_market_result \<Rightarrow> book \<Rightarrow> book" where
  "settle_book r = fold post (map ws_Transaction (sx_Settlements r))"

lemma fold_post: "fold post ts b a = b a + (\<Sum>t\<leftarrow>ts. moved (t_Postings t) a)"
  by (induction ts arbitrary: b) (simp_all add: post_moved)

text \<open>C3 SettleMarket_conserves: grading a market moves money between accounts and neither makes nor
  loses any: over any set of accounts that covers the postings, the total balance is unchanged.\<close>

theorem SettleMarket_conserves:
  assumes "SettleMarket c = Inr r" "finite A"
    and "\<forall>s \<in> set (sx_Settlements r). account_key ` set (t_Postings (ws_Transaction s)) \<subseteq> A"
  shows "(\<Sum>a\<in>A. settle_book r b a) = (\<Sum>a\<in>A. b a)"
  unfolding settle_book_def
proof (rule settlement.post_all_conserves [OF _ assms(2)])
  from assms(1) obtain divisor rs where rs: "sx_Settlements r = map fst rs"
    "list_all2 (graded c divisor) (sort_key w_ID (filter (\<lambda>w. w_State w = WagerAccepted') (sm_Wagers c))) rs"
    by (rule SettleMarket_Inr)
  show "\<forall>t \<in> set (map ws_Transaction (sx_Settlements r)). account_key ` set (t_Postings t) \<subseteq> A"
    using assms(3) by simp
  show "\<forall>t \<in> set (map ws_Transaction (sx_Settlements r)). \<exists>x. (case x of (w, result, refs, msid, sid, version, actor, t, eid, d) \<Rightarrow>
     map_sum id (\<lambda>(s, w', e). ws_Transaction s) (settleWager w result refs msid sid version actor t eid d)) = Inr t"
  proof
    fix t assume "t \<in> set (map ws_Transaction (sx_Settlements r))"
    then obtain x where x: "x \<in> set rs" "t = ws_Transaction (fst x)" by (auto simp: rs)
    from list_all2_set2 [OF rs(2) x(1)] obtain w outcome refs sid eid where
      "settleWager w outcome refs (sm_SettlementID c) sid (sm_Version c) (sm_Actor c) (UTC (sm_OccurredAt c)) eid divisor = Inr x"
      unfolding graded_def by blast
    then show "\<exists>x. (case x of (w, result, refs, msid, sid, version, actor, t, eid, d) \<Rightarrow>
       map_sum id (\<lambda>(s, w', e). ws_Transaction s) (settleWager w result refs msid sid version actor t eid d)) = Inr t"
      by (intro exI [of _ "(w, outcome, refs, sm_SettlementID c, sid, sm_Version c, sm_Actor c, UTC (sm_OccurredAt c), eid, divisor)"])
        (simp add: x(2) case_prod_beta)
  qed
qed

text \<open>When every wager of the market is held in one escrow account,
  grading takes exactly the stakes of the accepted wagers out of it.\<close>

lemma SettleMarket_empties_escrow:
  assumes "SettleMarket c = Inr r" "stakes_positive (sm_Wagers c)"
    and "\<forall>i refs. DAList.lookup (sm_Refs c) i = Some refs \<longrightarrow> sr_EscrowAccountID refs = escrow"
  shows "settle_book r b (TrimSpace escrow)
    = b (TrimSpace escrow) - (\<Sum>w\<leftarrow>filter (\<lambda>w. w_State w = WagerAccepted') (sm_Wagers c). cents (w_Stake w))"
proof -
  let ?acc = "filter (\<lambda>w. w_State w = WagerAccepted') (sm_Wagers c)"
  from assms(1) obtain divisor rs where rs: "sx_Settlements r = map fst rs"
    "list_all2 (graded c divisor) (sort_key w_ID ?acc) rs"
    by (rule SettleMarket_Inr)
  have "map (\<lambda>x. moved (t_Postings (ws_Transaction (fst x))) (TrimSpace escrow)) rs
      = map (\<lambda>w. - cents (w_Stake w)) (sort_key w_ID ?acc)"
  proof (rule list_all2_map_eq [OF rs(2)])
    fix w x assume "w \<in> set (sort_key w_ID ?acc)" "graded c divisor w x"
    with assms(2,3) graded_settlement [of c divisor w "fst x" "fst (snd x)" "snd (snd x)"]
    show "moved (t_Postings (ws_Transaction (fst x))) (TrimSpace escrow) = - cents (w_Stake w)"
      by (fastforce simp: settlement_of_def)
  qed
  then have "(\<Sum>x\<leftarrow>rs. moved (t_Postings (ws_Transaction (fst x))) (TrimSpace escrow))
      = (\<Sum>w\<leftarrow>sort_key w_ID ?acc. - cents (w_Stake w))" by simp
  also have "\<dots> = sum_mset (image_mset (\<lambda>w. - cents (w_Stake w)) (mset (sort_key w_ID ?acc)))"
    by (simp only: sum_mset_sum_list flip: mset_map)
  also have "\<dots> = (\<Sum>w\<leftarrow>?acc. - cents (w_Stake w))"
    by (simp only: mset_sort) (simp only: sum_mset_sum_list flip: mset_map)
  finally show ?thesis
    by (simp add: settle_book_def fold_post rs(1) comp_def uminus_sum_list_map)
qed

text \<open>C25 SettleMarket_no_second_payment: a wager is paid at most once. However often a graded market
  is graded again over the wagers the first grading returned, no further settlement comes out.\<close>

theorem SettleMarket_no_second_payment:
  assumes "SettleMarket c = Inr r" "stakes_positive (sm_Wagers c)"
    and "SettleMarket c2 = Inr r2" "sm_Wagers c2 = sx_Wagers r"
  shows "sx_Settlements r2 = [] \<and> sx_Wagers r2 = sx_Wagers r"
proof -
  have none: "filter (\<lambda>w. w_State w = WagerAccepted') (sx_Wagers r) = []"
    using SettleMarket_settlements(3) [OF assms(1,2)] by (auto simp: filter_empty_conv)
  from assms(3) obtain divisor rs where
    "list_all2 (graded c2 divisor) (sort_key w_ID (filter (\<lambda>w. w_State w = WagerAccepted') (sm_Wagers c2))) rs"
    "sx_Settlements r2 = map fst rs"
    "sx_Wagers r2 = filter (\<lambda>w. w_State w \<noteq> WagerAccepted') (sm_Wagers c2) @ map (fst \<circ> snd) rs"
    by (rule SettleMarket_Inr)
  moreover have "filter (\<lambda>w. w_State w \<noteq> WagerAccepted') (sx_Wagers r) = sx_Wagers r"
    using SettleMarket_settlements(3) [OF assms(1,2)] by (intro filter_True) blast
  ultimately show ?thesis using none by (simp add: assms(4))
qed

text \<open>Grading does not depend on the order in which the wagers were loaded:
  settlements, events, divisor and errors are the same for every permutation of them.\<close>

lemma SettleMarket_order:
  assumes "mset ws = mset (sm_Wagers c)"
    and "distinct (map w_ID (filter (\<lambda>w. w_State w = WagerAccepted') ws))"
  shows "map_sum id (\<lambda>r. r\<lparr>sx_Wagers := []\<rparr>) (SettleMarket (c\<lparr>sm_Wagers := ws\<rparr>))
       = map_sum id (\<lambda>r. r\<lparr>sx_Wagers := []\<rparr>) (SettleMarket c)"
proof -
  let ?c2 = "c\<lparr>sm_Wagers := ws\<rparr>" and ?m = "mk_ID (sm_Market c)"
  let ?acc = "\<lambda>us. \<lparr>a_Settlements = [], a_Wagers = us, a_WagerEvents = [], a_counts = [0, 0, 0, 0],
      a_totalStake = 0, a_totalProfit = 0, a_totalReturned = 0\<rparr>"
  have sort: "sort_key w_ID (filter (\<lambda>w. w_State w = WagerAccepted') ws)
      = sort_key w_ID (filter (\<lambda>w. w_State w = WagerAccepted') (sm_Wagers c))"
    using assms by (intro sort_key_permutation) simp_all
  have any: "list_ex P ws = list_ex P (sm_Wagers c)" for P
    using mset_eq_setD [OF assms(1)] by (simp add: list_ex_iff)
  have loop: "map_sum id erase_wagers (settle_loop c d us (?acc x)) = map_sum id erase_wagers (settle_loop ?c2 d us (?acc y))"
    for d us x y by (rule settle_loop_erase) (simp add: erase_wagers_def)
  have dh: "deadHeatDivisor ?c2 = deadHeatDivisor c" by (simp add: deadHeatDivisor_def)
  show ?thesis
  proof (cases "deadHeatDivisor c")
    case (Inr d)
    let ?us = "sort_key w_ID (filter (\<lambda>w. w_State w = WagerAccepted') (sm_Wagers c))"
    from loop [of d ?us "filter (\<lambda>w. w_State w \<noteq> WagerAccepted') (sm_Wagers c)" "filter (\<lambda>w. w_State w \<noteq> WagerAccepted') ws"]
    show ?thesis
      by (auto simp: SettleMarket_def splitAcceptedWagers_def sort any dh Inr erase_wagers_eq
          split: option.splits sum.splits)
  qed (auto simp: SettleMarket_def dh split: option.splits)
qed


section \<open>Voiding a market\<close>

definition refunded :: "void_market_command \<Rightarrow> wager \<Rightarrow> wager_settlement \<times> wager \<times> envelope \<Rightarrow> bool" where
  "refunded c w r \<longleftrightarrow> (\<exists>refs sid eid. DAList.lookup (vm_Refs c) (w_ID w) = Some refs
     \<and> settleWager w ResultVoid refs (vm_SettlementID c) sid (vm_Version c) (vm_Actor c) (UTC (vm_OccurredAt c)) eid 1
         = Inr r)"

lemma void_loop_Inr:
  "void_loop c ws acc = Inr acc' \<Longrightarrow>
    \<exists>rs. list_all2 (refunded c) ws rs \<and> a_Settlements acc' = a_Settlements acc @ map fst rs
     \<and> a_Wagers acc' = a_Wagers acc @ map (fst \<circ> snd) rs \<and> a_WagerEvents acc' = a_WagerEvents acc @ map (snd \<circ> snd) rs"
proof (induction ws arbitrary: acc)
  case (Cons w ws)
  from Cons.prems obtain refs s w' e where
      look: "DAList.lookup (vm_Refs c) (w_ID w) = Some refs"
    and sw: "settleWager w ResultVoid refs (vm_SettlementID c) (get_or [] (vm_WagerSettlementIDs c) (w_ID w)) (vm_Version c)
        (vm_Actor c) (UTC (vm_OccurredAt c)) (get_or [] (vm_WagerEventIDs c) (w_ID w)) 1 = Inr (s, w', e)"
    and rest: "void_loop c ws (acc\<lparr>a_Settlements := a_Settlements acc @ [s], a_Wagers := a_Wagers acc @ [w'],
             a_WagerEvents := a_WagerEvents acc @ [e], a_totalStake := a_totalStake acc + m_Cents (ws_Stake s)\<rparr>) = Inr acc'"
    by (auto simp: Let_def result_simps split: option.splits)
  have "refunded c w (s, w', e)" using look sw unfolding refunded_def by blast
  moreover obtain rs where "list_all2 (refunded c) ws rs"
     "a_Settlements acc' = (a_Settlements acc @ [s]) @ map fst rs"
     "a_Wagers acc' = (a_Wagers acc @ [w']) @ map (fst \<circ> snd) rs"
     "a_WagerEvents acc' = (a_WagerEvents acc @ [e]) @ map (snd \<circ> snd) rs"
    using Cons.IH [OF rest] by auto
  ultimately show ?case by (intro exI [of _ "(s, w', e) # rs"]) simp
qed simp

lemma VoidMarket_Inr:
  assumes "VoidMarket c = Inr r"
  obtains rs where
    "list_all2 (refunded c) (sort_key w_ID (filter (\<lambda>w. w_State w = WagerAccepted') (vm_Wagers c))) rs"
    "sx_Settlements r = map fst rs" "sx_WagerEvents r = map (snd \<circ> snd) rs"
    "sx_Wagers r = filter (\<lambda>w. w_State w \<noteq> WagerAccepted') (vm_Wagers c) @ map (fst \<circ> snd) rs"
    "sx_Market r = (vm_Market c)\<lparr>mk_State := MarketVoided\<rparr>"
proof -
  from assms obtain acc where loop: "void_loop c (sort_key w_ID (filter (\<lambda>w. w_State w = WagerAccepted') (vm_Wagers c)))
      \<lparr>a_Settlements = [], a_Wagers = filter (\<lambda>w. w_State w \<noteq> WagerAccepted') (vm_Wagers c), a_WagerEvents = [], a_counts = [],
       a_totalStake = 0, a_totalProfit = 0, a_totalReturned = 0\<rparr> = Inr acc"
     and r: "sx_Settlements r = a_Settlements acc" "sx_Wagers r = a_Wagers acc" "sx_WagerEvents r = a_WagerEvents acc"
       "sx_Market r = (vm_Market c)\<lparr>mk_State := MarketVoided\<rparr>"
    by (auto simp: VoidMarket_def result_simps splitAcceptedWagers_Inr case_prod_eq_Inr)
  from void_loop_Inr [OF loop] show thesis using that r by auto
qed

lemma refunded_settlement:
  assumes "refunded c w (s, w', e)" "0 < cents (w_Stake w)"
  shows "\<exists>refs. DAList.lookup (vm_Refs c) (w_ID w) = Some refs
     \<and> settlement_of w ResultVoid refs (vm_Version c) 1 s \<and> w' = w\<lparr>w_State := WagerVoided\<rparr>"
proof -
  from assms(1) obtain refs sid eid where look: "DAList.lookup (vm_Refs c) (w_ID w) = Some refs"
    and sw: "settleWager w ResultVoid refs (vm_SettlementID c) sid (vm_Version c) (vm_Actor c) (UTC (vm_OccurredAt c)) eid 1
         = Inr (s, w', e)"
    unfolding refunded_def by blast
  from settleWager_Inr(3,5) [OF sw assms(2)] look show ?thesis by auto
qed

definition void_settlement :: "wager_settlement \<Rightarrow> bool" where
  "void_settlement s \<longleftrightarrow> ws_Result s = ResultVoid \<and> cents (ws_Returned s) = cents (ws_Stake s)
     \<and> cents (ws_Profit s) = 0
     \<and> (\<exists>refs. moved (t_Postings (ws_Transaction s)) = settlement_moves refs (cents (ws_Stake s)) (cents (ws_Stake s)))"

lemma settlement_of_void: "settlement_of w ResultVoid refs v d s \<Longrightarrow> void_settlement s"
  unfolding void_settlement_def
  by (intro conjI exI [of _ refs]) (simp_all add: settlement_of_def settle_returned_def settle_profit_def)

text \<open>Voiding a market settles every accepted wager once, as void, and gives
  back its whole stake without profit, out of escrow and with nothing moved through the house; no
  wager of the market is left accepted.\<close>

lemma VoidMarket_refunds:
  assumes "VoidMarket c = Inr r" "stakes_positive (vm_Wagers c)"
  shows "map ws_WagerID (sx_Settlements r) = sort (map w_ID (filter (\<lambda>w. w_State w = WagerAccepted') (vm_Wagers c)))
    \<and> (\<forall>s \<in> set (sx_Settlements r). void_settlement s)
    \<and> (\<forall>w \<in> set (sx_Wagers r). w_State w \<noteq> WagerAccepted')"
proof -
  let ?ws = "sort_key w_ID (filter (\<lambda>w. w_State w = WagerAccepted') (vm_Wagers c))"
  from assms(1) obtain rs where rs: "list_all2 (refunded c) ?ws rs" and st: "sx_Settlements r = map fst rs"
    "sx_Wagers r = filter (\<lambda>w. w_State w \<noteq> WagerAccepted') (vm_Wagers c) @ map (fst \<circ> snd) rs"
    by (rule VoidMarket_Inr)
  have pos: "0 < cents (w_Stake w)" if "w \<in> set ?ws" for w using that assms(2) by simp
  have "map (ws_WagerID \<circ> fst) rs = map w_ID ?ws"
    by (rule list_all2_map_eq [OF rs]) (use pos refunded_settlement in \<open>fastforce simp: settlement_of_def\<close>)
  moreover have "map w_ID ?ws = sort (map w_ID (filter (\<lambda>w. w_State w = WagerAccepted') (vm_Wagers c)))"
    by (rule properties_for_sort [symmetric]) simp_all
  ultimately have ids: "map ws_WagerID (sx_Settlements r) = sort (map w_ID (filter (\<lambda>w. w_State w = WagerAccepted') (vm_Wagers c)))"
    by (simp add: st)
  have each: "void_settlement (fst x) \<and> w_State (fst (snd x)) = WagerVoided" if "x \<in> set rs" for x
  proof -
    from list_all2_set2 [OF rs that] obtain w where w: "w \<in> set ?ws" "refunded c w x" by blast
    obtain s w' e where x: "x = (s, w', e)" by (cases x)
    from refunded_settlement [OF w(2) [unfolded x] pos [OF w(1)]] obtain refs where
      "settlement_of w ResultVoid refs (vm_Version c) 1 s" "w' = w\<lparr>w_State := WagerVoided\<rparr>" by blast
    with settlement_of_void show ?thesis unfolding x by simp
  qed
  have void: "void_settlement s" if "s \<in> set (sx_Settlements r)" for s
    using that each by (auto simp: st)
  have "w_State w \<noteq> WagerAccepted'" if "w \<in> set (sx_Wagers r)" for w
    using that each by (force simp: st)
  with ids void show ?thesis by blast
qed

section \<open>Statements about one settlement\<close>

text \<open>C4 settleWager_pays: a settlement that succeeds pays what the reference computes: profit is the
  stake that rode, at the accepted odds, rounded half up to the cent; a win returns that stake and
  the profit, a loss nothing, a push or void the whole stake; and the three accounts move by exactly
  that, escrow giving up the whole stake.\<close>

theorem settleWager_pays:
  assumes "settleWager w result refs msid sid version actor t eid d = Inr (s, w', e)" "0 < cents (w_Stake w)"
  shows "cents (ws_Profit s) = settle_profit w result (effective_divisor result d)
    \<and> cents (ws_Returned s) = settle_returned w result (effective_divisor result d)
    \<and> moved (t_Postings (ws_Transaction s)) = settlement_moves refs (cents (w_Stake w)) (cents (ws_Returned s))
    \<and> moved (t_Postings (ws_Transaction s)) (TrimSpace (sr_EscrowAccountID refs)) = - cents (w_Stake w)
    \<and> w_State w = WagerAccepted' \<and> w_State w' = (if result = ResultVoid then WagerVoided else WagerSettled')"
  using settleWager_Inr(1,3) [OF assms] settleWager_Inr(5) [OF assms, unfolded settlement_of_def]
  by (intro conjI; elim conjE; (assumption | simp))

text \<open>An accepted wager that was priced at placement can always be settled,
  with any result and any number of tied winners, given three distinct accounts and well-formed
  identifiers: no stake is too small and no combination of zero legs makes the transaction illegal.\<close>

lemma settleWager_succeeds:
  assumes "Wager_Validate w = None" "w_State w = WagerAccepted'" "refs_ok refs"
    and "Odds_Profit (w_AcceptedOdds w) (w_Stake w) = Inr p" "SettlementResult_Validate result = None"
    and "\<not> blank msid" "\<not> blank actor" "0 < sint version" "validUUID (w_ID w)" "validUUID eid" "\<not> IsZero t"
  shows "\<exists>r. settleWager w result refs msid sid version actor t eid d = Inr r"
  using assms by (intro settleWager_total) (auto simp: Enum_Validate_None)

lemma settleWager_dead_heat:
  assumes "settleWager w result refs msid sid version actor t eid d = Inr (s, w', e)"
    and "Odds_Profit (w_AcceptedOdds w) (w_Stake w) = Inr p"
  shows "0 \<le> cents (ws_Returned s) \<and> cents (ws_Returned s) \<le> cents (w_Stake w) + cents p
    \<and> 0 \<le> cents (ws_Profit s) \<and> cents (ws_Profit s) \<le> cents p"
proof -
  note D = Odds_Profit_InrD [OF assms(2)]
  note b = settle_returned_bounds [OF D(3,1) effective_divisor_pos [of result d], of result]
  have "settle_profit w ResultWin 1 = cents p" "settle_returned w ResultWin 1 = cents (w_Stake w) + cents p"
    using D(5) by (simp_all add: settle_profit_def settle_returned_def)
  with b settleWager_Inr(5) [OF assms(1) D(3)] show ?thesis by (simp add: settlement_of_def)
qed

end
