(* ===== verification/Wager_Lifecycle.thy ===== *)
theory Wager_Lifecycle
  imports Betting_Adjust Market_Settlement
begin

text \<open>
  The life of one wager across \<open>place.go\<close>, \<open>settle.go\<close>, \<open>voidwager.go\<close> and \<open>reducewager.go\<close>: a step
  relation whose steps are the operations of the code, the invariants of every wager it reaches,
  and what escrow holds for the wager along the way.
\<close>

section \<open>Steps\<close>

text \<open>
  A step carries the transactions it posts. The escrow account is a parameter: it is one shared
  account in the code (\<open>AcceptWager\<close>: ``a shared escrow account'').
\<close>

inductive wager_step :: "string \<Rightarrow> wager \<Rightarrow> transaction list \<Rightarrow> wager \<Rightarrow> bool" for escrow where
  accept: "AcceptWager w actor t refs eid = Inr r \<Longrightarrow> TrimSpace (ar_EscrowAccountID refs) = escrow \<Longrightarrow>
     wager_step escrow w [aw_Transaction r] (aw_Wager r)"
| reject: "RejectWager w actor reason = Inr w' \<Longrightarrow> wager_step escrow w [] w'"
| cancel: "CancelWager w actor = Inr w' \<Longrightarrow> wager_step escrow w [] w'"
| reduce: "ReduceWager w newStake actor reason vrefs t = Inr (w', refund, txn) \<Longrightarrow>
     TrimSpace (vr_EscrowAccountID vrefs) = escrow \<Longrightarrow> wager_step escrow w [txn] w'"
| void: "VoidWager w actor reason vrefs t = Inr (w', txn) \<Longrightarrow>
     TrimSpace (vr_EscrowAccountID vrefs) = escrow \<Longrightarrow> wager_step escrow w [txn] w'"
| settle: "settleWager w result srefs msid sid version actor t eid d = Inr (s, w', e) \<Longrightarrow>
     TrimSpace (sr_EscrowAccountID srefs) = escrow \<Longrightarrow> wager_step escrow w [ws_Transaction s] w'"

inductive wager_run :: "string \<Rightarrow> wager \<Rightarrow> transaction list \<Rightarrow> wager \<Rightarrow> bool" for escrow where
  start: "wager_run escrow w [] w"
| step: "wager_run escrow w ts u \<Longrightarrow> wager_step escrow u us v \<Longrightarrow> wager_run escrow w (ts @ us) v"

inductive_cases wager_stepE: "wager_step escrow w ts w'"

section \<open>The effect of one operation\<close>

lemma pair_moves:
  assumes "Transaction_Validate t = None"
    and "t_Postings t = [\<lparr>p_AccountID = a, p_Amount = m\<rparr>, \<lparr>p_AccountID = b, p_Amount = n\<rparr>]"
  shows "moved (t_Postings t) (TrimSpace a) = cents m" "moved (t_Postings t) (TrimSpace b) = cents n"
  using Transaction_Validate_postings [OF assms(1)]
  by (auto simp: assms(2) ValidatePostings_None account_key_def)

lemma RejectWager_Inr:
  "RejectWager w actor reason = Inr w' \<longleftrightarrow> Wager_Validate w = None \<and> w_State w = WagerPending
     \<and> \<not> blank actor \<and> \<not> blank reason \<and> w' = w\<lparr>w_State := WagerRejected\<rparr>"
  by (auto simp: RejectWager_def result_simps CanTransitionTo_from validID_blank blank_def)

lemma CancelWager_Inr:
  "CancelWager w actor = Inr w' \<longleftrightarrow> Wager_Validate w = None \<and> w_State w = WagerPending
     \<and> actor = w_UserID w \<and> w' = w\<lparr>w_State := WagerRejected\<rparr>"
  by (auto simp: CancelWager_def result_simps CanTransitionTo_from validID_blank Wager_Validate_None)

lemma VoidWager_Inr:
  assumes "VoidWager w actor reason refs t = Inr (w', txn)"
  shows "Wager_Validate w = None" "w_State w = WagerAccepted'" "w' = w\<lparr>w_State := WagerVoided\<rparr>"
    "moved (t_Postings txn) (TrimSpace (vr_EscrowAccountID refs)) = - cents (w_Stake w)"
    "moved (t_Postings txn) (TrimSpace (vr_UserFundingAccountID refs)) = cents (w_Stake w)"
    "t_IdempotencyKey txn = VoidIdempotencyKey (w_ID w)" "Transaction_Validate txn = None"
proof -
  obtain n where n: "Money_Negate (w_Stake w) = Inr n"
    and ps: "t_Postings txn = [\<lparr>p_AccountID = vr_EscrowAccountID refs, p_Amount = n\<rparr>,
                           \<lparr>p_AccountID = vr_UserFundingAccountID refs, p_Amount = w_Stake w\<rparr>]"
    and v: "Transaction_Validate txn = None"
    using assms by (auto simp: VoidWager_def Let_def result_simps)
  show "Wager_Validate w = None" "w_State w = WagerAccepted'" "w' = w\<lparr>w_State := WagerVoided\<rparr>"
    "t_IdempotencyKey txn = VoidIdempotencyKey (w_ID w)" "Transaction_Validate txn = None"
    using assms by (auto simp: VoidWager_def Let_def result_simps CanTransitionTo_from)
  show "moved (t_Postings txn) (TrimSpace (vr_EscrowAccountID refs)) = - cents (w_Stake w)"
    "moved (t_Postings txn) (TrimSpace (vr_UserFundingAccountID refs)) = cents (w_Stake w)"
    using pair_moves [OF v ps] Money_Negate_cents [OF n] by simp_all
qed

lemma ReduceWager_Inr:
  assumes "ReduceWager w newStake actor reason refs t = Inr (w', refund, txn)"
  shows "Wager_Validate w = None" "w_State w = WagerAccepted'" "0 < cents newStake" "cents newStake < cents (w_Stake w)"
    "\<exists>p. Odds_Profit (w_AcceptedOdds w) newStake = Inr p \<and> w' = w\<lparr>w_Stake := newStake, w_PotentialProfit := p\<rparr>"
    "cents refund = cents (w_Stake w) - cents newStake" "Money_Validate newStake = None"
    "m_Currency newStake = m_Currency (w_Stake w)"
    "moved (t_Postings txn) (TrimSpace (vr_EscrowAccountID refs)) = - cents refund"
    "moved (t_Postings txn) (TrimSpace (vr_UserFundingAccountID refs)) = cents refund"
    "t_IdempotencyKey txn = ReduceIdempotencyKey (w_ID w) (m_Cents newStake)"
proof -
  obtain n where n: "Money_Negate refund = Inr n"
    and ps: "t_Postings txn = [\<lparr>p_AccountID = vr_EscrowAccountID refs, p_Amount = n\<rparr>,
                           \<lparr>p_AccountID = vr_UserFundingAccountID refs, p_Amount = refund\<rparr>]"
    and v: "Transaction_Validate txn = None"
    and refund: "NewMoney (m_Cents (w_Stake w) - m_Cents newStake) (m_Currency (w_Stake w)) = Inr refund"
    and c: "0 < cents newStake" "cents newStake < cents (w_Stake w)"
    using assms by (auto simp: ReduceWager_def Let_def result_simps)
  show "Wager_Validate w = None" "w_State w = WagerAccepted'" "0 < cents newStake" "cents newStake < cents (w_Stake w)"
    "\<exists>p. Odds_Profit (w_AcceptedOdds w) newStake = Inr p \<and> w' = w\<lparr>w_Stake := newStake, w_PotentialProfit := p\<rparr>"
    "Money_Validate newStake = None" "m_Currency newStake = m_Currency (w_Stake w)"
    "t_IdempotencyKey txn = ReduceIdempotencyKey (w_ID w) (m_Cents newStake)"
    using assms by (auto simp: ReduceWager_def Let_def result_simps)
  show "cents refund = cents (w_Stake w) - cents newStake"
    using refund c sint64_le [of "m_Cents (w_Stake w)"] by (auto simp: NewMoney_def result_simps sint64_diff)
  show "moved (t_Postings txn) (TrimSpace (vr_EscrowAccountID refs)) = - cents refund"
    "moved (t_Postings txn) (TrimSpace (vr_UserFundingAccountID refs)) = cents refund"
    using pair_moves [OF v ps] Money_Negate_cents [OF n] by simp_all
qed

section \<open>Invariants\<close>

text \<open>
  What never changes about a wager once it is placed, and what stays true of it: it validates, its
  recorded profit is the profit of its current stake at its accepted odds, and the stake only shrinks.
\<close>

definition same_bet :: "wager \<Rightarrow> wager \<Rightarrow> bool" where
  "same_bet w u \<longleftrightarrow> w_ID u = w_ID w \<and> w_UserID u = w_UserID w \<and> w_MarketID u = w_MarketID w
     \<and> w_SelectionID u = w_SelectionID w \<and> w_FundingAccountType u = w_FundingAccountType w
     \<and> w_AcceptedOdds u = w_AcceptedOdds w \<and> w_AcceptedTerms u = w_AcceptedTerms w
     \<and> w_IdempotencyKey u = w_IdempotencyKey w \<and> w_PlacedBy u = w_PlacedBy w \<and> w_PlacedAt u = w_PlacedAt w
     \<and> m_Currency (w_Stake u) = m_Currency (w_Stake w)"

definition priced :: "wager \<Rightarrow> bool" where
  "priced w \<longleftrightarrow> Wager_Validate w = None \<and> Odds_Profit (w_AcceptedOdds w) (w_Stake w) = Inr (w_PotentialProfit w)"

lemma same_bet_trans: "same_bet w u \<Longrightarrow> same_bet u v \<Longrightarrow> same_bet w v"
  by (simp add: same_bet_def)

lemma PlaceWager_priced: "PlaceWager c = Inr w \<Longrightarrow> priced w \<and> w_State w = WagerPending"
proof -
  assume P: "PlaceWager c = Inr w"
  then have "Wager_Validate w = None" by (auto simp: PlaceWager_def Let_def result_simps)
  with P show ?thesis by (auto simp: priced_def PlaceWager_Inr)
qed

lemma Wager_Validate_state:
  "Wager_Validate w = None \<Longrightarrow> WagerState_Validate st = None \<Longrightarrow> Wager_Validate (w\<lparr>w_State := st\<rparr>) = None"
  by (simp add: Wager_Validate_None)

lemma wager_step_facts:
  assumes "wager_step escrow w ts u" "priced w"
  shows "same_bet w u \<and> priced u \<and> cents (w_Stake u) \<le> cents (w_Stake w)
    \<and> (w_State u = w_State w \<or> WagerState_CanTransitionTo (w_State w) (w_State u))
    \<and> (\<Sum>t\<leftarrow>ts. moved (t_Postings t) escrow)
        = (if w_State u = WagerAccepted' then cents (w_Stake u) else 0)
          - (if w_State w = WagerAccepted' then cents (w_Stake w) else 0)"
proof -
  have w: "Wager_Validate w = None" "0 < cents (w_Stake w)"
    using assms(2) by (auto simp: priced_def Wager_Validate_None)
  from assms(1) show ?thesis
  proof (cases rule: wager_step.cases)
    case (accept actor t refs eid r)
    from AcceptWager_Inr [OF accept(3)] obtain n where
      a: "w_State w = WagerPending" "aw_Wager r = w\<lparr>w_State := WagerAccepted'\<rparr>" "Transaction_Validate (aw_Transaction r) = None"
      "t_Postings (aw_Transaction r) = [\<lparr>p_AccountID = ar_UserFundingAccountID refs, p_Amount = n\<rparr>,
                           \<lparr>p_AccountID = ar_EscrowAccountID refs, p_Amount = w_Stake w\<rparr>]" by blast
    from pair_moves [OF a(3,4)] a(1,2) accept assms(2) show ?thesis
      by (simp add: same_bet_def priced_def Wager_Validate_state CanTransitionTo_from)
  next
    case (reject actor reason)
    with assms(2) show ?thesis
      by (auto simp: RejectWager_Inr same_bet_def priced_def Wager_Validate_state CanTransitionTo_from)
  next
    case (cancel actor)
    with assms(2) show ?thesis
      by (auto simp: CancelWager_Inr same_bet_def priced_def Wager_Validate_state CanTransitionTo_from)
  next
    case (reduce newStake actor reason vrefs t refund txn)
    note R = ReduceWager_Inr [OF reduce(2)]
    from R(5) obtain p where p: "Odds_Profit (w_AcceptedOdds w) newStake = Inr p" "u = w\<lparr>w_Stake := newStake, w_PotentialProfit := p\<rparr>"
      by blast
    note D = Odds_Profit_InrD [OF p(1)]
    have "Wager_Validate u = None"
      using w D by (simp add: p(2) Wager_Validate_None Money_Validate_def)
    with R p reduce show ?thesis by (simp add: same_bet_def priced_def)
  next
    case (void actor reason vrefs t txn)
    from VoidWager_Inr [OF void(2)] void assms(2) show ?thesis
      by (simp add: same_bet_def priced_def Wager_Validate_state CanTransitionTo_from)
  next
    case (settle result srefs msid sid version actor t eid d s e)
    from settleWager_Inr [OF settle(2) w(2)] settle assms(2) show ?thesis
      by (auto simp: same_bet_def priced_def Wager_Validate_state CanTransitionTo_from settlement_of_def)
  qed
qed

lemma wager_run_facts:
  assumes "wager_run escrow w ts u" "priced w"
  shows "same_bet w u \<and> priced u \<and> cents (w_Stake u) \<le> cents (w_Stake w)
    \<and> WagerState_CanTransitionTo\<^sup>*\<^sup>* (w_State w) (w_State u)
    \<and> (\<Sum>t\<leftarrow>ts. moved (t_Postings t) escrow)
        = (if w_State u = WagerAccepted' then cents (w_Stake u) else 0)
          - (if w_State w = WagerAccepted' then cents (w_Stake w) else 0)"
  using assms
proof (induction rule: wager_run.induct)
  case (start w)
  then show ?case by (simp add: same_bet_def)
next
  case (step w ts u us v)
  then have IH: "same_bet w u" "priced u" "cents (w_Stake u) \<le> cents (w_Stake w)"
    "WagerState_CanTransitionTo\<^sup>*\<^sup>* (w_State w) (w_State u)"
    "(\<Sum>t\<leftarrow>ts. moved (t_Postings t) escrow)
        = (if w_State u = WagerAccepted' then cents (w_Stake u) else 0)
          - (if w_State w = WagerAccepted' then cents (w_Stake w) else 0)" by blast+
  note F = wager_step_facts [OF step.hyps(2) IH(2)]
  then have "WagerState_CanTransitionTo\<^sup>*\<^sup>* (w_State w) (w_State v)"
    using IH(4) by (metis rtranclp.rtrancl_into_rtrancl)
  with F IH same_bet_trans [of w u v] show ?case by simp
qed


section \<open>Properties\<close>

text \<open>Whatever happens to a placed wager, it stays the bet that was placed: same
  member, market, selection, odds, terms and currency; it always validates, its recorded profit is
  the profit of its current stake at its accepted odds, and the stake never grows.\<close>

lemma wager_invariant:
  assumes "PlaceWager c = Inr w" "wager_run escrow w ts u"
  shows "same_bet w u \<and> Wager_Validate u = None
    \<and> Odds_Profit (w_AcceptedOdds u) (w_Stake u) = Inr (w_PotentialProfit u)
    \<and> cents (w_Stake u) \<le> cents (w_Stake w)"
  using wager_run_facts [OF assms(2)] PlaceWager_priced [OF assms(1)] by (simp add: priced_def)

text \<open>C7 escrow_holds_stake: after any sequence of operations on a placed wager, what the book holds
  in escrow for it is exactly its stake while it is accepted, and nothing before and after.\<close>

theorem escrow_holds_stake:
  assumes "PlaceWager c = Inr w" "wager_run escrow w ts u"
  shows "fold post ts b escrow = b escrow + (if w_State u = WagerAccepted' then cents (w_Stake u) else 0)"
  using wager_run_facts [OF assms(2)] PlaceWager_priced [OF assms(1)] by (simp add: fold_post)

text \<open>C32 wager_resolved_once: a wager that has been rejected, settled or voided stays as it is: no
  operation succeeds on it again.\<close>

theorem wager_resolved_once:
  assumes "PlaceWager c = Inr w" "wager_run escrow w ts u"
    and "w_State u \<in> {WagerRejected, WagerSettled', WagerVoided}"
  shows "\<not> wager_step escrow u us v"
proof
  assume S: "wager_step escrow u us v"
  have p: "priced u" using wager_run_facts [OF assms(2)] PlaceWager_priced [OF assms(1)] by simp
  from S show False
  proof (cases rule: wager_step.cases)
    case (settle result srefs msid sid version actor t eid d s e)
    from settleWager_Inr(1) [OF settle(2)] p assms(3) show ?thesis by (auto simp: priced_def Wager_Validate_None)
  qed (use assms(3) in \<open>auto dest: AcceptWager_Inr ReduceWager_Inr(2) VoidWager_Inr(2) simp: RejectWager_Inr CancelWager_Inr\<close>)
qed

text \<open>C27 placed_wager_pays_quote: a wager that is placed, accepted and then wins outright pays exactly
  the profit quoted when it was placed, on top of the stake.\<close>

theorem placed_wager_pays_quote:
  assumes "PlaceWager c = Inr w" "AcceptWager w actor t refs eid = Inr r"
    and "settleWager (aw_Wager r) ResultWin srefs msid sid version actor2 t2 eid2 1 = Inr (s, w', e)"
  shows "cents (ws_Profit s) = cents (w_PotentialProfit w)
    \<and> cents (ws_Returned s) = cents (w_Stake w) + cents (w_PotentialProfit w) \<and> 0 < cents (w_PotentialProfit w)"
proof -
  have w: "aw_Wager r = w\<lparr>w_State := WagerAccepted'\<rparr>" using AcceptWager_Inr [OF assms(2)] by blast
  have p: "Odds_Profit (w_AcceptedOdds (aw_Wager r)) (w_Stake (aw_Wager r)) = Inr (w_PotentialProfit w)"
    using PlaceWager_priced [OF assms(1)] by (simp add: w priced_def)
  have "0 < cents (w_PotentialProfit w)" using assms(1) by (auto simp: PlaceWager_Inr)
  with settleWager_win_profit [OF assms(3) p] show ?thesis by (simp add: w)
qed

text \<open>A wager is only placed on an open market inside its window, on an active
  selection of that market, by a member no restriction bars; and when the amounts already held do
  not overflow, every cap that is set is respected.\<close>

lemma PlaceWager_guards:
  assumes "PlaceWager c = Inr w"
    and "\<forall>held \<in> {pw_ExistingStakeCents c, pw_ExistingSelectionStakeCents c, pw_ExistingTotalStakeCents c}.
       0 \<le> sint held \<and> sint held + cents (pw_Stake c) \<le> 9223372036854775807"
  shows "mk_State (pw_Market c) = MarketOpen
    \<and> (\<not> Before (pw_Now c) (mk_OpensAt (pw_Market c)) \<or> IsZero (mk_OpensAt (pw_Market c)))
    \<and> Before (pw_Now c) (mk_ClosesAt (pw_Market c)) \<and> s_Active (pw_Selection c)
    \<and> (\<forall>r \<in> set (pw_Restrictions c). \<not> Restricts r (w_UserID w) (w_SelectionID w))
    \<and> (0 < sint (pw_MaxStakeCents c) \<longrightarrow> sint (pw_ExistingStakeCents c) + cents (w_Stake w) \<le> sint (pw_MaxStakeCents c))
    \<and> (0 < sint (pw_SelectionMaxStakeCents c) \<longrightarrow>
        sint (pw_ExistingSelectionStakeCents c) + cents (w_Stake w) \<le> sint (pw_SelectionMaxStakeCents c))
    \<and> (0 < sint (pw_TotalStakeCapCents c) \<longrightarrow>
        sint (pw_ExistingTotalStakeCents c) + cents (w_Stake w) \<le> sint (pw_TotalStakeCapCents c))
    \<and> (0 < sint (pw_MaxPayoutCents c) \<longrightarrow> cents (w_PotentialProfit w) \<le> sint (pw_MaxPayoutCents c))"
proof -
  from assms(1) obtain profit where P: "mk_State (pw_Market c) = MarketOpen"
    "IsZero (mk_OpensAt (pw_Market c)) \<or> \<not> Before (pw_Now c) (mk_OpensAt (pw_Market c))"
    "Before (pw_Now c) (mk_ClosesAt (pw_Market c))" "s_Active (pw_Selection c)"
    "\<forall>r \<in> set (pw_Restrictions c). \<not> Restricts r (pw_UserID c) (s_ID (pw_Selection c))"
    "\<not> over_cap (pw_MaxStakeCents c) (pw_ExistingStakeCents c) (m_Cents (pw_Stake c))"
    "\<not> over_cap (pw_SelectionMaxStakeCents c) (pw_ExistingSelectionStakeCents c) (m_Cents (pw_Stake c))"
    "\<not> over_cap (pw_TotalStakeCapCents c) (pw_ExistingTotalStakeCents c) (m_Cents (pw_Stake c))"
    "0 < sint (pw_MaxPayoutCents c) \<longrightarrow> cents profit \<le> sint (pw_MaxPayoutCents c)"
    "Odds_Profit (s_OfferedAmericanOdds (pw_Selection c)) (pw_Stake c) = Inr profit"
    and w: "w_UserID w = pw_UserID c" "w_SelectionID w = s_ID (pw_Selection c)" "w_Stake w = pw_Stake c"
      "w_PotentialProfit w = profit"
    unfolding PlaceWager_Inr by auto
  have stake: "0 < cents (pw_Stake c)" using Odds_Profit_InrD(3) [OF P(10)] .
  show ?thesis
    using P w not_over_cap [OF P(6) _ _ stake] not_over_cap [OF P(7) _ _ stake] not_over_cap [OF P(8) _ _ stake] assms(2)
    by auto
qed

text \<open>A wager is accepted exactly when it validates and is pending, the actor is
  named, the two accounts are given and differ after trimming, the time is set, and the wager and
  event identifiers are well-formed: nothing else can fail.\<close>

lemma AcceptWager_iff:
  "(\<exists>r. AcceptWager w actor t refs eid = Inr r) \<longleftrightarrow>
     Wager_Validate w = None \<and> w_State w = WagerPending \<and> \<not> blank actor \<and> \<not> IsZero t
     \<and> \<not> blank (ar_UserFundingAccountID refs) \<and> \<not> blank (ar_EscrowAccountID refs)
     \<and> TrimSpace (ar_UserFundingAccountID refs) \<noteq> TrimSpace (ar_EscrowAccountID refs)
     \<and> validUUID (w_ID w) \<and> validUUID eid \<and> \<not> blank eid" (is "?L \<longleftrightarrow> ?R")
proof
  have env: "buildEnvelope eid (w_ID w) ''wager'' 1 WagerAccepted (UTC t) (wagerAcceptedPayload w) = Inr e \<Longrightarrow>
      validUUID (w_ID w) \<and> validUUID eid" for e
    using not_blank_start [of "''wager''"]
    by (simp add: buildEnvelope_Inr wagerAcceptedPayload_def plain_key_def between_def byte_def event_types_def space_runes_def)
  assume ?L
  then obtain r where r: "AcceptWager w actor t refs eid = Inr r" by blast
  from AcceptWager_Inr [OF r] obtain n where
    "Transaction_Validate (aw_Transaction r) = None"
    "t_Postings (aw_Transaction r) = [\<lparr>p_AccountID = ar_UserFundingAccountID refs, p_Amount = n\<rparr>,
                           \<lparr>p_AccountID = ar_EscrowAccountID refs, p_Amount = w_Stake w\<rparr>]" by blast
  then have "TrimSpace (ar_UserFundingAccountID refs) \<noteq> TrimSpace (ar_EscrowAccountID refs)"
    using Transaction_Validate_postings [of "aw_Transaction r"] by (simp add: ValidatePostings_None account_key_def)
  moreover from r have "AcceptanceAccountRefs_validate refs = None" "\<not> IsZero t" "validID eid"
    "\<exists>e. buildEnvelope eid (w_ID w) ''wager'' 1 WagerAccepted (UTC t) (wagerAcceptedPayload w) = Inr e"
    by (auto simp: AcceptWager_def Let_def result_simps)
  ultimately show ?R
    using AcceptWager_Inr [OF r] env by (auto simp: AcceptanceAccountRefs_validate_def result_simps blank_def validID_def)
next
  assume R: ?R
  then have w: "Money_Validate (w_Stake w) = None" "0 < cents (w_Stake w)" "\<not> blank (w_ID w)"
    by (simp_all add: Wager_Validate_None)
  then obtain n where n: "Money_Negate (w_Stake w) = Inr n" using Money_Negate_total by fastforce
  have refs: "AcceptanceAccountRefs_validate refs = None"
    using R by (auto simp: AcceptanceAccountRefs_validate_def blank_def)
  have "ValidatePostings (m_Currency (w_Stake w)) [\<lparr>p_AccountID = ar_UserFundingAccountID refs, p_Amount = n\<rparr>,
      \<lparr>p_AccountID = ar_EscrowAccountID refs, p_Amount = w_Stake w\<rparr>] = None"
    using R w n by (intro ValidatePostings_pair(1)) auto
  then have txn: "Transaction_Validate \<lparr>t_Type = TransactionWagerAcceptance, t_Currency = m_Currency (w_Stake w),
             t_IdempotencyKey = acceptance_key (w_ID w), t_Actor = actor,
             t_SourceType = ''wager'', t_SourceID = w_ID w, t_Reason = [], t_ReversalOf = [],
             t_Postings = [\<lparr>p_AccountID = ar_UserFundingAccountID refs, p_Amount = n\<rparr>,
                           \<lparr>p_AccountID = ar_EscrowAccountID refs, p_Amount = w_Stake w\<rparr>]\<rparr> = None"
    using R w not_blank_start [of "''wager''"] not_blank_start [of "acceptance_key (w_ID w)"]
    by (simp add: Transaction_Validate_def Money_Validate_def acceptance_key_def space_runes_def)
  have "\<exists>e. buildEnvelope eid (w_ID w) ''wager'' 1 WagerAccepted (UTC t) (wagerAcceptedPayload w) = Inr e"
    using R not_blank_start [of "''wager''"]
    by (simp add: buildEnvelope_Inr wagerAcceptedPayload_def plain_key_def between_def byte_def event_types_def space_runes_def)
  then show ?L
    using R refs n txn by (auto simp: AcceptWager_def Let_def CanTransitionTo_from validID_blank)
qed


section \<open>Reductions, adjustments and keys\<close>

text \<open>Reducing a stake keeps the accepted odds, gives back exactly the
  difference out of escrow, and never raises the recorded profit.\<close>

lemma ReduceWager_refunds:
  assumes "ReduceWager w newStake actor reason refs t = Inr (w', refund, txn)" "priced w"
  shows "w_AcceptedOdds w' = w_AcceptedOdds w \<and> w_State w' = WagerAccepted'
    \<and> 0 < cents (w_Stake w') \<and> cents (w_Stake w') + cents refund = cents (w_Stake w) \<and> 0 < cents refund
    \<and> cents (w_PotentialProfit w') \<le> cents (w_PotentialProfit w)
    \<and> moved (t_Postings txn) (TrimSpace (vr_EscrowAccountID refs)) = - cents refund
    \<and> moved (t_Postings txn) (TrimSpace (vr_UserFundingAccountID refs)) = cents refund"
proof -
  note R = ReduceWager_Inr [OF assms(1)]
  from R(5) obtain p where p: "Odds_Profit (w_AcceptedOdds w) newStake = Inr p"
    and w': "w' = w\<lparr>w_Stake := newStake, w_PotentialProfit := p\<rparr>" by blast
  from assms(2) have q: "Odds_Profit (w_AcceptedOdds w) (w_Stake w) = Inr (w_PotentialProfit w)" by (simp add: priced_def)
  note ob = odds_valid_bounds [OF Odds_Profit_InrD(1) [OF p]]
  have "cents p \<le> cents (w_PotentialProfit w)"
    unfolding Odds_Profit_InrD(5) [OF p] Odds_Profit_InrD(5) [OF q]
    using ob R(4) by (intro round_half_up_mono mult_right_mono) simp_all
  with R w' show ?thesis by simp
qed

text \<open>C35 adjustment_reversal: a recorded settle-up can always be reversed by a named admin with a
  reason, and the reversal puts every balance of the book back.\<close>

theorem adjustment_reversal:
  assumes "RecordAdjustment c = Inr t" "\<not> blank tid" "\<not> blank actor" "\<not> blank reason"
  shows "\<exists>u. ReverseAdjustment t tid actor reason = Inr u \<and> post u (post t b) = b"
proof -
  have t: "Transaction_Validate t = None" "t_Type t = TransactionAdminAdjustment" "t_SourceID t = ad_AdjustmentID c"
      "\<not> blank (ad_AdjustmentID c)"
    using assms(1) by (auto simp: RecordAdjustment_def Let_def result_simps validID_blank)
  note P = Transaction_Validate_postings [OF t(1), unfolded ValidatePostings_None]
  have len: "length (t_Postings t) = 2"
    using assms(1) by (auto simp: RecordAdjustment_def Let_def result_simps)
  have neg: "list_all (\<lambda>p. Money_Validate (p_Amount p) = None \<and> m_Cents (p_Amount p) \<noteq> MinInt64) (t_Postings t)"
  proof -
    obtain m n where mn: "Money_Negate m = Inr n" "map p_Amount (t_Postings t) = [m, n]"
        "m = ad_Amount c \<or> Money_Negate (ad_Amount c) = Inr m" and pos: "0 < cents (ad_Amount c)"
      using assms(1) by (auto simp: RecordAdjustment_def Let_def result_simps split: if_splits)
    have b: "cents (ad_Amount c) \<le> 9223372036854775807" by (rule sint64_le)
    have "cents m \<noteq> - 9223372036854775808" "cents n \<noteq> - 9223372036854775808"
      using mn(1,3) pos b Money_Negate_cents by fastforce+
    then have "m_Cents m \<noteq> MinInt64" "m_Cents n \<noteq> MinInt64" by (auto simp: word64_eq_iff)
    moreover have "Money_Validate m = None" "Money_Validate n = None"
      using mn(1) Money_Negate_cents Money_Negate_Inr by blast+
    ultimately show ?thesis using mn(2) by (auto simp: list_all_iff map_eq_Cons_conv)
  qed
  from negate_postings_total [OF this] obtain qs where qs: "negate_postings (t_Postings t) = Inr qs" by blast
  note Q = negate_postings_Inr [OF qs]
  define u where "u = \<lparr>t_Type = TransactionReversal, t_Currency = t_Currency t,
             t_IdempotencyKey = ReversalIdempotencyKey (t_SourceID t), t_Actor = actor,
             t_SourceType = AdjustmentSourceType, t_SourceID = t_SourceID t, t_Reason = TrimSpace reason,
             t_ReversalOf = tid, t_Postings = qs\<rparr>"
  have "ValidatePostings (t_Currency t) qs = None"
  proof -
    obtain p1 p2 where ps: "t_Postings t = [p1, p2]" using len by (auto simp: numeral_2_eq_2 length_Suc_conv)
    then obtain n1 n2 where n: "Money_Negate (p_Amount p1) = Inr n1" "Money_Negate (p_Amount p2) = Inr n2"
      and qs': "qs = [\<lparr>p_AccountID = p_AccountID p1, p_Amount = n1\<rparr>, \<lparr>p_AccountID = p_AccountID p2, p_Amount = n2\<rparr>]"
      using qs by (auto simp: result_simps)
    have "in_int64 (cents n1)" "in_int64 0" by simp (simp add: in_int64_def)
    moreover have "- posted_cents p1 - posted_cents p2 = 0" using P by (simp add: ps)
    ultimately show ?thesis
      using P Money_Negate_cents [OF n(1)] Money_Negate_cents [OF n(2)]
      by (auto simp: ps qs' ValidatePostings_None well_posted_def account_key_def numeral_2_eq_2 le_Suc_eq)
  qed
  then have "Transaction_Validate u = None"
    using t assms P not_blank_start [of "ReversalIdempotencyKey (t_SourceID t)"] not_blank_start [of AdjustmentSourceType]
    by (simp add: u_def Transaction_Validate_def ReversalIdempotencyKey_def AdjustmentSourceType_def space_runes_def)
  then have "ReverseAdjustment t tid actor reason = Inr u"
    using t(2) assms(2-4) qs by (simp add: ReverseAdjustment_def Let_def validID_blank blank_def u_def)
  moreover have "post u (post t b) = b"
    using Q by (intro ext) (simp add: post_moved u_def)
  ultimately show ?thesis by blast
qed

lemma RecordAdjustment_moves:
  assumes "RecordAdjustment c = Inr t"
  shows "moved (t_Postings t) = (\<lambda>a.
     (if a = TrimSpace (adr_UserFundingAccountID (ad_Refs c)) then 1
      else if a = TrimSpace (adr_HouseClearingAccountID (ad_Refs c)) then - 1 else 0)
     * (if ad_Direction c = AdjustmentPayoutSent then - cents (ad_Amount c) else cents (ad_Amount c)))"
proof -
  obtain m n where mn: "Money_Negate m = Inr n" and ps:
      "t_Postings t = [\<lparr>p_AccountID = adr_UserFundingAccountID (ad_Refs c), p_Amount = m\<rparr>,
                       \<lparr>p_AccountID = adr_HouseClearingAccountID (ad_Refs c), p_Amount = n\<rparr>]"
      and m: "(if ad_Direction c = AdjustmentPayoutSent then Money_Negate (ad_Amount c) else Inr (ad_Amount c)) = Inr m"
      and v: "Transaction_Validate t = None"
    using assms by (auto simp: RecordAdjustment_def Let_def result_simps)
  have "TrimSpace (adr_UserFundingAccountID (ad_Refs c)) \<noteq> TrimSpace (adr_HouseClearingAccountID (ad_Refs c))"
    using Transaction_Validate_postings [OF v] by (simp add: ps ValidatePostings_None account_key_def)
  moreover have "cents m = (if ad_Direction c = AdjustmentPayoutSent then - cents (ad_Amount c) else cents (ad_Amount c))"
    using m Money_Negate_cents by (auto split: if_splits)
  ultimately show ?thesis
    using Money_Negate_cents [OF mn] by (intro ext) (simp add: ps account_key_def)
qed

text \<open>The ledger keys of the four money operations on wagers never meet: each
  key determines the operation, the wager, and the version or the reduced stake it was built for.\<close>

lemma wager_keys_distinct:
  "distinct [acceptance_key i, VoidIdempotencyKey j, ReduceIdempotencyKey k m, settlement_key l v]
   \<and> (acceptance_key i = acceptance_key j \<longleftrightarrow> i = j) \<and> (VoidIdempotencyKey i = VoidIdempotencyKey j \<longleftrightarrow> i = j)
   \<and> (ReduceIdempotencyKey i m = ReduceIdempotencyKey j n \<longleftrightarrow> i = j \<and> m = n)
   \<and> (settlement_key i v = settlement_key j u \<longleftrightarrow> i = j \<and> v = u)"
proof -
  have red: "ReduceIdempotencyKey i m = (''wager:'' @ i @ '':reduce'') @ CHR '':'' # decimal (sint m)" for i m
    by (simp add: ReduceIdempotencyKey_def)
  have set: "settlement_key i v = (''wager:'' @ i @ '':settlement:'') @ CHR ''v'' # decimal (sint v)" for i v
    by (simp add: settlement_key_def)
  have tail: "last (decimal x) \<in> decimal_chars" for x
    using decimal_in [of x] last_in_set [of "decimal x"] by auto
  have nd: "last (decimal x) \<noteq> CHR ''e'' \<and> last (decimal x) \<noteq> CHR ''d''" for x
    using tail [of x] by (auto simp: decimal_chars_def)
  have ends: "last (acceptance_key i) = CHR ''e''" "last (VoidIdempotencyKey j) = CHR ''d''"
    "last (ReduceIdempotencyKey k m) = last (decimal (sint m))" "last (settlement_key l v) = last (decimal (sint v))"
    for i j k l and m v :: int64
    by (simp_all add: acceptance_key_def VoidIdempotencyKey_def ReduceIdempotencyKey_def settlement_key_def)
  have d: "acceptance_key i \<noteq> VoidIdempotencyKey j" using ends(1) [of i] ends(2) [of j] by auto
  have d2: "acceptance_key i \<noteq> ReduceIdempotencyKey k m" using ends(1) [of i] ends(3) [of k m] nd [of "sint m"] by auto
  have d3: "acceptance_key i \<noteq> settlement_key l v" using ends(1) [of i] ends(4) [of l v] nd [of "sint v"] by auto
  have d4: "VoidIdempotencyKey j \<noteq> ReduceIdempotencyKey k m" using ends(2) [of j] ends(3) [of k m] nd [of "sint m"] by auto
  have d5: "VoidIdempotencyKey j \<noteq> settlement_key l v" using ends(2) [of j] ends(4) [of l v] nd [of "sint v"] by auto
  have rs: "ReduceIdempotencyKey k m \<noteq> settlement_key l v"
  proof
    assume "ReduceIdempotencyKey k m = settlement_key l v"
    from append_decimal_inj [OF this [unfolded red set]] show False by (simp add: decimal_chars_def)
  qed
  have r: "i = j \<and> m = n" if "ReduceIdempotencyKey i m = ReduceIdempotencyKey j n"
    using append_decimal_inj [OF that [unfolded red]] by (simp add: decimal_chars_def word64_eq_iff)
  show ?thesis
    using d d2 d3 d4 d5 rs r settlement_key_inj by (auto simp: acceptance_key_def VoidIdempotencyKey_def)
qed

end
