(* ===== verification/Repricing.thy ===== *)
theory Repricing
  imports Pricing
begin

text \<open>
  What \<open>Reprice\<close> guarantees: it returns exactly when its input is valid, every line it posts is a
  valid one within \<open>MaxOdds\<close>, a board nobody has bet on comes back as it was opened, and the
  loop of \<open>applyDriftFloors\<close> ends with no probability below its floor.
\<close>

section \<open>The drift floors\<close>

text \<open>
  An entry is settled when it is not below its floor. A scan settles every entry; the rescaling
  after it may unsettle the entries that are not clamped, and only those.
\<close>

definition drift_ok :: "drift \<Rightarrow> bool" where
  "drift_ok d = (case d of (p, f, clamped) \<Rightarrow> 0 < f \<and> (clamped \<longrightarrow> p = f))"

definition drift_settled :: "drift \<Rightarrow> bool" where
  "drift_settled d = (case d of (p, f, clamped) \<Rightarrow> f \<le> p)"

abbreviation drift_floor :: "drift \<Rightarrow> float64" where
  "drift_floor d \<equiv> fst (snd d)"

definition unclamped :: "drift list \<Rightarrow> nat" where
  "unclamped ds = length (filter (\<lambda>d. \<not> snd (snd d)) ds)"

lemma unclamped_simps [simp]:
  "unclamped [] = 0" "unclamped ((p, f, c) # ds) = (if c then unclamped ds else Suc (unclamped ds))"
  by (simp_all add: unclamped_def)

lemmas drift_defs = drift_ok_def drift_settled_def

lemma drift_scan_ok:
  "drift_scan ds fixed free newly = (r, rest) \<Longrightarrow> list_all drift_ok ds \<Longrightarrow>
     list_all drift_ok r \<and> list_all drift_settled r \<and> map drift_floor r = map drift_floor ds"
  by (induction ds fixed free newly arbitrary: r rest rule: drift_scan.induct)
    (auto simp: drift_defs split: if_splits prod.splits)

lemma drift_scan_unclamped:
  "drift_scan ds fixed free newly = (r, fixed', free', newly') \<Longrightarrow>
     unclamped r \<le> unclamped ds \<and> (newly' \<longleftrightarrow> newly \<or> unclamped r < unclamped ds)"
  by (induction ds fixed free newly arbitrary: r fixed' free' newly' rule: drift_scan.induct)
    (fastforce split: if_splits prod.splits)+

lemma drift_passes_settled:
  "list_all drift_ok ds \<Longrightarrow> unclamped ds \<le> n \<Longrightarrow>
     list_all drift_settled (drift_passes (Suc n) ds overround)
     \<and> map drift_floor (drift_passes (Suc n) ds overround) = map drift_floor ds"
proof (induction n arbitrary: ds)
  case 0
  obtain r fixed free newly where scan: "drift_scan ds 0 0 False = (r, fixed, free, newly)"
    by (metis prod_cases4)
  from drift_scan_unclamped [OF scan] 0 have "\<not> newly" by simp
  with scan drift_scan_ok [OF scan] 0 show ?case by simp
next
  case (Suc n)
  obtain r fixed free newly where scan: "drift_scan ds 0 0 False = (r, fixed, free, newly)"
    by (metis prod_cases4)
  note ok = drift_scan_ok [OF scan Suc.prems(1)]
  show ?case
  proof (cases "\<not> newly \<or> free \<le> 0")
    case True
    with ok scan show ?thesis by simp
  next
    case False
    define ds' where "ds' = map (drift_scale (fdiv (fsub overround fixed) free)) r"
    have "list_all drift_ok ds'"
      using ok by (auto simp: ds'_def list_all_iff drift_ok_def drift_scale_def split: prod.splits if_splits)
    moreover have "unclamped ds' = unclamped r"
      unfolding unclamped_def ds'_def filter_map length_map
      by (rule arg_cong [where f = length], rule filter_cong) (simp_all add: drift_scale_def case_prod_beta)
    then have "unclamped ds' \<le> n"
      using drift_scan_unclamped [OF scan] False Suc.prems(2) by simp
    moreover have "map drift_floor ds' = map drift_floor r"
      by (simp add: ds'_def drift_scale_def split: prod.splits)
    moreover have "drift_passes (Suc (Suc n)) ds overround = drift_passes (Suc n) ds' overround"
      using scan False by (simp add: ds'_def)
    ultimately show ?thesis using Suc.IH [of ds'] ok by (simp only:)
  qed
qed

lemma drift_passes_enough:
  "unclamped ds \<le> n \<Longrightarrow> drift_passes (Suc n + k) ds overround = drift_passes (Suc n) ds overround"
proof (induction n arbitrary: ds)
  case 0
  obtain r fixed free newly where scan: "drift_scan ds 0 0 False = (r, fixed, free, newly)" by (metis prod_cases4)
  from drift_scan_unclamped [OF scan] 0 have "\<not> newly" by simp
  with scan show ?case by simp
next
  case (Suc n)
  obtain r fixed free newly where scan: "drift_scan ds 0 0 False = (r, fixed, free, newly)" by (metis prod_cases4)
  show ?case
  proof (cases "\<not> newly \<or> free \<le> 0")
    case False
    let ?ds = "map (drift_scale (fdiv (fsub overround fixed) free)) r"
    have "unclamped ?ds = unclamped r"
      unfolding unclamped_def filter_map length_map
      by (rule arg_cong [where f = length], rule filter_cong) (simp_all add: drift_scale_def case_prod_beta)
    then have "unclamped ?ds \<le> n" using drift_scan_unclamped [OF scan] Suc.prems False by auto
    then show ?thesis using scan False Suc.IH [of ?ds] by simp
  qed (use scan in auto)
qed

text \<open>C39 drift_loop_ends: the passes that hold selections at their drift floors end by themselves. The bound of the loop, one
  pass per selection and one more, never cuts them off: with any number of further passes the result is the same.\<close>

theorem drift_loop_ends:
  "map fst (drift_passes (Suc (length probabilities) + k) (map (\<lambda>(p, f). (p, f, False)) (zip probabilities floors)) overround)
     = applyDriftFloors probabilities floors overround"
proof -
  let ?ds = "map (\<lambda>(p, f). (p, f, False)) (zip probabilities floors)"
  have "unclamped ?ds \<le> length probabilities"
    unfolding unclamped_def using length_filter_le [of "\<lambda>d. \<not> snd (snd d)" ?ds] by simp
  then show ?thesis by (simp only: applyDriftFloors_def drift_passes_enough)
qed

lemma applyDriftFloors_floors:
  assumes "length ps = length fs" "\<forall>f \<in> set fs. 0 < f"
  shows "list_all2 (\<le>) fs (applyDriftFloors ps fs overround)"
proof -
  define ds where "ds = map (\<lambda>(p, f). (p, f, False)) (zip ps fs)"
  define es where "es = drift_passes (Suc (length ps)) ds overround"
  have "list_all drift_ok ds"
    using assms by (auto simp: ds_def list_all_iff drift_ok_def dest: set_zip_rightD)
  moreover have "length ds = length ps"
    using assms(1) by (simp add: ds_def)
  then have "unclamped ds \<le> length ps"
    unfolding unclamped_def using length_filter_le [of "\<lambda>d. \<not> snd (snd d)" ds] by simp
  ultimately have es: "list_all drift_settled es" "map drift_floor es = map drift_floor ds"
    unfolding es_def by (simp_all only: drift_passes_settled)
  have "map drift_floor ds = fs"
    using assms(1) by (intro nth_equalityI) (simp_all add: ds_def)
  with es have "list_all2 (\<le>) (map drift_floor es) (map fst es)" "map drift_floor es = fs"
    by (auto simp: list_all2_conv_all_nth list_all_length drift_settled_def case_prod_beta)
  then show ?thesis by (simp add: applyDriftFloors_def es_def ds_def)
qed

section \<open>The overround and the floors it allows\<close>

definition reprice_valid :: "selection_input \<Rightarrow> bool" where
  "reprice_valid s \<longleftrightarrow> Odds_Validate (si_OpeningOdds s) = None \<and> 0 \<le> sint (si_StakeCents s)"

abbreviation priors_of :: "selection_input list \<Rightarrow> float64 list" where
  "priors_of ss \<equiv> map (\<lambda>s. ImpliedProbability (si_OpeningOdds s)) ss"

lemma reprice_priors_Inr:
  "reprice_priors ss a = Inr r \<longleftrightarrow> list_all reprice_valid ss \<and> r = (priors_of ss, foldl fadd a (priors_of ss))"
  by (induction ss arbitrary: a r)
    (auto simp: result_simps Let_def reprice_valid_def split: prod.splits)

lemma foldl_fadd_pos:
  "\<forall>x \<in> set xs. 0 < x \<Longrightarrow> 0 < a \<Longrightarrow> fl a = a \<Longrightarrow>
     0 < foldl fadd a xs \<and> fl (foldl fadd a xs) = foldl fadd a xs"
  by (induction xs arbitrary: a) (simp_all add: fadd_def fl_pos)

lemma fsum_pos:
  assumes "\<forall>x \<in> set xs. 0 < x" "xs \<noteq> []"
  shows "0 < fsum xs" "fl (fsum xs) = fsum xs"
proof -
  obtain y ys where "xs = y # ys" using assms(2) by (cases xs) auto
  with assms(1) foldl_fadd_pos [of ys "fadd 0 y"] show "0 < fsum xs" "fl (fsum xs) = fsum xs"
    by (simp_all add: fsum_def fadd_def fl_pos)
qed

definition drift_fraction :: "float64 \<Rightarrow> float64" where
  "drift_fraction overround =
    (let f = fmul (fdiv (fsub overround 1) overround) (fl (8 / 10)) in if f < 0 then 0 else f)"

lemma driftFloors_eq: "driftFloors priors ov = map (\<lambda>p. fmul p (fsub 1 (drift_fraction ov))) priors"
  by (simp add: driftFloors_def drift_fraction_def Let_def)

lemma drift_fraction_bounds:
  assumes "0 < ov" "fl ov = ov"
  shows "0 \<le> drift_fraction ov" "drift_fraction ov < 9 / 10"
proof -
  have "fsub ov 1 \<le> ov" using assms fl_mono [of "ov - 1" ov] by (simp add: fsub_def)
  then have "fsub ov 1 / ov \<le> 1" using assms(1) by simp
  then have "fdiv (fsub ov 1) ov \<le> 1" using fl_mono [of "fsub ov 1 / ov" 1] by (simp add: fdiv_def)
  then have "fdiv (fsub ov 1) ov * fl (8 / 10) \<le> 1 * fl (8 / 10)"
    using fl_pos [of "8 / 10"] by (intro mult_right_mono) simp_all
  then have "fmul (fdiv (fsub ov 1) ov) (fl (8 / 10)) \<le> fl (8 / 10)"
    using fl_mono by (fastforce simp: fmul_def)
  moreover have "fl (8 / 10) < 9 / 10" using fl_upper [of "8 / 10"] by simp
  ultimately show "0 \<le> drift_fraction ov" "drift_fraction ov < 9 / 10"
    by (auto simp: drift_fraction_def Let_def)
qed

lemma drift_keep_bounds:
  assumes "0 < ov" "fl ov = ov"
  shows "0 < fsub 1 (drift_fraction ov)" "fsub 1 (drift_fraction ov) \<le> 1"
  using drift_fraction_bounds [OF assms] fl_pos [of "1 - drift_fraction ov"]
    fl_mono [of "1 - drift_fraction ov" 1] by (simp_all add: fsub_def)

lemma ImpliedProbability_float: "fl (ImpliedProbability o') = ImpliedProbability o'"
  by (simp add: ImpliedProbability_def Let_def fdiv_def)


lemma priors_pos: "list_all reprice_valid ss \<Longrightarrow> \<forall>x \<in> set (priors_of ss). 0 < x"
  by (auto simp: list_all_iff reprice_valid_def intro: ImpliedProbability_bounds)

lemma driftFloors_pos:
  assumes "list_all reprice_valid ss" "ss \<noteq> []"
  shows "\<forall>f \<in> set (driftFloors (priors_of ss) (fsum (priors_of ss))). 0 < f"
  using priors_pos [OF assms(1)] drift_keep_bounds(1) [OF fsum_pos [of "priors_of ss"]] assms(2)
  by (auto simp: driftFloors_eq fmul_def intro!: fl_pos)

section \<open>The whole routine\<close>

lemma reprice_results_Inr:
  "\<exists>os. reprice_results ps fs = Inr os \<and> length os = min (length ps) (length fs) \<and> list_all in_window os"
proof (induction ps fs rule: reprice_results.induct)
  case (1 p ps f fs)
  obtain o' where "AmericanFromProbability p = Inr o'" "in_window o'"
    using AmericanFromProbability_window [of p] by blast
  with 1 round_back_window show ?case by auto
qed simp_all

text \<open>The vectors of the routine, named: weights, targets before and after the floors.\<close>

definition reprice_weights :: "(float64 \<Rightarrow> float64) \<Rightarrow> selection_input list \<Rightarrow> int64 \<Rightarrow> float64 list" where
  "reprice_weights exp64 ss liq =
    map2 (reprice_weight exp64 (fl (of_int (sint liq)))) ss (priors_of ss)"

definition reprice_targets :: "(float64 \<Rightarrow> float64) \<Rightarrow> selection_input list \<Rightarrow> int64 \<Rightarrow> float64 list" where
  "reprice_targets exp64 ss liq =
    (let weights = reprice_weights exp64 ss liq; overround = fsum (priors_of ss)
     in applyDriftFloors (map (\<lambda>w. fmul w (fdiv overround (fsum weights))) weights)
          (driftFloors (priors_of ss) overround) overround)"

lemma Reprice_eq:
  "2 \<le> length ss \<Longrightarrow> 0 < sint liq \<Longrightarrow> list_all reprice_valid ss \<Longrightarrow>
    Reprice exp64 ss liq =
      reprice_results (reprice_targets exp64 ss liq) (driftFloors (priors_of ss) (fsum (priors_of ss)))"
  using reprice_priors_Inr [of ss 0 "(priors_of ss, fsum (priors_of ss))"]
  by (simp add: Reprice_def reprice_targets_def reprice_weights_def Let_def fsum_def [of "priors_of ss"])

lemma Reprice_InrD:
  "Reprice exp64 ss liq = Inr os \<Longrightarrow> 2 \<le> length ss \<and> 0 < sint liq \<and> list_all reprice_valid ss"
  by (simp add: Reprice_def result_simps reprice_priors_Inr split: prod.splits)

lemma reprice_targets_floors:
  assumes "list_all reprice_valid ss" "ss \<noteq> []"
  shows "list_all2 (\<le>) (driftFloors (priors_of ss) (fsum (priors_of ss))) (reprice_targets exp64 ss liq)"
  unfolding reprice_targets_def Let_def
  by (rule applyDriftFloors_floors [OF _ driftFloors_pos [OF assms]])
    (simp add: reprice_weights_def driftFloors_eq)

lemma Reprice_window:
  assumes "2 \<le> length ss" "0 < sint liq" "list_all reprice_valid ss"
  shows "\<exists>os. Reprice exp64 ss liq = Inr os \<and> length os = length ss \<and> list_all in_window os"
proof -
  have "ss \<noteq> []" using assms(1) by auto
  from list_all2_lengthD [OF reprice_targets_floors [OF assms(3) this, of exp64 liq]]
  have "length (reprice_targets exp64 ss liq) = length ss" by (simp add: driftFloors_eq)
  with reprice_results_Inr [of "reprice_targets exp64 ss liq" "driftFloors (priors_of ss) (fsum (priors_of ss))"]
  show ?thesis by (simp add: Reprice_eq [OF assms] driftFloors_eq)
qed

section \<open>A board nobody has bet on\<close>

lemma drift_scan_idle:
  "list_all drift_settled ds \<Longrightarrow> list_all (\<lambda>d. \<not> snd (snd d)) ds \<Longrightarrow>
     \<exists>fixed' free'. drift_scan ds fixed free False = (ds, fixed', free', False)"
  by (induction ds fixed free False rule: drift_scan.induct)
    (auto simp: drift_settled_def)

lemma applyDriftFloors_idle:
  assumes "list_all2 (\<le>) fs ps"
  shows "applyDriftFloors ps fs overround = ps"
proof -
  let ?ds = "map (\<lambda>(p, f). (p, f, False)) (zip ps fs)"
  have len: "length ps = length fs" using list_all2_lengthD [OF assms] by simp
  have "list_all drift_settled ?ds" "list_all (\<lambda>d. \<not> snd (snd d)) ?ds"
    using assms len by (auto simp: list_all_length list_all2_conv_all_nth drift_settled_def)
  then obtain fixed free where "drift_scan ?ds 0 0 False = (?ds, fixed, free, False)"
    using drift_scan_idle by blast
  then show ?thesis
    using len by (simp add: applyDriftFloors_def comp_def case_prod_beta)
qed

lemma reprice_results_idle:
  "\<forall>s \<in> set ss. in_window (si_OpeningOdds s) \<and> si_OpeningOdds s \<noteq> - 100 \<Longrightarrow>
   list_all2 (\<le>) fs (priors_of ss) \<Longrightarrow> reprice_results (priors_of ss) fs = Inr (map si_OpeningOdds ss)"
proof (induction ss arbitrary: fs)
  case (Cons s ss)
  obtain f gs where fs: "fs = f # gs" "f \<le> ImpliedProbability (si_OpeningOdds s)"
      "list_all2 (\<le>) gs (priors_of ss)"
    using Cons.prems(2) by (auto simp: list_all2_Cons2)
  have "round_back maxRoundingSteps (si_OpeningOdds s) f = si_OpeningOdds s"
    using fs(2) by (simp add: maxRoundingSteps_def eval_nat_numeral)
  with Cons fs show ?case by (simp add: AmericanFromProbability_implied)
qed simp

lemma fmul_one: "fl p = p \<Longrightarrow> fmul p 1 = p"
  by (simp add: fmul_def)

lemma reprice_weights_idle:
  "exp64 0 = 1 \<Longrightarrow> \<forall>s \<in> set ss. si_StakeCents s = 0 \<Longrightarrow> reprice_weights exp64 ss liq = priors_of ss"
  unfolding reprice_weights_def
  by (induction ss)
    (simp_all add: reprice_weight_def Let_def fdiv_def maxTiltExponent_def fmul_one ImpliedProbability_float)

lemma Reprice_idle:
  assumes "exp64 0 = 1" "2 \<le> length ss" "0 < sint liq"
    and "\<forall>s \<in> set ss. si_StakeCents s = 0 \<and> in_window (si_OpeningOdds s) \<and> si_OpeningOdds s \<noteq> - 100"
  shows "Reprice exp64 ss liq = Inr (map si_OpeningOdds ss)"
proof -
  let ?ps = "priors_of ss" and ?ov = "fsum (priors_of ss)"
  have valid: "list_all reprice_valid ss" and ne: "?ps \<noteq> []"
    using assms(2,4) by (auto simp: list_all_iff reprice_valid_def in_window_valid)
  note ov = fsum_pos [OF priors_pos [OF valid] ne]
  have "fdiv ?ov ?ov = 1" using ov by (simp add: fdiv_def)
  moreover have "map (\<lambda>w. fmul w 1) ?ps = ?ps" by (simp add: fmul_one ImpliedProbability_float)
  moreover have "reprice_weights exp64 ss liq = ?ps" using assms(1,4) by (simp add: reprice_weights_idle)
  ultimately have targets: "reprice_targets exp64 ss liq = applyDriftFloors ?ps (driftFloors ?ps ?ov) ?ov"
    unfolding reprice_targets_def Let_def by (simp only:)
  have "fmul (ImpliedProbability o') (fsub 1 (drift_fraction ?ov)) \<le> ImpliedProbability o'"
    if "Odds_Validate o' = None" for o'
  proof -
    have "ImpliedProbability o' * fsub 1 (drift_fraction ?ov) \<le> ImpliedProbability o' * 1"
      using ImpliedProbability_bounds [OF that] drift_keep_bounds [OF ov] by (intro mult_left_mono) simp_all
    from fl_mono [OF this] show ?thesis by (simp add: fmul_def ImpliedProbability_float)
  qed
  then have floors: "list_all2 (\<le>) (driftFloors ?ps ?ov) ?ps"
    using assms(4) by (auto simp: driftFloors_eq list_all2_conv_all_nth in_window_valid)
  show ?thesis
    unfolding Reprice_eq [OF assms(2,3) valid] targets applyDriftFloors_idle [OF floors]
    using assms(4) floors by (intro reprice_results_idle) simp_all
qed

end
