(* ===== verification/Betting_Parlay.thy ===== *)
theory Betting_Parlay
  imports Betting_Place Repricing
begin

text \<open>
  \<open>internal/betting/parlay.go\<close> and \<open>parlayprice.go\<close>: the price of a parlay, its placement and its
  grading; and from \<open>internal/bettingpg/parlay.go\<close> the part of \<open>settleParlayIfCompleteTx\<close> between
  the loading of its inputs and the writing of its results, which decides whether a parlay is
  settled and builds its ledger transaction.
\<close>

section \<open>The price\<close>

definition DefaultParlayJuiceBasisPoints :: int64 where
  "DefaultParlayJuiceBasisPoints = 350"

definition MinParlayLegs :: nat where
  "MinParlayLegs = 2"

definition MaxParlayLegs :: nat where
  "MaxParlayLegs = 8"

definition MinParlayOdds :: american_odds where
  "MinParlayOdds = 100"

fun parlay_probability :: "american_odds list \<Rightarrow> float64 \<Rightarrow> betting_error + float64" where
  \<comment> \<open>the first loop of \<open>ParlayOddsFor\<close>\<close>
  "parlay_probability [] probability = Inr probability"
| "parlay_probability (leg # legs) probability =
    (case Odds_Validate leg of Some e \<Rightarrow> Inl (BettingLedger e)
     | None \<Rightarrow> parlay_probability legs (fmul probability (ImpliedProbability leg)))"

definition juice_factor :: "int64 \<Rightarrow> float64" where
  "juice_factor juiceBasisPoints = fadd 1 (fdiv (fl (of_int (sint juiceBasisPoints))) 10000)"

definition ParlayOddsFor :: "american_odds list \<Rightarrow> int64 \<Rightarrow> betting_error + american_odds" where
  "ParlayOddsFor legs juiceBasisPoints =
    (if length legs < MinParlayLegs then Inl ErrParlayTooFewLegs
     else if length legs > MaxParlayLegs then Inl ErrParlayTooManyLegs
     else if sint juiceBasisPoints < 0 then Inl ErrInvalid
     else case parlay_probability legs 1 of Inl e \<Rightarrow> Inl e
     | Inr combined \<Rightarrow>
       let probability = ((\<lambda>p. fmul p (juice_factor juiceBasisPoints)) ^^ (length legs - 1)) combined
       in if probability \<le> 0 \<or> probability \<ge> 1 then Inl ErrParlayTooShort
     else case AmericanFromProbability probability of Inl e \<Rightarrow> Inl (BettingPricing e)
     | Inr odds \<Rightarrow> if sint odds < sint MinParlayOdds then Inl ErrParlayTooShort else Inr odds)"

section \<open>Placement\<close>

record parlay_leg =
  l_MarketID :: ID
  l_SelectionID :: ID
  l_AcceptedOdds :: american_odds
  l_AcceptedTerms :: string
  l_MarketTitle :: string
  l_Result :: settlement_result

record parlay =
  pa_ID :: ID
  pa_UserID :: ID
  pa_FundingAccountType :: funding_account_type
  pa_Stake :: money
  pa_AcceptedOdds :: american_odds
  pa_PotentialProfit :: money
  pa_Legs :: "parlay_leg list"
  pa_State :: wager_state
  pa_IdempotencyKey :: string
  pa_PlacedBy :: ID
  pa_PlacedAt :: go_time

record place_parlay_command =
  pp_ParlayID :: ID
  pp_UserID :: ID
  pp_Markets :: "market list"
  pp_Selections :: "selection list"
  pp_Restrictions :: "restriction list"
  pp_JuiceBasisPoints :: int64
  pp_MaxPayoutCents :: int64
  pp_PlacedBy :: ID
  pp_FundingAccountType :: funding_account_type
  pp_Stake :: money
  pp_IdempotencyKey :: string
  pp_Now :: go_time

definition no_result :: settlement_result where
  \<comment> \<open>the zero value of \<open>SettlementResult\<close>: a leg whose market has not settled\<close>
  "no_result = ResultOther []"

text \<open>One round of the loop over the legs: the guards, then the leg.\<close>

definition place_leg ::
  "place_parlay_command \<Rightarrow> ID list \<Rightarrow> market \<Rightarrow> selection \<Rightarrow> betting_error + parlay_leg" where
  "place_leg c seenMarkets market selection =
    (let now = UTC (pp_Now c)
     in case Market_Validate market of Some e \<Rightarrow> Inl e
     | None \<Rightarrow> case Selection_Validate selection of Some e \<Rightarrow> Inl e
     | None \<Rightarrow> if s_MarketID selection \<noteq> mk_ID market then Inl ErrSelectionMismatch
     else if mk_Type market \<noteq> MarketMatch then Inl ErrParlayMarketNotEligible
     else if mk_ID market \<in> set seenMarkets then Inl ErrParlayDuplicateMarket
     else if mk_State market \<noteq> MarketOpen then Inl ErrMarketNotOpen
     else if \<not> IsZero (mk_OpensAt market) \<and> Before now (mk_OpensAt market) then Inl ErrMarketNotOpen
     else if \<not> Before now (mk_ClosesAt market) then Inl ErrMarketNotOpen
     else if \<not> s_Active selection then Inl ErrSelectionInactive
     else if list_ex (\<lambda>r. Restricts r (pp_UserID c) (s_ID selection)) (pp_Restrictions c) then Inl ErrUserRestricted
     else if m_Currency (pp_Stake c) \<noteq> mk_Currency market then Inl (BettingLedger ErrCurrencyMismatch)
     else Inr \<lparr>l_MarketID = mk_ID market, l_SelectionID = s_ID selection,
               l_AcceptedOdds = s_OfferedAmericanOdds selection, l_AcceptedTerms = s_DisplayTerms selection,
               l_MarketTitle = mk_Title market, l_Result = no_result\<rparr>)"

fun place_legs ::
  "place_parlay_command \<Rightarrow> ID list \<Rightarrow> (market \<times> selection) list \<Rightarrow> betting_error + parlay_leg list" where
  "place_legs c seenMarkets [] = Inr []"
| "place_legs c seenMarkets ((market, selection) # rest) =
    (case place_leg c seenMarkets market selection of Inl e \<Rightarrow> Inl e
     | Inr leg \<Rightarrow> case place_legs c (mk_ID market # seenMarkets) rest of Inl e \<Rightarrow> Inl e
     | Inr legs \<Rightarrow> Inr (leg # legs))"

definition PlaceParlay :: "place_parlay_command \<Rightarrow> betting_error + parlay" where
  "PlaceParlay c =
    (if \<not> validID (pp_ParlayID c) \<or> \<not> validID (pp_UserID c) then Inl ErrInvalid
     else if length (pp_Markets c) \<noteq> length (pp_Selections c) then Inl ErrInvalid
     else if length (pp_Markets c) < MinParlayLegs then Inl ErrParlayTooFewLegs
     else if length (pp_Markets c) > MaxParlayLegs then Inl ErrParlayTooManyLegs
     else if IsZero (pp_Now c) then Inl ErrInvalid
     else case FundingAccountType_Validate (pp_FundingAccountType c) of Some e \<Rightarrow> Inl e
     | None \<Rightarrow> case Money_Validate (pp_Stake c) of Some e \<Rightarrow> Inl (BettingLedger e)
     | None \<Rightarrow> if sint (m_Cents (pp_Stake c)) \<le> 0 then Inl ErrInvalid
     else if TrimSpace (pp_IdempotencyKey c) = [] then Inl ErrInvalid
     else case place_legs c [] (zip (pp_Markets c) (pp_Selections c)) of Inl e \<Rightarrow> Inl e
     | Inr legs \<Rightarrow> case ParlayOddsFor (map l_AcceptedOdds legs) (pp_JuiceBasisPoints c) of Inl e \<Rightarrow> Inl e
     | Inr price \<Rightarrow> case Odds_Profit price (pp_Stake c) of Inl e \<Rightarrow> Inl (BettingLedger e)
     | Inr profit \<Rightarrow> if sint (m_Cents profit) \<le> 0 then Inl ErrInvalid
     else if sint (pp_MaxPayoutCents c) > 0 \<and> sint (m_Cents profit) > sint (pp_MaxPayoutCents c)
       then Inl ErrPayoutAboveLimit
     else Inr \<lparr>pa_ID = pp_ParlayID c, pa_UserID = pp_UserID c,
           pa_FundingAccountType = pp_FundingAccountType c, pa_Stake = pp_Stake c,
           pa_AcceptedOdds = price, pa_PotentialProfit = profit, pa_Legs = legs, pa_State = WagerPending,
           pa_IdempotencyKey = TrimSpace (pp_IdempotencyKey c), pa_PlacedBy = pp_PlacedBy c,
           pa_PlacedAt = UTC (pp_Now c)\<rparr>)"

section \<open>Grading\<close>

record parlay_outcome =
  po_Result :: settlement_result
  po_Odds :: american_odds
  po_Stake :: money
  po_Profit :: money
  po_Returns :: money

definition survivingPrice :: "american_odds list \<Rightarrow> int64 \<Rightarrow> betting_error + american_odds" where
  "survivingPrice surviving juiceBasisPoints =
    (if length surviving = 1 then Inr (hd surviving) else ParlayOddsFor surviving juiceBasisPoints)"

text \<open>The loop over the legs: the surviving prices, \<open>None\<close> for the early return on a losing leg.\<close>

fun grade_legs :: "parlay_leg list \<Rightarrow> american_odds list \<Rightarrow> betting_error + american_odds list option" where
  "grade_legs [] surviving = Inr (Some surviving)"
| "grade_legs (leg # legs) surviving =
    (case l_Result leg of
       ResultWin \<Rightarrow> grade_legs legs (surviving @ [l_AcceptedOdds leg])
     | ResultLoss \<Rightarrow> Inr None
     | ResultPush \<Rightarrow> grade_legs legs surviving
     | ResultVoid \<Rightarrow> grade_legs legs surviving
     | ResultOther s \<Rightarrow> Inl ErrInvalid)"

definition GradeParlay :: "parlay \<Rightarrow> int64 \<Rightarrow> betting_error + parlay_outcome" where
  "GradeParlay p juiceBasisPoints =
    (let zero = \<lparr>m_Cents = 0, m_Currency = m_Currency (pa_Stake p)\<rparr>
     in if pa_Legs p = [] then Inl ErrInvalid
     else case grade_legs (pa_Legs p) [] of Inl e \<Rightarrow> Inl e
     | Inr None \<Rightarrow> Inr \<lparr>po_Result = ResultLoss, po_Odds = pa_AcceptedOdds p, po_Stake = pa_Stake p,
                       po_Profit = zero, po_Returns = zero\<rparr>
     | Inr (Some surviving) \<Rightarrow>
       if surviving = []
       then Inr \<lparr>po_Result = ResultPush, po_Odds = pa_AcceptedOdds p, po_Stake = pa_Stake p,
                 po_Profit = zero, po_Returns = pa_Stake p\<rparr>
       else case survivingPrice surviving juiceBasisPoints of Inl e \<Rightarrow> Inl e
       | Inr price \<Rightarrow> case Odds_Profit price (pa_Stake p) of Inl e \<Rightarrow> Inl (BettingLedger e)
       | Inr profit \<Rightarrow> case Money_Add (pa_Stake p) profit of Inl e \<Rightarrow> Inl (BettingLedger e)
       | Inr returns \<Rightarrow> Inr \<lparr>po_Result = ResultWin, po_Odds = price, po_Stake = pa_Stake p,
                           po_Profit = profit, po_Returns = returns\<rparr>)"

section \<open>Settling\<close>

definition parlay_key :: "ID \<Rightarrow> string" where
  "parlay_key i = ''parlay:'' @ i @ '':settlement''"

definition void_open_legs :: "parlay \<Rightarrow> parlay" where
  \<comment> \<open>a dead parlay grades on what is known: its open legs count as void\<close>
  "void_open_legs p = p\<lparr>pa_Legs := map (\<lambda>l. if l_Result l = no_result then l\<lparr>l_Result := ResultVoid\<rparr> else l) (pa_Legs p)\<rparr>"

definition parlay_postings ::
  "parlay_outcome \<Rightarrow> string \<Rightarrow> string \<Rightarrow> string \<Rightarrow> betting_error + (transaction_type \<times> posting list)" where
  "parlay_postings outcome userAccountID escrowAccountID houseAccountID =
    (case Money_Negate (po_Stake outcome) of Inl e \<Rightarrow> Inl (BettingLedger e)
     | Inr negatedStake \<Rightarrow>
       case po_Result outcome of
         ResultWin \<Rightarrow> (case Money_Negate (po_Profit outcome) of Inl e \<Rightarrow> Inl (BettingLedger e)
           | Inr negatedProfit \<Rightarrow> Inr (TransactionWagerWin,
               [\<lparr>p_AccountID = escrowAccountID, p_Amount = negatedStake\<rparr>,
                \<lparr>p_AccountID = houseAccountID, p_Amount = negatedProfit\<rparr>,
                \<lparr>p_AccountID = userAccountID, p_Amount = po_Returns outcome\<rparr>]))
       | ResultLoss \<Rightarrow> Inr (TransactionWagerLoss,
               [\<lparr>p_AccountID = escrowAccountID, p_Amount = negatedStake\<rparr>,
                \<lparr>p_AccountID = houseAccountID, p_Amount = po_Stake outcome\<rparr>])
       | _ \<Rightarrow> Inr (TransactionWagerRefund,
               [\<lparr>p_AccountID = escrowAccountID, p_Amount = negatedStake\<rparr>,
                \<lparr>p_AccountID = userAccountID, p_Amount = po_Stake outcome\<rparr>]))"

definition settleParlayIfComplete ::
  "parlay \<Rightarrow> int64 \<Rightarrow> string \<Rightarrow> string \<Rightarrow> string \<Rightarrow> betting_error + (parlay_outcome \<times> transaction) option" where
  \<comment> \<open>\<open>Inr None\<close>: some leg is still open, nothing to do yet\<close>
  "settleParlayIfComplete p0 juice userAccountID escrowAccountID houseAccountID =
    (let open' = length (filter (\<lambda>l. l_Result l = no_result) (pa_Legs p0));
         lost = list_ex (\<lambda>l. l_Result l = ResultLoss) (pa_Legs p0)
     in if open' > 0 \<and> \<not> lost then Inr None
     else let p = (if lost then void_open_legs p0 else p0)
     in case GradeParlay p juice of Inl e \<Rightarrow> Inl e
     | Inr outcome \<Rightarrow> case parlay_postings outcome userAccountID escrowAccountID houseAccountID of Inl e \<Rightarrow> Inl e
     | Inr (transactionType, postings) \<Rightarrow>
       let txn = \<lparr>t_Type = transactionType, t_Currency = m_Currency (pa_Stake p),
             t_IdempotencyKey = parlay_key (pa_ID p), t_Actor = ''system:parlay-settlement'',
             t_SourceType = ''parlay'', t_SourceID = pa_ID p, t_Reason = [], t_ReversalOf = [],
             t_Postings = postings\<rparr>
       in case Transaction_Validate txn of Some e \<Rightarrow> Inl (BettingLedger e)
       | None \<Rightarrow> Inr (Some (outcome, txn)))"

end
