(* ===== verification/Parlays.thy ===== *)
theory Parlays
  imports Betting_Parlay Settlement
begin

text \<open>
  What parlays guarantee: the window and the monotonicity of their price, what placement snapshots,
  how the results of the legs decide the bet, what the settlement transaction moves, and the two
  inputs on which a decided parlay cannot be settled.
\<close>

section \<open>The price\<close>

lemma math_Round_mono: "0 \<le> x \<Longrightarrow> x \<le> y \<Longrightarrow> math_Round x \<le> math_Round y"
  by (simp add: math_Round_def floor_mono)

lemma underdog_line_antimono:
  assumes "0 < p" "p \<le> q" "q \<le> 1"
  shows "underdog_line q \<le> underdog_line p"
proof -
  have sub: "0 \<le> fsub 1 q" "fsub 1 q \<le> fsub 1 p"
    using assms fl_mono [of 0 "1 - q"] fl_mono [of "1 - q" "1 - p"] by (simp_all add: fsub_def fl_def)
  have mul: "0 \<le> fmul 100 (fsub 1 q)" "fmul 100 (fsub 1 q) \<le> fmul 100 (fsub 1 p)"
    using sub fl_mono [of 0 "100 * fsub 1 q"] fl_mono [of "100 * fsub 1 q" "100 * fsub 1 p"]
    by (simp_all add: fmul_def fl_def [of 0])
  have "fmul 100 (fsub 1 q) / q \<le> fmul 100 (fsub 1 p) / p"
    using mul assms by (intro frac_le) simp_all
  then have "fdiv (fmul 100 (fsub 1 q)) q \<le> fdiv (fmul 100 (fsub 1 p)) p" by (simp add: fdiv_def fl_mono)
  moreover have "0 \<le> fdiv (fmul 100 (fsub 1 q)) q"
    using mul(1) assms fl_mono [of 0 "fmul 100 (fsub 1 q) / q"] by (simp add: fdiv_def fl_def [of 0])
  ultimately show ?thesis unfolding underdog_line_def by (intro math_Round_mono)
qed

lemma clamp_probability_mono: "p \<le> q \<Longrightarrow> clamp_probability p \<le> clamp_probability q"
  by (auto simp: clamp_probability_def)

lemma clamp_probability_pos: "0 < clamp_probability p"
  using fl_pos [of "100 / 10100"] fl_pos [of "10000 / 10100"] by (simp add: clamp_probability_def)

lemma AmericanFromProbability_antimono:
  assumes "p \<le> q" "AmericanFromProbability p = Inr a" "AmericanFromProbability q = Inr b" "0 < sint b"
  shows "sint b \<le> sint a"
proof -
  have q: "clamp_probability q \<le> 1 / 2" using AmericanFromProbability_window [of q] assms(3,4) by auto
  then have p: "clamp_probability p \<le> 1 / 2" using clamp_probability_mono [OF assms(1)] by linarith
  have "underdog_line (clamp_probability q) \<le> underdog_line (clamp_probability p)"
    using q clamp_probability_mono [OF assms(1)] clamp_probability_pos by (intro underdog_line_antimono) auto
  moreover have "a = word_of_int (min 10000 (max 100 (underdog_line (clamp_probability p))))"
    "b = word_of_int (min 10000 (max 100 (underdog_line (clamp_probability q))))"
    using assms(2,3) p q by (simp_all add: AmericanFromProbability_eq Let_def)
  ultimately show ?thesis by (simp add: sint32_of_int)
qed

lemma parlay_probability_pos:
  "parlay_probability legs a = Inr p \<Longrightarrow> 0 < a \<Longrightarrow> 0 < p"
proof (induction legs arbitrary: a)
  case (Cons leg legs)
  then have v: "Odds_Validate leg = None" and rest: "parlay_probability legs (fmul a (ImpliedProbability leg)) = Inr p"
    by (auto simp: result_simps)
  have "0 < fmul a (ImpliedProbability leg)"
    using Cons.prems(2) ImpliedProbability_bounds(1) [OF v] by (simp add: fmul_def fl_pos)
  with Cons.IH [OF rest] show ?case .
qed simp

lemma fmul_power_mono:
  assumes "0 \<le> x" "0 \<le> f" "f \<le> g"
  shows "0 \<le> ((\<lambda>p. fmul p f) ^^ n) x \<and> ((\<lambda>p. fmul p f) ^^ n) x \<le> ((\<lambda>p. fmul p g) ^^ n) x"
proof (induction n)
  case (Suc n)
  let ?a = "((\<lambda>p. fmul p f) ^^ n) x" and ?b = "((\<lambda>p. fmul p g) ^^ n) x"
  have "?a * f \<le> ?b * g" using Suc assms by (intro mult_mono) auto
  moreover have "0 \<le> ?a * f" using Suc assms by simp
  ultimately show ?case using fl_mono [of "?a * f" "?b * g"] fl_mono [of 0 "?a * f"] by (simp add: fmul_def fl_def [of 0])
qed (use assms in simp)

lemma juice_factor_mono: "0 \<le> sint i \<Longrightarrow> sint i \<le> sint j \<Longrightarrow> 0 \<le> juice_factor i \<and> juice_factor i \<le> juice_factor j"
proof -
  assume ij: "0 \<le> sint i" "sint i \<le> sint j"
  have "fl (of_int (sint i)) \<le> fl (of_int (sint j))" using ij by (intro fl_mono) simp
  then have "fdiv (fl (of_int (sint i))) 10000 \<le> fdiv (fl (of_int (sint j))) 10000"
    by (simp add: fdiv_def fl_mono divide_right_mono)
  then have "juice_factor i \<le> juice_factor j" by (simp add: juice_factor_def fadd_def fl_mono)
  moreover have "0 \<le> fl (of_int (sint i))" using ij fl_mono [of 0 "of_int (sint i)"] by (simp add: fl_def [of 0])
  then have "0 \<le> fdiv (fl (of_int (sint i))) 10000"
    using fl_mono [of 0 "fl (of_int (sint i)) / 10000"] by (simp add: fdiv_def fl_def [of 0])
  then have "0 \<le> juice_factor i" using fl_mono [of 0 "1 + fdiv (fl (of_int (sint i))) 10000"]
    by (simp add: juice_factor_def fadd_def fl_def [of 0])
  ultimately show ?thesis by simp
qed

lemma ParlayOddsFor_Inr:
  assumes "ParlayOddsFor legs j = Inr odds"
  shows "2 \<le> length legs" "length legs \<le> 8" "0 \<le> sint j" "list_all (\<lambda>l. Odds_Validate l = None) legs"
    "\<exists>c. parlay_probability legs 1 = Inr c
       \<and> AmericanFromProbability (((\<lambda>p. fmul p (juice_factor j)) ^^ (length legs - 1)) c) = Inr odds"
    "100 \<le> sint odds" "sint odds \<le> 10000"
proof -
  have valid: "parlay_probability ls a = Inr c \<Longrightarrow> list_all (\<lambda>l. Odds_Validate l = None) ls" for ls a c
    by (induction ls arbitrary: a) (auto simp: result_simps)
  show "2 \<le> length legs" "length legs \<le> 8" "0 \<le> sint j" "list_all (\<lambda>l. Odds_Validate l = None) legs"
    and *: "\<exists>c. parlay_probability legs 1 = Inr c
       \<and> AmericanFromProbability (((\<lambda>p. fmul p (juice_factor j)) ^^ (length legs - 1)) c) = Inr odds"
    and lo: "100 \<le> sint odds"
    using assms valid
    by (auto simp: ParlayOddsFor_def Let_def result_simps MinParlayLegs_def MaxParlayLegs_def MinParlayOdds_def not_less)
  from * obtain q where "AmericanFromProbability q = Inr odds" by blast
  with AmericanFromProbability_window [of q] lo show "sint odds \<le> 10000" by (auto simp: in_window_def MaxOdds_def)
qed

text \<open>C33 parlay_juice_shortens: a parlay is priced between even money and the longest line the book posts,
  over two to eight legs, and raising the parlay margin never lengthens the price.\<close>

theorem parlay_juice_shortens:
  assumes "ParlayOddsFor legs i = Inr a" "ParlayOddsFor legs j = Inr b" "sint i \<le> sint j"
  shows "100 \<le> sint b \<and> sint b \<le> sint a \<and> sint a \<le> MaxOdds \<and> 2 \<le> length legs \<and> length legs \<le> MaxParlayLegs"
proof -
  note A = ParlayOddsFor_Inr [OF assms(1)] and B = ParlayOddsFor_Inr [OF assms(2)]
  from A(5) B(5) obtain c where c: "parlay_probability legs 1 = Inr c"
    and a: "AmericanFromProbability (((\<lambda>p. fmul p (juice_factor i)) ^^ (length legs - 1)) c) = Inr a"
    and b: "AmericanFromProbability (((\<lambda>p. fmul p (juice_factor j)) ^^ (length legs - 1)) c) = Inr b" by auto
  have "0 < c" using parlay_probability_pos [OF c] by simp
  then have "((\<lambda>p. fmul p (juice_factor i)) ^^ (length legs - 1)) c \<le> ((\<lambda>p. fmul p (juice_factor j)) ^^ (length legs - 1)) c"
    using fmul_power_mono [of c "juice_factor i" "juice_factor j"] juice_factor_mono [OF A(3) assms(3)] by simp
  from AmericanFromProbability_antimono [OF this a b] B(6) have "sint b \<le> sint a" by simp
  with A(1,2,7) B(6) show ?thesis by (simp add: MaxOdds_def MaxParlayLegs_def)
qed

section \<open>Placement\<close>

lemma place_leg_Inr:
  "place_leg c seen m s = Inr leg \<Longrightarrow>
     mk_ID m \<notin> set seen \<and> mk_Type m = MarketMatch \<and> mk_State m = MarketOpen \<and> s_Active s
     \<and> s_MarketID s = mk_ID m \<and> Before (pp_Now c) (mk_ClosesAt m)
     \<and> (\<forall>r \<in> set (pp_Restrictions c). \<not> Restricts r (pp_UserID c) (s_ID s))
     \<and> leg = \<lparr>l_MarketID = mk_ID m, l_SelectionID = s_ID s, l_AcceptedOdds = s_OfferedAmericanOdds s,
              l_AcceptedTerms = s_DisplayTerms s, l_MarketTitle = mk_Title m, l_Result = no_result\<rparr>"
  by (auto simp: place_leg_def Let_def result_simps list_ex_iff)

lemma place_legs_Inr:
  "place_legs c seen ms = Inr legs \<Longrightarrow>
     map l_MarketID legs = map (mk_ID \<circ> fst) ms \<and> map l_SelectionID legs = map (s_ID \<circ> snd) ms
     \<and> map l_AcceptedOdds legs = map (s_OfferedAmericanOdds \<circ> snd) ms
     \<and> distinct (map l_MarketID legs) \<and> set (map l_MarketID legs) \<inter> set seen = {}
     \<and> (\<forall>l \<in> set legs. l_Result l = no_result)
     \<and> (\<forall>(m, s) \<in> set ms. mk_Type m = MarketMatch \<and> mk_State m = MarketOpen \<and> s_Active s \<and> s_MarketID s = mk_ID m
          \<and> Before (pp_Now c) (mk_ClosesAt m) \<and> (\<forall>r \<in> set (pp_Restrictions c). \<not> Restricts r (pp_UserID c) (s_ID s)))"
proof (induction ms arbitrary: seen legs)
  case (Cons x ms)
  obtain m s where x: "x = (m, s)" by (cases x)
  with Cons.prems obtain leg legs' where leg: "place_leg c seen m s = Inr leg"
    and rest: "place_legs c (mk_ID m # seen) ms = Inr legs'" and legs: "legs = leg # legs'"
    by (auto simp: result_simps)
  note IH = Cons.IH [OF rest]
  then have "map l_MarketID legs' = map (mk_ID \<circ> fst) ms" by blast
  from arg_cong [OF this, of set] have "l_MarketID ` set legs' = (\<lambda>x. mk_ID (fst x)) ` set ms" by (simp add: image_image)
  with IH place_leg_Inr [OF leg] show ?case by (auto simp: x legs)
qed simp

lemma PlaceParlay_Inr:
  assumes "PlaceParlay c = Inr p"
  shows "place_legs c [] (zip (pp_Markets c) (pp_Selections c)) = Inr (pa_Legs p)"
    "ParlayOddsFor (map l_AcceptedOdds (pa_Legs p)) (pp_JuiceBasisPoints c) = Inr (pa_AcceptedOdds p)"
    "Odds_Profit (pa_AcceptedOdds p) (pp_Stake c) = Inr (pa_PotentialProfit p)"
    "pa_Stake p = pp_Stake c" "0 < cents (pa_PotentialProfit p)" "pa_State p = WagerPending"
    "0 < sint (pp_MaxPayoutCents c) \<Longrightarrow> cents (pa_PotentialProfit p) \<le> sint (pp_MaxPayoutCents c)"
    "length (pp_Markets c) = length (pp_Selections c)" "2 \<le> length (pp_Markets c)" "length (pp_Markets c) \<le> 8"
  using assms
  by (auto simp: PlaceParlay_def result_simps not_le not_less MinParlayLegs_def MaxParlayLegs_def)

text \<open>A placed parlay: its legs, and the guards they passed.\<close>

lemma PlaceParlay_guards:
  assumes "PlaceParlay c = Inr p"
  shows "2 \<le> length (pa_Legs p) \<and> length (pa_Legs p) \<le> 8 \<and> distinct (map l_MarketID (pa_Legs p))
    \<and> map l_MarketID (pa_Legs p) = map mk_ID (pp_Markets c)
    \<and> map l_AcceptedOdds (pa_Legs p) = map s_OfferedAmericanOdds (pp_Selections c)
    \<and> (\<forall>(m, s) \<in> set (zip (pp_Markets c) (pp_Selections c)). mk_Type m = MarketMatch \<and> mk_State m = MarketOpen
        \<and> s_Active s \<and> s_MarketID s = mk_ID m \<and> Before (pp_Now c) (mk_ClosesAt m)
        \<and> (\<forall>r \<in> set (pp_Restrictions c). \<not> Restricts r (pp_UserID c) (s_ID s)))
    \<and> 0 < cents (pa_PotentialProfit p)
    \<and> (0 < sint (pp_MaxPayoutCents c) \<longrightarrow> cents (pa_PotentialProfit p) \<le> sint (pp_MaxPayoutCents c))"
proof -
  note P = PlaceParlay_Inr [OF assms]
  note L = place_legs_Inr [OF P(1)]
  have ids: "map l_MarketID (pa_Legs p) = map mk_ID (pp_Markets c)"
    using L P(8) by (simp flip: map_map)
  have odds: "map l_AcceptedOdds (pa_Legs p) = map s_OfferedAmericanOdds (pp_Selections c)"
    using L P(8) by (simp flip: map_map)
  have "length (pa_Legs p) = length (pp_Markets c)" using arg_cong [OF ids, of length] by simp
  then have "2 \<le> length (pa_Legs p)" "length (pa_Legs p) \<le> 8" using P(9,10) by simp_all
  with L P(5,7) ids odds show ?thesis by (intro conjI impI) (assumption | elim conjE, assumption)+
qed

section \<open>Grading\<close>

lemma grade_legs_Inr:
  "grade_legs legs surviving = Inr g \<Longrightarrow>
     g = (if \<exists>l \<in> set legs. l_Result l = ResultLoss then None
          else Some (surviving @ map l_AcceptedOdds (filter (\<lambda>l. l_Result l = ResultWin) legs)))
     \<and> ((\<forall>l \<in> set legs. l_Result l \<noteq> ResultLoss) \<longrightarrow>
         (\<forall>l \<in> set legs. l_Result l \<in> {ResultWin, ResultPush, ResultVoid}))"
proof (induction legs arbitrary: surviving)
  case (Cons a legs)
  show ?case
  proof (cases "l_Result a")
    case ResultWin
    with Cons.prems Cons.IH [of "surviving @ [l_AcceptedOdds a]"] show ?thesis by auto
  next
    case ResultPush
    with Cons.prems Cons.IH [of surviving] show ?thesis by auto
  next
    case ResultVoid
    with Cons.prems Cons.IH [of surviving] show ?thesis by auto
  qed (use Cons.prems in auto)
qed simp

lemma grade_legs_resolved:
  "\<forall>l \<in> set legs. l_Result l \<in> {ResultWin, ResultPush, ResultVoid} \<Longrightarrow>
     grade_legs legs surviving = Inr (Some (surviving @ map l_AcceptedOdds (filter (\<lambda>l. l_Result l = ResultWin) legs)))"
  by (induction legs arbitrary: surviving) (auto split: settlement_result.splits)

lemma GradeParlay_facts:
  assumes "GradeParlay p j = Inr g"
  shows "(po_Result g = ResultLoss \<longleftrightarrow> (\<exists>l \<in> set (pa_Legs p). l_Result l = ResultLoss))
    \<and> (po_Result g = ResultPush \<longleftrightarrow> (\<forall>l \<in> set (pa_Legs p). l_Result l \<in> {ResultPush, ResultVoid}))
    \<and> po_Result g \<in> {ResultWin, ResultLoss, ResultPush} \<and> po_Stake g = pa_Stake p
    \<and> (po_Result g = ResultLoss \<longrightarrow> cents (po_Returns g) = 0)
    \<and> (po_Result g = ResultPush \<longrightarrow> po_Returns g = pa_Stake p)
    \<and> (po_Result g = ResultWin \<longrightarrow> cents (po_Returns g) = cents (pa_Stake p) + cents (po_Profit g)
        \<and> survivingPrice (map l_AcceptedOdds (filter (\<lambda>l. l_Result l = ResultWin) (pa_Legs p))) j = Inr (po_Odds g)
        \<and> Odds_Profit (po_Odds g) (pa_Stake p) = Inr (po_Profit g))"
proof -
  from assms obtain r where ne: "pa_Legs p \<noteq> []" and r: "grade_legs (pa_Legs p) [] = Inr r"
    by (auto simp: GradeParlay_def Let_def result_simps)
  note G = grade_legs_Inr [OF r]
  show ?thesis
  proof (cases r)
    case None
    then have "\<exists>l \<in> set (pa_Legs p). l_Result l = ResultLoss" using G by (auto split: if_splits)
    moreover have "g = \<lparr>po_Result = ResultLoss, po_Odds = pa_AcceptedOdds p, po_Stake = pa_Stake p,
        po_Profit = \<lparr>m_Cents = 0, m_Currency = m_Currency (pa_Stake p)\<rparr>,
        po_Returns = \<lparr>m_Cents = 0, m_Currency = m_Currency (pa_Stake p)\<rparr>\<rparr>"
      using assms r ne None by (simp add: GradeParlay_def Let_def)
    ultimately show ?thesis by force
  next
    case (Some surviving)
    then have noloss: "\<forall>l \<in> set (pa_Legs p). l_Result l \<noteq> ResultLoss"
      and res: "\<forall>l \<in> set (pa_Legs p). l_Result l \<in> {ResultWin, ResultPush, ResultVoid}"
      and surv: "surviving = map l_AcceptedOdds (filter (\<lambda>l. l_Result l = ResultWin) (pa_Legs p))"
      using G by (auto split: if_splits)
    show ?thesis
    proof (cases "surviving = []")
      case True
      then have "\<forall>l \<in> set (pa_Legs p). l_Result l \<noteq> ResultWin" by (simp add: surv filter_empty_conv)
      then have "\<forall>l \<in> set (pa_Legs p). l_Result l \<in> {ResultPush, ResultVoid}" using res by blast
      with True noloss assms r ne Some show ?thesis by (auto simp: GradeParlay_def Let_def)
    next
      case False
      then obtain l where "l \<in> set (pa_Legs p)" "l_Result l = ResultWin" by (auto simp: surv filter_empty_conv)
      then have "\<not> (\<forall>l \<in> set (pa_Legs p). l_Result l \<in> {ResultPush, ResultVoid})" by force
      with False noloss assms r ne Some show ?thesis
        by (auto simp: GradeParlay_def Let_def result_simps surv [symmetric] dest: Money_Add_Inr)
    qed
  qed
qed

text \<open>C29 GradeParlay_result: a graded parlay lost exactly when some leg lost, and is returned exactly
  when every leg pushed or was voided; otherwise it won. A loss returns nothing, a push the stake,
  a win the stake and the profit of the legs that won at the price they combine to.\<close>

theorem GradeParlay_result:
  assumes "GradeParlay p j = Inr g"
  shows "(po_Result g = ResultLoss \<longleftrightarrow> (\<exists>l \<in> set (pa_Legs p). l_Result l = ResultLoss))
    \<and> (po_Result g = ResultPush \<longleftrightarrow> (\<forall>l \<in> set (pa_Legs p). l_Result l \<in> {ResultPush, ResultVoid}))
    \<and> (po_Result g = ResultLoss \<longrightarrow> cents (po_Returns g) = 0)
    \<and> (po_Result g = ResultPush \<longrightarrow> po_Returns g = pa_Stake p)
    \<and> (po_Result g = ResultWin \<longrightarrow> cents (po_Returns g) = cents (pa_Stake p) + cents (po_Profit g)
        \<and> survivingPrice (map l_AcceptedOdds (filter (\<lambda>l. l_Result l = ResultWin) (pa_Legs p))) j = Inr (po_Odds g)
        \<and> Odds_Profit (po_Odds g) (pa_Stake p) = Inr (po_Profit g))"
  using GradeParlay_facts [OF assms] by blast

text \<open>A placed parlay whose legs all win is always graded, at the price it was
  written at, and pays exactly the profit quoted when it was placed.\<close>

lemma parlay_pays_quote:
  assumes "PlaceParlay c = Inr p"
  shows "\<exists>g. GradeParlay (p\<lparr>pa_Legs := map (\<lambda>l. l\<lparr>l_Result := ResultWin\<rparr>) (pa_Legs p)\<rparr>) (pp_JuiceBasisPoints c) = Inr g
    \<and> po_Result g = ResultWin \<and> po_Odds g = pa_AcceptedOdds p \<and> po_Profit g = pa_PotentialProfit p
    \<and> cents (po_Returns g) = cents (pa_Stake p) + cents (pa_PotentialProfit p)"
proof -
  note P = PlaceParlay_Inr [OF assms]
  let ?legs = "map (\<lambda>l. l\<lparr>l_Result := ResultWin\<rparr>) (pa_Legs p)"
  have odds: "map l_AcceptedOdds (filter (\<lambda>l. l_Result l = ResultWin) ?legs) = map l_AcceptedOdds (pa_Legs p)"
    by (simp add: filter_map comp_def)
  have len: "2 \<le> length (pa_Legs p)" using ParlayOddsFor_Inr(1) [OF P(2)] by simp
  then have "survivingPrice (map l_AcceptedOdds (pa_Legs p)) (pp_JuiceBasisPoints c) = Inr (pa_AcceptedOdds p)"
    using P(2) by (simp add: survivingPrice_def)
  moreover have "grade_legs ?legs [] = Inr (Some (map l_AcceptedOdds (pa_Legs p)))"
    using grade_legs_resolved [of ?legs "[]"] odds by simp
  moreover from Odds_Return_eq [OF P(3)] obtain t where
    "Money_Add (pp_Stake c) (pa_PotentialProfit p) = Inr t" "cents t = cents (pp_Stake c) + cents (pa_PotentialProfit p)"
    using P(3) by (auto simp: Odds_Return_def)
  moreover have "pa_Legs p \<noteq> []" using len by auto
  ultimately show ?thesis using P(3,4) by (simp add: GradeParlay_def Let_def)
qed


section \<open>Settling\<close>

lemma settleParlay_Inr:
  assumes "settleParlayIfComplete p0 j user escrow house = Inr (Some (g, t))"
  shows "\<exists>p. p \<in> {p0, void_open_legs p0} \<and> GradeParlay p j = Inr g \<and> pa_Stake p = pa_Stake p0"
    "Transaction_Validate t = None" "t_IdempotencyKey t = parlay_key (pa_ID p0)"
    "\<exists>ty. parlay_postings g user escrow house = Inr (ty, t_Postings t)"
proof -
  let ?p = "if list_ex (\<lambda>l. l_Result l = ResultLoss) (pa_Legs p0) then void_open_legs p0 else p0"
  have p: "?p \<in> {p0, void_open_legs p0}" "pa_Stake ?p = pa_Stake p0" "pa_ID ?p = pa_ID p0"
    by (simp_all add: void_open_legs_def)
  from assms obtain ty ps where g: "GradeParlay ?p j = Inr g" and post: "parlay_postings g user escrow house = Inr (ty, ps)"
    and t: "t = \<lparr>t_Type = ty, t_Currency = m_Currency (pa_Stake ?p),
             t_IdempotencyKey = parlay_key (pa_ID ?p), t_Actor = ''system:parlay-settlement'',
             t_SourceType = ''parlay'', t_SourceID = pa_ID ?p, t_Reason = [], t_ReversalOf = [],
             t_Postings = ps\<rparr>" and v: "Transaction_Validate t = None"
    unfolding settleParlayIfComplete_def Let_def
    by (simp add: result_simps case_prod_eq_Inr split: if_splits) (auto split: option.splits)
  show "\<exists>p. p \<in> {p0, void_open_legs p0} \<and> GradeParlay p j = Inr g \<and> pa_Stake p = pa_Stake p0"
    using p g by blast
  show "Transaction_Validate t = None" by (rule v)
  show "t_IdempotencyKey t = parlay_key (pa_ID p0)" using p(3) by (simp add: t)
  show "\<exists>ty. parlay_postings g user escrow house = Inr (ty, t_Postings t)" using post by (simp add: t)
qed

interpretation parlay_settlement: transaction_builder
  "\<lambda>(p, j, user, escrow, house). case settleParlayIfComplete p j user escrow house of
     Inr (Some (g, t)) \<Rightarrow> Inr t | _ \<Rightarrow> Inl ()"
proof
  show "Transaction_Validate t = None"
    if "(case c of (p, j, user, escrow, house) \<Rightarrow> case settleParlayIfComplete p j user escrow house of
     Inr (Some (g, t)) \<Rightarrow> Inr t | _ \<Rightarrow> Inl ()) = Inr t" for c :: "parlay \<times> int64 \<times> string \<times> string \<times> string" and t
    using that by (cases c) (auto dest: settleParlay_Inr(2) split: sum.splits option.splits)
qed

text \<open>C28 parlay_settlement_moves: settling a parlay takes its whole stake out of escrow, gives the
  member what it returns, and the house the difference: profit is paid by the house, a lost stake
  goes to it, and a refunded parlay does not touch it.\<close>

theorem parlay_settlement_moves:
  assumes "settleParlayIfComplete p j user escrow house = Inr (Some (g, t))" "0 < cents (pa_Stake p)"
  shows "moved (t_Postings t) = settlement_moves
      \<lparr>sr_UserFundingAccountID = user, sr_EscrowAccountID = escrow, sr_HouseClearingAccountID = house\<rparr>
      (cents (pa_Stake p)) (cents (po_Returns g))"
proof -
  note S = settleParlay_Inr [OF assms(1)]
  from S(1) obtain q where q: "GradeParlay q j = Inr g" "pa_Stake q = pa_Stake p" by blast
  note G = GradeParlay_facts [OF q(1)]
  from S(4) obtain ty where ps: "parlay_postings g user escrow house = Inr (ty, t_Postings t)" by blast
  then obtain n where n: "Money_Negate (po_Stake g) = Inr n" by (auto simp: parlay_postings_def result_simps)
  have stake: "cents n = - cents (pa_Stake p)" "po_Stake g = pa_Stake p"
    using G q(2) Money_Negate_cents [OF n] by simp_all
  from G consider (win) "po_Result g = ResultWin" | (loss) "po_Result g = ResultLoss" | (push) "po_Result g = ResultPush"
    by blast
  then show ?thesis
  proof cases
    case win
    then obtain k where k: "Money_Negate (po_Profit g) = Inr k" and
      "t_Postings t = [\<lparr>p_AccountID = escrow, p_Amount = n\<rparr>, \<lparr>p_AccountID = house, p_Amount = k\<rparr>,
         \<lparr>p_AccountID = user, p_Amount = po_Returns g\<rparr>]"
      using ps n by (auto simp: parlay_postings_def result_simps)
    moreover have "cents (po_Returns g) = cents (pa_Stake p) + cents (po_Profit g)" using G q(2) win by simp
    ultimately show ?thesis
      using stake Money_Negate_cents [OF k] by (intro ext) (simp add: settlement_moves_def account_key_def)
  next
    case loss
    then have "t_Postings t = [\<lparr>p_AccountID = escrow, p_Amount = n\<rparr>, \<lparr>p_AccountID = house, p_Amount = po_Stake g\<rparr>]"
      using ps n by (auto simp: parlay_postings_def)
    moreover have "cents (po_Returns g) = 0" using G loss by blast
    ultimately show ?thesis using stake by (intro ext) (simp add: settlement_moves_def account_key_def)
  next
    case push
    then have "t_Postings t = [\<lparr>p_AccountID = escrow, p_Amount = n\<rparr>, \<lparr>p_AccountID = user, p_Amount = po_Stake g\<rparr>]"
      using ps n by (auto simp: parlay_postings_def)
    moreover have "po_Returns g = pa_Stake p" using G q(2) push by simp
    ultimately show ?thesis using stake by (intro ext) (simp add: settlement_moves_def account_key_def)
  qed
qed

section \<open>Decided parlays that cannot be settled\<close>

lemma no_open_legs:
  "\<forall>l \<in> set (pa_Legs p). l_Result l \<in> {ResultWin, ResultPush, ResultVoid} \<Longrightarrow>
     filter (\<lambda>l. l_Result l = no_result) (pa_Legs p) = [] \<and> \<not> list_ex (\<lambda>l. l_Result l = ResultLoss) (pa_Legs p)"
  by (auto simp: filter_empty_conv list_ex_iff no_result_def)

lemma parlay_stuck_short:
  assumes "\<forall>l \<in> set (pa_Legs p). l_Result l \<in> {ResultWin, ResultPush, ResultVoid}"
    and "2 \<le> length (filter (\<lambda>l. l_Result l = ResultWin) (pa_Legs p))"
    and "ParlayOddsFor (map l_AcceptedOdds (filter (\<lambda>l. l_Result l = ResultWin) (pa_Legs p))) j = Inl ErrParlayTooShort"
  shows "settleParlayIfComplete p j user escrow house = Inl ErrParlayTooShort"
proof -
  have "GradeParlay p j = Inl ErrParlayTooShort"
    using assms by (auto simp: GradeParlay_def Let_def grade_legs_resolved survivingPrice_def)
  with no_open_legs [OF assms(1)] show ?thesis by (simp add: settleParlayIfComplete_def Let_def)
qed

lemma parlay_stuck_zero_profit:
  assumes "\<forall>l \<in> set (pa_Legs p). l_Result l \<in> {ResultWin, ResultPush, ResultVoid}"
    and "GradeParlay p j = Inr g" "po_Result g = ResultWin" "cents (po_Profit g) = 0"
  shows "\<exists>e. settleParlayIfComplete p j user escrow house = Inl (BettingLedger e)"
proof (rule ccontr)
  assume none: "\<nexists>e. settleParlayIfComplete p j user escrow house = Inl (BettingLedger e)"
  note open' = no_open_legs [OF assms(1)]
  note G = GradeParlay_facts [OF assms(2)]
  have "0 < cents (pa_Stake p)" "Money_Validate (pa_Stake p) = None" using G assms(3) Odds_Profit_InrD(2,3) by blast+
  then obtain n where n: "Money_Negate (po_Stake g) = Inr n" using G Money_Negate_total [of "pa_Stake p"] by fastforce
  have "Money_Validate (po_Profit g) = None"
    using G assms(3) Odds_Profit_InrD(2,6) by (metis Money_Validate_def)
  with assms(4) obtain k where k: "Money_Negate (po_Profit g) = Inr k" using Money_Negate_total by fastforce
  have "posted_cents \<lparr>p_AccountID = house, p_Amount = k\<rparr> = 0" using Money_Negate_cents [OF k] assms(4) by simp
  moreover obtain t where "Transaction_Validate t = None" "\<lparr>p_AccountID = house, p_Amount = k\<rparr> \<in> set (t_Postings t)"
    using none open' assms(2,3) n k
    by (auto simp: settleParlayIfComplete_def Let_def parlay_postings_def split: option.splits)
  ultimately show False
    using Transaction_Validate_postings [of t] by (auto simp: ValidatePostings_None list_all_iff well_posted_def)
qed

text \<open>C36 parlay_stuck: two kinds of decided parlay, no leg of which lost, cannot be settled. When legs drop out
  and the ones that won combine to shorter than even money, settling fails with the error that refuses such a
  price at placement. When the profit rounds to nothing, the house posting of zero cents makes the transaction
  illegal. (The settlement of a single wager leaves such a posting out.)\<close>

theorem parlay_stuck:
  assumes "\<forall>l \<in> set (pa_Legs p). l_Result l \<in> {ResultWin, ResultPush, ResultVoid}"
  shows "(2 \<le> length (filter (\<lambda>l. l_Result l = ResultWin) (pa_Legs p))
      \<and> ParlayOddsFor (map l_AcceptedOdds (filter (\<lambda>l. l_Result l = ResultWin) (pa_Legs p))) j = Inl ErrParlayTooShort
      \<longrightarrow> settleParlayIfComplete p j user escrow house = Inl ErrParlayTooShort)
    \<and> (\<forall>g. GradeParlay p j = Inr g \<and> po_Result g = ResultWin \<and> cents (po_Profit g) = 0
      \<longrightarrow> (\<exists>e. settleParlayIfComplete p j user escrow house = Inl (BettingLedger e)))"
  using parlay_stuck_short [OF assms] parlay_stuck_zero_profit [OF assms] by blast

end
