(* ===== verification/Betting_Examples.thy ===== *)
theory Betting_Examples
  imports Wager_Lifecycle Parlays
begin

text \<open>
  Concrete runs of the betting operations, evaluated by the kernel: each property of the betting
  theories whose statement has a hypothesis is applied here to a run that satisfies it.
\<close>

section \<open>Data\<close>

definition uuid :: "string \<Rightarrow> ID" where
  "uuid d = ''00000000-0000-4000-8000-00000000000'' @ d"

definition cad :: "int64 \<Rightarrow> money" where
  "cad c = \<lparr>m_Cents = c, m_Currency = ''CAD''\<rparr>"

definition ex_market :: "market_state \<Rightarrow> market" where
  "ex_market s = \<lparr>mk_ID = uuid ''1'', mk_Type = MarketMatch, mk_MatchID = uuid ''2'', mk_Title = ''Singles'', mk_State = s,
     mk_Currency = ''CAD'', mk_OpensAt = Time 10 True, mk_ClosesAt = Time 100 True\<rparr>"

definition ex_selection :: selection where
  "ex_selection = \<lparr>s_ID = uuid ''3'', s_MarketID = uuid ''1'', s_Key = ''home'', s_DisplayTerms = ''Home to win'',
     s_OfferedAmericanOdds = 150, s_SemanticResultKey = ''side:x'', s_Active = True\<rparr>"

definition ex_place :: place_wager_command where
  "ex_place = \<lparr>pw_WagerID = uuid ''4'', pw_UserID = uuid ''5'', pw_Market = ex_market MarketOpen, pw_Selection = ex_selection,
     pw_Restrictions = [], pw_MaxStakeCents = 5000, pw_ExistingStakeCents = 3000, pw_SelectionMaxStakeCents = 0,
     pw_ExistingSelectionStakeCents = 0, pw_TotalStakeCapCents = 0, pw_ExistingTotalStakeCents = 0,
     pw_MaxPayoutCents = 100000, pw_PlacedBy = uuid ''5'', pw_FundingAccountType = FundingUserCash, pw_Stake = cad 1001,
     pw_IdempotencyKey = ''k'', pw_Now = Time 50 True\<rparr>"

definition ex_wager :: "wager_state \<Rightarrow> wager" where
  "ex_wager s = \<lparr>w_ID = uuid ''4'', w_UserID = uuid ''5'', w_MarketID = uuid ''1'', w_SelectionID = uuid ''3'',
     w_FundingAccountType = FundingUserCash, w_Stake = cad 1001, w_AcceptedOdds = 150, w_AcceptedTerms = ''Home to win'',
     w_PotentialProfit = cad 1502, w_State = s, w_IdempotencyKey = ''k'', w_PlacedBy = uuid ''5'', w_PlacedAt = Time 50 True\<rparr>"

definition ex_arefs :: acceptance_account_refs where
  "ex_arefs = \<lparr>ar_UserFundingAccountID = ''cash'', ar_EscrowAccountID = ''escrow''\<rparr>"

definition ex_vrefs :: void_wager_account_refs where
  "ex_vrefs = \<lparr>vr_UserFundingAccountID = ''cash'', vr_EscrowAccountID = ''escrow''\<rparr>"

definition ex_srefs :: settlement_account_refs where
  "ex_srefs = \<lparr>sr_UserFundingAccountID = ''cash'', sr_EscrowAccountID = ''escrow'', sr_HouseClearingAccountID = ''house''\<rparr>"

lemma ex_placed: "PlaceWager ex_place = Inr (ex_wager WagerPending)"
  by code_simp

lemma ex_accepted: "\<exists>r. AcceptWager (ex_wager WagerPending) (uuid ''6'') (Time 60 True) ex_arefs (uuid ''7'') = Inr r
    \<and> aw_Wager r = ex_wager WagerAccepted'"
proof -
  have "case AcceptWager (ex_wager WagerPending) (uuid ''6'') (Time 60 True) ex_arefs (uuid ''7'') of
      Inl e \<Rightarrow> False | Inr r \<Rightarrow> aw_Wager r = ex_wager WagerAccepted'"
    by code_simp
  then show ?thesis by (auto split: sum.splits)
qed

lemma ex_settled: "\<exists>s e. settleWager (ex_wager WagerAccepted') ResultWin ex_srefs (uuid ''8'') (uuid ''9'') 1 (uuid ''6'') (Time 70 True)
    (uuid ''a'') 1 = Inr (s, ex_wager WagerSettled', e)"
proof -
  have "case settleWager (ex_wager WagerAccepted') ResultWin ex_srefs (uuid ''8'') (uuid ''9'') 1 (uuid ''6'') (Time 70 True) (uuid ''a'') 1 of
      Inl e \<Rightarrow> False | Inr (s, w, e) \<Rightarrow> w = ex_wager WagerSettled'"
    by code_simp
  then show ?thesis by (auto split: sum.splits)
qed

lemma ex_reduced: "\<exists>txn. ReduceWager (ex_wager WagerAccepted') (cad 501) (uuid ''6'') ''typo'' ex_vrefs (Time 70 True)
    = Inr ((ex_wager WagerAccepted')\<lparr>w_Stake := cad 501, w_PotentialProfit := cad 752\<rparr>, cad 500, txn)"
proof -
  have "case ReduceWager (ex_wager WagerAccepted') (cad 501) (uuid ''6'') ''typo'' ex_vrefs (Time 70 True) of
      Inl e \<Rightarrow> False | Inr (w, m, txn) \<Rightarrow> w = (ex_wager WagerAccepted')\<lparr>w_Stake := cad 501, w_PotentialProfit := cad 752\<rparr> \<and> m = cad 500"
    by code_simp
  then show ?thesis by (auto split: sum.splits)
qed

text \<open>The run: accept, reduce the stake, settle.\<close>

definition ex_reduced_wager :: "wager_state \<Rightarrow> wager" where
  "ex_reduced_wager s = (ex_wager s)\<lparr>w_Stake := cad 501, w_PotentialProfit := cad 752\<rparr>"

lemma ex_run_accepted: "\<exists>ts. wager_run ''escrow'' (ex_wager WagerPending) ts (ex_wager WagerAccepted')"
proof -
  obtain r where r: "AcceptWager (ex_wager WagerPending) (uuid ''6'') (Time 60 True) ex_arefs (uuid ''7'') = Inr r"
    "aw_Wager r = ex_wager WagerAccepted'" using ex_accepted by blast
  have "TrimSpace (ar_EscrowAccountID ex_arefs) = ''escrow''" by code_simp
  from wager_step.accept [OF r(1) this] r(2) have "wager_step ''escrow'' (ex_wager WagerPending) [aw_Transaction r] (ex_wager WagerAccepted')"
    by simp
  from wager_run.step [OF wager_run.start this] show ?thesis by auto
qed

lemma ex_run_reduced: "\<exists>ts. wager_run ''escrow'' (ex_wager WagerPending) ts (ex_reduced_wager WagerAccepted')"
proof -
  obtain ts where ts: "wager_run ''escrow'' (ex_wager WagerPending) ts (ex_wager WagerAccepted')" using ex_run_accepted by blast
  obtain txn where txn: "ReduceWager (ex_wager WagerAccepted') (cad 501) (uuid ''6'') ''typo'' ex_vrefs (Time 70 True)
    = Inr (ex_reduced_wager WagerAccepted', cad 500, txn)" using ex_reduced by (auto simp: ex_reduced_wager_def)
  have "TrimSpace (vr_EscrowAccountID ex_vrefs) = ''escrow''" by code_simp
  from wager_run.step [OF ts wager_step.reduce [OF txn this]] show ?thesis by auto
qed

lemma ex_run_settled: "\<exists>ts. wager_run ''escrow'' (ex_wager WagerPending) ts (ex_wager WagerSettled')"
proof -
  obtain ts where ts: "wager_run ''escrow'' (ex_wager WagerPending) ts (ex_wager WagerAccepted')" using ex_run_accepted by blast
  obtain s e where s: "settleWager (ex_wager WagerAccepted') ResultWin ex_srefs (uuid ''8'') (uuid ''9'') 1 (uuid ''6'') (Time 70 True)
    (uuid ''a'') 1 = Inr (s, ex_wager WagerSettled', e)" using ex_settled by blast
  have "TrimSpace (sr_EscrowAccountID ex_srefs) = ''escrow''" by code_simp
  from wager_run.step [OF ts wager_step.settle [OF s this]] show ?thesis by auto
qed

section \<open>One wager\<close>

theorem wager_invariant_witness:
  "same_bet (ex_wager WagerPending) (ex_reduced_wager WagerAccepted') \<and> Odds_Profit 150 (cad 501) = Inr (cad 752)"
proof -
  obtain ts where "wager_run ''escrow'' (ex_wager WagerPending) ts (ex_reduced_wager WagerAccepted')" using ex_run_reduced by blast
  from wager_invariant [OF ex_placed this] show ?thesis by (simp add: ex_reduced_wager_def ex_wager_def)
qed

theorem escrow_holds_stake_witness:
  "\<exists>ts. wager_run ''escrow'' (ex_wager WagerPending) ts (ex_reduced_wager WagerAccepted')
     \<and> fold post ts (\<lambda>a. 0) ''escrow'' = 501"
proof -
  obtain ts where ts: "wager_run ''escrow'' (ex_wager WagerPending) ts (ex_reduced_wager WagerAccepted')" using ex_run_reduced by blast
  from escrow_holds_stake [OF ex_placed this, of "\<lambda>a. 0"] ts show ?thesis
    by (auto simp: ex_reduced_wager_def ex_wager_def cad_def)
qed

theorem wager_resolved_once_witness:
  "\<nexists>us v. wager_step ''escrow'' (ex_wager WagerSettled') us v"
proof -
  obtain ts where "wager_run ''escrow'' (ex_wager WagerPending) ts (ex_wager WagerSettled')" using ex_run_settled by blast
  from wager_resolved_once [OF ex_placed this] show ?thesis by (simp add: ex_wager_def)
qed

theorem placed_wager_pays_quote_witness:
  "\<exists>s e. settleWager (ex_wager WagerAccepted') ResultWin ex_srefs (uuid ''8'') (uuid ''9'') 1 (uuid ''6'') (Time 70 True)
    (uuid ''a'') 1 = Inr (s, ex_wager WagerSettled', e) \<and> cents (ws_Returned s) = 2503"
proof -
  obtain r where r: "AcceptWager (ex_wager WagerPending) (uuid ''6'') (Time 60 True) ex_arefs (uuid ''7'') = Inr r"
    "aw_Wager r = ex_wager WagerAccepted'" using ex_accepted by blast
  obtain s e where s: "settleWager (ex_wager WagerAccepted') ResultWin ex_srefs (uuid ''8'') (uuid ''9'') 1 (uuid ''6'') (Time 70 True)
    (uuid ''a'') 1 = Inr (s, ex_wager WagerSettled', e)" using ex_settled by blast
  from placed_wager_pays_quote [OF ex_placed r(1) s [folded r(2)]] s show ?thesis
    by (auto simp: ex_wager_def cad_def)
qed

theorem PlaceWager_guards_witness:
  "PlaceWager ex_place = Inr (ex_wager WagerPending) \<and> 3000 + cents (w_Stake (ex_wager WagerPending)) \<le> 5000"
  using PlaceWager_guards [OF ex_placed] ex_placed by (simp add: ex_place_def cad_def)

theorem ReduceWager_refunds_witness:
  "\<exists>txn. ReduceWager (ex_wager WagerAccepted') (cad 501) (uuid ''6'') ''typo'' ex_vrefs (Time 70 True)
    = Inr (ex_reduced_wager WagerAccepted', cad 500, txn) \<and> moved (t_Postings txn) (TrimSpace ''cash'') = 500"
proof -
  obtain txn where txn: "ReduceWager (ex_wager WagerAccepted') (cad 501) (uuid ''6'') ''typo'' ex_vrefs (Time 70 True)
    = Inr (ex_reduced_wager WagerAccepted', cad 500, txn)" using ex_reduced by (auto simp: ex_reduced_wager_def)
  have "priced (ex_wager WagerAccepted')" unfolding priced_def by code_simp
  from ReduceWager_refunds [OF txn this] txn show ?thesis by (auto simp: ex_vrefs_def cad_def)
qed

definition ex_adjustment :: adjustment_command where
  "ex_adjustment = \<lparr>ad_AdjustmentID = ''a1'', ad_UserID = uuid ''5'', ad_Direction = AdjustmentPayoutSent, ad_Amount = cad 250,
     ad_Reason = ''e-transfer'', ad_Actor = uuid ''6'', ad_Refs = \<lparr>adr_UserFundingAccountID = ''cash'', adr_HouseClearingAccountID = ''house''\<rparr>,
     ad_OccurredAt = Time 5 True\<rparr>"

theorem adjustment_reversal_witness:
  "\<exists>t u. RecordAdjustment ex_adjustment = Inr t \<and> ReverseAdjustment t ''t1'' (uuid ''6'') ''typo'' = Inr u
     \<and> post u (post t (\<lambda>a. 7)) = (\<lambda>a. 7)"
proof -
  have "\<not> isl (RecordAdjustment ex_adjustment)" by code_simp
  then obtain t where t: "RecordAdjustment ex_adjustment = Inr t" by (cases "RecordAdjustment ex_adjustment") auto
  have "\<not> blank ''t1''" "\<not> blank (uuid ''6'')" "\<not> blank ''typo''" by code_simp+
  from adjustment_reversal [OF t this] t show ?thesis by blast
qed

section \<open>A market\<close>

definition ex_wager2 :: wager where
  "ex_wager2 = (ex_wager WagerAccepted')\<lparr>w_ID := uuid ''b'', w_SelectionID := uuid ''c'', w_Stake := cad 400,
     w_AcceptedOdds := - 170, w_PotentialProfit := cad 235\<rparr>"

definition ex_settle :: settle_market_command where
  "ex_settle = \<lparr>sm_Market = ex_market MarketClosed, sm_Selections = [ex_selection, ex_selection\<lparr>s_ID := uuid ''c''\<rparr>],
     sm_Outcome = map_of_list [(uuid ''3'', ResultWin), (uuid ''c'', ResultLoss)], sm_Wagers = [ex_wager2, ex_wager WagerAccepted'],
     sm_Refs = map_of_list [(uuid ''4'', ex_srefs), (uuid ''b'', ex_srefs)],
     sm_WagerSettlementIDs = map_of_list [(uuid ''4'', uuid ''d''), (uuid ''b'', uuid ''e'')],
     sm_WagerEventIDs = map_of_list [(uuid ''4'', uuid ''f''), (uuid ''b'', uuid ''0'')],
     sm_SettlementID = uuid ''8'', sm_Version = 1, sm_Actor = uuid ''6'', sm_OccurredAt = Time 200 True,
     sm_MarketEventID = uuid ''9'', sm_Regrade = False, sm_DeadHeat = False, sm_DeadHeatDivisor = 0\<rparr>"

definition ex_regrade :: settle_market_command where
  "ex_regrade = ex_settle\<lparr>sm_Market := ex_market MarketSettled', sm_Regrade := True, sm_Version := 2,
     sm_Wagers := [ex_wager WagerSettled', ex_wager2\<lparr>w_State := WagerSettled'\<rparr>]\<rparr>"

abbreviation ex_accounts :: "wager_settlement \<Rightarrow> bool" where
  "ex_accounts s \<equiv> list_all (\<lambda>p. account_key p \<in> {''cash'', ''escrow'', ''house''}) (t_Postings (ws_Transaction s))"

lemma ex_settled_each:
  "\<exists>s e. settleWager (ex_wager WagerAccepted') ResultWin ex_srefs (uuid ''8'') (uuid ''d'') 1 (uuid ''6'') (Time 200 True)
    (uuid ''f'') 1 = Inr (s, ex_wager WagerSettled', e) \<and> ex_accounts s"
  "\<exists>s e. settleWager ex_wager2 ResultLoss ex_srefs (uuid ''8'') (uuid ''e'') 1 (uuid ''6'') (Time 200 True)
    (uuid ''0'') 1 = Inr (s, ex_wager2\<lparr>w_State := WagerSettled'\<rparr>, e) \<and> ex_accounts s"
proof -
  have "case settleWager (ex_wager WagerAccepted') ResultWin ex_srefs (uuid ''8'') (uuid ''d'') 1 (uuid ''6'') (Time 200 True) (uuid ''f'') 1 of
      Inl e \<Rightarrow> False | Inr (s, w, e) \<Rightarrow> w = ex_wager WagerSettled' \<and> ex_accounts s"
    by code_simp
  then show "\<exists>s e. settleWager (ex_wager WagerAccepted') ResultWin ex_srefs (uuid ''8'') (uuid ''d'') 1 (uuid ''6'') (Time 200 True)
    (uuid ''f'') 1 = Inr (s, ex_wager WagerSettled', e) \<and> ex_accounts s"
    by (auto split: sum.splits)
  have "case settleWager ex_wager2 ResultLoss ex_srefs (uuid ''8'') (uuid ''e'') 1 (uuid ''6'') (Time 200 True) (uuid ''0'') 1 of
      Inl e \<Rightarrow> False | Inr (s, w, e) \<Rightarrow> w = ex_wager2\<lparr>w_State := WagerSettled'\<rparr> \<and> ex_accounts s"
    by code_simp
  then show "\<exists>s e. settleWager ex_wager2 ResultLoss ex_srefs (uuid ''8'') (uuid ''e'') 1 (uuid ''6'') (Time 200 True)
    (uuid ''0'') 1 = Inr (s, ex_wager2\<lparr>w_State := WagerSettled'\<rparr>, e) \<and> ex_accounts s"
    by (auto split: sum.splits)
qed

lemma ex_lookups:
  "DAList.lookup (sm_Outcome ex_settle) (uuid ''3'') = Some ResultWin" "DAList.lookup (sm_Outcome ex_settle) (uuid ''c'') = Some ResultLoss"
  "DAList.lookup (sm_Refs ex_settle) (uuid ''4'') = Some ex_srefs" "DAList.lookup (sm_Refs ex_settle) (uuid ''b'') = Some ex_srefs"
  "get_or [] (sm_WagerSettlementIDs ex_settle) (uuid ''4'') = uuid ''d''" "get_or [] (sm_WagerSettlementIDs ex_settle) (uuid ''b'') = uuid ''e''"
  "get_or [] (sm_WagerEventIDs ex_settle) (uuid ''4'') = uuid ''f''" "get_or [] (sm_WagerEventIDs ex_settle) (uuid ''b'') = uuid ''0''"
  "validID (uuid ''d'')" "validID (uuid ''e'')" "validID (uuid ''f'')" "validID (uuid ''0'')"
  "validID (uuid ''8'')" "validID (uuid ''6'')" "validID (uuid ''9'')"
  by code_simp+

lemma ex_settle_fields:
  "sm_SettlementID ex_settle = uuid ''8''" "sm_Version ex_settle = 1" "sm_Actor ex_settle = uuid ''6''"
  "sm_OccurredAt ex_settle = Time 200 True" "sm_MarketEventID ex_settle = uuid ''9''" "sm_Market ex_settle = ex_market MarketClosed"
  "sm_Regrade ex_settle = False" "sm_Wagers ex_settle = [ex_wager2, ex_wager WagerAccepted']"
  "w_ID (ex_wager st) = uuid ''4''" "w_SelectionID (ex_wager st) = uuid ''3''" "w_ID ex_wager2 = uuid ''b''" "w_SelectionID ex_wager2 = uuid ''c''"
  "mk_ID (ex_market ms) = uuid ''1''" "mk_State (ex_market ms) = ms"
  by (simp_all add: ex_settle_def ex_wager2_def ex_wager_def ex_market_def)

lemma ex_checks:
  "Market_Validate (ex_market MarketClosed) = None" "list_ex (\<lambda>s. s_MarketID s \<noteq> uuid ''1'') (sm_Selections ex_settle) = False"
  "MarketOutcome_validate (sm_Outcome ex_settle) (sm_Selections ex_settle) = None" "deadHeatDivisor ex_settle = Inr 1"
  "splitAcceptedWagers (uuid ''1'') [ex_wager2, ex_wager WagerAccepted'] = Inr ([], [ex_wager WagerAccepted', ex_wager2])"
  "validUUID (uuid ''9'')" "validUUID (uuid ''1'')"
  by code_simp+

lemma ex_graded:
  "\<exists>r. SettleMarket ex_settle = Inr r \<and> length (sx_Settlements r) = 2 \<and> list_all ex_accounts (sx_Settlements r)
     \<and> sx_Wagers r = sm_Wagers ex_regrade"
proof -
  obtain s1 e1 where 1: "settleWager (ex_wager WagerAccepted') ResultWin ex_srefs (uuid ''8'') (uuid ''d'') 1 (uuid ''6'') (Time 200 True)
    (uuid ''f'') 1 = Inr (s1, ex_wager WagerSettled', e1)" "ex_accounts s1" using ex_settled_each(1) by blast
  obtain s2 e2 where 2: "settleWager ex_wager2 ResultLoss ex_srefs (uuid ''8'') (uuid ''e'') 1 (uuid ''6'') (Time 200 True)
    (uuid ''0'') 1 = Inr (s2, ex_wager2\<lparr>w_State := WagerSettled'\<rparr>, e2)" "ex_accounts s2" using ex_settled_each(2) by blast
  have utc: "UTC (Time 200 True) = Time 200 True" "\<not> IsZero (Time 200 True)" by (simp_all add: UTC_def IsZero_def)
  let ?acc = "\<lparr>a_Settlements = [], a_Wagers = [], a_WagerEvents = [], a_counts = [0, 0, 0, 0],
      a_totalStake = 0, a_totalProfit = 0, a_totalReturned = 0\<rparr>"
  obtain acc where acc: "settle_loop ex_settle 1 [ex_wager WagerAccepted', ex_wager2] ?acc = Inr acc"
    "a_Settlements acc = [s1, s2]" "a_Wagers acc = [ex_wager WagerSettled', ex_wager2\<lparr>w_State := WagerSettled'\<rparr>]"
    by (simp add: ex_lookups ex_settle_fields 1 2 utc)
  have "\<exists>e. buildEnvelope (uuid ''9'') (uuid ''1'') ''market'' 1 MarketSettled (UTC (Time 200 True))
              (marketSettledPayload (uuid ''1'') 1 (map sint (a_counts acc))
                (a_totalStake acc) (a_totalProfit acc) (a_totalReturned acc) (mk_Currency (ex_market MarketClosed))) = Inr e"
    using not_blank_start [of "''market''"] utc
    by (simp add: buildEnvelope_Inr marketSettledPayload_def plain_key_def between_def byte_def event_types_def space_runes_def ex_checks)
  with acc 1(2) 2(2) show ?thesis
    by (auto simp: SettleMarket_def ex_settle_fields ex_checks ex_lookups settle_source_error_def utc ex_regrade_def)
qed

lemma ex_regraded: "\<exists>r. SettleMarket ex_regrade = Inr r"
proof -
  have "\<not> isl (SettleMarket ex_regrade)" by code_simp
  then show ?thesis by (cases "SettleMarket ex_regrade") auto
qed

lemma ex_stakes: "stakes_positive (sm_Wagers ex_settle)"
  by (simp add: ex_settle_def ex_wager2_def ex_wager_def cad_def)

theorem SettleMarket_conserves_witness:
  "\<exists>r. SettleMarket ex_settle = Inr r \<and> (\<Sum>a\<in>{''cash'', ''escrow'', ''house''}. settle_book r (\<lambda>a. 0) a) = 0"
proof -
  obtain r where r: "SettleMarket ex_settle = Inr r" "list_all ex_accounts (sx_Settlements r)" using ex_graded by blast
  from r(2) have "\<forall>s \<in> set (sx_Settlements r). account_key ` set (t_Postings (ws_Transaction s)) \<subseteq> {''cash'', ''escrow'', ''house''}"
    by (simp add: list_all_iff) blast
  from SettleMarket_conserves [OF r(1) _ this, of "\<lambda>a. 0"] r(1) show ?thesis by auto
qed

lemma SettleMarket_empties_escrow_witness:
  "\<exists>r. SettleMarket ex_settle = Inr r \<and> settle_book r (\<lambda>a. 1401) (TrimSpace ''escrow'') = 0"
proof -
  obtain r where r: "SettleMarket ex_settle = Inr r" using ex_graded by blast
  have "\<forall>i refs. DAList.lookup (sm_Refs ex_settle) i = Some refs \<longrightarrow> sr_EscrowAccountID refs = ''escrow''"
    by (simp add: ex_settle_def map_of_list_def ex_srefs_def DAList.lookup_update lookup_empty)
  from SettleMarket_empties_escrow [OF r ex_stakes this, of "\<lambda>a. 1401"] r show ?thesis
    by (auto simp: ex_settle_def ex_wager2_def ex_wager_def cad_def)
qed

theorem SettleMarket_no_second_payment_witness:
  "\<exists>r r2. SettleMarket ex_settle = Inr r \<and> SettleMarket ex_regrade = Inr r2 \<and> length (sx_Settlements r) = 2 \<and> sx_Settlements r2 = []"
proof -
  obtain r where r: "SettleMarket ex_settle = Inr r" "length (sx_Settlements r) = 2" "sm_Wagers ex_regrade = sx_Wagers r"
    using ex_graded by auto
  obtain r2 where r2: "SettleMarket ex_regrade = Inr r2" using ex_regraded by blast
  from SettleMarket_no_second_payment [OF r(1) ex_stakes r2 r(3)] r r2 show ?thesis by blast
qed

lemma SettleMarket_order_witness:
  "map_sum id (\<lambda>r. r\<lparr>sx_Wagers := []\<rparr>) (SettleMarket (ex_settle\<lparr>sm_Wagers := [ex_wager WagerAccepted', ex_wager2]\<rparr>))
     = map_sum id (\<lambda>r. r\<lparr>sx_Wagers := []\<rparr>) (SettleMarket ex_settle) \<and> (\<exists>r. SettleMarket ex_settle = Inr r)"
proof -
  have "mset [ex_wager WagerAccepted', ex_wager2] = mset (sm_Wagers ex_settle)" by (simp add: ex_settle_fields)
  moreover have "distinct (map w_ID (filter (\<lambda>w. w_State w = WagerAccepted') [ex_wager WagerAccepted', ex_wager2]))"
    by (simp add: ex_wager2_def ex_wager_def uuid_def)
  ultimately show ?thesis using SettleMarket_order ex_graded by blast
qed

definition ex_void :: void_market_command where
  "ex_void = \<lparr>vm_Market = ex_market MarketOpen, vm_Wagers = [ex_wager WagerAccepted'], vm_Refs = map_of_list [(uuid ''4'', ex_srefs)],
     vm_WagerSettlementIDs = map_of_list [(uuid ''4'', uuid ''d'')], vm_WagerEventIDs = map_of_list [(uuid ''4'', uuid ''f'')],
     vm_SettlementID = uuid ''8'', vm_Version = 1, vm_Actor = uuid ''6'', vm_Reason = ''rain'', vm_OccurredAt = Time 200 True,
     vm_MarketEventID = uuid ''9''\<rparr>"

lemma ex_voided: "\<exists>r. VoidMarket ex_void = Inr r"
proof -
  have "\<not> isl (VoidMarket ex_void)" by code_simp
  then show ?thesis by (cases "VoidMarket ex_void") auto
qed

theorem VoidMarket_refunds_witness:
  "\<exists>r. VoidMarket ex_void = Inr r \<and> map ws_WagerID (sx_Settlements r) = [uuid ''4''] \<and> list_all void_settlement (sx_Settlements r)"
proof -
  obtain r where r: "VoidMarket ex_void = Inr r" using ex_voided by blast
  have "stakes_positive (vm_Wagers ex_void)" by (simp add: ex_void_def ex_wager_def cad_def)
  from VoidMarket_refunds [OF r this] r show ?thesis
    by (auto simp: ex_void_def ex_settle_fields list_all_iff) (simp add: ex_wager_def)
qed

theorem settleWager_pays_witness:
  "\<exists>s e. settleWager (ex_wager WagerAccepted') ResultWin ex_srefs (uuid ''8'') (uuid ''9'') 1 (uuid ''6'') (Time 70 True)
    (uuid ''a'') 1 = Inr (s, ex_wager WagerSettled', e) \<and> moved (t_Postings (ws_Transaction s)) (TrimSpace ''escrow'') = - 1001"
proof -
  obtain s e where s: "settleWager (ex_wager WagerAccepted') ResultWin ex_srefs (uuid ''8'') (uuid ''9'') 1 (uuid ''6'') (Time 70 True)
    (uuid ''a'') 1 = Inr (s, ex_wager WagerSettled', e)" using ex_settled by blast
  have "0 < cents (w_Stake (ex_wager WagerAccepted'))" by (simp add: ex_wager_def cad_def)
  from settleWager_pays [OF s this] s show ?thesis by (auto simp: ex_wager_def ex_srefs_def cad_def)
qed

theorem settleWager_succeeds_witness:
  "\<exists>r. settleWager (ex_wager WagerAccepted') ResultWin ex_srefs (uuid ''8'') [] 1 (uuid ''6'') (Time 70 True) (uuid ''a'') 3 = Inr r"
proof (rule settleWager_succeeds)
  show "Wager_Validate (ex_wager WagerAccepted') = None" by code_simp
  show "w_State (ex_wager WagerAccepted') = WagerAccepted'" by (simp add: ex_wager_def)
  show "refs_ok ex_srefs" by code_simp
  show "Odds_Profit (w_AcceptedOdds (ex_wager WagerAccepted')) (w_Stake (ex_wager WagerAccepted')) = Inr (cad 1502)" by code_simp
  show "\<not> blank (uuid ''8'')" "\<not> blank (uuid ''6'')" "validUUID (w_ID (ex_wager WagerAccepted'))" "validUUID (uuid ''a'')" by code_simp+
qed (simp_all add: IsZero_def)

end
