(* ===== verification/Parlay_Examples.thy ===== *)
theory Parlay_Examples
  imports Betting_Examples
begin

text \<open>
  Concrete parlays, priced, placed, graded and settled by the kernel: the properties of \<open>Parlays\<close> applied
  to runs that satisfy their hypotheses, the two kinds of stuck parlay among them.
\<close>

section \<open>Parlays\<close>

definition ex_leg :: "ID \<Rightarrow> int32 \<Rightarrow> settlement_result \<Rightarrow> parlay_leg" where
  "ex_leg m o' r = \<lparr>l_MarketID = m, l_SelectionID = uuid ''3'', l_AcceptedOdds = o', l_AcceptedTerms = ''Home to win'',
     l_MarketTitle = ''Singles'', l_Result = r\<rparr>"

definition ex_parlay :: "int64 \<Rightarrow> parlay_leg list \<Rightarrow> parlay" where
  "ex_parlay stake legs = \<lparr>pa_ID = uuid ''7'', pa_UserID = uuid ''5'', pa_FundingAccountType = FundingUserCash, pa_Stake = cad stake,
     pa_AcceptedOdds = 252, pa_PotentialProfit = cad 2520, pa_Legs = legs, pa_State = WagerPending, pa_IdempotencyKey = ''k'',
     pa_PlacedBy = uuid ''5'', pa_PlacedAt = Time 50 True\<rparr>"

definition ex_place_parlay :: place_parlay_command where
  "ex_place_parlay = \<lparr>pp_ParlayID = uuid ''7'', pp_UserID = uuid ''5'',
     pp_Markets = [ex_market MarketOpen, (ex_market MarketOpen)\<lparr>mk_ID := uuid ''2''\<rparr>],
     pp_Selections = [ex_selection\<lparr>s_OfferedAmericanOdds := - 110\<rparr>, ex_selection\<lparr>s_MarketID := uuid ''2'', s_OfferedAmericanOdds := - 110\<rparr>],
     pp_Restrictions = [], pp_JuiceBasisPoints = 350, pp_MaxPayoutCents = 0, pp_PlacedBy = uuid ''5'',
     pp_FundingAccountType = FundingUserCash, pp_Stake = cad 1000, pp_IdempotencyKey = ''k'', pp_Now = Time 50 True\<rparr>"

lemma ex_price_juiced: "ParlayOddsFor [- 110, - 110] 350 = Inr 252"
  by code_simp

lemma ex_price_straight: "ParlayOddsFor [- 110, - 110] 0 = Inr 264"
  by code_simp

lemma ex_price_short: "ParlayOddsFor [- 500, - 500] 350 = Inl ErrParlayTooShort"
  by code_simp

lemma ex_parlay_placed: "PlaceParlay ex_place_parlay = Inr (ex_parlay 1000 [(ex_leg (uuid ''1'') (- 110) no_result), (ex_leg (uuid ''2'') (- 110) no_result)])"
proof -
  have head: "validID (pp_ParlayID ex_place_parlay)" "validID (pp_UserID ex_place_parlay)" "TrimSpace ''k'' = ''k''"
    by code_simp+
  have legs: "place_legs ex_place_parlay [] (zip (pp_Markets ex_place_parlay) (pp_Selections ex_place_parlay))
      = Inr [ex_leg (uuid ''1'') (- 110) no_result, ex_leg (uuid ''2'') (- 110) no_result]" by code_simp
  have profit: "Odds_Profit 252 (cad 1000) = Inr (cad 2520)" "Money_Validate (cad 1000) = None" by code_simp+
  have odds: "l_AcceptedOdds (ex_leg m o' r) = o'" for m o' r by (simp add: ex_leg_def)
  have cents: "m_Cents (cad c) = c" for c by (simp add: cad_def)
  show ?thesis
    unfolding PlaceParlay_def Let_def legs using head profit
    by (simp add: odds ex_price_juiced cents)
      (simp add: ex_place_parlay_def MinParlayLegs_def MaxParlayLegs_def IsZero_def ex_parlay_def UTC_def odds ex_price_juiced profit cents)
qed

theorem parlay_juice_shortens_witness:
  "ParlayOddsFor [- 110, - 110] 350 = Inr 252 \<and> ParlayOddsFor [- 110, - 110] 0 = Inr 264 \<and> sint (252 :: int32) \<le> sint (264 :: int32)"
  using parlay_juice_shortens [OF ex_price_straight ex_price_juiced] ex_price_straight ex_price_juiced by simp

theorem parlay_pays_quote_witness:
  "\<exists>g. GradeParlay (ex_parlay 1000 [(ex_leg (uuid ''1'') (- 110) ResultWin), (ex_leg (uuid ''2'') (- 110) ResultWin)]) 350 = Inr g
     \<and> cents (po_Returns g) = 3520"
  using parlay_pays_quote [OF ex_parlay_placed] by (auto simp: ex_parlay_def ex_leg_def ex_place_parlay_def cad_def)

lemma ex_survivor: "\<exists>g t. GradeParlay (ex_parlay 1000 [ex_leg (uuid ''1'') 150 ResultWin, ex_leg (uuid ''2'') 120 ResultPush]) 350 = Inr g
    \<and> settleParlayIfComplete (ex_parlay 1000 [ex_leg (uuid ''1'') 150 ResultWin, ex_leg (uuid ''2'') 120 ResultPush]) 350 ''cash'' ''escrow'' ''house''
      = Inr (Some (g, t)) \<and> po_Result g = ResultWin \<and> cents (po_Returns g) = 2500"
proof -
  have "case settleParlayIfComplete (ex_parlay 1000 [ex_leg (uuid ''1'') 150 ResultWin, ex_leg (uuid ''2'') 120 ResultPush]) 350
      ''cash'' ''escrow'' ''house'' of Inr (Some (g, t)) \<Rightarrow> po_Result g = ResultWin \<and> cents (po_Returns g) = 2500
      \<and> GradeParlay (ex_parlay 1000 [ex_leg (uuid ''1'') 150 ResultWin, ex_leg (uuid ''2'') 120 ResultPush]) 350 = Inr g | _ \<Rightarrow> False"
    by code_simp
  then show ?thesis by (auto split: sum.splits option.splits)
qed

theorem GradeParlay_result_witness:
  "\<exists>g. GradeParlay (ex_parlay 1000 [ex_leg (uuid ''1'') 150 ResultWin, ex_leg (uuid ''2'') 120 ResultPush]) 350 = Inr g
     \<and> survivingPrice [150] 350 = Inr (po_Odds g)"
proof -
  obtain g where g: "GradeParlay (ex_parlay 1000 [ex_leg (uuid ''1'') 150 ResultWin, ex_leg (uuid ''2'') 120 ResultPush]) 350 = Inr g"
    "po_Result g = ResultWin" using ex_survivor by blast
  from GradeParlay_result [OF g(1)] g show ?thesis by (auto simp: ex_parlay_def ex_leg_def)
qed

theorem parlay_settlement_moves_witness:
  "\<exists>g t. settleParlayIfComplete (ex_parlay 1000 [ex_leg (uuid ''1'') 150 ResultWin, ex_leg (uuid ''2'') 120 ResultPush]) 350 ''cash'' ''escrow'' ''house''
      = Inr (Some (g, t)) \<and> moved (t_Postings t) = settlement_moves
      \<lparr>sr_UserFundingAccountID = ''cash'', sr_EscrowAccountID = ''escrow'', sr_HouseClearingAccountID = ''house''\<rparr> 1000 2500"
proof -
  obtain g t where g: "settleParlayIfComplete (ex_parlay 1000 [ex_leg (uuid ''1'') 150 ResultWin, ex_leg (uuid ''2'') 120 ResultPush]) 350
      ''cash'' ''escrow'' ''house'' = Inr (Some (g, t))" "cents (po_Returns g) = 2500" using ex_survivor by blast
  from parlay_settlement_moves [OF g(1)] g show ?thesis by (auto simp: ex_parlay_def cad_def)
qed

theorem parlay_stuck_witness:
  "settleParlayIfComplete (ex_parlay 1000 [ex_leg (uuid ''1'') (- 500) ResultWin, ex_leg (uuid ''2'') (- 500) ResultWin, ex_leg (uuid ''4'') 200 ResultVoid])
     350 ''cash'' ''escrow'' ''house'' = Inl ErrParlayTooShort
   \<and> (\<exists>e. settleParlayIfComplete (ex_parlay 1 [ex_leg (uuid ''1'') (- 10000) ResultWin, ex_leg (uuid ''2'') 200 ResultPush])
     350 ''cash'' ''escrow'' ''house'' = Inl (BettingLedger e))"
proof
  let ?p = "ex_parlay 1000 [ex_leg (uuid ''1'') (- 500) ResultWin, ex_leg (uuid ''2'') (- 500) ResultWin, ex_leg (uuid ''4'') 200 ResultVoid]"
  have "\<forall>l \<in> set (pa_Legs ?p). l_Result l \<in> {ResultWin, ResultPush, ResultVoid}" by (simp add: ex_parlay_def ex_leg_def)
  from parlay_stuck [OF this, of 350 "''cash''" "''escrow''" "''house''"]
  show "settleParlayIfComplete ?p 350 ''cash'' ''escrow'' ''house'' = Inl ErrParlayTooShort"
    by (simp add: ex_parlay_def ex_leg_def ex_price_short)
  let ?q = "ex_parlay 1 [ex_leg (uuid ''1'') (- 10000) ResultWin, ex_leg (uuid ''2'') 200 ResultPush]"
  have q: "\<forall>l \<in> set (pa_Legs ?q). l_Result l \<in> {ResultWin, ResultPush, ResultVoid}" by (simp add: ex_parlay_def ex_leg_def)
  have "case GradeParlay ?q 350 of Inl e \<Rightarrow> False | Inr g \<Rightarrow> po_Result g = ResultWin \<and> cents (po_Profit g) = 0" by code_simp
  then show "\<exists>e. settleParlayIfComplete ?q 350 ''cash'' ''escrow'' ''house'' = Inl (BettingLedger e)"
    using parlay_stuck [OF q, of 350 "''cash''" "''escrow''" "''house''"] by (auto split: sum.splits)
qed

end
