(* ===== verification/Competition_Types.thy ===== *)
theory Competition_Types
  imports Go_Base
begin

text \<open>
  \<open>internal/competition/types.go\<close>, \<open>errors.go\<close> and \<open>events.go\<close>: players, events, teams, the
  participant rule of a match format, results, and the domain events. The constructors of this
  package shadow the betting package's where the Go names coincide.
\<close>

section \<open>Errors, identifiers, actors\<close>

datatype competition_error =
    ErrInvalid | ErrUnauthorized | ErrOwnSubmission | ErrNotOpposingSide | ErrReasonRequired
  | ErrNotFound | ErrAlreadyExists | ErrIdempotencyConflict | ErrResultUnchanged
  | TransitionError (ct_Operation: string) (ct_State: string)
  | IndexPanic \<comment> \<open>the run-time panic of an index out of range\<close>

type_synonym ID = string

definition valid_id :: "ID \<Rightarrow> bool" where
  "valid_id i \<longleftrightarrow> TrimSpace i \<noteq> []"

datatype role = RoleMember | RoleAdmin | RoleOwner | RoleOther string

definition role_valid :: "role \<Rightarrow> bool" where
  "role_valid r \<longleftrightarrow> r = RoleMember \<or> r = RoleAdmin \<or> r = RoleOwner"

definition privileged :: "role \<Rightarrow> bool" where
  "privileged r \<longleftrightarrow> r = RoleAdmin \<or> r = RoleOwner"

record actor =
  ac_UserID :: ID
  ac_PlayerID :: ID
  ac_Role :: role

definition Actor_validate :: "actor \<Rightarrow> competition_error option" where
  "Actor_validate a = (if \<not> valid_id (ac_UserID a) \<or> \<not> role_valid (ac_Role a) then Some ErrInvalid else None)"

record player =
  pl_ID :: ID
  pl_LinkedUser :: ID
  pl_DisplayName :: string

definition NewPlayer :: "ID \<Rightarrow> string \<Rightarrow> ID \<Rightarrow> competition_error + player" where
  "NewPlayer i displayName linkedUser =
    (let displayName = TrimSpace displayName
     in if \<not> valid_id i \<or> displayName = [] then Inl ErrInvalid
        else Inr \<lparr>pl_ID = i, pl_LinkedUser = linkedUser, pl_DisplayName = displayName\<rparr>)"

section \<open>Events of the competition\<close>

datatype event_state = EventScheduled | EventActive | EventCompleted | EventStateOther string

fun event_state_string :: "event_state \<Rightarrow> string" where
  "event_state_string EventScheduled = ''scheduled''"
| "event_state_string EventActive = ''active''"
| "event_state_string EventCompleted = ''completed''"
| "event_state_string (EventStateOther s) = s"

record competition_event =
  ce_ID :: ID
  ce_Name :: string
  ce_Venue :: string
  ce_StartsAt :: go_time
  ce_EndsAt :: go_time
  ce_State :: event_state

definition NewCompetitionEvent ::
  "ID \<Rightarrow> string \<Rightarrow> string \<Rightarrow> go_time \<Rightarrow> go_time \<Rightarrow> competition_error + competition_event" where
  "NewCompetitionEvent i name venue startsAt endsAt =
    (let name = TrimSpace name; venue = TrimSpace venue
     in if \<not> valid_id i \<or> name = [] \<or> venue = [] \<or> IsZero startsAt \<or> IsZero endsAt \<or> Before endsAt startsAt
        then Inl ErrInvalid
        else Inr \<lparr>ce_ID = i, ce_Name = name, ce_Venue = venue, ce_StartsAt = UTC startsAt,
                  ce_EndsAt = UTC endsAt, ce_State = EventScheduled\<rparr>)"

definition event_allowed :: "event_state \<Rightarrow> event_state \<Rightarrow> bool" where
  "event_allowed s t \<longleftrightarrow> (s = EventScheduled \<and> t = EventActive) \<or> (s = EventActive \<and> t = EventCompleted)"

definition Event_Transition :: "competition_event \<Rightarrow> event_state \<Rightarrow> competition_error + competition_event" where
  "Event_Transition e to =
    (if \<not> event_allowed (ce_State e) to
     then Inl (TransitionError (''transition event to '' @ event_state_string to) (event_state_string (ce_State e)))
     else Inr (e\<lparr>ce_State := to\<rparr>))"

section \<open>Teams\<close>

record team =
  te_ID :: ID
  te_EventID :: ID
  te_Name :: string
  te_Members :: "ID list"
  te_CaptainIDs :: "ID list"

fun team_members :: "ID list \<Rightarrow> ID list \<Rightarrow> competition_error option" where
  \<comment> \<open>the loop over the members, \<open>memberSet\<close> so far in the accumulator\<close>
  "team_members [] memberSet = None"
| "team_members (i # is) memberSet =
    (if \<not> valid_id i then Some ErrInvalid
     else if i \<in> set memberSet then Some ErrInvalid
     else team_members is (i # memberSet))"

fun team_captains :: "ID list \<Rightarrow> ID list \<Rightarrow> ID list \<Rightarrow> competition_error option" where
  "team_captains members [] captainSet = None"
| "team_captains members (i # is) captainSet =
    (if i \<notin> set members then Some ErrInvalid
     else if i \<in> set captainSet then Some ErrInvalid
     else team_captains members is (i # captainSet))"

definition NewTeam :: "ID \<Rightarrow> ID \<Rightarrow> string \<Rightarrow> ID list \<Rightarrow> ID list \<Rightarrow> competition_error + team" where
  "NewTeam i eventID name members captains =
    (let name = TrimSpace name
     in if \<not> valid_id i \<or> \<not> valid_id eventID \<or> name = [] \<or> members = [] then Inl ErrInvalid
     else case team_members members [] of Some e \<Rightarrow> Inl e
     | None \<Rightarrow> if captains = [] then Inl ErrInvalid
     else case team_captains members captains [] of Some e \<Rightarrow> Inl e
     | None \<Rightarrow> Inr \<lparr>te_ID = i, te_EventID = eventID, te_Name = name, te_Members = members, te_CaptainIDs = captains\<rparr>)"

definition hasMember :: "team \<Rightarrow> ID \<Rightarrow> bool" where
  "hasMember t playerID \<longleftrightarrow> playerID \<in> set (te_Members t)"

definition hasCaptain :: "team \<Rightarrow> ID \<Rightarrow> bool" where
  "hasCaptain t playerID \<longleftrightarrow> playerID \<in> set (te_CaptainIDs t)"

section \<open>Formats\<close>

datatype match_format =
  FormatSingles | FormatFourball | FormatFoursomes | FormatScramble | FormatOther | FormatUnknown string

record participant_rule =
  pr_MinPerSide :: nat
  pr_MaxPerSide :: nat

fun ParticipantRuleFor :: "match_format \<Rightarrow> competition_error + participant_rule" where
  "ParticipantRuleFor FormatSingles = Inr \<lparr>pr_MinPerSide = 1, pr_MaxPerSide = 1\<rparr>"
| "ParticipantRuleFor FormatFourball = Inr \<lparr>pr_MinPerSide = 2, pr_MaxPerSide = 2\<rparr>"
| "ParticipantRuleFor FormatFoursomes = Inr \<lparr>pr_MinPerSide = 2, pr_MaxPerSide = 2\<rparr>"
| "ParticipantRuleFor FormatScramble = Inr \<lparr>pr_MinPerSide = 2, pr_MaxPerSide = 2\<rparr>"
| "ParticipantRuleFor FormatOther = Inr \<lparr>pr_MinPerSide = 1, pr_MaxPerSide = 0\<rparr>"
| "ParticipantRuleFor (FormatUnknown s) = Inl ErrInvalid"

definition ValidateParticipantCounts :: "match_format \<Rightarrow> nat \<Rightarrow> nat \<Rightarrow> competition_error option" where
  "ValidateParticipantCounts format sideOneCount sideTwoCount =
    (case ParticipantRuleFor format of Inl e \<Rightarrow> Some e
     | Inr rule \<Rightarrow> if sideOneCount < pr_MinPerSide rule \<or> sideTwoCount < pr_MinPerSide rule then Some ErrInvalid
     else if pr_MaxPerSide rule > 0 \<and> (sideOneCount > pr_MaxPerSide rule \<or> sideTwoCount > pr_MaxPerSide rule)
       then Some ErrInvalid
     else None)"

section \<open>Matches and results\<close>

record match_side =
  ms_ID :: ID
  ms_TeamID :: ID
  ms_Participants :: "ID list"

record match_spec =
  sp_ID :: ID
  sp_EventID :: ID
  sp_Format :: match_format
  sp_SideOne :: match_side
  sp_SideTwo :: match_side
  sp_Scheduled :: go_time

datatype result_outcome = OutcomeSideWin | OutcomeTie | OutcomeOther string

fun outcome_string :: "result_outcome \<Rightarrow> string" where
  "outcome_string OutcomeSideWin = ''side_win''"
| "outcome_string OutcomeTie = ''tie''"
| "outcome_string (OutcomeOther s) = s"

record match_result =
  re_Outcome :: result_outcome
  re_WinningSideID :: ID
  re_Score :: string

definition normalized :: "match_result \<Rightarrow> match_result" where
  "normalized r = r\<lparr>re_Score := TrimSpace (re_Score r)\<rparr>"

definition Result_validate :: "match_result \<Rightarrow> ID \<Rightarrow> ID \<Rightarrow> competition_error option" where
  "Result_validate r sideOne sideTwo =
    (case re_Outcome (normalized r) of
       OutcomeSideWin \<Rightarrow>
         if re_WinningSideID r \<noteq> sideOne \<and> re_WinningSideID r \<noteq> sideTwo then Some ErrInvalid else None
     | OutcomeTie \<Rightarrow> if valid_id (re_WinningSideID r) then Some ErrInvalid else None
     | OutcomeOther s \<Rightarrow> Some ErrInvalid)"

definition Result_equal :: "match_result \<Rightarrow> match_result \<Rightarrow> bool" where
  "Result_equal r other \<longleftrightarrow> normalized r = normalized other"

section \<open>Domain events\<close>

datatype domain_event_type =
  EventMatchResultSubmitted | EventMatchResultDisputed | EventMatchResultVerified | EventMatchResultCorrected

record domain_event =
  de_Type :: domain_event_type
  de_MatchID :: ID
  de_CompetitionEventID :: ID
  de_SubmissionID :: ID
  de_VerificationID :: ID
  de_PreviousVerificationID :: ID
  de_ActorUserID :: ID
  de_Result :: match_result
  de_Reason :: string
  de_OccurredAt :: go_time

section \<open>Facts\<close>

lemma normalized_idem [simp]: "normalized (normalized r) = normalized r"
  by (simp add: normalized_def)

lemma Result_validate_normalized [simp]: "Result_validate (normalized r) a b = Result_validate r a b"
  by (cases "re_Outcome r") (simp_all add: Result_validate_def normalized_def)

lemma valid_id_blank: "valid_id i \<longleftrightarrow> \<not> blank i"
  by (simp add: valid_id_def blank_def)

fun event_rank :: "event_state \<Rightarrow> nat" where
  "event_rank EventScheduled = 0"
| "event_rank EventActive = 1"
| "event_rank _ = 2"

interpretation event_life: lifecycle event_allowed event_rank
  by unfold_locales (auto simp: event_allowed_def)

lemma team_members_None:
  "team_members is seen = None \<longleftrightarrow> list_all valid_id is \<and> distinct is \<and> set is \<inter> set seen = {}"
  by (induction "is" seen rule: team_members.induct) auto

lemma team_captains_None:
  "team_captains ms is seen = None \<longleftrightarrow> set is \<subseteq> set ms \<and> distinct is \<and> set is \<inter> set seen = {}"
  by (induction ms "is" seen rule: team_captains.induct) auto

lemma NewTeam_Inr:
  "NewTeam i eventID name members captains = Inr t \<longleftrightarrow>
     valid_id i \<and> valid_id eventID \<and> \<not> blank name \<and> members \<noteq> [] \<and> list_all valid_id members \<and> distinct members
     \<and> captains \<noteq> [] \<and> set captains \<subseteq> set members \<and> distinct captains
     \<and> t = \<lparr>te_ID = i, te_EventID = eventID, te_Name = TrimSpace name, te_Members = members, te_CaptainIDs = captains\<rparr>"
  by (auto simp: NewTeam_def Let_def result_simps team_members_None team_captains_None blank_def)

definition team_ok :: "team \<Rightarrow> bool" where
  \<comment> \<open>what \<open>NewTeam\<close> guarantees of the teams a match is built from\<close>
  "team_ok t \<longleftrightarrow> list_all valid_id (te_Members t) \<and> distinct (te_Members t)
     \<and> set (te_CaptainIDs t) \<subseteq> set (te_Members t) \<and> te_CaptainIDs t \<noteq> []"

lemma NewTeam_ok: "NewTeam i eventID name members captains = Inr t \<Longrightarrow> team_ok t"
  by (auto simp: NewTeam_Inr team_ok_def)

end
