(* ===== verification/Competition_Match.thy ===== *)
theory Competition_Match
  imports Competition_Types
begin

text \<open>
  \<open>internal/competition/match.go\<close>: the match aggregate. A command method locks the aggregate for its
  whole body, so it is a function from the match to the match and the events it returns; the
  pointers into \<open>m.submissions\<close> become updates of the list at that position. \<open>commands\<close> maps a
  command identifier to the fingerprint it ran under.
\<close>

section \<open>State\<close>

datatype match_state = MatchAwaitingResult | MatchAwaitingConfirmation | MatchDisputed | MatchVerified

fun match_state_string :: "match_state \<Rightarrow> string" where
  "match_state_string MatchAwaitingResult = ''awaiting_result''"
| "match_state_string MatchAwaitingConfirmation = ''awaiting_confirmation''"
| "match_state_string MatchDisputed = ''disputed''"
| "match_state_string MatchVerified = ''verified''"

datatype submission_state = SubmissionPending | SubmissionConfirmed | SubmissionDisputed | SubmissionSuperseded

datatype confirmation_decision = DecisionConfirmed | DecisionDisputed

datatype verification_method = VerificationOpponent | VerificationAdmin | VerificationCorrection

record result_submission =
  su_ID :: ID
  su_SubmitterUser :: ID
  su_SubmitterPlayer :: ID
  su_SubmitterSide :: ID
  su_Result :: match_result
  su_State :: submission_state
  su_SubmittedAt :: go_time

record result_confirmation =
  cf_ID :: ID
  cf_SubmissionID :: ID
  cf_ActorUserID :: ID
  cf_ActorSideID :: ID
  cf_Decision :: confirmation_decision
  cf_Reason :: string
  cf_DecidedAt :: go_time

record verified_result =
  ve_ID :: ID
  ve_Version :: go_int
  ve_Result :: match_result
  ve_Method :: verification_method
  ve_ActorUserID :: ID
  ve_Reason :: string
  ve_SubmissionID :: ID
  ve_SupersedesID :: ID
  ve_VerifiedAt :: go_time

record match_ =
  ma_spec :: match_spec
  ma_teams :: "team \<times> team"
  ma_state :: match_state
  ma_submissions :: "result_submission list"
  ma_confirmations :: "result_confirmation list"
  ma_verifiedResults :: "verified_result list"
  ma_commands :: "ID \<Rightarrow> string option"

section \<open>A new match\<close>

fun check_participants :: "team \<Rightarrow> ID list \<Rightarrow> ID list \<Rightarrow> competition_error + ID list" where
  \<comment> \<open>the inner loop of \<open>NewMatch\<close>; the result is \<open>seen\<close> after the side\<close>
  "check_participants t [] seen = Inr seen"
| "check_participants t (p # ps) seen =
    (if \<not> hasMember t p then Inl ErrInvalid
     else if p \<in> set seen then Inl ErrInvalid
     else check_participants t ps (p # seen))"

definition NewMatch :: "match_spec \<Rightarrow> team \<Rightarrow> team \<Rightarrow> competition_error + match_" where
  "NewMatch spec sideOneTeam sideTwoTeam =
    (if \<not> valid_id (sp_ID spec) \<or> \<not> valid_id (sp_EventID spec) \<or> IsZero (sp_Scheduled spec) then Inl ErrInvalid
     else case ParticipantRuleFor (sp_Format spec) of Inl e \<Rightarrow> Inl e
     | Inr rule \<Rightarrow>
       if te_ID sideOneTeam \<noteq> ms_TeamID (sp_SideOne spec) \<or> te_ID sideTwoTeam \<noteq> ms_TeamID (sp_SideTwo spec)
          \<or> te_ID sideOneTeam = te_ID sideTwoTeam then Inl ErrInvalid
     else if te_EventID sideOneTeam \<noteq> sp_EventID spec \<or> te_EventID sideTwoTeam \<noteq> sp_EventID spec then Inl ErrInvalid
     else if \<not> valid_id (ms_ID (sp_SideOne spec)) \<or> \<not> valid_id (ms_ID (sp_SideTwo spec))
          \<or> ms_ID (sp_SideOne spec) = ms_ID (sp_SideTwo spec) then Inl ErrInvalid
     else case ValidateParticipantCounts (sp_Format spec) (length (ms_Participants (sp_SideOne spec)))
              (length (ms_Participants (sp_SideTwo spec))) of Some e \<Rightarrow> Inl e
     | None \<Rightarrow> case check_participants sideOneTeam (ms_Participants (sp_SideOne spec)) [] of Inl e \<Rightarrow> Inl e
     | Inr seen \<Rightarrow> case check_participants sideTwoTeam (ms_Participants (sp_SideTwo spec)) seen of Inl e \<Rightarrow> Inl e
     | Inr _ \<Rightarrow> Inr \<lparr>ma_spec = spec\<lparr>sp_Scheduled := UTC (sp_Scheduled spec)\<rparr>, ma_teams = (sideOneTeam, sideTwoTeam),
           ma_state = MatchAwaitingResult, ma_submissions = [], ma_confirmations = [],
           ma_verifiedResults = [], ma_commands = (\<lambda>_. None)\<rparr>)"

section \<open>Commands and helpers\<close>

record submit_result_command =
  sc_CommandID :: ID
  sc_SubmissionID :: ID
  sc_Actor :: actor
  sc_Result :: match_result
  sc_OccurredAt :: go_time

record confirm_result_command =
  cc_CommandID :: ID
  cc_ConfirmationID :: ID
  cc_VerificationID :: ID
  cc_SubmissionID :: ID
  cc_Actor :: actor
  cc_OccurredAt :: go_time

record dispute_result_command =
  dc_CommandID :: ID
  dc_ConfirmationID :: ID
  dc_SubmissionID :: ID
  dc_Actor :: actor
  dc_Reason :: string
  dc_OccurredAt :: go_time

text \<open>\<open>AdminOverrideCommand\<close> and \<open>CorrectResultCommand\<close> have the same fields.\<close>

record admin_result_command =
  oc_CommandID :: ID
  oc_VerificationID :: ID
  oc_Actor :: actor
  oc_Result :: match_result
  oc_Reason :: string
  oc_OccurredAt :: go_time

definition validateCommand :: "actor \<Rightarrow> go_time \<Rightarrow> ID list \<Rightarrow> competition_error option" where
  "validateCommand a occurredAt ids =
    (case Actor_validate a of Some e \<Rightarrow> Some e
     | None \<Rightarrow> if IsZero occurredAt then Some ErrInvalid
     else if list_ex (\<lambda>i. \<not> valid_id i) ids then Some ErrInvalid
     else None)"

definition transition :: "string \<Rightarrow> match_state \<Rightarrow> competition_error" where
  "transition operation s = TransitionError operation (match_state_string s)"

definition isSubmitter :: "actor \<Rightarrow> result_submission \<Rightarrow> bool" where
  "isSubmitter a s \<longleftrightarrow> ac_UserID a = su_SubmitterUser s
     \<or> (valid_id (ac_PlayerID a) \<and> ac_PlayerID a = su_SubmitterPlayer s)"

definition actingSide :: "match_ \<Rightarrow> actor \<Rightarrow> ID \<times> bool" where
  "actingSide m a =
    (let one = sp_SideOne (ma_spec m); two = sp_SideTwo (ma_spec m)
     in if ac_PlayerID a \<in> set (ms_Participants one) \<or> hasCaptain (fst (ma_teams m)) (ac_PlayerID a) then (ms_ID one, True)
     else if ac_PlayerID a \<in> set (ms_Participants two) \<or> hasCaptain (snd (ma_teams m)) (ac_PlayerID a) then (ms_ID two, True)
     else ([], False))"

fun position :: "('a \<Rightarrow> bool) \<Rightarrow> 'a list \<Rightarrow> nat option" where
  \<comment> \<open>the index a \<open>for index := range xs\<close> loop returns at, or \<open>nil\<close>\<close>
  "position p [] = None"
| "position p (x # xs) = (if p x then Some 0 else map_option Suc (position p xs))"

definition submissionByID :: "match_ \<Rightarrow> ID \<Rightarrow> nat option" where
  "submissionByID m i = position (\<lambda>s. su_ID s = i) (ma_submissions m)"

definition pendingSubmission :: "match_ \<Rightarrow> nat option" where
  "pendingSubmission m = position (\<lambda>s. su_State s = SubmissionPending) (ma_submissions m)"

definition confirmationByID :: "match_ \<Rightarrow> ID \<Rightarrow> nat option" where
  "confirmationByID m i = position (\<lambda>c. cf_ID c = i) (ma_confirmations m)"

definition verificationByID :: "match_ \<Rightarrow> ID \<Rightarrow> nat option" where
  "verificationByID m i = position (\<lambda>v. ve_ID v = i) (ma_verifiedResults m)"

definition checkCommand :: "match_ \<Rightarrow> ID \<Rightarrow> string \<Rightarrow> competition_error + bool" where
  "checkCommand m i fingerprint =
    (if \<not> valid_id i then Inl ErrInvalid
     else case ma_commands m i of None \<Rightarrow> Inr False
     | Some previous \<Rightarrow> if previous \<noteq> fingerprint then Inl ErrIdempotencyConflict else Inr True)"

definition recordCommand :: "match_ \<Rightarrow> ID \<Rightarrow> string \<Rightarrow> match_" where
  "recordCommand m i fingerprint = m\<lparr>ma_commands := (ma_commands m)(i \<mapsto> fingerprint)\<rparr>"

definition set_submission_state :: "nat \<Rightarrow> submission_state \<Rightarrow> result_submission list \<Rightarrow> result_submission list" where
  \<comment> \<open>\<open>submission.State = st\<close> through a pointer into the slice\<close>
  "set_submission_state k st ss = ss[k := (ss ! k)\<lparr>su_State := st\<rparr>]"

fun join_nul :: "string list \<Rightarrow> string" where
  "join_nul [] = []"
| "join_nul [s] = s"
| "join_nul (s # ss) = s @ CHR 0x00 # join_nul ss"

section \<open>The five commands\<close>

definition submit_fingerprint :: "submit_result_command \<Rightarrow> string" where
  "submit_fingerprint c = join_nul [''submit'', sc_SubmissionID c, ac_UserID (sc_Actor c),
     outcome_string (re_Outcome (sc_Result c)), re_WinningSideID (sc_Result c), TrimSpace (re_Score (sc_Result c))]"

definition SubmitResult :: "submit_result_command \<Rightarrow> match_ \<Rightarrow> competition_error + (match_ \<times> domain_event list)" where
  "SubmitResult c m =
    (case checkCommand m (sc_CommandID c) (submit_fingerprint c) of Inl e \<Rightarrow> Inl e
     | Inr replay \<Rightarrow> if replay then Inr (m, [])
     else if ma_state m \<noteq> MatchAwaitingResult \<and> ma_state m \<noteq> MatchAwaitingConfirmation
       then Inl (transition ''submit result'' (ma_state m))
     else case validateCommand (sc_Actor c) (sc_OccurredAt c) [sc_SubmissionID c] of Some e \<Rightarrow> Inl e
     | None \<Rightarrow> case Result_validate (sc_Result c) (ms_ID (sp_SideOne (ma_spec m))) (ms_ID (sp_SideTwo (ma_spec m))) of
       Some e \<Rightarrow> Inl e
     | None \<Rightarrow> let (sideID, eligible) = actingSide m (sc_Actor c)
       in if \<not> eligible \<and> \<not> privileged (ac_Role (sc_Actor c)) then Inl ErrUnauthorized
     else if submissionByID m (sc_SubmissionID c) \<noteq> None then Inl ErrAlreadyExists
     else
       let result = normalized (sc_Result c); at' = UTC (sc_OccurredAt c);
           submission = \<lparr>su_ID = sc_SubmissionID c, su_SubmitterUser = ac_UserID (sc_Actor c),
             su_SubmitterPlayer = ac_PlayerID (sc_Actor c), su_SubmitterSide = sideID, su_Result = result,
             su_State = SubmissionPending, su_SubmittedAt = at'\<rparr>;
           event = \<lparr>de_Type = EventMatchResultSubmitted, de_MatchID = sp_ID (ma_spec m),
             de_CompetitionEventID = sp_EventID (ma_spec m), de_SubmissionID = sc_SubmissionID c,
             de_VerificationID = [], de_PreviousVerificationID = [], de_ActorUserID = ac_UserID (sc_Actor c),
             de_Result = result, de_Reason = [], de_OccurredAt = at'\<rparr>
       in if ma_state m = MatchAwaitingConfirmation
          then case pendingSubmission m of None \<Rightarrow> Inl (transition ''submit result'' (ma_state m))
            | Some k \<Rightarrow> let pending = ma_submissions m ! k
              in if isSubmitter (sc_Actor c) pending then Inl ErrOwnSubmission
              else if \<not> eligible \<or> \<not> valid_id (su_SubmitterSide pending) \<or> sideID = su_SubmitterSide pending
                then Inl ErrNotOpposingSide
              else if Result_equal (su_Result pending) result then Inl ErrAlreadyExists
              else Inr (recordCommand (m\<lparr>ma_submissions := set_submission_state k SubmissionDisputed (ma_submissions m)
                            @ [submission\<lparr>su_State := SubmissionDisputed\<rparr>],
                          ma_state := MatchDisputed\<rparr>) (sc_CommandID c) (submit_fingerprint c),
                        [event, event\<lparr>de_Type := EventMatchResultDisputed,
                                      de_Reason := ''conflicting result submissions''\<rparr>])
          else Inr (recordCommand (m\<lparr>ma_submissions := ma_submissions m @ [submission],
                      ma_state := MatchAwaitingConfirmation\<rparr>) (sc_CommandID c) (submit_fingerprint c), [event]))"

definition confirm_fingerprint :: "confirm_result_command \<Rightarrow> string" where
  "confirm_fingerprint c = join_nul [''confirm'', cc_ConfirmationID c, cc_VerificationID c, cc_SubmissionID c,
     ac_UserID (cc_Actor c)]"

definition ConfirmResult :: "confirm_result_command \<Rightarrow> match_ \<Rightarrow> competition_error + (match_ \<times> domain_event list)" where
  "ConfirmResult c m =
    (case checkCommand m (cc_CommandID c) (confirm_fingerprint c) of Inl e \<Rightarrow> Inl e
     | Inr replay \<Rightarrow> if replay then Inr (m, [])
     else if ma_state m \<noteq> MatchAwaitingConfirmation then Inl (transition ''confirm result'' (ma_state m))
     else case validateCommand (cc_Actor c) (cc_OccurredAt c) [cc_ConfirmationID c, cc_VerificationID c, cc_SubmissionID c] of
       Some e \<Rightarrow> Inl e
     | None \<Rightarrow> case submissionByID m (cc_SubmissionID c) of None \<Rightarrow> Inl ErrNotFound
     | Some k \<Rightarrow> let submission = ma_submissions m ! k
       in if isSubmitter (cc_Actor c) submission then Inl ErrOwnSubmission
     else let (actorSide, eligible) = actingSide m (cc_Actor c)
       in if \<not> eligible then Inl ErrUnauthorized
     else if \<not> valid_id (su_SubmitterSide submission) \<or> actorSide = su_SubmitterSide submission then Inl ErrNotOpposingSide
     else if confirmationByID m (cc_ConfirmationID c) \<noteq> None \<or> verificationByID m (cc_VerificationID c) \<noteq> None
       then Inl ErrAlreadyExists
     else
       let at' = UTC (cc_OccurredAt c);
           confirmation = \<lparr>cf_ID = cc_ConfirmationID c, cf_SubmissionID = su_ID submission,
             cf_ActorUserID = ac_UserID (cc_Actor c), cf_ActorSideID = actorSide, cf_Decision = DecisionConfirmed,
             cf_Reason = [], cf_DecidedAt = at'\<rparr>;
           verified = \<lparr>ve_ID = cc_VerificationID c, ve_Version = 1, ve_Result = su_Result submission,
             ve_Method = VerificationOpponent, ve_ActorUserID = ac_UserID (cc_Actor c), ve_Reason = [],
             ve_SubmissionID = su_ID submission, ve_SupersedesID = [], ve_VerifiedAt = at'\<rparr>
       in Inr (recordCommand (m\<lparr>ma_confirmations := ma_confirmations m @ [confirmation],
                 ma_submissions := set_submission_state k SubmissionConfirmed (ma_submissions m),
                 ma_verifiedResults := ma_verifiedResults m @ [verified], ma_state := MatchVerified\<rparr>)
                 (cc_CommandID c) (confirm_fingerprint c),
               [\<lparr>de_Type = EventMatchResultVerified, de_MatchID = sp_ID (ma_spec m),
                 de_CompetitionEventID = sp_EventID (ma_spec m), de_SubmissionID = su_ID submission,
                 de_VerificationID = cc_VerificationID c, de_PreviousVerificationID = [],
                 de_ActorUserID = ac_UserID (cc_Actor c), de_Result = su_Result submission, de_Reason = [],
                 de_OccurredAt = at'\<rparr>]))"

definition dispute_fingerprint :: "dispute_result_command \<Rightarrow> string" where
  "dispute_fingerprint c = join_nul [''dispute'', dc_ConfirmationID c, dc_SubmissionID c, ac_UserID (dc_Actor c),
     TrimSpace (dc_Reason c)]"

definition DisputeResult :: "dispute_result_command \<Rightarrow> match_ \<Rightarrow> competition_error + (match_ \<times> domain_event list)" where
  "DisputeResult c m =
    (let reason = TrimSpace (dc_Reason c)
     in case checkCommand m (dc_CommandID c) (dispute_fingerprint c) of Inl e \<Rightarrow> Inl e
     | Inr replay \<Rightarrow> if replay then Inr (m, [])
     else if ma_state m \<noteq> MatchAwaitingConfirmation then Inl (transition ''dispute result'' (ma_state m))
     else case validateCommand (dc_Actor c) (dc_OccurredAt c) [dc_ConfirmationID c, dc_SubmissionID c] of Some e \<Rightarrow> Inl e
     | None \<Rightarrow> if reason = [] then Inl ErrReasonRequired
     else case submissionByID m (dc_SubmissionID c) of None \<Rightarrow> Inl ErrNotFound
     | Some k \<Rightarrow> let submission = ma_submissions m ! k
       in if isSubmitter (dc_Actor c) submission then Inl ErrOwnSubmission
     else let (actorSide, eligible) = actingSide m (dc_Actor c)
       in if \<not> eligible then Inl ErrUnauthorized
     else if \<not> valid_id (su_SubmitterSide submission) \<or> actorSide = su_SubmitterSide submission then Inl ErrNotOpposingSide
     else if confirmationByID m (dc_ConfirmationID c) \<noteq> None then Inl ErrAlreadyExists
     else
       let at' = UTC (dc_OccurredAt c);
           confirmation = \<lparr>cf_ID = dc_ConfirmationID c, cf_SubmissionID = su_ID submission,
             cf_ActorUserID = ac_UserID (dc_Actor c), cf_ActorSideID = actorSide, cf_Decision = DecisionDisputed,
             cf_Reason = reason, cf_DecidedAt = at'\<rparr>
       in Inr (recordCommand (m\<lparr>ma_confirmations := ma_confirmations m @ [confirmation],
                 ma_submissions := set_submission_state k SubmissionDisputed (ma_submissions m),
                 ma_state := MatchDisputed\<rparr>) (dc_CommandID c) (dispute_fingerprint c),
               [\<lparr>de_Type = EventMatchResultDisputed, de_MatchID = sp_ID (ma_spec m),
                 de_CompetitionEventID = sp_EventID (ma_spec m), de_SubmissionID = su_ID submission,
                 de_VerificationID = [], de_PreviousVerificationID = [],
                 de_ActorUserID = ac_UserID (dc_Actor c), de_Result = su_Result submission, de_Reason = reason,
                 de_OccurredAt = at'\<rparr>]))"

definition admin_fingerprint :: "string \<Rightarrow> admin_result_command \<Rightarrow> string" where
  "admin_fingerprint verb c = join_nul [verb, oc_VerificationID c, ac_UserID (oc_Actor c),
     outcome_string (re_Outcome (oc_Result c)), re_WinningSideID (oc_Result c), TrimSpace (re_Score (oc_Result c)),
     TrimSpace (oc_Reason c)]"

definition supersede_pending :: "result_submission list \<Rightarrow> result_submission list" where
  "supersede_pending =
    map (\<lambda>s. if su_State s = SubmissionPending then s\<lparr>su_State := SubmissionSuperseded\<rparr> else s)"

definition AdminOverride :: "admin_result_command \<Rightarrow> match_ \<Rightarrow> competition_error + (match_ \<times> domain_event list)" where
  "AdminOverride c m =
    (let reason = TrimSpace (oc_Reason c); fingerprint = admin_fingerprint ''override'' c
     in case checkCommand m (oc_CommandID c) fingerprint of Inl e \<Rightarrow> Inl e
     | Inr replay \<Rightarrow> if replay then Inr (m, [])
     else if ma_state m \<noteq> MatchAwaitingResult \<and> ma_state m \<noteq> MatchAwaitingConfirmation \<and> ma_state m \<noteq> MatchDisputed
       then Inl (transition ''override result'' (ma_state m))
     else case validateCommand (oc_Actor c) (oc_OccurredAt c) [oc_VerificationID c] of Some e \<Rightarrow> Inl e
     | None \<Rightarrow> if \<not> privileged (ac_Role (oc_Actor c)) then Inl ErrUnauthorized
     else if reason = [] then Inl ErrReasonRequired
     else case Result_validate (oc_Result c) (ms_ID (sp_SideOne (ma_spec m))) (ms_ID (sp_SideTwo (ma_spec m))) of
       Some e \<Rightarrow> Inl e
     | None \<Rightarrow> if verificationByID m (oc_VerificationID c) \<noteq> None then Inl ErrAlreadyExists
     else
       let at' = UTC (oc_OccurredAt c); result = normalized (oc_Result c);
           verified = \<lparr>ve_ID = oc_VerificationID c, ve_Version = 1, ve_Result = result,
             ve_Method = VerificationAdmin, ve_ActorUserID = ac_UserID (oc_Actor c), ve_Reason = reason,
             ve_SubmissionID = [], ve_SupersedesID = [], ve_VerifiedAt = at'\<rparr>
       in Inr (recordCommand (m\<lparr>ma_submissions := supersede_pending (ma_submissions m),
                 ma_verifiedResults := ma_verifiedResults m @ [verified], ma_state := MatchVerified\<rparr>)
                 (oc_CommandID c) fingerprint,
               [\<lparr>de_Type = EventMatchResultVerified, de_MatchID = sp_ID (ma_spec m),
                 de_CompetitionEventID = sp_EventID (ma_spec m), de_SubmissionID = [],
                 de_VerificationID = oc_VerificationID c, de_PreviousVerificationID = [],
                 de_ActorUserID = ac_UserID (oc_Actor c), de_Result = result, de_Reason = reason,
                 de_OccurredAt = at'\<rparr>]))"

definition CorrectResult :: "admin_result_command \<Rightarrow> match_ \<Rightarrow> competition_error + (match_ \<times> domain_event list)" where
  "CorrectResult c m =
    (let reason = TrimSpace (oc_Reason c); fingerprint = admin_fingerprint ''correct'' c
     in case checkCommand m (oc_CommandID c) fingerprint of Inl e \<Rightarrow> Inl e
     | Inr replay \<Rightarrow> if replay then Inr (m, [])
     else if ma_state m \<noteq> MatchVerified then Inl (transition ''correct result'' (ma_state m))
     else case validateCommand (oc_Actor c) (oc_OccurredAt c) [oc_VerificationID c] of Some e \<Rightarrow> Inl e
     | None \<Rightarrow> if \<not> privileged (ac_Role (oc_Actor c)) then Inl ErrUnauthorized
     else if reason = [] then Inl ErrReasonRequired
     else case Result_validate (oc_Result c) (ms_ID (sp_SideOne (ma_spec m))) (ms_ID (sp_SideTwo (ma_spec m))) of
       Some e \<Rightarrow> Inl e
     | None \<Rightarrow> if verificationByID m (oc_VerificationID c) \<noteq> None then Inl ErrAlreadyExists
     else if ma_verifiedResults m = [] then Inl IndexPanic
     else
       let previous = last (ma_verifiedResults m); result = normalized (oc_Result c); at' = UTC (oc_OccurredAt c)
       in if Result_equal (ve_Result previous) result then Inl ErrResultUnchanged
     else
       let verified = \<lparr>ve_ID = oc_VerificationID c, ve_Version = ve_Version previous + 1, ve_Result = result,
             ve_Method = VerificationCorrection, ve_ActorUserID = ac_UserID (oc_Actor c), ve_Reason = reason,
             ve_SubmissionID = [], ve_SupersedesID = ve_ID previous, ve_VerifiedAt = at'\<rparr>
       in Inr (recordCommand (m\<lparr>ma_verifiedResults := ma_verifiedResults m @ [verified]\<rparr>) (oc_CommandID c) fingerprint,
               [\<lparr>de_Type = EventMatchResultCorrected, de_MatchID = sp_ID (ma_spec m),
                 de_CompetitionEventID = sp_EventID (ma_spec m), de_SubmissionID = [],
                 de_VerificationID = oc_VerificationID c, de_PreviousVerificationID = ve_ID previous,
                 de_ActorUserID = ac_UserID (oc_Actor c), de_Result = result, de_Reason = reason,
                 de_OccurredAt = at'\<rparr>]))"

end
