(* ===== verification/Match_Lifecycle.thy ===== *)
theory Match_Lifecycle
  imports Competition_Match
begin

text \<open>
  The match aggregate over time: every command is idempotent, the step relation of the five commands,
  the invariant of every reachable match, and what verification guarantees.
\<close>

section \<open>Idempotency\<close>

lemma checkCommand_cases:
  "checkCommand m i f = Inr False \<longleftrightarrow> valid_id i \<and> ma_commands m i = None"
  "checkCommand m i f = Inr True \<longleftrightarrow> valid_id i \<and> ma_commands m i = Some f"
  "valid_id i \<Longrightarrow> ma_commands m i = Some g \<Longrightarrow> g \<noteq> f \<Longrightarrow> checkCommand m i f = Inl ErrIdempotencyConflict"
  by (auto simp: checkCommand_def split: option.splits)

lemma recordCommand_simps [simp]:
  "ma_spec (recordCommand m i f) = ma_spec m" "ma_teams (recordCommand m i f) = ma_teams m"
  "ma_state (recordCommand m i f) = ma_state m" "ma_submissions (recordCommand m i f) = ma_submissions m"
  "ma_confirmations (recordCommand m i f) = ma_confirmations m"
  "ma_verifiedResults (recordCommand m i f) = ma_verifiedResults m"
  "ma_commands (recordCommand m i f) = (ma_commands m)(i \<mapsto> f)"
  by (simp_all add: recordCommand_def)

interpretation submit: idempotent_command SubmitResult sc_CommandID submit_fingerprint ma_commands valid_id ErrIdempotencyConflict
proof
  fix c m r s' es f
  show "valid_id (sc_CommandID c)" if "SubmitResult c m = Inr r"
    using that by (auto simp: SubmitResult_def checkCommand_def split: if_splits)
  show "SubmitResult c m = Inr (m, [])" if "valid_id (sc_CommandID c)" "ma_commands m (sc_CommandID c) = Some (submit_fingerprint c)"
    using that by (simp add: SubmitResult_def checkCommand_def)
  show "SubmitResult c m = Inl ErrIdempotencyConflict"
    if "valid_id (sc_CommandID c)" "ma_commands m (sc_CommandID c) = Some f" "f \<noteq> submit_fingerprint c"
    using that by (simp add: SubmitResult_def checkCommand_cases)
  show "ma_commands s' = (ma_commands m)(sc_CommandID c \<mapsto> submit_fingerprint c)" if "SubmitResult c m = Inr (s', es)"
    using that unfolding SubmitResult_def Let_def
    by (auto simp: result_simps checkCommand_cases map_upd_triv split: if_splits prod.splits option.splits)
qed

interpretation confirm: idempotent_command ConfirmResult cc_CommandID confirm_fingerprint ma_commands valid_id ErrIdempotencyConflict
proof
  fix c m r s' es f
  show "valid_id (cc_CommandID c)" if "ConfirmResult c m = Inr r"
    using that by (auto simp: ConfirmResult_def checkCommand_def split: if_splits)
  show "ConfirmResult c m = Inr (m, [])" if "valid_id (cc_CommandID c)" "ma_commands m (cc_CommandID c) = Some (confirm_fingerprint c)"
    using that by (simp add: ConfirmResult_def checkCommand_def)
  show "ConfirmResult c m = Inl ErrIdempotencyConflict"
    if "valid_id (cc_CommandID c)" "ma_commands m (cc_CommandID c) = Some f" "f \<noteq> confirm_fingerprint c"
    using that by (simp add: ConfirmResult_def checkCommand_cases)
  show "ma_commands s' = (ma_commands m)(cc_CommandID c \<mapsto> confirm_fingerprint c)" if "ConfirmResult c m = Inr (s', es)"
    using that unfolding ConfirmResult_def Let_def
    by (auto simp: result_simps checkCommand_cases map_upd_triv split: if_splits prod.splits option.splits)
qed

interpretation dispute: idempotent_command DisputeResult dc_CommandID dispute_fingerprint ma_commands valid_id ErrIdempotencyConflict
proof
  fix c m r s' es f
  show "valid_id (dc_CommandID c)" if "DisputeResult c m = Inr r"
    using that by (auto simp: DisputeResult_def checkCommand_def Let_def split: if_splits)
  show "DisputeResult c m = Inr (m, [])" if "valid_id (dc_CommandID c)" "ma_commands m (dc_CommandID c) = Some (dispute_fingerprint c)"
    using that by (simp add: DisputeResult_def checkCommand_def Let_def)
  show "DisputeResult c m = Inl ErrIdempotencyConflict"
    if "valid_id (dc_CommandID c)" "ma_commands m (dc_CommandID c) = Some f" "f \<noteq> dispute_fingerprint c"
    using that by (simp add: DisputeResult_def checkCommand_cases Let_def)
  show "ma_commands s' = (ma_commands m)(dc_CommandID c \<mapsto> dispute_fingerprint c)" if "DisputeResult c m = Inr (s', es)"
    using that unfolding DisputeResult_def Let_def
    by (auto simp: result_simps checkCommand_cases map_upd_triv split: if_splits prod.splits option.splits)
qed

interpretation override: idempotent_command AdminOverride oc_CommandID "admin_fingerprint ''override''" ma_commands valid_id
  ErrIdempotencyConflict
proof
  fix c m r s' es f
  show "valid_id (oc_CommandID c)" if "AdminOverride c m = Inr r"
    using that by (auto simp: AdminOverride_def checkCommand_def Let_def split: if_splits)
  show "AdminOverride c m = Inr (m, [])"
    if "valid_id (oc_CommandID c)" "ma_commands m (oc_CommandID c) = Some (admin_fingerprint ''override'' c)"
    using that by (simp add: AdminOverride_def checkCommand_def Let_def)
  show "AdminOverride c m = Inl ErrIdempotencyConflict"
    if "valid_id (oc_CommandID c)" "ma_commands m (oc_CommandID c) = Some f" "f \<noteq> admin_fingerprint ''override'' c"
    using that by (simp add: AdminOverride_def checkCommand_cases Let_def)
  show "ma_commands s' = (ma_commands m)(oc_CommandID c \<mapsto> admin_fingerprint ''override'' c)" if "AdminOverride c m = Inr (s', es)"
    using that unfolding AdminOverride_def Let_def
    by (auto simp: result_simps checkCommand_cases map_upd_triv split: if_splits prod.splits option.splits)
qed

interpretation correct: idempotent_command CorrectResult oc_CommandID "admin_fingerprint ''correct''" ma_commands valid_id
  ErrIdempotencyConflict
proof
  fix c m r s' es f
  show "valid_id (oc_CommandID c)" if "CorrectResult c m = Inr r"
    using that by (auto simp: CorrectResult_def checkCommand_def Let_def split: if_splits)
  show "CorrectResult c m = Inr (m, [])"
    if "valid_id (oc_CommandID c)" "ma_commands m (oc_CommandID c) = Some (admin_fingerprint ''correct'' c)"
    using that by (simp add: CorrectResult_def checkCommand_def Let_def)
  show "CorrectResult c m = Inl ErrIdempotencyConflict"
    if "valid_id (oc_CommandID c)" "ma_commands m (oc_CommandID c) = Some f" "f \<noteq> admin_fingerprint ''correct'' c"
    using that by (simp add: CorrectResult_def checkCommand_cases Let_def)
  show "ma_commands s' = (ma_commands m)(oc_CommandID c \<mapsto> admin_fingerprint ''correct'' c)" if "CorrectResult c m = Inr (s', es)"
    using that unfolding CorrectResult_def Let_def
    by (auto simp: result_simps checkCommand_cases map_upd_triv split: if_splits prod.splits option.splits)
qed


section \<open>What a successful command did\<close>

lemma position_Some: "position p xs = Some k \<Longrightarrow> k < length xs \<and> p (xs ! k)"
  by (induction xs arbitrary: k) (auto split: if_splits)

lemma position_None: "position p xs = None \<longleftrightarrow> (\<forall>x \<in> set xs. \<not> p x)"
  by (induction xs) auto

abbreviation side_one :: "match_ \<Rightarrow> ID" where
  "side_one m \<equiv> ms_ID (sp_SideOne (ma_spec m))"

abbreviation side_two :: "match_ \<Rightarrow> ID" where
  "side_two m \<equiv> ms_ID (sp_SideTwo (ma_spec m))"

lemma actingSide_range: "actingSide m a = (s, e) \<Longrightarrow> (e \<longrightarrow> s \<in> {side_one m, side_two m}) \<and> (\<not> e \<longrightarrow> s = [])"
  by (auto simp: actingSide_def Let_def split: if_splits)

lemma SubmitResult_Inr:
  assumes "SubmitResult c m = Inr (m', es)"
  shows "(m' = m \<and> es = []) \<or>
    (Result_validate (sc_Result c) (side_one m) (side_two m) = None \<and> submissionByID m (sc_SubmissionID c) = None
     \<and> (\<exists>sub side eligible. actingSide m (sc_Actor c) = (side, eligible)
       \<and> su_ID sub = sc_SubmissionID c \<and> su_Result sub = normalized (sc_Result c) \<and> su_SubmitterSide sub = side
       \<and> su_SubmitterUser sub = ac_UserID (sc_Actor c)
       \<and> ((ma_state m = MatchAwaitingResult \<and> su_State sub = SubmissionPending
            \<and> m' = recordCommand (m\<lparr>ma_submissions := ma_submissions m @ [sub], ma_state := MatchAwaitingConfirmation\<rparr>)
                     (sc_CommandID c) (submit_fingerprint c))
          \<or> (ma_state m = MatchAwaitingConfirmation \<and> su_State sub = SubmissionDisputed
            \<and> (\<exists>k. pendingSubmission m = Some k \<and> su_SubmitterSide (ma_submissions m ! k) \<noteq> side
            \<and> m' = recordCommand (m\<lparr>ma_submissions := set_submission_state k SubmissionDisputed (ma_submissions m) @ [sub],
                       ma_state := MatchDisputed\<rparr>) (sc_CommandID c) (submit_fingerprint c))))))"
proof -
  from assms obtain replay where chk: "checkCommand m (sc_CommandID c) (submit_fingerprint c) = Inr replay"
    by (auto simp: SubmitResult_def result_simps)
  show ?thesis
  proof (cases replay)
    case True
    with assms chk show ?thesis by (simp add: SubmitResult_def)
  next
    case False
    obtain side eligible where side: "actingSide m (sc_Actor c) = (side, eligible)" by fastforce
    let ?sub = "\<lparr>su_ID = sc_SubmissionID c, su_SubmitterUser = ac_UserID (sc_Actor c),
             su_SubmitterPlayer = ac_PlayerID (sc_Actor c), su_SubmitterSide = side, su_Result = normalized (sc_Result c),
             su_State = SubmissionPending, su_SubmittedAt = UTC (sc_OccurredAt c)\<rparr>"
    have pre: "Result_validate (sc_Result c) (side_one m) (side_two m) = None" "submissionByID m (sc_SubmissionID c) = None"
      "ma_state m = MatchAwaitingResult \<or> ma_state m = MatchAwaitingConfirmation"
      using assms chk False side by (auto simp: SubmitResult_def Let_def result_simps)
    show ?thesis
    proof (cases "ma_state m = MatchAwaitingConfirmation")
      case True
      then obtain k where "pendingSubmission m = Some k" "su_SubmitterSide (ma_submissions m ! k) \<noteq> side"
        "m' = recordCommand (m\<lparr>ma_submissions := set_submission_state k SubmissionDisputed (ma_submissions m)
             @ [?sub\<lparr>su_State := SubmissionDisputed\<rparr>], ma_state := MatchDisputed\<rparr>) (sc_CommandID c) (submit_fingerprint c)"
        using assms chk False side by (auto simp: SubmitResult_def Let_def result_simps split: option.splits)
      with pre side True show ?thesis
        by (intro disjI2 conjI exI [of _ "?sub\<lparr>su_State := SubmissionDisputed\<rparr>"] exI [of _ side] exI [of _ eligible])
          auto
    next
      case other: False
      then have "m' = recordCommand (m\<lparr>ma_submissions := ma_submissions m @ [?sub], ma_state := MatchAwaitingConfirmation\<rparr>)
                     (sc_CommandID c) (submit_fingerprint c)"
        using assms chk False side by (auto simp: SubmitResult_def Let_def result_simps)
      with pre side other show ?thesis
        by (rule_tac disjI2, intro conjI exI [of _ ?sub] exI [of _ side] exI [of _ eligible]) auto
    qed
  qed
qed

lemma ConfirmResult_Inr:
  assumes "ConfirmResult c m = Inr (m', es)"
  shows "(m' = m \<and> es = []) \<or>
    (ma_state m = MatchAwaitingConfirmation \<and> verificationByID m (cc_VerificationID c) = None
     \<and> (\<exists>k side conf ver. submissionByID m (cc_SubmissionID c) = Some k \<and> actingSide m (cc_Actor c) = (side, True)
       \<and> \<not> isSubmitter (cc_Actor c) (ma_submissions m ! k)
       \<and> valid_id (su_SubmitterSide (ma_submissions m ! k)) \<and> side \<noteq> su_SubmitterSide (ma_submissions m ! k)
       \<and> cf_SubmissionID conf = su_ID (ma_submissions m ! k) \<and> cf_ActorUserID conf = ac_UserID (cc_Actor c)
       \<and> cf_ActorSideID conf = side \<and> cf_Decision conf = DecisionConfirmed
       \<and> ve_ID ver = cc_VerificationID c \<and> ve_Version ver = 1 \<and> ve_Result ver = su_Result (ma_submissions m ! k)
       \<and> ve_Method ver = VerificationOpponent \<and> ve_ActorUserID ver = ac_UserID (cc_Actor c)
       \<and> ve_SubmissionID ver = su_ID (ma_submissions m ! k) \<and> ve_SupersedesID ver = []
       \<and> m' = recordCommand (m\<lparr>ma_confirmations := ma_confirmations m @ [conf],
                 ma_submissions := set_submission_state k SubmissionConfirmed (ma_submissions m),
                 ma_verifiedResults := ma_verifiedResults m @ [ver], ma_state := MatchVerified\<rparr>)
                 (cc_CommandID c) (confirm_fingerprint c)))"
proof -
  from assms obtain replay where chk: "checkCommand m (cc_CommandID c) (confirm_fingerprint c) = Inr replay"
    by (auto simp: ConfirmResult_def result_simps)
  show ?thesis
  proof (cases replay)
    case True
    with assms chk show ?thesis by (simp add: ConfirmResult_def)
  next
    case False
    obtain side eligible where side: "actingSide m (cc_Actor c) = (side, eligible)" by fastforce
    with assms chk False obtain k where k: "submissionByID m (cc_SubmissionID c) = Some k"
      by (auto simp: ConfirmResult_def Let_def result_simps split: option.splits)
    let ?conf = "\<lparr>cf_ID = cc_ConfirmationID c, cf_SubmissionID = su_ID (ma_submissions m ! k),
             cf_ActorUserID = ac_UserID (cc_Actor c), cf_ActorSideID = side, cf_Decision = DecisionConfirmed,
             cf_Reason = [], cf_DecidedAt = UTC (cc_OccurredAt c)\<rparr>"
    let ?ver = "\<lparr>ve_ID = cc_VerificationID c, ve_Version = 1, ve_Result = su_Result (ma_submissions m ! k),
             ve_Method = VerificationOpponent, ve_ActorUserID = ac_UserID (cc_Actor c), ve_Reason = [],
             ve_SubmissionID = su_ID (ma_submissions m ! k), ve_SupersedesID = [], ve_VerifiedAt = UTC (cc_OccurredAt c)\<rparr>"
    show ?thesis
      by (intro disjI2 conjI exI [of _ k] exI [of _ side] exI [of _ ?conf] exI [of _ ?ver])
        (use assms chk False side k in \<open>auto simp: ConfirmResult_def Let_def result_simps\<close>)
  qed
qed

lemma DisputeResult_Inr:
  assumes "DisputeResult c m = Inr (m', es)"
  shows "(m' = m \<and> es = []) \<or>
    (ma_state m = MatchAwaitingConfirmation
     \<and> (\<exists>k conf. submissionByID m (dc_SubmissionID c) = Some k \<and> \<not> isSubmitter (dc_Actor c) (ma_submissions m ! k)
       \<and> m' = recordCommand (m\<lparr>ma_confirmations := ma_confirmations m @ [conf],
                 ma_submissions := set_submission_state k SubmissionDisputed (ma_submissions m),
                 ma_state := MatchDisputed\<rparr>) (dc_CommandID c) (dispute_fingerprint c)))"
proof -
  from assms obtain replay where chk: "checkCommand m (dc_CommandID c) (dispute_fingerprint c) = Inr replay"
    by (auto simp: DisputeResult_def Let_def result_simps)
  show ?thesis
  proof (cases replay)
    case True
    with assms chk show ?thesis by (simp add: DisputeResult_def Let_def)
  next
    case False
    obtain side eligible where side: "actingSide m (dc_Actor c) = (side, eligible)" by fastforce
    with assms chk False obtain k where "submissionByID m (dc_SubmissionID c) = Some k"
      by (auto simp: DisputeResult_def Let_def result_simps split: option.splits)
    with assms chk False side show ?thesis
      by (auto simp: DisputeResult_def Let_def result_simps split: option.splits if_splits)
  qed
qed

lemma AdminOverride_Inr:
  assumes "AdminOverride c m = Inr (m', es)"
  shows "(m' = m \<and> es = []) \<or>
    (ma_state m \<noteq> MatchVerified \<and> privileged (ac_Role (oc_Actor c)) \<and> \<not> blank (oc_Reason c)
     \<and> verificationByID m (oc_VerificationID c) = None
     \<and> Result_validate (oc_Result c) (side_one m) (side_two m) = None
     \<and> (\<exists>ver. ve_ID ver = oc_VerificationID c \<and> ve_Version ver = 1 \<and> ve_Result ver = normalized (oc_Result c)
       \<and> ve_Method ver = VerificationAdmin \<and> ve_SupersedesID ver = []
       \<and> m' = recordCommand (m\<lparr>ma_submissions := supersede_pending (ma_submissions m),
                 ma_verifiedResults := ma_verifiedResults m @ [ver], ma_state := MatchVerified\<rparr>)
                 (oc_CommandID c) (admin_fingerprint ''override'' c)))"
proof -
  from assms obtain replay where chk: "checkCommand m (oc_CommandID c) (admin_fingerprint ''override'' c) = Inr replay"
    by (auto simp: AdminOverride_def Let_def result_simps)
  show ?thesis
  proof (cases replay)
    case True
    with assms chk show ?thesis by (simp add: AdminOverride_def Let_def)
  next
    case False
    let ?ver = "\<lparr>ve_ID = oc_VerificationID c, ve_Version = 1, ve_Result = normalized (oc_Result c),
        ve_Method = VerificationAdmin, ve_ActorUserID = ac_UserID (oc_Actor c), ve_Reason = TrimSpace (oc_Reason c),
        ve_SubmissionID = [], ve_SupersedesID = [], ve_VerifiedAt = UTC (oc_OccurredAt c)\<rparr>"
    show ?thesis
      by (intro disjI2 conjI exI [of _ ?ver])
        (use assms chk False in \<open>auto simp: AdminOverride_def Let_def result_simps blank_def\<close>)
  qed
qed

lemma CorrectResult_Inr:
  assumes "CorrectResult c m = Inr (m', es)"
  shows "(m' = m \<and> es = []) \<or>
    (ma_state m = MatchVerified \<and> privileged (ac_Role (oc_Actor c)) \<and> \<not> blank (oc_Reason c)
     \<and> verificationByID m (oc_VerificationID c) = None \<and> ma_verifiedResults m \<noteq> []
     \<and> Result_validate (oc_Result c) (side_one m) (side_two m) = None
     \<and> \<not> Result_equal (ve_Result (last (ma_verifiedResults m))) (normalized (oc_Result c))
     \<and> (\<exists>ver. ve_ID ver = oc_VerificationID c \<and> ve_Version ver = ve_Version (last (ma_verifiedResults m)) + 1
       \<and> ve_Result ver = normalized (oc_Result c) \<and> ve_Method ver = VerificationCorrection
       \<and> ve_SupersedesID ver = ve_ID (last (ma_verifiedResults m))
       \<and> m' = recordCommand (m\<lparr>ma_verifiedResults := ma_verifiedResults m @ [ver]\<rparr>)
                 (oc_CommandID c) (admin_fingerprint ''correct'' c)))"
proof -
  from assms obtain replay where chk: "checkCommand m (oc_CommandID c) (admin_fingerprint ''correct'' c) = Inr replay"
    by (auto simp: CorrectResult_def Let_def result_simps)
  show ?thesis
  proof (cases replay)
    case True
    with assms chk show ?thesis by (simp add: CorrectResult_def Let_def)
  next
    case False
    let ?last = "last (ma_verifiedResults m)"
    let ?ver = "\<lparr>ve_ID = oc_VerificationID c, ve_Version = ve_Version ?last + 1, ve_Result = normalized (oc_Result c),
        ve_Method = VerificationCorrection, ve_ActorUserID = ac_UserID (oc_Actor c), ve_Reason = TrimSpace (oc_Reason c),
        ve_SubmissionID = [], ve_SupersedesID = ve_ID ?last, ve_VerifiedAt = UTC (oc_OccurredAt c)\<rparr>"
    show ?thesis
      by (intro disjI2 conjI exI [of _ ?ver])
        (use assms chk False in \<open>auto simp: CorrectResult_def Let_def result_simps blank_def\<close>)
  qed
qed


section \<open>Steps and invariant\<close>

inductive match_step :: "match_ \<Rightarrow> domain_event list \<Rightarrow> match_ \<Rightarrow> bool" where
  submit: "SubmitResult sc m = Inr (m', es) \<Longrightarrow> match_step m es m'"
| confirm: "ConfirmResult cc m = Inr (m', es) \<Longrightarrow> match_step m es m'"
| dispute: "DisputeResult dc m = Inr (m', es) \<Longrightarrow> match_step m es m'"
| override: "AdminOverride oc m = Inr (m', es) \<Longrightarrow> match_step m es m'"
| correct: "CorrectResult oc m = Inr (m', es) \<Longrightarrow> match_step m es m'"

inductive match_run :: "match_ \<Rightarrow> match_ \<Rightarrow> bool" where
  refl: "match_run m m"
| step: "match_run m u \<Longrightarrow> match_step u es v \<Longrightarrow> match_run m v"

inductive_cases match_stepE: "match_step m es m'"

definition result_ok :: "match_ \<Rightarrow> match_result \<Rightarrow> bool" where
  "result_ok m r \<longleftrightarrow> normalized r = r \<and> Result_validate r (side_one m) (side_two m) = None"

text \<open>The verified results: versions count up from one, each links the one it supersedes and differs from it.\<close>

definition version_chain :: "verified_result list \<Rightarrow> bool" where
  "version_chain vs \<longleftrightarrow> (\<forall>i < length vs. ve_Version (vs ! i) = of_nat (Suc i)
     \<and> (i = 0 \<longrightarrow> ve_Method (vs ! i) \<noteq> VerificationCorrection \<and> ve_SupersedesID (vs ! i) = [])
     \<and> (0 < i \<longrightarrow> ve_Method (vs ! i) = VerificationCorrection \<and> ve_SupersedesID (vs ! i) = ve_ID (vs ! (i - 1))
         \<and> ve_Result (vs ! i) \<noteq> ve_Result (vs ! (i - 1))))"

definition confirmed_by_opponent :: "match_ \<Rightarrow> verified_result \<Rightarrow> bool" where
  "confirmed_by_opponent m v \<longleftrightarrow> (\<exists>s \<in> set (ma_submissions m). \<exists>c \<in> set (ma_confirmations m).
     su_ID s = ve_SubmissionID v \<and> su_State s = SubmissionConfirmed \<and> su_Result s = ve_Result v
     \<and> cf_SubmissionID c = su_ID s \<and> cf_Decision c = DecisionConfirmed \<and> cf_ActorUserID c = ve_ActorUserID v
     \<and> ve_ActorUserID v \<noteq> su_SubmitterUser s
     \<and> {cf_ActorSideID c, su_SubmitterSide s} = {side_one m, side_two m} \<and> cf_ActorSideID c \<noteq> su_SubmitterSide s)"

definition state_inv :: "match_ \<Rightarrow> bool" where
  "state_inv m \<longleftrightarrow>
    (let pending = filter (\<lambda>s. su_State s = SubmissionPending) (ma_submissions m)
     in case ma_state m of
       MatchAwaitingResult \<Rightarrow> ma_submissions m = [] \<and> ma_confirmations m = [] \<and> ma_verifiedResults m = []
     | MatchAwaitingConfirmation \<Rightarrow> (\<exists>s. ma_submissions m = [s] \<and> su_State s = SubmissionPending)
         \<and> ma_confirmations m = [] \<and> ma_verifiedResults m = []
     | MatchDisputed \<Rightarrow> ma_submissions m \<noteq> [] \<and> pending = [] \<and> ma_verifiedResults m = []
     | MatchVerified \<Rightarrow> pending = [] \<and> ma_verifiedResults m \<noteq> [])"

definition match_inv :: "match_ \<Rightarrow> bool" where
  "match_inv m \<longleftrightarrow> state_inv m
     \<and> distinct (map su_ID (ma_submissions m)) \<and> distinct (map ve_ID (ma_verifiedResults m))
     \<and> (\<forall>s \<in> set (ma_submissions m). result_ok m (su_Result s) \<and> su_SubmitterSide s \<in> {[], side_one m, side_two m})
     \<and> (\<forall>v \<in> set (ma_verifiedResults m). result_ok m (ve_Result v)
         \<and> (ve_Method v = VerificationOpponent \<longrightarrow> confirmed_by_opponent m v))
     \<and> version_chain (ma_verifiedResults m)"

lemma version_chain_Nil [simp]: "version_chain []"
  by (simp add: version_chain_def)

lemma version_chain_single:
  "ve_Version v = 1 \<Longrightarrow> ve_Method v \<noteq> VerificationCorrection \<Longrightarrow> ve_SupersedesID v = [] \<Longrightarrow> version_chain [v]"
  by (simp add: version_chain_def)

lemma version_chain_snoc:
  assumes "version_chain vs" "vs \<noteq> []" "ve_Version v = ve_Version (last vs) + 1" "ve_Method v = VerificationCorrection"
    and "ve_SupersedesID v = ve_ID (last vs)" "ve_Result v \<noteq> ve_Result (last vs)"
  shows "version_chain (vs @ [v])"
proof -
  have last: "last vs = vs ! (length vs - 1)" using assms(2) by (rule last_conv_nth)
  then have "ve_Version (last vs) = of_nat (length vs)"
    using assms(1,2) by (cases "length vs") (auto simp: version_chain_def)
  with assms last show ?thesis
    by (auto simp: version_chain_def nth_append less_Suc_eq)
qed

lemma NewMatch_inv: "NewMatch spec t1 t2 = Inr m \<Longrightarrow> match_inv m \<and> ma_commands m = (\<lambda>_. None)"
  by (auto simp: NewMatch_def result_simps match_inv_def state_inv_def)

lemma submissionByID_Some: "submissionByID m i = Some k \<Longrightarrow> k < length (ma_submissions m) \<and> su_ID (ma_submissions m ! k) = i"
  by (auto simp: submissionByID_def dest: position_Some)

lemma pendingSubmission_Some: "pendingSubmission m = Some k \<Longrightarrow> k < length (ma_submissions m)"
  by (auto simp: pendingSubmission_def dest: position_Some)

lemma match_step_inv:
  assumes "match_step m es m'" "match_inv m"
  shows "match_inv m' \<and> ma_spec m' = ma_spec m \<and> ma_teams m' = ma_teams m"
  using assms(1)
proof (cases rule: match_step.cases)
  case (submit c)
  from SubmitResult_Inr [OF submit] show ?thesis
  proof (elim disjE conjE exE)
    fix sub side eligible
    assume "Result_validate (sc_Result c) (side_one m) (side_two m) = None" "submissionByID m (sc_SubmissionID c) = None"
      "actingSide m (sc_Actor c) = (side, eligible)" "su_Result sub = normalized (sc_Result c)" "su_SubmitterSide sub = side"
      "ma_state m = MatchAwaitingResult" "su_State sub = SubmissionPending"
      "m' = recordCommand (m\<lparr>ma_submissions := ma_submissions m @ [sub], ma_state := MatchAwaitingConfirmation\<rparr>)
                     (sc_CommandID c) (submit_fingerprint c)"
    with assms(2) actingSide_range [of m "sc_Actor c" side eligible] show ?thesis
      by (auto simp: match_inv_def state_inv_def Let_def result_ok_def)
  next
    fix sub side eligible k
    assume *: "Result_validate (sc_Result c) (side_one m) (side_two m) = None" "submissionByID m (sc_SubmissionID c) = None"
      "actingSide m (sc_Actor c) = (side, eligible)" "su_ID sub = sc_SubmissionID c"
      "su_Result sub = normalized (sc_Result c)" "su_SubmitterSide sub = side"
      "ma_state m = MatchAwaitingConfirmation" "su_State sub = SubmissionDisputed" "pendingSubmission m = Some k"
      "m' = recordCommand (m\<lparr>ma_submissions := set_submission_state k SubmissionDisputed (ma_submissions m) @ [sub],
                       ma_state := MatchDisputed\<rparr>) (sc_CommandID c) (submit_fingerprint c)"
    with assms(2) obtain s where s: "ma_submissions m = [s]" "su_State s = SubmissionPending" "ma_confirmations m = []"
        "ma_verifiedResults m = []"
      by (auto simp: match_inv_def state_inv_def Let_def)
    then have "k = 0" using pendingSubmission_Some [OF *(9)] by simp
    with * s assms(2) actingSide_range [OF *(3)] show ?thesis
      by (auto simp: match_inv_def state_inv_def Let_def result_ok_def set_submission_state_def submissionByID_def)
  qed (use assms(2) in auto)
next
  case (confirm c)
  from ConfirmResult_Inr [OF confirm] show ?thesis
  proof (elim disjE conjE exE)
    fix k side conf ver
    assume *: "ma_state m = MatchAwaitingConfirmation" "submissionByID m (cc_SubmissionID c) = Some k"
      "actingSide m (cc_Actor c) = (side, True)" "\<not> isSubmitter (cc_Actor c) (ma_submissions m ! k)"
      "valid_id (su_SubmitterSide (ma_submissions m ! k))" "side \<noteq> su_SubmitterSide (ma_submissions m ! k)"
      "cf_SubmissionID conf = su_ID (ma_submissions m ! k)" "cf_ActorUserID conf = ac_UserID (cc_Actor c)"
      "cf_ActorSideID conf = side" "cf_Decision conf = DecisionConfirmed" "ve_Version ver = 1"
      "ve_Result ver = su_Result (ma_submissions m ! k)" "ve_Method ver = VerificationOpponent"
      "ve_ActorUserID ver = ac_UserID (cc_Actor c)" "ve_SubmissionID ver = su_ID (ma_submissions m ! k)"
      "ve_SupersedesID ver = []"
      "m' = recordCommand (m\<lparr>ma_confirmations := ma_confirmations m @ [conf],
                 ma_submissions := set_submission_state k SubmissionConfirmed (ma_submissions m),
                 ma_verifiedResults := ma_verifiedResults m @ [ver], ma_state := MatchVerified\<rparr>)
                 (cc_CommandID c) (confirm_fingerprint c)"
    with assms(2) obtain s where s: "ma_submissions m = [s]" "su_State s = SubmissionPending" "ma_confirmations m = []"
        "ma_verifiedResults m = []"
      by (auto simp: match_inv_def state_inv_def Let_def)
    then have k: "k = 0" using submissionByID_Some [OF *(2)] by simp
    have "su_SubmitterSide s \<noteq> []" using *(5) s k by (auto simp: valid_id_blank)
    then have sides: "{side, su_SubmitterSide s} = {side_one m, side_two m}"
      using *(6) s k assms(2) actingSide_range [OF *(3)] by (auto simp: match_inv_def)
    have chain: "version_chain [ver]" using * by (intro version_chain_single) auto
    have "confirmed_by_opponent m' ver"
      using * s k sides by (auto simp: confirmed_by_opponent_def set_submission_state_def isSubmitter_def)
    with * s k chain assms(2) show ?thesis
      by (auto simp: match_inv_def state_inv_def Let_def result_ok_def set_submission_state_def)
  qed (use assms(2) in auto)
next
  case (dispute c)
  from DisputeResult_Inr [OF dispute] show ?thesis
  proof (elim disjE conjE exE)
    fix k conf
    assume *: "ma_state m = MatchAwaitingConfirmation" "submissionByID m (dc_SubmissionID c) = Some k"
      "m' = recordCommand (m\<lparr>ma_confirmations := ma_confirmations m @ [conf],
                 ma_submissions := set_submission_state k SubmissionDisputed (ma_submissions m),
                 ma_state := MatchDisputed\<rparr>) (dc_CommandID c) (dispute_fingerprint c)"
    with assms(2) obtain s where s: "ma_submissions m = [s]" "su_State s = SubmissionPending" "ma_confirmations m = []"
        "ma_verifiedResults m = []"
      by (auto simp: match_inv_def state_inv_def Let_def)
    then have "k = 0" using submissionByID_Some [OF *(2)] by simp
    with * s assms(2) show ?thesis
      by (auto simp: match_inv_def state_inv_def Let_def result_ok_def set_submission_state_def)
  qed (use assms(2) in auto)
next
  case (override c)
  from AdminOverride_Inr [OF override] show ?thesis
  proof (elim disjE conjE exE)
    fix ver
    assume *: "ma_state m \<noteq> MatchVerified" "Result_validate (oc_Result c) (side_one m) (side_two m) = None"
      "ve_Version ver = 1" "ve_Result ver = normalized (oc_Result c)" "ve_Method ver = VerificationAdmin" "ve_SupersedesID ver = []"
      "m' = recordCommand (m\<lparr>ma_submissions := supersede_pending (ma_submissions m),
                 ma_verifiedResults := ma_verifiedResults m @ [ver], ma_state := MatchVerified\<rparr>)
                 (oc_CommandID c) (admin_fingerprint ''override'' c)"
    have none: "ma_verifiedResults m = []"
      using assms(2) *(1) by (cases "ma_state m") (auto simp: match_inv_def state_inv_def Let_def)
    have ids: "map su_ID (supersede_pending (ma_submissions m)) = map su_ID (ma_submissions m)"
      by (auto simp: supersede_pending_def)
    have chain: "version_chain [ver]" using * by (intro version_chain_single) auto
    have "filter (\<lambda>s. su_State s = SubmissionPending) (supersede_pending (ma_submissions m)) = []"
      by (auto simp: supersede_pending_def filter_empty_conv)
    moreover have "\<forall>s \<in> set (supersede_pending (ma_submissions m)). result_ok m (su_Result s)
        \<and> su_SubmitterSide s \<in> {[], side_one m, side_two m}"
      using assms(2) by (auto simp: supersede_pending_def match_inv_def)
    ultimately show ?thesis
      using * none ids chain assms(2) by (simp add: match_inv_def state_inv_def Let_def result_ok_def)
  qed (use assms(2) in auto)
next
  case (correct c)
  from CorrectResult_Inr [OF correct] show ?thesis
  proof (elim disjE conjE exE)
    fix ver
    assume *: "ma_state m = MatchVerified" "verificationByID m (oc_VerificationID c) = None" "ma_verifiedResults m \<noteq> []"
      "Result_validate (oc_Result c) (side_one m) (side_two m) = None"
      "\<not> Result_equal (ve_Result (last (ma_verifiedResults m))) (normalized (oc_Result c))"
      "ve_ID ver = oc_VerificationID c" "ve_Version ver = ve_Version (last (ma_verifiedResults m)) + 1"
      "ve_Result ver = normalized (oc_Result c)" "ve_Method ver = VerificationCorrection"
      "ve_SupersedesID ver = ve_ID (last (ma_verifiedResults m))"
      "m' = recordCommand (m\<lparr>ma_verifiedResults := ma_verifiedResults m @ [ver]\<rparr>)
                 (oc_CommandID c) (admin_fingerprint ''correct'' c)"
    have inv: "version_chain (ma_verifiedResults m)" using assms(2) by (simp add: match_inv_def)
    have "normalized (ve_Result (last (ma_verifiedResults m))) = ve_Result (last (ma_verifiedResults m))"
      using assms(2) *(3) by (auto simp: match_inv_def result_ok_def)
    then have "ve_Result ver \<noteq> ve_Result (last (ma_verifiedResults m))" using *(5,8) by (auto simp: Result_equal_def)
    then have "version_chain (ma_verifiedResults m @ [ver])"
      using * inv by (intro version_chain_snoc) auto
    moreover have "ve_ID ver \<notin> ve_ID ` set (ma_verifiedResults m)"
      using *(2,6) by (auto simp: verificationByID_def position_None)
    moreover have "confirmed_by_opponent m' v" if "confirmed_by_opponent m v" for v
      using that *(11) by (simp add: confirmed_by_opponent_def)
    ultimately show ?thesis
      using * assms(2) by (auto simp: match_inv_def state_inv_def Let_def result_ok_def)
  qed (use assms(2) in auto)
qed

lemma match_run_inv: "match_run m u \<Longrightarrow> match_inv m \<Longrightarrow> match_inv u \<and> ma_spec u = ma_spec m \<and> ma_teams u = ma_teams m"
  by (induction rule: match_run.induct) (auto dest: match_step_inv)

lemma match_step_log: "match_step m es m' \<Longrightarrow> ma_commands m \<subseteq>\<^sub>m ma_commands m'"
  by (erule match_step.cases)
    (auto dest: submit.log_grows confirm.log_grows dispute.log_grows override.log_grows correct.log_grows)

lemma match_run_log: "match_run m u \<Longrightarrow> ma_commands m \<subseteq>\<^sub>m ma_commands u"
  by (induction rule: match_run.induct) (auto intro: map_le_trans dest: match_step_log)


section \<open>Properties\<close>

text \<open>C26 match_invariant: whatever commands a match runs, its state agrees with its records (one pending
  submission exactly while a confirmation is awaited, a verified result exactly once it is verified),
  every submitted and verified result names a side of the match, and the verified versions count up
  from one, each correction linking the version it supersedes and changing its result.\<close>

theorem match_invariant:
  assumes "NewMatch spec t1 t2 = Inr m" "match_run m u"
  shows "state_inv u \<and> version_chain (ma_verifiedResults u)
    \<and> distinct (map su_ID (ma_submissions u)) \<and> distinct (map ve_ID (ma_verifiedResults u))
    \<and> (\<forall>s \<in> set (ma_submissions u). result_ok u (su_Result s)) \<and> (\<forall>v \<in> set (ma_verifiedResults u). result_ok u (ve_Result v))
    \<and> ma_spec u = ma_spec m"
  using match_run_inv [OF assms(2)] NewMatch_inv [OF assms(1)] by (simp add: match_inv_def)

text \<open>C19 opponent_verified: a result verified by the opponent was submitted by one side and confirmed by
  a different user acting for the other side, and is the result that was submitted.\<close>

theorem opponent_verified:
  assumes "NewMatch spec t1 t2 = Inr m" "match_run m u"
    and "v \<in> set (ma_verifiedResults u)" "ve_Method v = VerificationOpponent"
  shows "confirmed_by_opponent u v"
  using match_run_inv [OF assms(2)] NewMatch_inv [OF assms(1)] assms(3,4) by (simp add: match_inv_def)

text \<open>On a reachable match no correction reads past the end of the verified results.\<close>

lemma correct_no_panic:
  assumes "NewMatch spec t1 t2 = Inr m" "match_run m u"
  shows "CorrectResult c u \<noteq> Inl IndexPanic"
proof -
  have "match_inv u" using match_run_inv [OF assms(2)] NewMatch_inv [OF assms(1)] by blast
  then have ne: "ma_state u = MatchVerified \<Longrightarrow> ma_verifiedResults u \<noteq> []"
    by (simp add: match_inv_def state_inv_def Let_def)
  have "checkCommand u i f \<noteq> Inl IndexPanic" "validateCommand a t is \<noteq> Some IndexPanic"
    "Result_validate r x y \<noteq> Some IndexPanic" "transition s st \<noteq> IndexPanic" for i f a t "is" r x y s st
    by (auto simp: checkCommand_def validateCommand_def Actor_validate_def Result_validate_def transition_def
        split: option.splits result_outcome.splits)
  with ne show ?thesis by (auto simp: CorrectResult_def Let_def split: sum.splits option.splits)
qed

text \<open>A command that ran once is a no-op whenever it is delivered again, however many
  other commands ran in between; and its identifier is refused for any other content.\<close>

lemma command_replay:
  assumes "match_run m1 m2"
  shows "(SubmitResult sc m = Inr (m1, es) \<longrightarrow> SubmitResult sc m2 = Inr (m2, []))
    \<and> (ConfirmResult cc m = Inr (m1, es) \<longrightarrow> ConfirmResult cc m2 = Inr (m2, []))
    \<and> (DisputeResult dc m = Inr (m1, es) \<longrightarrow> DisputeResult dc m2 = Inr (m2, []))
    \<and> (AdminOverride oc m = Inr (m1, es) \<longrightarrow> AdminOverride oc m2 = Inr (m2, []))
    \<and> (CorrectResult oc m = Inr (m1, es) \<longrightarrow> CorrectResult oc m2 = Inr (m2, []))
    \<and> (SubmitResult sc m = Inr (m1, es) \<and> sc_CommandID sd = sc_CommandID sc \<and> submit_fingerprint sd \<noteq> submit_fingerprint sc
        \<longrightarrow> SubmitResult sd m2 = Inl ErrIdempotencyConflict)
    \<and> (ConfirmResult cc m = Inr (m1, es) \<and> cc_CommandID cd = cc_CommandID cc \<and> confirm_fingerprint cd \<noteq> confirm_fingerprint cc
        \<longrightarrow> ConfirmResult cd m2 = Inl ErrIdempotencyConflict)"
proof -
  note L = match_run_log [OF assms]
  show ?thesis
    by (intro conjI impI; (elim conjE)?)
      (erule submit.again [OF _ L] confirm.again [OF _ L] dispute.again [OF _ L] override.again [OF _ L]
        correct.again [OF _ L] submit.reused [OF _ L] confirm.reused [OF _ L]; assumption?)+
qed

text \<open>Once a match is verified only a privileged correction with a reason and a changed
  result adds anything to it; members can neither submit, confirm nor dispute.\<close>

lemma verified_final:
  assumes "match_step u es v" "ma_state u = MatchVerified" "v \<noteq> u"
  shows "\<exists>c ver. CorrectResult c u = Inr (v, es) \<and> privileged (ac_Role (oc_Actor c)) \<and> \<not> blank (oc_Reason c)
    \<and> ma_verifiedResults v = ma_verifiedResults u @ [ver] \<and> \<not> Result_equal (ve_Result (last (ma_verifiedResults u))) (ve_Result ver)
    \<and> ma_state v = MatchVerified \<and> ma_submissions v = ma_submissions u \<and> ma_confirmations v = ma_confirmations u"
  using assms(1)
proof (cases rule: match_step.cases)
  case (correct c)
  with CorrectResult_Inr [OF correct] assms(2,3) show ?thesis by auto
qed (use assms(2,3) in \<open>auto dest!: SubmitResult_Inr ConfirmResult_Inr DisputeResult_Inr AdminOverride_Inr\<close>)

lemma check_participants_Inr:
  "check_participants t ps seen = Inr s \<longleftrightarrow> (\<forall>p \<in> set ps. hasMember t p) \<and> distinct ps \<and> set ps \<inter> set seen = {} \<and> s = rev ps @ seen"
  by (induction t ps seen rule: check_participants.induct) auto

text \<open>The two sides of a new match have different identifiers, the number of players the
  format asks for, and no player in common; every player is on the side's team.\<close>

lemma NewMatch_sides:
  assumes "NewMatch spec t1 t2 = Inr m"
  shows "side_one m \<noteq> side_two m \<and> valid_id (side_one m) \<and> valid_id (side_two m)
    \<and> distinct (ms_Participants (sp_SideOne (ma_spec m)) @ ms_Participants (sp_SideTwo (ma_spec m)))
    \<and> (\<forall>p \<in> set (ms_Participants (sp_SideOne (ma_spec m))). hasMember t1 p)
    \<and> (\<forall>p \<in> set (ms_Participants (sp_SideTwo (ma_spec m))). hasMember t2 p)
    \<and> (sp_Format (ma_spec m) = FormatSingles \<longrightarrow> length (ms_Participants (sp_SideOne (ma_spec m))) = 1
        \<and> length (ms_Participants (sp_SideTwo (ma_spec m))) = 1)
    \<and> (sp_Format (ma_spec m) \<in> {FormatFourball, FormatFoursomes, FormatScramble} \<longrightarrow>
        length (ms_Participants (sp_SideOne (ma_spec m))) = 2 \<and> length (ms_Participants (sp_SideTwo (ma_spec m))) = 2)"
proof -
  have one: "length xs = Suc 0" if "\<not> Suc 0 < length xs" "xs \<noteq> []" for xs :: "string list"
    using that by (cases xs) auto
  have single: "length (ms_Participants (sp_SideOne spec)) = Suc 0" "length (ms_Participants (sp_SideTwo spec)) = Suc 0"
    if "sp_Format spec = FormatSingles"
    using assms that
    by (auto simp: NewMatch_def result_simps ValidateParticipantCounts_def simp del: One_nat_def intro!: one)
  show ?thesis
    using assms
    by (auto simp: NewMatch_def result_simps check_participants_Inr ValidateParticipantCounts_def single)
qed

end
