(* ===== verification/Match_Examples.thy ===== *)
theory Match_Examples
  imports Match_Lifecycle
begin

text \<open>
  A concrete singles match, evaluated by the kernel: one side submits, the other confirms, an admin corrects.
  The properties of \<open>Match_Lifecycle\<close> are applied to its states.
\<close>

definition ex_team :: "string \<Rightarrow> ID \<Rightarrow> team" where
  "ex_team i p = \<lparr>te_ID = i, te_EventID = ''ev'', te_Name = i, te_Members = [p], te_CaptainIDs = [p]\<rparr>"

definition ex_spec :: match_spec where
  "ex_spec = \<lparr>sp_ID = ''m'', sp_EventID = ''ev'', sp_Format = FormatSingles,
     sp_SideOne = \<lparr>ms_ID = ''s1'', ms_TeamID = ''t1'', ms_Participants = [''p1'']\<rparr>,
     sp_SideTwo = \<lparr>ms_ID = ''s2'', ms_TeamID = ''t2'', ms_Participants = [''p2'']\<rparr>, sp_Scheduled = Time 5 True\<rparr>"

definition ex_result :: "ID \<Rightarrow> match_result" where
  "ex_result s = \<lparr>re_Outcome = OutcomeSideWin, re_WinningSideID = s, re_Score = ''3&2''\<rparr>"

definition ex_submit :: submit_result_command where
  "ex_submit = \<lparr>sc_CommandID = ''c1'', sc_SubmissionID = ''sub'', sc_Actor = \<lparr>ac_UserID = ''u1'', ac_PlayerID = ''p1'', ac_Role = RoleMember\<rparr>,
     sc_Result = ex_result ''s1'', sc_OccurredAt = Time 6 True\<rparr>"

definition ex_confirm :: confirm_result_command where
  "ex_confirm = \<lparr>cc_CommandID = ''c2'', cc_ConfirmationID = ''conf'', cc_VerificationID = ''v1'', cc_SubmissionID = ''sub'',
     cc_Actor = \<lparr>ac_UserID = ''u2'', ac_PlayerID = ''p2'', ac_Role = RoleMember\<rparr>, cc_OccurredAt = Time 7 True\<rparr>"

definition ex_correct :: admin_result_command where
  "ex_correct = \<lparr>oc_CommandID = ''c3'', oc_VerificationID = ''v2'', oc_Actor = \<lparr>ac_UserID = ''u3'', ac_PlayerID = [], ac_Role = RoleAdmin\<rparr>,
     oc_Result = ex_result ''s2'', oc_Reason = ''card error'', oc_OccurredAt = Time 8 True\<rparr>"

lemma ex_match:
  "\<exists>m m1 e1 m2 e2 m3 e3. NewMatch ex_spec (ex_team ''t1'' ''p1'') (ex_team ''t2'' ''p2'') = Inr m
     \<and> SubmitResult ex_submit m = Inr (m1, e1) \<and> ConfirmResult ex_confirm m1 = Inr (m2, e2) \<and> CorrectResult ex_correct m2 = Inr (m3, e3)
     \<and> ma_state m2 = MatchVerified \<and> length (ma_verifiedResults m2) = 1 \<and> length (ma_verifiedResults m3) = 2
     \<and> ve_Method (ma_verifiedResults m2 ! 0) = VerificationOpponent"
proof -
  have "case NewMatch ex_spec (ex_team ''t1'' ''p1'') (ex_team ''t2'' ''p2'') of Inl e \<Rightarrow> False | Inr m \<Rightarrow>
     (case SubmitResult ex_submit m of Inl e \<Rightarrow> False | Inr (m1, e1) \<Rightarrow>
     (case ConfirmResult ex_confirm m1 of Inl e \<Rightarrow> False | Inr (m2, e2) \<Rightarrow>
     (case CorrectResult ex_correct m2 of Inl e \<Rightarrow> False | Inr (m3, e3) \<Rightarrow>
        ma_state m2 = MatchVerified \<and> length (ma_verifiedResults m2) = 1 \<and> length (ma_verifiedResults m3) = 2
        \<and> ve_Method (ma_verifiedResults m2 ! 0) = VerificationOpponent)))"
    by code_simp
  then show ?thesis by (auto split: sum.splits prod.splits)
qed

text \<open>The states of the run, with what later statements use.\<close>

lemma ex_match_run:
  obtains m m1 e1 m2 e2 m3 e3 where
    "NewMatch ex_spec (ex_team ''t1'' ''p1'') (ex_team ''t2'' ''p2'') = Inr m" "SubmitResult ex_submit m = Inr (m1, e1)"
    "ConfirmResult ex_confirm m1 = Inr (m2, e2)" "CorrectResult ex_correct m2 = Inr (m3, e3)"
    "match_run m m3" "match_run m1 m3" "match_run m m2" "ma_state m2 = MatchVerified" "m3 \<noteq> m2" "length (ma_verifiedResults m3) = 2"
    "\<exists>v. ma_verifiedResults m2 = [v] \<and> ve_Method v = VerificationOpponent"
proof -
  obtain m m1 e1 m2 e2 m3 e3 where R:
    "NewMatch ex_spec (ex_team ''t1'' ''p1'') (ex_team ''t2'' ''p2'') = Inr m" "SubmitResult ex_submit m = Inr (m1, e1)"
    "ConfirmResult ex_confirm m1 = Inr (m2, e2)" "CorrectResult ex_correct m2 = Inr (m3, e3)"
    "ma_state m2 = MatchVerified" "length (ma_verifiedResults m2) = 1" "length (ma_verifiedResults m3) = 2"
    "ve_Method (ma_verifiedResults m2 ! 0) = VerificationOpponent"
    using ex_match by blast
  have r1: "match_run m m1" by (rule match_run.step [OF match_run.refl match_step.submit [OF R(2)]])
  have r2: "match_run m m2" by (rule match_run.step [OF r1 match_step.confirm [OF R(3)]])
  have r3: "match_run m m3" by (rule match_run.step [OF r2 match_step.correct [OF R(4)]])
  have r13: "match_run m1 m3"
    by (rule match_run.step [OF match_run.step [OF match_run.refl match_step.confirm [OF R(3)]] match_step.correct [OF R(4)]])
  have "\<exists>v. ma_verifiedResults m2 = [v] \<and> ve_Method v = VerificationOpponent"
    using R(6,8) by (cases "ma_verifiedResults m2") auto
  moreover have "m3 \<noteq> m2" using R(6,7) by auto
  ultimately show thesis using that R r2 r3 r13 by blast
qed

theorem match_invariant_witness:
  "\<exists>m u. NewMatch ex_spec (ex_team ''t1'' ''p1'') (ex_team ''t2'' ''p2'') = Inr m \<and> match_run m u
     \<and> length (ma_verifiedResults u) = 2 \<and> version_chain (ma_verifiedResults u)"
  by (rule ex_match_run) (use match_invariant in blast)

theorem opponent_verified_witness:
  "\<exists>m u v. NewMatch ex_spec (ex_team ''t1'' ''p1'') (ex_team ''t2'' ''p2'') = Inr m \<and> match_run m u
     \<and> ma_verifiedResults u = [v] \<and> confirmed_by_opponent u v"
  by (rule ex_match_run) (use opponent_verified in \<open>metis list.set_intros(1)\<close>)

lemma correct_no_panic_witness:
  "\<exists>m u. NewMatch ex_spec (ex_team ''t1'' ''p1'') (ex_team ''t2'' ''p2'') = Inr m \<and> match_run m u
     \<and> ma_state u = MatchVerified \<and> CorrectResult ex_correct u \<noteq> Inl IndexPanic"
  by (rule ex_match_run) (use correct_no_panic in blast)

theorem command_replay_witness:
  "\<exists>m m1 e m3. SubmitResult ex_submit m = Inr (m1, e) \<and> match_run m1 m3 \<and> SubmitResult ex_submit m3 = Inr (m3, [])"
  by (rule ex_match_run) (use command_replay in blast)

theorem verified_final_witness:
  "\<exists>u v es. CorrectResult ex_correct u = Inr (v, es) \<and> ma_state u = MatchVerified \<and> ma_state v = MatchVerified
     \<and> ma_submissions v = ma_submissions u"
proof (rule ex_match_run)
  fix m m1 e1 m2 e2 m3 e3
  assume "CorrectResult ex_correct m2 = Inr (m3, e3)" "ma_state m2 = MatchVerified" "m3 \<noteq> m2"
  with verified_final [OF match_step.correct [OF this(1)] this(2,3)] show ?thesis by blast
qed

lemma NewMatch_sides_witness:
  "\<exists>m. NewMatch ex_spec (ex_team ''t1'' ''p1'') (ex_team ''t2'' ''p2'') = Inr m \<and> side_one m \<noteq> side_two m"
  by (rule ex_match_run) (use NewMatch_sides in blast)

end
