(* ===== verification/Identity_Types.thy ===== *)
theory Identity_Types
  imports Json
begin

text \<open>
  \<open>internal/identity/types.go\<close>, \<open>errors.go\<close> and \<open>authorization.go\<close>: the data of the sign-in
  boundary with its validation, and the permission table. The record \<open>platform\<close> holds what is taken
  from outside: \<open>strings.ToLower\<close> beyond ASCII (the Unicode case tables), \<open>mail.ParseAddress\<close> and
  SHA-256; nothing is assumed of them here.
\<close>

section \<open>The platform\<close>

record platform =
  p_lower :: "string \<Rightarrow> string" \<comment> \<open>\<open>strings.ToLower\<close> on a string with a byte outside ASCII\<close>
  p_address :: "string \<Rightarrow> (string \<times> string) option" \<comment> \<open>\<open>mail.ParseAddress\<close>: name and address\<close>
  p_sha256 :: "string \<Rightarrow> string"

definition lower_char :: "char \<Rightarrow> char" where
  "lower_char c = (if between 65 90 c then char_of (byte c + 32) else c)"

definition ToLower :: "platform \<Rightarrow> string \<Rightarrow> string" where
  "ToLower P s = (if list_all (\<lambda>c. byte c < 128) s then map lower_char s else p_lower P s)"

function RuneCount :: "string \<Rightarrow> nat" where
  \<comment> \<open>\<open>utf8.RuneCountInString\<close>: an invalid byte counts as one rune\<close>
  "RuneCount [] = 0"
| "RuneCount (c # s) = Suc (RuneCount (drop (case utf8_size (c # s) of Some (Suc n) \<Rightarrow> n | _ \<Rightarrow> 0) s))"
  by pat_completeness auto
termination by (relation "measure length") auto

section \<open>Errors, identifiers, providers\<close>

datatype identity_error =
    ErrInvalidIdentity | ErrInvalidPrincipal | ErrInvalidSession | ErrInvalidSecret | ErrSignInNotAllowed
  | ErrUnauthenticated | ErrUnauthorized | ErrSessionExpired | ErrSessionRevoked | ErrInvalidCSRF
  | ErrSecretGeneration | ErrRepositoryContract
  | StoreError string \<comment> \<open>an error of the store's own\<close>

type_synonym ID = string

definition ID_Valid :: "ID \<Rightarrow> bool" where
  "ID_Valid v \<longleftrightarrow>
     \<not> (length v \<noteq> 36 \<or> v ! 8 \<noteq> CHR ''-'' \<or> v ! 13 \<noteq> CHR ''-'' \<or> v ! 18 \<noteq> CHR ''-'' \<or> v ! 23 \<noteq> CHR ''-'')
     \<and> (let compact = filter (\<lambda>c. c \<noteq> CHR ''-'') v in even (length compact) \<and> list_all is_hex compact)"

definition providerPattern :: "string \<Rightarrow> bool" where
  \<comment> \<open>\<open>^[a-z][a-z0-9_-]{1,31}$\<close>\<close>
  "providerPattern s = (case s of [] \<Rightarrow> False
     | c # r \<Rightarrow> between 97 122 c \<and> 1 \<le> length r \<and> length r \<le> 31
        \<and> list_all (\<lambda>d. between 97 122 d \<or> is_digit d \<or> d = CHR ''_'' \<or> d = CHR ''-'') r)"

definition ParseProvider :: "platform \<Rightarrow> string \<Rightarrow> identity_error + string" where
  "ParseProvider P value =
    (let value = ToLower P (TrimSpace value)
     in if \<not> providerPattern value then Inl ErrInvalidIdentity else Inr value)"

definition Provider_Validate :: "platform \<Rightarrow> string \<Rightarrow> identity_error option" where
  "Provider_Validate P p = (case ParseProvider P p of
      Inl _ \<Rightarrow> Some ErrInvalidIdentity
    | Inr parsed \<Rightarrow> if parsed \<noteq> p then Some ErrInvalidIdentity else None)"

definition NormalizeEmail :: "platform \<Rightarrow> string \<Rightarrow> identity_error + string" where
  "NormalizeEmail P value =
    (let value = ToLower P (TrimSpace value)
     in if value = [] \<or> RuneCount value > 320 then Inl ErrInvalidIdentity
        else case p_address P value of
          None \<Rightarrow> Inl ErrInvalidIdentity
        | Some (name, address) \<Rightarrow> if name \<noteq> [] \<or> address \<noteq> value then Inl ErrInvalidIdentity else Inr value)"

section \<open>Identities\<close>

record identity_key =
  k_Provider :: string
  k_Subject :: string

record verified_identity =
  vi_Provider :: string
  vi_Subject :: string
  vi_Email :: string
  vi_EmailVerified :: bool
  vi_DisplayName :: string

definition Key :: "verified_identity \<Rightarrow> identity_key" where
  "Key i = \<lparr>k_Provider = vi_Provider i, k_Subject = vi_Subject i\<rparr>"

definition IdentityKey_Validate :: "platform \<Rightarrow> identity_key \<Rightarrow> identity_error option" where
  "IdentityKey_Validate P k =
    (case Provider_Validate P (k_Provider k) of Some e \<Rightarrow> Some e
     | None \<Rightarrow> if TrimSpace (k_Subject k) = [] \<or> RuneCount (k_Subject k) > 255
               then Some ErrInvalidIdentity else None)"

record auth_identity =
  ai_ID :: ID
  ai_UserID :: ID
  ai_Provider :: string
  ai_Subject :: string
  ai_Email :: string
  ai_EmailVerified :: bool
  ai_CreatedAt :: go_time
  ai_LastAuthenticatedAt :: go_time

definition AuthIdentity_Validate :: "platform \<Rightarrow> auth_identity \<Rightarrow> identity_error option" where
  "AuthIdentity_Validate P i =
    (if \<not> ID_Valid (ai_ID i) \<or> \<not> ID_Valid (ai_UserID i) \<or> IsZero (ai_CreatedAt i) then Some ErrInvalidIdentity
     else case IdentityKey_Validate P \<lparr>k_Provider = ai_Provider i, k_Subject = ai_Subject i\<rparr> of Some e \<Rightarrow> Some e
     | None \<Rightarrow> if ai_Email i \<noteq> [] \<and> NormalizeEmail P (ai_Email i) \<noteq> Inr (ai_Email i) then Some ErrInvalidIdentity
     else if ai_EmailVerified i \<and> ai_Email i = [] then Some ErrInvalidIdentity
     else if \<not> IsZero (ai_LastAuthenticatedAt i) \<and> Before (ai_LastAuthenticatedAt i) (ai_CreatedAt i)
       then Some ErrInvalidIdentity
     else None)"

definition VerifiedIdentity_Validate :: "platform \<Rightarrow> verified_identity \<Rightarrow> identity_error option" where
  "VerifiedIdentity_Validate P i =
    (case IdentityKey_Validate P (Key i) of Some e \<Rightarrow> Some e
     | None \<Rightarrow> if NormalizeEmail P (vi_Email i) \<noteq> Inr (vi_Email i) \<or> \<not> vi_EmailVerified i then Some ErrInvalidIdentity
     else let name = TrimSpace (vi_DisplayName i)
       in if name = [] \<or> RuneCount name > 120 \<or> name \<noteq> vi_DisplayName i then Some ErrInvalidIdentity else None)"

section \<open>Users, memberships, principals\<close>

datatype user_status = UserInvited | UserActive | UserSuspended | UserDisabled | UserStatusOther string

fun UserStatus_Validate :: "user_status \<Rightarrow> identity_error option" where
  "UserStatus_Validate (UserStatusOther _) = Some ErrInvalidPrincipal"
| "UserStatus_Validate _ = None"

datatype role = RoleMember | RoleAdmin | RoleOwner | RoleOther string

fun Role_Validate :: "role \<Rightarrow> identity_error option" where
  "Role_Validate (RoleOther _) = Some ErrInvalidPrincipal"
| "Role_Validate _ = None"

record user =
  u_ID :: ID
  u_DisplayName :: string
  u_Email :: string
  u_Status :: user_status

definition User_Validate :: "platform \<Rightarrow> user \<Rightarrow> identity_error option" where
  "User_Validate P u =
    (if \<not> ID_Valid (u_ID u) then Some ErrInvalidPrincipal
     else let name = TrimSpace (u_DisplayName u)
       in if name = [] \<or> name \<noteq> u_DisplayName u \<or> RuneCount name > 120 then Some ErrInvalidPrincipal
     else if u_Email u \<noteq> [] \<and> NormalizeEmail P (u_Email u) \<noteq> Inr (u_Email u) then Some ErrInvalidPrincipal
     else UserStatus_Validate (u_Status u))"

record membership =
  mb_ID :: ID
  mb_UserID :: ID
  mb_Role :: role
  mb_GrantedAt :: go_time
  mb_RevokedAt :: go_time

definition Membership_Validate :: "membership \<Rightarrow> identity_error option" where
  "Membership_Validate m =
    (if \<not> ID_Valid (mb_ID m) \<or> \<not> ID_Valid (mb_UserID m) \<or> IsZero (mb_GrantedAt m) then Some ErrInvalidPrincipal
     else case Role_Validate (mb_Role m) of Some e \<Rightarrow> Some e
     | None \<Rightarrow> if \<not> IsZero (mb_RevokedAt m) \<and> Before (mb_RevokedAt m) (mb_GrantedAt m)
               then Some ErrInvalidPrincipal else None)"

definition Membership_Active :: "membership \<Rightarrow> bool" where
  "Membership_Active m = IsZero (mb_RevokedAt m)"

record principal =
  pr_User :: user
  pr_Membership :: membership

definition Principal_Validate :: "platform \<Rightarrow> principal \<Rightarrow> identity_error option" where
  "Principal_Validate P p =
    (case User_Validate P (pr_User p) of Some e \<Rightarrow> Some e
     | None \<Rightarrow> (case Membership_Validate (pr_Membership p) of Some e \<Rightarrow> Some e
     | None \<Rightarrow> if mb_UserID (pr_Membership p) \<noteq> u_ID (pr_User p) then Some ErrInvalidPrincipal
     else if u_Status (pr_User p) \<noteq> UserActive \<or> \<not> Membership_Active (pr_Membership p)
       then Some ErrSignInNotAllowed
     else None))"

section \<open>Permissions\<close>

datatype permission =
    PermissionUseMemberArea | PermissionSubmitResult | PermissionConfirmResult | PermissionPlaceWager
  | PermissionManageResults | PermissionManageMarkets | PermissionSettleManualMarket
  | PermissionManageMedia | PermissionIssueInvitation | PermissionManageMembers
  | PermissionMakeFinancialCorrection | PermissionManageRoles | PermissionOther string

definition isMemberPermission :: "permission \<Rightarrow> bool" where
  "isMemberPermission q = (case q of
      PermissionUseMemberArea \<Rightarrow> True | PermissionSubmitResult \<Rightarrow> True
    | PermissionConfirmResult \<Rightarrow> True | PermissionPlaceWager \<Rightarrow> True | _ \<Rightarrow> False)"

definition isAdminPermission :: "permission \<Rightarrow> bool" where
  "isAdminPermission q = (case q of
      PermissionManageResults \<Rightarrow> True | PermissionManageMarkets \<Rightarrow> True
    | PermissionSettleManualMarket \<Rightarrow> True | PermissionManageMedia \<Rightarrow> True
    | PermissionIssueInvitation \<Rightarrow> True | PermissionManageMembers \<Rightarrow> True | _ \<Rightarrow> False)"

definition Authorize :: "platform \<Rightarrow> principal \<Rightarrow> permission \<Rightarrow> identity_error option" where
  "Authorize P p q =
    (case Principal_Validate P p of Some _ \<Rightarrow> Some ErrUnauthenticated
     | None \<Rightarrow>
       let allowed = (case mb_Role (pr_Membership p) of
             RoleMember \<Rightarrow> isMemberPermission q
           | RoleAdmin \<Rightarrow> isMemberPermission q \<or> isAdminPermission q
           | RoleOwner \<Rightarrow> isMemberPermission q \<or> isAdminPermission q
               \<or> q = PermissionMakeFinancialCorrection \<or> q = PermissionManageRoles
           | RoleOther _ \<Rightarrow> False)
       in if \<not> allowed then Some ErrUnauthorized else None)"

section \<open>Facts\<close>

lemma Principal_Validate_None:
  "Principal_Validate P p = None \<longleftrightarrow> User_Validate P (pr_User p) = None \<and> Membership_Validate (pr_Membership p) = None
     \<and> mb_UserID (pr_Membership p) = u_ID (pr_User p) \<and> u_Status (pr_User p) = UserActive
     \<and> IsZero (mb_RevokedAt (pr_Membership p))"
  by (simp add: Principal_Validate_def result_simps Membership_Active_def)

lemma Role_Validate_None: "Role_Validate r = None \<longleftrightarrow> r \<in> {RoleMember, RoleAdmin, RoleOwner}"
  by (cases r) simp_all

text \<open>The roles form a chain; each permission has a least role.\<close>

instantiation role :: linorder
begin

definition role_rank :: "role \<Rightarrow> nat \<times> string" where
  "role_rank r = (case r of RoleOther s \<Rightarrow> (0, s) | RoleMember \<Rightarrow> (1, []) | RoleAdmin \<Rightarrow> (2, []) | RoleOwner \<Rightarrow> (3, []))"

definition less_eq_role :: "role \<Rightarrow> role \<Rightarrow> bool" where
  "less_eq_role r s \<longleftrightarrow> fst (role_rank r) < fst (role_rank s)
     \<or> fst (role_rank r) = fst (role_rank s) \<and> snd (role_rank r) \<le> snd (role_rank s)"

definition less_role :: "role \<Rightarrow> role \<Rightarrow> bool" where
  "less_role r s \<longleftrightarrow> r \<le> s \<and> \<not> s \<le> (r :: role)"

instance
proof
  fix r s t :: role
  show "r < s \<longleftrightarrow> r \<le> s \<and> \<not> s \<le> r" by (rule less_role_def)
  show "r \<le> r" by (simp add: less_eq_role_def)
  show "r \<le> s \<Longrightarrow> s \<le> t \<Longrightarrow> r \<le> t" by (auto simp: less_eq_role_def)
  show "r \<le> s \<Longrightarrow> s \<le> r \<Longrightarrow> r = s" by (auto simp: less_eq_role_def role_rank_def split: role.splits)
  show "r \<le> s \<or> s \<le> r" by (auto simp: less_eq_role_def)
qed

end

fun least_role :: "permission \<Rightarrow> role option" where
  "least_role PermissionUseMemberArea = Some RoleMember"
| "least_role PermissionSubmitResult = Some RoleMember"
| "least_role PermissionConfirmResult = Some RoleMember"
| "least_role PermissionPlaceWager = Some RoleMember"
| "least_role PermissionMakeFinancialCorrection = Some RoleOwner"
| "least_role PermissionManageRoles = Some RoleOwner"
| "least_role (PermissionOther _) = None"
| "least_role _ = Some RoleAdmin"

text \<open>C30 Authorize_iff: a principal is authorised exactly when it is a valid active one and its role is at
  least the least role of the permission; an unknown permission is granted to nobody, an inactive or invalid
  principal is unauthenticated and not merely unauthorised.\<close>

theorem Authorize_iff:
  "Authorize P p q =
    (if Principal_Validate P p \<noteq> None then Some ErrUnauthenticated
     else case least_role q of
       Some r \<Rightarrow> if r \<le> mb_Role (pr_Membership p) then None else Some ErrUnauthorized
     | None \<Rightarrow> Some ErrUnauthorized)"
  by (auto simp: Authorize_def isMemberPermission_def isAdminPermission_def less_eq_role_def role_rank_def
      split: option.splits role.splits permission.splits)

end
