(* ===== verification/Sessions.thy ===== *)
theory Sessions
  imports Identity_Types
begin

text \<open>
  \<open>internal/identity/secrets.go\<close> and \<open>session.go\<close>: bearer secrets and their digests, sessions and their
  validation, and the session service. The store is the interface \<open>Store\<close> of the source, a record of
  functions on a state type of its own: what is proved of the service holds whatever the store answers.
\<close>

section \<open>Secrets\<close>

definition b64_alphabet :: string where
  "b64_alphabet = ''ABCDEFGHIJKLMNOPQRSTUVWXYZabcdefghijklmnopqrstuvwxyz0123456789-_''"

fun b64_groups :: "nat list \<Rightarrow> nat list" where
  "b64_groups [] = []"
| "b64_groups [x] = [x div 4, x mod 4 * 16]"
| "b64_groups [x, y] = [x div 4, x mod 4 * 16 + y div 16, y mod 16 * 4]"
| "b64_groups (x # y # z # r) =
    x div 4 # (x mod 4 * 16 + y div 16) # (y mod 16 * 4 + z div 64) # z mod 64 # b64_groups r"

fun b64_bytes :: "nat list \<Rightarrow> nat list option" where
  "b64_bytes [] = Some []"
| "b64_bytes [a] = None"
| "b64_bytes [a, b] = Some [a * 4 + b div 16]"
| "b64_bytes [a, b, c] = Some [a * 4 + b div 16, b mod 16 * 16 + c div 4]"
| "b64_bytes (a # b # c # d # r) =
    map_option (\<lambda>xs. (a * 4 + b div 16) # (b mod 16 * 16 + c div 4) # (c mod 4 * 64 + d) # xs) (b64_bytes r)"

fun index_of :: "char \<Rightarrow> string \<Rightarrow> nat option" where
  "index_of c [] = None"
| "index_of c (d # s) = (if c = d then Some 0 else map_option Suc (index_of c s))"

definition EncodeToString :: "string \<Rightarrow> string" where
  \<comment> \<open>\<open>base64.RawURLEncoding\<close>\<close>
  "EncodeToString bytes = map (\<lambda>n. b64_alphabet ! n) (b64_groups (map byte bytes))"

definition DecodeString :: "string \<Rightarrow> string option" where
  \<comment> \<open>line breaks are skipped, unused trailing bits are not checked\<close>
  "DecodeString value =
    (let digits = map (\<lambda>c. index_of c b64_alphabet) (filter (\<lambda>c. c \<noteq> CHR 0x0A \<and> c \<noteq> CHR 0x0D) value)
     in if None \<in> set digits then None else map_option (map char_of) (b64_bytes (map the digits)))"

definition secretBytes :: nat where
  "secretBytes = 32"

datatype secret = Secret (Value: string)

definition generateSecret :: "string option \<Rightarrow> identity_error + secret" where
  \<comment> \<open>the argument is what \<open>io.ReadFull\<close> of 32 bytes returns\<close>
  "generateSecret random = (case random of None \<Rightarrow> Inl ErrSecretGeneration
     | Some buffer \<Rightarrow> Inr (Secret (EncodeToString buffer)))"

definition ParseSecret :: "string \<Rightarrow> identity_error + secret" where
  "ParseSecret value = (case DecodeString value of None \<Rightarrow> Inl ErrInvalidSecret
     | Some decoded \<Rightarrow> if length decoded \<noteq> secretBytes \<or> EncodeToString decoded \<noteq> value
         then Inl ErrInvalidSecret else Inr (Secret value))"

type_synonym digest = string

definition zero_digest :: digest where
  "zero_digest = replicate 32 (CHR 0x00)"

definition DigestFromBytes :: "string \<Rightarrow> identity_error + digest" where
  "DigestFromBytes value = (if length value \<noteq> 32 then Inl ErrInvalidSecret else Inr value)"

definition Digest_IsZero :: "digest \<Rightarrow> bool" where
  "Digest_IsZero d = (d = zero_digest)"

definition sessionTokenHashContext :: string where
  "sessionTokenHashContext = ''cabot-cup/session-token/v1'' @ [CHR 0x00]"

definition csrfSecretHashContext :: string where
  "csrfSecretHashContext = ''cabot-cup/csrf-secret/v1'' @ [CHR 0x00]"

definition hashSecret :: "platform \<Rightarrow> string \<Rightarrow> secret \<Rightarrow> digest" where
  "hashSecret P ctxt s = p_sha256 P (ctxt @ Value s)"

definition HashSessionToken :: "platform \<Rightarrow> secret \<Rightarrow> digest" where
  "HashSessionToken P s = hashSecret P sessionTokenHashContext s"

definition HashCSRFSecret :: "platform \<Rightarrow> secret \<Rightarrow> digest" where
  "HashCSRFSecret P s = hashSecret P csrfSecretHashContext s"

definition verifySecret :: "digest \<Rightarrow> string \<Rightarrow> (secret \<Rightarrow> digest) \<Rightarrow> bool" where
  "verifySecret expected presented hash =
    (case ParseSecret presented of Inl _ \<Rightarrow> False | Inr s \<Rightarrow> expected = hash s)"

definition VerifySessionToken :: "platform \<Rightarrow> digest \<Rightarrow> string \<Rightarrow> bool" where
  "VerifySessionToken P expected presented = verifySecret expected presented (HashSessionToken P)"

definition VerifyCSRFSecret :: "platform \<Rightarrow> digest \<Rightarrow> string \<Rightarrow> bool" where
  "VerifyCSRFSecret P expected presented = verifySecret expected presented (HashCSRFSecret P)"

section \<open>Sessions\<close>

definition minimumSessionLifetime :: int where
  "minimumSessionLifetime = 5 * 60 * 1000000000"

definition maximumSessionLifetime :: int where
  "maximumSessionLifetime = 30 * 24 * 60 * 60 * 1000000000"

record session =
  se_ID :: ID
  se_UserID :: ID
  se_TokenHash :: digest
  se_CSRFSecretHash :: digest
  se_CreatedAt :: go_time
  se_LastSeenAt :: go_time
  se_ExpiresAt :: go_time
  se_RevokedAt :: go_time
  se_RevokeReason :: string
  se_RotatedFrom :: ID

definition Session_Validate :: "session \<Rightarrow> identity_error option" where
  "Session_Validate s =
    (if \<not> ID_Valid (se_ID s) \<or> \<not> ID_Valid (se_UserID s) \<or> Digest_IsZero (se_TokenHash s)
        \<or> Digest_IsZero (se_CSRFSecretHash s) \<or> se_TokenHash s = se_CSRFSecretHash s then Some ErrInvalidSession
     else if IsZero (se_CreatedAt s) \<or> Before (se_LastSeenAt s) (se_CreatedAt s)
        \<or> After (se_LastSeenAt s) (se_ExpiresAt s) \<or> \<not> After (se_ExpiresAt s) (se_CreatedAt s) then Some ErrInvalidSession
     else if IsZero (se_RevokedAt s) \<noteq> (TrimSpace (se_RevokeReason s) = []) then Some ErrInvalidSession
     else if \<not> IsZero (se_RevokedAt s) \<and> Before (se_RevokedAt s) (se_CreatedAt s) then Some ErrInvalidSession
     else if se_RotatedFrom s \<noteq> [] \<and> \<not> ID_Valid (se_RotatedFrom s) then Some ErrInvalidSession
     else None)"

definition ActiveAt :: "session \<Rightarrow> go_time \<Rightarrow> identity_error option" where
  "ActiveAt s now' =
    (case Session_Validate s of Some e \<Rightarrow> Some e
     | None \<Rightarrow> if IsZero now' then Some ErrInvalidSession
     else if \<not> IsZero (se_RevokedAt s) then Some ErrSessionRevoked
     else if \<not> Before now' (se_ExpiresAt s) then Some ErrSessionExpired
     else None)"

record session_draft =
  d_TokenHash :: digest
  d_CSRFSecretHash :: digest
  d_CreatedAt :: go_time
  d_LastSeenAt :: go_time
  d_ExpiresAt :: go_time

definition same_instant :: "go_time \<Rightarrow> go_time \<Rightarrow> bool" where
  \<comment> \<open>\<open>time.Time.Equal\<close>\<close>
  "same_instant t u = (instant t = instant u)"

definition draft_validate :: "session_draft \<Rightarrow> identity_error option" where
  "draft_validate d =
    (if Digest_IsZero (d_TokenHash d) \<or> Digest_IsZero (d_CSRFSecretHash d) \<or> d_TokenHash d = d_CSRFSecretHash d
     then Some ErrInvalidSession
     else if IsZero (d_CreatedAt d) \<or> \<not> same_instant (d_LastSeenAt d) (d_CreatedAt d)
        \<or> \<not> After (d_ExpiresAt d) (d_CreatedAt d) then Some ErrInvalidSession
     else None)"

section \<open>The service\<close>

type_synonym 'st answer = "'st \<times> (identity_error + session \<times> principal)"

record 'st store =
  CreateSessionForIdentity :: "verified_identity \<Rightarrow> session_draft \<Rightarrow> 'st \<Rightarrow> 'st answer"
  CreateSessionForInvitedIdentity :: "verified_identity \<Rightarrow> session_draft \<Rightarrow> string \<Rightarrow> 'st \<Rightarrow> 'st answer"
  UseSession :: "digest \<Rightarrow> go_time \<Rightarrow> 'st \<Rightarrow> 'st answer"
  RotateSession :: "digest \<Rightarrow> session_draft \<Rightarrow> go_time \<Rightarrow> string \<Rightarrow> 'st \<Rightarrow> 'st answer"
  RevokeSession :: "digest \<Rightarrow> go_time \<Rightarrow> string \<Rightarrow> 'st \<Rightarrow> 'st \<times> identity_error option"

record issued_session =
  is_Session :: session
  is_Principal :: principal
  is_Token :: secret
  is_CSRFSecret :: secret

record 'st service =
  sv_store :: "'st store"
  sv_lifetime :: int

text \<open>What a call reads from outside: the clock and the two draws from the random source.\<close>

record reading =
  rd_now :: go_time
  rd_random1 :: "string option"
  rd_random2 :: "string option"

definition NewService :: "'st store option \<Rightarrow> int \<Rightarrow> identity_error + 'st service" where
  "NewService st lifetime = (case st of None \<Rightarrow> Inl ErrInvalidSession
     | Some st \<Rightarrow> if lifetime < minimumSessionLifetime \<or> lifetime > maximumSessionLifetime then Inl ErrInvalidSession
         else Inr \<lparr>sv_store = st, sv_lifetime = lifetime\<rparr>)"

definition truncated :: "go_time \<Rightarrow> go_time" where
  \<comment> \<open>\<open>UTC().Truncate(time.Microsecond)\<close>\<close>
  "truncated t = Time (instant t div 1000 * 1000) True"

definition newDraft ::
  "platform \<Rightarrow> 'st service \<Rightarrow> reading \<Rightarrow> identity_error + (secret \<times> secret \<times> session_draft)" where
  "newDraft P sv rd =
    (case generateSecret (rd_random1 rd) of Inl e \<Rightarrow> Inl e
     | Inr token \<Rightarrow> (case generateSecret (rd_random2 rd) of Inl e \<Rightarrow> Inl e
     | Inr csrf \<Rightarrow> if token = csrf then Inl ErrSecretGeneration
     else let now' = truncated (rd_now rd);
              draft = \<lparr>d_TokenHash = HashSessionToken P token, d_CSRFSecretHash = HashCSRFSecret P csrf,
                d_CreatedAt = now', d_LastSeenAt = now', d_ExpiresAt = Time (instant now' + sv_lifetime sv) True\<rparr>
       in case draft_validate draft of Some e \<Rightarrow> Inl e
     | None \<Rightarrow> Inr (token, csrf, draft)))"

definition validateStoredSession ::
  "platform \<Rightarrow> session \<Rightarrow> principal \<Rightarrow> session_draft \<Rightarrow> identity_error option" where
  "validateStoredSession P s p d =
    (if ActiveAt s (d_CreatedAt d) \<noteq> None then Some ErrRepositoryContract
     else if Principal_Validate P p \<noteq> None then Some ErrRepositoryContract
     else if se_UserID s \<noteq> u_ID (pr_User p) \<or> se_TokenHash s \<noteq> d_TokenHash d
        \<or> se_CSRFSecretHash s \<noteq> d_CSRFSecretHash d \<or> \<not> same_instant (se_CreatedAt s) (d_CreatedAt d)
        \<or> \<not> same_instant (se_LastSeenAt s) (d_LastSeenAt d) \<or> \<not> same_instant (se_ExpiresAt s) (d_ExpiresAt d)
       then Some ErrRepositoryContract
     else None)"

definition validateActiveSession ::
  "platform \<Rightarrow> session \<Rightarrow> principal \<Rightarrow> go_time \<Rightarrow> identity_error option" where
  "validateActiveSession P s p now' =
    (case ActiveAt s now' of
      Some e \<Rightarrow> if e = ErrSessionExpired \<or> e = ErrSessionRevoked then Some e else Some ErrRepositoryContract
    | None \<Rightarrow> (case Principal_Validate P p of
        Some e \<Rightarrow> if e = ErrSignInNotAllowed then Some ErrUnauthenticated else Some ErrRepositoryContract
      | None \<Rightarrow> if se_UserID s \<noteq> u_ID (pr_User p) then Some ErrRepositoryContract else None))"

definition CompleteSignIn ::
  "platform \<Rightarrow> 'st service \<Rightarrow> reading \<Rightarrow> verified_identity \<Rightarrow> 'st \<Rightarrow> 'st \<times> (identity_error + issued_session)" where
  "CompleteSignIn P sv rd i st =
    (case VerifiedIdentity_Validate P i of Some e \<Rightarrow> (st, Inl e)
     | None \<Rightarrow> (case newDraft P sv rd of Inl e \<Rightarrow> (st, Inl e)
     | Inr (token, csrf, draft) \<Rightarrow> (case CreateSessionForIdentity (sv_store sv) i draft st of
         (st, Inl e) \<Rightarrow> (st, Inl e)
       | (st, Inr (s, p)) \<Rightarrow> (case validateStoredSession P s p draft of Some e \<Rightarrow> (st, Inl e)
         | None \<Rightarrow> if se_RotatedFrom s \<noteq> [] then (st, Inl ErrRepositoryContract)
           else (st, Inr \<lparr>is_Session = s, is_Principal = p, is_Token = token, is_CSRFSecret = csrf\<rparr>)))))"

definition CompleteSignInWithInvitation ::
  "platform \<Rightarrow> 'st service \<Rightarrow> reading \<Rightarrow> verified_identity \<Rightarrow> string \<Rightarrow> 'st \<Rightarrow>
    'st \<times> (identity_error + issued_session)" where
  "CompleteSignInWithInvitation P sv rd i inviteToken st =
    (case VerifiedIdentity_Validate P i of Some e \<Rightarrow> (st, Inl e)
     | None \<Rightarrow> (case newDraft P sv rd of Inl e \<Rightarrow> (st, Inl e)
     | Inr (token, csrf, draft) \<Rightarrow> (case CreateSessionForInvitedIdentity (sv_store sv) i draft inviteToken st of
         (st, Inl e) \<Rightarrow> (st, Inl e)
       | (st, Inr (s, p)) \<Rightarrow> (case validateStoredSession P s p draft of Some e \<Rightarrow> (st, Inl e)
         | None \<Rightarrow> if se_RotatedFrom s \<noteq> [] then (st, Inl ErrRepositoryContract)
           else (st, Inr \<lparr>is_Session = s, is_Principal = p, is_Token = token, is_CSRFSecret = csrf\<rparr>)))))"

definition Resume ::
  "platform \<Rightarrow> 'st service \<Rightarrow> go_time \<Rightarrow> string \<Rightarrow> 'st \<Rightarrow> 'st answer" where
  "Resume P sv clock rawToken st =
    (case ParseSecret rawToken of Inl _ \<Rightarrow> (st, Inl ErrUnauthenticated)
     | Inr token \<Rightarrow> let now' = truncated clock
       in case UseSession (sv_store sv) (HashSessionToken P token) now' st of
         (st, Inl e) \<Rightarrow> (st, Inl e)
       | (st, Inr (s, p)) \<Rightarrow> if se_TokenHash s \<noteq> HashSessionToken P token then (st, Inl ErrRepositoryContract)
         else (case validateActiveSession P s p now' of Some e \<Rightarrow> (st, Inl e)
         | None \<Rightarrow> (st, Inr (s, p))))"

definition Rotate ::
  "platform \<Rightarrow> 'st service \<Rightarrow> reading \<Rightarrow> string \<Rightarrow> string \<Rightarrow> 'st \<Rightarrow> 'st \<times> (identity_error + issued_session)" where
  "Rotate P sv rd rawToken reason st =
    (case ParseSecret rawToken of Inl _ \<Rightarrow> (st, Inl ErrUnauthenticated)
     | Inr current \<Rightarrow> let reason = TrimSpace reason
       in if reason = [] then (st, Inl ErrInvalidSession)
       else case newDraft P sv rd of Inl e \<Rightarrow> (st, Inl e)
     | Inr (token, csrf, draft) \<Rightarrow>
       (case RotateSession (sv_store sv) (HashSessionToken P current) draft (d_CreatedAt draft) reason st of
         (st, Inl e) \<Rightarrow> (st, Inl e)
       | (st, Inr (s, p)) \<Rightarrow> (case validateStoredSession P s p draft of Some e \<Rightarrow> (st, Inl e)
         | None \<Rightarrow> if \<not> ID_Valid (se_RotatedFrom s) then (st, Inl ErrRepositoryContract)
           else (st, Inr \<lparr>is_Session = s, is_Principal = p, is_Token = token, is_CSRFSecret = csrf\<rparr>))))"

definition Revoke ::
  "platform \<Rightarrow> 'st service \<Rightarrow> go_time \<Rightarrow> string \<Rightarrow> string \<Rightarrow> 'st \<Rightarrow> 'st \<times> identity_error option" where
  "Revoke P sv clock rawToken reason st =
    (case ParseSecret rawToken of Inl _ \<Rightarrow> (st, Some ErrUnauthenticated)
     | Inr token \<Rightarrow> let reason = TrimSpace reason
       in if reason = [] then (st, Some ErrInvalidSession)
       else RevokeSession (sv_store sv) (HashSessionToken P token) (truncated clock) reason st)"

definition ValidateCSRF :: "platform \<Rightarrow> session \<Rightarrow> string \<Rightarrow> identity_error option" where
  "ValidateCSRF P s presented =
    (if \<not> VerifyCSRFSecret P (se_CSRFSecretHash s) presented then Some ErrInvalidCSRF else None)"

end
