(* ===== verification/Session_Service.thy ===== *)
theory Session_Service
  imports Sessions
begin

text \<open>
  What the session service guarantees. The three operations that issue a session share one contract,
  the locale \<open>issuer\<close>: whatever the store returns, a session that is handed out is the one of the draft,
  active, with an active principal, and both secrets verify against it.
\<close>

section \<open>Base64 and secrets\<close>

lemma small_bits:
  fixes y :: nat
  assumes "y < 256"
  shows "y div 4 < 64" "y div 16 < 16" "y div 64 < 4"
  using assms by (simp_all add: less_mult_imp_div_less)

lemma two_digits: "q < n \<Longrightarrow> (p * n + q) div n = p" "q < n \<Longrightarrow> (p * n + q) mod n = q" for p q n :: nat
  by simp_all

lemma six_bits:
  fixes x y z :: nat
  shows "y < 256 \<Longrightarrow> x div 4 * 4 + (x mod 4 * 16 + y div 16) div 16 = x"
    "y < 256 \<Longrightarrow> z < 256 \<Longrightarrow> (x mod 4 * 16 + y div 16) mod 16 * 16 + (y mod 16 * 4 + z div 64) div 4 = y"
    "z < 256 \<Longrightarrow> (y mod 16 * 4 + z div 64) mod 4 * 64 + z mod 64 = z"
    "x div 4 * 4 + x mod 4 * 16 div 16 = x"
    "y < 256 \<Longrightarrow> (x mod 4 * 16 + y div 16) mod 16 * 16 + y mod 16 * 4 div 4 = y"
  using two_digits [OF small_bits(2) [of y]] two_digits [OF small_bits(3) [of z]]
  by (simp_all only: div_mult_mod_eq) (simp_all add: div_mult_mod_eq)

lemma b64_bytes_groups: "\<forall>x \<in> set xs. x < 256 \<Longrightarrow> b64_bytes (b64_groups xs) = Some xs"
  by (induction xs rule: b64_groups.induct)
    (simp_all only: b64_groups.simps b64_bytes.simps list.set ball_simps six_bits option.map list.inject simp_thms, simp)

lemma b64_digit: "y < 256 \<Longrightarrow> x mod 4 * 16 + y div 16 < 64" "z < 256 \<Longrightarrow> y mod 16 * 4 + z div 64 < 64" for x y z :: nat
  using small_bits [of y] small_bits [of z] mod_less_divisor [of 4 x] mod_less_divisor [of 16 y]
  by linarith+

lemma b64_groups_bound: "\<forall>x \<in> set xs. x < 256 \<Longrightarrow> \<forall>n \<in> set (b64_groups xs). n < 64"
proof (induction xs rule: b64_groups.induct)
  case (2 x)
  then show ?case using b64_digit(1) [of 0 x] small_bits [of x] by simp
next
  case (3 x y)
  then show ?case using b64_digit(1) [of y x] b64_digit(2) [of 0 y] small_bits [of x] by simp
next
  case (4 x y z r)
  then show ?case using b64_digit(1) [of y x] b64_digit(2) [of z y] small_bits [of x] by simp
qed simp

lemma b64_index: "n < 64 \<Longrightarrow> index_of (b64_alphabet ! n) b64_alphabet = Some n
    \<and> b64_alphabet ! n \<noteq> CHR 0x0A \<and> b64_alphabet ! n \<noteq> CHR 0x0D"
proof -
  have "\<forall>n \<in> set [0..<64]. index_of (b64_alphabet ! n) b64_alphabet = Some n
    \<and> b64_alphabet ! n \<noteq> CHR 0x0A \<and> b64_alphabet ! n \<noteq> CHR 0x0D"
    by code_simp
  then show "n < 64 \<Longrightarrow> ?thesis" by simp
qed

lemma byte_bound: "byte c < 256"
  by (simp add: byte_def)

lemma DecodeString_EncodeToString: "DecodeString (EncodeToString bytes) = Some bytes"
proof -
  let ?g = "b64_groups (map byte bytes)"
  have bound: "\<forall>n \<in> set ?g. n < 64"
    by (rule b64_groups_bound) (simp add: byte_bound)
  have "filter (\<lambda>c. c \<noteq> CHR 0x0A \<and> c \<noteq> CHR 0x0D) (EncodeToString bytes) = EncodeToString bytes"
    unfolding EncodeToString_def using bound b64_index by (intro filter_True) auto
  moreover have "map (\<lambda>c. index_of c b64_alphabet) (EncodeToString bytes) = map Some ?g"
    unfolding EncodeToString_def using bound b64_index by simp
  moreover have "b64_bytes ?g = Some (map byte bytes)"
    by (rule b64_bytes_groups) (simp add: byte_bound)
  ultimately show ?thesis
    by (simp add: DecodeString_def comp_def byte_def)
qed

lemma EncodeToString_length: "length (EncodeToString bytes) = (4 * length bytes + 2) div 3"
proof -
  have "length (b64_groups xs) = (4 * length xs + 2) div 3" for xs
    by (induction xs rule: b64_groups.induct) simp_all
  then show ?thesis by (simp add: EncodeToString_def)
qed

lemma ParseSecret_Inr:
  "ParseSecret v = Inr s \<longleftrightarrow> s = Secret v \<and> (\<exists>b. length b = secretBytes \<and> v = EncodeToString b)"
  by (auto simp: ParseSecret_def DecodeString_EncodeToString split: option.splits)

text \<open>The strings that parse as a secret are exactly the encodings of 32 bytes, which are
  43 characters long, and two different byte strings never share one: no second spelling of a token is accepted.\<close>

lemma ParseSecret_iff:
  "(\<exists>s. ParseSecret v = Inr s) \<longleftrightarrow> (\<exists>!b. length b = secretBytes \<and> EncodeToString b = v)"
proof -
  have inj: "EncodeToString b = EncodeToString c \<Longrightarrow> b = c" for b c
    using DecodeString_EncodeToString by (metis option.inject)
  show ?thesis by (auto simp: ParseSecret_Inr dest: inj)
qed

lemma generateSecret_parses:
  "generateSecret (Some b) = Inr s \<Longrightarrow> length b = secretBytes \<Longrightarrow> ParseSecret (Value s) = Inr s"
  by (auto simp: generateSecret_def ParseSecret_Inr)

section \<open>Active sessions\<close>

lemma ActiveAt_None:
  "ActiveAt s t = None \<longleftrightarrow> Session_Validate s = None \<and> \<not> IsZero t \<and> IsZero (se_RevokedAt s) \<and> Before t (se_ExpiresAt s)"
  by (simp add: ActiveAt_def result_simps)

lemma ActiveAt_until_expiry:
  assumes "ActiveAt s t = None" "\<not> IsZero u"
  shows "ActiveAt s u = (if Before u (se_ExpiresAt s) then None else Some ErrSessionExpired)
    \<and> (\<forall>r reason. \<not> Before r (se_CreatedAt s) \<and> \<not> IsZero r \<and> \<not> blank reason \<longrightarrow>
      ActiveAt (s\<lparr>se_RevokedAt := r, se_RevokeReason := reason\<rparr>) u = Some ErrSessionRevoked)"
  using assms by (auto simp: ActiveAt_def Session_Validate_def IsZero_def blank_def split: if_splits)

section \<open>Issuing\<close>

lemma newDraft_Inr:
  assumes "newDraft P sv rd = Inr (token, csrf, d)"
  obtains b c where "rd_random1 rd = Some b" "rd_random2 rd = Some c" "token = Secret (EncodeToString b)"
    "csrf = Secret (EncodeToString c)" "token \<noteq> csrf" "d_TokenHash d = HashSessionToken P token"
    "d_CSRFSecretHash d = HashCSRFSecret P csrf" "d_TokenHash d \<noteq> d_CSRFSecretHash d"
    "d_CreatedAt d = truncated (rd_now rd)" "d_LastSeenAt d = d_CreatedAt d"
    "instant (d_ExpiresAt d) = instant (d_CreatedAt d) + sv_lifetime sv" "0 < sv_lifetime sv"
proof -
  obtain b c where "rd_random1 rd = Some b" "rd_random2 rd = Some c"
    using assms by (auto simp: newDraft_def generateSecret_def split: option.splits)
  with assms show thesis
    by (intro that [of b c])
      (auto simp: newDraft_def Let_def result_simps generateSecret_def draft_validate_def After_def Before_def)
qed

definition issue_contract ::
  "platform \<Rightarrow> 'st service \<Rightarrow> reading \<Rightarrow> issued_session \<Rightarrow> bool" where
  "issue_contract P sv rd i \<longleftrightarrow>
    (let s = is_Session i; p = is_Principal i in
     ActiveAt s (truncated (rd_now rd)) = None \<and> Principal_Validate P p = None \<and> se_UserID s = u_ID (pr_User p)
     \<and> instant (se_CreatedAt s) = instant (truncated (rd_now rd))
     \<and> instant (se_ExpiresAt s) = instant (se_CreatedAt s) + sv_lifetime sv
     \<and> VerifySessionToken P (se_TokenHash s) (Value (is_Token i))
     \<and> ValidateCSRF P s (Value (is_CSRFSecret i)) = None
     \<and> is_Token i \<noteq> is_CSRFSecret i \<and> se_TokenHash s \<noteq> se_CSRFSecretHash s)"

locale issuer =
  fixes P :: platform and sv :: "'st service" and issue :: "reading \<Rightarrow> 'st \<Rightarrow> 'st \<times> (identity_error + issued_session)"
  assumes stored: "issue rd st = (st', Inr i) \<Longrightarrow> \<exists>token csrf d. newDraft P sv rd = Inr (token, csrf, d)
      \<and> is_Token i = token \<and> is_CSRFSecret i = csrf \<and> validateStoredSession P (is_Session i) (is_Principal i) d = None"
begin

lemma issued:
  assumes "issue rd st = (st', Inr i)"
    and "\<forall>b. rd_random1 rd = Some b \<longrightarrow> length b = secretBytes" "\<forall>b. rd_random2 rd = Some b \<longrightarrow> length b = secretBytes"
  shows "issue_contract P sv rd i"
proof -
  obtain token csrf d where D: "newDraft P sv rd = Inr (token, csrf, d)" and I: "is_Token i = token" "is_CSRFSecret i = csrf"
    and V: "validateStoredSession P (is_Session i) (is_Principal i) d = None"
    using stored [OF assms(1)] by blast
  obtain b c where N: "rd_random1 rd = Some b" "rd_random2 rd = Some c" "token = Secret (EncodeToString b)"
    "csrf = Secret (EncodeToString c)" "token \<noteq> csrf" "d_TokenHash d = HashSessionToken P token"
    "d_CSRFSecretHash d = HashCSRFSecret P csrf" "d_TokenHash d \<noteq> d_CSRFSecretHash d"
    "d_CreatedAt d = truncated (rd_now rd)" "d_LastSeenAt d = d_CreatedAt d"
    "instant (d_ExpiresAt d) = instant (d_CreatedAt d) + sv_lifetime sv"
    using newDraft_Inr [OF D] by metis
  have "ParseSecret (Value token) = Inr token" "ParseSecret (Value csrf) = Inr csrf"
    using N assms(2,3) by (auto simp: ParseSecret_Inr)
  then show ?thesis
    using V N(5-11) I
    by (simp add: issue_contract_def Let_def validateStoredSession_def result_simps same_instant_def
        VerifySessionToken_def VerifyCSRFSecret_def ValidateCSRF_def verifySecret_def)
qed

end

lemma answer_Inr:
  "(case a of (st, Inl e) \<Rightarrow> (st, Inl e) | (st, Inr (s, p)) \<Rightarrow> f st s p) = (st', Inr r)
    \<longleftrightarrow> (\<exists>st s p. a = (st, Inr (s, p)) \<and> f st s p = (st', Inr r))"
  by (auto split: prod.splits sum.splits)

lemma fail_Inr [result_simps]:
  "(case v of None \<Rightarrow> k | Some e \<Rightarrow> (st, Inl (g e))) = (st', Inr r) \<longleftrightarrow> v = None \<and> k = (st', Inr r)"
  "(case x of Inl e \<Rightarrow> (st, Inl (h e)) | Inr a \<Rightarrow> f a) = (st', Inr r) \<longleftrightarrow> (\<exists>a. x = Inr a \<and> f a = (st', Inr r))"
  "(if b then (st, Inl e) else k) = (st', Inr r) \<longleftrightarrow> \<not> b \<and> k = (st', Inr r)"
  by (auto split: option.splits sum.splits)

lemmas issue_defs = CompleteSignIn_def CompleteSignInWithInvitation_def Rotate_def

interpretation sign_in: issuer P sv "\<lambda>rd. CompleteSignIn P sv rd i" for P sv i
  by unfold_locales (auto simp: CompleteSignIn_def result_simps answer_Inr)

interpretation invited: issuer P sv "\<lambda>rd. CompleteSignInWithInvitation P sv rd i tok" for P sv i tok
  by unfold_locales (auto simp: CompleteSignInWithInvitation_def result_simps answer_Inr)

interpretation rotation: issuer P sv "\<lambda>rd. Rotate P sv rd raw reason" for P sv raw reason
  by unfold_locales (auto simp: Rotate_def Let_def result_simps answer_Inr)

section \<open>What callers may rely on\<close>

text \<open>A concrete service for the witnesses: a hash that keeps the context apart, a store that returns the session
  of the draft, or one fixed session.\<close>

definition ex_platform :: platform where
  "ex_platform = \<lparr>p_lower = (\<lambda>s. s), p_address = (\<lambda>v. Some ([], v)), p_sha256 = (\<lambda>s. replicate 31 (CHR ''x'') @ [s ! 10])\<rparr>"

definition ex_id :: ID where
  "ex_id = ''00000000-0000-4000-8000-000000000001''"

definition ex_principal :: principal where
  "ex_principal = \<lparr>pr_User = \<lparr>u_ID = ex_id, u_DisplayName = ''Ann'', u_Email = [], u_Status = UserActive\<rparr>,
     pr_Membership = \<lparr>mb_ID = ex_id, mb_UserID = ex_id, mb_Role = RoleMember, mb_GrantedAt = Time 1 True, mb_RevokedAt = zero_time\<rparr>\<rparr>"

definition ex_session :: "session_draft \<Rightarrow> ID \<Rightarrow> session" where
  "ex_session d from' = \<lparr>se_ID = ex_id, se_UserID = ex_id, se_TokenHash = d_TokenHash d, se_CSRFSecretHash = d_CSRFSecretHash d,
     se_CreatedAt = d_CreatedAt d, se_LastSeenAt = d_LastSeenAt d, se_ExpiresAt = d_ExpiresAt d, se_RevokedAt = zero_time,
     se_RevokeReason = [], se_RotatedFrom = from'\<rparr>"

definition ex_draft :: session_draft where
  "ex_draft = \<lparr>d_TokenHash = HashSessionToken ex_platform (Secret []), d_CSRFSecretHash = HashCSRFSecret ex_platform (Secret []),
     d_CreatedAt = Time 1000000 True, d_LastSeenAt = Time 1000000 True, d_ExpiresAt = Time 400001000000 True\<rparr>"

definition ex_service :: "unit service" where
  "ex_service = \<lparr>sv_store = \<lparr>CreateSessionForIdentity = (\<lambda>i d st. (st, Inr (ex_session d [], ex_principal))),
       CreateSessionForInvitedIdentity = (\<lambda>i d t st. (st, Inr (ex_session d [], ex_principal))),
       UseSession = (\<lambda>h t st. (st, Inr (ex_session ex_draft [], ex_principal))),
       RotateSession = (\<lambda>h d t r st. (st, Inr (ex_session d ex_id, ex_principal))),
       RevokeSession = (\<lambda>h t r st. (st, None))\<rparr>, sv_lifetime = 400000000000\<rparr>"

definition ex_bytes :: "char \<Rightarrow> string" where
  "ex_bytes c = replicate 32 c"

definition ex_reading :: reading where
  "ex_reading = \<lparr>rd_now = Time 1000007 False, rd_random1 = Some (ex_bytes (CHR ''a'')), rd_random2 = Some (ex_bytes (CHR ''b''))\<rparr>"

lemmas ex_defs = ex_platform_def ex_id_def ex_principal_def ex_session_def ex_draft_def ex_service_def ex_bytes_def ex_reading_def

definition ex_identity :: verified_identity where
  "ex_identity = \<lparr>vi_Provider = ''google'', vi_Subject = ''s'', vi_Email = ''a@b'', vi_EmailVerified = True, vi_DisplayName = ''Ann''\<rparr>"

definition ex_issued :: issued_session where
  "ex_issued = \<lparr>is_Session = ex_session ex_draft [], is_Principal = ex_principal, is_Token = Secret (EncodeToString (ex_bytes (CHR ''a''))),
     is_CSRFSecret = Secret (EncodeToString (ex_bytes (CHR ''b'')))\<rparr>"

lemma ex_new: "NewService (Some (sv_store ex_service)) 400000000000 = Inr ex_service"
  by (simp add: NewService_def minimumSessionLifetime_def maximumSessionLifetime_def ex_service_def)

lemma ex_runs:
  "CompleteSignIn ex_platform ex_service ex_reading ex_identity () = ((), Inr ex_issued)"
  "Resume ex_platform ex_service (Time 300000000000 False) (EncodeToString (ex_bytes (CHR ''a''))) () = ((), Inr (ex_session ex_draft [], ex_principal))"
  by code_simp+

text \<open>C34 issued_session: whichever operation issues a session, and whatever the store answers, the session is active
  now, belongs to a valid active principal, lives between five minutes and thirty days, is verified by the token that
  is handed out with it and accepts the CSRF secret; the two secrets and their digests differ.\<close>

theorem issued_session:
  assumes "NewService (Some (sv_store sv)) life = Inr sv"
    and "\<forall>b. rd_random1 rd = Some b \<longrightarrow> length b = secretBytes" "\<forall>b. rd_random2 rd = Some b \<longrightarrow> length b = secretBytes"
    and "CompleteSignIn P sv rd ident st = (st', Inr i) \<or> CompleteSignInWithInvitation P sv rd ident inviteToken st = (st', Inr i)
      \<or> Rotate P sv rd raw reason st = (st', Inr i)"
  shows "ActiveAt (is_Session i) (truncated (rd_now rd)) = None \<and> Principal_Validate P (is_Principal i) = None
    \<and> se_UserID (is_Session i) = u_ID (pr_User (is_Principal i))
    \<and> (let t = instant (se_ExpiresAt (is_Session i)) - instant (se_CreatedAt (is_Session i))
        in t = life \<and> minimumSessionLifetime \<le> t \<and> t \<le> maximumSessionLifetime)
    \<and> VerifySessionToken P (se_TokenHash (is_Session i)) (Value (is_Token i))
    \<and> ValidateCSRF P (is_Session i) (Value (is_CSRFSecret i)) = None
    \<and> is_Token i \<noteq> is_CSRFSecret i \<and> se_TokenHash (is_Session i) \<noteq> se_CSRFSecretHash (is_Session i)"
proof -
  have "issue_contract P sv rd i"
    using assms(4)
    by (elim disjE) (erule sign_in.issued [OF _ assms(2,3)] invited.issued [OF _ assms(2,3)] rotation.issued [OF _ assms(2,3)])+
  moreover have "sv_lifetime sv = life" "minimumSessionLifetime \<le> life" "life \<le> maximumSessionLifetime"
    using assms(1) by (cases sv; auto simp: NewService_def split: if_splits)+
  ultimately show ?thesis
    by (simp add: issue_contract_def Let_def)
qed

theorem issued_session_witness:
  "ActiveAt (is_Session ex_issued) (truncated (rd_now ex_reading)) = None
    \<and> ValidateCSRF ex_platform (is_Session ex_issued) (Value (is_CSRFSecret ex_issued)) = None"
  using issued_session [OF ex_new _ _ disjI1 [OF ex_runs(1)]]
  by (simp add: ex_reading_def ex_bytes_def secretBytes_def)

text \<open>C21 Resume_sound: whatever the store answers, a resumed session is the one whose digest is that of the
  presented token, is neither revoked nor expired, and belongs to a valid active principal, whom no permission check
  turns away as unauthenticated.\<close>

theorem Resume_sound:
  assumes "Resume P sv clock raw st = (st', Inr (s, p))"
  shows "UseSession (sv_store sv) (HashSessionToken P (Secret raw)) (truncated clock) st = (st', Inr (s, p))
    \<and> VerifySessionToken P (se_TokenHash s) raw \<and> Session_Validate s = None
    \<and> IsZero (se_RevokedAt s) \<and> Before (truncated clock) (se_ExpiresAt s)
    \<and> Principal_Validate P p = None \<and> se_UserID s = u_ID (pr_User p)
    \<and> Authorize P p q \<noteq> Some ErrUnauthenticated"
proof -
  obtain b where b: "length b = secretBytes" "raw = EncodeToString b"
    using assms by (auto simp: Resume_def ParseSecret_Inr split: sum.splits)
  then have "ParseSecret raw = Inr (Secret raw)" by (auto simp: ParseSecret_Inr)
  with assms show ?thesis
    by (auto simp: Resume_def Let_def result_simps answer_Inr validateActiveSession_def ActiveAt_None
      VerifySessionToken_def verifySecret_def Authorize_def split: option.splits if_splits)
qed

theorem Resume_sound_witness:
  "VerifySessionToken ex_platform (se_TokenHash (ex_session ex_draft [])) (EncodeToString (ex_bytes (CHR ''a'')))
    \<and> Authorize ex_platform ex_principal PermissionPlaceWager \<noteq> Some ErrUnauthenticated"
  using Resume_sound [OF ex_runs(2)] by simp

text \<open>The token that a sign-in hands out opens its session until the session expires, and
  not after, as long as the store returns that session for its digest.\<close>

lemma sign_in_then_resume:
  assumes "CompleteSignIn P sv rd ident st = (st', Inr i)" "\<forall>b. rd_random1 rd = Some b \<longrightarrow> length b = secretBytes"
    and "UseSession (sv_store sv) (se_TokenHash (is_Session i)) (truncated clock) st1 = (st2, Inr (is_Session i, is_Principal i))"
    and "\<not> IsZero (truncated clock)"
  shows "Resume P sv clock (Value (is_Token i)) st1 =
    (st2, if Before (truncated clock) (se_ExpiresAt (is_Session i)) then Inr (is_Session i, is_Principal i) else Inl ErrSessionExpired)"
proof -
  obtain token csrf d where D: "newDraft P sv rd = Inr (token, csrf, d)" and I: "is_Token i = token"
    and V: "validateStoredSession P (is_Session i) (is_Principal i) d = None"
    using sign_in.stored [OF assms(1)] by blast
  have T: "d_TokenHash d = HashSessionToken P token" "ParseSecret (Value token) = Inr token"
    by (rule newDraft_Inr [OF D]; use assms(2) in \<open>auto simp: ParseSecret_Inr\<close>)+
  have S: "se_TokenHash (is_Session i) = HashSessionToken P token" "Session_Validate (is_Session i) = None"
    "IsZero (se_RevokedAt (is_Session i))" "Principal_Validate P (is_Principal i) = None"
    "se_UserID (is_Session i) = u_ID (pr_User (is_Principal i))"
    using V T(1) by (auto simp: validateStoredSession_def result_simps ActiveAt_None)
  show ?thesis
    using assms(3,4) S by (simp add: Resume_def I T(2) validateActiveSession_def ActiveAt_def)
qed

theorem sign_in_then_resume_witness:
  "Resume ex_platform ex_service (Time 300000000000 False) (Value (is_Token ex_issued)) ()
    = ((), Inr (is_Session ex_issued, is_Principal ex_issued))"
proof -
  have "UseSession (sv_store ex_service) (se_TokenHash (is_Session ex_issued)) (truncated (Time 300000000000 False)) ()
    = ((), Inr (is_Session ex_issued, is_Principal ex_issued))"
    by (simp add: ex_service_def ex_issued_def)
  moreover have "Before (truncated (Time 300000000000 False)) (se_ExpiresAt (is_Session ex_issued))"
    by (simp add: ex_issued_def ex_session_def ex_draft_def truncated_def Before_def)
  ultimately show ?thesis
    using sign_in_then_resume [OF ex_runs(1)]
    by (simp add: ex_reading_def ex_bytes_def secretBytes_def truncated_def IsZero_def)
qed

end
