(* ===== verification/Dispatcher.thy ===== *)
theory Dispatcher
  imports Events
begin

text \<open>
  \<open>internal/events/dispatcher.go\<close>: the outbox dispatcher. The store is the interface \<open>OutboxStore\<close> and the
  consumers the interface \<open>Consumer\<close>, both records of functions on one state (the database they share);
  errors are their message texts, which the store records. What a tick reads from outside (cancellation,
  clock, random draw) is an argument; logging is left out. The laws a store promises are the locale
  \<open>outbox_contract\<close>, discharged by the PostgreSQL store in \<open>Outbox\<close>.
\<close>

section \<open>The interfaces\<close>

record claimed_event =
  cl_Envelope :: envelope
  cl_OutboxID :: string
  cl_AttemptCount :: go_int
  cl_MaxAttempts :: go_int

record 'st outbox_store =
  ClaimBatch :: "string \<Rightarrow> go_int \<Rightarrow> 'st \<Rightarrow> 'st \<times> (string + claimed_event list)"
  MarkCompleted :: "string \<Rightarrow> 'st \<Rightarrow> 'st \<times> string option"
  MarkRetry :: "string \<Rightarrow> go_time \<Rightarrow> string \<Rightarrow> 'st \<Rightarrow> 'st \<times> string option"
  MarkFailed :: "string \<Rightarrow> string \<Rightarrow> 'st \<Rightarrow> 'st \<times> string option"
  ReleaseStale :: "int64 \<Rightarrow> 'st \<Rightarrow> 'st \<times> (string + nat)"
  HasReceipt :: "string \<Rightarrow> string \<Rightarrow> 'st \<Rightarrow> 'st \<times> (string + bool)"
  RecordReceipt :: "string \<Rightarrow> string \<Rightarrow> 'st \<Rightarrow> 'st \<times> string option"

record 'st consumer =
  Name :: string
  Handles :: "event_type \<Rightarrow> bool"
  Handle :: "envelope \<Rightarrow> 'st \<Rightarrow> 'st \<times> string option"

record 'st dispatcher_config =
  cfg_Store :: "'st outbox_store option"
  cfg_Consumers :: "'st consumer option list"
  cfg_PollInterval :: int64
  cfg_BatchSize :: go_int
  cfg_LockLease :: int64
  cfg_WorkerID :: string
  cfg_BackoffBase :: int64
  cfg_BackoffCap :: int64

record 'st dispatcher =
  d_store :: "'st outbox_store"
  d_consumers :: "'st consumer list"
  d_pollInterval :: int64
  d_batchSize :: go_int
  d_lockLease :: int64
  d_workerID :: string
  d_backoffBase :: int64
  d_backoffCap :: int64

datatype dispatcher_error =
    StoreRequired | ConsumerRequired | ConsumerNil | ConsumerName | ConsumerDuplicate | WorkerRequired
  | PollInterval | BatchSize | LockLease | BackoffBase | BackoffCap

section \<open>Construction\<close>

fun check_consumers :: "'st consumer option list \<Rightarrow> string list \<Rightarrow> dispatcher_error option" where
  "check_consumers [] seen = None"
| "check_consumers (None # cs) seen = Some ConsumerNil"
| "check_consumers (Some c # cs) seen =
    (if length (TrimSpace (Name c)) = 0 \<or> length (Name c) > 120 then Some ConsumerName
     else if Name c \<in> set seen then Some ConsumerDuplicate
     else check_consumers cs (Name c # seen))"

definition NewDispatcher :: "'st dispatcher_config \<Rightarrow> dispatcher_error + 'st dispatcher" where
  "NewDispatcher cfg =
    (case cfg_Store cfg of None \<Rightarrow> Inl StoreRequired
     | Some store \<Rightarrow> if length (cfg_Consumers cfg) = 0 then Inl ConsumerRequired
     else case check_consumers (cfg_Consumers cfg) [] of Some e \<Rightarrow> Inl e
     | None \<Rightarrow> if TrimSpace (cfg_WorkerID cfg) = [] then Inl WorkerRequired
     else if sint (cfg_PollInterval cfg) \<le> 0 then Inl PollInterval
     else if sint (cfg_BatchSize cfg) \<le> 0 then Inl BatchSize
     else if sint (cfg_LockLease cfg) \<le> 0 then Inl LockLease
     else if sint (cfg_BackoffBase cfg) \<le> 0 then Inl BackoffBase
     else if sint (cfg_BackoffCap cfg) < sint (cfg_BackoffBase cfg) then Inl BackoffCap
     else Inr \<lparr>d_store = store, d_consumers = map the (cfg_Consumers cfg), d_pollInterval = cfg_PollInterval cfg,
       d_batchSize = cfg_BatchSize cfg, d_lockLease = cfg_LockLease cfg, d_workerID = cfg_WorkerID cfg,
       d_backoffBase = cfg_BackoffBase cfg, d_backoffCap = cfg_BackoffCap cfg\<rparr>)"

section \<open>Backoff\<close>

definition backoff_cap :: "'st dispatcher \<Rightarrow> go_int \<Rightarrow> int64" where
  \<comment> \<open>\<open>delay\<close> before the jitter; the product wraps around\<close>
  "backoff_cap d attempt =
    (let attempt = (if sint attempt < 1 then 1 else attempt);
         shift = attempt - 1;
         shift = (if sint shift > 62 then 62 else shift);
         delay = d_backoffBase d * push_bit (unat shift) 1
     in if sint delay \<le> 0 \<or> sint delay > sint (d_backoffCap d) then d_backoffCap d else delay)"

definition backoffDelay :: "'st dispatcher \<Rightarrow> (int64 \<Rightarrow> int64) \<Rightarrow> go_int \<Rightarrow> int64" where
  "backoffDelay d randInt63n attempt =
    (let delay = backoff_cap d attempt;
         half = quo64 delay 2;
         jitter = (if sint half > 0 then randInt63n (half + 1) else 0)
     in half + jitter)"

section \<open>Processing\<close>

record tick_reading =
  tr_cancelled :: bool
  tr_now :: go_time
  tr_rand :: "int64 \<Rightarrow> int64"

fun run_consumers ::
  "'st outbox_store \<Rightarrow> claimed_event \<Rightarrow> 'st consumer list \<Rightarrow> 'st \<Rightarrow> 'st \<times> string option" where
  "run_consumers store ev [] st = (st, None)"
| "run_consumers store ev (c # cs) st =
    (if \<not> Handles c (e_Type (cl_Envelope ev)) then run_consumers store ev cs st
     else case HasReceipt store (Name c) (cl_OutboxID ev) st of
       (st, Inl e) \<Rightarrow> (st, Some e)
     | (st, Inr True) \<Rightarrow> run_consumers store ev cs st
     | (st, Inr False) \<Rightarrow> (case Handle c (cl_Envelope ev) st of
         (st, Some e) \<Rightarrow> (st, Some e)
       | (st, None) \<Rightarrow> (case RecordReceipt store (Name c) (cl_OutboxID ev) st of
           (st, Some e) \<Rightarrow> (st, Some e)
         | (st, None) \<Rightarrow> run_consumers store ev cs st)))"

definition handleFailure ::
  "'st dispatcher \<Rightarrow> tick_reading \<Rightarrow> claimed_event \<Rightarrow> string \<Rightarrow> 'st \<Rightarrow> 'st" where
  "handleFailure d rd ev cause st =
    (if sint (cl_AttemptCount ev) \<ge> sint (cl_MaxAttempts ev)
     then fst (MarkFailed (d_store d) (cl_OutboxID ev) cause st)
     else let availableAt = Time (instant (tr_now rd) + sint (backoffDelay d (tr_rand rd) (cl_AttemptCount ev))) True
       in fst (MarkRetry (d_store d) (cl_OutboxID ev) availableAt cause st))"

definition processEvent :: "'st dispatcher \<Rightarrow> tick_reading \<Rightarrow> claimed_event \<Rightarrow> 'st \<Rightarrow> 'st" where
  "processEvent d rd ev st =
    (case run_consumers (d_store d) ev (d_consumers d) st of
      (st, Some failure) \<Rightarrow> handleFailure d rd ev failure st
    | (st, None) \<Rightarrow> fst (MarkCompleted (d_store d) (cl_OutboxID ev) st))"

fun process_batch :: "'st dispatcher \<Rightarrow> (nat \<Rightarrow> tick_reading) \<Rightarrow> claimed_event list \<Rightarrow> 'st \<Rightarrow> 'st" where
  "process_batch d rd [] st = st"
| "process_batch d rd (ev # evs) st =
    (if tr_cancelled (rd 0) then st
     else process_batch d (\<lambda>i. rd (Suc i)) evs (processEvent d (rd 0) ev st))"

definition tick :: "'st dispatcher \<Rightarrow> (nat \<Rightarrow> tick_reading) \<Rightarrow> 'st \<Rightarrow> 'st" where
  "tick d rd st =
    (let st = fst (ReleaseStale (d_store d) (d_lockLease d) st)
     in case ClaimBatch (d_store d) (d_workerID d) (d_batchSize d) st of
       (st, Inl e) \<Rightarrow> st
     | (st, Inr claimed) \<Rightarrow> process_batch d rd claimed st)"

definition Run :: "'st dispatcher \<Rightarrow> (nat \<Rightarrow> tick_reading) list \<Rightarrow> 'st \<Rightarrow> 'st" where
  \<comment> \<open>one tick per reading; the context is done when the list is\<close>
  "Run d rds st = fold (tick d) rds st"

section \<open>Backoff bounds\<close>

lemma NewDispatcher_Inr:
  assumes "NewDispatcher cfg = Inr d"
  shows "0 < sint (d_backoffBase d)" "sint (d_backoffBase d) \<le> sint (d_backoffCap d)" "0 < sint (d_batchSize d)"
    "0 < sint (d_lockLease d)" "\<not> blank (d_workerID d)" "d_consumers d \<noteq> []"
    "distinct (map Name (d_consumers d))" "\<forall>c \<in> set (d_consumers d). \<not> blank (Name c) \<and> length (Name c) \<le> 120"
proof -
  have C: "None \<notin> set cs \<and> distinct (map Name (map the cs)) \<and> Name ` set (map the cs) \<inter> set seen = {}
      \<and> (\<forall>c \<in> set (map the cs). \<not> blank (Name c) \<and> length (Name c) \<le> 120)"
    if "check_consumers cs seen = None" for cs :: "'a consumer option list" and seen
    using that by (induction cs seen rule: check_consumers.induct) (auto split: if_splits simp: blank_def)
  show "0 < sint (d_backoffBase d)" "sint (d_backoffBase d) \<le> sint (d_backoffCap d)" "0 < sint (d_batchSize d)"
    "0 < sint (d_lockLease d)" "\<not> blank (d_workerID d)" "d_consumers d \<noteq> []"
    "distinct (map Name (d_consumers d))" "\<forall>c \<in> set (d_consumers d). \<not> blank (Name c) \<and> length (Name c) \<le> 120"
    using assms C [of "cfg_Consumers cfg" "[]"]
    by (auto simp: NewDispatcher_def result_simps blank_def split: option.splits if_splits)
qed

lemma backoff_cap_bounds:
  assumes "0 < sint (d_backoffBase d)" "sint (d_backoffBase d) \<le> sint (d_backoffCap d)"
  shows "0 < sint (backoff_cap d attempt)" "sint (backoff_cap d attempt) \<le> sint (d_backoffCap d)"
  using assms by (auto simp: backoff_cap_def Let_def)

lemma sint_shift:
  assumes "k \<le> 62"
  shows "sint (push_bit k 1 :: int64) = 2 ^ k"
proof -
  have "(2::int) ^ k \<le> 2 ^ 62" using assms by (rule power_increasing) simp
  then have le: "(2::int) ^ k \<le> 9223372036854775807" by simp
  have "push_bit k (1 :: int64) = word_of_int (2 ^ k)" by (simp add: push_bit_eq_mult)
  then show ?thesis using le by (simp only:) (rule sint64_of_int, simp_all add: order_trans [OF _ zero_le_power])
qed

lemma backoff_cap_exact:
  assumes "0 < sint (d_backoffBase d)" "sint (d_backoffBase d) \<le> sint (d_backoffCap d)"
    and "1 \<le> sint attempt" "sint attempt \<le> 63" "sint (d_backoffBase d) * 2 ^ nat (sint attempt - 1) \<le> 9223372036854775807"
  shows "sint (backoff_cap d attempt) = min (sint (d_backoffCap d)) (sint (d_backoffBase d) * 2 ^ nat (sint attempt - 1))"
proof -
  have shift: "sint (attempt - 1) = sint attempt - 1"
    using assms(3,4) by (subst sint64_diff) simp_all
  have u: "unat (attempt - 1) = nat (sint attempt - 1)"
  proof -
    have "uint (attempt - 1) = take_bit 64 (sint (attempt - 1))"
      by (simp add: uint_sint)
    also have "\<dots> = sint (attempt - 1)"
      using shift assms(3) sint64_le [of "attempt - 1"] by (intro take_bit_int_eq_self) simp_all
    finally show ?thesis using shift by (simp add: unat_eq_nat_uint)
  qed
  let ?k = "nat (sint attempt - 1)"
  have k: "?k \<le> 62" using assms(4) by simp
  have p: "sint (push_bit ?k 1 :: int64) = 2 ^ ?k" by (rule sint_shift [OF k])
  have pos: "0 < sint (d_backoffBase d) * 2 ^ ?k"
    using assms(1) by simp
  have m: "sint (d_backoffBase d * push_bit ?k 1) = sint (d_backoffBase d) * 2 ^ ?k"
    using pos assms(5) unfolding p [symmetric] by (intro sint64_mult) linarith+
  show ?thesis
    using assms(3,4) shift m pos by (auto simp: backoff_cap_def Let_def u)
qed

section \<open>Paths through the outbox states\<close>

definition moves :: "outbox_state option \<Rightarrow> outbox_state option \<Rightarrow> bool" where
  \<comment> \<open>a known event stays known and follows the state machine\<close>
  "moves s t \<longleftrightarrow> s = None \<or> (\<exists>u v. s = Some u \<and> t = Some v \<and> OutboxState_CanTransitionTo\<^sup>*\<^sup>* u v)"

lemma moves_trans: "moves s t \<Longrightarrow> moves t u \<Longrightarrow> moves s u"
  by (auto simp: moves_def intro: rtranclp_trans)

lemma moves_keep [intro]: "(s \<noteq> None \<Longrightarrow> t = s) \<Longrightarrow> moves s t"
  by (auto simp: moves_def)

lemma can_steps:
  "OutboxState_CanTransitionTo OutboxPending OutboxProcessing" "OutboxState_CanTransitionTo OutboxProcessing OutboxPending"
  "OutboxState_CanTransitionTo OutboxProcessing OutboxCompleted" "OutboxState_CanTransitionTo OutboxProcessing OutboxFailed"
  by (simp_all add: OutboxState_CanTransitionTo_def)

lemma moves_step [simp]:
  "moves (Some OutboxPending) (Some OutboxProcessing)" "moves (Some OutboxProcessing) (Some OutboxPending)"
  "moves (Some OutboxProcessing) (Some OutboxCompleted)" "moves (Some OutboxProcessing) (Some OutboxFailed)"
  "moves s s"
  using can_steps by (auto simp: moves_def)

lemma moves_final:
  assumes "moves (Some s) t" "s = OutboxCompleted \<or> s = OutboxFailed"
  shows "t = Some s"
proof -
  have "v = s" if "OutboxState_CanTransitionTo\<^sup>*\<^sup>* s v" for v
    using that by (induction rule: rtranclp_induct) (use assms(2) in \<open>auto simp: OutboxState_CanTransitionTo_def split: if_splits\<close>)
  then show ?thesis using assms(1) by (auto simp: moves_def)
qed

section \<open>What the store promises\<close>

text \<open>
  \<open>receipt st c i\<close>: consumer \<open>c\<close> has a receipt for the event with key \<open>i\<close>; \<open>status st i\<close>: its outbox state;
  \<open>canon\<close> is the key an identifier stands for, \<open>inv\<close> the store's invariant. A failed call changes neither
  receipts nor states.
\<close>

locale outbox_contract =
  fixes store :: "'st outbox_store" and inv :: "'st \<Rightarrow> bool" and canon :: "string \<Rightarrow> string"
    and receipt :: "'st \<Rightarrow> string \<Rightarrow> string \<Rightarrow> bool" and status :: "'st \<Rightarrow> string \<Rightarrow> outbox_state option"
  assumes has: "inv st \<Longrightarrow> HasReceipt store c i st = (st', h) \<Longrightarrow>
      inv st' \<and> receipt st' = receipt st \<and> status st' = status st \<and> (\<forall>b. h = Inr b \<longrightarrow> b = receipt st c (canon i))"
    and records: "inv st \<Longrightarrow> RecordReceipt store c i st = (st', e) \<Longrightarrow> inv st' \<and> status st' = status st \<and>
      receipt st' = (if e = None then (receipt st)(c := (receipt st c)(canon i := True)) else receipt st)"
    and completes: "inv st \<Longrightarrow> MarkCompleted store i st = (st', e) \<Longrightarrow> inv st' \<and> receipt st' = receipt st \<and>
      (if e = None then status st (canon i) = Some OutboxProcessing \<and> status st' = (status st)(canon i \<mapsto> OutboxCompleted)
       else status st' = status st)"
    and retries: "inv st \<Longrightarrow> MarkRetry store i t msg st = (st', e) \<Longrightarrow> inv st' \<and> receipt st' = receipt st \<and>
      (if e = None then status st (canon i) = Some OutboxProcessing \<and> status st' = (status st)(canon i \<mapsto> OutboxPending)
       else status st' = status st)"
    and fails: "inv st \<Longrightarrow> MarkFailed store i msg st = (st', e) \<Longrightarrow> inv st' \<and> receipt st' = receipt st \<and>
      (if e = None then status st (canon i) = Some OutboxProcessing \<and> status st' = (status st)(canon i \<mapsto> OutboxFailed)
       else status st' = status st)"
    and releases: "inv st \<Longrightarrow> ReleaseStale store lease st = (st', n) \<Longrightarrow> inv st' \<and> receipt st' = receipt st \<and>
      (\<forall>i. status st' i = status st i \<or> status st i = Some OutboxProcessing \<and> status st' i = Some OutboxPending)"
    and claims: "inv st \<Longrightarrow> ClaimBatch store w k st = (st', r) \<Longrightarrow> inv st' \<and> receipt st' = receipt st \<and>
      (\<forall>i. status st' i = status st i \<or> status st i = Some OutboxPending \<and> status st' i = Some OutboxProcessing) \<and>
      (\<forall>evs. r = Inr evs \<longrightarrow> (\<forall>ev \<in> set evs. status st (canon (cl_OutboxID ev)) = Some OutboxPending
        \<and> status st' (canon (cl_OutboxID ev)) = Some OutboxProcessing))"
begin

definition quiet :: "'st consumer \<Rightarrow> bool" where
  \<comment> \<open>a consumer leaves receipts and the known events alone; it may publish new ones\<close>
  "quiet c \<longleftrightarrow> (\<forall>ev st. inv st \<longrightarrow> inv (fst (Handle c ev st)) \<and> receipt (fst (Handle c ev st)) = receipt st
     \<and> (\<forall>i. status st i \<noteq> None \<longrightarrow> status (fst (Handle c ev st)) i = status st i))"

definition grows :: "string \<Rightarrow> 'st \<Rightarrow> 'st \<Rightarrow> bool" where
  \<comment> \<open>only receipts of event \<open>i\<close> are added, and no known event changes its state\<close>
  "grows i st st' \<longleftrightarrow> inv st' \<and> (\<forall>c j. receipt st c j \<longrightarrow> receipt st' c j) \<and> (\<forall>c j. j \<noteq> i \<longrightarrow> receipt st' c j = receipt st c j)
     \<and> (\<forall>j. status st j \<noteq> None \<longrightarrow> status st' j = status st j)"

lemma grows_refl: "inv st \<Longrightarrow> grows i st st"
  by (simp add: grows_def)

lemma grows_inv: "grows i st st' \<Longrightarrow> inv st'"
  by (simp add: grows_def)

lemma grows_trans: "grows i st st1 \<Longrightarrow> grows i st1 st2 \<Longrightarrow> grows i st st2"
  unfolding grows_def by metis

lemma grows_steps:
  assumes "inv st"
  shows "HasReceipt store c i st = (st', h) \<Longrightarrow> grows (canon i) st st'"
    "RecordReceipt store c i st = (st', e) \<Longrightarrow> grows (canon i) st st'"
    "quiet k \<Longrightarrow> Handle k ev st = (st', e') \<Longrightarrow> grows j st st'"
proof -
  show "HasReceipt store c i st = (st', h) \<Longrightarrow> grows (canon i) st st'"
    by (auto simp: grows_def dest: has [OF assms])
  show "RecordReceipt store c i st = (st', e) \<Longrightarrow> grows (canon i) st st'"
    by (drule records [OF assms]) (auto simp: grows_def split: if_splits)
  show "quiet k \<Longrightarrow> Handle k ev st = (st', e') \<Longrightarrow> grows j st st'"
    using assms by (auto simp: grows_def quiet_def dest!: spec [where x = ev] spec [where x = st])
qed

text \<open>One consumer: it is skipped, has its receipt, or is handled and recorded, or the chain stops with an error.\<close>

lemma run_consumers_Cons:
  assumes "run_consumers store ev (c # cs) st = (st', r)" "inv st" "quiet c"
  obtains "r \<noteq> None" "grows (canon (cl_OutboxID ev)) st st'"
    | st1 where "grows (canon (cl_OutboxID ev)) st st1" "run_consumers store ev cs st1 = (st', r)"
      "Handles c (e_Type (cl_Envelope ev)) \<longrightarrow> receipt st1 (Name c) (canon (cl_OutboxID ev))"
proof (cases "Handles c (e_Type (cl_Envelope ev))")
  case True
  let ?i = "canon (cl_OutboxID ev)"
  obtain st1 h where H: "HasReceipt store (Name c) (cl_OutboxID ev) st = (st1, h)" by fastforce
  obtain st2 e where C: "Handle c (cl_Envelope ev) st1 = (st2, e)" by fastforce
  obtain st3 f where R: "RecordReceipt store (Name c) (cl_OutboxID ev) st2 = (st3, f)" by fastforce
  have g1: "grows ?i st st1" by (rule grows_steps(1) [OF assms(2) H])
  have g2: "grows ?i st st2" by (rule grows_trans [OF g1 grows_steps(3) [OF grows_inv [OF g1] assms(3) C]])
  have g3: "grows ?i st st3" by (rule grows_trans [OF g2 grows_steps(2) [OF grows_inv [OF g2] R]])
  consider "r \<noteq> None" "st' \<in> {st1, st2, st3}" | "h = Inr True" "run_consumers store ev cs st1 = (st', r)"
    | "f = None" "run_consumers store ev cs st3 = (st', r)"
    using assms(1) True H C R by (auto split: sum.splits bool.splits option.splits)
  then show thesis
  proof cases
    case 1
    then show ?thesis using g1 g2 g3 that(1) by auto
  next
    case 2
    then show ?thesis using that(2) [OF g1] has [OF assms(2) H] by simp
  next
    case 3
    then show ?thesis using that(2) [OF g3] records [OF grows_inv [OF g2] R] by simp
  qed
next
  case False
  then show ?thesis using that(2) [OF grows_refl] assms by simp
qed

lemma run_consumers_frame:
  assumes "run_consumers store ev cs st = (st', r)" "inv st" "\<forall>c \<in> set cs. quiet c"
  shows "grows (canon (cl_OutboxID ev)) st st'
    \<and> (r = None \<longrightarrow> (\<forall>c \<in> set cs. Handles c (e_Type (cl_Envelope ev)) \<longrightarrow> receipt st' (Name c) (canon (cl_OutboxID ev))))"
  using assms
proof (induction cs arbitrary: st)
  case (Cons c cs)
  have "quiet c" using Cons.prems(3) by simp
  from Cons.prems(1,2) this show ?case
  proof (cases rule: run_consumers_Cons)
    case (2 st1)
    then have "grows (canon (cl_OutboxID ev)) st1 st'
      \<and> (r = None \<longrightarrow> (\<forall>c \<in> set cs. Handles c (e_Type (cl_Envelope ev)) \<longrightarrow> receipt st' (Name c) (canon (cl_OutboxID ev))))"
      using Cons.IH [of st1] Cons.prems(3) grows_inv by simp
    then show ?thesis using 2 grows_trans by (auto simp: grows_def)
  qed auto
qed (simp add: grows_refl)

lemma run_consumers_dedup:
  assumes "\<forall>c \<in> set cs. Handles c (e_Type (cl_Envelope ev)) \<longrightarrow> receipt st (Name c) (canon (cl_OutboxID ev))" "inv st"
  shows "run_consumers store ev (map (\<lambda>c. c\<lparr>Handle := g c\<rparr>) cs) st = run_consumers store ev cs st"
  using assms
proof (induction cs arbitrary: st)
  case (Cons c cs)
  obtain st1 h where H: "HasReceipt store (Name c) (cl_OutboxID ev) st = (st1, h)" by fastforce
  show ?case
    using Cons.prems Cons.IH [of st] Cons.IH [of st1] H has [OF Cons.prems(2) H] by (auto split: sum.splits bool.splits)
qed simp

lemma handleFailure_status:
  assumes "d_store d = store" "inv st"
  shows "inv (handleFailure d rd ev cause st) \<and> receipt (handleFailure d rd ev cause st) = receipt st
    \<and> (status (handleFailure d rd ev cause st) = status st
      \<or> status st (canon (cl_OutboxID ev)) = Some OutboxProcessing
        \<and> status (handleFailure d rd ev cause st) = (status st)(canon (cl_OutboxID ev) \<mapsto>
          (if sint (cl_AttemptCount ev) \<ge> sint (cl_MaxAttempts ev) then OutboxFailed else OutboxPending)))"
proof -
  obtain st1 e where F: "MarkFailed store (cl_OutboxID ev) cause st = (st1, e)" by fastforce
  define t where "t = Time (instant (tr_now rd) + sint (backoffDelay d (tr_rand rd) (cl_AttemptCount ev))) True"
  obtain st2 f where R: "MarkRetry store (cl_OutboxID ev) t cause st = (st2, f)" by fastforce
  show ?thesis
    using fails [OF assms(2) F] retries [OF assms(2) R] F R assms(1)
    by (cases e; cases f) (auto simp: handleFailure_def t_def)
qed

lemma processEvent_status:
  fixes rd :: tick_reading and ev :: claimed_event and d :: "'st dispatcher" and st :: 'st
  assumes "d_store d = store" "inv st" "\<forall>c \<in> set (d_consumers d). quiet c"
  defines "st' \<equiv> processEvent d rd ev st" and "i \<equiv> canon (cl_OutboxID ev)"
  shows "inv st' \<and> (\<forall>j. j \<noteq> i \<and> status st j \<noteq> None \<longrightarrow> status st' j = status st j)
    \<and> (\<forall>c j. receipt st c j \<longrightarrow> receipt st' c j)
    \<and> (status st i \<noteq> None \<and> status st' i \<noteq> status st i \<longrightarrow> status st i = Some OutboxProcessing
      \<and> (status st' i = Some OutboxCompleted \<and>
          (\<forall>c \<in> set (d_consumers d). Handles c (e_Type (cl_Envelope ev)) \<longrightarrow> receipt st' (Name c) i)
        \<or> status st' i = Some OutboxFailed \<and> sint (cl_MaxAttempts ev) \<le> sint (cl_AttemptCount ev)
        \<or> status st' i = Some OutboxPending \<and> sint (cl_AttemptCount ev) < sint (cl_MaxAttempts ev)))"
proof -
  obtain st1 r where R: "run_consumers store ev (d_consumers d) st = (st1, r)" by fastforce
  note G = run_consumers_frame [OF R assms(2,3), unfolded grows_def]
  then have inv1: "inv st1" by simp
  show ?thesis
  proof (cases r)
    case None
    obtain st2 e where M: "MarkCompleted store (cl_OutboxID ev) st1 = (st2, e)" by fastforce
    have "st' = st2" using R None M assms(1) by (simp add: st'_def processEvent_def)
    then show ?thesis
      using G None completes [OF inv1 M] by (cases e) (auto simp: i_def)
  next
    case (Some f)
    have "st' = handleFailure d rd ev f st1" using R Some assms(1) by (simp add: st'_def processEvent_def)
    then show ?thesis
      using G handleFailure_status [OF assms(1) inv1, of rd ev f] by (auto simp: i_def split: if_splits)
  qed
qed

lemma processEvent_moves:
  assumes "d_store d = store" "inv st" "\<forall>c \<in> set (d_consumers d). quiet c"
  shows "inv (processEvent d rd ev st)" "moves (status st i) (status (processEvent d rd ev st) i)"
    "receipt st c j \<Longrightarrow> receipt (processEvent d rd ev st) c j"
proof -
  note P = processEvent_status [OF assms, of rd ev]
  show "inv (processEvent d rd ev st)" "receipt st c j \<Longrightarrow> receipt (processEvent d rd ev st) c j"
    using P by blast+
  show "moves (status st i) (status (processEvent d rd ev st) i)"
  proof (cases "status st i = None \<or> status (processEvent d rd ev st) i = status st i")
    case False
    then show ?thesis using P by (cases "i = canon (cl_OutboxID ev)") auto
  qed auto
qed

lemma process_batch_moves:
  assumes "d_store d = store" "\<forall>c \<in> set (d_consumers d). quiet c"
  shows "inv st \<Longrightarrow> inv (process_batch d rd evs st) \<and> moves (status st i) (status (process_batch d rd evs st) i)
    \<and> (receipt st c j \<longrightarrow> receipt (process_batch d rd evs st) c j)"
proof (induction evs arbitrary: st rd)
  case (Cons ev evs)
  note P = processEvent_moves [OF assms(1) Cons.prems assms(2)]
  note IH = Cons.IH [OF P(1) [of "rd 0" ev], of "\<lambda>n. rd (Suc n)"]
  show ?case
    using Cons.prems P(2) [of i "rd 0" ev] P(3) [of c j "rd 0" ev] IH moves_trans by auto
qed simp

lemma tick_moves:
  assumes "d_store d = store" "inv st" "\<forall>c \<in> set (d_consumers d). quiet c"
  shows "inv (tick d rd st)" "moves (status st i) (status (tick d rd st) i)" "receipt st c j \<Longrightarrow> receipt (tick d rd st) c j"
proof -
  obtain st1 n where R: "ReleaseStale store (d_lockLease d) st = (st1, n)" by fastforce
  note R' = releases [OF assms(2) R]
  then have inv1: "inv st1" by simp
  obtain st2 r where C: "ClaimBatch store (d_workerID d) (d_batchSize d) st1 = (st2, r)" by fastforce
  note C' = claims [OF inv1 C]
  then have inv2: "inv st2" by simp
  have "moves (status st i) (status st1 i)"
    using R' by (metis moves_step(2,5))
  moreover have "moves (status st1 i) (status st2 i)"
    using C' by (metis moves_step(1,5))
  ultimately have m: "moves (status st i) (status st2 i)" by (rule moves_trans)
  have e: "receipt st2 = receipt st" using R' C' by simp
  have t: "tick d rd st = (case r of Inl e \<Rightarrow> st2 | Inr evs \<Rightarrow> process_batch d rd evs st2)"
    using R C assms(1) by (simp add: tick_def split: sum.split)
  note B = process_batch_moves [OF assms(1,3) inv2]
  show "inv (tick d rd st)" using t inv2 B by (auto split: sum.split)
  show "moves (status st i) (status (tick d rd st) i)"
    using t m B [of rd _ i] moves_trans by (auto split: sum.split)
  show "receipt st c j \<Longrightarrow> receipt (tick d rd st) c j"
    using t e B [of rd _ _ c j] by (auto split: sum.split)
qed

lemma Run_moves:
  assumes "d_store d = store" "\<forall>c \<in> set (d_consumers d). quiet c"
  shows "inv st \<Longrightarrow> inv (Run d rds st) \<and> moves (status st i) (status (Run d rds st) i)
    \<and> (receipt st c j \<longrightarrow> receipt (Run d rds st) c j)"
  unfolding Run_def
proof (induction rds arbitrary: st)
  case (Cons rd rds)
  note T = tick_moves [OF assms(1) Cons.prems assms(2)]
  show ?case
    using Cons.IH [OF T(1) [of rd]] T(2) [of i rd] T(3) [of c j rd] moves_trans by auto
qed simp

end

end
