(* ===== verification/Outbox.thy ===== *)
theory Outbox
  imports Dispatcher "HOL-Library.Product_Lexorder"
begin

text \<open>
  \<open>internal/eventspg/store.go\<close>: the outbox in PostgreSQL. The two tables are lists of rows, each SQL statement
  of the source is one function on them (a statement is atomic), \<open>now()\<close> is read from the state, and
  \<open>ob_faults\<close> holds what the database answers to the next statements beside success: \<open>Some e\<close> is an
  error \<open>e\<close>, after which nothing has changed. \<open>ob_world\<close> is the rest of the database, which consumers work on.
  The unspecified order of the rows that \<open>RETURNING\<close> gives is the table order. The store satisfies the contract
  \<open>outbox_contract\<close> of the dispatcher.
\<close>

section \<open>Tables\<close>

record outbox_row =
  r_ID :: string
  r_AggregateType :: string
  r_AggregateID :: string
  r_AggregateVersion :: int64
  r_EventType :: string
  r_Payload :: string
  r_OccurredAt :: go_time
  r_AvailableAt :: go_time
  r_State :: outbox_state
  r_AttemptCount :: go_int
  r_MaxAttempts :: go_int
  r_LockedAt :: "go_time option"
  r_LockedBy :: "string option"
  r_CompletedAt :: "go_time option"
  r_FailedAt :: "go_time option"
  r_LastError :: "string option"
  r_CorrelationID :: string
  r_CausationID :: string

record 'w outbox =
  ob_rows :: "outbox_row list"
  ob_receipts :: "(string \<times> string) list"
  ob_now :: go_time
  ob_faults :: "string option list"
  ob_world :: 'w

definition hex_lower :: "char \<Rightarrow> char" where
  "hex_lower c = (if is_upper c then char_of (byte c + 32) else c)"

definition pg_uuid :: "string \<Rightarrow> string option" where
  \<comment> \<open>the cast \<open>::uuid\<close> of the 36-character form, read back in lower case\<close>
  "pg_uuid s =
    (if length s = 36 \<and> (\<forall>i < 36. if i \<in> {8, 13, 18, 23} then s ! i = CHR ''-'' else is_hex (s ! i))
     then Some (map hex_lower s) else None)"

lemma hex_lower_facts:
  "hex_lower (hex_lower c) = hex_lower c" "is_hex c \<Longrightarrow> is_hex (hex_lower c)" "hex_lower CHR ''-'' = CHR ''-''"
proof -
  have b: "byte (char_of (byte c + 32)) = byte c + 32" if "is_upper c"
    using that by (simp add: is_upper_def between_def byte_def)
  show "hex_lower (hex_lower c) = hex_lower c"
    using b by (cases "is_upper c") (auto simp: hex_lower_def is_upper_def between_def)
  show "is_hex (hex_lower c)" if "is_hex c"
    using b that by (cases "is_upper c") (auto simp: hex_lower_def is_hex_def is_upper_def between_def)
  show "hex_lower CHR ''-'' = CHR ''-''" by (simp add: hex_lower_def is_upper_def between_def byte_def)
qed

lemma pg_uuid_idem:
  assumes "pg_uuid s = Some u"
  shows "pg_uuid u = Some u"
proof -
  have s: "length s = 36" "\<And>i. i < 36 \<Longrightarrow> if i \<in> {8, 13, 18, 23} then s ! i = CHR ''-'' else is_hex (s ! i)"
    and u: "u = map hex_lower s"
    using assms unfolding pg_uuid_def by (simp_all only: option.inject option.distinct split: if_splits) blast+
  have at: "if i \<in> {8, 13, 18, 23} then u ! i = CHR ''-'' else is_hex (u ! i)" if "i < 36" for i
    using s(2) [OF that] that s(1) hex_lower_facts(2,3) unfolding u by (metis nth_map)
  have "length u = 36" using s(1) by (simp add: u)
  with at have shape: "length u = 36 \<and> (\<forall>i < 36. if i \<in> {8, 13, 18, 23} then u ! i = CHR ''-'' else is_hex (u ! i))"
    by blast
  have "map hex_lower u = u" unfolding u by (simp add: hex_lower_facts(1) comp_def)
  then show ?thesis unfolding pg_uuid_def if_P [OF shape] by (rule arg_cong)
qed

definition faulty :: "'w outbox \<Rightarrow> string option" where
  "faulty ob = (case ob_faults ob of Some e # _ \<Rightarrow> Some e | _ \<Rightarrow> None)"

definition called :: "'w outbox \<Rightarrow> 'w outbox" where
  \<comment> \<open>one statement has been sent\<close>
  "called ob = ob\<lparr>ob_faults := tl (ob_faults ob)\<rparr>"

section \<open>Publishing\<close>

definition maxLastErrorLength :: nat where
  "maxLastErrorLength = 2000"

definition outbox_conflict :: "envelope \<Rightarrow> string \<Rightarrow> outbox_row \<Rightarrow> bool" where
  "outbox_conflict e agg r \<longleftrightarrow> r_AggregateType r = e_AggregateType e \<and> r_AggregateID r = agg
     \<and> r_AggregateVersion r = e_AggregateVersion e \<and> r_EventType r = e_Type e"

definition new_row :: "envelope \<Rightarrow> string \<Rightarrow> string \<Rightarrow> go_int \<Rightarrow> go_time \<Rightarrow> outbox_row" where
  "new_row e i agg maxAttempts now' =
    \<lparr>r_ID = i, r_AggregateType = e_AggregateType e, r_AggregateID = agg, r_AggregateVersion = e_AggregateVersion e,
     r_EventType = e_Type e, r_Payload = e_Payload e, r_OccurredAt = e_OccurredAt e, r_AvailableAt = now',
     r_State = OutboxPending, r_AttemptCount = 0, r_MaxAttempts = maxAttempts, r_LockedAt = None, r_LockedBy = None,
     r_CompletedAt = None, r_FailedAt = None, r_LastError = None,
     r_CorrelationID = e_CorrelationID e, r_CausationID = e_CausationID e\<rparr>"

datatype publish_error = InvalidEnvelope events_error | MaxAttempts | Database string

definition Publish :: "envelope \<Rightarrow> go_int \<Rightarrow> 'w outbox \<Rightarrow> 'w outbox \<times> publish_error option" where
  "Publish e maxAttempts ob =
    (case Envelope_Validate e of Some err \<Rightarrow> (ob, Some (InvalidEnvelope err))
     | None \<Rightarrow> if sint maxAttempts < 1 \<or> sint maxAttempts > 100 then (ob, Some MaxAttempts)
     else case faulty ob of Some err \<Rightarrow> (called ob, Some (Database err))
     | None \<Rightarrow> (case (pg_uuid (e_ID e), pg_uuid (e_AggregateID e)) of
         (Some i, Some agg) \<Rightarrow>
           if list_ex (outbox_conflict e agg) (ob_rows ob) then (called ob, None)
           else if list_ex (\<lambda>r. r_ID r = i) (ob_rows ob) then (called ob, Some (Database ''duplicate key''))
           else if instant (e_OccurredAt e) > instant (ob_now ob) + 300000000000
             then (called ob, Some (Database ''check constraint''))
           else ((called ob)\<lparr>ob_rows := ob_rows ob @ [new_row e i agg maxAttempts (ob_now ob)]\<rparr>, None)
       | _ \<Rightarrow> (called ob, Some (Database ''invalid uuid''))))"

section \<open>The store\<close>

definition row_due :: "go_time \<Rightarrow> outbox_row \<Rightarrow> bool" where
  "row_due now' r \<longleftrightarrow> r_State r = OutboxPending \<and> instant (r_AvailableAt r) \<le> instant now'"

definition row_order :: "outbox_row \<Rightarrow> int \<times> int \<times> string" where
  "row_order r = (instant (r_AvailableAt r), instant (r_OccurredAt r), r_ID r)"

definition claim_ids :: "nat \<Rightarrow> 'w outbox \<Rightarrow> string list" where
  "claim_ids limit ob = map r_ID (take limit (sort_key row_order (filter (row_due (ob_now ob)) (ob_rows ob))))"

definition claim_row :: "string \<Rightarrow> go_time \<Rightarrow> outbox_row \<Rightarrow> outbox_row" where
  "claim_row worker now' r = r\<lparr>r_State := OutboxProcessing, r_LockedAt := Some now', r_LockedBy := Some worker,
     r_AttemptCount := r_AttemptCount r + 1\<rparr>"

definition claimed_of :: "outbox_row \<Rightarrow> claimed_event" where
  "claimed_of r =
    \<lparr>cl_Envelope = \<lparr>e_ID = r_ID r, e_AggregateType = r_AggregateType r, e_AggregateID = r_AggregateID r,
       e_AggregateVersion = r_AggregateVersion r, e_Type = r_EventType r, e_Payload = r_Payload r,
       e_OccurredAt = UTC (r_OccurredAt r), e_CorrelationID = r_CorrelationID r, e_CausationID = r_CausationID r\<rparr>,
     cl_OutboxID = r_ID r, cl_AttemptCount = r_AttemptCount r, cl_MaxAttempts = r_MaxAttempts r\<rparr>"

definition Outbox_ClaimBatch :: "string \<Rightarrow> go_int \<Rightarrow> 'w outbox \<Rightarrow> 'w outbox \<times> (string + claimed_event list)" where
  "Outbox_ClaimBatch worker limit ob =
    (if TrimSpace worker = [] then (ob, Inl ''eventspg: worker id is required'')
     else if sint limit \<le> 0 then (ob, Inl ''eventspg: limit must be positive'')
     else case faulty ob of Some err \<Rightarrow> (called ob, Inl (''claim outbox batch: '' @ err))
     | None \<Rightarrow> let ids = claim_ids (nat (sint limit)) ob;
                  rows = map (\<lambda>r. if r_ID r \<in> set ids then claim_row worker (ob_now ob) r else r) (ob_rows ob)
       in ((called ob)\<lparr>ob_rows := rows\<rparr>, Inr (map claimed_of (filter (\<lambda>r. r_ID r \<in> set ids) rows))))"

text \<open>The three statements that end the processing of an event share their condition on the row.\<close>

definition end_processing :: "string \<Rightarrow> string \<Rightarrow> string \<Rightarrow> (outbox_row \<Rightarrow> outbox_row) \<Rightarrow> 'w outbox \<Rightarrow> 'w outbox \<times> string option" where
  "end_processing verb missing i upd ob =
    (case faulty ob of Some err \<Rightarrow> (called ob, Some (verb @ err))
     | None \<Rightarrow> (case pg_uuid i of None \<Rightarrow> (called ob, Some (verb @ ''invalid uuid''))
     | Some u \<Rightarrow>
       let hit = (\<lambda>r. r_ID r = u \<and> r_State r = OutboxProcessing)
       in if \<not> list_ex hit (ob_rows ob) then (called ob, Some missing)
          else ((called ob)\<lparr>ob_rows := map (\<lambda>r. if hit r then upd r else r) (ob_rows ob)\<rparr>, None)))"

definition Outbox_MarkCompleted :: "string \<Rightarrow> 'w outbox \<Rightarrow> 'w outbox \<times> string option" where
  "Outbox_MarkCompleted i ob = end_processing ''mark outbox event completed: ''
     (''mark outbox event '' @ i @ '' completed: not in processing state'') i
     (\<lambda>r. r\<lparr>r_State := OutboxCompleted, r_CompletedAt := Some (ob_now ob), r_LockedAt := None, r_LockedBy := None,
        r_FailedAt := None, r_LastError := None\<rparr>) ob"

function runes :: "string \<Rightarrow> string list" where
  \<comment> \<open>\<open>[]rune(msg)\<close>, each rune as the bytes \<open>string\<close> writes back; an invalid byte becomes U+FFFD\<close>
  "runes [] = []"
| "runes (c # s) = (case utf8_size (c # s) of
      None \<Rightarrow> [CHR 0xEF, CHR 0xBF, CHR 0xBD] # runes s
    | Some n \<Rightarrow> take (max 1 n) (c # s) # runes (drop (max 1 n) (c # s)))"
  by pat_completeness auto
termination by (relation "measure length") auto

definition truncateError :: "string \<Rightarrow> string" where
  "truncateError msg =
    (let msg = TrimSpace msg
     in if length msg \<le> maxLastErrorLength then msg
        else let rs = runes msg
          in if length rs \<le> maxLastErrorLength then msg else concat (take maxLastErrorLength rs))"

definition Outbox_MarkRetry :: "string \<Rightarrow> go_time \<Rightarrow> string \<Rightarrow> 'w outbox \<Rightarrow> 'w outbox \<times> string option" where
  "Outbox_MarkRetry i availableAt lastError ob = end_processing ''mark outbox event retry: ''
     (''mark outbox event '' @ i @ '' for retry: not in processing state'') i
     (\<lambda>r. r\<lparr>r_State := OutboxPending, r_AvailableAt := availableAt, r_LockedAt := None, r_LockedBy := None,
        r_CompletedAt := None, r_FailedAt := None, r_LastError := Some (truncateError lastError)\<rparr>) ob"

definition Outbox_MarkFailed :: "string \<Rightarrow> string \<Rightarrow> 'w outbox \<Rightarrow> 'w outbox \<times> string option" where
  "Outbox_MarkFailed i lastError ob =
    (let truncated = truncateError lastError;
         truncated = (if TrimSpace truncated = [] then ''unknown error'' else truncated)
     in end_processing ''mark outbox event failed: ''
     (''mark outbox event '' @ i @ '' failed: not in processing state'') i
     (\<lambda>r. r\<lparr>r_State := OutboxFailed, r_FailedAt := Some (ob_now ob), r_LockedAt := None, r_LockedBy := None,
        r_CompletedAt := None, r_LastError := Some truncated\<rparr>) ob)"

definition row_stale :: "int64 \<Rightarrow> go_time \<Rightarrow> outbox_row \<Rightarrow> bool" where
  "row_stale olderThan now' r \<longleftrightarrow> r_State r = OutboxProcessing
     \<and> (case r_LockedAt r of None \<Rightarrow> False | Some t \<Rightarrow> instant t < instant now' - sint olderThan)"

definition Outbox_ReleaseStale :: "int64 \<Rightarrow> 'w outbox \<Rightarrow> 'w outbox \<times> (string + nat)" where
  "Outbox_ReleaseStale olderThan ob =
    (if sint olderThan \<le> 0 then (ob, Inl ''eventspg: lease duration must be positive'')
     else case faulty ob of Some err \<Rightarrow> (called ob, Inl (''release stale outbox locks: '' @ err))
     | None \<Rightarrow> let stale = row_stale olderThan (ob_now ob)
       in ((called ob)\<lparr>ob_rows := map (\<lambda>r. if stale r then r\<lparr>r_State := OutboxPending, r_LockedAt := None, r_LockedBy := None\<rparr> else r) (ob_rows ob)\<rparr>,
           Inr (length (filter stale (ob_rows ob)))))"

definition Outbox_HasReceipt :: "string \<Rightarrow> string \<Rightarrow> 'w outbox \<Rightarrow> 'w outbox \<times> (string + bool)" where
  "Outbox_HasReceipt c i ob =
    (case faulty ob of Some err \<Rightarrow> (called ob, Inl (''check event receipt: '' @ err))
     | None \<Rightarrow> (case pg_uuid i of None \<Rightarrow> (called ob, Inl ''check event receipt: invalid uuid'')
     | Some u \<Rightarrow> (called ob, Inr ((c, u) \<in> set (ob_receipts ob)))))"

definition Outbox_RecordReceipt :: "string \<Rightarrow> string \<Rightarrow> 'w outbox \<Rightarrow> 'w outbox \<times> string option" where
  \<comment> \<open>the dispatcher's result is always the empty map, which marshals\<close>
  "Outbox_RecordReceipt c i ob =
    (case faulty ob of Some err \<Rightarrow> (called ob, Some (''record event receipt: '' @ err))
     | None \<Rightarrow> (case pg_uuid i of None \<Rightarrow> (called ob, Some ''record event receipt: invalid uuid'')
     | Some u \<Rightarrow>
       if (c, u) \<in> set (ob_receipts ob) then (called ob, None)
       else if \<not> list_ex (\<lambda>r. r_ID r = u) (ob_rows ob) then (called ob, Some ''record event receipt: foreign key'')
       else ((called ob)\<lparr>ob_receipts := (c, u) # ob_receipts ob\<rparr>, None)))"

definition outbox_pg :: "'w outbox outbox_store" where
  "outbox_pg = \<lparr>ClaimBatch = Outbox_ClaimBatch, MarkCompleted = Outbox_MarkCompleted, MarkRetry = Outbox_MarkRetry,
     MarkFailed = Outbox_MarkFailed, ReleaseStale = Outbox_ReleaseStale, HasReceipt = Outbox_HasReceipt,
     RecordReceipt = Outbox_RecordReceipt\<rparr>"

end
