(* ===== verification/Outbox_Delivery.thy ===== *)
theory Outbox_Delivery
  imports Outbox
begin

text \<open>
  The PostgreSQL store keeps the contract of the dispatcher, and what follows for events: publishing is
  idempotent, an event only moves along the outbox states, a completed one has a receipt from every interested
  consumer and is final, and the backoff stays within its bounds.
\<close>

section \<open>Rows by identifier\<close>

definition ob_row :: "outbox_row list \<Rightarrow> string \<Rightarrow> outbox_row option" where
  "ob_row rows = map_of (map (\<lambda>r. (r_ID r, r)) rows)"

definition ob_status :: "'w outbox \<Rightarrow> string \<Rightarrow> outbox_state option" where
  "ob_status ob i = map_option r_State (ob_row (ob_rows ob) i)"

definition ob_receipt :: "'w outbox \<Rightarrow> string \<Rightarrow> string \<Rightarrow> bool" where
  "ob_receipt ob c i \<longleftrightarrow> (c, i) \<in> set (ob_receipts ob)"

definition ob_inv :: "'w outbox \<Rightarrow> bool" where
  "ob_inv ob \<longleftrightarrow> distinct (map r_ID (ob_rows ob)) \<and> (\<forall>r \<in> set (ob_rows ob). pg_uuid (r_ID r) = Some (r_ID r))"

definition canon_id :: "string \<Rightarrow> string" where
  "canon_id i = (case pg_uuid i of None \<Rightarrow> i | Some u \<Rightarrow> u)"

lemma ob_row_ID: "ob_row rows i = Some r \<Longrightarrow> r_ID r = i \<and> r \<in> set rows"
  unfolding ob_row_def by (auto dest: map_of_SomeD)

lemma ob_row_mem: "distinct (map r_ID rows) \<Longrightarrow> r \<in> set rows \<Longrightarrow> ob_row rows (r_ID r) = Some r"
  unfolding ob_row_def by (rule map_of_is_SomeI) (auto simp: comp_def)

lemma ob_row_map:
  assumes "\<And>r. r_ID (g r) = r_ID r"
  shows "ob_row (map g rows) i = map_option g (ob_row rows i)"
  by (induction rows) (simp_all add: ob_row_def assms)

lemma ob_row_None: "ob_row rows i = None \<longleftrightarrow> i \<notin> r_ID ` set rows"
  unfolding ob_row_def map_of_eq_None_iff by force

lemma called_simps [simp]:
  "ob_rows (called ob) = ob_rows ob" "ob_receipts (called ob) = ob_receipts ob" "ob_inv (called ob) = ob_inv ob"
  "ob_status (called ob) = ob_status ob" "ob_receipt (called ob) = ob_receipt ob"
  by (simp_all add: called_def ob_inv_def ob_status_def ob_receipt_def fun_eq_iff)

lemma rows_simps [simp]:
  "ob_receipt (ob\<lparr>ob_rows := rows\<rparr>) = ob_receipt ob" "ob_status (ob\<lparr>ob_rows := rows\<rparr>) i = map_option r_State (ob_row rows i)"
  by (simp_all add: ob_status_def ob_receipt_def fun_eq_iff)

lemma ob_inv_map:
  assumes "ob_inv ob" "\<And>r. r_ID (g r) = r_ID r"
  shows "ob_inv ((called ob)\<lparr>ob_rows := map g (ob_rows ob)\<rparr>)"
  using assms by (auto simp: ob_inv_def comp_def)

section \<open>The contract\<close>

lemma end_processing_contract:
  assumes "ob_inv ob" "end_processing verb missing i upd ob = (ob', e)" "\<And>r. r_ID (upd r) = r_ID r" "\<And>r. r_State (upd r) = s"
  shows "ob_inv ob' \<and> ob_receipt ob' = ob_receipt ob \<and>
    (if e = None then ob_status ob (canon_id i) = Some OutboxProcessing \<and> ob_status ob' = (ob_status ob)(canon_id i \<mapsto> s)
     else ob_status ob' = ob_status ob)"
proof (cases e)
  case (Some err)
  then have "ob' = called ob"
    using assms(2) by (auto simp: end_processing_def Let_def split: option.splits if_splits)
  with assms(1) Some show ?thesis by simp
next
  case None
  define hit where "hit u = (\<lambda>r :: outbox_row. r_ID r = u \<and> r_State r = OutboxProcessing)" for u
  define g where "g u = (\<lambda>r. if hit u r then upd r else r)" for u
  from None assms(2) obtain u where u: "pg_uuid i = Some u" "list_ex (hit u) (ob_rows ob)"
    "ob' = (called ob)\<lparr>ob_rows := map (g u) (ob_rows ob)\<rparr>"
    by (auto simp: end_processing_def Let_def hit_def g_def split: option.splits if_splits)
  have gid: "r_ID (g u r) = r_ID r" for r by (simp add: g_def assms(3))
  from u(2) obtain r where r: "r \<in> set (ob_rows ob)" "r_ID r = u" "r_State r = OutboxProcessing"
    by (auto simp: list_ex_iff hit_def)
  then have row: "ob_row (ob_rows ob) u = Some r"
    using ob_row_mem [of "ob_rows ob" r] assms(1) by (simp add: ob_inv_def)
  have rows: "ob_row (ob_rows ob') j = map_option (g u) (ob_row (ob_rows ob) j)" for j
    by (simp add: u(3) ob_row_map [OF gid])
  have "ob_status ob' j = ((ob_status ob)(u \<mapsto> s)) j" for j
  proof (cases "j = u")
    case True
    then show ?thesis unfolding ob_status_def rows using row r by (simp add: g_def hit_def assms(4))
  next
    case False
    then have "r_State (g u q) = r_State q" if "ob_row (ob_rows ob) j = Some q" for q
      using ob_row_ID [OF that] by (simp add: g_def hit_def)
    then show ?thesis unfolding ob_status_def rows using False by (cases "ob_row (ob_rows ob) j") simp_all
  qed
  moreover have "canon_id i = u" using u(1) by (simp add: canon_id_def)
  ultimately show ?thesis
    using None row r ob_inv_map [OF assms(1) gid] u(3) by (simp add: ob_status_def fun_eq_iff)
qed

lemma due_ids:
  assumes "ob_inv ob" "i \<in> set (claim_ids n ob)" "ob_row (ob_rows ob) i = Some r"
  shows "r_State r = OutboxPending"
proof -
  obtain q where q: "q \<in> set (ob_rows ob)" "r_ID q = i" "row_due (ob_now ob) q"
  proof -
    from assms(2) obtain q where q: "q \<in> set (take n (sort_key row_order (filter (row_due (ob_now ob)) (ob_rows ob))))" "r_ID q = i"
      unfolding claim_ids_def set_map by blast
    from subsetD [OF set_take_subset q(1)] q(2) show thesis by (intro that) auto
  qed
  then have "ob_row (ob_rows ob) i = Some q"
    using ob_row_mem [of "ob_rows ob" q] assms(1) by (simp add: ob_inv_def)
  with assms(3) q(3) show ?thesis by (simp add: row_due_def)
qed

lemma claim_contract:
  assumes "ob_inv ob" "Outbox_ClaimBatch w k ob = (ob', r)"
  shows "ob_inv ob' \<and> ob_receipt ob' = ob_receipt ob \<and>
      (\<forall>i. ob_status ob' i = ob_status ob i \<or> ob_status ob i = Some OutboxPending \<and> ob_status ob' i = Some OutboxProcessing) \<and>
      (\<forall>evs. r = Inr evs \<longrightarrow> (\<forall>ev \<in> set evs. ob_status ob (canon_id (cl_OutboxID ev)) = Some OutboxPending
        \<and> ob_status ob' (canon_id (cl_OutboxID ev)) = Some OutboxProcessing))"
proof (cases r)
  case (Inl err)
  then have "ob' = ob \<or> ob' = called ob"
    using assms(2) by (auto simp: Outbox_ClaimBatch_def Let_def split: option.splits if_splits)
  with Inl assms(1) show ?thesis by auto
next
  case (Inr evs)
  define ids where "ids = set (claim_ids (nat (sint k)) ob)"
  define g where "g = (\<lambda>r. if r_ID r \<in> ids then claim_row w (ob_now ob) r else r)"
  have gid: "r_ID (g r) = r_ID r" for r by (simp add: g_def claim_row_def)
  from Inr assms(2) have ob': "ob' = (called ob)\<lparr>ob_rows := map g (ob_rows ob)\<rparr>"
    and evs: "evs = map claimed_of (filter (\<lambda>r. r_ID r \<in> ids) (map g (ob_rows ob)))"
    by (auto simp: Outbox_ClaimBatch_def Let_def g_def ids_def split: option.splits if_splits)
  have due: "r_State q = OutboxPending" if "ob_row (ob_rows ob) i = Some q" "i \<in> ids" for i q
    using due_ids [OF assms(1) _ that(1)] that(2) by (simp add: ids_def)
  have row: "ob_row (ob_rows ob') i = map_option g (ob_row (ob_rows ob) i)" for i
    by (simp add: ob' ob_row_map [OF gid])
  have st: "ob_status ob' i = ob_status ob i \<or> ob_status ob i = Some OutboxPending \<and> ob_status ob' i = Some OutboxProcessing"
    and st2: "i \<in> ids \<Longrightarrow> ob_row (ob_rows ob) i \<noteq> None \<Longrightarrow> ob_status ob i = Some OutboxPending \<and> ob_status ob' i = Some OutboxProcessing"
    for i
    using due [of i] ob_row_ID [of "ob_rows ob" i]
    unfolding ob_status_def row by (cases "ob_row (ob_rows ob) i"; simp add: g_def claim_row_def)+
  have "ob_status ob (canon_id (cl_OutboxID ev)) = Some OutboxPending \<and> ob_status ob' (canon_id (cl_OutboxID ev)) = Some OutboxProcessing"
    if ev: "ev \<in> set evs" for ev
  proof -
    obtain q where q: "q \<in> set (ob_rows ob)" "r_ID q \<in> ids" "cl_OutboxID ev = r_ID q"
      using ev by (auto simp: evs gid claimed_of_def)
    moreover have "canon_id (r_ID q) = r_ID q" using q(1) assms(1) by (simp add: canon_id_def ob_inv_def)
    moreover have "ob_row (ob_rows ob) (r_ID q) \<noteq> None" using q(1) by (simp add: ob_row_None)
    ultimately show ?thesis using st2 by simp
  qed
  with st Inr assms(1) ob_inv_map [OF assms(1) gid] show ?thesis by (simp add: ob')
qed

lemma release_contract:
  assumes "ob_inv ob" "Outbox_ReleaseStale lease ob = (ob', n)"
  shows "ob_inv ob' \<and> ob_receipt ob' = ob_receipt ob \<and>
      (\<forall>i. ob_status ob' i = ob_status ob i \<or> ob_status ob i = Some OutboxProcessing \<and> ob_status ob' i = Some OutboxPending)"
proof (cases n)
  case (Inl err)
  then have "ob' = ob \<or> ob' = called ob"
    using assms(2) by (auto simp: Outbox_ReleaseStale_def Let_def split: option.splits if_splits)
  with assms(1) show ?thesis by auto
next
  case (Inr k)
  define g where "g = (\<lambda>r. if row_stale lease (ob_now ob) r then r\<lparr>r_State := OutboxPending, r_LockedAt := None, r_LockedBy := None\<rparr> else r)"
  have gid: "r_ID (g r) = r_ID r" for r by (simp add: g_def)
  from Inr assms(2) have ob': "ob' = (called ob)\<lparr>ob_rows := map g (ob_rows ob)\<rparr>"
    by (auto simp: Outbox_ReleaseStale_def Let_def g_def split: option.splits if_splits)
  have row: "ob_row (ob_rows ob') i = map_option g (ob_row (ob_rows ob) i)" for i
    by (simp add: ob' ob_row_map [OF gid])
  have "ob_status ob' i = ob_status ob i \<or> ob_status ob i = Some OutboxProcessing \<and> ob_status ob' i = Some OutboxPending" for i
    unfolding ob_status_def row by (cases "ob_row (ob_rows ob) i") (simp_all add: g_def row_stale_def)
  with assms(1) ob_inv_map [OF assms(1) gid] show ?thesis by (simp add: ob')
qed

lemma outbox_pg_simps [simp]:
  "ClaimBatch outbox_pg = Outbox_ClaimBatch" "MarkCompleted outbox_pg = Outbox_MarkCompleted" "MarkRetry outbox_pg = Outbox_MarkRetry"
  "MarkFailed outbox_pg = Outbox_MarkFailed" "ReleaseStale outbox_pg = Outbox_ReleaseStale" "HasReceipt outbox_pg = Outbox_HasReceipt"
  "RecordReceipt outbox_pg = Outbox_RecordReceipt"
  by (simp_all add: outbox_pg_def)

interpretation pg: outbox_contract "outbox_pg :: 'w outbox outbox_store" ob_inv canon_id ob_receipt ob_status
proof (unfold_locales, unfold outbox_pg_simps)
  fix st st' :: "'w outbox" and c i msg t lease w k
  show "ob_inv st' \<and> ob_receipt st' = ob_receipt st \<and> ob_status st' = ob_status st \<and> (\<forall>b. h = Inr b \<longrightarrow> b = ob_receipt st c (canon_id i))"
    if "ob_inv st" "Outbox_HasReceipt c i st = (st', h)" for h
    using that by (auto simp: Outbox_HasReceipt_def canon_id_def ob_receipt_def split: option.splits)
  show "ob_inv st' \<and> ob_status st' = ob_status st
      \<and> ob_receipt st' = (if e = None then (ob_receipt st)(c := (ob_receipt st c)(canon_id i := True)) else ob_receipt st)"
    if "ob_inv st" "Outbox_RecordReceipt c i st = (st', e)" for e
    using that
    by (auto simp: Outbox_RecordReceipt_def canon_id_def ob_receipt_def ob_inv_def ob_status_def called_def fun_eq_iff
        split: option.splits if_splits)
  show "ob_inv st' \<and> ob_receipt st' = ob_receipt st \<and>
      (if e = None then ob_status st (canon_id i) = Some OutboxProcessing \<and> ob_status st' = (ob_status st)(canon_id i \<mapsto> OutboxCompleted)
       else ob_status st' = ob_status st)"
    if "ob_inv st" "Outbox_MarkCompleted i st = (st', e)" for e
    by (rule end_processing_contract [OF that(1) that(2) [unfolded Outbox_MarkCompleted_def]]) simp_all
  show "ob_inv st' \<and> ob_receipt st' = ob_receipt st \<and>
      (if e = None then ob_status st (canon_id i) = Some OutboxProcessing \<and> ob_status st' = (ob_status st)(canon_id i \<mapsto> OutboxPending)
       else ob_status st' = ob_status st)"
    if "ob_inv st" "Outbox_MarkRetry i t msg st = (st', e)" for e
    by (rule end_processing_contract [OF that(1) that(2) [unfolded Outbox_MarkRetry_def]]) simp_all
  show "ob_inv st' \<and> ob_receipt st' = ob_receipt st \<and>
      (if e = None then ob_status st (canon_id i) = Some OutboxProcessing \<and> ob_status st' = (ob_status st)(canon_id i \<mapsto> OutboxFailed)
       else ob_status st' = ob_status st)"
    if "ob_inv st" "Outbox_MarkFailed i msg st = (st', e)" for e
    by (rule end_processing_contract [OF that(1) that(2) [unfolded Outbox_MarkFailed_def Let_def]]) simp_all
qed (use release_contract claim_contract in blast)+

section \<open>Publishing\<close>

text \<open>A consumer that leaves receipts and the known events alone; publishing is of this kind.\<close>

definition consumer_quiet :: "'w outbox consumer \<Rightarrow> bool" where
  "consumer_quiet c \<longleftrightarrow> (\<forall>ev ob. ob_inv ob \<longrightarrow> ob_inv (fst (Handle c ev ob)) \<and> ob_receipt (fst (Handle c ev ob)) = ob_receipt ob
     \<and> (\<forall>i. ob_status ob i \<noteq> None \<longrightarrow> ob_status (fst (Handle c ev ob)) i = ob_status ob i))"

lemma consumer_quiet_pg: "consumer_quiet c = pg.quiet c"
  by (simp add: consumer_quiet_def pg.quiet_def)

lemma Publish_cases:
  "fst (Publish e n ob) \<in> {ob, called ob} \<or> (\<exists>i agg. pg_uuid (e_ID e) = Some i \<and> i \<notin> r_ID ` set (ob_rows ob)
     \<and> fst (Publish e n ob) = (called ob)\<lparr>ob_rows := ob_rows ob @ [new_row e i agg n (ob_now ob)]\<rparr>)"
  by (auto simp: Publish_def list_ex_iff split: option.splits if_splits)

lemma Publish_quiet:
  assumes "ob_inv ob"
  shows "ob_inv (fst (Publish e n ob)) \<and> ob_receipt (fst (Publish e n ob)) = ob_receipt ob
     \<and> (\<forall>i. ob_status ob i \<noteq> None \<longrightarrow> ob_status (fst (Publish e n ob)) i = ob_status ob i)"
proof (cases "fst (Publish e n ob) \<in> {ob, called ob}")
  case True
  with assms show ?thesis by auto
next
  case False
  then obtain i agg where p: "pg_uuid (e_ID e) = Some i" "i \<notin> r_ID ` set (ob_rows ob)"
    "fst (Publish e n ob) = (called ob)\<lparr>ob_rows := ob_rows ob @ [new_row e i agg n (ob_now ob)]\<rparr>"
    using Publish_cases [of e n ob] by blast
  have "r_ID (new_row e i agg n (ob_now ob)) = i" by (simp add: new_row_def)
  with p assms show ?thesis
    by (auto simp: ob_inv_def ob_status_def ob_row_def map_add_def pg_uuid_idem called_def ob_receipt_def fun_eq_iff)
qed

text \<open>Publishing an event again changes nothing: the same aggregate, version and type is already there.\<close>

lemma Publish_again:
  assumes "Publish e n ob = (ob', None)" "faulty ob' = None"
  shows "Publish e n ob' = (called ob', None)"
proof -
  from assms(1) obtain i agg where "Envelope_Validate e = None" "pg_uuid (e_ID e) = Some i" "pg_uuid (e_AggregateID e) = Some agg"
    "\<not> (sint n < 1 \<or> sint n > 100)" "list_ex (outbox_conflict e agg) (ob_rows ob')"
    by (auto simp: Publish_def new_row_def outbox_conflict_def called_def split: option.splits if_splits)
  with assms(2) show ?thesis by (auto simp: Publish_def)
qed

section \<open>Properties\<close>

text \<open>C22 outbox_delivery: however long the dispatcher runs, whatever the database refuses on the way, every event that
  was in the outbox is still there and has only moved along the outbox states; a completed or failed event stays
  as it is, no receipt is lost, and the identifiers stay unique.\<close>

theorem outbox_delivery:
  assumes "d_store d = outbox_pg" "\<forall>c \<in> set (d_consumers d). consumer_quiet c" "ob_inv ob" "ob_status ob i = Some s"
  shows "ob_inv (Run d rds ob)
    \<and> (\<exists>t. ob_status (Run d rds ob) i = Some t \<and> OutboxState_CanTransitionTo\<^sup>*\<^sup>* s t
         \<and> (s \<in> {OutboxCompleted, OutboxFailed} \<longrightarrow> t = s))
    \<and> (\<forall>c j. ob_receipt ob c j \<longrightarrow> ob_receipt (Run d rds ob) c j)"
proof -
  have R: "ob_inv (Run d rds ob) \<and> moves (ob_status ob i) (ob_status (Run d rds ob) i)
      \<and> (ob_receipt ob c j \<longrightarrow> ob_receipt (Run d rds ob) c j)" for c j
    using assms(1,2,3) by (intro pg.Run_moves) (simp_all add: consumer_quiet_pg)
  then obtain t where "ob_status (Run d rds ob) i = Some t" "OutboxState_CanTransitionTo\<^sup>*\<^sup>* s t"
    using assms(4) by (auto simp: moves_def)
  with R assms(4) moves_final [of s "Some t"] show ?thesis by fastforce
qed

text \<open>C31 event_outcome: processing a claimed event leaves every other event alone and ends in one of four ways: nothing
  recorded (the database refused), completed with a receipt from every consumer that handles its type, failed once
  its attempts are used up, or pending again while some are left.\<close>

theorem event_outcome:
  assumes "d_store d = outbox_pg" "\<forall>c \<in> set (d_consumers d). consumer_quiet c" "ob_inv ob"
    and "ob_status ob (canon_id (cl_OutboxID ev)) = Some OutboxProcessing"
  shows "(\<forall>j. j \<noteq> canon_id (cl_OutboxID ev) \<and> ob_status ob j \<noteq> None \<longrightarrow> ob_status (processEvent d rd ev ob) j = ob_status ob j)
    \<and> (case ob_status (processEvent d rd ev ob) (canon_id (cl_OutboxID ev)) of
         Some OutboxCompleted \<Rightarrow> \<forall>c \<in> set (d_consumers d). Handles c (e_Type (cl_Envelope ev)) \<longrightarrow>
             ob_receipt (processEvent d rd ev ob) (Name c) (canon_id (cl_OutboxID ev))
       | Some OutboxFailed \<Rightarrow> sint (cl_MaxAttempts ev) \<le> sint (cl_AttemptCount ev)
       | Some OutboxPending \<Rightarrow> sint (cl_AttemptCount ev) < sint (cl_MaxAttempts ev)
       | st \<Rightarrow> st = Some OutboxProcessing)"
  using pg.processEvent_status [OF assms(1,3), of rd ev] assms(2,4) by (auto simp: consumer_quiet_pg)

text \<open>The delay before a retry lies between half the exponential delay and the delay itself, which is
  never above the configured cap and is exactly the smaller of the cap and the base doubled per attempt as long as
  that product fits 64 bits.\<close>

lemma backoff_bounds:
  assumes "NewDispatcher cfg = Inr d" "\<forall>n. 0 < sint n \<longrightarrow> 0 \<le> sint (rand n) \<and> sint (rand n) < sint n"
  shows "sint (backoff_cap d attempt) div 2 \<le> sint (backoffDelay d rand attempt)
    \<and> sint (backoffDelay d rand attempt) \<le> sint (backoff_cap d attempt) \<and> sint (backoff_cap d attempt) \<le> sint (d_backoffCap d)
    \<and> (1 \<le> sint attempt \<and> sint attempt \<le> 63 \<and> sint (d_backoffBase d) * 2 ^ nat (sint attempt - 1) \<le> 9223372036854775807 \<longrightarrow>
        sint (backoff_cap d attempt) = min (sint (d_backoffCap d)) (sint (d_backoffBase d) * 2 ^ nat (sint attempt - 1)))"
proof -
  note D = NewDispatcher_Inr(1,2) [OF assms(1)]
  note b = backoff_cap_bounds [OF D, of attempt]
  define h where "h = quo64 (backoff_cap d attempt) 2"
  have h: "sint h = sint (backoff_cap d attempt) div 2" unfolding h_def using b(1) by (subst sint_quo64) simp_all
  have delay: "backoffDelay d rand attempt = h + (if sint h > 0 then rand (h + 1) else 0)"
    by (simp add: backoffDelay_def Let_def h_def)
  have le: "sint (backoff_cap d attempt) \<le> 9223372036854775807" by (rule sint64_le)
  have "sint h \<le> sint (backoffDelay d rand attempt) \<and> sint (backoffDelay d rand attempt) \<le> sint (backoff_cap d attempt)"
  proof (cases "0 < sint h")
    case True
    have n: "sint (h + 1) = sint h + 1" using h le True by (subst sint64_add) simp_all
    then have r: "0 \<le> sint (rand (h + 1))" "sint (rand (h + 1)) \<le> sint h"
      using assms(2) [rule_format, of "h + 1"] n True by simp_all
    have "sint (h + rand (h + 1)) = sint h + sint (rand (h + 1))"
      using r h le True by (intro sint64_add) linarith+
    then show ?thesis using r h True by (simp add: delay)
  next
    case False
    then show ?thesis using h b(1) by (simp add: delay)
  qed
  then show ?thesis using b(2) backoff_cap_exact [OF D] h by simp
qed

section \<open>Witnesses\<close>

definition ex_event_id :: string where
  "ex_event_id = ''00000000-0000-4000-8000-000000000001''"

definition ex_row :: "outbox_state \<Rightarrow> outbox_row" where
  "ex_row s = \<lparr>r_ID = ex_event_id, r_AggregateType = ''wager'', r_AggregateID = ex_event_id, r_AggregateVersion = 1,
     r_EventType = ''WagerAccepted.v1'', r_Payload = ''{}'', r_OccurredAt = Time 1 True, r_AvailableAt = Time 1 True, r_State = s,
     r_AttemptCount = 1, r_MaxAttempts = 3, r_LockedAt = None, r_LockedBy = None, r_CompletedAt = None, r_FailedAt = None,
     r_LastError = None, r_CorrelationID = [], r_CausationID = []\<rparr>"

definition ex_outbox :: "outbox_state \<Rightarrow> nat outbox" where
  "ex_outbox s = \<lparr>ob_rows = [ex_row s], ob_receipts = [], ob_now = Time 9 True, ob_faults = [], ob_world = 0\<rparr>"

definition ex_consumer :: "nat outbox consumer" where
  "ex_consumer = \<lparr>Name = ''stats'', Handles = (\<lambda>t. True), Handle = (\<lambda>ev ob. (ob\<lparr>ob_world := ob_world ob + 1\<rparr>, None))\<rparr>"

definition ex_config :: "nat outbox dispatcher_config" where
  "ex_config = \<lparr>cfg_Store = Some outbox_pg, cfg_Consumers = [Some ex_consumer], cfg_PollInterval = 1000, cfg_BatchSize = 5,
     cfg_LockLease = 1000, cfg_WorkerID = ''w'', cfg_BackoffBase = 1000, cfg_BackoffCap = 60000\<rparr>"

definition ex_dispatcher :: "nat outbox dispatcher" where
  "ex_dispatcher = \<lparr>d_store = outbox_pg, d_consumers = [ex_consumer], d_pollInterval = 1000, d_batchSize = 5, d_lockLease = 1000,
     d_workerID = ''w'', d_backoffBase = 1000, d_backoffCap = 60000\<rparr>"

definition ex_tick :: tick_reading where
  "ex_tick = \<lparr>tr_cancelled = False, tr_now = Time 9 True, tr_rand = (\<lambda>n. 0)\<rparr>"

lemma ex_new_dispatcher: "NewDispatcher ex_config = Inr ex_dispatcher"
proof -
  have "\<not> length (TrimSpace ''stats'') = 0" "TrimSpace ''w'' \<noteq> []" by code_simp+
  then show ?thesis by (simp add: NewDispatcher_def ex_config_def ex_consumer_def ex_dispatcher_def)
qed

lemma ex_consumer_quiet: "consumer_quiet ex_consumer"
  by (simp add: consumer_quiet_def ex_consumer_def ob_inv_def ob_receipt_def ob_status_def fun_eq_iff)

lemma ex_outbox_inv: "ob_inv (ex_outbox s)"
proof -
  have "pg_uuid ex_event_id = Some ex_event_id" by code_simp
  then show ?thesis by (simp add: ob_inv_def ex_outbox_def ex_row_def)
qed

lemma ex_outbox_status: "ob_status (ex_outbox s) ex_event_id = Some s"
  by (simp add: ob_status_def ob_row_def ex_outbox_def ex_row_def)

lemma ex_delivered: "ob_status (processEvent ex_dispatcher ex_tick (claimed_of (ex_row OutboxProcessing)) (ex_outbox OutboxProcessing)) ex_event_id
    = Some OutboxCompleted"
  by code_simp

theorem outbox_delivery_witness:
  "ob_status (Run ex_dispatcher [\<lambda>n. ex_tick] (ex_outbox OutboxCompleted)) ex_event_id = Some OutboxCompleted
   \<and> (\<exists>t. ob_status (Run ex_dispatcher [\<lambda>n. ex_tick] (ex_outbox OutboxPending)) ex_event_id = Some t)"
proof -
  have d: "d_store ex_dispatcher = outbox_pg" "\<forall>c \<in> set (d_consumers ex_dispatcher). consumer_quiet c"
    using ex_consumer_quiet by (simp_all add: ex_dispatcher_def)
  show ?thesis
    using outbox_delivery [OF d ex_outbox_inv ex_outbox_status, where rds = "[\<lambda>n. ex_tick]" and s = OutboxCompleted]
      outbox_delivery [OF d ex_outbox_inv ex_outbox_status, where rds = "[\<lambda>n. ex_tick]" and s = OutboxPending] by blast
qed

theorem event_outcome_witness:
  "ob_receipt (processEvent ex_dispatcher ex_tick (claimed_of (ex_row OutboxProcessing)) (ex_outbox OutboxProcessing)) ''stats'' ex_event_id"
proof -
  have i: "canon_id (cl_OutboxID (claimed_of (ex_row OutboxProcessing))) = ex_event_id" by code_simp
  have d: "d_store ex_dispatcher = outbox_pg" "\<forall>c \<in> set (d_consumers ex_dispatcher). consumer_quiet c"
    using ex_consumer_quiet by (simp_all add: ex_dispatcher_def)
  show ?thesis
    using event_outcome [OF d ex_outbox_inv, of OutboxProcessing "claimed_of (ex_row OutboxProcessing)" ex_tick]
    unfolding i ex_delivered ex_outbox_status by (simp add: ex_dispatcher_def ex_consumer_def)
qed

lemma backoff_bounds_witness:
  "sint (backoff_cap ex_dispatcher 4) = 8000 \<and> 4000 \<le> sint (backoffDelay ex_dispatcher (\<lambda>n. 0) 4)
    \<and> sint (backoffDelay ex_dispatcher (\<lambda>n. 0) 4) \<le> 8000"
proof -
  have f: "d_backoffBase ex_dispatcher = 1000" "d_backoffCap ex_dispatcher = 60000" by (simp_all add: ex_dispatcher_def)
  have "sint (backoff_cap ex_dispatcher 4) = 8000"
    using backoff_bounds [OF ex_new_dispatcher, of "\<lambda>n. 0" 4] by (simp add: f)
  then show ?thesis using backoff_bounds [OF ex_new_dispatcher, of "\<lambda>n. 0" 4] by simp
qed

text \<open>Beyond 64 bits the product is no longer the exponential delay: it may come out small and positive.\<close>

lemma backoff_wraps:
  "sint (backoff_cap (ex_dispatcher\<lparr>d_backoffBase := 4294967297, d_backoffCap := 600000000000\<rparr>) 33) = 4294967296"
  by code_simp

end
