(* ===== verification/Book_Properties.thy ===== *)
theory Book_Properties
  imports Repricing Postings
begin

text \<open>
  What the ledger and the pricing packages promise to their callers, as closed statements over the
  operations: the exact profit of a stake, the postings a transaction may have, lines and the
  probabilities they imply, and the board \<open>Reprice\<close> posts.
\<close>

section \<open>Ledger\<close>

text \<open>The profit of a stake is the stake times the net price in exact arithmetic, rounded to the
  nearest cent with a tie upwards; invalid odds, an invalid currency, a stake that is not positive and a product
  beyond 64 bits are the only errors, tested in this order.\<close>

lemma odds_profit_exact:
  "Odds_Profit o' stake =
    (if - 100 < sint o' \<and> sint o' < 100 then Inl ErrInvalidAmericanOdds
     else case Money_Validate stake of Some e \<Rightarrow> Inl e
     | None \<Rightarrow> if cents stake \<le> 0 then Inl ErrInvalidStake
     else if cents stake * odds_num o' > 9223372036854775807 then Inl ErrAmountOverflow
     else Inr \<lparr>m_Cents = word_of_int \<lfloor>of_int (cents stake * odds_num o') / of_int (odds_den o') + 1 / 2 :: real\<rfloor>,
               m_Currency = m_Currency stake\<rparr>)"
proof (cases "Odds_Validate o' = None \<and> Money_Validate stake = None \<and> 0 < cents stake")
  case True
  then have v: "Odds_Validate o' = None" by simp
  have d: "0 < odds_den o'" using odds_valid_bounds [OF v] by simp
  from True have eq: "Odds_Profit o' stake = (if cents stake * odds_num o' > 9223372036854775807 then Inl ErrAmountOverflow
     else Inr \<lparr>m_Cents = word_of_int (round_half_up (cents stake * odds_num o') (odds_den o')), m_Currency = m_Currency stake\<rparr>)"
    by (intro Odds_Profit_eq) simp_all
  have "\<not> (- 100 < sint o' \<and> sint o' < 100)" "Money_Validate stake = None" "\<not> cents stake \<le> 0"
    using True by (simp_all add: Odds_Validate_def split: if_splits)
  then show ?thesis unfolding eq round_half_up_floor [OF d] by (simp only: if_False option.case)
next
  case False
  then consider "- 100 < sint o' \<and> sint o' < 100" | e where "\<not> (- 100 < sint o' \<and> sint o' < 100)" "Money_Validate stake = Some e"
    | "\<not> (- 100 < sint o' \<and> sint o' < 100)" "Money_Validate stake = None" "cents stake \<le> 0"
    by (cases "Money_Validate stake") (auto simp: Odds_Validate_def split: if_splits)
  then show ?thesis
    by cases (simp_all add: Odds_Profit_def Odds_Validate_def del: de_Morgan_conj not_less)
qed

text \<open>Postings are accepted exactly when there are at least two, each names an account, is in
  the transaction's currency and moves a non-zero amount, no account occurs twice after trimming, every
  partial sum fits 64 bits, and the amounts cancel out.\<close>

lemma postings_accepted:
  "ValidatePostings c ps = None \<longleftrightarrow>
     Currency_Validate c = None \<and> 2 \<le> length ps \<and> distinct (map account_key ps)
     \<and> list_all (\<lambda>p. \<not> blank (p_AccountID p) \<and> Money_Validate (p_Amount p) = None
          \<and> m_Currency (p_Amount p) = c \<and> posted_cents p \<noteq> 0) ps
     \<and> list_all (\<lambda>k. in_int64 (posted_sum (take k ps))) [0..<Suc (length ps)] \<and> (\<Sum>p\<leftarrow>ps. posted_cents p) = 0"
  unfolding ValidatePostings_None well_posted_def posted_sum_def list_all_iff set_upt by auto

section \<open>Lines and probabilities\<close>

lemma even_money: "ImpliedProbability (- 100) = ImpliedProbability 100"
  using ImpliedProbability_underdog [of 100] ImpliedProbability_favourite [of "- 100"] by simp

text \<open>Every probability gives a line inside the posted window, and a line inside the window comes
  back from the probability it implies, except that -100 comes back as its equal +100.\<close>

lemma line_round_trip:
  "(\<exists>a. AmericanFromProbability p = Inr a \<and> in_window a)
   \<and> (in_window o' \<longrightarrow> AmericanFromProbability (ImpliedProbability o') = Inr (if o' = - 100 then 100 else o'))"
proof -
  have 100: "in_window (100 :: int32)" "(100 :: int32) \<noteq> - 100" by (simp_all add: in_window_def MaxOdds_def)
  show ?thesis
    using AmericanFromProbability_window [of p] AmericanFromProbability_implied [of o'] AmericanFromProbability_implied [OF 100]
    by (auto simp: even_money)
qed

text \<open>C32 reprice_posts_board: \<open>Reprice\<close> fails only on too few selections, a liquidity that is not positive or an invalid
  selection; otherwise it posts one line per selection, each valid and inside the window, however the
  exponential of the platform rounds.\<close>

lemma reprice_posts_board:
  "((\<exists>os. Reprice exp64 ss liq = Inr os) \<longleftrightarrow> 2 \<le> length ss \<and> 0 < sint liq \<and> list_all reprice_valid ss)
   \<and> (\<forall>os. Reprice exp64 ss liq = Inr os \<longrightarrow> length os = length ss \<and> list_all in_window os)"
proof -
  have win: "\<exists>os. Reprice exp64 ss liq = Inr os \<and> length os = length ss \<and> list_all in_window os"
    if "2 \<le> length ss \<and> 0 < sint liq \<and> list_all reprice_valid ss"
    using Reprice_window that by blast
  show ?thesis
  proof (intro conjI iffI allI impI)
    fix os assume "Reprice exp64 ss liq = Inr os"
    then show "length os = length ss" "list_all in_window os"
      using win [OF Reprice_InrD] by (metis sum.inject(2))+
  qed (use win Reprice_InrD in blast)+
qed

text \<open>A board nobody has bet on is posted exactly as it was opened, for opening lines inside
  the window other than -100.\<close>

lemma reprice_idle_board:
  assumes "exp64 0 = 1" "2 \<le> length ss" "0 < sint liq"
    and "\<forall>s \<in> set ss. si_StakeCents s = 0 \<and> in_window (si_OpeningOdds s) \<and> si_OpeningOdds s \<noteq> - 100"
  shows "Reprice exp64 ss liq = Inr (map si_OpeningOdds ss)"
  by (rule Reprice_idle [of exp64, OF assms])

section \<open>Witnesses\<close>

definition ex_board :: "selection_input list" where
  "ex_board = [\<lparr>si_OpeningOdds = 150, si_StakeCents = 0\<rparr>, \<lparr>si_OpeningOdds = - 170, si_StakeCents = 0\<rparr>]"

lemma line_round_trip_witness:
  "AmericanFromProbability (ImpliedProbability 150) = Inr 150 \<and> AmericanFromProbability (ImpliedProbability (- 100)) = Inr 100"
  using line_round_trip [of _ 150] line_round_trip [of _ "- 100"] by (simp add: in_window_def MaxOdds_def)

theorem reprice_posts_board_witness:
  "\<exists>os. Reprice (\<lambda>x. 1) ex_board 10000 = Inr os \<and> length os = 2 \<and> list_all in_window os"
proof -
  have "2 \<le> length ex_board \<and> 0 < sint (10000 :: int64) \<and> list_all reprice_valid ex_board"
    by (simp add: ex_board_def reprice_valid_def Odds_Validate_def)
  then show ?thesis
    using reprice_posts_board [of "\<lambda>x. 1" ex_board 10000] by (auto simp: ex_board_def)
qed

lemma reprice_idle_board_witness:
  "Reprice (\<lambda>x. 1) ex_board 10000 = Inr [150, - 170]"
  using reprice_idle_board [of "\<lambda>x. 1" ex_board 10000] by (simp add: ex_board_def in_window_def MaxOdds_def)

end
