(* ===== verification/Pg_Tx.thy ===== *)
theory Pg_Tx
  imports Betting_Types Outbox
begin

text \<open>
  What the PostgreSQL packages share (\<open>bettingpg\<close>, \<open>competitionpg\<close>, \<open>identitypg\<close>): a statement is a function on
  the state of the tables that fails or returns a value and the state after it; \<open>run_tx\<close> is \<open>begin\<close> \<dots> \<open>commit\<close>
  with the deferred rollback, so that a failed command leaves the tables as they were. \<open>keeps R m\<close> says that a
  successful run of \<open>m\<close> relates the tables before it to the tables after it; the locale \<open>tx_relation\<close> proves once how
  such facts compose along the combinators, for any reflexive and transitive relation.
\<close>

section \<open>Commands and transactions\<close>

type_synonym ('s, 'e, 'a) tx = "'s \<Rightarrow> 'e + 'a \<times> 's"

definition ret :: "'a \<Rightarrow> ('s, 'e, 'a) tx" where
  "ret x db = Inr (x, db)"

definition throw :: "'e \<Rightarrow> ('s, 'e, 'a) tx" where
  "throw e db = Inl e"

definition andThen :: "('s, 'e, 'a) tx \<Rightarrow> ('a \<Rightarrow> ('s, 'e, 'b) tx) \<Rightarrow> ('s, 'e, 'b) tx" where
  "andThen m f db = (case m db of Inl e \<Rightarrow> Inl e | Inr (x, db') \<Rightarrow> f x db')"

definition require :: "bool \<Rightarrow> 'e \<Rightarrow> ('s, 'e, unit) tx" where
  \<comment> \<open>\<open>if !b { return err }\<close>\<close>
  "require b e = (if b then ret () else throw e)"

definition query :: "('s \<Rightarrow> 'e + 'a) \<Rightarrow> ('s, 'e, 'a) tx" where
  "query q db = (case q db of Inl e \<Rightarrow> Inl e | Inr x \<Rightarrow> Inr (x, db))"

definition exec :: "('s \<Rightarrow> 's) \<Rightarrow> ('s, 'e, unit) tx" where
  "exec f db = Inr ((), f db)"

definition run_tx :: "('s, 'e, 'a) tx \<Rightarrow> 's \<Rightarrow> ('e + 'a) \<times> 's" where
  "run_tx m db = (case m db of Inl e \<Rightarrow> (Inl e, db) | Inr (x, db') \<Rightarrow> (Inr x, db'))"

fun each :: "('a \<Rightarrow> ('s, 'e, unit) tx) \<Rightarrow> 'a list \<Rightarrow> ('s, 'e, unit) tx" where
  "each f [] = ret ()"
| "each f (x # xs) = andThen (f x) (\<lambda>_. each f xs)"

named_theorems cmd_simps \<open>what a command that succeeds has done\<close>

lemma andThen_Inr [cmd_simps]:
  "andThen m f db = Inr r \<longleftrightarrow> (\<exists>x db'. m db = Inr (x, db') \<and> f x db' = Inr r)"
  by (auto simp: andThen_def split: sum.splits)

lemma ret_Inr [cmd_simps]: "ret x db = Inr r \<longleftrightarrow> r = (x, db)"
  by (auto simp: ret_def)

lemma throw_Inr [cmd_simps]: "throw e db = Inr r \<longleftrightarrow> False"
  by (simp add: throw_def)

lemma require_Inr [cmd_simps]: "require b e db = Inr r \<longleftrightarrow> b \<and> r = ((), db)"
  by (auto simp: require_def ret_def throw_def)

lemma query_Inr [cmd_simps]: "query q db = Inr r \<longleftrightarrow> (\<exists>x. q db = Inr x \<and> r = (x, db))"
  by (auto simp: query_def split: sum.splits)

lemma exec_Inr [cmd_simps]: "exec f db = Inr r \<longleftrightarrow> r = ((), f db)"
  by (auto simp: exec_def)

lemma if_cmd_Inr [cmd_simps]:
  "(if b then m else n) db = Inr r \<longleftrightarrow> (if b then m db = Inr r else n db = Inr r)"
  by simp

lemma run_tx_Inr: "run_tx m db = (Inr x, db') \<longleftrightarrow> m db = Inr (x, db')"
  by (auto simp: run_tx_def split: sum.splits prod.splits)

lemma run_tx_Inl: "run_tx m db = (Inl e, db') \<longleftrightarrow> m db = Inl e \<and> db' = db"
  by (auto simp: run_tx_def split: sum.splits prod.splits)

section \<open>Values\<close>

definition isUUID :: "string \<Rightarrow> bool" where
  "isUUID s \<longleftrightarrow> pg_uuid s \<noteq> None"

definition null_uuid :: "string \<Rightarrow> string option" where
  \<comment> \<open>\<open>nullif($1, '')::uuid\<close>, \<open>NULL\<close> as the empty string\<close>
  "null_uuid s = (if s = [] then Some [] else pg_uuid s)"

definition draw_uuid :: "(nat \<Rightarrow> nat \<Rightarrow> 8 word) \<Rightarrow> nat \<Rightarrow> string" where
  \<comment> \<open>a version 4 UUID from the bytes of the given draw: \<open>gen_random_uuid()\<close>, \<open>NewEventID\<close>, \<open>newUUID\<close>\<close>
  "draw_uuid random n = the (NewEventID (Some (map (random n) [0..<16])))"

record audit_row =
  au_Actor :: string
  au_Action :: string
  au_TargetID :: string
  au_Reason :: string

section \<open>Relations along a command\<close>

definition keeps :: "('s \<Rightarrow> 's \<Rightarrow> bool) \<Rightarrow> ('s, 'e, 'a) tx \<Rightarrow> bool" where
  "keeps R m \<longleftrightarrow> (\<forall>db x db'. m db = Inr (x, db') \<longrightarrow> R db db')"

lemma keepsD: "keeps R m \<Longrightarrow> m db = Inr (x, db') \<Longrightarrow> R db db'"
  by (simp add: keeps_def)

lemma keepsI: "(\<And>db x db'. m db = Inr (x, db') \<Longrightarrow> R db db') \<Longrightarrow> keeps R m"
  by (simp add: keeps_def)

lemma keeps_mono: "keeps R m \<Longrightarrow> (\<And>db db'. R db db' \<Longrightarrow> S db db') \<Longrightarrow> keeps S m"
  by (simp add: keeps_def)

named_theorems keeps_rules \<open>how \<open>keeps\<close> passes through the combinators and the statements\<close>

lemma keeps_if [keeps_rules]: "(b \<Longrightarrow> keeps R m) \<Longrightarrow> (\<not> b \<Longrightarrow> keeps R n) \<Longrightarrow> keeps R (if b then m else n)"
  by simp

lemma keeps_case_option [keeps_rules]:
  "keeps R m \<Longrightarrow> (\<And>x. keeps R (f x)) \<Longrightarrow> keeps R (case v of None \<Rightarrow> m | Some x \<Rightarrow> f x)"
  by (simp split: option.split)

lemma keeps_case_sum [keeps_rules]:
  "(\<And>x. keeps R (f x)) \<Longrightarrow> (\<And>y. keeps R (g y)) \<Longrightarrow> keeps R (case v of Inl x \<Rightarrow> f x | Inr y \<Rightarrow> g y)"
  by (simp split: sum.split)

lemma keeps_case_prod [keeps_rules]: "(\<And>x y. keeps R (f x y)) \<Longrightarrow> keeps R (case v of (x, y) \<Rightarrow> f x y)"
  by (simp split: prod.split)

lemma keeps_Let [keeps_rules]: "(\<And>x. keeps R (f x)) \<Longrightarrow> keeps R (let x = v in f x)"
  by (simp add: Let_def)

locale tx_relation =
  fixes R :: "'s \<Rightarrow> 's \<Rightarrow> bool"
  assumes R_refl: "R db db" and R_trans: "R db db' \<Longrightarrow> R db' db'' \<Longrightarrow> R db db''"
begin

lemma keeps_ret [keeps_rules]: "keeps R (ret x)"
  by (simp add: keeps_def ret_def R_refl)

lemma keeps_throw [keeps_rules]: "keeps R (throw e)"
  by (simp add: keeps_def throw_def)

lemma keeps_require [keeps_rules]: "keeps R (require b e)"
  by (simp add: keeps_def cmd_simps R_refl)

lemma keeps_query [keeps_rules]: "keeps R (query q)"
  by (auto simp: keeps_def cmd_simps R_refl)

lemma keeps_andThen [keeps_rules]: "keeps R m \<Longrightarrow> (\<And>x. keeps R (f x)) \<Longrightarrow> keeps R (andThen m f)"
  unfolding keeps_def andThen_Inr using R_trans by blast

lemma keeps_each [keeps_rules]: "(\<And>x. x \<in> set xs \<Longrightarrow> keeps R (f x)) \<Longrightarrow> keeps R (each f xs)"
  by (induction xs) (auto intro: keeps_ret keeps_andThen)

lemma run_tx_keeps: "keeps R m \<Longrightarrow> R db (snd (run_tx m db))"
  by (auto simp: run_tx_def R_refl split: sum.split dest: keepsD)

end

end
