(* ===== verification/Book_Db.thy ===== *)
theory Book_Db
  imports Betting_Adjust Betting_Parlay Pg_Tx
begin

text \<open>
  \<open>internal/bettingpg/store.go\<close>, \<open>errors.go\<close>: the tables of the book, the statements that read and write them, and
  the transaction every operation of \<open>internal/bettingpg\<close> runs in (\<open>Pg_Tx\<close>). A table is a list of rows, a statement
  a \<open>cmd\<close>. A row lock
  (\<open>FOR UPDATE\<close>) makes an operation atomic against the others that take it, so operations are steps here.
  The constraints of the schema that a statement can violate are checked where the statement runs and end it in
  \<open>ErrDatabase\<close>, as do a text that is no UUID and a sum that \<open>Scan\<close> cannot store in an \<open>int64\<close>; any other refusal
  of the database rolls back too, so it is a step that changes nothing. Columns that no statement of the modelled
  operations reads back (timestamps of a change, display names) are left out.
\<close>

section \<open>Tables\<close>

record user_row =
  us_ID :: string
  us_CreditLimitCents :: int64

record account_row =
  la_ID :: string
  la_Owner :: string  \<comment> \<open>empty for \<open>NULL\<close>: a system account\<close>
  la_Type :: string
  la_Currency :: currency

record transaction_row =
  lt_ID :: string
  lt_Transaction :: transaction

record market_row =
  mr_Market :: market
  mr_DynamicPricing :: bool
  mr_LiquidityCents :: int64  \<comment> \<open>zero for \<open>NULL\<close>\<close>
  mr_MaxStakeCents :: "int64 option"

record selection_row =
  sl_Selection :: selection
  sl_OpeningOdds :: american_odds
  sl_MaxStakeCents :: "int64 option"
  sl_TotalStakeCapCents :: "int64 option"

record wager_row =
  wr_Wager :: wager
  wr_AcceptedBy :: string
  wr_AcceptanceTransaction :: string
  wr_RejectedBy :: string
  wr_RejectionReason :: string

record market_settlement_row =
  ms_ID :: string
  ms_MarketID :: string
  ms_Version :: go_int
  ms_Type :: string
  ms_VerifiedResultID :: string
  ms_SettledBy :: string
  ms_Reason :: string
  ms_IdempotencyKey :: string
  ms_SupersedesID :: string

record outcome_row =
  oc_SettlementID :: string
  oc_SelectionID :: string
  oc_Outcome :: settlement_result
  oc_DeadHeatDivisor :: go_int

record wager_settlement_row =
  wt_Settlement :: wager_settlement
  wt_TransactionID :: string

record price_change_row =
  pc_MarketID :: string
  pc_SelectionID :: string
  pc_TriggerWagerID :: string
  pc_OldOdds :: american_odds
  pc_NewOdds :: american_odds
  pc_ExposureCents :: int64
  pc_ActorUserID :: string
  pc_Reason :: string

record parlay_row =
  py_Parlay :: parlay  \<comment> \<open>\<open>pa_Legs\<close> is the table \<open>parlay_legs\<close>, in the order of \<open>leg_index\<close>\<close>
  py_AcceptedBy :: string
  py_AcceptanceTransaction :: string
  py_RejectedBy :: string
  py_RejectionReason :: string

record parlay_settlement_row =
  pt_ParlayID :: string
  pt_Outcome :: parlay_outcome
  pt_TransactionID :: string

record match_row =
  mt_ID :: string
  mt_State :: string
  mt_Side1 :: string
  mt_Side2 :: string

record book_db =
  db_Users :: "user_row list"
  db_Accounts :: "account_row list"
  db_Transactions :: "transaction_row list"
  db_Markets :: "market_row list"
  db_Selections :: "selection_row list"
  db_Matches :: "match_row list"  \<comment> \<open>\<open>matches\<close> joined with its two sides, written by the competition\<close>
  db_Restrictions :: "(string \<times> restriction) list"  \<comment> \<open>with the market\<close>
  db_Wagers :: "wager_row list"
  db_MarketSettlements :: "market_settlement_row list"
  db_Outcomes :: "outcome_row list"
  db_WagerSettlements :: "wager_settlement_row list"
  db_PriceChanges :: "price_change_row list"
  db_Parlays :: "parlay_row list"
  db_ParlaySettlements :: "parlay_settlement_row list"
  db_Audit :: "audit_row list"
  db_Outbox :: "unit outbox"
  db_Random :: "nat \<Rightarrow> nat \<Rightarrow> 8 word"  \<comment> \<open>the bytes of the next random draws\<close>
  db_Draws :: nat

datatype store_error =
    ErrBetting betting_error | ErrInsufficientFunds | ErrMarketNotSettleable | ErrMarketDecided
  | ErrMarketNotOpenable | ErrMatchMarketExists | ErrStoreConflict | ErrWagerNotReducible | ErrNothingToRegrade
  | ErrMarketHasWagers | ErrMatchMarketNeedsGrading | ErrMarketNotPriceable | ErrCloseTimeInPast | ErrAlreadyReversed
  | ErrInvalidTransition | ErrPublish publish_error | ErrDatabase
  \<comment> \<open>\<open>ErrStoreConflict\<close> is \<open>bettingpg.ErrIdempotencyConflict\<close>\<close>

section \<open>Commands\<close>

type_synonym 'a cmd = "(book_db, store_error, 'a) tx"

definition domain :: "betting_error + 'a \<Rightarrow> 'a cmd" where
  \<comment> \<open>a call of \<open>internal/betting\<close>, its error passed on\<close>
  "domain r db = (case r of Inl e \<Rightarrow> Inl (ErrBetting e) | Inr x \<Rightarrow> Inr (x, db))"

lemma domain_Inr [cmd_simps]: "domain d db = Inr r \<longleftrightarrow> (\<exists>x. d = Inr x \<and> r = (x, db))"
  by (auto simp: domain_def split: sum.splits)

section \<open>Values\<close>

definition uuid_arg :: "string \<Rightarrow> string cmd" where
  \<comment> \<open>the parameter cast \<open>$1::uuid\<close>\<close>
  "uuid_arg s = (case pg_uuid s of None \<Rightarrow> throw ErrDatabase | Some i \<Rightarrow> ret i)"

definition actor_or_null :: "string \<Rightarrow> string" where
  \<comment> \<open>\<open>if isUUID(actor) { actorUUID = actor }\<close> and \<open>nullif($1, '')::uuid\<close>: a system actor is stored as \<open>NULL\<close>\<close>
  "actor_or_null actor = (case pg_uuid actor of None \<Rightarrow> [] | Some a \<Rightarrow> a)"

lemma uuid_arg_Inr [cmd_simps]: "uuid_arg s db = Inr r \<longleftrightarrow> (\<exists>i. pg_uuid s = Some i \<and> r = (i, db))"
  by (auto simp: uuid_arg_def throw_def ret_def split: option.splits)

fun funding_string :: "funding_account_type \<Rightarrow> string" where
  "funding_string FundingUserCash = ''user_cash''"
| "funding_string FundingUserFreePlay = ''user_free_play''"
| "funding_string (FundingOther s) = s"

definition random_uuid :: "string cmd" where
  \<comment> \<open>\<open>betting.NewEventID\<close> and the default \<open>gen_random_uuid()\<close> of a key column: both are version 4 UUIDs\<close>
  "random_uuid db =
    (case NewEventID (Some (map (db_Random db (db_Draws db)) [0..<16])) of
       None \<Rightarrow> Inl ErrDatabase | Some i \<Rightarrow> Inr (i, db\<lparr>db_Draws := Suc (db_Draws db)\<rparr>))"

definition scan_int64 :: "int \<Rightarrow> store_error + int64" where
  \<comment> \<open>\<open>Scan\<close> of a \<open>sum\<close>, a \<open>numeric\<close> that need not fit\<close>
  "scan_int64 k = (if in_int64 k then Inr (word_of_int k) else Inl ErrDatabase)"

section \<open>Reading rows\<close>

definition market_at :: "string \<Rightarrow> book_db \<Rightarrow> market_row option" where
  "market_at i db = find (\<lambda>r. mk_ID (mr_Market r) = i) (db_Markets db)"

definition scanMarket :: "string \<Rightarrow> market_row \<Rightarrow> market" where
  "scanMarket marketID r = (mr_Market r)\<lparr>mk_ID := marketID, mk_OpensAt := UTC (mk_OpensAt (mr_Market r)),
     mk_ClosesAt := UTC (mk_ClosesAt (mr_Market r))\<rparr>"

definition loadMarket :: "string \<Rightarrow> market cmd" where
  \<comment> \<open>also \<open>loadMarketForUpdate\<close>\<close>
  "loadMarket marketID = andThen (uuid_arg marketID) (\<lambda>i. query (\<lambda>db.
    case market_at i db of None \<Rightarrow> Inl (ErrBetting ErrNotFound) | Some r \<Rightarrow> Inr (scanMarket marketID r)))"

definition marketStateForWager :: "string \<Rightarrow> market_state cmd" where
  "marketStateForWager marketID = andThen (uuid_arg marketID) (\<lambda>i. query (\<lambda>db.
    case market_at i db of None \<Rightarrow> Inl ErrDatabase | Some r \<Rightarrow> Inr (mk_State (mr_Market r))))"

definition loadSelection :: "string \<Rightarrow> string \<Rightarrow> selection cmd" where
  "loadSelection marketID selectionID = andThen (uuid_arg marketID) (\<lambda>m. andThen (uuid_arg selectionID) (\<lambda>s. query (\<lambda>db.
    case find (\<lambda>r. s_MarketID (sl_Selection r) = m \<and> s_ID (sl_Selection r) = s) (db_Selections db) of
      None \<Rightarrow> Inl (ErrBetting ErrNotFound)
    | Some r \<Rightarrow> Inr ((sl_Selection r)\<lparr>s_ID := selectionID, s_MarketID := marketID\<rparr>))))"

definition loadSelections :: "string \<Rightarrow> selection list cmd" where
  "loadSelections marketID = andThen (uuid_arg marketID) (\<lambda>m. query (\<lambda>db.
    Inr (map (\<lambda>r. (sl_Selection r)\<lparr>s_MarketID := marketID\<rparr>)
      (sort_key (s_ID \<circ> sl_Selection) (filter (\<lambda>r. s_MarketID (sl_Selection r) = m) (db_Selections db))))))"

definition loadRestrictions :: "string \<Rightarrow> restriction list cmd" where
  "loadRestrictions marketID = andThen (uuid_arg marketID) (\<lambda>m. query (\<lambda>db.
    Inr (map snd (filter (\<lambda>r. fst r = m) (db_Restrictions db)))))"

definition wagerRow :: "wager_row \<Rightarrow> wager" where
  \<comment> \<open>\<open>wagerColumns\<close> leaves \<open>placed_by\<close> out\<close>
  "wagerRow r = (wr_Wager r)\<lparr>w_PlacedBy := [], w_PlacedAt := UTC (w_PlacedAt (wr_Wager r))\<rparr>"

definition wager_at :: "string \<Rightarrow> book_db \<Rightarrow> wager_row option" where
  "wager_at i db = find (\<lambda>r. w_ID (wr_Wager r) = i) (db_Wagers db)"

definition loadWagerForUpdate :: "string \<Rightarrow> wager cmd" where
  "loadWagerForUpdate wagerID = andThen (uuid_arg wagerID) (\<lambda>i. query (\<lambda>db.
    case wager_at i db of None \<Rightarrow> Inl (ErrBetting ErrNotFound) | Some r \<Rightarrow> Inr (wagerRow r)))"

definition loadWagersForMarketForUpdate :: "string \<Rightarrow> wager list cmd" where
  "loadWagersForMarketForUpdate marketID = andThen (uuid_arg marketID) (\<lambda>m. query (\<lambda>db.
    Inr (map wagerRow (sort_key (w_ID \<circ> wr_Wager) (filter (\<lambda>r. w_MarketID (wr_Wager r) = m) (db_Wagers db))))))"

definition set_wager :: "string \<Rightarrow> (wager_row \<Rightarrow> wager_row) \<Rightarrow> book_db \<Rightarrow> book_db" where
  \<comment> \<open>\<open>UPDATE wagers SET \<dots> WHERE id = $1\<close>\<close>
  "set_wager i f db = db\<lparr>db_Wagers := map (\<lambda>r. if w_ID (wr_Wager r) = i then f r else r) (db_Wagers db)\<rparr>"

definition set_market_state :: "string \<Rightarrow> market_state \<Rightarrow> book_db \<Rightarrow> book_db" where
  "set_market_state i s db = db\<lparr>db_Markets := map (\<lambda>r. if mk_ID (mr_Market r) = i
     then r\<lparr>mr_Market := (mr_Market r)\<lparr>mk_State := s\<rparr>\<rparr> else r) (db_Markets db)\<rparr>"

section \<open>The ledger\<close>

definition insert_account :: "string \<Rightarrow> string \<Rightarrow> currency \<Rightarrow> string cmd" where
  "insert_account owner ty c = andThen random_uuid (\<lambda>i db.
    if i \<in> la_ID ` set (db_Accounts db) then Inl ErrDatabase
    else Inr (i, db\<lparr>db_Accounts := db_Accounts db @ [\<lparr>la_ID = i, la_Owner = owner, la_Type = ty, la_Currency = c\<rparr>]\<rparr>))"

definition find_account :: "string \<Rightarrow> string \<Rightarrow> currency \<Rightarrow> book_db \<Rightarrow> account_row option" where
  "find_account owner ty c db = find (\<lambda>r. la_Owner r = owner \<and> la_Type r = ty \<and> la_Currency r = c) (db_Accounts db)"

definition upsert_account :: "string \<Rightarrow> string \<Rightarrow> currency \<Rightarrow> string cmd" where
  \<comment> \<open>\<open>INSERT \<dots> ON CONFLICT \<dots> DO UPDATE SET name = name RETURNING id\<close>\<close>
  "upsert_account owner ty c db =
    (case find_account owner ty c db of Some r \<Rightarrow> Inr (la_ID r, db) | None \<Rightarrow> insert_account owner ty c db)"

definition ensureUserAccount :: "string \<Rightarrow> funding_account_type \<Rightarrow> currency \<Rightarrow> string cmd" where
  "ensureUserAccount userID accountType c = andThen (uuid_arg userID) (\<lambda>u db.
    if u \<notin> us_ID ` set (db_Users db) \<or> funding_string accountType \<notin> {''user_cash'', ''user_free_play''}
    then Inl ErrDatabase else upsert_account u (funding_string accountType) c db)"

definition ensureSystemAccount :: "string \<Rightarrow> currency \<Rightarrow> string cmd" where
  "ensureSystemAccount accountType c = upsert_account [] accountType c"

definition open_accounts :: "string \<Rightarrow> funding_account_type \<Rightarrow> currency \<Rightarrow> settlement_account_refs cmd" where
  \<comment> \<open>the three calls an acceptance or a settlement starts with\<close>
  "open_accounts userID accountType c =
    andThen (ensureUserAccount userID accountType c) (\<lambda>userAccountID.
    andThen (ensureSystemAccount ''wager_escrow'' c) (\<lambda>escrowAccountID.
    andThen (ensureSystemAccount ''house_clearing'' c) (\<lambda>houseAccountID.
    ret \<lparr>sr_UserFundingAccountID = userAccountID, sr_EscrowAccountID = escrowAccountID,
         sr_HouseClearingAccountID = houseAccountID\<rparr>)))"

definition cast_postings :: "posting list \<Rightarrow> posting list option" where
  "cast_postings ps = those (map (\<lambda>p. map_option (\<lambda>i. p\<lparr>p_AccountID := i\<rparr>) (pg_uuid (p_AccountID p))) ps)"

definition ledger_constraints :: "transaction \<Rightarrow> book_db \<Rightarrow> bool" where
  \<comment> \<open>the keys and the deferred trigger of \<open>ledger_transactions\<close> and \<open>ledger_postings\<close>\<close>
  "ledger_constraints t db \<longleftrightarrow>
     (\<forall>r \<in> set (db_Transactions db). \<not> (t_Currency (lt_Transaction r) = t_Currency t
        \<and> t_IdempotencyKey (lt_Transaction r) = t_IdempotencyKey t))
   \<and> (\<forall>r \<in> set (db_Transactions db). t_ReversalOf t \<noteq> [] \<longrightarrow> t_ReversalOf (lt_Transaction r) \<noteq> t_ReversalOf t)
   \<and> (t_ReversalOf t = [] \<or> t_ReversalOf t \<in> lt_ID ` set (db_Transactions db))
   \<and> (t_Actor t = [] \<or> t_Actor t \<in> us_ID ` set (db_Users db))
   \<and> distinct (map p_AccountID (t_Postings t)) \<and> posted_sum (t_Postings t) = 0
   \<and> (\<forall>p \<in> set (t_Postings t). posted_cents p \<noteq> 0
        \<and> (\<exists>a \<in> set (db_Accounts db). la_ID a = p_AccountID p \<and> la_Currency a = t_Currency t))"

definition insertLedgerTransaction :: "transaction \<Rightarrow> string cmd" where
  "insertLedgerTransaction txn =
    (case (null_uuid (t_SourceID txn), null_uuid (t_ReversalOf txn), cast_postings (t_Postings txn)) of
       (Some source, Some reversal, Some postings) \<Rightarrow>
         andThen random_uuid (\<lambda>i db.
           let t = txn\<lparr>t_SourceID := source, t_Actor := actor_or_null (t_Actor txn), t_ReversalOf := reversal,
                 t_Postings := postings\<rparr>
           in if i \<in> lt_ID ` set (db_Transactions db) \<or> \<not> ledger_constraints t db then Inl ErrDatabase
              else Inr (i, db\<lparr>db_Transactions := db_Transactions db @ [\<lparr>lt_ID = i, lt_Transaction = t\<rparr>]\<rparr>))
     | _ \<Rightarrow> throw ErrDatabase)"

definition audit :: "string \<Rightarrow> string \<Rightarrow> string \<Rightarrow> string \<Rightarrow> unit cmd" where
  \<comment> \<open>\<open>INSERT INTO audit_entries\<close>, without the JSON objects\<close>
  "audit actor action target reason = andThen (uuid_arg actor) (\<lambda>a. andThen (uuid_arg target) (\<lambda>t db.
    if a \<notin> us_ID ` set (db_Users db) then Inl ErrDatabase
    else Inr ((), db\<lparr>db_Audit := db_Audit db @ [\<lparr>au_Actor = a, au_Action = action, au_TargetID = t, au_Reason = reason\<rparr>]\<rparr>)))"

definition account_total :: "book_db \<Rightarrow> string \<Rightarrow> int" where
  "account_total db a = (\<Sum>r\<leftarrow>db_Transactions db. posted_sum (filter (\<lambda>p. p_AccountID p = a) (t_Postings (lt_Transaction r))))"

definition accountBalance :: "string \<Rightarrow> int64 cmd" where
  "accountBalance accountID = andThen (uuid_arg accountID) (\<lambda>a. query (\<lambda>db. scan_int64 (account_total db a)))"

definition creditLimitForUser :: "string \<Rightarrow> int64 cmd" where
  "creditLimitForUser userID = andThen (uuid_arg userID) (\<lambda>u. query (\<lambda>db.
    case find (\<lambda>r. us_ID r = u) (db_Users db) of None \<Rightarrow> Inl ErrDatabase | Some r \<Rightarrow> Inr (us_CreditLimitCents r)))"

definition maxOutboxAttempts :: go_int where
  "maxOutboxAttempts = 20"

definition publish :: "envelope \<Rightarrow> unit cmd" where
  \<comment> \<open>\<open>eventspg.Publish(ctx, tx, envelope, maxOutboxAttempts)\<close> on the same transaction\<close>
  "publish e db = (case Publish e maxOutboxAttempts (db_Outbox db) of
     (ob, None) \<Rightarrow> Inr ((), db\<lparr>db_Outbox := ob\<rparr>) | (_, Some err) \<Rightarrow> Inl (ErrPublish err))"

end
