(* ===== verification/Book_Lines.thy ===== *)
theory Book_Lines
  imports Book_Db
begin

text \<open>
  The board: \<open>internal/bettingpg/reprice.go\<close>, \<open>setline.go\<close>, \<open>closetime.go\<close>, \<open>stakelimit.go\<close> and \<open>SetTotalSideCap\<close> of
  \<open>noaction.go\<close>. \<open>repriceInTx\<close> is the one place where an offered line is written. \<open>math.Exp\<close> is the parameter
  \<open>exp64\<close>, as in \<open>Pricing\<close>.
\<close>

section \<open>Repricing\<close>

record price_move =
  mv_DynamicPricing :: bool
  mv_LiquidityCents :: int64
  mv_TriggerWagerID :: string
  mv_ActorUserID :: string
  mv_Reason :: string

definition lockSelectionsForPricing :: "string \<Rightarrow> (string \<times> american_odds \<times> american_odds) list cmd" where
  \<comment> \<open>identifier, opening and offered odds of every selection of the market, in the order of the identifiers\<close>
  "lockSelectionsForPricing marketID = andThen (uuid_arg marketID) (\<lambda>m. query (\<lambda>db.
    let rows = map (\<lambda>r. (s_ID (sl_Selection r), sl_OpeningOdds r, s_OfferedAmericanOdds (sl_Selection r)))
          (sort_key (s_ID \<circ> sl_Selection) (filter (\<lambda>r. s_MarketID (sl_Selection r) = m) (db_Selections db)))
    in case List.find (\<lambda>(i, opening, offered). Odds_Validate opening \<noteq> None \<or> Odds_Validate offered \<noteq> None) rows of
         Some (i, opening, offered) \<Rightarrow>
           Inl (ErrBetting (BettingLedger (case Odds_Validate opening of Some e \<Rightarrow> e | None \<Rightarrow> the (Odds_Validate offered))))
       | None \<Rightarrow> Inr rows))"

definition accepted_on :: "string \<Rightarrow> string \<Rightarrow> book_db \<Rightarrow> int" where
  "accepted_on m s db = (\<Sum>r\<leftarrow>filter (\<lambda>r. w_MarketID (wr_Wager r) = m \<and> w_SelectionID (wr_Wager r) = s
     \<and> w_State (wr_Wager r) = WagerAccepted') (db_Wagers db). cents (w_Stake (wr_Wager r)))"

definition acceptedStakeBySelection :: "string \<Rightarrow> (string \<Rightarrow> int64) cmd" where
  \<comment> \<open>a selection without an accepted wager has no group, and reads as zero from the Go map\<close>
  "acceptedStakeBySelection marketID = andThen (uuid_arg marketID) (\<lambda>m. query (\<lambda>db.
    if list_all (\<lambda>r. w_MarketID (wr_Wager r) = m \<longrightarrow> in_int64 (accepted_on m (w_SelectionID (wr_Wager r)) db)) (db_Wagers db)
    then Inr (\<lambda>s. word_of_int (accepted_on m s db)) else Inl ErrDatabase))"

definition set_offered :: "string \<Rightarrow> american_odds \<Rightarrow> book_db \<Rightarrow> book_db" where
  "set_offered i new' db = db\<lparr>db_Selections := map (\<lambda>r. if s_ID (sl_Selection r) = i
     then r\<lparr>sl_Selection := (sl_Selection r)\<lparr>s_OfferedAmericanOdds := new'\<rparr>\<rparr> else r) (db_Selections db)\<rparr>"

definition change_price :: "string \<Rightarrow> price_move \<Rightarrow> (string \<Rightarrow> int64) \<Rightarrow> string \<times> american_odds \<times> american_odds \<Rightarrow> unit cmd" where
  \<comment> \<open>one selection whose target differs from its offered line: the line and the row that records the change\<close>
  "change_price marketID move stakes = (\<lambda>(i, target, offered).
    if target = offered then ret ()
    else andThen (exec (set_offered i target)) (\<lambda>_. andThen (uuid_arg marketID) (\<lambda>m db.
      case (null_uuid (mv_TriggerWagerID move), null_uuid (mv_ActorUserID move)) of
        (Some trigger, Some actor) \<Rightarrow>
          if trigger \<noteq> [] \<and> trigger \<notin> (w_ID \<circ> wr_Wager) ` set (db_Wagers db)
             \<or> actor \<noteq> [] \<and> actor \<notin> us_ID ` set (db_Users db)
             \<or> \<not> (actor = [] \<and> mv_Reason move = [] \<or> actor \<noteq> [] \<and> mv_Reason move \<noteq> []) \<or> sint (stakes i) < 0
          then Inl ErrDatabase
          else Inr ((), db\<lparr>db_PriceChanges := db_PriceChanges db @ [\<lparr>pc_MarketID = m, pc_SelectionID = i,
            pc_TriggerWagerID = trigger, pc_OldOdds = offered, pc_NewOdds = target, pc_ExposureCents = stakes i,
            pc_ActorUserID = actor, pc_Reason = mv_Reason move\<rparr>]\<rparr>)
      | _ \<Rightarrow> Inl ErrDatabase)))"

definition line_targets :: "(float64 \<Rightarrow> float64) \<Rightarrow> price_move \<Rightarrow> (string \<Rightarrow> int64) \<Rightarrow>
    (string \<times> american_odds \<times> american_odds) list \<Rightarrow> pricing_error + american_odds list" where
  "line_targets exp64 move stakes rows =
    (if mv_DynamicPricing move \<and> 2 \<le> length rows \<and> 0 < sint (mv_LiquidityCents move)
     then Reprice exp64 (map (\<lambda>(i, opening, offered). \<lparr>si_OpeningOdds = opening, si_StakeCents = stakes i\<rparr>) rows)
            (mv_LiquidityCents move)
     else Inr (map (\<lambda>(i, opening, offered). opening) rows))"

definition repriceInTx :: "(float64 \<Rightarrow> float64) \<Rightarrow> string \<Rightarrow> price_move \<Rightarrow> bool cmd" where
  "repriceInTx exp64 marketID move = andThen (lockSelectionsForPricing marketID) (\<lambda>rows.
    if rows = [] then ret False
    else andThen (acceptedStakeBySelection marketID) (\<lambda>stakes.
      case line_targets exp64 move stakes rows of Inl e \<Rightarrow> throw (ErrBetting (BettingPricing e))
      | Inr target \<Rightarrow>
        let moves = map (\<lambda>((i, opening, offered), t). (i, t, offered)) (zip rows target)
        in andThen (each (change_price marketID move stakes) moves)
             (\<lambda>_. ret (list_ex (\<lambda>(i, t, offered). t \<noteq> offered) moves))))"

definition repriceMarketTx :: "(float64 \<Rightarrow> float64) \<Rightarrow> string \<Rightarrow> string \<Rightarrow> bool cmd" where
  \<comment> \<open>the transaction of \<open>RepriceMarketAfterWager\<close>; on the early \<open>return false, nil\<close> nothing has been written\<close>
  "repriceMarketTx exp64 marketID triggerWagerID =
    (if \<not> isUUID marketID then throw (ErrBetting ErrInvalid)
     else andThen (uuid_arg marketID) (\<lambda>m. andThen (query (\<lambda>db. case market_at m db of
         None \<Rightarrow> Inl (ErrBetting ErrNotFound) | Some r \<Rightarrow> Inr r)) (\<lambda>r.
       if \<not> mr_DynamicPricing r \<or> mk_State (mr_Market r) \<noteq> MarketOpen then ret False
       else repriceInTx exp64 marketID \<lparr>mv_DynamicPricing = mr_DynamicPricing r, mv_LiquidityCents = mr_LiquidityCents r,
              mv_TriggerWagerID = triggerWagerID, mv_ActorUserID = [], mv_Reason = []\<rparr>)))"

definition RepriceMarketAfterWager ::
  "(float64 \<Rightarrow> float64) \<Rightarrow> string \<Rightarrow> string \<Rightarrow> book_db \<Rightarrow> (store_error + bool) \<times> book_db" where
  "RepriceMarketAfterWager exp64 marketID triggerWagerID = run_tx (repriceMarketTx exp64 marketID triggerWagerID)"

section \<open>The admin's controls\<close>

definition admin_args :: "string \<Rightarrow> string \<Rightarrow> string \<Rightarrow> unit cmd" where
  \<comment> \<open>the guards most operations of an admin start with: market, actor, reason\<close>
  "admin_args marketID actorUserID reason =
    andThen (require (isUUID marketID) (ErrBetting ErrNotFound)) (\<lambda>_.
    andThen (require (isUUID actorUserID) (ErrBetting ErrUnauthorized)) (\<lambda>_.
    require (TrimSpace reason \<noteq> []) (ErrBetting ErrReasonRequired)))"

definition market_for_update :: "string \<Rightarrow> market_row cmd" where
  "market_for_update marketID = andThen (uuid_arg marketID) (\<lambda>m. query (\<lambda>db.
    case market_at m db of None \<Rightarrow> Inl (ErrBetting ErrNotFound) | Some r \<Rightarrow> Inr r))"

definition priceable :: "market_row \<Rightarrow> unit cmd" where
  "priceable r = require (mk_State (mr_Market r) = MarketOpen \<or> mk_State (mr_Market r) = MarketDraft) ErrMarketNotPriceable"

definition update_selection :: "string \<Rightarrow> string \<Rightarrow> (selection_row \<Rightarrow> selection_row) \<Rightarrow> unit cmd" where
  \<comment> \<open>\<open>UPDATE selections SET \<dots> WHERE id = $1 AND market_id = $2\<close>, \<open>ErrNotFound\<close> when no row is affected\<close>
  "update_selection marketID selectionID f = andThen (uuid_arg selectionID) (\<lambda>s. andThen (uuid_arg marketID) (\<lambda>m db.
    if list_ex (\<lambda>r. s_ID (sl_Selection r) = s \<and> s_MarketID (sl_Selection r) = m) (db_Selections db)
    then Inr ((), db\<lparr>db_Selections := map (\<lambda>r. if s_ID (sl_Selection r) = s \<and> s_MarketID (sl_Selection r) = m then f r else r)
           (db_Selections db)\<rparr>)
    else Inl (ErrBetting ErrNotFound)))"

definition update_market :: "string \<Rightarrow> (market_row \<Rightarrow> market_row) \<Rightarrow> unit cmd" where
  "update_market marketID f = andThen (uuid_arg marketID) (\<lambda>m. exec (\<lambda>db.
    db\<lparr>db_Markets := map (\<lambda>r. if mk_ID (mr_Market r) = m then f r else r) (db_Markets db)\<rparr>))"

definition SetOpeningLine ::
  "(float64 \<Rightarrow> float64) \<Rightarrow> string \<Rightarrow> string \<Rightarrow> american_odds \<Rightarrow> string \<Rightarrow> string \<Rightarrow> book_db \<Rightarrow> (store_error + bool) \<times> book_db" where
  "SetOpeningLine exp64 marketID selectionID odds actorUserID reason = run_tx (
    andThen (require (isUUID marketID \<and> isUUID selectionID) (ErrBetting ErrInvalid)) (\<lambda>_.
    andThen (require (isUUID actorUserID) (ErrBetting ErrUnauthorized)) (\<lambda>_.
    andThen (case Odds_Validate odds of Some e \<Rightarrow> throw (ErrBetting (BettingLedger e)) | None \<Rightarrow> ret ()) (\<lambda>_.
    andThen (require (TrimSpace reason \<noteq> []) (ErrBetting ErrReasonRequired)) (\<lambda>_.
    andThen (market_for_update marketID) (\<lambda>r.
    andThen (priceable r) (\<lambda>_.
    andThen (update_selection marketID selectionID (\<lambda>s. s\<lparr>sl_OpeningOdds := odds\<rparr>)) (\<lambda>_.
    repriceInTx exp64 marketID \<lparr>mv_DynamicPricing = mr_DynamicPricing r, mv_LiquidityCents = mr_LiquidityCents r,
      mv_TriggerWagerID = [], mv_ActorUserID = actorUserID, mv_Reason = TrimSpace reason\<rparr>))))))))"

definition SetMarketCloseTime ::
  "string \<Rightarrow> go_time \<Rightarrow> string \<Rightarrow> string \<Rightarrow> go_time \<Rightarrow> book_db \<Rightarrow> (store_error + unit) \<times> book_db" where
  "SetMarketCloseTime marketID closesAt actorUserID reason now' = run_tx (
    andThen (admin_args marketID actorUserID reason) (\<lambda>_.
    andThen (require (\<not> IsZero closesAt) (ErrBetting ErrInvalid)) (\<lambda>_.
    andThen (require (After closesAt now') ErrCloseTimeInPast) (\<lambda>_.
    andThen (market_for_update marketID) (\<lambda>r.
    andThen (priceable r) (\<lambda>_.
    andThen (require (IsZero (mk_OpensAt (mr_Market r)) \<or> After closesAt (mk_OpensAt (mr_Market r))) (ErrBetting ErrInvalid)) (\<lambda>_.
    andThen (update_market marketID (\<lambda>r. r\<lparr>mr_Market := (mr_Market r)\<lparr>mk_ClosesAt := UTC closesAt\<rparr>\<rparr>)) (\<lambda>_.
    audit actorUserID ''market.close_time_changed'' marketID (TrimSpace reason)))))))))"

definition null_zero :: "int64 \<Rightarrow> int64 option" where
  \<comment> \<open>\<open>nullif($1, 0)\<close>\<close>
  "null_zero k = (if k = 0 then None else Some k)"

definition SetStakeLimit ::
  "string \<Rightarrow> string \<Rightarrow> int64 \<Rightarrow> string \<Rightarrow> string \<Rightarrow> book_db \<Rightarrow> (store_error + unit) \<times> book_db" where
  "SetStakeLimit marketID selectionID limit actorUserID reason = run_tx (
    andThen (require (isUUID marketID) (ErrBetting ErrNotFound)) (\<lambda>_.
    andThen (require (selectionID = [] \<or> isUUID selectionID) (ErrBetting ErrNotFound)) (\<lambda>_.
    andThen (require (isUUID actorUserID) (ErrBetting ErrUnauthorized)) (\<lambda>_.
    andThen (require (0 \<le> sint limit) (ErrBetting ErrInvalid)) (\<lambda>_.
    andThen (require (TrimSpace reason \<noteq> []) (ErrBetting ErrReasonRequired)) (\<lambda>_.
    andThen (market_for_update marketID) (\<lambda>r.
    andThen (priceable r) (\<lambda>_.
    andThen (if selectionID = [] then update_market marketID (\<lambda>r. r\<lparr>mr_MaxStakeCents := null_zero limit\<rparr>)
             else update_selection marketID selectionID (\<lambda>s. s\<lparr>sl_MaxStakeCents := null_zero limit\<rparr>)) (\<lambda>_.
    audit actorUserID ''market.stake_limit_changed'' marketID (TrimSpace reason))))))))))"

definition SetTotalSideCap ::
  "string \<Rightarrow> string \<Rightarrow> int64 \<Rightarrow> string \<Rightarrow> string \<Rightarrow> book_db \<Rightarrow> (store_error + unit) \<times> book_db" where
  "SetTotalSideCap marketID selectionID cap actorUserID reason = run_tx (
    andThen (require (isUUID marketID \<and> isUUID selectionID) (ErrBetting ErrNotFound)) (\<lambda>_.
    andThen (require (isUUID actorUserID) (ErrBetting ErrUnauthorized)) (\<lambda>_.
    andThen (require (0 \<le> sint cap) (ErrBetting ErrInvalid)) (\<lambda>_.
    andThen (require (TrimSpace reason \<noteq> []) (ErrBetting ErrReasonRequired)) (\<lambda>_.
    andThen (market_for_update marketID) (\<lambda>r.
    andThen (priceable r) (\<lambda>_.
    andThen (update_selection marketID selectionID (\<lambda>s. s\<lparr>sl_TotalStakeCapCents := null_zero cap\<rparr>)) (\<lambda>_.
    audit actorUserID ''market.total_side_cap_changed'' marketID (TrimSpace reason)))))))))"

definition RestrictMember ::
  "string \<Rightarrow> string \<Rightarrow> string \<Rightarrow> string \<Rightarrow> string \<Rightarrow> book_db \<Rightarrow> (store_error + unit) \<times> book_db" where
  "RestrictMember marketID userID selectionID reason actorUserID = run_tx (
    andThen (require (isUUID marketID \<and> isUUID userID) (ErrBetting ErrInvalid)) (\<lambda>_.
    andThen (require (selectionID = [] \<or> isUUID selectionID) (ErrBetting ErrNotFound)) (\<lambda>_.
    andThen (require (isUUID actorUserID) (ErrBetting ErrUnauthorized)) (\<lambda>_.
    andThen (require (TrimSpace reason \<noteq> [] \<and> length (TrimSpace reason) \<le> 500) (ErrBetting ErrReasonRequired)) (\<lambda>_.
    andThen (uuid_arg marketID) (\<lambda>m. andThen (uuid_arg userID) (\<lambda>u. andThen (uuid_arg actorUserID) (\<lambda>a.
    \<lambda>db. case null_uuid selectionID of None \<Rightarrow> Inl ErrDatabase
      | Some s \<Rightarrow>
        if s \<noteq> [] \<and> \<not> list_ex (\<lambda>r. s_ID (sl_Selection r) = s \<and> s_MarketID (sl_Selection r) = m) (db_Selections db)
        then Inl (ErrBetting ErrNotFound)
        else if market_at m db = None \<or> u \<notin> us_ID ` set (db_Users db) \<or> a \<notin> us_ID ` set (db_Users db) then Inl ErrDatabase
        else let r = (m, \<lparr>r_UserID = u, r_SelectionID = s, r_Reason = TrimSpace reason\<rparr>);
                 same = (\<lambda>q. fst q = m \<and> r_UserID (snd q) = u \<and> r_SelectionID (snd q) = s)
             in Inr ((), db\<lparr>db_Restrictions := if list_ex same (db_Restrictions db)
                  then map (\<lambda>q. if same q then r else q) (db_Restrictions db) else db_Restrictions db @ [r]\<rparr>)))))))))"

definition LiftRestriction ::
  "string \<Rightarrow> string \<Rightarrow> string \<Rightarrow> book_db \<Rightarrow> (store_error + unit) \<times> book_db" where
  "LiftRestriction marketID userID selectionID = run_tx (
    andThen (require (isUUID marketID \<and> isUUID userID) (ErrBetting ErrInvalid)) (\<lambda>_.
    andThen (require (selectionID = [] \<or> isUUID selectionID) (ErrBetting ErrNotFound)) (\<lambda>_.
    andThen (uuid_arg marketID) (\<lambda>m. andThen (uuid_arg userID) (\<lambda>u.
    \<lambda>db. case null_uuid selectionID of None \<Rightarrow> Inl ErrDatabase
      | Some s \<Rightarrow>
        let same = (\<lambda>q. fst q = m \<and> r_UserID (snd q) = u \<and> r_SelectionID (snd q) = s)
        in if list_ex same (db_Restrictions db)
           then Inr ((), db\<lparr>db_Restrictions := filter (\<lambda>q. \<not> same q) (db_Restrictions db)\<rparr>)
           else Inl (ErrBetting ErrNotFound))))))"

end
