(* ===== verification/Book_Wagers.thy ===== *)
theory Book_Wagers
  imports Book_Lines
begin

text \<open>
  One wager in the database: \<open>internal/bettingpg/place.go\<close>, \<open>accept.go\<close>, \<open>voidwager.go\<close>, \<open>reducewager.go\<close> and
  \<open>adjust.go\<close>. Every operation loads its rows, calls the operation of \<open>internal/betting\<close> of the same name and
  writes what it returns, in one transaction. A repeated request is recognised by the state of the wager or by the
  key of its ledger transaction. \<open>time.Now()\<close> is the argument \<open>now'\<close>.
\<close>

section \<open>Placing\<close>

record place_wager_request =
  rq_WagerID :: string
  rq_UserID :: string
  rq_MarketID :: string
  rq_SelectionID :: string
  rq_FundingAccountType :: funding_account_type
  rq_StakeCents :: int64
  rq_Currency :: currency
  rq_IdempotencyKey :: string
  rq_PlacedByUserID :: string

record stake_limits =
  li_MarketMax :: int64
  li_MarketExisting :: int64
  li_SelectionMax :: int64
  li_SelectionExisting :: int64
  li_TotalCap :: int64
  li_TotalExisting :: int64

definition live_stake :: "(wager \<Rightarrow> bool) \<Rightarrow> book_db \<Rightarrow> int" where
  \<comment> \<open>\<open>sum(stake_cents) \<dots> state IN ('pending', 'accepted')\<close>\<close>
  "live_stake P db = (\<Sum>r\<leftarrow>filter (\<lambda>r. P (wr_Wager r) \<and> w_State (wr_Wager r) \<in> {WagerPending, WagerAccepted'}) (db_Wagers db).
     cents (w_Stake (wr_Wager r)))"

definition limit_and_existing :: "int64 option \<Rightarrow> (wager \<Rightarrow> bool) \<Rightarrow> (int64 \<times> int64) cmd" where
  "limit_and_existing cap P =
    (case cap of None \<Rightarrow> ret (0, 0)
     | Some c \<Rightarrow> andThen (query (\<lambda>db. scan_int64 (live_stake P db))) (\<lambda>existing. ret (c, existing)))"

definition loadStakeLimits :: "string \<Rightarrow> string \<Rightarrow> string \<Rightarrow> stake_limits cmd" where
  "loadStakeLimits marketID selectionID userID =
    andThen (uuid_arg marketID) (\<lambda>m. andThen (uuid_arg selectionID) (\<lambda>s. andThen (query (\<lambda>db.
      case (market_at m db, List.find (\<lambda>r. s_MarketID (sl_Selection r) = m \<and> s_ID (sl_Selection r) = s) (db_Selections db)) of
        (Some mr, Some sl) \<Rightarrow> Inr (mr_MaxStakeCents mr, sl_MaxStakeCents sl, sl_TotalStakeCapCents sl)
      | _ \<Rightarrow> Inl ErrDatabase)) (\<lambda>(marketMax, selectionMax, totalCap).
    andThen (uuid_arg userID) (\<lambda>u.
    andThen (limit_and_existing marketMax (\<lambda>w. w_MarketID w = m \<and> w_UserID w = u)) (\<lambda>(mm, me).
    andThen (limit_and_existing selectionMax (\<lambda>w. w_SelectionID w = s \<and> w_UserID w = u)) (\<lambda>(sm, se).
    andThen (limit_and_existing totalCap (\<lambda>w. w_SelectionID w = s)) (\<lambda>(tc, te).
    ret \<lparr>li_MarketMax = mm, li_MarketExisting = me, li_SelectionMax = sm, li_SelectionExisting = se,
         li_TotalCap = tc, li_TotalExisting = te\<rparr>)))))))"

definition by_user_key :: "string \<Rightarrow> string \<Rightarrow> wager_row \<Rightarrow> bool" where
  "by_user_key u key r \<longleftrightarrow> w_UserID (wr_Wager r) = u \<and> w_IdempotencyKey (wr_Wager r) = key"

definition insert_wager :: "wager \<Rightarrow> unit cmd" where
  \<comment> \<open>\<open>ON CONFLICT (user_id, idempotency_key) DO NOTHING\<close>; the other keys of the table refuse\<close>
  "insert_wager w = andThen (uuid_arg (w_ID w)) (\<lambda>i. andThen (uuid_arg (w_UserID w)) (\<lambda>u.
     andThen (uuid_arg (w_MarketID w)) (\<lambda>m. andThen (uuid_arg (w_SelectionID w)) (\<lambda>s db.
       case null_uuid (w_PlacedBy w) of None \<Rightarrow> Inl ErrDatabase
       | Some placedBy \<Rightarrow>
         if list_ex (by_user_key u (w_IdempotencyKey w)) (db_Wagers db) then Inr ((), db)
         else if i \<in> (w_ID \<circ> wr_Wager) ` set (db_Wagers db) \<or> u \<notin> us_ID ` set (db_Users db)
           \<or> placedBy \<noteq> [] \<and> placedBy \<notin> us_ID ` set (db_Users db)
           \<or> \<not> list_ex (\<lambda>r. s_MarketID (sl_Selection r) = m \<and> s_ID (sl_Selection r) = s) (db_Selections db)
           \<or> \<not> list_ex (\<lambda>r. mk_ID (mr_Market r) = m \<and> mk_Currency (mr_Market r) = m_Currency (w_Stake w)) (db_Markets db)
         then Inl ErrDatabase
         else Inr ((), db\<lparr>db_Wagers := db_Wagers db @
           [\<lparr>wr_Wager = w\<lparr>w_ID := i, w_UserID := u, w_MarketID := m, w_SelectionID := s, w_PlacedBy := placedBy\<rparr>,
             wr_AcceptedBy = [], wr_AcceptanceTransaction = [], wr_RejectedBy = [], wr_RejectionReason = []\<rparr>]\<rparr>)))))"

definition loadWagerByUserIdempotencyKey :: "string \<Rightarrow> string \<Rightarrow> wager cmd" where
  "loadWagerByUserIdempotencyKey userID key = andThen (uuid_arg userID) (\<lambda>u. query (\<lambda>db.
    case List.find (by_user_key u key) (db_Wagers db) of None \<Rightarrow> Inl (ErrBetting ErrNotFound) | Some r \<Rightarrow> Inr (wagerRow r)))"

definition new_money :: "int64 \<Rightarrow> currency \<Rightarrow> money cmd" where
  "new_money c cur = (case NewMoney c cur of Inl e \<Rightarrow> throw (ErrBetting (BettingLedger e)) | Inr m \<Rightarrow> ret m)"

definition placeWagerTx :: "int64 \<Rightarrow> place_wager_request \<Rightarrow> go_time \<Rightarrow> wager cmd" where
  "placeWagerTx maxPayout req now' =
    andThen (loadMarket (rq_MarketID req)) (\<lambda>market.
    andThen (loadSelection (rq_MarketID req) (rq_SelectionID req)) (\<lambda>selection.
    andThen (loadRestrictions (rq_MarketID req)) (\<lambda>restricted.
    andThen (loadStakeLimits (rq_MarketID req) (rq_SelectionID req) (rq_UserID req)) (\<lambda>limits.
    andThen (new_money (rq_StakeCents req) (rq_Currency req)) (\<lambda>stake.
    andThen (domain (PlaceWager
      \<lparr>pw_WagerID = rq_WagerID req, pw_UserID = rq_UserID req, pw_Market = market, pw_Selection = selection,
       pw_Restrictions = restricted, pw_MaxStakeCents = li_MarketMax limits,
       pw_ExistingStakeCents = li_MarketExisting limits, pw_SelectionMaxStakeCents = li_SelectionMax limits,
       pw_ExistingSelectionStakeCents = li_SelectionExisting limits, pw_TotalStakeCapCents = li_TotalCap limits,
       pw_ExistingTotalStakeCents = li_TotalExisting limits, pw_MaxPayoutCents = maxPayout,
       pw_PlacedBy = rq_PlacedByUserID req, pw_FundingAccountType = rq_FundingAccountType req, pw_Stake = stake,
       pw_IdempotencyKey = rq_IdempotencyKey req, pw_Now = now'\<rparr>)) (\<lambda>w.
    andThen (insert_wager w) (\<lambda>_.
    andThen (loadWagerByUserIdempotencyKey (w_UserID w) (w_IdempotencyKey w)) (\<lambda>stored.
    andThen (require (w_MarketID stored = w_MarketID w \<and> w_SelectionID stored = w_SelectionID w
        \<and> w_Stake stored = w_Stake w \<and> w_AcceptedOdds stored = w_AcceptedOdds w
        \<and> w_FundingAccountType stored = w_FundingAccountType w) ErrStoreConflict) (\<lambda>_.
    ret stored)))))))))"

definition DefaultMaxPayoutCents :: int64 where
  "DefaultMaxPayoutCents = 500000"

definition max_payout :: "int64 \<Rightarrow> int64" where
  "max_payout configured = (if sint configured > 0 then configured else DefaultMaxPayoutCents)"

definition Store_PlaceWager :: "int64 \<Rightarrow> place_wager_request \<Rightarrow> go_time \<Rightarrow> book_db \<Rightarrow> (store_error + wager) \<times> book_db" where
  "Store_PlaceWager configured req now' = run_tx (placeWagerTx (max_payout configured) req now')"

section \<open>Accepting\<close>

definition keyed_postings :: "currency \<Rightarrow> (string \<Rightarrow> bool) \<Rightarrow> book_db \<Rightarrow> posting list" where
  "keyed_postings c P db = concat (map (t_Postings \<circ> lt_Transaction)
     (filter (\<lambda>r. t_Currency (lt_Transaction r) = c \<and> P (t_IdempotencyKey (lt_Transaction r))) (db_Transactions db)))"

definition positive_sum :: "posting list \<Rightarrow> int" where
  "positive_sum ps = posted_sum (filter (\<lambda>p. 0 < posted_cents p) ps)"

definition negative_sum :: "posting list \<Rightarrow> int" where
  "negative_sum ps = posted_sum (filter (\<lambda>p. posted_cents p < 0) ps)"

definition reduce_prefix :: "ID \<Rightarrow> string" where
  "reduce_prefix i = ''wager:'' @ i @ '':reduce:''"

definition reducedCents :: "wager \<Rightarrow> int64 cmd" where
  \<comment> \<open>\<open>LIKE 'wager:<id>:reduce:%'\<close>: the identifier of a row has no wildcard in it\<close>
  "reducedCents w = query (\<lambda>db. scan_int64 (positive_sum (keyed_postings (m_Currency (w_Stake w))
     (\<lambda>k. take (length (reduce_prefix (w_ID w))) k = reduce_prefix (w_ID w)) db)))"

definition verifyAcceptance :: "wager \<Rightarrow> unit cmd" where
  "verifyAcceptance w =
    andThen (query (\<lambda>db. Inr (keyed_postings (m_Currency (w_Stake w)) (\<lambda>k. k = acceptance_key (w_ID w)) db))) (\<lambda>ps.
    andThen (query (\<lambda>db. scan_int64 (negative_sum ps))) (\<lambda>userAmount.
    andThen (query (\<lambda>db. scan_int64 (positive_sum ps))) (\<lambda>escrowAmount.
    andThen (reducedCents w) (\<lambda>refunded.
    let held = m_Cents (w_Stake w) + refunded
    in require (length ps = 2 \<and> - userAmount = held \<and> escrowAmount = held) ErrStoreConflict))))"

definition decided_state :: "market_state \<Rightarrow> bool" where
  "decided_state s \<longleftrightarrow> s \<in> {MarketSettled', MarketVoided, MarketCancelled}"

definition mark_accepted :: "string \<Rightarrow> string \<Rightarrow> string \<Rightarrow> unit cmd" where
  \<comment> \<open>\<open>UPDATE wagers SET state = 'accepted', \<dots> WHERE id = $1 AND state = 'pending'\<close>, an error when no row is affected\<close>
  "mark_accepted wagerID actor transactionID = andThen (uuid_arg wagerID) (\<lambda>i db.
    let by' = actor_or_null actor
    in if by' \<noteq> [] \<and> by' \<notin> us_ID ` set (db_Users db) then Inl ErrDatabase
      else (case wager_at i db of
        Some r \<Rightarrow> if w_State (wr_Wager r) \<noteq> WagerPending then Inl ErrDatabase
          else Inr ((), set_wager i (\<lambda>r. r\<lparr>wr_Wager := (wr_Wager r)\<lparr>w_State := WagerAccepted'\<rparr>, wr_AcceptedBy := by',
                 wr_AcceptanceTransaction := transactionID\<rparr>) db)
      | None \<Rightarrow> Inl ErrDatabase))"

definition acceptWagerTx :: "string \<Rightarrow> string \<Rightarrow> go_time \<Rightarrow> wager cmd" where
  "acceptWagerTx wagerID actorUserID now' =
    andThen (loadWagerForUpdate wagerID) (\<lambda>w.
    if w_State w = WagerAccepted' then andThen (verifyAcceptance w) (\<lambda>_. ret w)
    else
    andThen (marketStateForWager (w_MarketID w)) (\<lambda>marketState.
    andThen (require (\<not> decided_state marketState) ErrMarketDecided) (\<lambda>_.
    andThen (open_accounts (w_UserID w) (w_FundingAccountType w) (m_Currency (w_Stake w))) (\<lambda>refs.
    andThen (accountBalance (sr_UserFundingAccountID refs)) (\<lambda>balance.
    andThen (creditLimitForUser (w_UserID w)) (\<lambda>creditLimit.
    andThen (require (\<not> sint (balance + creditLimit) < sint (m_Cents (w_Stake w))) ErrInsufficientFunds) (\<lambda>_.
    andThen random_uuid (\<lambda>eventID.
    andThen (domain (AcceptWager w actorUserID (UTC now')
      \<lparr>ar_UserFundingAccountID = sr_UserFundingAccountID refs, ar_EscrowAccountID = sr_EscrowAccountID refs\<rparr> eventID)) (\<lambda>result.
    andThen (insertLedgerTransaction (aw_Transaction result)) (\<lambda>transactionID.
    andThen (mark_accepted wagerID actorUserID transactionID) (\<lambda>_.
    andThen (publish (aw_Event result)) (\<lambda>_.
    ret (aw_Wager result)))))))))))))"

definition Store_AcceptWager :: "string \<Rightarrow> string \<Rightarrow> go_time \<Rightarrow> book_db \<Rightarrow> (store_error + wager) \<times> book_db" where
  "Store_AcceptWager wagerID actorUserID now' = run_tx (acceptWagerTx wagerID actorUserID now')"

section \<open>Rejecting and cancelling\<close>

definition mark_rejected :: "string \<Rightarrow> string \<Rightarrow> string \<Rightarrow> (wager_row \<Rightarrow> bool) \<Rightarrow> store_error \<Rightarrow> unit cmd" where
  \<comment> \<open>\<open>UPDATE wagers SET state = 'rejected', \<dots> AND state = 'pending'\<close>; \<open>stale\<close> when no row is affected\<close>
  "mark_rejected wagerID by' reason P stale = andThen (uuid_arg wagerID) (\<lambda>i. andThen (uuid_arg by') (\<lambda>b db.
    case wager_at i db of
      Some r \<Rightarrow> if w_State (wr_Wager r) \<noteq> WagerPending \<or> \<not> P r then Inl stale
        else if b \<notin> us_ID ` set (db_Users db) then Inl ErrDatabase
        else Inr ((), set_wager i (\<lambda>r. r\<lparr>wr_Wager := (wr_Wager r)\<lparr>w_State := WagerRejected\<rparr>, wr_RejectedBy := b,
               wr_RejectionReason := reason\<rparr>) db)
    | None \<Rightarrow> Inl stale))"

definition stored_reason :: "string \<Rightarrow> string cmd" where
  "stored_reason wagerID = andThen (uuid_arg wagerID) (\<lambda>i. query (\<lambda>db.
    case wager_at i db of None \<Rightarrow> Inl ErrDatabase | Some r \<Rightarrow> Inr (wr_RejectionReason r)))"

definition Store_RejectWager :: "string \<Rightarrow> string \<Rightarrow> string \<Rightarrow> book_db \<Rightarrow> (store_error + wager) \<times> book_db" where
  "Store_RejectWager wagerID actorUserID reason = run_tx (
    andThen (loadWagerForUpdate wagerID) (\<lambda>w.
    if w_State w = WagerRejected
    then andThen (stored_reason wagerID) (\<lambda>stored. andThen (require (TrimSpace stored = TrimSpace reason) ErrStoreConflict) (\<lambda>_. ret w))
    else andThen (domain (RejectWager w actorUserID reason)) (\<lambda>rejected.
    andThen (mark_rejected wagerID actorUserID (TrimSpace reason) (\<lambda>_. True) ErrDatabase) (\<lambda>_. ret rejected))))"

definition CancelWagerReason :: string where
  "CancelWagerReason = ''Cancelled by the member before acceptance''"

definition Store_CancelWager :: "string \<Rightarrow> string \<Rightarrow> book_db \<Rightarrow> (store_error + wager) \<times> book_db" where
  "Store_CancelWager wagerID userID = run_tx (
    andThen (require (isUUID userID) (ErrBetting ErrInvalid)) (\<lambda>_.
    andThen (loadWagerForUpdate wagerID) (\<lambda>w.
    andThen (require (w_UserID w = userID) (ErrBetting ErrNotFound)) (\<lambda>_.
    if w_State w = WagerRejected
    then andThen (stored_reason wagerID) (\<lambda>stored. andThen (require (TrimSpace stored = CancelWagerReason) ErrStoreConflict) (\<lambda>_. ret w))
    else andThen (domain (CancelWager w userID)) (\<lambda>cancelled.
    andThen (mark_rejected wagerID userID CancelWagerReason (\<lambda>r. w_UserID (wr_Wager r) = userID) ErrInvalidTransition)
      (\<lambda>_. ret cancelled))))))"

section \<open>Voiding and reducing an accepted wager\<close>

definition key_posted :: "currency \<Rightarrow> string \<Rightarrow> book_db \<Rightarrow> bool" where
  \<comment> \<open>\<open>exists(SELECT 1 FROM ledger_transactions WHERE currency = $1 AND idempotency_key = $2)\<close>\<close>
  "key_posted c k db \<longleftrightarrow> list_ex (\<lambda>r. t_Currency (lt_Transaction r) = c \<and> t_IdempotencyKey (lt_Transaction r) = k) (db_Transactions db)"

definition update_accepted :: "string \<Rightarrow> (wager \<Rightarrow> bool) \<Rightarrow> (wager \<Rightarrow> wager) \<Rightarrow> unit cmd" where
  \<comment> \<open>\<open>UPDATE wagers SET \<dots> WHERE id = $1 AND state = 'accepted' \<dots>\<close>\<close>
  "update_accepted wagerID P f = andThen (uuid_arg wagerID) (\<lambda>i db.
    case wager_at i db of
      Some r \<Rightarrow> if w_State (wr_Wager r) = WagerAccepted' \<and> P (wr_Wager r)
        then Inr ((), set_wager i (\<lambda>r. r\<lparr>wr_Wager := f (wr_Wager r)\<rparr>) db) else Inl ErrInvalidTransition
    | None \<Rightarrow> Inl ErrInvalidTransition)"

definition voidWagerTx :: "string \<Rightarrow> string \<Rightarrow> string \<Rightarrow> go_time \<Rightarrow> (wager \<times> bool) cmd" where
  \<comment> \<open>the flag says whether the refund was posted now, so that the market is repriced\<close>
  "voidWagerTx wagerID actorUserID reason now' =
    andThen (require (isUUID wagerID) (ErrBetting ErrNotFound)) (\<lambda>_.
    andThen (require (isUUID actorUserID) (ErrBetting ErrUnauthorized)) (\<lambda>_.
    andThen (loadWagerForUpdate wagerID) (\<lambda>w.
    andThen (query (\<lambda>db. Inr (w_State w = WagerVoided \<and> key_posted (m_Currency (w_Stake w)) (VoidIdempotencyKey (w_ID w)) db))) (\<lambda>already.
    if already then ret (w, False)
    else
    andThen (ensureUserAccount (w_UserID w) (w_FundingAccountType w) (m_Currency (w_Stake w))) (\<lambda>userAccountID.
    andThen (ensureSystemAccount ''wager_escrow'' (m_Currency (w_Stake w))) (\<lambda>escrowAccountID.
    andThen (domain (VoidWager w actorUserID reason
      \<lparr>vr_UserFundingAccountID = userAccountID, vr_EscrowAccountID = escrowAccountID\<rparr> now')) (\<lambda>(voided, txn).
    andThen (insertLedgerTransaction txn) (\<lambda>_.
    andThen (update_accepted wagerID (\<lambda>_. True) (\<lambda>w. w\<lparr>w_State := WagerVoided\<rparr>)) (\<lambda>_.
    ret (voided, True))))))))))"

definition then_reprice ::
  "(float64 \<Rightarrow> float64) \<Rightarrow> string \<Rightarrow> (wager \<times> 'a \<times> bool \<Rightarrow> 'b) \<Rightarrow> (store_error + wager \<times> 'a \<times> bool) \<times> book_db \<Rightarrow> (store_error + 'b) \<times> book_db" where
  \<comment> \<open>the transaction has committed: repricing runs in one of its own, and its error is dropped\<close>
  "then_reprice exp64 wagerID f = (\<lambda>(r, db). case r of Inl e \<Rightarrow> (Inl e, db)
     | Inr (w, x, fresh) \<Rightarrow> (Inr (f (w, x, fresh)),
         if fresh then snd (RepriceMarketAfterWager exp64 (w_MarketID w) wagerID db) else db))"

definition Store_VoidWager ::
  "(float64 \<Rightarrow> float64) \<Rightarrow> string \<Rightarrow> string \<Rightarrow> string \<Rightarrow> go_time \<Rightarrow> book_db \<Rightarrow> (store_error + wager) \<times> book_db" where
  "Store_VoidWager exp64 wagerID actorUserID reason now' db =
    then_reprice exp64 wagerID fst
      (run_tx (andThen (voidWagerTx wagerID actorUserID reason now') (\<lambda>(w, fresh). ret (w, (), fresh))) db)"

definition reduceWagerTx :: "string \<Rightarrow> int64 \<Rightarrow> string \<Rightarrow> string \<Rightarrow> go_time \<Rightarrow> (wager \<times> money \<times> bool) cmd" where
  "reduceWagerTx wagerID newStakeCents actorUserID reason now' =
    andThen (require (isUUID wagerID) (ErrBetting ErrNotFound)) (\<lambda>_.
    andThen (require (isUUID actorUserID) (ErrBetting ErrUnauthorized)) (\<lambda>_.
    andThen (require (TrimSpace reason \<noteq> []) (ErrBetting ErrReasonRequired)) (\<lambda>_.
    andThen (loadWagerForUpdate wagerID) (\<lambda>w.
    andThen (marketStateForWager (w_MarketID w)) (\<lambda>marketState.
    andThen (require (\<not> decided_state marketState) ErrWagerNotReducible) (\<lambda>_.
    andThen (case NewMoney newStakeCents (m_Currency (w_Stake w)) of Inl e \<Rightarrow> throw (ErrBetting ErrInvalid) | Inr m \<Rightarrow> ret m) (\<lambda>newStake.
    andThen (query (\<lambda>db. Inr (key_posted (m_Currency (w_Stake w)) (ReduceIdempotencyKey (w_ID w) newStakeCents) db))) (\<lambda>already.
    if already then ret (w, \<lparr>m_Cents = 0, m_Currency = m_Currency (w_Stake w)\<rparr>, False)
    else
    andThen (ensureUserAccount (w_UserID w) (w_FundingAccountType w) (m_Currency (w_Stake w))) (\<lambda>userAccountID.
    andThen (ensureSystemAccount ''wager_escrow'' (m_Currency (w_Stake w))) (\<lambda>escrowAccountID.
    andThen (domain (ReduceWager w newStake actorUserID (TrimSpace reason)
      \<lparr>vr_UserFundingAccountID = userAccountID, vr_EscrowAccountID = escrowAccountID\<rparr> now')) (\<lambda>(reduced, refund, txn).
    andThen (insertLedgerTransaction txn) (\<lambda>_.
    andThen (update_accepted wagerID (\<lambda>u. m_Cents (w_Stake u) = m_Cents (w_Stake w))
      (\<lambda>u. u\<lparr>w_Stake := (w_Stake u)\<lparr>m_Cents := m_Cents (w_Stake reduced)\<rparr>,
             w_PotentialProfit := (w_PotentialProfit u)\<lparr>m_Cents := m_Cents (w_PotentialProfit reduced)\<rparr>\<rparr>)) (\<lambda>_.
    andThen (audit actorUserID ''wager.reduced'' wagerID (TrimSpace reason)) (\<lambda>_.
    ret (reduced, refund, True)))))))))))))))"

definition Store_ReduceWager ::
  "(float64 \<Rightarrow> float64) \<Rightarrow> string \<Rightarrow> int64 \<Rightarrow> string \<Rightarrow> string \<Rightarrow> go_time \<Rightarrow> book_db \<Rightarrow> (store_error + wager \<times> money) \<times> book_db" where
  "Store_ReduceWager exp64 wagerID newStakeCents actorUserID reason now' db =
    then_reprice exp64 wagerID (\<lambda>(w, m, _). (w, m)) (run_tx (reduceWagerTx wagerID newStakeCents actorUserID reason now') db)"

section \<open>Settling up\<close>

record record_settlement_request =
  rs_AdjustmentID :: string
  rs_UserID :: string
  rs_ActorUserID :: string
  rs_Direction :: adjustment_direction
  rs_AmountCents :: int64
  rs_Currency :: currency
  rs_Reason :: string

definition is_adjustment :: "string \<Rightarrow> transaction_row \<Rightarrow> bool" where
  "is_adjustment i r \<longleftrightarrow> t_Type (lt_Transaction r) = TransactionAdminAdjustment
     \<and> t_SourceType (lt_Transaction r) = AdjustmentSourceType \<and> t_SourceID (lt_Transaction r) = i"

definition postSettlementTx :: "record_settlement_request \<Rightarrow> go_time \<Rightarrow> unit cmd" where
  "postSettlementTx req now' =
    andThen (ensureUserAccount (rs_UserID req) FundingUserCash (rs_Currency req)) (\<lambda>userAccountID.
    andThen (ensureSystemAccount ''house_clearing'' (rs_Currency req)) (\<lambda>houseAccountID.
    andThen (domain (RecordAdjustment
      \<lparr>ad_AdjustmentID = rs_AdjustmentID req, ad_UserID = rs_UserID req, ad_Direction = rs_Direction req,
       ad_Amount = \<lparr>m_Cents = rs_AmountCents req, m_Currency = rs_Currency req\<rparr>, ad_Reason = rs_Reason req,
       ad_Actor = rs_ActorUserID req,
       ad_Refs = \<lparr>adr_UserFundingAccountID = userAccountID, adr_HouseClearingAccountID = houseAccountID\<rparr>,
       ad_OccurredAt = now'\<rparr>)) (\<lambda>txn.
    andThen (insertLedgerTransaction txn) (\<lambda>_. ret ()))))"

definition RecordSettlement :: "record_settlement_request \<Rightarrow> go_time \<Rightarrow> book_db \<Rightarrow> (store_error + unit) \<times> book_db" where
  \<comment> \<open>the row it returns is read back for display only\<close>
  "RecordSettlement req now' = run_tx (
    andThen (require (isUUID (rs_AdjustmentID req) \<and> isUUID (rs_UserID req)) (ErrBetting ErrInvalid)) (\<lambda>_.
    andThen (require (isUUID (rs_ActorUserID req)) (ErrBetting ErrUnauthorized)) (\<lambda>_.
    andThen (uuid_arg (rs_AdjustmentID req)) (\<lambda>i.
    andThen (query (\<lambda>db. Inr (list_ex (is_adjustment i) (db_Transactions db)))) (\<lambda>found.
    if found then ret ()
    else
    andThen (uuid_arg (rs_UserID req)) (\<lambda>u.
    andThen (query (\<lambda>db. if u \<in> us_ID ` set (db_Users db) then Inr () else Inl (ErrBetting ErrNotFound))) (\<lambda>_.
    postSettlementTx req now')))))))"

definition loadAdjustmentTransaction :: "string \<Rightarrow> (transaction \<times> string) cmd" where
  "loadAdjustmentTransaction adjustmentID = andThen (uuid_arg adjustmentID) (\<lambda>i. query (\<lambda>db.
    case List.find (is_adjustment i) (db_Transactions db) of None \<Rightarrow> Inl (ErrBetting ErrNotFound)
    | Some r \<Rightarrow> let t = lt_Transaction r in
       case ParseCurrency (t_Currency t) of Inl e \<Rightarrow> Inl (ErrBetting (BettingLedger e))
       | Inr c \<Rightarrow> Inr (\<lparr>t_Type = TransactionAdminAdjustment, t_Currency = c, t_IdempotencyKey = [], t_Actor = [],
           t_SourceType = AdjustmentSourceType, t_SourceID = t_SourceID t, t_Reason = t_Reason t, t_ReversalOf = [],
           t_Postings = map (\<lambda>p. p\<lparr>p_Amount := (p_Amount p)\<lparr>m_Currency := c\<rparr>\<rparr>) (t_Postings t)\<rparr>, lt_ID r)))"

definition postReversalTx :: "string \<Rightarrow> string \<Rightarrow> string \<Rightarrow> unit cmd" where
  "postReversalTx adjustmentID actorUserID reason =
    andThen (loadAdjustmentTransaction adjustmentID) (\<lambda>(original, transactionID).
    andThen (query (\<lambda>db. if list_ex (\<lambda>r. t_ReversalOf (lt_Transaction r) = transactionID) (db_Transactions db)
      then Inl ErrAlreadyReversed else Inr ())) (\<lambda>_.
    andThen (domain (ReverseAdjustment original transactionID actorUserID reason)) (\<lambda>reversal.
    andThen (insertLedgerTransaction reversal) (\<lambda>_. ret ()))))"

definition ReverseSettlement :: "string \<Rightarrow> string \<Rightarrow> string \<Rightarrow> book_db \<Rightarrow> (store_error + unit) \<times> book_db" where
  "ReverseSettlement adjustmentID actorUserID reason = run_tx (
    andThen (require (isUUID adjustmentID) (ErrBetting ErrNotFound)) (\<lambda>_.
    andThen (require (isUUID actorUserID) (ErrBetting ErrUnauthorized)) (\<lambda>_.
    postReversalTx adjustmentID actorUserID reason)))"

end
