(* ===== verification/Book_Parlays.thy ===== *)
theory Book_Parlays
  imports Book_Wagers
begin

text \<open>
  Parlays in the database: \<open>internal/bettingpg/parlay.go\<close> and the loading part of \<open>parlayload.go\<close>. A row of \<open>parlays\<close>
  carries its legs. The resolution of the legs and the payment run inside the transaction that settles a market.
  The Go code pays the affected parlays in the order of a map iteration; here it is the order of their legs,
  which no outcome depends on beyond the order of the rows it appends.
\<close>

section \<open>Rows\<close>

definition parlay_at :: "string \<Rightarrow> book_db \<Rightarrow> parlay_row option" where
  "parlay_at i db = List.find (\<lambda>r. pa_ID (py_Parlay r) = i) (db_Parlays db)"

definition set_parlay :: "string \<Rightarrow> (parlay_row \<Rightarrow> parlay_row) \<Rightarrow> book_db \<Rightarrow> book_db" where
  "set_parlay i f db = db\<lparr>db_Parlays := map (\<lambda>r. if pa_ID (py_Parlay r) = i then f r else r) (db_Parlays db)\<rparr>"

definition loadParlay :: "string \<Rightarrow> parlay cmd" where
  \<comment> \<open>\<open>loadParlayForUpdate\<close>, \<open>loadParlayForGrading\<close> and \<open>loadParlay\<close> select columns of this row and its legs\<close>
  "loadParlay parlayID = andThen (uuid_arg parlayID) (\<lambda>i. query (\<lambda>db.
    case parlay_at i db of None \<Rightarrow> Inl (ErrBetting ErrNotFound) | Some r \<Rightarrow> Inr (py_Parlay r)))"

section \<open>Placing\<close>

record place_parlay_request =
  rp_ParlayID :: string
  rp_UserID :: string
  rp_Legs :: "(string \<times> string) list"  \<comment> \<open>market and selection\<close>
  rp_FundingAccountType :: funding_account_type
  rp_StakeCents :: int64
  rp_Currency :: currency
  rp_IdempotencyKey :: string
  rp_PlacedByUserID :: string

fun load_legs :: "(string \<times> string) list \<Rightarrow> (market list \<times> selection list \<times> restriction list) cmd" where
  "load_legs [] = ret ([], [], [])"
| "load_legs ((marketID, selectionID) # legs) =
    andThen (require (isUUID marketID \<and> isUUID selectionID) (ErrBetting ErrInvalid)) (\<lambda>_.
    andThen (loadMarket marketID) (\<lambda>market.
    andThen (loadSelection marketID selectionID) (\<lambda>selection.
    andThen (loadRestrictions marketID) (\<lambda>legRestrictions.
    andThen (load_legs legs) (\<lambda>(ms, ss, rs). ret (market # ms, selection # ss, legRestrictions @ rs))))))"

definition parlayJuice :: int64 where
  "parlayJuice = DefaultParlayJuiceBasisPoints"

definition price_parlay :: "int64 \<Rightarrow> place_parlay_request \<Rightarrow> go_time \<Rightarrow> parlay cmd" where
  "price_parlay maxPayout req now' =
    andThen (load_legs (rp_Legs req)) (\<lambda>(markets, selections, restrictions).
    andThen (new_money (rp_StakeCents req) (rp_Currency req)) (\<lambda>stake.
    domain (PlaceParlay
      \<lparr>pp_ParlayID = rp_ParlayID req, pp_UserID = rp_UserID req, pp_Markets = markets, pp_Selections = selections,
       pp_Restrictions = restrictions, pp_JuiceBasisPoints = parlayJuice, pp_MaxPayoutCents = maxPayout,
       pp_PlacedBy = rp_PlacedByUserID req, pp_FundingAccountType = rp_FundingAccountType req, pp_Stake = stake,
       pp_IdempotencyKey = rp_IdempotencyKey req, pp_Now = now'\<rparr>)))"

definition cast_leg :: "parlay_leg \<Rightarrow> book_db \<Rightarrow> parlay_leg option" where
  \<comment> \<open>a row of \<open>parlay_legs\<close>: the selection must be on the market; the title is not stored\<close>
  "cast_leg l db = (case (pg_uuid (l_MarketID l), pg_uuid (l_SelectionID l)) of
     (Some m, Some s) \<Rightarrow> if list_ex (\<lambda>r. s_MarketID (sl_Selection r) = m \<and> s_ID (sl_Selection r) = s) (db_Selections db)
       then Some (l\<lparr>l_MarketID := m, l_SelectionID := s, l_MarketTitle := [], l_Result := no_result\<rparr>) else None
   | _ \<Rightarrow> None)"

definition verifyParlayMatches :: "parlay \<Rightarrow> parlay \<Rightarrow> bool" where
  "verifyParlayMatches existing placed \<longleftrightarrow> m_Cents (pa_Stake existing) = m_Cents (pa_Stake placed)
     \<and> pa_AcceptedOdds existing = pa_AcceptedOdds placed
     \<and> map l_SelectionID (pa_Legs existing) = map l_SelectionID (pa_Legs placed)"

definition insert_parlay :: "parlay \<Rightarrow> parlay cmd" where
  \<comment> \<open>\<open>ON CONFLICT (user_id, idempotency_key) DO NOTHING\<close>, then the rows of the legs; the parlay as it is stored\<close>
  "insert_parlay p = andThen (uuid_arg (pa_ID p)) (\<lambda>i. andThen (uuid_arg (pa_UserID p)) (\<lambda>u db.
     case List.find (\<lambda>r. pa_UserID (py_Parlay r) = u \<and> pa_IdempotencyKey (py_Parlay r) = pa_IdempotencyKey p) (db_Parlays db) of
       Some r \<Rightarrow> if verifyParlayMatches (py_Parlay r) p then Inr (py_Parlay r, db) else Inl (ErrBetting ErrIdempotencyConflict)
     | None \<Rightarrow>
       case (null_uuid (pa_PlacedBy p), those (map (\<lambda>l. cast_leg l db) (pa_Legs p))) of
         (Some placedBy, Some legs) \<Rightarrow>
           if i \<in> (pa_ID \<circ> py_Parlay) ` set (db_Parlays db) \<or> u \<notin> us_ID ` set (db_Users db)
             \<or> placedBy \<noteq> [] \<and> placedBy \<notin> us_ID ` set (db_Users db) \<or> \<not> distinct (map l_MarketID legs)
           then Inl ErrDatabase
           else let q = p\<lparr>pa_ID := i, pa_UserID := u, pa_PlacedBy := placedBy, pa_Legs := legs\<rparr>
             in Inr (q, db\<lparr>db_Parlays := db_Parlays db @ [\<lparr>py_Parlay = q, py_AcceptedBy = [], py_AcceptanceTransaction = [],
                  py_RejectedBy = [], py_RejectionReason = []\<rparr>]\<rparr>)
       | _ \<Rightarrow> Inl ErrDatabase))"

definition Store_PlaceParlay :: "int64 \<Rightarrow> place_parlay_request \<Rightarrow> go_time \<Rightarrow> book_db \<Rightarrow> (store_error + parlay) \<times> book_db" where
  "Store_PlaceParlay configured req now' = run_tx (
    andThen (require (isUUID (rp_ParlayID req) \<and> isUUID (rp_UserID req)) (ErrBetting ErrInvalid)) (\<lambda>_.
    andThen (require (rp_Legs req \<noteq> []) (ErrBetting ErrParlayTooFewLegs)) (\<lambda>_.
    andThen (price_parlay (max_payout configured) req now') insert_parlay)))"

definition QuoteParlay :: "int64 \<Rightarrow> place_parlay_request \<Rightarrow> go_time \<Rightarrow> book_db \<Rightarrow> store_error + parlay" where
  \<comment> \<open>the transaction is always rolled back\<close>
  "QuoteParlay configured req now' db = fst (run_tx (
    andThen (require (MinParlayLegs \<le> length (rp_Legs req)) (ErrBetting ErrParlayTooFewLegs)) (\<lambda>_.
    andThen (load_legs (rp_Legs req)) (\<lambda>(markets, selections, restrictions).
    andThen (new_money (rp_StakeCents req) (rp_Currency req)) (\<lambda>stake.
    andThen random_uuid (\<lambda>quoteID.
    domain (PlaceParlay
      \<lparr>pp_ParlayID = quoteID, pp_UserID = rp_UserID req, pp_Markets = markets, pp_Selections = selections,
       pp_Restrictions = restrictions, pp_JuiceBasisPoints = parlayJuice, pp_MaxPayoutCents = max_payout configured,
       pp_PlacedBy = [], pp_FundingAccountType = rp_FundingAccountType req, pp_Stake = stake,
       pp_IdempotencyKey = ''quote:'' @ quoteID, pp_Now = now'\<rparr>)))))) db)"

section \<open>Accepting, rejecting, withdrawing\<close>

definition decided_leg :: "book_db \<Rightarrow> parlay_leg \<Rightarrow> bool" where
  "decided_leg db l \<longleftrightarrow> (case market_at (l_MarketID l) db of None \<Rightarrow> False
     | Some r \<Rightarrow> mk_State (mr_Market r) \<in> {MarketSettled', MarketVoided, MarketCancelled, MarketNoAction})"

definition parlay_acceptance :: "string \<Rightarrow> string \<Rightarrow> money \<Rightarrow> money \<Rightarrow> string \<Rightarrow> string \<Rightarrow> transaction" where
  "parlay_acceptance parlayID actorUserID stake negatedStake userAccountID escrowAccountID =
    \<lparr>t_Type = TransactionWagerAcceptance, t_Currency = m_Currency stake,
     t_IdempotencyKey = ''parlay:'' @ parlayID @ '':acceptance'', t_Actor = actorUserID, t_SourceType = ''parlay'',
     t_SourceID = parlayID, t_Reason = [], t_ReversalOf = [],
     t_Postings = [\<lparr>p_AccountID = userAccountID, p_Amount = negatedStake\<rparr>,
                   \<lparr>p_AccountID = escrowAccountID, p_Amount = stake\<rparr>]\<rparr>"

definition update_parlay :: "string \<Rightarrow> string \<Rightarrow> (string \<Rightarrow> parlay_row \<Rightarrow> parlay_row) \<Rightarrow> unit cmd" where
  \<comment> \<open>an update that names the acting user: \<open>f\<close> gets the stored form of the identifier\<close>
  "update_parlay parlayID by' f = andThen (uuid_arg parlayID) (\<lambda>i. andThen (uuid_arg by') (\<lambda>b db.
     if b \<notin> us_ID ` set (db_Users db) then Inl ErrDatabase else Inr ((), set_parlay i (f b) db)))"

definition acceptParlayTx :: "string \<Rightarrow> string \<Rightarrow> parlay cmd" where
  "acceptParlayTx parlayID actorUserID =
    andThen (require (isUUID parlayID) (ErrBetting ErrNotFound)) (\<lambda>_.
    andThen (require (isUUID actorUserID) (ErrBetting ErrUnauthorized)) (\<lambda>_.
    andThen (loadParlay parlayID) (\<lambda>p.
    if pa_State p = WagerAccepted' then ret p
    else
    andThen (require (pa_State p = WagerPending) ErrInvalidTransition) (\<lambda>_.
    andThen (query (\<lambda>db. if list_ex (decided_leg db) (pa_Legs p) then Inl ErrMarketDecided else Inr ())) (\<lambda>_.
    andThen (new_money (m_Cents (pa_Stake p)) (m_Currency (pa_Stake p))) (\<lambda>stake.
    andThen (open_accounts (pa_UserID p) (pa_FundingAccountType p) (m_Currency (pa_Stake p))) (\<lambda>refs.
    andThen (accountBalance (sr_UserFundingAccountID refs)) (\<lambda>balance.
    andThen (creditLimitForUser (pa_UserID p)) (\<lambda>creditLimit.
    andThen (require (\<not> sint (balance + creditLimit) < sint (m_Cents stake)) ErrInsufficientFunds) (\<lambda>_.
    andThen (case Money_Negate stake of Inl e \<Rightarrow> throw (ErrBetting (BettingLedger e)) | Inr n \<Rightarrow> ret n) (\<lambda>negatedStake.
    let txn = parlay_acceptance parlayID actorUserID stake negatedStake (sr_UserFundingAccountID refs) (sr_EscrowAccountID refs) in
    andThen (case Transaction_Validate txn of Some e \<Rightarrow> throw (ErrBetting (BettingLedger e)) | None \<Rightarrow> ret ()) (\<lambda>_.
    andThen (insertLedgerTransaction txn) (\<lambda>transactionID.
    andThen (update_parlay parlayID actorUserID (\<lambda>b r. r\<lparr>py_Parlay := (py_Parlay r)\<lparr>pa_State := WagerAccepted'\<rparr>,
      py_AcceptedBy := b, py_AcceptanceTransaction := transactionID\<rparr>)) (\<lambda>_.
    loadParlay parlayID))))))))))))))"

definition Store_AcceptParlay :: "string \<Rightarrow> string \<Rightarrow> book_db \<Rightarrow> (store_error + parlay) \<times> book_db" where
  "Store_AcceptParlay parlayID actorUserID = run_tx (acceptParlayTx parlayID actorUserID)"

definition refuse_parlay :: "string \<Rightarrow> string \<Rightarrow> (unit cmd) \<Rightarrow> (parlay \<Rightarrow> bool) \<Rightarrow> string \<Rightarrow> unit cmd" where
  \<comment> \<open>the part \<open>RejectParlay\<close> and \<open>CancelParlay\<close> share\<close>
  "refuse_parlay parlayID by' guards mine reason =
    andThen (require (isUUID parlayID) (ErrBetting ErrNotFound)) (\<lambda>_.
    andThen (require (isUUID by') (ErrBetting ErrUnauthorized)) (\<lambda>_.
    andThen guards (\<lambda>_.
    andThen (loadParlay parlayID) (\<lambda>p.
    andThen (require (mine p) (ErrBetting ErrUnauthorized)) (\<lambda>_.
    andThen (require (pa_State p = WagerPending) ErrInvalidTransition) (\<lambda>_.
    update_parlay parlayID by' (\<lambda>b r. r\<lparr>py_Parlay := (py_Parlay r)\<lparr>pa_State := WagerRejected\<rparr>,
      py_RejectedBy := b, py_RejectionReason := reason\<rparr>)))))))"

definition Store_RejectParlay :: "string \<Rightarrow> string \<Rightarrow> string \<Rightarrow> book_db \<Rightarrow> (store_error + unit) \<times> book_db" where
  "Store_RejectParlay parlayID actorUserID reason = run_tx (refuse_parlay parlayID actorUserID
     (require (TrimSpace reason \<noteq> []) (ErrBetting ErrReasonRequired)) (\<lambda>_. True) (TrimSpace reason))"

definition Store_CancelParlay :: "string \<Rightarrow> string \<Rightarrow> book_db \<Rightarrow> (store_error + unit) \<times> book_db" where
  "Store_CancelParlay parlayID userID = run_tx (refuse_parlay parlayID userID (ret ())
     (\<lambda>p. pa_UserID p = userID) ''Withdrawn by the member before review'')"

section \<open>Resolution and payment\<close>

definition insert_parlay_settlement :: "string \<Rightarrow> parlay_outcome \<Rightarrow> string \<Rightarrow> book_db \<Rightarrow> book_db" where
  \<comment> \<open>\<open>ON CONFLICT (parlay_id) DO NOTHING\<close>\<close>
  "insert_parlay_settlement i outcome transactionID db =
    (if i \<in> pt_ParlayID ` set (db_ParlaySettlements db) then db
     else db\<lparr>db_ParlaySettlements := db_ParlaySettlements db @
       [\<lparr>pt_ParlayID = i, pt_Outcome = outcome, pt_TransactionID = transactionID\<rparr>]\<rparr>)"

definition payParlayTx :: "string \<Rightarrow> parlay \<Rightarrow> int64 \<Rightarrow> unit cmd" where
  "payParlayTx parlayID p juice =
    andThen (open_accounts (pa_UserID p) (pa_FundingAccountType p) (m_Currency (pa_Stake p))) (\<lambda>refs.
    andThen (domain (settleParlayIfComplete p juice (sr_UserFundingAccountID refs) (sr_EscrowAccountID refs)
      (sr_HouseClearingAccountID refs))) (\<lambda>settled.
    case settled of None \<Rightarrow> ret ()
    | Some (outcome, txn) \<Rightarrow>
      andThen (insertLedgerTransaction txn) (\<lambda>transactionID.
      andThen (uuid_arg parlayID) (\<lambda>i.
      andThen (exec (insert_parlay_settlement i outcome transactionID)) (\<lambda>_.
      exec (set_parlay i (\<lambda>r. r\<lparr>py_Parlay := (py_Parlay r)\<lparr>pa_State := WagerSettled'\<rparr>\<rparr>)))))))"

definition settleParlayIfCompleteTx :: "string \<Rightarrow> int64 \<Rightarrow> unit cmd" where
  "settleParlayIfCompleteTx parlayID juice =
    andThen (loadParlay parlayID) (\<lambda>p.
    if list_ex (\<lambda>l. l_Result l = no_result) (pa_Legs p) \<and> \<not> list_ex (\<lambda>l. l_Result l = ResultLoss) (pa_Legs p) then ret ()
    else
    andThen (domain (GradeParlay (if list_ex (\<lambda>l. l_Result l = ResultLoss) (pa_Legs p) then void_open_legs p else p) juice)) (\<lambda>_.
    payParlayTx parlayID p juice))"

definition open_legs_on :: "string \<Rightarrow> book_db \<Rightarrow> (string \<times> string) list" where
  "open_legs_on m db = concat (map (\<lambda>r. map (\<lambda>l. (pa_ID (py_Parlay r), l_SelectionID l))
       (filter (\<lambda>l. l_MarketID l = m \<and> l_Result l = no_result) (pa_Legs (py_Parlay r))))
     (filter (\<lambda>r. pa_State (py_Parlay r) = WagerAccepted') (db_Parlays db)))"

definition resolve_leg :: "string \<Rightarrow> string \<Rightarrow> settlement_result \<Rightarrow> book_db \<Rightarrow> book_db" where
  \<comment> \<open>\<open>UPDATE parlay_legs SET result = $3 WHERE parlay_id = $1 AND selection_id = $2 AND result IS NULL\<close>\<close>
  "resolve_leg parlayID selectionID result = set_parlay parlayID (\<lambda>r. r\<lparr>py_Parlay := (py_Parlay r)\<lparr>pa_Legs :=
     map (\<lambda>l. if l_SelectionID l = selectionID \<and> l_Result l = no_result then l\<lparr>l_Result := result\<rparr> else l)
       (pa_Legs (py_Parlay r))\<rparr>\<rparr>)"

definition resolve_one :: "(string, settlement_result) go_map \<Rightarrow> bool \<Rightarrow> string \<times> string \<Rightarrow> unit cmd" where
  "resolve_one outcome voided = (\<lambda>(parlayID, selectionID).
    if voided then exec (resolve_leg parlayID selectionID ResultVoid)
    else (case DAList.lookup outcome selectionID of None \<Rightarrow> throw (ErrBetting ErrIncompleteOutcome)
      | Some graded \<Rightarrow>
          if graded \<notin> {ResultWin, ResultLoss, ResultPush, ResultVoid} then throw ErrDatabase
          else exec (resolve_leg parlayID selectionID graded)))"

definition resolveParlayLegsTx :: "string \<Rightarrow> (string, settlement_result) go_map \<Rightarrow> bool \<Rightarrow> int64 \<Rightarrow> unit cmd" where
  "resolveParlayLegsTx marketID outcome voided juice = andThen (uuid_arg marketID) (\<lambda>m.
    andThen (query (\<lambda>db. Inr (open_legs_on m db))) (\<lambda>legs.
    andThen (each (resolve_one outcome voided) legs) (\<lambda>_.
    each (\<lambda>i. settleParlayIfCompleteTx i juice) (remdups (map fst legs)))))"

end
