(* ===== verification/Book_Markets.thy ===== *)
theory Book_Markets
  imports Book_Parlays
begin

text \<open>
  Markets in the database: \<open>internal/bettingpg/create.go\<close>, \<open>market.go\<close>, \<open>regrade.go\<close> and \<open>CloseMarketWithoutAction\<close>
  of \<open>noaction.go\<close>. \<open>settleWith\<close> grades or voids a market in one transaction: the settlement row, the outcomes, one
  ledger transaction and one settlement row per accepted wager, the states of the wagers and of the market, the
  legs of the parlays on it, and the events. \<open>json.Marshal\<close> writes the keys of a map in their order.
\<close>

section \<open>Events and states of a market\<close>

definition publishMarketEvent :: "event_type \<Rightarrow> string \<Rightarrow> (string \<times> json_field) list \<Rightarrow> go_time \<Rightarrow> unit cmd" where
  "publishMarketEvent eventType marketID payload now' = andThen random_uuid (\<lambda>eventID.
     publish \<lparr>e_ID = eventID, e_AggregateType = ''market'', e_AggregateID = marketID, e_AggregateVersion = 1,
       e_Type = eventType, e_Payload = json_Marshal payload, e_OccurredAt = UTC now', e_CorrelationID = [],
       e_CausationID = []\<rparr>)"

definition move_market :: "string \<Rightarrow> market_state \<Rightarrow> market_state \<Rightarrow> unit cmd" where
  \<comment> \<open>\<open>UPDATE markets SET state = \<dots> WHERE id = $1 AND state = \<dots>\<close>, an error when no row is affected\<close>
  "move_market marketID from' to = andThen (uuid_arg marketID) (\<lambda>m db.
    case market_at m db of
      Some r \<Rightarrow> if mk_State (mr_Market r) = from' then Inr ((), set_market_state m to db) else Inl ErrDatabase
    | None \<Rightarrow> Inl ErrDatabase)"

definition closeOpenMarketTx :: "string \<Rightarrow> go_time \<Rightarrow> unit cmd" where
  "closeOpenMarketTx marketID now' = andThen (move_market marketID MarketOpen MarketClosed) (\<lambda>_.
     publishMarketEvent Events.MarketClosed marketID [(''market_id'', JString marketID)] now')"

definition closeMarketTx :: "string \<Rightarrow> go_time \<Rightarrow> unit cmd" where
  "closeMarketTx marketID now' = andThen (loadMarket marketID) (\<lambda>market.
    if mk_State market = MarketClosed then ret ()
    else andThen (require (MarketState_CanTransitionTo (mk_State market) MarketClosed) ErrMarketNotSettleable) (\<lambda>_.
      closeOpenMarketTx marketID now'))"

definition Store_CloseMarket :: "string \<Rightarrow> go_time \<Rightarrow> book_db \<Rightarrow> (store_error + unit) \<times> book_db" where
  "Store_CloseMarket marketID now' = run_tx (closeMarketTx marketID now')"

definition Store_OpenMarket :: "string \<Rightarrow> string \<Rightarrow> go_time \<Rightarrow> book_db \<Rightarrow> (store_error + unit) \<times> book_db" where
  "Store_OpenMarket marketID actor now' = run_tx (
    andThen (require (TrimSpace actor \<noteq> []) (ErrBetting ErrUnauthorized)) (\<lambda>_.
    andThen (loadMarket marketID) (\<lambda>market.
    if mk_State market = MarketOpen then ret ()
    else andThen (require (MarketState_CanTransitionTo (mk_State market) MarketOpen) ErrMarketNotOpenable) (\<lambda>_.
    andThen (move_market marketID MarketDraft MarketOpen) (\<lambda>_.
    publishMarketEvent Events.MarketOpened marketID [(''actor_user_id'', JString actor), (''market_id'', JString marketID)] now')))))"

section \<open>Creating a market\<close>

record create_selection =
  cs_MaxStakeCents :: int64
  cs_Key :: string
  cs_DisplayTerms :: string
  cs_OfferedAmericanOdds :: int32
  cs_SemanticResultKey :: string

record create_market_request =
  cr_MarketID :: string
  cr_Type :: market_type
  cr_MatchID :: string
  cr_Title :: string
  cr_Currency :: currency
  cr_OpensAt :: go_time
  cr_ClosesAt :: go_time
  cr_Selections :: "create_selection list"
  cr_ActorUserID :: string
  cr_DynamicPricing :: bool
  cr_PricingLiquidityCents :: int64
  cr_MaxStakeCents :: int64

definition MaxSelectionsPerMarket :: nat where
  "MaxSelectionsPerMarket = 32"

definition DefaultPricingLiquidityCents :: int64 where
  "DefaultPricingLiquidityCents = 500000"

fun build_selections :: "string \<Rightarrow> create_selection list \<Rightarrow> string list \<Rightarrow> (selection \<times> int64) list cmd" where
  \<comment> \<open>the loop over \<open>req.Selections\<close>; every selection with its cap\<close>
  "build_selections marketID [] seen = ret []"
| "build_selections marketID (q # qs) seen = andThen random_uuid (\<lambda>i.
    let s = \<lparr>s_ID = i, s_MarketID = marketID, s_Key = TrimSpace (cs_Key q), s_DisplayTerms = TrimSpace (cs_DisplayTerms q),
          s_OfferedAmericanOdds = cs_OfferedAmericanOdds q, s_SemanticResultKey = TrimSpace (cs_SemanticResultKey q),
          s_Active = True\<rparr>
    in case Selection_Validate s of Some e \<Rightarrow> throw (ErrBetting e)
      | None \<Rightarrow> if s_Key s \<in> set seen then throw (ErrBetting ErrInvalid)
        else andThen (build_selections marketID qs (s_Key s # seen)) (\<lambda>ss. ret ((s, cs_MaxStakeCents q) # ss)))"

definition active_match_market :: "string \<Rightarrow> market_row \<Rightarrow> bool" where
  "active_match_market matchID r \<longleftrightarrow> mk_MatchID (mr_Market r) = matchID \<and> mk_Type (mr_Market r) = MarketMatch
     \<and> mk_State (mr_Market r) \<notin> {MarketVoided, MarketCancelled}"

definition insert_market :: "market \<Rightarrow> create_market_request \<Rightarrow> bool cmd" where
  \<comment> \<open>\<open>ON CONFLICT (id) DO NOTHING\<close>: false when the market exists\<close>
  "insert_market market req = andThen (uuid_arg (mk_ID market)) (\<lambda>m. andThen (uuid_arg (cr_ActorUserID req)) (\<lambda>a db.
    case null_uuid (mk_MatchID market) of None \<Rightarrow> Inl ErrDatabase
    | Some matchID \<Rightarrow>
      if market_at m db \<noteq> None then Inr (False, db)
      else if matchID \<noteq> [] \<and> list_ex (active_match_market matchID) (db_Markets db) then Inl ErrMatchMarketExists
      else if a \<notin> us_ID ` set (db_Users db) \<or> matchID \<noteq> [] \<and> matchID \<notin> mt_ID ` set (db_Matches db)
        \<or> sint (cr_MaxStakeCents req) < 0 then Inl ErrDatabase
      else Inr (True, db\<lparr>db_Markets := db_Markets db @
        [\<lparr>mr_Market = market\<lparr>mk_ID := m, mk_MatchID := matchID\<rparr>, mr_DynamicPricing = cr_DynamicPricing req,
          mr_LiquidityCents = (if cr_DynamicPricing req then cr_PricingLiquidityCents req else 0),
          mr_MaxStakeCents = null_zero (cr_MaxStakeCents req)\<rparr>]\<rparr>)))"

definition insert_selection :: "selection \<times> int64 \<Rightarrow> unit cmd" where
  "insert_selection = (\<lambda>(s, cap). andThen (uuid_arg (s_ID s)) (\<lambda>i. andThen (uuid_arg (s_MarketID s)) (\<lambda>m db.
    if sint cap < 0 \<or> list_ex (\<lambda>r. s_ID (sl_Selection r) = i
        \<or> s_MarketID (sl_Selection r) = m \<and> s_Key (sl_Selection r) = s_Key s) (db_Selections db) then Inl ErrDatabase
    else Inr ((), db\<lparr>db_Selections := db_Selections db @
      [\<lparr>sl_Selection = s\<lparr>s_ID := i, s_MarketID := m\<rparr>, sl_OpeningOdds = s_OfferedAmericanOdds s,
        sl_MaxStakeCents = null_zero cap, sl_TotalStakeCapCents = None\<rparr>]\<rparr>))))"

definition validateMatchMarketMapping :: "string \<Rightarrow> string \<Rightarrow> selection list \<Rightarrow> unit cmd" where
  "validateMatchMarketMapping marketID matchID selections =
    andThen (uuid_arg matchID) (\<lambda>i. andThen (uuid_arg marketID) (\<lambda>m.
    andThen (query (\<lambda>db. case List.find (\<lambda>r. mt_ID r = i) (db_Matches db) of
        Some r \<Rightarrow> if mt_State r \<in> {''scheduled'', ''open''} \<and> \<not> list_ex (\<lambda>q. mk_ID (mr_Market q) \<noteq> m
              \<and> mk_MatchID (mr_Market q) = i \<and> mk_State (mr_Market q) \<notin> {MarketVoided, MarketCancelled}) (db_Markets db)
            then Inr r else Inl (ErrBetting ErrInvalid)
      | None \<Rightarrow> Inl (ErrBetting ErrInvalid))) (\<lambda>r.
    let keys = map s_SemanticResultKey selections
    in require (length selections = 2 \<and> distinct keys \<and> set keys \<subseteq> {''side:'' @ mt_Side1 r, ''side:'' @ mt_Side2 r})
         (ErrBetting ErrInvalid))))"

fun market_type_string :: "market_type \<Rightarrow> string" where
  "market_type_string MarketMatch = ''match''"
| "market_type_string MarketFuture = ''future''"
| "market_type_string MarketProp = ''prop''"
| "market_type_string (MarketTypeOther s) = s"

definition createMarketTx :: "create_market_request \<Rightarrow> go_time \<Rightarrow> market cmd" where
  "createMarketTx req0 now' =
    andThen (require (isUUID (cr_ActorUserID req0)) (ErrBetting ErrUnauthorized)) (\<lambda>_.
    andThen (require (isUUID (cr_MarketID req0)) (ErrBetting ErrInvalid)) (\<lambda>_.
    let market = \<lparr>mk_ID = cr_MarketID req0, mk_Type = cr_Type req0, mk_MatchID = TrimSpace (cr_MatchID req0),
          mk_Title = TrimSpace (cr_Title req0), mk_State = MarketDraft, mk_Currency = cr_Currency req0,
          mk_OpensAt = cr_OpensAt req0, mk_ClosesAt = cr_ClosesAt req0\<rparr>;
        n = length (cr_Selections req0);
        req = (if cr_DynamicPricing req0 \<and> sint (cr_PricingLiquidityCents req0) \<le> 0
          then req0\<lparr>cr_PricingLiquidityCents := DefaultPricingLiquidityCents\<rparr> else req0)
    in
    andThen (case Market_Validate market of Some e \<Rightarrow> throw (ErrBetting e) | None \<Rightarrow> ret ()) (\<lambda>_.
    andThen (require (n \<noteq> 0 \<and> n \<le> MaxSelectionsPerMarket) (ErrBetting ErrInvalid)) (\<lambda>_.
    andThen (require (cr_DynamicPricing req0 \<longrightarrow> 2 \<le> n) (ErrBetting ErrInvalid)) (\<lambda>_.
    andThen (build_selections (mk_ID market) (cr_Selections req) []) (\<lambda>selections.
    andThen (insert_market market req) (\<lambda>inserted.
    if \<not> inserted
    then andThen (loadMarket (mk_ID market)) (\<lambda>existing.
      andThen (require (mk_Type existing = mk_Type market \<and> mk_MatchID existing = mk_MatchID market
          \<and> mk_Title existing = mk_Title market \<and> mk_Currency existing = mk_Currency market
          \<and> instant (mk_ClosesAt existing) = instant (mk_ClosesAt market)) ErrStoreConflict) (\<lambda>_. ret existing))
    else
    andThen (if mk_Type market = MarketMatch
      then validateMatchMarketMapping (mk_ID market) (mk_MatchID market) (map fst selections) else ret ()) (\<lambda>_.
    andThen (each insert_selection selections) (\<lambda>_.
    andThen (publishMarketEvent Events.MarketCreated (mk_ID market)
      [(''actor_user_id'', JString (cr_ActorUserID req)), (''currency'', JString (mk_Currency market)),
       (''market_id'', JString (mk_ID market)), (''market_type'', JString (market_type_string (mk_Type market)))] now') (\<lambda>_.
    ret market))))))))))"

definition Store_CreateMarket :: "create_market_request \<Rightarrow> go_time \<Rightarrow> book_db \<Rightarrow> (store_error + market) \<times> book_db" where
  "Store_CreateMarket req now' = run_tx (createMarketTx req now')"

section \<open>Settling a market\<close>

datatype settlement_type = Graded | Voided

fun settlement_type_string :: "settlement_type \<Rightarrow> string" where
  "settlement_type_string Graded = ''graded''"
| "settlement_type_string Voided = ''voided''"

definition validateSettleableState :: "market_state \<Rightarrow> settlement_type \<Rightarrow> bool \<Rightarrow> store_error option" where
  "validateSettleableState s ty regrade =
    (case ty of
      Graded \<Rightarrow> if regrade \<and> s = MarketSettled' then None
        else if s \<noteq> MarketClosed \<and> s \<noteq> MarketSettlementPending then Some ErrMarketNotSettleable else None
    | Voided \<Rightarrow> if s \<in> {MarketOpen, MarketClosed, MarketSettlementPending} then None else Some ErrMarketNotSettleable)"

definition settlements_of :: "string \<Rightarrow> book_db \<Rightarrow> market_settlement_row list" where
  "settlements_of m db = filter (\<lambda>r. ms_MarketID r = m) (db_MarketSettlements db)"

definition max_version :: "string \<Rightarrow> book_db \<Rightarrow> int" where
  \<comment> \<open>\<open>coalesce(max(version), 0)\<close>\<close>
  "max_version m db = fold (\<lambda>r k. max (sint (ms_Version r)) k) (settlements_of m db) 0"

definition nextSettlementVersion :: "string \<Rightarrow> go_int cmd" where
  "nextSettlementVersion marketID = andThen (uuid_arg marketID) (\<lambda>m. query (\<lambda>db. scan_int64 (max_version m db + 1)))"

definition previousSettlementID :: "string \<Rightarrow> go_int \<Rightarrow> string cmd" where
  \<comment> \<open>the settlement with the highest version below the given one\<close>
  "previousSettlementID marketID version = andThen (uuid_arg marketID) (\<lambda>m. query (\<lambda>db.
    case rev (sort_key (\<lambda>r. sint (ms_Version r)) (filter (\<lambda>r. sint (ms_Version r) < sint version) (settlements_of m db))) of
      [] \<Rightarrow> Inl ErrDatabase | r # _ \<Rightarrow> Inr (ms_ID r)))"

definition market_settlement_key :: "string \<Rightarrow> go_int \<Rightarrow> string" where
  "market_settlement_key marketID version = ''market:'' @ marketID @ '':settlement:v'' @ decimal (sint version)"

definition insertMarketSettlement ::
  "string \<Rightarrow> string \<Rightarrow> go_int \<Rightarrow> settlement_type \<Rightarrow> string \<Rightarrow> string \<Rightarrow> string \<Rightarrow> string \<Rightarrow> (string \<times> bool) cmd" where
  \<comment> \<open>the flag is \<open>existed\<close>; \<open>verified_results\<close> belongs to the competition, its key is not checked here\<close>
  "insertMarketSettlement marketID settlementID version ty verifiedResultID actorUserID reason supersedesID =
    andThen (uuid_arg marketID) (\<lambda>m. andThen (uuid_arg settlementID) (\<lambda>i db.
      let key = market_settlement_key marketID version; settledBy = actor_or_null actorUserID
      in case (null_uuid verifiedResultID, null_uuid supersedesID) of
        (Some verified, Some supersedes) \<Rightarrow>
          (case List.find (\<lambda>r. ms_MarketID r = m \<and> ms_IdempotencyKey r = key) (db_MarketSettlements db) of
            Some r \<Rightarrow> Inr ((ms_ID r, True), db)
          | None \<Rightarrow>
            if i \<in> ms_ID ` set (db_MarketSettlements db) \<or> sint version \<le> 0
              \<or> settledBy \<noteq> [] \<and> settledBy \<notin> us_ID ` set (db_Users db)
              \<or> (verified = [] \<and> (settledBy = [] \<or> blank reason)) \<or> (sint version = 1) \<noteq> (supersedes = [])
              \<or> list_ex (\<lambda>r. ms_MarketID r = m \<and> ms_Version r = version
                  \<or> supersedes \<noteq> [] \<and> ms_SupersedesID r = supersedes) (db_MarketSettlements db)
            then Inl ErrDatabase
            else Inr ((i, False), db\<lparr>db_MarketSettlements := db_MarketSettlements db @
              [\<lparr>ms_ID = i, ms_MarketID = m, ms_Version = version, ms_Type = settlement_type_string ty,
                ms_VerifiedResultID = verified, ms_SettledBy = settledBy, ms_Reason = reason,
                ms_IdempotencyKey = key, ms_SupersedesID = supersedes\<rparr>]\<rparr>))
      | _ \<Rightarrow> Inl ErrDatabase))"

definition verifyOutcomeMatches :: "string \<Rightarrow> market_outcome \<Rightarrow> unit cmd" where
  "verifyOutcomeMatches settlementID outcome = andThen (uuid_arg settlementID) (\<lambda>i. query (\<lambda>db.
    let stored = map_of_list (map (\<lambda>r. (oc_SelectionID r, oc_Outcome r)) (filter (\<lambda>r. oc_SettlementID r = i) (db_Outcomes db)))
    in if map_size stored \<noteq> map_size outcome then Inl ErrStoreConflict
       else if list_ex (\<lambda>(k, r). get_or no_result stored k \<noteq> r) (DAList.impl_of outcome) then Inl ErrStoreConflict
       else Inr ()))"

record settle_report =
  rpt_MarketID :: string
  rpt_SettlementID :: string
  rpt_Version :: go_int
  rpt_Counts :: "nat \<Rightarrow> nat"  \<comment> \<open>by \<open>resultIndex\<close>: wins, losses, pushes, voids\<close>
  rpt_TotalStakeCents :: int64
  rpt_TotalProfitCents :: int64
  rpt_TotalReturnedCents :: int64

definition settle_report_of :: "string \<Rightarrow> string \<Rightarrow> go_int \<Rightarrow> wager_settlement list \<Rightarrow> settle_report" where
  "settle_report_of marketID i version ss =
    \<lparr>rpt_MarketID = marketID, rpt_SettlementID = i, rpt_Version = version,
     rpt_Counts = (\<lambda>k. length (filter (\<lambda>s. ws_Result s \<in> {ResultWin, ResultLoss, ResultPush, ResultVoid}
        \<and> resultIndex (ws_Result s) = k) ss)),
     rpt_TotalStakeCents = (\<Sum>s\<leftarrow>ss. m_Cents (ws_Stake s)), rpt_TotalProfitCents = (\<Sum>s\<leftarrow>ss. m_Cents (ws_Profit s)),
     rpt_TotalReturnedCents = (\<Sum>s\<leftarrow>ss. m_Cents (ws_Returned s))\<rparr>"

fun prepare_wagers :: "wager list \<Rightarrow> (ID \<times> settlement_account_refs \<times> ID \<times> ID) list cmd" where
  \<comment> \<open>the loop that fills \<open>refs\<close>, \<open>wagerSettlementIDs\<close> and \<open>wagerEventIDs\<close>\<close>
  "prepare_wagers [] = ret []"
| "prepare_wagers (w # ws) =
    (if w_State w \<noteq> WagerAccepted' then prepare_wagers ws
     else andThen (open_accounts (w_UserID w) (w_FundingAccountType w) (m_Currency (w_Stake w))) (\<lambda>refs. andThen random_uuid (\<lambda>wagerSettlementID. andThen random_uuid (\<lambda>wagerEventID.
       andThen (prepare_wagers ws) (\<lambda>xs. ret ((w_ID w, refs, wagerSettlementID, wagerEventID) # xs))))))"

record dead_heat_spec =
  dh_declared :: bool
  dh_divisor :: go_int

definition settle_domain ::
  "settlement_type \<Rightarrow> market \<Rightarrow> selection list \<Rightarrow> market_outcome \<Rightarrow> wager list \<Rightarrow> (ID \<times> settlement_account_refs \<times> ID \<times> ID) list \<Rightarrow>
     ID \<Rightarrow> go_int \<Rightarrow> ID \<Rightarrow> string \<Rightarrow> go_time \<Rightarrow> ID \<Rightarrow> bool \<Rightarrow> dead_heat_spec \<Rightarrow> betting_error + settle_market_result" where
  \<comment> \<open>the call of \<open>betting.SettleMarket\<close> or \<open>betting.VoidMarket\<close>\<close>
  "settle_domain ty market selections outcome wagers xs settlementID version actor reason now' marketEventID regrade deadHeat =
    (let refs = map_of_list (map (\<lambda>(i, r, s, e). (i, r)) xs); sids = map_of_list (map (\<lambda>(i, r, s, e). (i, s)) xs);
         eids = map_of_list (map (\<lambda>(i, r, s, e). (i, e)) xs)
     in case ty of
       Graded \<Rightarrow> SettleMarket \<lparr>sm_Market = market, sm_Selections = selections, sm_Outcome = outcome, sm_Wagers = wagers,
         sm_Refs = refs, sm_WagerSettlementIDs = sids, sm_WagerEventIDs = eids, sm_SettlementID = settlementID,
         sm_Version = version, sm_Actor = actor, sm_OccurredAt = now', sm_MarketEventID = marketEventID,
         sm_Regrade = regrade, sm_DeadHeat = dh_declared deadHeat, sm_DeadHeatDivisor = dh_divisor deadHeat\<rparr>
     | Voided \<Rightarrow> VoidMarket \<lparr>vm_Market = market, vm_Wagers = wagers, vm_Refs = refs, vm_WagerSettlementIDs = sids,
         vm_WagerEventIDs = eids, vm_SettlementID = settlementID, vm_Version = version, vm_Actor = actor,
         vm_Reason = reason, vm_OccurredAt = now', vm_MarketEventID = marketEventID\<rparr>)"

definition insert_outcome :: "string \<Rightarrow> string \<Rightarrow> go_int \<Rightarrow> string \<times> settlement_result \<Rightarrow> unit cmd" where
  "insert_outcome settlementID marketID divisor = (\<lambda>(k, r). andThen (uuid_arg marketID) (\<lambda>m. andThen (uuid_arg k) (\<lambda>s db.
    if \<not> list_ex (\<lambda>q. s_MarketID (sl_Selection q) = m \<and> s_ID (sl_Selection q) = s) (db_Selections db)
      \<or> list_ex (\<lambda>q. oc_SettlementID q = settlementID \<and> oc_SelectionID q = s) (db_Outcomes db)
      \<or> r \<notin> {ResultWin, ResultLoss, ResultPush, ResultVoid} then Inl ErrDatabase
    else Inr ((), db\<lparr>db_Outcomes := db_Outcomes db @ [\<lparr>oc_SettlementID = settlementID, oc_SelectionID = s, oc_Outcome = r,
      oc_DeadHeatDivisor = (if r = ResultWin then divisor else 1)\<rparr>]\<rparr>))))"

definition persist_settlement :: "string \<Rightarrow> wager_settlement \<times> envelope \<Rightarrow> unit cmd" where
  \<comment> \<open>one round of the loop over \<open>result.Settlements\<close>\<close>
  "persist_settlement settlementID = (\<lambda>(s, e).
    andThen (insertLedgerTransaction (ws_Transaction s)) (\<lambda>transactionID.
    andThen (uuid_arg (ws_ID s)) (\<lambda>i. andThen (uuid_arg (ws_WagerID s)) (\<lambda>w.
    andThen (\<lambda>db. if list_ex (\<lambda>r. ws_ID (wt_Settlement r) = i \<or> ws_WagerID (wt_Settlement r) = w
          \<and> ws_MarketSettlementID (wt_Settlement r) = settlementID) (db_WagerSettlements db) then Inl ErrDatabase
      else Inr ((), db\<lparr>db_WagerSettlements := db_WagerSettlements db @
        [\<lparr>wt_Settlement = s\<lparr>ws_ID := i, ws_WagerID := w, ws_MarketSettlementID := settlementID\<rparr>,
          wt_TransactionID = transactionID\<rparr>]\<rparr>)) (\<lambda>_.
    andThen (exec (set_wager w (\<lambda>r. r\<lparr>wr_Wager := (wr_Wager r)\<lparr>w_State :=
      (if ws_Result s = ResultVoid then WagerVoided else WagerSettled')\<rparr>\<rparr>))) (\<lambda>_.
    publish e))))))"

definition record_resultTx ::
  "string \<Rightarrow> settlement_type \<Rightarrow> market_outcome \<Rightarrow> go_int \<Rightarrow> string \<Rightarrow> settle_market_result \<Rightarrow> settle_report cmd" where
  \<comment> \<open>\<open>settleWith\<close> from the insertion of the outcomes to the commit\<close>
  "record_resultTx marketID ty outcome version insertedID result =
    andThen (if ty = Graded then each (insert_outcome insertedID marketID (sx_DeadHeatDivisor result)) (DAList.impl_of outcome)
      else ret ()) (\<lambda>_.
    andThen (each (persist_settlement insertedID) (zip (sx_Settlements result) (sx_WagerEvents result))) (\<lambda>_.
    andThen (uuid_arg marketID) (\<lambda>m.
    andThen (exec (set_market_state m (mk_State (sx_Market result)))) (\<lambda>_.
    andThen (resolveParlayLegsTx marketID outcome (ty = Voided) parlayJuice) (\<lambda>_.
    andThen (publish (sx_MarketEvent result)) (\<lambda>_.
    ret (settle_report_of marketID insertedID version (sx_Settlements result))))))))"

definition settle_wagersTx ::
  "string \<Rightarrow> settlement_type \<Rightarrow> market_outcome \<Rightarrow> string \<Rightarrow> string \<Rightarrow> bool \<Rightarrow> dead_heat_spec \<Rightarrow> go_time \<Rightarrow> market \<Rightarrow> go_int \<Rightarrow>
     string \<Rightarrow> string \<Rightarrow> settle_report cmd" where
  \<comment> \<open>\<open>settleWith\<close> from the loading of the selections on\<close>
  "settle_wagersTx marketID ty outcome actorUserID reason regrade deadHeat now' market version settlementID insertedID =
    andThen (loadSelections marketID) (\<lambda>selections.
    andThen (loadWagersForMarketForUpdate marketID) (\<lambda>wagers.
    andThen (prepare_wagers wagers) (\<lambda>xs.
    andThen random_uuid (\<lambda>marketEventID.
    andThen (domain (settle_domain ty market selections outcome wagers xs settlementID version actorUserID reason now'
      marketEventID regrade deadHeat)) (\<lambda>result.
    record_resultTx marketID ty outcome version insertedID result)))))"

definition settleWithTx ::
  "string \<Rightarrow> settlement_type \<Rightarrow> market_outcome \<Rightarrow> string \<Rightarrow> string \<Rightarrow> string \<Rightarrow> bool \<Rightarrow> dead_heat_spec \<Rightarrow> go_time \<Rightarrow> settle_report cmd" where
  "settleWithTx marketID ty outcome actorUserID reason verifiedResultID regrade deadHeat now' =
    andThen (loadMarket marketID) (\<lambda>market0.
    andThen (if ty = Graded \<and> mk_State market0 = MarketOpen
      then andThen (closeOpenMarketTx marketID now') (\<lambda>_. ret (market0\<lparr>mk_State := MarketClosed\<rparr>)) else ret market0) (\<lambda>market.
    andThen (case validateSettleableState (mk_State market) ty regrade of Some e \<Rightarrow> throw e | None \<Rightarrow> ret ()) (\<lambda>_.
    andThen (nextSettlementVersion marketID) (\<lambda>version.
    andThen random_uuid (\<lambda>settlementID.
    andThen (if sint version > 1 then previousSettlementID marketID version else ret []) (\<lambda>supersedesID.
    andThen (insertMarketSettlement marketID settlementID version ty verifiedResultID actorUserID reason supersedesID)
      (\<lambda>(insertedID, existed).
    if existed
    then andThen (if ty = Graded then verifyOutcomeMatches insertedID outcome else ret ()) (\<lambda>_.
      query (\<lambda>db. Inr (settle_report_of marketID insertedID version
        (map wt_Settlement (filter (\<lambda>r. ws_MarketSettlementID (wt_Settlement r) = insertedID) (db_WagerSettlements db))))))
    else
    settle_wagersTx marketID ty outcome actorUserID reason regrade deadHeat now' market version settlementID insertedID)))))))"

record settle_market_request =
  rm_MarketID :: string
  rm_Outcome :: market_outcome
  rm_ActorUserID :: string
  rm_Reason :: string
  rm_VerifiedResultID :: string
  rm_DeadHeat :: bool

definition Store_SettleMarket :: "settle_market_request \<Rightarrow> go_time \<Rightarrow> book_db \<Rightarrow> (store_error + settle_report) \<times> book_db" where
  "Store_SettleMarket req now' = run_tx (settleWithTx (rm_MarketID req) Graded (rm_Outcome req) (rm_ActorUserID req)
     (rm_Reason req) (rm_VerifiedResultID req) False \<lparr>dh_declared = rm_DeadHeat req, dh_divisor = 0\<rparr> now')"

definition Store_VoidMarket :: "string \<Rightarrow> string \<Rightarrow> string \<Rightarrow> go_time \<Rightarrow> book_db \<Rightarrow> (store_error + settle_report) \<times> book_db" where
  "Store_VoidMarket marketID actorUserID reason now' = run_tx (settleWithTx marketID Voided DAList.empty actorUserID
     reason [] False \<lparr>dh_declared = False, dh_divisor = 0\<rparr> now')"

section \<open>Regrading\<close>

definition latest_graded :: "string \<Rightarrow> book_db \<Rightarrow> market_settlement_row option" where
  "latest_graded m db = (case rev (sort_key (\<lambda>r. sint (ms_Version r)) (filter (\<lambda>r. ms_Type r = ''graded'') (settlements_of m db))) of
     [] \<Rightarrow> None | r # _ \<Rightarrow> Some r)"

definition recorded_outcomes :: "string \<Rightarrow> book_db \<Rightarrow> outcome_row list" where
  "recorded_outcomes m db = (case latest_graded m db of None \<Rightarrow> []
     | Some r \<Rightarrow> filter (\<lambda>q. oc_SettlementID q = ms_ID r) (db_Outcomes db))"

definition strandedWagers :: "string \<Rightarrow> book_db \<Rightarrow> wager_row list" where
  \<comment> \<open>the accepted wagers of a settled market whose selection has a recorded outcome\<close>
  "strandedWagers m db = (case market_at m db of None \<Rightarrow> []
     | Some r \<Rightarrow> if mk_State (mr_Market r) \<noteq> MarketSettled' then []
       else filter (\<lambda>w. w_MarketID (wr_Wager w) = m \<and> w_State (wr_Wager w) = WagerAccepted'
         \<and> w_SelectionID (wr_Wager w) \<in> oc_SelectionID ` set (recorded_outcomes m db)) (db_Wagers db))"

definition RegradeStrandedWagers :: "string \<Rightarrow> string \<Rightarrow> string \<Rightarrow> go_time \<Rightarrow> book_db \<Rightarrow> (store_error + settle_report) \<times> book_db" where
  \<comment> \<open>the reads run before the transaction of \<open>settleWith\<close>\<close>
  "RegradeStrandedWagers marketID actorUserID reason now' db =
    (if \<not> isUUID marketID then (Inl (ErrBetting ErrNotFound), db)
     else if \<not> isUUID actorUserID then (Inl (ErrBetting ErrUnauthorized), db)
     else if TrimSpace reason = [] then (Inl (ErrBetting ErrReasonRequired), db)
     else case pg_uuid marketID of None \<Rightarrow> (Inl ErrDatabase, db)
     | Some m \<Rightarrow>
       if strandedWagers m db = [] then (Inl ErrNothingToRegrade, db)
       else let rows = recorded_outcomes m db; outcome = map_of_list (map (\<lambda>r. (oc_SelectionID r, oc_Outcome r)) rows);
                divisor = fold (\<lambda>r k. if sint (oc_DeadHeatDivisor r) > sint k then oc_DeadHeatDivisor r else k) rows 1
       in if map_size outcome = 0 then (Inl ErrNothingToRegrade, db)
       else run_tx (settleWithTx marketID Graded outcome actorUserID (TrimSpace reason) [] True
              \<lparr>dh_declared = sint divisor > 1, dh_divisor = divisor\<rparr> now') db)"

section \<open>Closing without action\<close>

definition CloseMarketWithoutAction :: "string \<Rightarrow> string \<Rightarrow> string \<Rightarrow> book_db \<Rightarrow> (store_error + unit) \<times> book_db" where
  "CloseMarketWithoutAction marketID actorUserID reason = run_tx (
    andThen (admin_args marketID actorUserID reason) (\<lambda>_.
    andThen (market_for_update marketID) (\<lambda>r.
    andThen (require (mk_Type (mr_Market r) \<noteq> MarketMatch) ErrMatchMarketNeedsGrading) (\<lambda>_.
    andThen (require (MarketState_CanTransitionTo (mk_State (mr_Market r)) MarketNoAction) ErrMarketNotSettleable) (\<lambda>_.
    andThen (query (\<lambda>db. if list_ex (\<lambda>w. w_MarketID (wr_Wager w) = mk_ID (mr_Market r)
        \<and> w_State (wr_Wager w) \<in> {WagerPending, WagerAccepted'}) (db_Wagers db) then Inl ErrMarketHasWagers else Inr ())) (\<lambda>_.
    andThen (move_market marketID (mk_State (mr_Market r)) MarketNoAction) (\<lambda>_.
    audit actorUserID ''market.closed_no_action'' marketID (TrimSpace reason))))))))"

end
