(* ===== verification/Book_Matches.thy ===== *)
theory Book_Matches
  imports Book_Markets
begin

text \<open>
  \<open>internal/bettingpg/mapping.go\<close> and \<open>match_settlement.go\<close>: the settlement of the markets of a match from its
  verified result. \<open>SettleMatchMarkets\<close> is not one transaction: every market is closed and settled in transactions
  of its own, and an error stops the loop after the markets before it have been settled. \<open>now'\<close> stands for the
  clock readings of the calls.
\<close>

definition sideSemanticKeyPrefix :: string where
  "sideSemanticKeyPrefix = ''side:''"

definition tieSemanticKey :: string where
  "tieSemanticKey = ''tie''"

definition sideSemanticKey :: "string \<Rightarrow> string" where
  "sideSemanticKey sideID = sideSemanticKeyPrefix @ sideID"

definition HasPrefix :: "string \<Rightarrow> string \<Rightarrow> bool" where
  "HasPrefix s p \<longleftrightarrow> take (length p) s = p"

definition unrecognized_key :: "string \<Rightarrow> bool" where
  "unrecognized_key key \<longleftrightarrow> (let k = TrimSpace key in k = [] \<or> k \<noteq> tieSemanticKey \<and> \<not> HasPrefix k sideSemanticKeyPrefix)"

definition map_results :: "(string \<Rightarrow> settlement_result) \<Rightarrow> (string, string) go_map \<Rightarrow> (string, settlement_result) go_map" where
  \<comment> \<open>\<open>for id, key := range selections { result[id] = \<dots> }\<close>\<close>
  "map_results f selections = map_of_list (map (\<lambda>(i, key). (i, f key)) (DAList.impl_of selections))"

definition buildMatchOutcome ::
  "(string, string) go_map \<Rightarrow> string \<Rightarrow> string \<Rightarrow> (string, settlement_result) go_map option" where
  "buildMatchOutcome selections outcome winningSideID =
    (if map_size selections = 0 then None
     else if list_ex unrecognized_key (map_values selections) then None
     else if outcome = ''side_win''
     then Some (map_results (\<lambda>key. if key = sideSemanticKey winningSideID then ResultWin else ResultLoss) selections)
     else if outcome = ''tie''
     then let hasTieSelection = tieSemanticKey \<in> set (map_values selections)
       in Some (map_results (\<lambda>key. if \<not> hasTieSelection then ResultPush
            else if key = tieSemanticKey then ResultWin else ResultLoss) selections)
     else None)"

record match_settle_report =
  xr_MatchID :: string
  xr_Settled :: "string list"
  xr_Skipped :: "string list"

definition matchMarketsToSettle :: "string \<Rightarrow> book_db \<Rightarrow> store_error + (string \<times> market_state) list" where
  "matchMarketsToSettle matchID db = (case pg_uuid matchID of None \<Rightarrow> Inl ErrDatabase
    | Some i \<Rightarrow> Inr (map (\<lambda>r. (mk_ID (mr_Market r), mk_State (mr_Market r)))
        (sort_key (mk_ID \<circ> mr_Market) (filter (\<lambda>r. mk_MatchID (mr_Market r) = i \<and> mk_Type (mr_Market r) = MarketMatch
          \<and> mk_State (mr_Market r) \<in> {MarketOpen, MarketClosed, MarketSettlementPending}) (db_Markets db)))))"

definition selectionSemanticKeys :: "string \<Rightarrow> book_db \<Rightarrow> store_error + (string, string) go_map" where
  "selectionSemanticKeys marketID db = (case pg_uuid marketID of None \<Rightarrow> Inl ErrDatabase
    | Some m \<Rightarrow> Inr (map_of_list (map (\<lambda>r. (s_ID (sl_Selection r), s_SemanticResultKey (sl_Selection r)))
        (filter (\<lambda>r. s_MarketID (sl_Selection r) = m) (db_Selections db)))))"

definition auto_close :: "string \<times> market_state \<Rightarrow> go_time \<Rightarrow> book_db \<Rightarrow> (store_error + unit) \<times> book_db" where
  "auto_close = (\<lambda>(marketID, state) now' db.
    if state = MarketOpen then Store_CloseMarket marketID now' db else (Inr (), db))"

fun settle_match_markets ::
  "string \<Rightarrow> string \<Rightarrow> string \<Rightarrow> string \<Rightarrow> go_time \<Rightarrow> (string \<times> market_state) list \<Rightarrow> match_settle_report \<Rightarrow> book_db \<Rightarrow>
     (match_settle_report \<times> store_error option) \<times> book_db" where
  \<comment> \<open>the loop over the markets\<close>
  "settle_match_markets outcome winningSideID verifiedResultID actor now' [] report db = ((report, None), db)"
| "settle_match_markets outcome winningSideID verifiedResultID actor now' (m # ms) report db =
    (case auto_close m now' db of (Inl e, db1) \<Rightarrow> ((report, Some e), db1)
     | (Inr _, db1) \<Rightarrow>
       (case selectionSemanticKeys (fst m) db1 of Inl e \<Rightarrow> ((report, Some e), db1)
        | Inr keys \<Rightarrow>
          (case buildMatchOutcome keys outcome winningSideID of
             None \<Rightarrow> settle_match_markets outcome winningSideID verifiedResultID actor now' ms
               (report\<lparr>xr_Skipped := xr_Skipped report @ [fst m]\<rparr>) db1
           | Some marketOutcome \<Rightarrow>
             (case Store_SettleMarket \<lparr>rm_MarketID = fst m, rm_Outcome = marketOutcome, rm_ActorUserID = actor,
                 rm_Reason = ''match result verified'', rm_VerifiedResultID = verifiedResultID, rm_DeadHeat = False\<rparr> now' db1 of
                (Inl e, db2) \<Rightarrow> ((report, Some e), db2)
              | (Inr _, db2) \<Rightarrow> settle_match_markets outcome winningSideID verifiedResultID actor now' ms
                  (report\<lparr>xr_Settled := xr_Settled report @ [fst m]\<rparr>) db2))))"

definition SettleMatchMarkets ::
  "string \<Rightarrow> string \<Rightarrow> string \<Rightarrow> string \<Rightarrow> string \<Rightarrow> go_time \<Rightarrow> book_db \<Rightarrow>
     (match_settle_report \<times> store_error option) \<times> book_db" where
  "SettleMatchMarkets matchID outcome winningSideID verifiedResultID actor now' db =
    (let report = \<lparr>xr_MatchID = matchID, xr_Settled = [], xr_Skipped = []\<rparr>
     in case matchMarketsToSettle matchID db of Inl e \<Rightarrow> ((report, Some e), db)
      | Inr ms \<Rightarrow> settle_match_markets outcome winningSideID verifiedResultID actor now' ms report db)"

end
