(* ===== verification/Book_Frames.thy ===== *)
theory Book_Frames
  imports Book_Matches
begin

text \<open>
  What the commands of the book leave alone: the locale \<open>command_relation\<close> extends \<open>tx_relation\<close> by the statements of
  the book that only read, \<open>command_view\<close> by those that write what a projection of the database does not see. They
  are interpreted on the views of the database that the invariants of \<open>Book_Escrow\<close> and \<open>Book_Board\<close> read.
\<close>

section \<open>Relations along a command\<close>

locale command_relation = tx_relation R for R :: "book_db \<Rightarrow> book_db \<Rightarrow> bool"
begin

lemma keeps_domain [keeps_rules]: "keeps R (domain d)"
  by (auto simp: keeps_def cmd_simps R_refl)

lemma keeps_uuid_arg [keeps_rules]: "keeps R (uuid_arg s)"
  by (auto simp: keeps_def cmd_simps R_refl)

lemma loads [keeps_rules]:
  "keeps R (loadMarket i)" "keeps R (marketStateForWager i)" "keeps R (loadSelection i j)" "keeps R (loadSelections i)"
  "keeps R (loadRestrictions i)" "keeps R (loadWagerForUpdate i)" "keeps R (loadWagersForMarketForUpdate i)"
  "keeps R (loadStakeLimits i j k)" "keeps R (loadWagerByUserIdempotencyKey i k)" "keeps R (new_money x c)"
  "keeps R (accountBalance i)" "keeps R (creditLimitForUser i)" "keeps R (reducedCents w)" "keeps R (verifyAcceptance w)"
  "keeps R (stored_reason i)" "keeps R (lockSelectionsForPricing i)" "keeps R (acceptedStakeBySelection i)"
  "keeps R (admin_args i j k)" "keeps R (market_for_update i)" "keeps R (priceable r)" "keeps R (loadParlay i)"
  "keeps R (loadAdjustmentTransaction i)" "keeps R (nextSettlementVersion i)" "keeps R (previousSettlementID i v)"
  "keeps R (verifyOutcomeMatches i outcome)" "keeps R (validateMatchMarketMapping i j ss)"
  unfolding loadMarket_def marketStateForWager_def loadSelection_def loadSelections_def loadRestrictions_def
    loadWagerForUpdate_def loadWagersForMarketForUpdate_def loadStakeLimits_def limit_and_existing_def
    loadWagerByUserIdempotencyKey_def new_money_def accountBalance_def creditLimitForUser_def reducedCents_def
    verifyAcceptance_def stored_reason_def lockSelectionsForPricing_def acceptedStakeBySelection_def admin_args_def
    market_for_update_def priceable_def loadParlay_def loadAdjustmentTransaction_def nextSettlementVersion_def
    previousSettlementID_def verifyOutcomeMatches_def validateMatchMarketMapping_def
  by (intro keeps_rules)+

lemma keeps_load_legs [keeps_rules]: "keeps R (load_legs legs)"
  by (induction legs rule: load_legs.induct) (auto intro!: keeps_rules)

lemma keeps_price_parlay [keeps_rules]: "keeps R (price_parlay mp req t)"
  unfolding price_parlay_def by (intro keeps_rules)

end

section \<open>Statements away from the money and the states\<close>

text \<open>A view that reads neither the board nor the records that only document a change.\<close>

locale command_view =
  fixes v :: "book_db \<Rightarrow> 'v"
  assumes v_other [simp]:
    "v (db\<lparr>db_Draws := draws\<rparr>) = v db" "v (db\<lparr>db_Outbox := outbox\<rparr>) = v db" "v (db\<lparr>db_Audit := entries\<rparr>) = v db"
    "v (db\<lparr>db_Selections := selections\<rparr>) = v db" "v (db\<lparr>db_PriceChanges := changes\<rparr>) = v db"
    "v (db\<lparr>db_Restrictions := restrictions\<rparr>) = v db" "v (db\<lparr>db_MarketSettlements := settlements\<rparr>) = v db"
    "v (db\<lparr>db_Outcomes := outcomes\<rparr>) = v db" "v (db\<lparr>db_WagerSettlements := ws\<rparr>) = v db"
    "v (db\<lparr>db_ParlaySettlements := ps\<rparr>) = v db"
begin

sublocale command_relation "\<lambda>db db'. v db' = v db"
  by unfold_locales simp_all

abbreviation unseen :: "'a cmd \<Rightarrow> bool" where
  "unseen m \<equiv> keeps (\<lambda>db db'. v db' = v db) m"

lemma unseen_random [keeps_rules]: "unseen random_uuid"
  by (rule keepsI) (auto simp: random_uuid_def split: option.splits)

lemma unseen_publish [keeps_rules]: "unseen (publish e)"
  by (rule keepsI) (auto simp: publish_def split: prod.splits option.splits)

lemma unseen_audit [keeps_rules]: "unseen (audit a b c d)"
  by (rule keepsI) (auto simp: audit_def cmd_simps split: if_splits)

lemma unseen_market_event [keeps_rules]: "unseen (publishMarketEvent ty m p t)"
  unfolding publishMarketEvent_def by (intro keeps_rules)

lemma unseen_change_price [keeps_rules]: "unseen (change_price m mv stakes x)"
  by (cases "null_uuid (mv_TriggerWagerID mv)"; cases "null_uuid (mv_ActorUserID mv)"; rule keepsI)
    (auto simp: change_price_def cmd_simps set_offered_def split: if_split_asm prod.split_asm)

lemma unseen_reprice [keeps_rules]: "unseen (repriceInTx exp64 m mv)" "unseen (repriceMarketTx exp64 m t)"
  unfolding repriceInTx_def repriceMarketTx_def by (intro keeps_rules)+

lemma unseen_update_selection [keeps_rules]: "unseen (update_selection m s f)"
  by (rule keepsI) (auto simp: update_selection_def cmd_simps split: if_splits)

lemma unseen_build_selections [keeps_rules]: "unseen (build_selections m qs seen)"
  by (induction qs arbitrary: seen) (auto simp: Let_def intro!: keeps_rules)

lemma unseen_insert_selection [keeps_rules]: "unseen (insert_selection x)"
  by (rule keepsI) (auto simp: insert_selection_def cmd_simps split: if_splits prod.splits)

lemma unseen_insert_settlement [keeps_rules]: "unseen (insertMarketSettlement m i n ty verified a b supersedes)"
  by (cases "null_uuid verified"; cases "null_uuid supersedes"; rule keepsI)
    (auto simp: insertMarketSettlement_def cmd_simps Let_def split: if_split_asm option.split_asm)

lemma unseen_insert_outcome [keeps_rules]: "unseen (insert_outcome i m d x)"
  by (rule keepsI) (auto simp: insert_outcome_def cmd_simps split: if_splits prod.splits)

lemma unseen_lines:
  "v (snd (RepriceMarketAfterWager exp64 m t db)) = v db"
  "v (snd (SetOpeningLine exp64 m s odds a reason db)) = v db"
  "v (snd (SetTotalSideCap m s cap a reason db)) = v db"
  unfolding RepriceMarketAfterWager_def SetOpeningLine_def SetTotalSideCap_def
  by (intro run_tx_keeps keeps_rules)+

lemma unseen_restrictions:
  "v (snd (RestrictMember m u s reason a db)) = v db" "v (snd (LiftRestriction m u s db)) = v db"
  unfolding RestrictMember_def LiftRestriction_def
  by ((rule run_tx_keeps, intro keeps_rules, rule keepsI, auto simp: Let_def split: option.splits if_splits)[])+

end

section \<open>The money and the board\<close>

definition money_view :: "book_db \<Rightarrow> account_row list \<times> transaction_row list \<times> wager list \<times> parlay list" where
  "money_view db = (db_Accounts db, db_Transactions db, map wr_Wager (db_Wagers db), map py_Parlay (db_Parlays db))"

definition board_view :: "book_db \<Rightarrow> (string \<times> market_type \<times> market_state) list \<times> wager list \<times> parlay list" where
  "board_view db = (map (\<lambda>r. (mk_ID (mr_Market r), mk_Type (mr_Market r), mk_State (mr_Market r))) (db_Markets db),
     map wr_Wager (db_Wagers db), map py_Parlay (db_Parlays db))"

interpretation money: command_view money_view
  by unfold_locales (simp_all add: money_view_def)

interpretation board: command_view board_view
  by unfold_locales (simp_all add: board_view_def)

lemma money_markets [simp]: "money_view (db\<lparr>db_Markets := ms\<rparr>) = money_view db"
  by (simp add: money_view_def)

lemma board_ledger [simp]:
  "board_view (db\<lparr>db_Accounts := as\<rparr>) = board_view db" "board_view (db\<lparr>db_Transactions := ts\<rparr>) = board_view db"
  by (simp_all add: board_view_def)

lemma money_market_statements [keeps_rules]:
  "money.unseen (move_market m s t)" "money.unseen (update_market m f)" "money.unseen (insert_market mk req)"
  "money.unseen (exec (set_market_state m s))"
  subgoal by (rule keepsI) (auto simp: move_market_def set_market_state_def cmd_simps split: option.split_asm if_split_asm)
  subgoal by (rule keepsI) (auto simp: update_market_def cmd_simps)
  subgoal by (cases "null_uuid (mk_MatchID mk)"; rule keepsI)
      (auto simp: insert_market_def cmd_simps split: if_split_asm)
  subgoal by (rule keepsI) (auto simp: set_market_state_def cmd_simps)
  done

lemma money_close [keeps_rules]: "money.unseen (closeOpenMarketTx m t)" "money.unseen (closeMarketTx m t)"
  unfolding closeOpenMarketTx_def closeMarketTx_def by (intro keeps_rules)+

lemma money_create [keeps_rules]: "money.unseen (createMarketTx req t)"
  unfolding createMarketTx_def by (intro keeps_rules)

lemma money_market_operations:
  "money_view (snd (Store_CloseMarket m t db)) = money_view db"
  "money_view (snd (Store_OpenMarket m a t db)) = money_view db"
  "money_view (snd (Store_CreateMarket req t db)) = money_view db"
  "money_view (snd (SetMarketCloseTime m c a reason t db)) = money_view db"
  "money_view (snd (SetStakeLimit m s limit a reason db)) = money_view db"
  "money_view (snd (CloseMarketWithoutAction m a reason db)) = money_view db"
  unfolding Store_CloseMarket_def Store_OpenMarket_def Store_CreateMarket_def SetMarketCloseTime_def SetStakeLimit_def
    CloseMarketWithoutAction_def
  by (intro money.run_tx_keeps keeps_rules)+

lemma board_ledger_statements [keeps_rules]:
  "board.unseen (insert_account i ty c)" "board.unseen (upsert_account i ty c)" "board.unseen (ensureUserAccount i f c)"
  "board.unseen (ensureSystemAccount ty c)" "board.unseen (insertLedgerTransaction t)"
proof -
  show insert: "board.unseen (insert_account i ty c)" for i ty c
    by (rule keepsI) (auto simp: insert_account_def random_uuid_def cmd_simps split: if_splits option.splits)
  show upsert: "board.unseen (upsert_account i ty c)" for i ty c
    by (rule keepsI) (auto simp: upsert_account_def dest: keepsD [OF insert] split: option.splits)
  show "board.unseen (ensureUserAccount i f c)" for i f c
    by (rule keepsI) (auto simp: ensureUserAccount_def cmd_simps dest: keepsD [OF upsert] split: if_splits)
  show "board.unseen (ensureSystemAccount ty c)" for ty c
    unfolding ensureSystemAccount_def by (rule upsert)
  show "board.unseen (insertLedgerTransaction t)" for t
    by (rule keepsI)
      (auto simp: insertLedgerTransaction_def Let_def random_uuid_def cmd_simps split: if_splits option.splits)
qed

lemma board_open_accounts [keeps_rules]: "board.unseen (open_accounts u f c)"
  unfolding open_accounts_def by (intro keeps_rules)

lemma board_prepare [keeps_rules]: "board.unseen (prepare_wagers ws)"
  by (induction ws) (auto intro!: keeps_rules)

lemma board_settling_up:
  "board_view (snd (RecordSettlement req t db)) = board_view db"
  "board_view (snd (ReverseSettlement i a reason db)) = board_view db"
  unfolding RecordSettlement_def ReverseSettlement_def postSettlementTx_def postReversalTx_def by (intro board.run_tx_keeps keeps_rules)+

end
