(* ===== verification/Book_Ledger.thy ===== *)
theory Book_Ledger
  imports Book_Frames
begin

text \<open>
  Identifiers, accounts and the ledger of the book. A stored identifier is canonical: the cast to \<open>uuid\<close> and
  \<open>strings.TrimSpace\<close> leave it alone. \<open>money_ok\<close> is what every reachable database keeps of its accounts, its
  transactions and the keys and stakes of its wagers and parlays; \<open>escrow_total\<close> is the balance of the escrow
  accounts of a currency, \<open>stakes_held\<close> what the accepted wagers and parlays in that currency have staked.
\<close>

section \<open>Canonical identifiers\<close>

definition canonical :: "string \<Rightarrow> bool" where
  "canonical i \<longleftrightarrow> pg_uuid i = Some i"

lemma pg_uuid_canonical: "pg_uuid s = Some i \<Longrightarrow> canonical i"
  unfolding canonical_def by (rule pg_uuid_idem)

lemma canonical_shape:
  assumes "canonical i"
  shows "length i = 36" "is_hex (hd i)" "is_hex (last i)"
proof -
  have shape: "length i = 36 \<and> (\<forall>k < 36. if k \<in> {8, 13, 18, 23} then i ! k = CHR ''-'' else is_hex (i ! k))"
    using assms unfolding canonical_def pg_uuid_def by (simp only: option.distinct split: if_splits) blast
  then show "length i = 36" by blast
  then have "i \<noteq> []" "length i - 1 = 35" by auto
  then have "hd i = i ! 0" "last i = i ! 35" using hd_conv_nth [of i] last_conv_nth [of i] by simp_all
  moreover have "is_hex (i ! 0)" using shape [THEN conjunct2, rule_format, of 0] by simp
  moreover have "is_hex (i ! 35)" using shape [THEN conjunct2, rule_format, of 35] by simp
  ultimately show "is_hex (hd i)" "is_hex (last i)" by simp_all
qed

lemma space_runes_not_hex: "\<forall>p \<in> set space_runes. p \<noteq> [] \<and> \<not> is_hex (hd p) \<and> \<not> is_hex (last p)"
  by (simp add: space_runes_def is_hex_def between_def byte_def)

lemma TrimSpace_canonical: "canonical i \<Longrightarrow> TrimSpace i = i"
proof (rule TrimSpace_plain)
  assume i: "canonical i"
  show "strip_one space_runes i = None"
  proof (rule ccontr)
    assume "strip_one space_runes i \<noteq> None"
    then obtain p t where "p \<in> set space_runes" "p \<noteq> []" "i = p @ t" by (auto dest: strip_one_in)
    with canonical_shape(2) [OF i] space_runes_not_hex show False by auto
  qed
  show "strip_one (map rev space_runes) (rev i) = None"
  proof (rule ccontr)
    assume "strip_one (map rev space_runes) (rev i) \<noteq> None"
    then obtain p t where p: "p \<in> set space_runes" "p \<noteq> []" "rev i = rev p @ t"
      using strip_one_in [of "map rev space_runes" "rev i"] by auto
    then have "i = rev t @ p" by (metis rev_append rev_rev_ident)
    with p(1,2) canonical_shape(3) [OF i] space_runes_not_hex show False by auto
  qed
qed

lemma pg_uuid_parts:
  assumes "length a = 8" "length b = 4" "length c = 4" "length d = 4" "length e = 12"
    and "\<forall>x \<in> set (a @ b @ c @ d @ e). is_hex x \<and> hex_lower x = x"
  shows "canonical (a @ ''-'' @ b @ ''-'' @ c @ ''-'' @ d @ ''-'' @ e)" (is "canonical ?s")
proof -
  have hex: "is_hex (x ! k)" if "x \<in> {a, b, c, d, e}" "k < length x" for x k using that assms(6) by auto
  have shape: "length ?s = 36 \<and> (\<forall>k < 36. if k \<in> {8, 13, 18, 23} then ?s ! k = CHR ''-'' else is_hex (?s ! k))"
    using assms(1-5) by (auto simp: nth_append nth_Cons' intro!: hex)
  have "map hex_lower ?s = ?s"
    using assms(6) hex_lower_facts(3) by (auto intro!: map_idI)
  then show ?thesis unfolding canonical_def pg_uuid_def if_P [OF shape] by (intro arg_cong [of _ _ Some])
qed

lemma hex_digit_lower: "n < 16 \<Longrightarrow> hex_lower (hex_digit n) = hex_digit n"
proof -
  assume "n < 16"
  then have "hex_digit n \<in> set ''0123456789abcdef''"
    unfolding hex_digit_def by (intro nth_mem) simp
  moreover have "\<forall>c \<in> set ''0123456789abcdef''. hex_lower c = c"
    by (simp add: hex_lower_def is_upper_def between_def byte_def)
  ultimately show ?thesis by blast
qed

lemma hex_bytes_lower: "\<forall>x \<in> set (concat (map (\<lambda>b. hex_byte (unat (b :: 8 word))) bs)). is_hex x \<and> hex_lower x = x"
proof -
  have "unat b < 256" for b :: "8 word" using unsigned_less [of b] by simp
  then have "unat b div 16 < 16" for b :: "8 word" using div_less_iff_less_mult [of 16 "unat b" 16] by simp
  then show ?thesis by (auto simp: hex_byte_def hex_digit_lower hex_digit_is_hex)
qed

lemma NewEventID_canonical:
  assumes "length buf = 16" "NewEventID (Some buf) = Some i"
  shows "canonical i"
proof -
  obtain buf' :: "8 word list" where len: "length buf' = 16" and
    i: "i = (let h = (\<lambda>i j. concat (map (\<lambda>b. hex_byte (unat b)) (take (j - i) (drop i buf'))))
         in h 0 4 @ ''-'' @ h 4 6 @ ''-'' @ h 6 8 @ ''-'' @ h 8 10 @ ''-'' @ h 10 16)"
  proof -
    define b where "b = buf[6 := or (and (buf ! 6) 0x0f) 0x40]"
    have "length (b[8 := or (and (b ! 8) 0x3f) 0x80]) = 16" using assms(1) by (simp add: b_def)
    moreover have "i = (let h = (\<lambda>i j. concat (map (\<lambda>c. hex_byte (unat c)) (take (j - i) (drop i (b[8 := or (and (b ! 8) 0x3f) 0x80])))))
         in h 0 4 @ ''-'' @ h 4 6 @ ''-'' @ h 6 8 @ ''-'' @ h 8 10 @ ''-'' @ h 10 16)"
      using assms(2) by (simp add: NewEventID_def Let_def b_def)
    ultimately show thesis by (rule that)
  qed
  show ?thesis unfolding i Let_def
    by (rule pg_uuid_parts) (use hex_bytes_lower in \<open>auto simp: hex_bytes(3) len\<close>)
qed

lemma random_uuid_Inr:
  assumes "random_uuid db = Inr (i, db')"
  shows "canonical i" "db' = db\<lparr>db_Draws := Suc (db_Draws db)\<rparr>"
proof -
  from assms have e: "NewEventID (Some (map (db_Random db (db_Draws db)) [0..<16])) = Some i"
    and "db' = db\<lparr>db_Draws := Suc (db_Draws db)\<rparr>"
    by (auto simp: random_uuid_def split: option.splits)
  then show "db' = db\<lparr>db_Draws := Suc (db_Draws db)\<rparr>" by simp
  show "canonical i" by (rule NewEventID_canonical [OF _ e]) simp
qed

section \<open>Balances and stakes\<close>

definition escrow_ids :: "book_db \<Rightarrow> currency \<Rightarrow> string set" where
  "escrow_ids db c = la_ID ` set (filter (\<lambda>a. la_Type a = ''wager_escrow'' \<and> la_Currency a = c) (db_Accounts db))"

definition other_ids :: "book_db \<Rightarrow> string set" where
  "other_ids db = la_ID ` set (filter (\<lambda>a. la_Type a \<noteq> ''wager_escrow'') (db_Accounts db))"

definition escrow_total :: "book_db \<Rightarrow> currency \<Rightarrow> int" where
  "escrow_total db c = (\<Sum>r\<leftarrow>db_Transactions db.
     posted_sum (filter (\<lambda>p. p_AccountID p \<in> escrow_ids db c) (t_Postings (lt_Transaction r))))"

definition wager_held :: "currency \<Rightarrow> wager \<Rightarrow> int" where
  "wager_held c w = (if w_State w = WagerAccepted' \<and> m_Currency (w_Stake w) = c then cents (w_Stake w) else 0)"

definition parlay_held :: "currency \<Rightarrow> parlay \<Rightarrow> int" where
  "parlay_held c p = (if pa_State p = WagerAccepted' \<and> m_Currency (pa_Stake p) = c then cents (pa_Stake p) else 0)"

definition stakes_held :: "book_db \<Rightarrow> currency \<Rightarrow> int" where
  "stakes_held db c = (\<Sum>w\<leftarrow>map wr_Wager (db_Wagers db). wager_held c w) + (\<Sum>p\<leftarrow>map py_Parlay (db_Parlays db). parlay_held c p)"

definition accounts_ok :: "book_db \<Rightarrow> bool" where
  "accounts_ok db \<longleftrightarrow> distinct (map la_ID (db_Accounts db)) \<and> (\<forall>a \<in> set (db_Accounts db). canonical (la_ID a))"

definition ledger_ok :: "book_db \<Rightarrow> bool" where
  \<comment> \<open>postings are on accounts, and money that changed hands outside the app is never on escrow\<close>
  "ledger_ok db \<longleftrightarrow> (\<forall>r \<in> set (db_Transactions db). \<forall>p \<in> set (t_Postings (lt_Transaction r)).
     p_AccountID p \<in> la_ID ` set (db_Accounts db)
     \<and> (t_Type (lt_Transaction r) = TransactionAdminAdjustment \<longrightarrow> p_AccountID p \<in> other_ids db))"

definition wagers_ok :: "wager list \<Rightarrow> bool" where
  "wagers_ok ws \<longleftrightarrow> distinct (map w_ID ws) \<and> (\<forall>w \<in> set ws. canonical (w_ID w) \<and> 0 < cents (w_Stake w))"

definition parlays_ok :: "parlay list \<Rightarrow> bool" where
  "parlays_ok ps \<longleftrightarrow> distinct (map pa_ID ps) \<and> (\<forall>p \<in> set ps. canonical (pa_ID p) \<and> 0 < cents (pa_Stake p))"

definition money_ok :: "book_db \<Rightarrow> bool" where
  "money_ok db \<longleftrightarrow> accounts_ok db \<and> ledger_ok db \<and> wagers_ok (map wr_Wager (db_Wagers db))
     \<and> parlays_ok (map py_Parlay (db_Parlays db))"

lemma money_view_eq:
  assumes "money_view db' = money_view db"
  shows "money_ok db' = money_ok db" "escrow_total db' c = escrow_total db c" "stakes_held db' c = stakes_held db c"
    "db_Accounts db' = db_Accounts db" "db_Transactions db' = db_Transactions db"
    "map wr_Wager (db_Wagers db') = map wr_Wager (db_Wagers db)" "map py_Parlay (db_Parlays db') = map py_Parlay (db_Parlays db)"
  using assms
  by (simp_all add: money_view_def money_ok_def accounts_ok_def ledger_ok_def other_ids_def escrow_total_def escrow_ids_def stakes_held_def)

section \<open>Commands that keep the book balanced\<close>

definition balanced :: "book_db \<Rightarrow> book_db \<Rightarrow> bool" where
  "balanced db db' \<longleftrightarrow> (money_ok db \<longrightarrow> money_ok db'
     \<and> (\<forall>c. escrow_total db' c - stakes_held db' c = escrow_total db c - stakes_held db c))"

lemma balanced_if_ok: "(money_ok db \<Longrightarrow> balanced db db') \<Longrightarrow> balanced db db'"
  by (auto simp: balanced_def)

interpretation balanced: command_relation balanced
  by unfold_locales (simp_all add: balanced_def)

definition opens :: "book_db \<Rightarrow> book_db \<Rightarrow> bool" where
  \<comment> \<open>at most new accounts, and nothing posted on them yet\<close>
  "opens db db' \<longleftrightarrow> (\<exists>as. db_Accounts db' = db_Accounts db @ as) \<and> db_Transactions db' = db_Transactions db
     \<and> map wr_Wager (db_Wagers db') = map wr_Wager (db_Wagers db) \<and> map py_Parlay (db_Parlays db') = map py_Parlay (db_Parlays db)
     \<and> (money_ok db \<longrightarrow> money_ok db' \<and> (\<forall>c. escrow_total db' c = escrow_total db c))"

interpretation opens: command_relation opens
  by unfold_locales (auto simp: opens_def)

lemma opens_held: "opens db db' \<Longrightarrow> stakes_held db' c = stakes_held db c"
  by (simp add: opens_def stakes_held_def)

lemma opens_accounts: "opens db db' \<Longrightarrow> set (db_Accounts db) \<subseteq> set (db_Accounts db')"
  by (auto simp: opens_def)

lemma opens_ids: "opens db db' \<Longrightarrow> i \<in> escrow_ids db c \<Longrightarrow> i \<in> escrow_ids db' c"
  "opens db db' \<Longrightarrow> i \<in> other_ids db \<Longrightarrow> i \<in> other_ids db'"
  using opens_accounts by (fastforce simp: escrow_ids_def other_ids_def)+

lemma opens_balanced: "opens db db' \<Longrightarrow> balanced db db'"
  by (auto simp: balanced_def opens_held) (auto simp: opens_def)

lemma same_opens: "money_view db' = money_view db \<Longrightarrow> opens db db'"
  using money_view_eq [of db' db] by (simp add: opens_def)

lemma unseen_opens: "money.unseen m \<Longrightarrow> keeps opens m"
  by (erule keeps_mono) (rule same_opens)

lemma opens_statements [keeps_rules]:
  "keeps opens random_uuid" "keeps opens (publish e)" "keeps opens (audit a b c d)" "keeps opens (publishMarketEvent ty m p t)"
  "keeps opens (closeOpenMarketTx m t)" "keeps opens (insertMarketSettlement m i version kind r x y z)"
  "keeps opens (insert_outcome i m divisor o')" "keeps opens (move_market m s u)" "keeps opens (exec (set_market_state m s) :: unit cmd)"
  by (intro unseen_opens keeps_rules)+

lemma new_account:
  assumes "money_ok db" "i \<notin> la_ID ` set (db_Accounts db)" "canonical i" "la_ID a = i"
    and "db' = db\<lparr>db_Draws := n, db_Accounts := db_Accounts db @ [a]\<rparr>"
  shows "money_ok db'" "escrow_total db' c = escrow_total db c"
proof -
  from assms(1) have old: "p_AccountID p \<noteq> i" if "r \<in> set (db_Transactions db)" "p \<in> set (t_Postings (lt_Transaction r))" for r p
    using that assms(2) by (auto simp: money_ok_def ledger_ok_def)
  have "posted_sum (filter (\<lambda>p. p_AccountID p \<in> escrow_ids db' c) (t_Postings (lt_Transaction r)))
      = posted_sum (filter (\<lambda>p. p_AccountID p \<in> escrow_ids db c) (t_Postings (lt_Transaction r)))"
    if "r \<in> set (db_Transactions db)" for r
    using old [OF that] assms(4,5) by (intro arg_cong [of _ _ posted_sum] filter_cong) (auto simp: escrow_ids_def)
  then show "escrow_total db' c = escrow_total db c"
    unfolding escrow_total_def using assms(5) by (intro arg_cong [of _ _ sum_list]) (auto intro!: map_cong)
  show "money_ok db'"
    using assms by (auto simp: money_ok_def accounts_ok_def ledger_ok_def other_ids_def)
qed

lemma insert_account_Inr:
  assumes "insert_account owner ty c db = Inr (i, db')"
  shows "opens db db'" "\<exists>a \<in> set (db_Accounts db'). la_ID a = i \<and> la_Type a = ty \<and> la_Currency a = c"
proof -
  obtain db1 where r: "random_uuid db = Inr (i, db1)" and "i \<notin> la_ID ` set (db_Accounts db1)"
    and "db' = db1\<lparr>db_Accounts := db_Accounts db1 @ [\<lparr>la_ID = i, la_Owner = owner, la_Type = ty, la_Currency = c\<rparr>]\<rparr>"
    using assms by (auto simp: insert_account_def cmd_simps split: if_splits)
  with random_uuid_Inr [OF r] have i: "canonical i" "i \<notin> la_ID ` set (db_Accounts db)" and
    db': "db' = db\<lparr>db_Draws := Suc (db_Draws db), db_Accounts := db_Accounts db @ [\<lparr>la_ID = i, la_Owner = owner, la_Type = ty, la_Currency = c\<rparr>]\<rparr>"
    by simp_all
  show "opens db db'"
    using new_account [OF _ i(2,1) _ db'] by (auto simp: opens_def) (auto simp: db')
  show "\<exists>a \<in> set (db_Accounts db'). la_ID a = i \<and> la_Type a = ty \<and> la_Currency a = c"
    by (simp add: db')
qed

lemma find_SomeD: "List.find P xs = Some x \<Longrightarrow> x \<in> set xs \<and> P x"
  by (induction xs) (auto split: if_splits)

lemma upsert_account_Inr:
  assumes "upsert_account owner ty c db = Inr (i, db')"
  shows "opens db db'" "\<exists>a \<in> set (db_Accounts db'). la_ID a = i \<and> la_Type a = ty \<and> la_Currency a = c"
proof -
  have "opens db db' \<and> (\<exists>a \<in> set (db_Accounts db'). la_ID a = i \<and> la_Type a = ty \<and> la_Currency a = c)"
  proof (cases "find_account owner ty c db")
    case None
    with assms have "insert_account owner ty c db = Inr (i, db')" by (simp add: upsert_account_def)
    from insert_account_Inr [OF this] show ?thesis by blast
  next
    case (Some a)
    with assms have "i = la_ID a" "db' = db" by (simp_all add: upsert_account_def)
    with find_SomeD [OF Some [unfolded find_account_def]] opens.R_refl show ?thesis by blast
  qed
  then show "opens db db'" "\<exists>a \<in> set (db_Accounts db'). la_ID a = i \<and> la_Type a = ty \<and> la_Currency a = c"
    by - (erule conjunct1, erule conjunct2)
qed

lemma ensureUserAccount_Inr:
  assumes "ensureUserAccount u f c db = Inr (i, db')"
  shows "opens db db'" "i \<in> other_ids db'"
proof -
  obtain o' where "upsert_account o' (funding_string f) c db = Inr (i, db')" "funding_string f \<noteq> ''wager_escrow''"
    using assms by (auto simp: ensureUserAccount_def cmd_simps split: if_splits)
  with upsert_account_Inr [OF this(1)] show "opens db db'" "i \<in> other_ids db'" by (auto simp: other_ids_def)
qed

lemma ensureSystemAccount_Inr:
  assumes "ensureSystemAccount ty c db = Inr (i, db')"
  shows "opens db db'" "ty = ''wager_escrow'' \<Longrightarrow> i \<in> escrow_ids db' c" "ty = ''house_clearing'' \<Longrightarrow> i \<in> other_ids db'"
  using upsert_account_Inr [OF assms [unfolded ensureSystemAccount_def]] by (auto simp: escrow_ids_def other_ids_def)

lemma opens_accounts_statements [keeps_rules]: "keeps opens (ensureUserAccount u f c)" "keeps opens (ensureSystemAccount ty c)"
  by (rule keepsI, erule ensureUserAccount_Inr ensureSystemAccount_Inr)+

lemma open_accounts_Inr:
  assumes "open_accounts u f c db = Inr (refs, db')"
  shows "opens db db'" "sr_UserFundingAccountID refs \<in> other_ids db'" "sr_EscrowAccountID refs \<in> escrow_ids db' c"
    "sr_HouseClearingAccountID refs \<in> other_ids db'"
proof -
  from assms obtain user db1 escrow db2 house where
    u: "ensureUserAccount u f c db = Inr (user, db1)" and e: "ensureSystemAccount ''wager_escrow'' c db1 = Inr (escrow, db2)"
    and h: "ensureSystemAccount ''house_clearing'' c db2 = Inr (house, db')"
    and refs: "refs = \<lparr>sr_UserFundingAccountID = user, sr_EscrowAccountID = escrow, sr_HouseClearingAccountID = house\<rparr>"
    by (auto simp: open_accounts_def cmd_simps)
  note o1 = ensureUserAccount_Inr [OF u] and o2 = ensureSystemAccount_Inr [OF e] and o3 = ensureSystemAccount_Inr [OF h]
  show "opens db db'" using o1(1) o2(1) o3(1) opens.R_trans by blast
  show "sr_UserFundingAccountID refs \<in> other_ids db'" "sr_EscrowAccountID refs \<in> escrow_ids db' c"
    "sr_HouseClearingAccountID refs \<in> other_ids db'"
    using o1(2) o2(1,2) o3(1,3) opens_ids by (auto simp: refs)
qed

end
