(* ===== verification/Book_Escrow.thy ===== *)
theory Book_Escrow
  imports Book_Ledger Wager_Lifecycle Parlays
begin

text \<open>
  The money of the book: every operation of \<open>internal/bettingpg\<close> leaves the difference between the escrow balance
  and the accepted stakes as it was, in every currency. An operation opens the accounts it needs, posts one ledger
  transaction per wager or parlay it moves and updates the row; \<open>posted_escrow\<close> is the effect of the posting,
  \<open>set_wager_held\<close> and \<open>set_parlay_held\<close> that of the update.
\<close>

section \<open>Posting\<close>

interpretation reads: command_relation "\<lambda>db db'. db' = db"
  by unfold_locales simp_all

lemma those_map_Some: "(\<And>x. x \<in> set xs \<Longrightarrow> f x = Some x) \<Longrightarrow> those (map f xs) = Some xs"
  by (induction xs) simp_all

lemma cast_postings_canonical: "(\<And>p. p \<in> set ps \<Longrightarrow> canonical (p_AccountID p)) \<Longrightarrow> cast_postings ps = Some ps"
  unfolding cast_postings_def by (rule those_map_Some) (simp add: canonical_def)

lemma insertLedgerTransaction_Inr:
  assumes "insertLedgerTransaction txn db = Inr (i, db')" "\<And>p. p \<in> set (t_Postings txn) \<Longrightarrow> canonical (p_AccountID p)"
  obtains t where "t_Postings t = t_Postings txn" "t_Type t = t_Type txn" "t_Currency t = t_Currency txn"
    "t_IdempotencyKey t = t_IdempotencyKey txn" "ledger_constraints t db"
    "db' = db\<lparr>db_Draws := Suc (db_Draws db), db_Transactions := db_Transactions db @ [\<lparr>lt_ID = i, lt_Transaction = t\<rparr>]\<rparr>"
proof -
  obtain source reversal where src: "null_uuid (t_SourceID txn) = Some source" "null_uuid (t_ReversalOf txn) = Some reversal"
    using assms(1) by (cases "null_uuid (t_SourceID txn)"; cases "null_uuid (t_ReversalOf txn)")
      (auto simp: insertLedgerTransaction_def throw_def)
  define t where "t = txn\<lparr>t_SourceID := source, t_Actor := actor_or_null (t_Actor txn), t_ReversalOf := reversal,
                 t_Postings := t_Postings txn\<rparr>"
  have cast: "cast_postings (t_Postings txn) = Some (t_Postings txn)" using assms(2) by (rule cast_postings_canonical)
  obtain db1 where r: "random_uuid db = Inr (i, db1)" and c: "ledger_constraints t db1"
    and db': "db' = db1\<lparr>db_Transactions := db_Transactions db1 @ [\<lparr>lt_ID = i, lt_Transaction = t\<rparr>]\<rparr>"
    using assms(1) unfolding insertLedgerTransaction_def src cast Let_def prod.case
      option.case andThen_Inr t_def by (auto split: if_splits)
  note db1 = random_uuid_Inr(2) [OF r]
  show thesis
    by (rule that [of t]) (use c db' in \<open>simp_all add: t_def db1 ledger_constraints_def\<close>)
qed

lemma ids_apart:
  assumes "accounts_ok db"
  shows "i \<in> escrow_ids db c \<Longrightarrow> i \<notin> other_ids db" "i \<in> escrow_ids db c \<Longrightarrow> i \<in> escrow_ids db c' \<Longrightarrow> c = c'"
    "i \<in> escrow_ids db c \<Longrightarrow> canonical i" "i \<in> other_ids db \<Longrightarrow> canonical i"
    "i \<in> escrow_ids db c \<Longrightarrow> i \<in> la_ID ` set (db_Accounts db)" "i \<in> other_ids db \<Longrightarrow> i \<in> la_ID ` set (db_Accounts db)"
  using assms by (auto simp: accounts_ok_def escrow_ids_def other_ids_def distinct_map dest: inj_onD)

lemma money_ok_post:
  assumes "money_ok db" "db' = db\<lparr>db_Draws := n, db_Transactions := db_Transactions db @ [\<lparr>lt_ID = i, lt_Transaction = t\<rparr>]\<rparr>"
    and "\<And>p. p \<in> set (t_Postings t) \<Longrightarrow> p_AccountID p \<in> la_ID ` set (db_Accounts db)"
    and "\<And>p. p \<in> set (t_Postings t) \<Longrightarrow> t_Type t = TransactionAdminAdjustment \<Longrightarrow> p_AccountID p \<in> other_ids db"
  shows "money_ok db'"
proof -
  have "other_ids db' = other_ids db" by (simp add: assms(2) other_ids_def)
  with assms show ?thesis unfolding money_ok_def accounts_ok_def ledger_ok_def by (simp add: assms(2))
qed

text \<open>What a transaction does that posts on escrow account \<open>e\<close> and elsewhere outside escrow.\<close>

lemma posted_escrow:
  assumes "insertLedgerTransaction txn db = Inr (i, db')" "money_ok db" "e \<in> escrow_ids db cur"
    and "\<forall>p \<in> set (t_Postings txn). p_AccountID p = e \<or> p_AccountID p \<in> other_ids db"
    and "t_Type txn \<noteq> TransactionAdminAdjustment"
  shows "money_ok db'" "db_Wagers db' = db_Wagers db" "db_Parlays db' = db_Parlays db" "db_Accounts db' = db_Accounts db"
    "escrow_total db' c = escrow_total db c
       + (if c = cur then posted_sum (filter (\<lambda>p. p_AccountID p = e) (t_Postings txn)) else 0)"
proof -
  have acc: "accounts_ok db" using assms(2) by (simp add: money_ok_def)
  have canon: "canonical (p_AccountID p)" if "p \<in> set (t_Postings txn)" for p
    using assms(3) assms(4) [rule_format, OF that] ids_apart(3,4) [OF acc] by metis
  from insertLedgerTransaction_Inr [OF assms(1) canon] obtain t where
    t: "t_Postings t = t_Postings txn" "t_Type t = t_Type txn"
    and db': "db' = db\<lparr>db_Draws := Suc (db_Draws db), db_Transactions := db_Transactions db @ [\<lparr>lt_ID = i, lt_Transaction = t\<rparr>]\<rparr>"
    by metis
  show "db_Wagers db' = db_Wagers db" "db_Parlays db' = db_Parlays db" "db_Accounts db' = db_Accounts db"
    by (simp_all add: db')
  have "p_AccountID p \<in> la_ID ` set (db_Accounts db)" if "p \<in> set (t_Postings txn)" for p
    using assms(3) assms(4) [rule_format, OF that] ids_apart(5,6) [OF acc] by metis
  then show "money_ok db'" by (intro money_ok_post [OF assms(2) db']) (use assms(5) in \<open>simp_all add: t\<close>)
  have ids: "escrow_ids db' c = escrow_ids db c" for c by (simp add: db' escrow_ids_def)
  have "filter (\<lambda>p. p_AccountID p \<in> escrow_ids db c) (t_Postings txn)
      = (if c = cur then filter (\<lambda>p. p_AccountID p = e) (t_Postings txn) else [])"
    using assms(3,4) ids_apart(1,2) [OF acc] by (auto simp: filter_empty_conv intro!: filter_cong)
  then show "escrow_total db' c = escrow_total db c
       + (if c = cur then posted_sum (filter (\<lambda>p. p_AccountID p = e) (t_Postings txn)) else 0)"
    unfolding escrow_total_def ids by (simp add: db' t)
qed

lemma posted_elsewhere:
  assumes "insertLedgerTransaction txn db = Inr (i, db')" "money_ok db"
    and "\<forall>p \<in> set (t_Postings txn). p_AccountID p \<in> other_ids db"
  shows "money_ok db'" "db_Wagers db' = db_Wagers db" "db_Parlays db' = db_Parlays db" "escrow_total db' c = escrow_total db c"
proof -
  have acc: "accounts_ok db" using assms(2) by (simp add: money_ok_def)
  have canon: "canonical (p_AccountID p)" if "p \<in> set (t_Postings txn)" for p
    using assms(3) that ids_apart(4) [OF acc] by blast
  from insertLedgerTransaction_Inr [OF assms(1) canon] obtain t where
    t: "t_Postings t = t_Postings txn" "t_Type t = t_Type txn"
    and db': "db' = db\<lparr>db_Draws := Suc (db_Draws db), db_Transactions := db_Transactions db @ [\<lparr>lt_ID = i, lt_Transaction = t\<rparr>]\<rparr>"
    by metis
  show "db_Wagers db' = db_Wagers db" "db_Parlays db' = db_Parlays db"
    by (simp_all add: db')
  show "money_ok db'" by (rule money_ok_post [OF assms(2) db']) (use assms(3) ids_apart(6) [OF acc] in \<open>auto simp: t\<close>)
  have ids: "escrow_ids db' c = escrow_ids db c" for c by (simp add: db' escrow_ids_def)
  have "filter (\<lambda>p. p_AccountID p \<in> escrow_ids db c) (t_Postings txn) = []"
    using assms(3) ids_apart(1) [OF acc] by (fastforce simp: filter_empty_conv)
  then show "escrow_total db' c = escrow_total db c"
    unfolding escrow_total_def ids by (simp add: db' t)
qed

section \<open>Updating a row\<close>

lemma sum_list_update_row:
  fixes f :: "'a \<Rightarrow> int"
  assumes "distinct (map k xs)" "x \<in> set xs"
  shows "(\<Sum>y\<leftarrow>xs. f (if k y = k x then g y else y)) = (\<Sum>y\<leftarrow>xs. f y) + f (g x) - f x"
  using assms
proof (induction xs)
  case (Cons y ys)
  show ?case
  proof (cases "x = y")
    case True
    from Cons.prems(1) have "k y \<notin> k ` set ys" by simp
    with True have "k z \<noteq> k x" if "z \<in> set ys" for z using that by (metis imageI)
    then have "map (\<lambda>z. f (if k z = k x then g z else z)) ys = map f ys" by simp
    with True show ?thesis by (simp only: list.map sum_list.Cons if_True refl)
  next
    case False
    with Cons.prems have "x \<in> set ys" "k y \<noteq> k x" by auto
    with Cons show ?thesis by simp
  qed
qed simp

lemma update_row:
  assumes "distinct (map k xs)" "x \<in> set xs"
  shows "k (g x) = k x \<Longrightarrow> map k (map (\<lambda>y. if k y = k x then g y else y) xs) = map k xs"
    "(\<forall>y \<in> set xs. P y) \<Longrightarrow> P (g x) \<Longrightarrow> \<forall>y \<in> set (map (\<lambda>y. if k y = k x then g y else y) xs). P y"
proof -
  have only: "y = x" if "y \<in> set xs" "k y = k x" for y
    using assms that by (meson distinct_map inj_onD)
  show "map k (map (\<lambda>y. if k y = k x then g y else y) xs) = map k xs" if "k (g x) = k x"
    using only that by (auto simp: comp_def)
  show "\<forall>y \<in> set (map (\<lambda>y. if k y = k x then g y else y) xs). P y" if "\<forall>y \<in> set xs. P y" "P (g x)"
    using only that by auto
qed

lemma map_set_wager:
  assumes "\<And>r. wr_Wager (f r) = g (wr_Wager r)"
  shows "map wr_Wager (db_Wagers (set_wager i f db)) = map (\<lambda>w. if w_ID w = i then g w else w) (map wr_Wager (db_Wagers db))"
  by (simp add: set_wager_def assms comp_def if_distrib cong: if_cong)

lemma set_wager_held:
  assumes "money_ok db" "w \<in> set (map wr_Wager (db_Wagers db))"
    and "\<And>r. wr_Wager (f r) = g (wr_Wager r)" "w_ID (g w) = w_ID w" "0 < cents (w_Stake (g w))"
  shows "money_ok (set_wager (w_ID w) f db)" "escrow_total (set_wager (w_ID w) f db) c = escrow_total db c"
    "stakes_held (set_wager (w_ID w) f db) c = stakes_held db c + wager_held c (g w) - wager_held c w"
    "db_Accounts (set_wager (w_ID w) f db) = db_Accounts db" "db_Parlays (set_wager (w_ID w) f db) = db_Parlays db"
proof -
  let ?ws = "map wr_Wager (db_Wagers db)" and ?u = "\<lambda>v. if w_ID v = w_ID w then g v else v"
  have ok: "distinct (map w_ID ?ws)" "\<forall>v \<in> set ?ws. canonical (w_ID v) \<and> 0 < cents (w_Stake v)"
    using assms(1) unfolding money_ok_def wagers_ok_def by blast+
  have "wagers_ok (map ?u ?ws)"
    unfolding wagers_ok_def
  proof
    show "distinct (map w_ID (map ?u ?ws))" using ok(1) by (simp only: update_row(1) [OF ok(1) assms(2), of g, OF assms(4)])
    show "\<forall>v \<in> set (map ?u ?ws). canonical (w_ID v) \<and> 0 < cents (w_Stake v)"
      by (rule update_row(2) [OF ok(1) assms(2) ok(2)]) (use ok(2) [rule_format, OF assms(2)] assms(4,5) in simp)
  qed
  then show "money_ok (set_wager (w_ID w) f db)"
    using assms(1) unfolding money_ok_def map_set_wager [of f g, OF assms(3)]
    by (simp add: set_wager_def accounts_ok_def ledger_ok_def other_ids_def)
  show "escrow_total (set_wager (w_ID w) f db) c = escrow_total db c"
    by (simp add: set_wager_def escrow_total_def escrow_ids_def)
  show "stakes_held (set_wager (w_ID w) f db) c = stakes_held db c + wager_held c (g w) - wager_held c w"
    using sum_list_update_row [OF ok(1) assms(2), of "wager_held c" g]
    unfolding stakes_held_def map_set_wager [of f g, OF assms(3)] by (simp add: set_wager_def comp_def)
qed (simp_all add: set_wager_def)

lemma map_set_parlay:
  assumes "\<And>r. py_Parlay (f r) = g (py_Parlay r)"
  shows "map py_Parlay (db_Parlays (set_parlay i f db)) = map (\<lambda>p. if pa_ID p = i then g p else p) (map py_Parlay (db_Parlays db))"
  by (simp add: set_parlay_def assms comp_def if_distrib cong: if_cong)

lemma set_parlay_held:
  assumes "money_ok db" "p \<in> set (map py_Parlay (db_Parlays db))"
    and "\<And>r. py_Parlay (f r) = g (py_Parlay r)" "pa_ID (g p) = pa_ID p" "0 < cents (pa_Stake (g p))"
  shows "money_ok (set_parlay (pa_ID p) f db)" "escrow_total (set_parlay (pa_ID p) f db) c = escrow_total db c"
    "stakes_held (set_parlay (pa_ID p) f db) c = stakes_held db c + parlay_held c (g p) - parlay_held c p"
    "db_Accounts (set_parlay (pa_ID p) f db) = db_Accounts db" "db_Wagers (set_parlay (pa_ID p) f db) = db_Wagers db"
proof -
  let ?ps = "map py_Parlay (db_Parlays db)" and ?u = "\<lambda>q. if pa_ID q = pa_ID p then g q else q"
  have ok: "distinct (map pa_ID ?ps)" "\<forall>q \<in> set ?ps. canonical (pa_ID q) \<and> 0 < cents (pa_Stake q)"
    using assms(1) unfolding money_ok_def parlays_ok_def by blast+
  have "parlays_ok (map ?u ?ps)"
    unfolding parlays_ok_def
  proof
    show "distinct (map pa_ID (map ?u ?ps))" using ok(1) by (simp only: update_row(1) [OF ok(1) assms(2), of g, OF assms(4)])
    show "\<forall>v \<in> set (map ?u ?ps). canonical (pa_ID v) \<and> 0 < cents (pa_Stake v)"
      by (rule update_row(2) [OF ok(1) assms(2) ok(2)]) (use ok(2) [rule_format, OF assms(2)] assms(4,5) in simp)
  qed
  then show "money_ok (set_parlay (pa_ID p) f db)"
    using assms(1) unfolding money_ok_def map_set_parlay [of f g, OF assms(3)]
    by (simp add: set_parlay_def accounts_ok_def ledger_ok_def other_ids_def)
  show "escrow_total (set_parlay (pa_ID p) f db) c = escrow_total db c"
    by (simp add: set_parlay_def escrow_total_def escrow_ids_def)
  show "stakes_held (set_parlay (pa_ID p) f db) c = stakes_held db c + parlay_held c (g p) - parlay_held c p"
    using sum_list_update_row [OF ok(1) assms(2), of "parlay_held c" g]
    unfolding stakes_held_def map_set_parlay [of f g, OF assms(3)] by (simp add: set_parlay_def comp_def)
qed (simp_all add: set_parlay_def)

section \<open>A posting and the update it pays for\<close>

lemma escrow_wager_step:
  assumes "opens db db1" "insertLedgerTransaction txn db1 = Inr (tid, db2)" "e \<in> escrow_ids db1 (m_Currency (w_Stake w))"
    and "\<forall>p \<in> set (t_Postings txn). p_AccountID p = e \<or> p_AccountID p \<in> other_ids db1"
    and "t_Type txn \<noteq> TransactionAdminAdjustment" "w \<in> set (map wr_Wager (db_Wagers db))"
    and "\<And>r. wr_Wager (f r) = g (wr_Wager r)" "w_ID (g w) = w_ID w"
    and "0 < cents (w_Stake (g w))" "m_Currency (w_Stake (g w)) = m_Currency (w_Stake w)"
    and "posted_sum (filter (\<lambda>p. p_AccountID p = e) (t_Postings txn))
      = wager_held (m_Currency (w_Stake w)) (g w) - wager_held (m_Currency (w_Stake w)) w"
    and "opens db2 db3" "opens (set_wager (w_ID w) f db3) db'"
  shows "balanced db db'"
  unfolding balanced_def
proof (intro impI conjI allI)
  assume ok: "money_ok db"
  with assms(1) have ok1: "money_ok db1" and e1: "escrow_total db1 c = escrow_total db c" and w1: "w \<in> set (map wr_Wager (db_Wagers db1))" for c
    using assms(6) by (auto simp: opens_def)
  note post = posted_escrow [OF assms(2) ok1 assms(3,4,5)]
  have ok3: "money_ok db3" and e3: "escrow_total db3 c = escrow_total db2 c" for c using assms(12) post(1) by (auto simp: opens_def)
  have w3: "w \<in> set (map wr_Wager (db_Wagers db3))" using w1 assms(12) by (simp only: post(2) opens_def)
  note upd = set_wager_held [OF ok3 w3 assms(7,8,9)]
  show "money_ok db'" using upd(1) assms(13) by (auto simp: opens_def)
  fix c
  have "escrow_total db' c = escrow_total (set_wager (w_ID w) f db3) c" "stakes_held db' c = stakes_held (set_wager (w_ID w) f db3) c"
    using upd(1) assms(13) opens_held [OF assms(13)] by (auto simp: opens_def)
  moreover have "stakes_held db3 c = stakes_held db1 c"
    using opens_held [OF assms(12), of c] unfolding stakes_held_def post(2,3) by simp
  moreover have "wager_held c (g w) - wager_held c w = (if c = m_Currency (w_Stake w) then posted_sum (filter (\<lambda>p. p_AccountID p = e) (t_Postings txn)) else 0)"
    using assms(10,11) by (auto simp: wager_held_def)
  ultimately show "escrow_total db' c - stakes_held db' c = escrow_total db c - stakes_held db c"
    using post(5) [of c] upd(2,3) [of c] e1 [of c] e3 [of c] opens_held [OF assms(1), of c] by simp
qed

lemma escrow_parlay_step:
  assumes "opens db db1" "insertLedgerTransaction txn db1 = Inr (tid, db2)" "e \<in> escrow_ids db1 (m_Currency (pa_Stake q))"
    and "\<forall>p \<in> set (t_Postings txn). p_AccountID p = e \<or> p_AccountID p \<in> other_ids db1"
    and "t_Type txn \<noteq> TransactionAdminAdjustment" "q \<in> set (map py_Parlay (db_Parlays db))"
    and "\<And>r. py_Parlay (f r) = g (py_Parlay r)" "pa_ID (g q) = pa_ID q"
    and "0 < cents (pa_Stake (g q))" "m_Currency (pa_Stake (g q)) = m_Currency (pa_Stake q)"
    and "posted_sum (filter (\<lambda>p. p_AccountID p = e) (t_Postings txn))
      = parlay_held (m_Currency (pa_Stake q)) (g q) - parlay_held (m_Currency (pa_Stake q)) q"
    and "opens db2 db3" "opens (set_parlay (pa_ID q) f db3) db'"
  shows "balanced db db'"
  unfolding balanced_def
proof (intro impI conjI allI)
  assume ok: "money_ok db"
  with assms(1) have ok1: "money_ok db1" and e1: "escrow_total db1 c = escrow_total db c" and q1: "q \<in> set (map py_Parlay (db_Parlays db1))" for c
    using assms(6) by (auto simp: opens_def)
  note post = posted_escrow [OF assms(2) ok1 assms(3,4,5)]
  have ok3: "money_ok db3" and e3: "escrow_total db3 c = escrow_total db2 c" for c using assms(12) post(1) by (auto simp: opens_def)
  have q3: "q \<in> set (map py_Parlay (db_Parlays db3))" using q1 assms(12) by (simp only: post(3) opens_def)
  note upd = set_parlay_held [OF ok3 q3 assms(7,8,9)]
  show "money_ok db'" using upd(1) assms(13) by (auto simp: opens_def)
  fix c
  have "escrow_total db' c = escrow_total (set_parlay (pa_ID q) f db3) c" "stakes_held db' c = stakes_held (set_parlay (pa_ID q) f db3) c"
    using upd(1) assms(13) opens_held [OF assms(13)] by (auto simp: opens_def)
  moreover have "stakes_held db3 c = stakes_held db1 c"
    using opens_held [OF assms(12), of c] unfolding stakes_held_def post(2,3) by simp
  moreover have "parlay_held c (g q) - parlay_held c q = (if c = m_Currency (pa_Stake q) then posted_sum (filter (\<lambda>p. p_AccountID p = e) (t_Postings txn)) else 0)"
    using assms(10,11) by (auto simp: parlay_held_def)
  ultimately show "escrow_total db' c - stakes_held db' c = escrow_total db c - stakes_held db c"
    using post(5) [of c] upd(2,3) [of c] e1 [of c] e3 [of c] opens_held [OF assms(1), of c] by simp
qed

end
