(* ===== verification/Book_Wager_Money.thy ===== *)
theory Book_Wager_Money
  imports Book_Escrow
begin

text \<open>
  The operations on one wager keep the book balanced: placing, accepting, rejecting, cancelling, voiding and
  reducing it, and settling up. Each operation is first inverted: a success gives back the rows it read, the
  accounts it opened, the result of the domain operation and the statements it ran.
\<close>

section \<open>Rows\<close>

lemma case_throw_Inr [cmd_simps]:
  "(case v of Inl e \<Rightarrow> throw (h e) | Inr y \<Rightarrow> ret y) db = Inr u \<longleftrightarrow> (\<exists>y. v = Inr y \<and> u = (y, db))"
  "(case o' of None \<Rightarrow> ret () | Some e \<Rightarrow> throw (k e)) db = Inr u' \<longleftrightarrow> o' = None \<and> u' = ((), db)"
  by (auto simp: throw_def ret_def split: sum.split option.split)

lemma wager_rowD: "wager_at i db = Some r \<Longrightarrow> wr_Wager r \<in> set (map wr_Wager (db_Wagers db)) \<and> w_ID (wr_Wager r) = i"
  unfolding wager_at_def using find_SomeD by fastforce

lemma wager_unique:
  "money_ok db \<Longrightarrow> v \<in> set (map wr_Wager (db_Wagers db)) \<Longrightarrow> w \<in> set (map wr_Wager (db_Wagers db)) \<Longrightarrow> w_ID v = w_ID w \<Longrightarrow> v = w"
  unfolding money_ok_def wagers_ok_def by (meson distinct_map inj_onD)

lemma loadWager_Inr [cmd_simps]:
  "loadWagerForUpdate i db = Inr (w, db') \<longleftrightarrow> (\<exists>j r. pg_uuid i = Some j \<and> wager_at j db = Some r \<and> w = wagerRow r \<and> db' = db)"
  by (auto simp: loadWagerForUpdate_def cmd_simps split: option.splits)

lemma wagerRow_simps [simp]:
  "w_ID (wagerRow r) = w_ID (wr_Wager r)" "w_State (wagerRow r) = w_State (wr_Wager r)"
  "w_Stake (wagerRow r) = w_Stake (wr_Wager r)" "w_UserID (wagerRow r) = w_UserID (wr_Wager r)"
  "w_MarketID (wagerRow r) = w_MarketID (wr_Wager r)" "w_SelectionID (wagerRow r) = w_SelectionID (wr_Wager r)"
  "w_FundingAccountType (wagerRow r) = w_FundingAccountType (wr_Wager r)"
  by (simp_all add: wagerRow_def)

lemma marketState_Inr [cmd_simps]:
  "marketStateForWager i db = Inr (s, db') \<longleftrightarrow>
     (\<exists>m r. pg_uuid i = Some m \<and> market_at m db = Some r \<and> s = mk_State (mr_Market r) \<and> db' = db)"
  by (auto simp: marketStateForWager_def cmd_simps split: option.splits)

lemma accountBalance_Inr [cmd_simps]:
  "accountBalance i db = Inr (b, db') \<longleftrightarrow>
     (\<exists>a. pg_uuid i = Some a \<and> in_int64 (account_total db a) \<and> b = word_of_int (account_total db a) \<and> db' = db)"
  by (auto simp: accountBalance_def cmd_simps scan_int64_def)

definition credit_of :: "string \<Rightarrow> book_db \<Rightarrow> int64 option" where
  "credit_of u db = map_option us_CreditLimitCents (List.find (\<lambda>r. us_ID r = u) (db_Users db))"

lemma creditLimit_Inr [cmd_simps]:
  "creditLimitForUser i db = Inr (l, db') \<longleftrightarrow> (\<exists>u. pg_uuid i = Some u \<and> credit_of u db = Some l \<and> db' = db)"
  by (auto simp: creditLimitForUser_def credit_of_def cmd_simps split: option.splits)

section \<open>Accepting\<close>

lemma acceptWagerTx_repeated:
  assumes "pg_uuid wagerID = Some j" "wager_at j db = Some r" "w_State (wr_Wager r) = WagerAccepted'"
  shows "acceptWagerTx wagerID actor now' db = andThen (verifyAcceptance (wagerRow r)) (\<lambda>_. ret (wagerRow r)) db"
  using assms by (simp add: acceptWagerTx_def andThen_def [of "loadWagerForUpdate wagerID"] loadWagerForUpdate_def
      uuid_arg_def query_def andThen_def ret_def)

lemma acceptWagerTx_Inr:
  assumes "acceptWagerTx wagerID actor now' db = Inr (x, db')"
    and "pg_uuid wagerID = Some j" "wager_at j db = Some r" "w_State (wr_Wager r) \<noteq> WagerAccepted'"
  obtains m mr refs db1 a u limit eid db2 result tid db3 db4 where
    "pg_uuid (w_MarketID (wr_Wager r)) = Some m" "market_at m db = Some mr" "\<not> decided_state (mk_State (mr_Market mr))"
    "open_accounts (w_UserID (wr_Wager r)) (w_FundingAccountType (wr_Wager r)) (m_Currency (w_Stake (wr_Wager r))) db = Inr (refs, db1)"
    "pg_uuid (sr_UserFundingAccountID refs) = Some a" "in_int64 (account_total db1 a)"
    "pg_uuid (w_UserID (wr_Wager r)) = Some u" "credit_of u db1 = Some limit"
    "cents (w_Stake (wr_Wager r)) \<le> sint (word_of_int (account_total db1 a) + limit)" "random_uuid db1 = Inr (eid, db2)"
    "AcceptWager (wagerRow r) actor (UTC now')
      \<lparr>ar_UserFundingAccountID = sr_UserFundingAccountID refs, ar_EscrowAccountID = sr_EscrowAccountID refs\<rparr> eid = Inr result"
    "insertLedgerTransaction (aw_Transaction result) db2 = Inr (tid, db3)"
    "mark_accepted wagerID actor tid db3 = Inr ((), db4)" "publish (aw_Event result) db4 = Inr ((), db')" "x = aw_Wager result"
  using assms by (simp add: acceptWagerTx_def cmd_simps not_less) blast

lemma mark_accepted_Inr:
  assumes "mark_accepted wagerID actor tid db = Inr ((), db')" "pg_uuid wagerID = Some j"
  obtains r by' where "wager_at j db = Some r" "w_State (wr_Wager r) = WagerPending"
    "db' = set_wager j (\<lambda>r. r\<lparr>wr_Wager := (wr_Wager r)\<lparr>w_State := WagerAccepted'\<rparr>, wr_AcceptedBy := by',
                 wr_AcceptanceTransaction := tid\<rparr>) db"
  using assms by (auto simp: mark_accepted_def Let_def cmd_simps split: if_splits option.splits)

lemma accept_balanced [keeps_rules]: "keeps balanced (acceptWagerTx wagerID actor now')"
proof (rule keepsI)
  fix db x db'
  assume run: "acceptWagerTx wagerID actor now' db = Inr (x, db')"
  then obtain j r where row: "pg_uuid wagerID = Some j" "wager_at j db = Some r"
    by (auto simp: acceptWagerTx_def cmd_simps)
  show "balanced db db'"
  proof (cases "w_State (wr_Wager r) = WagerAccepted'")
    case True
    with run row have "db' = db" by (auto simp: acceptWagerTx_repeated cmd_simps dest: keepsD [OF reads.loads(14)])
    then show ?thesis by (simp add: balanced.R_refl)
  next
    case False
    let ?w = "wr_Wager r" and ?c = "m_Currency (w_Stake (wr_Wager r))"
    from acceptWagerTx_Inr [OF run row False] obtain refs db1 eid db2 result tid db3 db4 where
        refs: "open_accounts (w_UserID ?w) (w_FundingAccountType ?w) ?c db = Inr (refs, db1)"
      and eid: "random_uuid db1 = Inr (eid, db2)"
      and aw: "AcceptWager (wagerRow r) actor (UTC now')
        \<lparr>ar_UserFundingAccountID = sr_UserFundingAccountID refs, ar_EscrowAccountID = sr_EscrowAccountID refs\<rparr> eid = Inr result"
      and post: "insertLedgerTransaction (aw_Transaction result) db2 = Inr (tid, db3)"
      and mark: "mark_accepted wagerID actor tid db3 = Inr ((), db4)" and pub: "publish (aw_Event result) db4 = Inr ((), db')"
      by metis
    note refs' = open_accounts_Inr [OF refs] and draw = keepsD [OF opens_statements(1) eid]
    have o2: "opens db db2" using refs'(1) draw opens.R_trans by blast
    have ids: "sr_EscrowAccountID refs \<in> escrow_ids db2 ?c" "sr_UserFundingAccountID refs \<in> other_ids db2"
      using refs'(2,3) opens_ids [OF draw] by blast+
    from AcceptWager_Inr [OF aw] obtain n where
        ps: "t_Postings (aw_Transaction result) = [\<lparr>p_AccountID = sr_UserFundingAccountID refs, p_Amount = n\<rparr>,
          \<lparr>p_AccountID = sr_EscrowAccountID refs, p_Amount = w_Stake ?w\<rparr>]"
      and st: "w_State ?w = WagerPending" and stake: "0 < cents (w_Stake ?w)"
      by (auto simp: Wager_Validate_None)
    have ty: "t_Type (aw_Transaction result) \<noteq> TransactionAdminAdjustment"
      using aw by (auto simp: AcceptWager_def Let_def result_simps)
    from mark row(1) obtain by' where db4: "db4 = set_wager (w_ID ?w) (\<lambda>r. r\<lparr>wr_Wager := (wr_Wager r)\<lparr>w_State := WagerAccepted'\<rparr>,
        wr_AcceptedBy := by', wr_AcceptanceTransaction := tid\<rparr>) db3"
      using wager_rowD [OF row(2)] by (auto elim: mark_accepted_Inr)
    have apart: "sr_UserFundingAccountID refs \<noteq> sr_EscrowAccountID refs" if "money_ok db"
      using ids ids_apart(1) o2 that by (auto simp: opens_def money_ok_def)
    show ?thesis
    proof (rule balanced_if_ok)
      assume ok: "money_ok db"
      show ?thesis
        by (rule escrow_wager_step [OF o2 post ids(1) _ ty wager_rowD [OF row(2), THEN conjunct1] _ _ _ _ _ opens.R_refl,
              of "\<lambda>r. r\<lparr>wr_Wager := (wr_Wager r)\<lparr>w_State := WagerAccepted'\<rparr>, wr_AcceptedBy := by', wr_AcceptanceTransaction := tid\<rparr>"
                 "\<lambda>w. w\<lparr>w_State := WagerAccepted'\<rparr>"])
          (use ps ids(2) st stake apart [OF ok] keepsD [OF opens_statements(2) pub [unfolded db4]] in \<open>simp_all add: wager_held_def\<close>)
    qed
  qed
qed

section \<open>Voiding and reducing\<close>

lemma update_accepted_Inr:
  assumes "update_accepted wagerID P f db = Inr ((), db')" "pg_uuid wagerID = Some j"
  obtains r where "wager_at j db = Some r" "w_State (wr_Wager r) = WagerAccepted'" "P (wr_Wager r)"
    "db' = set_wager j (\<lambda>r. r\<lparr>wr_Wager := f (wr_Wager r)\<rparr>) db"
  using assms by (auto simp: update_accepted_def cmd_simps split: if_splits option.splits)

lemma VoidWager_posts:
  assumes "VoidWager w actor reason refs t = Inr (w', txn)"
  obtains n where "Wager_Validate w = None" "w_State w = WagerAccepted'" "Money_Negate (w_Stake w) = Inr n"
    "w' = w\<lparr>w_State := WagerVoided\<rparr>" "t_Type txn = TransactionWagerRefund" "t_IdempotencyKey txn = VoidIdempotencyKey (w_ID w)"
    "t_Currency txn = m_Currency (w_Stake w)"
    "t_Postings txn = [\<lparr>p_AccountID = vr_EscrowAccountID refs, p_Amount = n\<rparr>, \<lparr>p_AccountID = vr_UserFundingAccountID refs, p_Amount = w_Stake w\<rparr>]"
  using assms by (auto simp: VoidWager_def Let_def result_simps CanTransitionTo_from)

lemma voidWagerTx_Inr:
  assumes "voidWagerTx wagerID actor reason now' db = Inr ((w, fresh), db')"
  obtains (repeated) j r where "pg_uuid wagerID = Some j" "wager_at j db = Some r" "\<not> fresh" "w = wagerRow r" "db' = db"
      "w_State (wr_Wager r) = WagerVoided"
    | (voided) j r user db1 escrow db2 txn tid db3 where "pg_uuid wagerID = Some j" "wager_at j db = Some r" fresh
      "ensureUserAccount (w_UserID (wr_Wager r)) (w_FundingAccountType (wr_Wager r)) (m_Currency (w_Stake (wr_Wager r))) db = Inr (user, db1)"
      "ensureSystemAccount ''wager_escrow'' (m_Currency (w_Stake (wr_Wager r))) db1 = Inr (escrow, db2)"
      "VoidWager (wagerRow r) actor reason \<lparr>vr_UserFundingAccountID = user, vr_EscrowAccountID = escrow\<rparr> now' = Inr (w, txn)"
      "insertLedgerTransaction txn db2 = Inr (tid, db3)"
      "update_accepted wagerID (\<lambda>_. True) (\<lambda>w. w\<lparr>w_State := WagerVoided\<rparr>) db3 = Inr ((), db')"
  using assms by (auto simp: voidWagerTx_def cmd_simps split: if_splits)

lemma void_balanced [keeps_rules]: "keeps balanced (voidWagerTx wagerID actor reason now')"
proof (rule keepsI)
  fix db x db'
  assume "voidWagerTx wagerID actor reason now' db = Inr (x, db')"
  moreover obtain w fresh where "x = (w, fresh)" by fastforce
  ultimately have run: "voidWagerTx wagerID actor reason now' db = Inr ((w, fresh), db')" by simp
  show "balanced db db'"
  proof (rule voidWagerTx_Inr [OF run])
    assume "db' = db" then show ?thesis by (simp add: balanced.R_refl)
  next
    fix j r user db1 escrow db2 txn tid db3
    assume row: "pg_uuid wagerID = Some j" "wager_at j db = Some r"
      and u: "ensureUserAccount (w_UserID (wr_Wager r)) (w_FundingAccountType (wr_Wager r)) (m_Currency (w_Stake (wr_Wager r))) db = Inr (user, db1)"
      and e: "ensureSystemAccount ''wager_escrow'' (m_Currency (w_Stake (wr_Wager r))) db1 = Inr (escrow, db2)"
      and void: "VoidWager (wagerRow r) actor reason \<lparr>vr_UserFundingAccountID = user, vr_EscrowAccountID = escrow\<rparr> now' = Inr (w, txn)"
      and post: "insertLedgerTransaction txn db2 = Inr (tid, db3)"
      and upd: "update_accepted wagerID (\<lambda>_. True) (\<lambda>w. w\<lparr>w_State := WagerVoided\<rparr>) db3 = Inr ((), db')"
    note o1 = ensureUserAccount_Inr [OF u] and o2 = ensureSystemAccount_Inr [OF e]
    have o': "opens db db2" using o1(1) o2(1) opens.R_trans by blast
    have ids: "escrow \<in> escrow_ids db2 (m_Currency (w_Stake (wr_Wager r)))" "user \<in> other_ids db2"
      using o1(2) o2(1,2) opens_ids by blast+
    from VoidWager_posts [OF void] obtain n where n: "Money_Negate (w_Stake (wr_Wager r)) = Inr n"
      and st: "w_State (wr_Wager r) = WagerAccepted'" and stake: "0 < cents (w_Stake (wr_Wager r))" and ty: "t_Type txn = TransactionWagerRefund"
      and ps: "t_Postings txn = [\<lparr>p_AccountID = escrow, p_Amount = n\<rparr>, \<lparr>p_AccountID = user, p_Amount = w_Stake (wr_Wager r)\<rparr>]"
      by (auto simp: Wager_Validate_None)
    have db': "db' = set_wager (w_ID (wr_Wager r)) (\<lambda>r. r\<lparr>wr_Wager := (wr_Wager r)\<lparr>w_State := WagerVoided\<rparr>\<rparr>) db3"
      using upd row(1) wager_rowD [OF row(2)] by (auto elim: update_accepted_Inr)
    have apart: "user \<noteq> escrow" if "money_ok db"
      using ids ids_apart(1) o' that by (auto simp: opens_def money_ok_def)
    show "balanced db db'"
    proof (rule balanced_if_ok)
      assume ok: "money_ok db"
      show ?thesis
        by (rule escrow_wager_step [OF o' post ids(1) _ _ wager_rowD [OF row(2), THEN conjunct1] _ _ _ _ _ opens.R_refl,
              of "\<lambda>r. r\<lparr>wr_Wager := (wr_Wager r)\<lparr>w_State := WagerVoided\<rparr>\<rparr>" "\<lambda>w. w\<lparr>w_State := WagerVoided\<rparr>"])
          (use ps ids(2) st stake ty apart [OF ok] Money_Negate_cents [OF n] in \<open>simp_all add: wager_held_def db' opens.R_refl\<close>)
    qed
  qed
qed

lemma ReduceWager_posts:
  assumes "ReduceWager w new' actor reason refs t = Inr (w', refund, txn)"
  obtains n where "Money_Negate refund = Inr n" "t_Type txn = TransactionWagerRefund"
    "t_Postings txn = [\<lparr>p_AccountID = vr_EscrowAccountID refs, p_Amount = n\<rparr>, \<lparr>p_AccountID = vr_UserFundingAccountID refs, p_Amount = refund\<rparr>]"
  using assms by (auto simp: ReduceWager_def Let_def result_simps)

lemma reduceWagerTx_Inr:
  assumes "reduceWagerTx wagerID cents' actor reason now' db = Inr ((w, m, fresh), db')"
  obtains (repeated) j r where "pg_uuid wagerID = Some j" "wager_at j db = Some r" "\<not> fresh" "w = wagerRow r" "db' = db"
    | (reduced) j and r :: wager_row and mr :: market_row and new' user db1 escrow db2 txn tid db3 db4 where "pg_uuid wagerID = Some j" "wager_at j db = Some r" fresh
      "NewMoney cents' (m_Currency (w_Stake (wr_Wager r))) = Inr new'" "\<not> decided_state (mk_State (mr_Market mr))"
      "ensureUserAccount (w_UserID (wr_Wager r)) (w_FundingAccountType (wr_Wager r)) (m_Currency (w_Stake (wr_Wager r))) db = Inr (user, db1)"
      "ensureSystemAccount ''wager_escrow'' (m_Currency (w_Stake (wr_Wager r))) db1 = Inr (escrow, db2)"
      "ReduceWager (wagerRow r) new' actor (TrimSpace reason) \<lparr>vr_UserFundingAccountID = user, vr_EscrowAccountID = escrow\<rparr> now'
        = Inr (w, m, txn)"
      "insertLedgerTransaction txn db2 = Inr (tid, db3)"
      "update_accepted wagerID (\<lambda>u. m_Cents (w_Stake u) = m_Cents (w_Stake (wr_Wager r)))
        (\<lambda>u. u\<lparr>w_Stake := (w_Stake u)\<lparr>m_Cents := m_Cents (w_Stake w)\<rparr>,
             w_PotentialProfit := (w_PotentialProfit u)\<lparr>m_Cents := m_Cents (w_PotentialProfit w)\<rparr>\<rparr>) db3 = Inr ((), db4)"
      "audit actor ''wager.reduced'' wagerID (TrimSpace reason) db4 = Inr ((), db')"
proof -
  from assms obtain j r where row: "pg_uuid wagerID = Some j" "wager_at j db = Some r"
    by (auto simp: reduceWagerTx_def cmd_simps)
  note run = assms [unfolded reduceWagerTx_def]
  show thesis
  proof (cases "key_posted (m_Currency (w_Stake (wr_Wager r))) (ReduceIdempotencyKey (w_ID (wr_Wager r)) cents') db")
    case True
    with run row have "\<not> fresh \<and> w = wagerRow r \<and> db' = db" by (auto simp: cmd_simps)
    with row repeated show thesis by blast
  next
    case False
    with run row show thesis
      by (auto simp: cmd_simps) (rule reduced; assumption)
  qed
qed

lemma reduce_balanced [keeps_rules]: "keeps balanced (reduceWagerTx wagerID cents' actor reason now')"
proof (rule keepsI)
  fix db x db'
  assume "reduceWagerTx wagerID cents' actor reason now' db = Inr (x, db')"
  moreover obtain w m fresh where "x = (w, m, fresh)" by (rule prod_cases3)
  ultimately have run: "reduceWagerTx wagerID cents' actor reason now' db = Inr ((w, m, fresh), db')" by simp
  show "balanced db db'"
  proof (rule reduceWagerTx_Inr [OF run])
    assume "db' = db" then show ?thesis by (simp add: balanced.R_refl)
  next
    fix j and r :: wager_row and new' user db1 escrow db2 txn tid db3 db4
    let ?c = "m_Currency (w_Stake (wr_Wager r))"
    let ?g = "\<lambda>u. u\<lparr>w_Stake := (w_Stake u)\<lparr>m_Cents := m_Cents (w_Stake w)\<rparr>,
             w_PotentialProfit := (w_PotentialProfit u)\<lparr>m_Cents := m_Cents (w_PotentialProfit w)\<rparr>\<rparr>"
    assume row: "pg_uuid wagerID = Some j" "wager_at j db = Some r"
      and u: "ensureUserAccount (w_UserID (wr_Wager r)) (w_FundingAccountType (wr_Wager r)) ?c db = Inr (user, db1)"
      and e: "ensureSystemAccount ''wager_escrow'' ?c db1 = Inr (escrow, db2)"
      and red: "ReduceWager (wagerRow r) new' actor (TrimSpace reason) \<lparr>vr_UserFundingAccountID = user, vr_EscrowAccountID = escrow\<rparr> now'
        = Inr (w, m, txn)"
      and post: "insertLedgerTransaction txn db2 = Inr (tid, db3)"
      and upd: "update_accepted wagerID (\<lambda>u. m_Cents (w_Stake u) = m_Cents (w_Stake (wr_Wager r))) ?g db3 = Inr ((), db4)"
      and aud: "audit actor ''wager.reduced'' wagerID (TrimSpace reason) db4 = Inr ((), db')"
    note o1 = ensureUserAccount_Inr [OF u] and o2 = ensureSystemAccount_Inr [OF e]
    have o': "opens db db2" using o1(1) o2(1) opens.R_trans by blast
    have ids: "escrow \<in> escrow_ids db2 ?c" "user \<in> other_ids db2"
      using o1(2) o2(1,2) opens_ids by blast+
    note R = ReduceWager_Inr [OF red, unfolded wagerRow_simps]
    from ReduceWager_posts [OF red] obtain n where n: "Money_Negate m = Inr n" "t_Type txn = TransactionWagerRefund"
      and ps: "t_Postings txn = [\<lparr>p_AccountID = escrow, p_Amount = n\<rparr>, \<lparr>p_AccountID = user, p_Amount = m\<rparr>]"
      by auto
    have stake: "w_Stake w = new'" using R(5) by auto
    have db4: "db4 = set_wager (w_ID (wr_Wager r)) (\<lambda>r. r\<lparr>wr_Wager := ?g (wr_Wager r)\<rparr>) db3"
      using upd row(1) wager_rowD [OF row(2)] by (auto elim: update_accepted_Inr)
    have apart: "user \<noteq> escrow" if "money_ok db"
      using ids ids_apart(1) o' that by (auto simp: opens_def money_ok_def)
    show "balanced db db'"
    proof (rule balanced_if_ok)
      assume ok: "money_ok db"
      show ?thesis
        by (rule escrow_wager_step [OF o' post ids(1) _ _ wager_rowD [OF row(2), THEN conjunct1] _ _ _ _ _ opens.R_refl,
              of "\<lambda>r. r\<lparr>wr_Wager := ?g (wr_Wager r)\<rparr>" ?g])
          (use ps ids(2) R(2-4,6,8) stake n apart [OF ok] Money_Negate_cents [OF n(1)]
            keepsD [OF opens_statements(3) aud [unfolded db4]] in \<open>simp_all add: wager_held_def\<close>)
    qed
  qed
qed

section \<open>Placing, rejecting, cancelling\<close>

lemma row_update_balanced:
  assumes "w \<in> set (map wr_Wager (db_Wagers db))" "\<And>r. wr_Wager (f r) = g (wr_Wager r)" "w_ID (g w) = w_ID w" "w_Stake (g w) = w_Stake w"
    and "w_State w \<noteq> WagerAccepted'" "w_State (g w) \<noteq> WagerAccepted'"
  shows "balanced db (set_wager (w_ID w) f db)"
proof (rule balanced_if_ok)
  assume ok: "money_ok db"
  then have "0 < cents (w_Stake (g w))" using assms(1,4) by (auto simp: money_ok_def wagers_ok_def)
  note upd = set_wager_held [OF ok assms(1,2,3) this]
  show ?thesis unfolding balanced_def using upd(1,2,3) assms(5,6) by (simp add: wager_held_def)
qed

lemma reject_balanced [keeps_rules]: "keeps balanced (mark_rejected wagerID by' reason P e)"
proof (rule keepsI)
  fix db x db'
  assume "mark_rejected wagerID by' reason P e db = Inr (x, db')"
  then obtain i b r where r: "wager_at i db = Some r" "w_State (wr_Wager r) = WagerPending" and
    db': "db' = set_wager i (\<lambda>r. r\<lparr>wr_Wager := (wr_Wager r)\<lparr>w_State := WagerRejected\<rparr>, wr_RejectedBy := b, wr_RejectionReason := reason\<rparr>) db"
    by (auto simp: mark_rejected_def cmd_simps split: if_splits option.splits)
  have row: "wr_Wager r \<in> set (map wr_Wager (db_Wagers db))" "i = w_ID (wr_Wager r)" using wager_rowD [OF r(1)] by simp_all
  show "balanced db db'"
    unfolding db' row(2) by (rule row_update_balanced [OF row(1), of _ "\<lambda>w. w\<lparr>w_State := WagerRejected\<rparr>"]) (simp_all add: r(2))
qed

lemma insert_wager_balanced:
  assumes "insert_wager w db = Inr ((), db')" "0 < cents (w_Stake w)" "w_State w = WagerPending"
  shows "balanced db db'"
proof (cases "db' = db")
  case False
  with assms(1) obtain i u m s placedBy where i: "pg_uuid (w_ID w) = Some i" "i \<notin> (w_ID \<circ> wr_Wager) ` set (db_Wagers db)"
    and db': "db' = db\<lparr>db_Wagers := db_Wagers db @
           [\<lparr>wr_Wager = w\<lparr>w_ID := i, w_UserID := u, w_MarketID := m, w_SelectionID := s, w_PlacedBy := placedBy\<rparr>,
             wr_AcceptedBy = [], wr_AcceptanceTransaction = [], wr_RejectedBy = [], wr_RejectionReason = []\<rparr>]\<rparr>"
    by (cases "null_uuid (w_PlacedBy w)") (auto simp: insert_wager_def cmd_simps split: if_splits)
  have "money_ok db'" if "money_ok db"
    using that pg_uuid_canonical [OF i(1)] i(2) assms(2)
    by (auto simp: db' money_ok_def accounts_ok_def ledger_ok_def other_ids_def wagers_ok_def)
  then show ?thesis
    using assms(3) by (simp add: balanced_def db' escrow_total_def escrow_ids_def stakes_held_def wager_held_def)
qed (simp add: balanced.R_refl)

lemma place_balanced [keeps_rules]: "keeps balanced (placeWagerTx maxPayout req now')"
proof (rule keepsI)
  fix db x db'
  assume "placeWagerTx maxPayout req now' db = Inr (x, db')"
  then obtain c w where w: "PlaceWager c = Inr w" and ins: "insert_wager w db = Inr ((), db')"
    unfolding placeWagerTx_def cmd_simps by (auto simp: cmd_simps dest!: keepsD [OF reads.loads(1)] keepsD [OF reads.loads(3)]
        keepsD [OF reads.loads(5)] keepsD [OF reads.loads(8)] keepsD [OF reads.loads(9)] keepsD [OF reads.loads(10)])
  from PlaceWager_Inr [THEN iffD1, OF w] obtain profit where "Odds_Profit (s_OfferedAmericanOdds (pw_Selection c)) (pw_Stake c) = Inr profit"
    "w_Stake w = pw_Stake c" "w_State w = WagerPending" by auto
  with Odds_Profit_InrD(3) show "balanced db db'" by (intro insert_wager_balanced [OF ins]) auto
qed

section \<open>Settling up\<close>

lemma elsewhere_balanced:
  assumes "opens db db1" "insertLedgerTransaction txn db1 = Inr (tid, db2)"
    and "money_ok db1 \<Longrightarrow> \<forall>p \<in> set (t_Postings txn). p_AccountID p \<in> other_ids db1"
  shows "balanced db db2"
proof (rule balanced_if_ok)
  assume "money_ok db"
  with assms(1) have ok1: "money_ok db1" by (simp add: opens_def)
  note post = posted_elsewhere [OF assms(2) ok1 assms(3) [OF ok1]]
  have "stakes_held db2 c = stakes_held db1 c" for c by (simp add: stakes_held_def post(2,3))
  then have "balanced db1 db2" by (simp add: balanced_def post(1,4))
  with opens_balanced [OF assms(1)] show "balanced db db2" by (rule balanced.R_trans)
qed

lemma record_posting_balanced [keeps_rules]: "keeps balanced (postSettlementTx req now')"
proof (rule keepsI)
  fix db u db'
  let ?c = "rs_Currency req"
  assume "postSettlementTx req now' db = Inr (u, db')"
  then obtain user db1 house db2 c txn tid where e1: "ensureUserAccount (rs_UserID req) FundingUserCash ?c db = Inr (user, db1)"
    and e2: "ensureSystemAccount ''house_clearing'' ?c db1 = Inr (house, db2)"
    and txn: "RecordAdjustment c = Inr txn" "ad_Refs c = \<lparr>adr_UserFundingAccountID = user, adr_HouseClearingAccountID = house\<rparr>"
    and post: "insertLedgerTransaction txn db2 = Inr (tid, db')"
    by (auto simp: postSettlementTx_def cmd_simps)
  note o1 = ensureUserAccount_Inr [OF e1] and o2 = ensureSystemAccount_Inr [OF e2]
  from txn have "p_AccountID ` set (t_Postings txn) \<subseteq> {user, house}"
    by (auto simp: RecordAdjustment_def Let_def result_simps)
  with o1(2) o2(1,3) opens_ids(2) have "\<forall>p \<in> set (t_Postings txn). p_AccountID p \<in> other_ids db2" by blast
  then show "balanced db db'" by (rule elsewhere_balanced [OF opens.R_trans [OF o1(1) o2(1)] post])
qed

lemma negate_postings_accounts: "negate_postings ps = Inr qs \<Longrightarrow> map p_AccountID qs = map p_AccountID ps"
  by (induction ps arbitrary: qs) (auto simp: result_simps)

lemma reverse_posting_balanced [keeps_rules]: "keeps balanced (postReversalTx i actor reason)"
proof (rule keepsI)
  fix db u db'
  assume "postReversalTx i actor reason db = Inr (u, db')"
  then obtain original oid db1 txn tid where load: "loadAdjustmentTransaction i db = Inr ((original, oid), db1)"
    and rev: "ReverseAdjustment original oid actor reason = Inr txn" and post: "insertLedgerTransaction txn db1 = Inr (tid, db')"
    by (auto simp: postReversalTx_def cmd_simps)
  have same: "db1 = db" using keepsD [OF reads.loads(22) load] .
  from load obtain j where j: "pg_uuid i = Some j" by (auto simp: loadAdjustmentTransaction_def cmd_simps)
  from load j obtain r where r: "List.find (is_adjustment j) (db_Transactions db) = Some r"
    by (cases "List.find (is_adjustment j) (db_Transactions db)") (auto simp: loadAdjustmentTransaction_def cmd_simps)
  with load j have ids: "map p_AccountID (t_Postings original) = map p_AccountID (t_Postings (lt_Transaction r))"
    by (cases "ParseCurrency (t_Currency (lt_Transaction r))") (auto simp: loadAdjustmentTransaction_def cmd_simps Let_def comp_def)
  from find_SomeD [OF r] have row: "r \<in> set (db_Transactions db)" "t_Type (lt_Transaction r) = TransactionAdminAdjustment"
    by (auto simp: is_adjustment_def)
  have "map p_AccountID (t_Postings txn) = map p_AccountID (t_Postings original)"
    using rev by (auto simp: ReverseAdjustment_def Let_def result_simps negate_postings_accounts)
  with ids have "p_AccountID ` set (t_Postings txn) = p_AccountID ` set (t_Postings (lt_Transaction r))"
    by (metis set_map)
  moreover have "p_AccountID ` set (t_Postings (lt_Transaction r)) \<subseteq> other_ids db" if "money_ok db"
    using that row by (auto simp: money_ok_def ledger_ok_def)
  ultimately have "money_ok db \<Longrightarrow> \<forall>p \<in> set (t_Postings txn). p_AccountID p \<in> other_ids db" by blast
  then show "balanced db db'" by (rule elsewhere_balanced [OF opens.R_refl post [unfolded same]])
qed

lemma settling_up_balanced:
  "balanced db (snd (RecordSettlement req now' db))" "balanced db (snd (ReverseSettlement i actor reason db))"
  unfolding RecordSettlement_def ReverseSettlement_def by (intro balanced.run_tx_keeps keeps_rules)+

section \<open>The operations\<close>

lemma unseen_balanced: "money_view db' = money_view db \<Longrightarrow> balanced db db'"
  by (rule opens_balanced) (rule same_opens)

lemma reprice_balanced: "balanced db db1 \<Longrightarrow> balanced db (snd (then_reprice exp64 i f (x, db1)))"
  by (auto simp: then_reprice_def balanced.R_trans [OF _ unseen_balanced [OF money.unseen_lines(1)]] split: sum.split)

lemma wager_operations_balanced:
  "balanced db (snd (Store_PlaceWager configured place now' db))"
  "balanced db (snd (Store_AcceptWager i actor now' db))"
  "balanced db (snd (Store_RejectWager i actor reason db))"
  "balanced db (snd (Store_CancelWager i actor db))"
  "balanced db (snd (Store_VoidWager exp64 i actor reason now' db))"
  "balanced db (snd (Store_ReduceWager exp64 i stake actor reason now' db))"
proof -
  show "balanced db (snd (Store_PlaceWager configured place now' db))"
    "balanced db (snd (Store_AcceptWager i actor now' db))"
    "balanced db (snd (Store_RejectWager i actor reason db))"
    "balanced db (snd (Store_CancelWager i actor db))"
    unfolding Store_PlaceWager_def Store_AcceptWager_def Store_RejectWager_def Store_CancelWager_def
    by (intro balanced.run_tx_keeps keeps_rules)+
  show "balanced db (snd (Store_VoidWager exp64 i actor reason now' db))"
    unfolding Store_VoidWager_def
    by (subst prod.collapse [symmetric], intro reprice_balanced balanced.run_tx_keeps keeps_rules)
  show "balanced db (snd (Store_ReduceWager exp64 i stake actor reason now' db))"
    unfolding Store_ReduceWager_def
    by (subst prod.collapse [symmetric], intro reprice_balanced balanced.run_tx_keeps keeps_rules)
qed

end
