(* ===== verification/Book_Parlay_Money.thy ===== *)
theory Book_Parlay_Money
  imports Book_Wager_Money
begin

text \<open>
  The operations on parlays keep the book balanced: placing, accepting, refusing, and the payment that runs when a
  market of one of their legs is settled.
\<close>

section \<open>Rows\<close>

lemma parlay_rowD: "parlay_at i db = Some r \<Longrightarrow> py_Parlay r \<in> set (map py_Parlay (db_Parlays db)) \<and> pa_ID (py_Parlay r) = i"
  unfolding parlay_at_def using find_SomeD by fastforce

lemma loadParlay_Inr [cmd_simps]:
  "loadParlay i db = Inr (p, db') \<longleftrightarrow> (\<exists>j r. pg_uuid i = Some j \<and> parlay_at j db = Some r \<and> p = py_Parlay r \<and> db' = db)"
  by (auto simp: loadParlay_def cmd_simps split: option.splits)

lemma parlay_update_balanced:
  assumes "p \<in> set (map py_Parlay (db_Parlays db))" "\<And>r. py_Parlay (f r) = g (py_Parlay r)" "pa_ID (g p) = pa_ID p"
    and "pa_Stake (g p) = pa_Stake p" "(pa_State (g p) = WagerAccepted') = (pa_State p = WagerAccepted')"
  shows "balanced db (set_parlay (pa_ID p) f db)"
proof (rule balanced_if_ok)
  assume ok: "money_ok db"
  then have "0 < cents (pa_Stake (g p))" using assms(1,4) by (auto simp: money_ok_def parlays_ok_def)
  note upd = set_parlay_held [OF ok assms(1,2,3) this]
  show ?thesis unfolding balanced_def using upd(1,2,3) assms(4,5) by (simp add: parlay_held_def)
qed

section \<open>Placing and refusing\<close>

lemma insert_parlay_balanced:
  assumes "insert_parlay p db = Inr (q, db')" "0 < cents (pa_Stake p)" "pa_State p = WagerPending"
  shows "balanced db db'"
proof (cases "db' = db")
  case False
  with assms(1) obtain i u placedBy legs where i: "pg_uuid (pa_ID p) = Some i" "i \<notin> (pa_ID \<circ> py_Parlay) ` set (db_Parlays db)"
    and db': "db' = db\<lparr>db_Parlays := db_Parlays db @ [\<lparr>py_Parlay = p\<lparr>pa_ID := i, pa_UserID := u, pa_PlacedBy := placedBy, pa_Legs := legs\<rparr>,
       py_AcceptedBy = [], py_AcceptanceTransaction = [], py_RejectedBy = [], py_RejectionReason = []\<rparr>]\<rparr>"
    by (cases "null_uuid (pa_PlacedBy p)"; cases "those (map (\<lambda>l. cast_leg l db) (pa_Legs p))")
      (auto simp: insert_parlay_def cmd_simps Let_def split: if_splits option.split_asm)
  have "money_ok db'" if "money_ok db"
    using that pg_uuid_canonical [OF i(1)] i(2) assms(2)
    by (auto simp: db' money_ok_def accounts_ok_def ledger_ok_def other_ids_def parlays_ok_def)
  then show ?thesis
    using assms(3) by (simp add: balanced_def db' escrow_total_def escrow_ids_def stakes_held_def parlay_held_def)
qed (simp add: balanced.R_refl)

lemma price_parlay_Inr:
  assumes "price_parlay maxPayout req now' db = Inr (p, db')"
  obtains c where "PlaceParlay c = Inr p" "db' = db"
  using assms keepsD [OF reads.keeps_price_parlay assms] by (auto simp: price_parlay_def cmd_simps)

lemma place_parlay_balanced: "balanced db (snd (Store_PlaceParlay configured req now' db))"
proof -
  have "keeps balanced (andThen (price_parlay m req now') insert_parlay)" for m
  proof (rule keepsI)
    fix db q db'
    assume "andThen (price_parlay m req now') insert_parlay db = Inr (q, db')"
    then obtain p db1 where price: "price_parlay m req now' db = Inr (p, db1)" and ins: "insert_parlay p db1 = Inr (q, db')"
      by (auto simp: cmd_simps)
    from price_parlay_Inr [OF price] obtain c where c: "PlaceParlay c = Inr p" "db1 = db" by blast
    with PlaceParlay_Inr(3,4,6) [OF c(1)] Odds_Profit_InrD(3) show "balanced db db'"
      using insert_parlay_balanced [OF ins] by metis
  qed
  then show ?thesis
    unfolding Store_PlaceParlay_def
    by (intro balanced.run_tx_keeps balanced.keeps_andThen [OF balanced.keeps_require]) 
qed

lemma update_parlay_Inr:
  assumes "update_parlay i by' f db = Inr ((), db')"
  obtains j b where "pg_uuid i = Some j" "db' = set_parlay j (f b) db"
  using assms by (auto simp: update_parlay_def cmd_simps split: if_splits)

lemma refuse_parlay_balanced [keeps_rules]:
  assumes "keeps balanced guards" "keeps (\<lambda>db db'. db' = db) guards"
  shows "keeps balanced (refuse_parlay i by' guards mine reason)"
proof (rule keepsI)
  fix db u db'
  assume "refuse_parlay i by' guards mine reason db = Inr (u, db')"
  then obtain j r db1 where g: "guards db = Inr ((), db1)" and r: "pg_uuid i = Some j" "parlay_at j db1 = Some r" "pa_State (py_Parlay r) = WagerPending"
    and upd: "update_parlay i by' (\<lambda>b r. r\<lparr>py_Parlay := (py_Parlay r)\<lparr>pa_State := WagerRejected\<rparr>,
      py_RejectedBy := b, py_RejectionReason := reason\<rparr>) db1 = Inr ((), db')"
    by (auto simp: refuse_parlay_def cmd_simps)
  have same: "db1 = db" using keepsD [OF assms(2) g] .
  from upd r(1) obtain b where db': "db' = set_parlay (pa_ID (py_Parlay r)) (\<lambda>r. r\<lparr>py_Parlay := (py_Parlay r)\<lparr>pa_State := WagerRejected\<rparr>,
      py_RejectedBy := b, py_RejectionReason := reason\<rparr>) db"
    using parlay_rowD [OF r(2)] by (auto elim: update_parlay_Inr simp: same)
  show "balanced db db'"
    unfolding db' by (rule parlay_update_balanced [OF _ _, of _ _ _ "\<lambda>p. p\<lparr>pa_State := WagerRejected\<rparr>"])
      (use parlay_rowD [OF r(2)] r(3) in \<open>simp_all add: same\<close>)
qed

section \<open>Accepting\<close>

lemma acceptParlayTx_Inr:
  assumes "acceptParlayTx i actor db = Inr (x, db')"
    and "pg_uuid i = Some j" "parlay_at j db = Some r" "pa_State (py_Parlay r) \<noteq> WagerAccepted'"
  obtains stake refs db1 a u limit n tid db2 where
    "pa_State (py_Parlay r) = WagerPending" "\<not> list_ex (decided_leg db) (pa_Legs (py_Parlay r))"
    "NewMoney (m_Cents (pa_Stake (py_Parlay r))) (m_Currency (pa_Stake (py_Parlay r))) = Inr stake"
    "open_accounts (pa_UserID (py_Parlay r)) (pa_FundingAccountType (py_Parlay r)) (m_Currency (pa_Stake (py_Parlay r))) db = Inr (refs, db1)"
    "pg_uuid (sr_UserFundingAccountID refs) = Some a" "in_int64 (account_total db1 a)"
    "pg_uuid (pa_UserID (py_Parlay r)) = Some u" "credit_of u db1 = Some limit"
    "cents stake \<le> sint (word_of_int (account_total db1 a) + limit)" "Money_Negate stake = Inr n"
    "insertLedgerTransaction (parlay_acceptance i actor stake n (sr_UserFundingAccountID refs) (sr_EscrowAccountID refs)) db1 = Inr (tid, db2)"
    "update_parlay i actor (\<lambda>b r. r\<lparr>py_Parlay := (py_Parlay r)\<lparr>pa_State := WagerAccepted'\<rparr>,
      py_AcceptedBy := b, py_AcceptanceTransaction := tid\<rparr>) db2 = Inr ((), db')"
  using assms by (auto simp: acceptParlayTx_def cmd_simps new_money_def Let_def not_less split: if_split_asm)

lemma accept_parlay_balanced: "keeps balanced (acceptParlayTx i actor)"
proof (rule keepsI)
  fix db x db'
  assume run: "acceptParlayTx i actor db = Inr (x, db')"
  then obtain j r where row: "pg_uuid i = Some j" "parlay_at j db = Some r"
    by (auto simp: acceptParlayTx_def cmd_simps)
  show "balanced db db'"
  proof (cases "pa_State (py_Parlay r) = WagerAccepted'")
    case True
    with run row have "db' = db" by (auto simp: acceptParlayTx_def cmd_simps)
    then show ?thesis by (simp add: balanced.R_refl)
  next
    case False
    let ?p = "py_Parlay r" and ?c = "m_Currency (pa_Stake (py_Parlay r))"
    obtain stake refs db1 n tid db2 where
        st: "pa_State ?p = WagerPending" and stake: "NewMoney (m_Cents (pa_Stake ?p)) ?c = Inr stake"
      and refs: "open_accounts (pa_UserID ?p) (pa_FundingAccountType ?p) ?c db = Inr (refs, db1)" and n: "Money_Negate stake = Inr n"
      and post: "insertLedgerTransaction (parlay_acceptance i actor stake n (sr_UserFundingAccountID refs) (sr_EscrowAccountID refs)) db1 = Inr (tid, db2)"
      and upd: "update_parlay i actor (\<lambda>b r. r\<lparr>py_Parlay := (py_Parlay r)\<lparr>pa_State := WagerAccepted'\<rparr>,
        py_AcceptedBy := b, py_AcceptanceTransaction := tid\<rparr>) db2 = Inr ((), db')"
      by (rule acceptParlayTx_Inr [OF run row False]) (rule that; assumption)
    note refs' = open_accounts_Inr [OF refs] and p = parlay_rowD [OF row(2)]
    have stake': "stake = pa_Stake ?p" using stake by (auto simp: NewMoney_def result_simps)
    from upd row(1) p obtain b where db': "db' = set_parlay (pa_ID ?p) (\<lambda>r. r\<lparr>py_Parlay := (py_Parlay r)\<lparr>pa_State := WagerAccepted'\<rparr>,
        py_AcceptedBy := b, py_AcceptanceTransaction := tid\<rparr>) db2"
      by (auto elim: update_parlay_Inr)
    show ?thesis
    proof (rule balanced_if_ok)
      assume ok: "money_ok db"
      then have "sr_UserFundingAccountID refs \<noteq> sr_EscrowAccountID refs" "0 < cents (pa_Stake ?p)"
        using refs' ids_apart(1) p by (auto simp: opens_def money_ok_def parlays_ok_def)
      then show ?thesis
        by (intro escrow_parlay_step [OF refs'(1) post refs'(3) _ _ p [THEN conjunct1] _ _ _ _ _ opens.R_refl,
              where f = "\<lambda>r. r\<lparr>py_Parlay := (py_Parlay r)\<lparr>pa_State := WagerAccepted'\<rparr>, py_AcceptedBy := b, py_AcceptanceTransaction := tid\<rparr>"
                and g = "\<lambda>p. p\<lparr>pa_State := WagerAccepted'\<rparr>"])
          (use refs'(2) st in \<open>auto simp: parlay_acceptance_def stake' parlay_held_def db' opens.R_refl\<close>)
    qed
  qed
qed

lemma parlay_operations_balanced:
  "balanced db (snd (Store_PlaceParlay configured req now' db))" "balanced db (snd (Store_AcceptParlay i actor db))"
  "balanced db (snd (Store_RejectParlay i actor reason db))" "balanced db (snd (Store_CancelParlay i actor db))"
  unfolding Store_AcceptParlay_def Store_RejectParlay_def Store_CancelParlay_def
  by (intro place_parlay_balanced balanced.run_tx_keeps accept_parlay_balanced refuse_parlay_balanced
      balanced.keeps_require balanced.keeps_ret reads.keeps_require reads.keeps_ret)+

section \<open>Paying a decided parlay\<close>

lemma parlay_postings_head:
  assumes "parlay_postings g user escrow house = Inr (ty, ps)"
  shows "ty \<noteq> TransactionAdminAdjustment"
    "\<exists>n qs. Money_Negate (po_Stake g) = Inr n \<and> ps = \<lparr>p_AccountID = escrow, p_Amount = n\<rparr> # qs
       \<and> (\<forall>q \<in> set qs. p_AccountID q \<in> {user, house})"
  using assms by (cases "po_Result g"; auto simp: parlay_postings_def result_simps)+

lemma settleParlay_posts:
  assumes "settleParlayIfComplete p j user escrow house = Inr (Some (g, t))"
  obtains n qs where "Money_Negate (pa_Stake p) = Inr n" "t_Type t \<noteq> TransactionAdminAdjustment"
    "t_Postings t = \<lparr>p_AccountID = escrow, p_Amount = n\<rparr> # qs" "\<forall>q \<in> set qs. p_AccountID q \<in> {user, house}"
proof -
  from settleParlay_Inr(1) [OF assms] GradeParlay_facts have stake: "po_Stake g = pa_Stake p" by metis
  have "parlay_postings g user escrow house = Inr (t_Type t, t_Postings t)"
    using assms unfolding settleParlayIfComplete_def Let_def
    by (simp add: result_simps case_prod_eq_Inr split: if_splits) (auto split: option.splits)
  from parlay_postings_head [OF this] stake that show thesis by auto
qed

lemma settleParlayTx_Inr:
  assumes "settleParlayIfCompleteTx i juice db = Inr (u, db')"
  obtains (open_) "db' = db"
    | (paid) j and r :: parlay_row where "pg_uuid i = Some j" "parlay_at j db = Some r" "payParlayTx i (py_Parlay r) juice db = Inr (u, db')"
  using assms by (auto simp: settleParlayIfCompleteTx_def cmd_simps split: if_split_asm)

lemma payParlayTx_Inr:
  assumes "payParlayTx i p juice db = Inr (u, db')" "pg_uuid i = Some j"
  obtains (nothing) refs where "open_accounts (pa_UserID p) (pa_FundingAccountType p) (m_Currency (pa_Stake p)) db = Inr (refs, db')"
    | (posted) refs db1 g t tid db2 where
      "open_accounts (pa_UserID p) (pa_FundingAccountType p) (m_Currency (pa_Stake p)) db = Inr (refs, db1)"
      "settleParlayIfComplete p juice (sr_UserFundingAccountID refs) (sr_EscrowAccountID refs) (sr_HouseClearingAccountID refs)
        = Inr (Some (g, t))"
      "insertLedgerTransaction t db1 = Inr (tid, db2)"
      "db' = set_parlay j (\<lambda>r. r\<lparr>py_Parlay := (py_Parlay r)\<lparr>pa_State := WagerSettled'\<rparr>\<rparr>) (insert_parlay_settlement j g tid db2)"
  using assms by (auto simp: payParlayTx_def cmd_simps split: option.split_asm)

lemma insert_parlay_settlement_view: "money_view (insert_parlay_settlement i g tid db) = money_view db"
  by (simp add: insert_parlay_settlement_def)

lemma paid_balanced:
  assumes ok: "money_ok db" and p: "p \<in> set (map py_Parlay (db_Parlays db))" "pa_ID p = i" "pa_State p = WagerAccepted'"
    and row: "pg_uuid i = Some j" "parlay_at j db = Some r"
    and refs: "open_accounts (pa_UserID (py_Parlay r)) (pa_FundingAccountType (py_Parlay r)) (m_Currency (pa_Stake (py_Parlay r))) db = Inr (refs, db1)"
    and pay: "settleParlayIfComplete (py_Parlay r) juice (sr_UserFundingAccountID refs) (sr_EscrowAccountID refs) (sr_HouseClearingAccountID refs)
        = Inr (Some (g, t))"
    and post: "insertLedgerTransaction t db1 = Inr (tid, db2)"
    and db': "db' = set_parlay j (\<lambda>r. r\<lparr>py_Parlay := (py_Parlay r)\<lparr>pa_State := WagerSettled'\<rparr>\<rparr>) (insert_parlay_settlement j g tid db2)"
  shows "balanced db db' \<and> (\<forall>q \<in> set (map py_Parlay (db_Parlays db)). pa_ID q \<noteq> i \<longrightarrow> q \<in> set (map py_Parlay (db_Parlays db')))"
proof -
  let ?db3 = "insert_parlay_settlement j g tid db2"
  note same = insert_parlay_settlement_view [of j g tid db2]
  note r = parlay_rowD [OF row(2)] and refs' = open_accounts_Inr [OF refs]
  have "canonical i" using ok p by (auto simp: money_ok_def parlays_ok_def)
  with row(1) have j: "j = i" by (simp add: canonical_def)
  have rp: "py_Parlay r = p" using ok p r unfolding money_ok_def parlays_ok_def by (metis distinct_map inj_onD j)
  obtain n qs where n: "Money_Negate (pa_Stake p) = Inr n" and ty: "t_Type t \<noteq> TransactionAdminAdjustment"
    and ps: "t_Postings t = \<lparr>p_AccountID = sr_EscrowAccountID refs, p_Amount = n\<rparr> # qs"
    and qs: "\<forall>q \<in> set qs. p_AccountID q \<in> {sr_UserFundingAccountID refs, sr_HouseClearingAccountID refs}"
    by (rule settleParlay_posts [OF pay [unfolded rp]])
  have acc: "accounts_ok db1" using refs'(1) ok by (auto simp: opens_def money_ok_def)
  have none: "filter (\<lambda>p. p_AccountID p = sr_EscrowAccountID refs) qs = []"
    using qs refs'(2-4) ids_apart(1) [OF acc] by (fastforce simp: filter_empty_conv)
  have pos: "0 < cents (pa_Stake p)" using ok p by (auto simp: money_ok_def parlays_ok_def)
  have others: "\<forall>q \<in> set (t_Postings t). p_AccountID q = sr_EscrowAccountID refs \<or> p_AccountID q \<in> other_ids db1"
    using ps qs refs'(2,4) by auto
  have "balanced db db'"
    by (rule escrow_parlay_step [OF refs'(1) post refs'(3) others ty r [THEN conjunct1] _ _ _ _ _ same_opens [OF same],
            where f = "\<lambda>r. r\<lparr>py_Parlay := (py_Parlay r)\<lparr>pa_State := WagerSettled'\<rparr>\<rparr>" and g = "\<lambda>p. p\<lparr>pa_State := WagerSettled'\<rparr>"])
      (use ps none pos p(2,3) Money_Negate_cents [OF n] in \<open>auto simp: parlay_held_def db' opens.R_refl rp j\<close>)
  moreover have "map py_Parlay (db_Parlays ?db3) = map py_Parlay (db_Parlays db)"
  proof -
    have "db_Parlays db2 = db_Parlays db1"
      by (rule posted_escrow(3) [OF post _ refs'(3) others ty]) (use refs'(1) ok in \<open>auto simp: opens_def\<close>)
    then show ?thesis using refs'(1) money_view_eq(7) [OF same] by (simp add: opens_def)
  qed
  ultimately show ?thesis
    unfolding db' j by (auto simp: map_set_parlay [of _ "\<lambda>p. p\<lparr>pa_State := WagerSettled'\<rparr>"] simp del: map_map)
qed

lemma settle_parlay_balanced:
  assumes run: "settleParlayIfCompleteTx i juice db = Inr (u, db')" and ok: "money_ok db"
    and p: "p \<in> set (map py_Parlay (db_Parlays db))" "pa_ID p = i" "pa_State p = WagerAccepted'"
  shows "balanced db db'"
    and "q \<in> set (map py_Parlay (db_Parlays db)) \<Longrightarrow> pa_ID q \<noteq> i \<Longrightarrow> q \<in> set (map py_Parlay (db_Parlays db'))"
proof -
  have "balanced db db' \<and> (\<forall>q \<in> set (map py_Parlay (db_Parlays db)). pa_ID q \<noteq> i \<longrightarrow> q \<in> set (map py_Parlay (db_Parlays db')))"
  proof (rule settleParlayTx_Inr [OF run])
    assume "db' = db" then show ?thesis by (simp add: balanced.R_refl)
  next
    fix j and r :: parlay_row
    assume row: "pg_uuid i = Some j" "parlay_at j db = Some r" and pay: "payParlayTx i (py_Parlay r) juice db = Inr (u, db')"
    show ?thesis
    proof (rule payParlayTx_Inr [OF pay row(1)])
      fix refs
      assume "open_accounts (pa_UserID (py_Parlay r)) (pa_FundingAccountType (py_Parlay r)) (m_Currency (pa_Stake (py_Parlay r))) db = Inr (refs, db')"
      from open_accounts_Inr(1) [OF this] opens_balanced show ?thesis by (auto simp: opens_def simp del: map_map)
    next
      fix refs db1 g t tid db2
      let ?db3 = "insert_parlay_settlement j g tid db2"
      assume refs: "open_accounts (pa_UserID (py_Parlay r)) (pa_FundingAccountType (py_Parlay r)) (m_Currency (pa_Stake (py_Parlay r))) db = Inr (refs, db1)"
        and pay: "settleParlayIfComplete (py_Parlay r) juice (sr_UserFundingAccountID refs) (sr_EscrowAccountID refs) (sr_HouseClearingAccountID refs)
        = Inr (Some (g, t))"
        and post: "insertLedgerTransaction t db1 = Inr (tid, db2)"
        and db': "db' = set_parlay j (\<lambda>r. r\<lparr>py_Parlay := (py_Parlay r)\<lparr>pa_State := WagerSettled'\<rparr>\<rparr>) ?db3"
      show ?thesis
        by (rule paid_balanced [OF ok p row refs pay post db'])
    qed
  qed
  then show "balanced db db'"
    "q \<in> set (map py_Parlay (db_Parlays db)) \<Longrightarrow> pa_ID q \<noteq> i \<Longrightarrow> q \<in> set (map py_Parlay (db_Parlays db'))" by blast+
qed

section \<open>The legs on a market\<close>

definition resolves :: "book_db \<Rightarrow> book_db \<Rightarrow> bool" where
  \<comment> \<open>only results of legs change\<close>
  "resolves db db' \<longleftrightarrow> balanced db db' \<and> map (\<lambda>p. (pa_ID p, pa_State p)) (map py_Parlay (db_Parlays db'))
     = map (\<lambda>p. (pa_ID p, pa_State p)) (map py_Parlay (db_Parlays db))"

interpretation resolves: command_relation resolves
  by unfold_locales (auto simp: resolves_def balanced.R_refl intro: balanced.R_trans)

lemma resolve_leg_resolves: "resolves db (resolve_leg i s result db)"
proof -
  define g where "g p = p\<lparr>pa_Legs := map (\<lambda>l. if l_SelectionID l = s \<and> l_Result l = no_result then l\<lparr>l_Result := result\<rparr> else l)
       (pa_Legs p)\<rparr>" for p :: parlay
  let ?h = "\<lambda>p. if pa_ID p = i then g p else p"
  have g: "pa_ID (g p) = pa_ID p" "pa_Stake (g p) = pa_Stake p" "pa_State (g p) = pa_State p" for p by (simp_all add: g_def)
  have m: "map py_Parlay (db_Parlays (resolve_leg i s result db)) = map ?h (map py_Parlay (db_Parlays db))"
    unfolding resolve_leg_def by (rule map_set_parlay) (simp add: g_def)
  have ids: "map pa_ID (map ?h ps) = map pa_ID ps" for ps by (simp add: comp_def g if_distrib cong: if_cong)
  have held: "map (parlay_held c) (map ?h ps) = map (parlay_held c) ps" for c ps
    by (simp add: comp_def parlay_held_def g if_distrib cong: if_cong)
  have "parlays_ok (map ?h ps)" if "parlays_ok ps" for ps
    using that g unfolding parlays_ok_def ids by auto
  moreover have same: "db_Accounts (resolve_leg i s result db) = db_Accounts db" "db_Wagers (resolve_leg i s result db) = db_Wagers db"
    "db_Transactions (resolve_leg i s result db) = db_Transactions db"
    by (simp_all add: resolve_leg_def set_parlay_def)
  ultimately have ok: "money_ok (resolve_leg i s result db)" if "money_ok db"
    using that unfolding money_ok_def accounts_ok_def ledger_ok_def other_ids_def m same by blast
  have "stakes_held (resolve_leg i s result db) c = stakes_held db c" for c
    unfolding stakes_held_def m same held by (rule refl)
  moreover have "escrow_total (resolve_leg i s result db) c = escrow_total db c" for c
    unfolding escrow_total_def escrow_ids_def same by (rule refl)
  ultimately have "balanced db (resolve_leg i s result db)" using ok by (simp add: balanced_def)
  then show ?thesis by (simp add: resolves_def m g comp_def if_distrib cong: if_cong)
qed

lemma resolve_one_resolves [keeps_rules]: "keeps resolves (resolve_one outcome voided x)"
  by (rule keepsI) (auto simp: resolve_one_def cmd_simps resolve_leg_resolves split: if_split_asm option.split_asm prod.split_asm)

lemma settle_parlays_balanced:
  assumes "each (\<lambda>i. settleParlayIfCompleteTx i juice) is db = Inr (u, db')" "money_ok db" "distinct is"
    and "\<forall>i \<in> set is. \<exists>p \<in> set (map py_Parlay (db_Parlays db)). pa_ID p = i \<and> pa_State p = WagerAccepted'"
  shows "balanced db db'"
  using assms
proof (induction "is" arbitrary: db)
  case Nil
  then show ?case by (simp add: cmd_simps balanced.R_refl)
next
  case (Cons i js)
  from Cons.prems(1) obtain u1 db1 where run: "settleParlayIfCompleteTx i juice db = Inr (u1, db1)"
    and rest: "each (\<lambda>i. settleParlayIfCompleteTx i juice) js db1 = Inr (u, db')"
    by (auto simp: cmd_simps)
  from Cons.prems(4) obtain p where p: "p \<in> set (map py_Parlay (db_Parlays db))" "pa_ID p = i" "pa_State p = WagerAccepted'" by auto
  note step = settle_parlay_balanced [OF run Cons.prems(2) p]
  have ok1: "money_ok db1" using step(1) Cons.prems(2) by (simp add: balanced_def)
  have "\<forall>j \<in> set js. \<exists>q \<in> set (map py_Parlay (db_Parlays db1)). pa_ID q = j \<and> pa_State q = WagerAccepted'"
  proof
    fix j assume j: "j \<in> set js"
    with Cons.prems(4) obtain q where q: "q \<in> set (map py_Parlay (db_Parlays db))" "pa_ID q = j" "pa_State q = WagerAccepted'" by auto
    with j Cons.prems(3) have "q \<in> set (map py_Parlay (db_Parlays db1))" by (intro step(2)) auto
    with q(2,3) show "\<exists>q \<in> set (map py_Parlay (db_Parlays db1)). pa_ID q = j \<and> pa_State q = WagerAccepted'" by blast
  qed
  from balanced.R_trans [OF step(1) Cons.IH [OF rest ok1 _ this]] Cons.prems(3) show ?case by simp
qed

lemma open_legs_accepted:
  "(i, s) \<in> set (open_legs_on m db) \<Longrightarrow> \<exists>p \<in> set (map py_Parlay (db_Parlays db)). pa_ID p = i \<and> pa_State p = WagerAccepted'"
  by (auto simp: open_legs_on_def)

lemma resolve_balanced [keeps_rules]: "keeps balanced (resolveParlayLegsTx marketID outcome voided juice)"
proof (rule keepsI)
  fix db u db'
  assume "resolveParlayLegsTx marketID outcome voided juice db = Inr (u, db')"
  then obtain m u1 db1 where legs: "each (resolve_one outcome voided) (open_legs_on m db) db = Inr (u1, db1)"
    and pay: "each (\<lambda>i. settleParlayIfCompleteTx i juice) (remdups (map fst (open_legs_on m db))) db1 = Inr (u, db')"
    by (auto simp: resolveParlayLegsTx_def cmd_simps)
  have r: "resolves db db1" by (rule keepsD [OF resolves.keeps_each legs]) (rule resolve_one_resolves)
  show "balanced db db'"
  proof (rule balanced_if_ok)
    assume ok: "money_ok db"
    have "\<forall>i \<in> set (remdups (map fst (open_legs_on m db))). \<exists>p \<in> set (map py_Parlay (db_Parlays db1)). pa_ID p = i \<and> pa_State p = WagerAccepted'"
    proof
      fix i assume "i \<in> set (remdups (map fst (open_legs_on m db)))"
      then obtain p where "p \<in> set (map py_Parlay (db_Parlays db))" "pa_ID p = i" "pa_State p = WagerAccepted'"
        using open_legs_accepted by fastforce
      then have "(i, WagerAccepted') \<in> set (map (\<lambda>p. (pa_ID p, pa_State p)) (map py_Parlay (db_Parlays db1)))"
        using r unfolding resolves_def by (metis (no_types, lifting) imageI set_map)
      then show "\<exists>p \<in> set (map py_Parlay (db_Parlays db1)). pa_ID p = i \<and> pa_State p = WagerAccepted'" by auto
    qed
    moreover have "money_ok db1" using r ok by (simp add: resolves_def balanced_def)
    ultimately have "balanced db1 db'" by (intro settle_parlays_balanced [OF pay]) simp_all
    with r show ?thesis unfolding resolves_def using balanced.R_trans by blast
  qed
qed

end
