(* ===== verification/Book_Market_Money.thy ===== *)
theory Book_Market_Money
  imports Book_Parlay_Money
begin

text \<open>
  Settling a market keeps the book balanced: \<open>settleWith\<close> posts one transaction per accepted wager, out of escrow,
  and ends the wager; then the parlays with a leg on the market are resolved. \<open>ready\<close> is what a settlement needs of
  the database it is written to: its wager is still accepted and its transaction gives up exactly the stake.
\<close>

section \<open>One settlement\<close>

lemma settleWager_posts:
  assumes "settleWager w result refs msid sid version actor t eid d = Inr (s, w', e)"
  obtains n qs where "Money_Negate (w_Stake w) = Inr n" "ws_WagerID s = w_ID w" "w_State w = WagerAccepted'"
    "t_Type (ws_Transaction s) \<noteq> TransactionAdminAdjustment" "ws_Result s = result"
    "t_Postings (ws_Transaction s) = \<lparr>p_AccountID = sr_EscrowAccountID refs, p_Amount = n\<rparr> # qs"
    "\<forall>q \<in> set qs. p_AccountID q \<in> {sr_UserFundingAccountID refs, sr_HouseClearingAccountID refs}"
proof -
  from assms obtain n k ty profit returned ps where n: "Money_Negate (w_Stake w) = Inr n"
    and sw: "settle_switch w result refs n k = Inr (ty, profit, returned, ps)"
    and s: "ws_WagerID s = w_ID w" "t_Type (ws_Transaction s) = ty" "t_Postings (ws_Transaction s) = ps" "ws_Result s = result"
    and can: "WagerState_CanTransitionTo (w_State w) (if result = ResultVoid then WagerVoided else WagerSettled')"
    unfolding settleWager_def Let_def result_simps case_prod_eq_Inr by fastforce
  have st: "w_State w = WagerAccepted'" using can by (auto simp: CanTransitionTo_from split: if_splits)
  have "ty \<noteq> TransactionAdminAdjustment \<and> (\<exists>qs. ps = \<lparr>p_AccountID = sr_EscrowAccountID refs, p_Amount = n\<rparr> # qs
      \<and> (\<forall>q \<in> set qs. p_AccountID q \<in> {sr_UserFundingAccountID refs, sr_HouseClearingAccountID refs}))"
    using sw by (cases result)
      (auto simp: settle_switch_def settle_win_def Let_def result_simps split: if_split_asm prod.split_asm)
  with n s st that show thesis by blast
qed

definition pays_stake :: "book_db \<Rightarrow> wager \<Rightarrow> transaction \<Rightarrow> bool" where
  "pays_stake db w t \<longleftrightarrow> (\<exists>e n qs. e \<in> escrow_ids db (m_Currency (w_Stake w)) \<and> Money_Negate (w_Stake w) = Inr n
     \<and> t_Postings t = \<lparr>p_AccountID = e, p_Amount = n\<rparr> # qs \<and> (\<forall>q \<in> set qs. p_AccountID q \<in> other_ids db)
     \<and> t_Type t \<noteq> TransactionAdminAdjustment)"

definition ready :: "book_db \<Rightarrow> wager_settlement \<Rightarrow> bool" where
  "ready db s \<longleftrightarrow> (\<exists>w \<in> set (map wr_Wager (db_Wagers db)). w_ID w = ws_WagerID s \<and> w_State w = WagerAccepted'
     \<and> pays_stake db w (ws_Transaction s))"

lemma pays_stake_cong: "db_Accounts db' = db_Accounts db \<Longrightarrow> pays_stake db' w t = pays_stake db w t"
  by (simp add: pays_stake_def escrow_ids_def other_ids_def)

lemma persist_Inr:
  assumes "persist_settlement sid (s, e) db = Inr (u, db')"
  obtains tid db1 w db2 where "insertLedgerTransaction (ws_Transaction s) db = Inr (tid, db1)" "pg_uuid (ws_WagerID s) = Some w"
    "money_view db2 = money_view db1" "board_view db2 = board_view db1" "publish e (set_wager w (\<lambda>r. r\<lparr>wr_Wager := (wr_Wager r)\<lparr>w_State :=
      (if ws_Result s = ResultVoid then WagerVoided else WagerSettled')\<rparr>\<rparr>) db2) = Inr ((), db')"
proof -
  from assms obtain tid db1 i w where post: "insertLedgerTransaction (ws_Transaction s) db = Inr (tid, db1)" and w: "pg_uuid (ws_WagerID s) = Some w"
    and pub: "publish e (set_wager w (\<lambda>r. r\<lparr>wr_Wager := (wr_Wager r)\<lparr>w_State :=
      (if ws_Result s = ResultVoid then WagerVoided else WagerSettled')\<rparr>\<rparr>) (db1\<lparr>db_WagerSettlements := db_WagerSettlements db1 @
        [\<lparr>wt_Settlement = s\<lparr>ws_ID := i, ws_WagerID := w, ws_MarketSettlementID := sid\<rparr>, wt_TransactionID = tid\<rparr>]\<rparr>)) = Inr ((), db')"
    by (auto simp: persist_settlement_def cmd_simps split: if_split_asm)
  show thesis by (rule that [OF post w _ _ pub]) simp_all
qed

lemma persist_balanced:
  assumes "persist_settlement sid (s, e) db = Inr (u, db')" "money_ok db" "ready db s"
  shows "balanced db db'"
    and "v \<in> set (map wr_Wager (db_Wagers db)) \<Longrightarrow> w_ID v \<noteq> ws_WagerID s \<Longrightarrow> v \<in> set (map wr_Wager (db_Wagers db'))"
    and "db_Accounts db' = db_Accounts db"
proof -
  let ?st = "if ws_Result s = ResultVoid then WagerVoided else WagerSettled'"
  let ?f = "\<lambda>r. r\<lparr>wr_Wager := (wr_Wager r)\<lparr>w_State := ?st\<rparr>\<rparr>"
  obtain tid db1 k db2 where post: "insertLedgerTransaction (ws_Transaction s) db = Inr (tid, db1)" and k: "pg_uuid (ws_WagerID s) = Some k"
    and same: "money_view db2 = money_view db1" and pub: "publish e (set_wager k ?f db2) = Inr ((), db')"
    by (rule persist_Inr [OF assms(1)])
  from assms(3) obtain w where w: "w \<in> set (map wr_Wager (db_Wagers db))" "w_ID w = ws_WagerID s" "w_State w = WagerAccepted'"
    and "pays_stake db w (ws_Transaction s)" unfolding ready_def by blast
  then obtain a n qs where a: "a \<in> escrow_ids db (m_Currency (w_Stake w))" and n: "Money_Negate (w_Stake w) = Inr n"
    and ps: "t_Postings (ws_Transaction s) = \<lparr>p_AccountID = a, p_Amount = n\<rparr> # qs" and qs: "\<forall>q \<in> set qs. p_AccountID q \<in> other_ids db"
    and ty: "t_Type (ws_Transaction s) \<noteq> TransactionAdminAdjustment" unfolding pays_stake_def by blast
  have acc: "accounts_ok db" and pos: "0 < cents (w_Stake w)" and canon: "canonical (w_ID w)"
    using assms(2) w by (auto simp: money_ok_def wagers_ok_def)
  from canon k w(2) have k': "k = w_ID w" by (simp add: canonical_def)
  have others: "\<forall>q \<in> set (t_Postings (ws_Transaction s)). p_AccountID q = a \<or> p_AccountID q \<in> other_ids db" using ps qs by simp
  have none: "filter (\<lambda>p. p_AccountID p = a) qs = []"
    using qs a ids_apart(1) [OF acc] by (fastforce simp: filter_empty_conv)
  note P = posted_escrow [OF post assms(2) a others ty]
  have pub': "opens (set_wager (w_ID w) ?f db2) db'" using keepsD [OF opens_statements(2) pub] by (simp add: k')
  show "balanced db db'"
    by (rule escrow_wager_step [OF opens.R_refl post a others ty w(1) _ _ _ _ _ same_opens [OF same] pub', where g = "\<lambda>w. w\<lparr>w_State := ?st\<rparr>"])
      (use ps none pos w(3) Money_Negate_cents [OF n] in \<open>auto simp: wager_held_def\<close>)
  have rows: "map wr_Wager (db_Wagers db') = map (\<lambda>v. if w_ID v = w_ID w then v\<lparr>w_State := ?st\<rparr> else v) (map wr_Wager (db_Wagers db))"
    using money_view_eq(4-7) [OF keepsD [OF money.unseen_publish pub]] money_view_eq(6) [OF same] P(2)
    by (simp add: k' map_set_wager [of ?f "\<lambda>w. w\<lparr>w_State := ?st\<rparr>"] del: map_map)
  show "v \<in> set (map wr_Wager (db_Wagers db'))" if "v \<in> set (map wr_Wager (db_Wagers db))" "w_ID v \<noteq> ws_WagerID s"
    using that w(2) unfolding rows by force
  show "db_Accounts db' = db_Accounts db"
    using money_view_eq(4) [OF keepsD [OF money.unseen_publish pub]] money_view_eq(4) [OF same] P(4) by (simp add: set_wager_def)
qed

lemma persist_all_balanced:
  assumes "each (persist_settlement sid) xs db = Inr (u, db')" "money_ok db" "\<forall>x \<in> set xs. ready db (fst x)"
    and "distinct (map (ws_WagerID \<circ> fst) xs)"
  shows "balanced db db'"
  using assms
proof (induction xs arbitrary: db)
  case Nil
  then show ?case by (simp add: cmd_simps balanced.R_refl)
next
  case (Cons x xs)
  obtain s e where x: "x = (s, e)" by (cases x)
  from Cons.prems(1) obtain u1 db1 where run: "persist_settlement sid (s, e) db = Inr (u1, db1)"
    and rest: "each (persist_settlement sid) xs db1 = Inr (u, db')" by (auto simp: x cmd_simps)
  have "ready db s" using Cons.prems(3) by (simp add: x)
  note step = persist_balanced [OF run Cons.prems(2) this]
  have ok1: "money_ok db1" using step(1) Cons.prems(2) by (simp add: balanced_def)
  have "\<forall>y \<in> set xs. ready db1 (fst y)"
  proof
    fix y assume y: "y \<in> set xs"
    with Cons.prems(3) obtain v where v: "v \<in> set (map wr_Wager (db_Wagers db))" "w_ID v = ws_WagerID (fst y)" "w_State v = WagerAccepted'"
      "pays_stake db v (ws_Transaction (fst y))" unfolding ready_def by auto
    have "ws_WagerID (fst y) \<noteq> ws_WagerID s" using y Cons.prems(4) by (force simp: x)
    then have "v \<in> set (map wr_Wager (db_Wagers db1))" using v(1,2) by (intro step(2)) simp_all
    with v(2-4) pays_stake_cong [OF step(3)] show "ready db1 (fst y)" unfolding ready_def by blast
  qed
  from balanced.R_trans [OF step(1) Cons.IH [OF rest ok1 this]] Cons.prems(4) show ?case by simp
qed

section \<open>The accounts of every wager\<close>

lemma lookup_map_of_list: "DAList.lookup (map_of_list xs) k = Some v \<Longrightarrow> (k, v) \<in> set xs"
  by (induction xs) (auto simp: map_of_list_def DAList.lookup_update lookup_empty split: if_splits)

definition refs_for :: "book_db \<Rightarrow> wager \<Rightarrow> settlement_account_refs \<Rightarrow> bool" where
  "refs_for db w refs \<longleftrightarrow> sr_UserFundingAccountID refs \<in> other_ids db \<and> sr_HouseClearingAccountID refs \<in> other_ids db
     \<and> sr_EscrowAccountID refs \<in> escrow_ids db (m_Currency (w_Stake w))"

lemma refs_for_opens: "opens db db' \<Longrightarrow> refs_for db w refs \<Longrightarrow> refs_for db' w refs"
  unfolding refs_for_def using opens_ids by blast

lemma prepare_wagers_Inr:
  assumes "prepare_wagers ws db = Inr (xs, db')"
  shows "opens db db' \<and> (\<forall>(i, refs, s, e) \<in> set xs. \<exists>w \<in> set ws. w_ID w = i \<and> refs_for db' w refs)"
  using assms
proof (induction ws arbitrary: db xs)
  case Nil
  then show ?case by (simp add: cmd_simps opens.R_refl)
next
  case (Cons w ws)
  show ?case
  proof (cases "w_State w = WagerAccepted'")
    case False
    with Cons.prems have "prepare_wagers ws db = Inr (xs, db')" by simp
    from Cons.IH [OF this] show ?thesis by auto
  next
    case True
    with Cons.prems obtain refs db1 s db2 e db3 ys where refs: "open_accounts (w_UserID w) (w_FundingAccountType w) (m_Currency (w_Stake w)) db = Inr (refs, db1)"
      and r1: "random_uuid db1 = Inr (s, db2)" and r2: "random_uuid db2 = Inr (e, db3)"
      and rest: "prepare_wagers ws db3 = Inr (ys, db')" and xs: "xs = (w_ID w, refs, s, e) # ys"
      by (auto simp: cmd_simps)
    note IH = Cons.IH [OF rest] and R = open_accounts_Inr [OF refs]
    have o': "opens db1 db'" using keepsD [OF opens_statements(1) r1] keepsD [OF opens_statements(1) r2] IH opens.R_trans by blast
    have "refs_for db1 w refs" using R by (simp add: refs_for_def)
    with o' refs_for_opens have "refs_for db' w refs" by blast
    with IH o' R(1) opens.R_trans show ?thesis by (auto simp: xs)
  qed
qed

section \<open>All the settlements of a market\<close>

definition settled_from :: "(ID \<times> settlement_account_refs \<times> ID \<times> ID) list \<Rightarrow> wager \<Rightarrow> wager_settlement \<times> wager \<times> envelope \<Rightarrow> bool" where
  "settled_from xs w r \<longleftrightarrow> (\<exists>result refs s e msid sid version actor t eid d.
     (w_ID w, refs, s, e) \<in> set xs \<and> settleWager w result refs msid sid version actor t eid d = Inr r)"

lemma settle_domain_Inr:
  assumes "settle_domain ty market selections outcome wagers xs i version actor reason t e regrade dh = Inr result"
  obtains rs where "list_all2 (settled_from xs) (sort_key w_ID (filter (\<lambda>w. w_State w = WagerAccepted') wagers)) rs"
    "zip (sx_Settlements result) (sx_WagerEvents result) = map (\<lambda>r. (fst r, snd (snd r))) rs"
    "mk_State (sx_Market result) = (if ty = Graded then MarketSettled' else MarketVoided)"
proof (cases ty)
  case Graded
  define c where "c = \<lparr>sm_Market = market, sm_Selections = selections, sm_Outcome = outcome, sm_Wagers = wagers,
         sm_Refs = map_of_list (map (\<lambda>(i, r, s, e). (i, r)) xs), sm_WagerSettlementIDs = map_of_list (map (\<lambda>(i, r, s, e). (i, s)) xs),
         sm_WagerEventIDs = map_of_list (map (\<lambda>(i, r, s, e). (i, e)) xs), sm_SettlementID = i,
         sm_Version = version, sm_Actor = actor, sm_OccurredAt = t, sm_MarketEventID = e,
         sm_Regrade = regrade, sm_DeadHeat = dh_declared dh, sm_DeadHeatDivisor = dh_divisor dh\<rparr>"
  from assms Graded have "SettleMarket c = Inr result" by (simp add: settle_domain_def c_def Let_def)
  then obtain divisor rs where all: "list_all2 (graded c divisor) (sort_key w_ID (filter (\<lambda>w. w_State w = WagerAccepted') (sm_Wagers c))) rs"
    and rs: "sx_Settlements result = map fst rs" "sx_WagerEvents result = map (snd \<circ> snd) rs"
    and m: "sx_Market result = (sm_Market c)\<lparr>mk_State := MarketSettled'\<rparr>"
    by (rule SettleMarket_Inr) (rule that; assumption)
  have "settled_from xs w r" if "graded c divisor w r" for w r
    using that unfolding graded_def settled_from_def by (fastforce simp: c_def dest!: lookup_map_of_list)
  with all have all': "list_all2 (settled_from xs) (sort_key w_ID (filter (\<lambda>w. w_State w = WagerAccepted') wagers)) rs"
    by (auto simp: c_def elim!: list_all2_mono)
  show thesis by (rule that [OF all']) (simp_all add: rs m Graded zip_map1 zip_map2 zip_same_conv_map comp_def)
next
  case Voided
  define c where "c = \<lparr>vm_Market = market, vm_Wagers = wagers, vm_Refs = map_of_list (map (\<lambda>(i, r, s, e). (i, r)) xs),
         vm_WagerSettlementIDs = map_of_list (map (\<lambda>(i, r, s, e). (i, s)) xs),
         vm_WagerEventIDs = map_of_list (map (\<lambda>(i, r, s, e). (i, e)) xs), vm_SettlementID = i, vm_Version = version, vm_Actor = actor,
         vm_Reason = reason, vm_OccurredAt = t, vm_MarketEventID = e\<rparr>"
  from assms Voided have "VoidMarket c = Inr result" by (simp add: settle_domain_def c_def Let_def)
  then obtain rs where all: "list_all2 (refunded c) (sort_key w_ID (filter (\<lambda>w. w_State w = WagerAccepted') (vm_Wagers c))) rs"
    and rs: "sx_Settlements result = map fst rs" "sx_WagerEvents result = map (snd \<circ> snd) rs"
    and m: "sx_Market result = (vm_Market c)\<lparr>mk_State := MarketVoided\<rparr>"
    by (rule VoidMarket_Inr) (rule that; assumption)
  have "settled_from xs w r" if "refunded c w r" for w r
    using that unfolding refunded_def settled_from_def by (fastforce simp: c_def dest!: lookup_map_of_list)
  with all have all': "list_all2 (settled_from xs) (sort_key w_ID (filter (\<lambda>w. w_State w = WagerAccepted') wagers)) rs"
    by (auto simp: c_def elim!: list_all2_mono)
  show thesis by (rule that [OF all']) (simp_all add: rs m Voided zip_map1 zip_map2 zip_same_conv_map comp_def)
qed

lemma wagerRow_kept: "w_ID (wagerRow r) = w_ID (wr_Wager r)" "w_State (wagerRow r) = w_State (wr_Wager r)"
    "w_Stake (wagerRow r) = w_Stake (wr_Wager r)" "w_MarketID (wagerRow r) = w_MarketID (wr_Wager r)"
  by (simp_all add: wagerRow_def)

definition loaded :: "book_db \<Rightarrow> wager \<Rightarrow> bool" where
  "loaded db w \<longleftrightarrow> (\<exists>v \<in> set (map wr_Wager (db_Wagers db)). w_ID v = w_ID w \<and> w_State v = w_State w \<and> w_Stake v = w_Stake w)"

lemma settlements_ready:
  assumes "list_all2 (settled_from xs) (sort_key w_ID (filter (\<lambda>w. w_State w = WagerAccepted') ws)) rs"
    and "distinct (map w_ID ws)" "\<forall>w \<in> set ws. loaded db w"
    and "\<forall>(i, refs, s, e) \<in> set xs. \<exists>w \<in> set ws. w_ID w = i \<and> refs_for db w refs"
  shows "\<forall>r \<in> set rs. ready db (fst r)" "distinct (map (ws_WagerID \<circ> fst) rs)"
proof -
  have ids: "ws_WagerID (fst r) = w_ID w" if "settled_from xs w r" for w r
    using that unfolding settled_from_def by (cases r) (auto elim!: settleWager_posts)
  have "map (ws_WagerID \<circ> fst) rs = map w_ID (sort_key w_ID (filter (\<lambda>w. w_State w = WagerAccepted') ws))"
    by (rule list_all2_map_eq [OF assms(1)]) (simp add: ids)
  with assms(2) show "distinct (map (ws_WagerID \<circ> fst) rs)" by (simp add: distinct_map inj_on_def)
  show "\<forall>r \<in> set rs. ready db (fst r)"
  proof
    fix x assume "x \<in> set rs"
    with list_all2_set2 [OF assms(1)] obtain w where w: "w \<in> set ws" and st: "settled_from xs w x" by (metis filter_is_subset set_sort subsetD)
    obtain s w' e where x: "x = (s, w', e)" by (cases x)
    from st obtain result refs s0 e0 msid sid version actor t eid d where refs: "(w_ID w, refs, s0, e0) \<in> set xs"
      and run: "settleWager w result refs msid sid version actor t eid d = Inr (s, w', e)" unfolding settled_from_def x by blast
    from refs assms(4) obtain v where v: "v \<in> set ws" "w_ID v = w_ID w" "refs_for db v refs" by fastforce
    then have "v = w" using w assms(2) by (metis distinct_map inj_onD)
    with v have rf: "refs_for db w refs" by simp
    obtain n qs where n: "Money_Negate (w_Stake w) = Inr n" "ws_WagerID s = w_ID w" "w_State w = WagerAccepted'"
      and ty: "t_Type (ws_Transaction s) \<noteq> TransactionAdminAdjustment"
      and ps: "t_Postings (ws_Transaction s) = \<lparr>p_AccountID = sr_EscrowAccountID refs, p_Amount = n\<rparr> # qs"
        "\<forall>q \<in> set qs. p_AccountID q \<in> {sr_UserFundingAccountID refs, sr_HouseClearingAccountID refs}"
      by (rule settleWager_posts [OF run])
    from assms(3) w obtain v where v: "v \<in> set (map wr_Wager (db_Wagers db))" "w_ID v = w_ID w" "w_State v = w_State w" "w_Stake v = w_Stake w"
      unfolding loaded_def by blast
    have "pays_stake db v (ws_Transaction s)" unfolding pays_stake_def
      by (rule exI [of _ "sr_EscrowAccountID refs"], rule exI [of _ n], rule exI [of _ qs])
        (use rf n ty ps v(4) in \<open>auto simp: refs_for_def\<close>)
    with v n show "ready db (fst x)" unfolding ready_def x by auto
  qed
qed

section \<open>A market\<close>

lemma loadWagersForMarket_Inr:
  assumes "loadWagersForMarketForUpdate i db = Inr (ws, db')"
  shows "db' = db" "\<forall>w \<in> set ws. loaded db w" "money_ok db \<Longrightarrow> distinct (map w_ID ws)"
proof -
  from assms obtain m where ws: "ws = map wagerRow (sort_key (w_ID \<circ> wr_Wager) (filter (\<lambda>r. w_MarketID (wr_Wager r) = m) (db_Wagers db)))"
    and same: "db' = db"
    by (auto simp: loadWagersForMarketForUpdate_def cmd_simps)
  show "db' = db" by (rule same)
  show "\<forall>w \<in> set ws. loaded db w" by (auto simp: ws loaded_def wagerRow_kept)
  assume "money_ok db"
  then have "distinct (map (w_ID \<circ> wr_Wager) (db_Wagers db))" by (simp add: money_ok_def wagers_ok_def)
  moreover have "map w_ID ws = map (w_ID \<circ> wr_Wager) (sort_key (w_ID \<circ> wr_Wager) (filter (\<lambda>r. w_MarketID (wr_Wager r) = m) (db_Wagers db)))"
    by (simp add: ws wagerRow_kept comp_def)
  ultimately show "distinct (map w_ID ws)" by (simp add: distinct_map inj_on_def)
qed

lemma balanced_opens: "keeps opens m \<Longrightarrow> keeps balanced m"
  by (erule keeps_mono) (rule opens_balanced)

lemma record_resultTx_Inr:
  assumes "record_resultTx marketID ty outcome version j result db = Inr (u, db')"
  obtains m db3 db4 db5 where "pg_uuid marketID = Some m"
    "(if ty = Graded then each (insert_outcome j marketID (sx_DeadHeatDivisor result)) (DAList.impl_of outcome) else ret ()) db = Inr ((), db3)"
    "each (persist_settlement j) (zip (sx_Settlements result) (sx_WagerEvents result)) db3 = Inr ((), db4)"
    "resolveParlayLegsTx marketID outcome (ty = Voided) parlayJuice (set_market_state m (mk_State (sx_Market result)) db4) = Inr ((), db5)"
    "publish (sx_MarketEvent result) db5 = Inr ((), db')"
  using assms unfolding record_resultTx_def
  by (auto simp: cmd_simps split del: if_split cong: if_weak_cong intro: that)

lemma settle_wagersTx_Inr:
  assumes "settle_wagersTx marketID ty outcome actor reason regrade dh t market version i j db = Inr (u, db')"
  obtains ss ws xs db1 me db2 result where "loadSelections marketID db = Inr (ss, db)"
    "loadWagersForMarketForUpdate marketID db = Inr (ws, db)" "prepare_wagers ws db = Inr (xs, db1)"
    "random_uuid db1 = Inr (me, db2)" "settle_domain ty market ss outcome ws xs i version actor reason t me regrade dh = Inr result"
    "record_resultTx marketID ty outcome version j result db2 = Inr (u, db')"
proof -
  obtain ss db0 ws db1 xs db2 me db3 result where l: "loadSelections marketID db = Inr (ss, db0)"
      "loadWagersForMarketForUpdate marketID db0 = Inr (ws, db1)" and rest: "prepare_wagers ws db1 = Inr (xs, db2)"
      "random_uuid db2 = Inr (me, db3)" "settle_domain ty market ss outcome ws xs i version actor reason t me regrade dh = Inr result"
      "record_resultTx marketID ty outcome version j result db3 = Inr (u, db')"
    using assms unfolding settle_wagersTx_def by (auto simp: cmd_simps)
  have "db0 = db" using l(1) by (auto simp: loadSelections_def cmd_simps)
  moreover have "db1 = db0" by (rule loadWagersForMarket_Inr(1) [OF l(2)])
  ultimately show thesis using l rest that by simp
qed

lemma settle_wagers_balanced [keeps_rules]:
  "keeps balanced (settle_wagersTx marketID ty outcome actor reason regrade dh t market version i j)"
proof (rule keepsI)
  fix db u db'
  assume "settle_wagersTx marketID ty outcome actor reason regrade dh t market version i j db = Inr (u, db')"
  then obtain ss ws xs db1 me db2 result where load: "loadWagersForMarketForUpdate marketID db = Inr (ws, db)"
    and prep: "prepare_wagers ws db = Inr (xs, db1)" and rnd: "random_uuid db1 = Inr (me, db2)"
    and dom: "settle_domain ty market ss outcome ws xs i version actor reason t me regrade dh = Inr result"
    and rec: "record_resultTx marketID ty outcome version j result db2 = Inr (u, db')"
    by (rule settle_wagersTx_Inr) (rule that; assumption)
  obtain m db3 db4 db5 where
    outs: "(if ty = Graded then each (insert_outcome j marketID (sx_DeadHeatDivisor result)) (DAList.impl_of outcome) else ret ()) db2 = Inr ((), db3)"
    and pers: "each (persist_settlement j) (zip (sx_Settlements result) (sx_WagerEvents result)) db3 = Inr ((), db4)"
    and leg: "resolveParlayLegsTx marketID outcome (ty = Voided) parlayJuice (set_market_state m (mk_State (sx_Market result)) db4) = Inr ((), db5)"
    and pub: "publish (sx_MarketEvent result) db5 = Inr ((), db')"
    by (rule record_resultTx_Inr [OF rec]) (rule that; assumption)
  obtain rs where rs: "list_all2 (settled_from xs) (sort_key w_ID (filter (\<lambda>w. w_State w = WagerAccepted') ws)) rs"
    and z: "zip (sx_Settlements result) (sx_WagerEvents result) = map (\<lambda>r. (fst r, snd (snd r))) rs"
    by (rule settle_domain_Inr [OF dom])
  note L = loadWagersForMarket_Inr [OF load] and P = prepare_wagers_Inr [OF prep]
  have "keeps opens (if ty = Graded then each (insert_outcome j marketID (sx_DeadHeatDivisor result)) (DAList.impl_of outcome) else ret ())"
    by (intro keeps_rules opens.keeps_each opens.keeps_ret)
  from keepsD [OF this outs] keepsD [OF opens_statements(1) rnd] have o13: "opens db1 db3" using opens.R_trans by blast
  have o03: "opens db db3" using P o13 opens.R_trans by blast
  show "balanced db db'"
  proof (rule balanced_if_ok)
    assume ok: "money_ok db"
    have "loaded db3 = loaded db" using o03 by (intro ext) (simp only: loaded_def opens_def)
    with L(2) have l3: "\<forall>w \<in> set ws. loaded db3 w" by simp
    have x3: "\<forall>(i, refs, s, e) \<in> set xs. \<exists>w \<in> set ws. w_ID w = i \<and> refs_for db3 w refs"
      using P refs_for_opens [OF o13] by fast
    note R = settlements_ready [OF rs L(3) [OF ok] l3 x3]
    have "balanced db3 db4"
      by (rule persist_all_balanced [OF pers]) (use ok o03 R in \<open>auto simp: opens_def z comp_def\<close>)
    moreover have "balanced db4 (set_market_state m (mk_State (sx_Market result)) db4)"
      by (intro opens_balanced same_opens) (simp add: set_market_state_def)
    moreover have "balanced db5 db'" by (rule opens_balanced [OF keepsD [OF opens_statements(2) pub]])
    ultimately show "balanced db db'"
      using opens_balanced [OF o03] keepsD [OF resolve_balanced leg] balanced.R_trans by blast
  qed
qed

lemma settleWith_balanced [keeps_rules]:
  "keeps balanced (settleWithTx marketID ty outcome actor reason verified regrade dh t)"
  unfolding settleWithTx_def
  by (intro keeps_rules balanced_opens [OF opens_statements(5)] balanced_opens [OF opens_statements(6)] balanced_opens [OF opens_statements(1)]
    balanced.loads)

lemma market_operations_balanced:
  "balanced db (snd (Store_SettleMarket req t db))" "balanced db (snd (Store_VoidMarket m a reason t db))"
  "balanced db (snd (RegradeStrandedWagers m a reason t db))"
proof -
  show "balanced db (snd (Store_SettleMarket req t db))" "balanced db (snd (Store_VoidMarket m a reason t db))"
    unfolding Store_SettleMarket_def Store_VoidMarket_def by (intro balanced.run_tx_keeps settleWith_balanced)+
  show "balanced db (snd (RegradeStrandedWagers m a reason t db))"
    unfolding RegradeStrandedWagers_def Let_def
    by (auto intro: balanced.R_refl balanced.run_tx_keeps settleWith_balanced split: option.split)
qed

context command_relation
begin

lemma settle_match_markets_steps:
  assumes "\<And>db m. R db (snd (Store_CloseMarket m t db))" "\<And>db req. R db (snd (Store_SettleMarket req t db))"
  shows "R db (snd (settle_match_markets o' winner verified actor t ms report db))"
proof (induction ms arbitrary: report db)
  case Nil
  then show ?case by (simp add: R_refl)
next
  case (Cons m ms)
  obtain r1 db1 where close: "auto_close m t db = (r1, db1)" by (cases "auto_close m t db")
  have "R db (snd (auto_close m t db))" using assms(1) R_refl by (auto simp: auto_close_def split: prod.split)
  then have r1: "R db db1" by (simp add: close)
  show ?case
  proof (cases r1)
    case (Inl e)
    with r1 show ?thesis by (simp add: close)
  next
    case (Inr u)
    note next' = R_trans [OF r1 Cons.IH]
    show ?thesis
    proof (cases "selectionSemanticKeys (fst m) db1")
      case (Inr keys)
      show ?thesis
      proof (cases "buildMatchOutcome keys o' winner")
        case None
        with next' show ?thesis by (simp add: close \<open>r1 = Inr u\<close> Inr)
      next
        case (Some outcome)
        let ?req = "\<lparr>rm_MarketID = fst m, rm_Outcome = outcome, rm_ActorUserID = actor,
                 rm_Reason = ''match result verified'', rm_VerifiedResultID = verified, rm_DeadHeat = False\<rparr>"
        obtain r2 db2 where run: "Store_SettleMarket ?req t db1 = (r2, db2)" by (cases "Store_SettleMarket ?req t db1")
        with assms(2) [of db1 ?req] r1 have r2: "R db db2" using R_trans by simp
        show ?thesis using r2 R_trans [OF r2 Cons.IH]
          by (cases r2) (simp_all add: close \<open>r1 = Inr u\<close> Inr Some run)
      qed
    qed (use r1 in \<open>simp add: close \<open>r1 = Inr u\<close>\<close>)
  qed
qed

lemma match_markets_steps:
  assumes "\<And>db m. R db (snd (Store_CloseMarket m t db))" "\<And>db req. R db (snd (Store_SettleMarket req t db))"
  shows "R db (snd (SettleMatchMarkets matchID o' winner verified actor t db))"
  by (auto simp: SettleMatchMarkets_def Let_def R_refl intro: settle_match_markets_steps [OF assms] split: sum.split)

end

lemma match_markets_balanced: "balanced db (snd (SettleMatchMarkets matchID o' winner verified actor t db))"
  by (rule balanced.match_markets_steps) (rule opens_balanced [OF same_opens [OF money_market_operations(1)]], rule market_operations_balanced)

end
