(* ===== verification/Book_Board.thy ===== *)
theory Book_Board
  imports Book_Market_Money
begin

text \<open>
  What waits on a market. An accepted wager is on a market that is not over, a pending one is not on a market closed
  without action; an accepted parlay has lost no leg, has a leg still open, and its open legs are on match markets that
  are not over. \<open>board_ok\<close> says so; the operations away from the settlement of a market keep it.
\<close>

section \<open>The invariant\<close>

definition on_board :: "book_db \<Rightarrow> string \<Rightarrow> (market_type \<times> market_state) option" where
  "on_board db m = map_option (\<lambda>r. (mk_Type (mr_Market r), mk_State (mr_Market r))) (market_at m db)"

definition over :: "market_state \<Rightarrow> bool" where
  "over s \<longleftrightarrow> s \<in> {MarketSettled', MarketVoided, MarketCancelled, MarketNoAction}"

definition wager_waits :: "book_db \<Rightarrow> wager \<Rightarrow> bool" where
  "wager_waits db w \<longleftrightarrow> canonical (w_MarketID w) \<and> (\<forall>ty s. on_board db (w_MarketID w) = Some (ty, s) \<longrightarrow>
     (w_State w = WagerAccepted' \<longrightarrow> \<not> over s) \<and> (w_State w = WagerPending \<longrightarrow> s \<noteq> MarketNoAction))"

definition open_leg :: "parlay_leg \<Rightarrow> bool" where
  "open_leg l \<longleftrightarrow> l_Result l = no_result"

definition undecided :: "parlay \<Rightarrow> bool" where
  "undecided p \<longleftrightarrow> (\<exists>l \<in> set (pa_Legs p). open_leg l) \<and> (\<forall>l \<in> set (pa_Legs p). l_Result l \<noteq> ResultLoss)"

definition leg_waits :: "book_db \<Rightarrow> (string \<times> string) set \<Rightarrow> string \<Rightarrow> parlay_leg \<Rightarrow> bool" where
  \<comment> \<open>the pairs of a parlay and a selection in \<open>legs\<close> have yet to be resolved\<close>
  "leg_waits db legs i l \<longleftrightarrow> (\<exists>s. on_board db (l_MarketID l) = Some (MarketMatch, s) \<and> ((i, l_SelectionID l) \<notin> legs \<longrightarrow> \<not> over s))"

definition parlay_waits :: "book_db \<Rightarrow> (string \<times> string) set \<Rightarrow> string set \<Rightarrow> parlay \<Rightarrow> bool" where
  \<comment> \<open>the parlays in \<open>is\<close> are accepted and have yet to be graded\<close>
  "parlay_waits db legs is p \<longleftrightarrow> pa_Legs p \<noteq> [] \<and> (\<forall>l \<in> set (pa_Legs p). \<exists>s. on_board db (l_MarketID l) = Some (MarketMatch, s))
     \<and> (pa_State p = WagerPending \<longrightarrow> (\<forall>l \<in> set (pa_Legs p). open_leg l)) \<and> (pa_ID p \<in> is \<longrightarrow> pa_State p = WagerAccepted')
     \<and> (pa_State p = WagerAccepted' \<longrightarrow> (\<forall>l \<in> set (pa_Legs p). open_leg l \<longrightarrow> leg_waits db legs (pa_ID p) l) \<and> (pa_ID p \<notin> is \<longrightarrow> undecided p))"

definition keys_ok :: "string list \<Rightarrow> bool" where
  "keys_ok is \<longleftrightarrow> distinct is \<and> (\<forall>i \<in> set is. canonical i)"

definition board_waits :: "(string \<times> string) set \<Rightarrow> string set \<Rightarrow> book_db \<Rightarrow> bool" where
  "board_waits legs is db \<longleftrightarrow> keys_ok (map w_ID (map wr_Wager (db_Wagers db))) \<and> keys_ok (map pa_ID (map py_Parlay (db_Parlays db)))
     \<and> (\<forall>w \<in> set (map wr_Wager (db_Wagers db)). wager_waits db w) \<and> (\<forall>p \<in> set (map py_Parlay (db_Parlays db)). parlay_waits db legs is p)"

definition board_ok :: "book_db \<Rightarrow> bool" where
  "board_ok db \<longleftrightarrow> board_waits {} {} db"

definition orderly :: "book_db \<Rightarrow> book_db \<Rightarrow> bool" where
  "orderly db db' \<longleftrightarrow> (board_ok db \<longrightarrow> board_ok db')"

interpretation orderly: command_relation orderly
  by unfold_locales (simp_all add: orderly_def)

lemma on_board_map: "on_board db m = map_of (map (\<lambda>r. (mk_ID (mr_Market r), mk_Type (mr_Market r), mk_State (mr_Market r))) (db_Markets db)) m"
proof -
  have "map_option (\<lambda>r. (mk_Type (mr_Market r), mk_State (mr_Market r))) (List.find (\<lambda>r. mk_ID (mr_Market r) = m) rs)
      = map_of (map (\<lambda>r. (mk_ID (mr_Market r), mk_Type (mr_Market r), mk_State (mr_Market r))) rs) m" for rs
    by (induction rs) auto
  then show ?thesis by (simp add: on_board_def market_at_def)
qed

lemma board_view_eq:
  assumes "board_view db' = board_view db"
  shows "on_board db' = on_board db" "map wr_Wager (db_Wagers db') = map wr_Wager (db_Wagers db)"
    "map py_Parlay (db_Parlays db') = map py_Parlay (db_Parlays db)" "board_waits legs is db' = board_waits legs is db"
proof -
  show b: "on_board db' = on_board db" using assms by (intro ext) (simp add: on_board_map board_view_def)
  show rows: "map wr_Wager (db_Wagers db') = map wr_Wager (db_Wagers db)" "map py_Parlay (db_Parlays db') = map py_Parlay (db_Parlays db)"
    using assms by (simp_all add: board_view_def)
  show "board_waits legs is db' = board_waits legs is db"
    unfolding board_waits_def rows wager_waits_def parlay_waits_def leg_waits_def b by (rule refl)
qed

lemma same_orderly: "board_view db' = board_view db \<Longrightarrow> orderly db db'"
  using board_view_eq(4) [of db' db] by (simp add: orderly_def board_ok_def)

lemma unseen_orderly: "board.unseen m \<Longrightarrow> keeps orderly m"
  by (erule keeps_mono) (rule same_orderly)

lemma orderly_statements [keeps_rules]:
  "keeps orderly random_uuid" "keeps orderly (publish e)" "keeps orderly (audit a b c d)" "keeps orderly (publishMarketEvent ty m p t)"
  "keeps orderly (insertMarketSettlement m i version kind r x y z)" "keeps orderly (insert_outcome i m divisor o')"
  "keeps orderly (insertLedgerTransaction txn)" "keeps orderly (ensureUserAccount u f c)" "keeps orderly (ensureSystemAccount ty c)"
  "keeps orderly (open_accounts u f c)" "keeps orderly (prepare_wagers ws)" "keeps orderly (build_selections m qs seen)"
  "keeps orderly (insert_selection sc)"
  by (intro unseen_orderly keeps_rules)+

section \<open>Markets move\<close>

definition moves_on :: "book_db \<Rightarrow> book_db \<Rightarrow> bool" where
  \<comment> \<open>every market keeps its type, and its state or a state before the end; new markets are before the end\<close>
  "moves_on db db' \<longleftrightarrow> map wr_Wager (db_Wagers db') = map wr_Wager (db_Wagers db) \<and> map py_Parlay (db_Parlays db') = map py_Parlay (db_Parlays db)
     \<and> (\<forall>m. on_board db' m = on_board db m \<or> (\<exists>ty s. on_board db' m = Some (ty, s) \<and> \<not> over s \<and> (\<forall>ty' s'. on_board db m = Some (ty', s') \<longrightarrow> ty' = ty)))"

lemma moves_on_orderly: "moves_on db db' \<Longrightarrow> orderly db db'"
proof -
  assume moves: "moves_on db db'"
  then have step: "on_board db' m = on_board db m \<or> (\<exists>ty s. on_board db' m = Some (ty, s) \<and> \<not> over s \<and> (\<forall>ty' s'. on_board db m = Some (ty', s') \<longrightarrow> ty' = ty))" for m
    unfolding moves_on_def by blast
  have w: "wager_waits db' w" if "wager_waits db w" for w
    using that step [of "w_MarketID w"] by (auto simp: wager_waits_def over_def)
  have l: "\<exists>s. on_board db' m = Some (MarketMatch, s)" if "\<exists>s. on_board db m = Some (MarketMatch, s)" for m
    using that step [of m] by auto
  have ll: "leg_waits db' legs i l" if "leg_waits db legs i l" for i l legs
    using that step [of "l_MarketID l"] by (auto simp: leg_waits_def)
  have "parlay_waits db' {} {} p" if "parlay_waits db {} {} p" for p
    using that l ll unfolding parlay_waits_def by blast
  with w moves show ?thesis by (auto simp: orderly_def board_ok_def board_waits_def moves_on_def simp del: set_map)
qed

lemma on_board_set: "on_board (set_market_state m s db) i = (if i = m then map_option (\<lambda>(ty, s'). (ty, s)) (on_board db i) else on_board db i)"
proof -
  have "map_of (map (\<lambda>r. (mk_ID (mr_Market r), mk_Type (mr_Market r), mk_State (mr_Market r)))
       (map (\<lambda>r. if mk_ID (mr_Market r) = m then r\<lparr>mr_Market := (mr_Market r)\<lparr>mk_State := s\<rparr>\<rparr> else r) rs)) i
     = (if i = m then map_option (\<lambda>(ty, s'). (ty, s)) (map_of (map (\<lambda>r. (mk_ID (mr_Market r), mk_Type (mr_Market r), mk_State (mr_Market r))) rs) i)
        else map_of (map (\<lambda>r. (mk_ID (mr_Market r), mk_Type (mr_Market r), mk_State (mr_Market r))) rs) i)" for rs
    by (induction rs) auto
  moreover have "db_Markets (set_market_state m s db)
      = map (\<lambda>r. if mk_ID (mr_Market r) = m then r\<lparr>mr_Market := (mr_Market r)\<lparr>mk_State := s\<rparr>\<rparr> else r) (db_Markets db)"
    by (simp add: set_market_state_def)
  ultimately show ?thesis unfolding on_board_map by (simp only:)
qed

lemma set_state_rows [simp]: "db_Wagers (set_market_state m s db) = db_Wagers db" "db_Parlays (set_market_state m s db) = db_Parlays db"
  by (simp_all add: set_market_state_def)

lemma set_state_moves: "\<not> over s \<Longrightarrow> moves_on db (set_market_state m s db)"
  by (cases "on_board db m") (auto simp: moves_on_def on_board_set)

lemma move_market_orderly [keeps_rules]: "\<not> over s \<Longrightarrow> keeps orderly (move_market m s0 s)"
  by (rule keepsI) (auto simp: move_market_def cmd_simps intro!: moves_on_orderly set_state_moves split: option.split_asm if_split_asm)

lemma close_orderly [keeps_rules]: "keeps orderly (closeOpenMarketTx m t)" "keeps orderly (closeMarketTx m t)"
  unfolding closeOpenMarketTx_def closeMarketTx_def by (intro keeps_rules, simp add: over_def)+

lemma insert_market_orderly: "mk_State mk = MarketDraft \<Longrightarrow> keeps orderly (insert_market mk req)"
proof (rule keepsI)
  fix db x db'
  assume draft: "mk_State mk = MarketDraft" and "insert_market mk req db = Inr (x, db')"
  then have "db' = db \<or> (\<exists>m match liquidity. market_at m db = None \<and> db' = db\<lparr>db_Markets := db_Markets db @
      [\<lparr>mr_Market = mk\<lparr>mk_ID := m, mk_MatchID := match\<rparr>, mr_DynamicPricing = cr_DynamicPricing req, mr_LiquidityCents = liquidity,
        mr_MaxStakeCents = null_zero (cr_MaxStakeCents req)\<rparr>]\<rparr>)"
    by (cases "null_uuid (mk_MatchID mk)") (auto simp: insert_market_def cmd_simps split: if_split_asm)
  with draft have "db' = db \<or> (\<exists>m r. market_at m db = None \<and> mk_ID (mr_Market r) = m \<and> mk_State (mr_Market r) = MarketDraft
      \<and> db' = db\<lparr>db_Markets := db_Markets db @ [r]\<rparr>)"
    by (elim disjE exE conjE) (rule disjI1, assumption, intro disjI2 exI conjI, assumption, simp_all)
  then show "orderly db db'"
  proof (elim disjE exE conjE)
    fix m r
    assume r: "market_at m db = None" "mk_ID (mr_Market r) = m" "mk_State (mr_Market r) = MarketDraft" "db' = db\<lparr>db_Markets := db_Markets db @ [r]\<rparr>"
    have "moves_on db db'" unfolding moves_on_def
    proof (intro conjI allI)
      fix i
      have "on_board db m = None" using r(1) by (simp add: on_board_def)
      then show "on_board db' i = on_board db i \<or> (\<exists>ty s. on_board db' i = Some (ty, s) \<and> \<not> over s \<and> (\<forall>ty' s'. on_board db i = Some (ty', s') \<longrightarrow> ty' = ty))"
        using r(2-4) by (cases "on_board db i") (auto simp: on_board_map map_add_def over_def)
    qed (simp_all add: r(4))
    then show ?thesis by (rule moves_on_orderly)
  qed (simp add: orderly.R_refl)
qed

lemma create_orderly [keeps_rules]: "keeps orderly (createMarketTx req t)"
  unfolding createMarketTx_def Let_def by (intro keeps_rules insert_market_orderly) simp

lemma update_market_orderly:
  assumes "\<And>r. mk_ID (mr_Market (f r)) = mk_ID (mr_Market r)" "\<And>r. mk_Type (mr_Market (f r)) = mk_Type (mr_Market r)"
    "\<And>r. mk_State (mr_Market (f r)) = mk_State (mr_Market r)"
  shows "keeps orderly (update_market m f)"
  by (rule unseen_orderly, rule keepsI) (auto simp: update_market_def cmd_simps board_view_def assms)

lemma no_action_orderly: "orderly db (snd (CloseMarketWithoutAction m actor reason db))"
proof (cases "fst (CloseMarketWithoutAction m actor reason db)")
  case (Inl e)
  then show ?thesis by (auto simp: CloseMarketWithoutAction_def run_tx_def orderly.R_refl split: sum.splits)
next
  case (Inr u)
  then obtain i r db1 where i: "pg_uuid m = Some i" "market_at i db = Some r" "mk_Type (mr_Market r) \<noteq> MarketMatch"
    and none: "\<not> list_ex (\<lambda>w. w_MarketID (wr_Wager w) = mk_ID (mr_Market r) \<and> w_State (wr_Wager w) \<in> {WagerPending, WagerAccepted'}) (db_Wagers db)"
    and move: "move_market m (mk_State (mr_Market r)) MarketNoAction db = Inr ((), db1)"
    and aud: "audit actor ''market.closed_no_action'' m (TrimSpace reason) db1 = Inr ((), snd (CloseMarketWithoutAction m actor reason db))"
    by (auto simp: CloseMarketWithoutAction_def run_tx_def market_for_update_def admin_args_def cmd_simps split: sum.splits option.splits if_splits)
  have id: "mk_ID (mr_Market r) = i" using i(2) find_SomeD unfolding market_at_def by fastforce
  have db1: "db1 = set_market_state i MarketNoAction db" using move i by (auto simp: move_market_def cmd_simps split: if_splits)
  have ty: "on_board db i = Some (mk_Type (mr_Market r), mk_State (mr_Market r))" by (simp add: on_board_def i(2))
  have "orderly db db1" unfolding orderly_def board_ok_def
  proof
    assume ok: "board_waits {} {} db"
    have rows: "db_Wagers db1 = db_Wagers db" "db_Parlays db1 = db_Parlays db" by (simp_all add: db1)
    have other: "on_board db1 j = on_board db j" if "j \<noteq> i" for j using that by (simp add: db1 on_board_set)
    have "wager_waits db1 w" if "w \<in> set (map wr_Wager (db_Wagers db))" "wager_waits db w" for w
      using that none other by (cases "w_MarketID w = i") (auto simp: wager_waits_def list_ex_iff id)
    moreover have "parlay_waits db1 {} {} p" if "parlay_waits db {} {} p" for p
    proof -
      have leg: "l_MarketID l \<noteq> i" if "l \<in> set (pa_Legs p)" for l using that \<open>parlay_waits db {} {} p\<close> ty i(3) by (force simp: parlay_waits_def)
      with other have "on_board db1 (l_MarketID l) = on_board db (l_MarketID l)" if "l \<in> set (pa_Legs p)" for l using that by blast
      with that show ?thesis by (simp add: parlay_waits_def leg_waits_def)
    qed
    ultimately show "board_waits {} {} db1" using ok unfolding board_waits_def rows by blast
  qed
  then show ?thesis using keepsD [OF orderly_statements(3) aud] orderly.R_trans by blast
qed

lemma market_operations_orderly:
  "orderly db (snd (Store_CloseMarket m t db))" "orderly db (snd (Store_OpenMarket m a t db))"
  "orderly db (snd (Store_CreateMarket req t db))" "orderly db (snd (SetMarketCloseTime m c a reason t db))"
  "orderly db (snd (SetStakeLimit m s limit a reason db))"
  unfolding Store_CloseMarket_def Store_OpenMarket_def Store_CreateMarket_def SetMarketCloseTime_def SetStakeLimit_def
  by (intro orderly.run_tx_keeps keeps_rules update_market_orderly unseen_orderly [OF board.unseen_update_selection]; simp add: over_def)+

section \<open>Wagers move\<close>

lemma keys_ok_map: "(\<And>x. x \<in> set xs \<Longrightarrow> k (f x) = k x) \<Longrightarrow> keys_ok (map k (map f xs)) = keys_ok (map k xs)"
  by (simp cong: map_cong)

lemma on_board_rows [simp]:
  "on_board (db\<lparr>db_Wagers := ws\<rparr>) = on_board db" "on_board (db\<lparr>db_Parlays := ps\<rparr>) = on_board db"
  by (intro ext, simp add: on_board_def market_at_def)+

lemma on_board_set_rows [simp]: "on_board (set_wager i f db) = on_board db" "on_board (set_parlay i h db) = on_board db"
  by (simp_all add: set_wager_def set_parlay_def)

lemma parlay_waits_cong: "on_board db' = on_board db \<Longrightarrow> parlay_waits db' = parlay_waits db"
  by (intro ext) (simp add: parlay_waits_def leg_waits_def)

lemma set_wager_waits:
  assumes "board_waits legs is db" "\<And>r. wr_Wager (f r) = g (wr_Wager r)"
    and "\<And>w. w_ID (g w) = w_ID w" "\<And>w. w \<in> set (map wr_Wager (db_Wagers db)) \<Longrightarrow> w_ID w = i \<Longrightarrow> wager_waits db w \<Longrightarrow> wager_waits db (g w)"
  shows "board_waits legs is (set_wager i f db)"
proof -
  let ?ws = "map wr_Wager (db_Wagers db)"
  have rows: "map wr_Wager (db_Wagers (set_wager i f db)) = map (\<lambda>w. if w_ID w = i then g w else w) ?ws"
    by (rule map_set_wager) (rule assms(2))
  have "keys_ok (map w_ID (map (\<lambda>w. if w_ID w = i then g w else w) ?ws)) = keys_ok (map w_ID ?ws)"
    by (rule keys_ok_map) (simp add: assms(3))
  moreover have "wager_waits (set_wager i f db) = wager_waits db" by (intro ext) (simp add: wager_waits_def)
  moreover have "parlay_waits (set_wager i f db) = parlay_waits db" by (rule parlay_waits_cong) simp
  ultimately show ?thesis
    using assms(1,4) unfolding board_waits_def rows by (auto simp: set_wager_def)
qed

definition leaves :: "(wager \<Rightarrow> wager) \<Rightarrow> bool" where
  \<comment> \<open>an update after which the wager no longer waits, or waits as before\<close>
  "leaves g \<longleftrightarrow> (\<forall>w. w_ID (g w) = w_ID w \<and> w_MarketID (g w) = w_MarketID w
     \<and> (w_State (g w) = w_State w \<or> w_State (g w) \<in> {WagerRejected, WagerSettled', WagerVoided}))"

lemma leaves_waits:
  assumes "board_waits legs is db" "leaves g" "\<And>r. wr_Wager (f r) = g (wr_Wager r)"
  shows "board_waits legs is (set_wager i f db)"
proof (rule set_wager_waits [where f = f and g = g, OF assms(1,3)])
  fix w
  have g: "w_ID (g w) = w_ID w" "w_MarketID (g w) = w_MarketID w"
    "w_State (g w) = w_State w \<or> w_State (g w) \<in> {WagerRejected, WagerSettled', WagerVoided}"
    using assms(2) unfolding leaves_def by blast+
  show "w_ID (g w) = w_ID w" by (rule g(1))
  show "wager_waits db w \<Longrightarrow> wager_waits db (g w)" using g(2,3) by (auto simp: wager_waits_def)
qed

lemma leaves_orderly: "leaves g \<Longrightarrow> (\<And>r. wr_Wager (f r) = g (wr_Wager r)) \<Longrightarrow> orderly db (set_wager i f db)"
  using leaves_waits unfolding orderly_def board_ok_def by blast

lemma mark_rejected_orderly [keeps_rules]: "keeps orderly (mark_rejected w by' reason P stale)"
  by (rule keepsI)
    (auto simp: mark_rejected_def cmd_simps leaves_def intro!: leaves_orderly [where g = "\<lambda>w. w\<lparr>w_State := WagerRejected\<rparr>"]
      split: option.splits if_splits)

lemma update_accepted_orderly [keeps_rules]: "leaves g \<Longrightarrow> keeps orderly (update_accepted w P g)"
  by (rule keepsI)
    (auto simp: update_accepted_def cmd_simps intro!: leaves_orderly [where g = g] split: option.splits if_splits)

lemma void_reduce_orderly [keeps_rules]:
  "keeps orderly (voidWagerTx i actor reason t)" "keeps orderly (reduceWagerTx i stake actor reason t)"
  unfolding voidWagerTx_def reduceWagerTx_def by (intro keeps_rules orderly.loads; simp add: leaves_def)+

lemma insert_wager_orderly:
  assumes "insert_wager w db = Inr (u, db')" "w_State w = WagerPending" "pg_uuid (w_MarketID w) = Some m"
    "on_board db m = Some (ty, MarketOpen)"
  shows "orderly db db'"
proof (cases "db' = db")
  case False
  with assms(1,3) obtain i u s placedBy where i: "pg_uuid (w_ID w) = Some i" "i \<notin> (w_ID \<circ> wr_Wager) ` set (db_Wagers db)"
    and db': "db' = db\<lparr>db_Wagers := db_Wagers db @
           [\<lparr>wr_Wager = w\<lparr>w_ID := i, w_UserID := u, w_MarketID := m, w_SelectionID := s, w_PlacedBy := placedBy\<rparr>,
             wr_AcceptedBy = [], wr_AcceptanceTransaction = [], wr_RejectedBy = [], wr_RejectionReason = []\<rparr>]\<rparr>"
    by (cases "null_uuid (w_PlacedBy w)") (auto simp: insert_wager_def cmd_simps split: if_splits)
  have same: "on_board db' = on_board db" by (simp add: db')
  have "wager_waits db' = wager_waits db" by (intro ext) (simp add: wager_waits_def same)
  moreover have "parlay_waits db' = parlay_waits db" by (rule parlay_waits_cong [OF same])
  ultimately show ?thesis
    using i(2) pg_uuid_canonical [OF i(1)] pg_uuid_canonical [OF assms(3)] assms(2,4)
    by (auto simp: orderly_def board_ok_def board_waits_def db' keys_ok_def) (simp add: wager_waits_def)
qed (simp add: orderly.R_refl)

lemma loadMarket_Inr:
  "loadMarket i db = Inr (mk, db') \<longleftrightarrow> (\<exists>m r. pg_uuid i = Some m \<and> market_at m db = Some r \<and> mk = scanMarket i r \<and> db' = db)"
  by (auto simp: loadMarket_def cmd_simps split: option.splits)

lemma placeWagerTx_Inr:
  assumes "placeWagerTx maxPayout req t db = Inr (x, db')"
  obtains mk c w where "loadMarket (rq_MarketID req) db = Inr (mk, db)" "pw_Market c = mk" "PlaceWager c = Inr w"
    "insert_wager w db = Inr ((), db')"
proof -
  obtain mk db0 c w where load: "loadMarket (rq_MarketID req) db = Inr (mk, db0)"
    and rest: "PlaceWager c = Inr w" "insert_wager w db0 = Inr ((), db')" "pw_Market c = mk"
    using assms unfolding placeWagerTx_def cmd_simps
    by (clarsimp simp: cmd_simps dest!: keepsD [OF reads.loads(3)] keepsD [OF reads.loads(5)] keepsD [OF reads.loads(8)] keepsD [OF reads.loads(9)] keepsD [OF reads.loads(10)])
  from keepsD [OF reads.loads(1) load] have "db0 = db" by simp
  with load rest that show thesis by blast
qed

lemma place_orderly: "keeps orderly (placeWagerTx maxPayout req t)"
proof (rule keepsI)
  fix db x db'
  assume "placeWagerTx maxPayout req t db = Inr (x, db')"
  then obtain mk c w where mk: "loadMarket (rq_MarketID req) db = Inr (mk, db)" "pw_Market c = mk" "PlaceWager c = Inr w"
    and ins: "insert_wager w db = Inr ((), db')" by (rule placeWagerTx_Inr) (rule that; assumption)
  then obtain m r where "pg_uuid (rq_MarketID req) = Some m" "market_at m db = Some r" "mk = scanMarket (rq_MarketID req) r"
    by (auto simp: loadMarket_Inr)
  with mk(2) PlaceWager_Inr [THEN iffD1, OF mk(3)] show "orderly db db'"
    by (intro insert_wager_orderly [OF ins, of m "mk_Type (mr_Market r)"]) (auto simp: scanMarket_def on_board_def)
qed

lemma accept_orderly: "keeps orderly (acceptWagerTx i actor t)"
proof (rule keepsI)
  fix db x db'
  assume run: "acceptWagerTx i actor t db = Inr (x, db')"
  then obtain j and r :: wager_row where row: "pg_uuid i = Some j" "wager_at j db = Some r" by (auto simp: acceptWagerTx_def cmd_simps)
  show "orderly db db'"
  proof (cases "w_State (wr_Wager r) = WagerAccepted'")
    case True
    from run show ?thesis unfolding acceptWagerTx_repeated [OF row True]
      by (auto simp: cmd_simps orderly.R_refl dest!: keepsD [OF reads.loads(14)])
  next
    case False
    obtain m mr refs db1 eid db2 tid db3 db4 and result :: accept_wager_result where
        m: "pg_uuid (w_MarketID (wr_Wager r)) = Some m" "market_at m db = Some mr" "\<not> decided_state (mk_State (mr_Market mr))"
      and steps: "open_accounts (w_UserID (wr_Wager r)) (w_FundingAccountType (wr_Wager r)) (m_Currency (w_Stake (wr_Wager r))) db = Inr (refs, db1)"
        "random_uuid db1 = Inr (eid, db2)" "insertLedgerTransaction (aw_Transaction result) db2 = Inr (tid, db3)"
      and mark: "mark_accepted i actor tid db3 = Inr ((), db4)" and pub: "publish (aw_Event result) db4 = Inr ((), db')"
      by (rule acceptWagerTx_Inr [OF run row False]) (rule that; assumption)
    have same: "board_view db3 = board_view db"
      using keepsD [OF board_open_accounts steps(1)] keepsD [OF board.unseen_random steps(2)] keepsD [OF board_ledger_statements(5) steps(3)] by simp
    have "orderly db3 db4" unfolding orderly_def board_ok_def
    proof
      assume ok: "board_waits {} {} db3"
      have rows: "map wr_Wager (db_Wagers db3) = map wr_Wager (db_Wagers db)" and same_board: "on_board db3 = on_board db"
        using board_view_eq [OF same] by simp_all
      have j: "j = w_ID (wr_Wager r)" "wr_Wager r \<in> set (map wr_Wager (db_Wagers db3))"
        using wager_rowD [OF row(2)] by (simp_all only: rows)
      from mark row(1) obtain r3 by' where r3: "wager_at j db3 = Some r3" "w_State (wr_Wager r3) = WagerPending"
        and db4: "db4 = set_wager j (\<lambda>r. r\<lparr>wr_Wager := (wr_Wager r)\<lparr>w_State := WagerAccepted'\<rparr>, wr_AcceptedBy := by',
                 wr_AcceptanceTransaction := tid\<rparr>) db3" by (rule mark_accepted_Inr) (rule that; assumption)
      have only: "w = wr_Wager r" if "w \<in> set (map wr_Wager (db_Wagers db3))" "w_ID w = j" for w
        using that j ok unfolding board_waits_def keys_ok_def by (metis distinct_map inj_onD)
      have pending: "w_State (wr_Wager r) = WagerPending" using only wager_rowD [OF r3(1)] r3(2) by metis
      have "wager_waits db3 (wr_Wager r)" using ok j(2) unfolding board_waits_def by blast
      with pending m have "wager_waits db3 ((wr_Wager r)\<lparr>w_State := WagerAccepted'\<rparr>)"
        by (auto simp: wager_waits_def same_board canonical_def on_board_def over_def decided_state_def)
      then show "board_waits {} {} db4" unfolding db4
        by (intro set_wager_waits [where g = "\<lambda>w. w\<lparr>w_State := WagerAccepted'\<rparr>", OF ok])
          (simp, simp, drule only, assumption, simp)
    qed
    then show ?thesis using same_orderly [OF same] keepsD [OF orderly_statements(2) pub] orderly.R_trans by blast
  qed
qed

lemma wager_reprice_orderly: "orderly db db1 \<Longrightarrow> orderly db (snd (then_reprice exp64 i f (x, db1)))"
  by (auto simp: then_reprice_def orderly.R_trans [OF _ same_orderly [OF board.unseen_lines(1)]] split: sum.split)

lemma wager_operations_orderly:
  "orderly db (snd (Store_PlaceWager configured place t db))" "orderly db (snd (Store_AcceptWager i actor t db))"
  "orderly db (snd (Store_RejectWager i actor reason db))" "orderly db (snd (Store_CancelWager i actor db))"
  "orderly db (snd (Store_VoidWager exp64 i actor reason t db))" "orderly db (snd (Store_ReduceWager exp64 i stake actor reason t db))"
proof -
  show "orderly db (snd (Store_PlaceWager configured place t db))" "orderly db (snd (Store_AcceptWager i actor t db))"
    "orderly db (snd (Store_RejectWager i actor reason db))" "orderly db (snd (Store_CancelWager i actor db))"
    unfolding Store_PlaceWager_def Store_AcceptWager_def Store_RejectWager_def Store_CancelWager_def
    by (intro orderly.run_tx_keeps place_orderly accept_orderly keeps_rules orderly.loads)+
  show "orderly db (snd (Store_VoidWager exp64 i actor reason t db))"
    unfolding Store_VoidWager_def
    by (subst prod.collapse [symmetric], intro wager_reprice_orderly orderly.run_tx_keeps keeps_rules)
  show "orderly db (snd (Store_ReduceWager exp64 i stake actor reason t db))"
    unfolding Store_ReduceWager_def
    by (subst prod.collapse [symmetric], intro wager_reprice_orderly orderly.run_tx_keeps keeps_rules)
qed

end
