(* ===== verification/Book_Waiting.thy ===== *)
theory Book_Waiting
  imports Book_Board
begin

text \<open>
  The parlays and the settlement of a market keep \<open>board_ok\<close>. While a market is being settled its accepted wagers are
  ended first, then its state is set, then the open legs on it are resolved and the parlays they belong to are graded:
  \<open>board_waits legs is\<close> is the invariant with the legs \<open>legs\<close> still to be resolved and the parlays \<open>is\<close> still to be graded.
\<close>

section \<open>Parlays move\<close>

lemma set_parlay_waits:
  assumes "board_waits legs is db" "\<And>r. py_Parlay (f r) = g (py_Parlay r)" "\<And>p. pa_ID (g p) = pa_ID p"
    and "\<And>p. p \<in> set (map py_Parlay (db_Parlays db)) \<Longrightarrow> pa_ID p = i \<Longrightarrow> parlay_waits db legs is p \<Longrightarrow> parlay_waits db legs' is' (g p)"
    and "\<And>p. p \<in> set (map py_Parlay (db_Parlays db)) \<Longrightarrow> pa_ID p \<noteq> i \<Longrightarrow> parlay_waits db legs is p \<Longrightarrow> parlay_waits db legs' is' p"
  shows "board_waits legs' is' (set_parlay i f db)"
proof -
  let ?ps = "map py_Parlay (db_Parlays db)"
  have rows: "map py_Parlay (db_Parlays (set_parlay i f db)) = map (\<lambda>p. if pa_ID p = i then g p else p) ?ps"
    by (rule map_set_parlay) (rule assms(2))
  have "keys_ok (map pa_ID (map (\<lambda>p. if pa_ID p = i then g p else p) ?ps)) = keys_ok (map pa_ID ?ps)"
    by (rule keys_ok_map) (simp add: assms(3))
  moreover have "parlay_waits (set_parlay i f db) = parlay_waits db" by (rule parlay_waits_cong) simp
  moreover have "wager_waits (set_parlay i f db) = wager_waits db" by (intro ext) (simp add: wager_waits_def)
  ultimately show ?thesis
    using assms(1,4,5) unfolding board_waits_def rows by (auto simp: set_parlay_def)
qed

lemma refuse_parlay_orderly [keeps_rules]:
  "keeps orderly guards \<Longrightarrow> keeps orderly (refuse_parlay i by' guards mine reason)"
proof -
  assume guards: "keeps orderly guards"
  have "keeps orderly (update_parlay i by' (\<lambda>b r. r\<lparr>py_Parlay := (py_Parlay r)\<lparr>pa_State := WagerRejected\<rparr>,
      py_RejectedBy := b, py_RejectionReason := reason\<rparr>))"
  proof (rule keepsI)
    fix db u db'
    assume "update_parlay i by' (\<lambda>b r. r\<lparr>py_Parlay := (py_Parlay r)\<lparr>pa_State := WagerRejected\<rparr>,
      py_RejectedBy := b, py_RejectionReason := reason\<rparr>) db = Inr (u, db')"
    then obtain j b where db': "db' = set_parlay j (\<lambda>r. r\<lparr>py_Parlay := (py_Parlay r)\<lparr>pa_State := WagerRejected\<rparr>,
      py_RejectedBy := b, py_RejectionReason := reason\<rparr>) db" by (auto elim: update_parlay_Inr)
    show "orderly db db'" unfolding orderly_def board_ok_def db'
      by (intro impI set_parlay_waits [where g = "\<lambda>p. p\<lparr>pa_State := WagerRejected\<rparr>"]) (auto simp: parlay_waits_def)
  qed
  with guards show ?thesis unfolding refuse_parlay_def by (intro keeps_rules orderly.loads)
qed

lemma load_legs_Inr:
  "load_legs legs db = Inr ((ms, ss, rs), db') \<Longrightarrow> db' = db \<and> (\<forall>mk \<in> set ms. \<exists>i. loadMarket i db = Inr (mk, db))"
proof (induction legs arbitrary: ms ss rs db')
  case (Cons x legs)
  obtain i j where x: "x = (i, j)" by (cases x)
  with Cons.prems obtain mk db1 s db2 r db3 ms' ss' rs' where load: "loadMarket i db = Inr (mk, db1)" "loadSelection i j db1 = Inr (s, db2)"
    "loadRestrictions i db2 = Inr (r, db3)" and rest: "load_legs legs db3 = Inr ((ms', ss', rs'), db')" and ms: "ms = mk # ms'"
    by (auto simp: cmd_simps)
  from keepsD [OF reads.loads(1) load(1)] keepsD [OF reads.loads(3) load(2)] keepsD [OF reads.loads(5) load(3)]
  have "db1 = db" "db3 = db" by simp_all
  with Cons.IH [of ms' ss' rs' db'] rest load(1) show ?case by (auto simp: ms)
qed (simp add: cmd_simps)

lemma price_parlay_legs:
  assumes "price_parlay maxPayout req t db = Inr (p, db')"
  shows "db' = db" "pa_Legs p \<noteq> []" "pa_State p = WagerPending"
    "\<forall>l \<in> set (pa_Legs p). \<exists>m s. pg_uuid (l_MarketID l) = Some m \<and> on_board db m = Some (MarketMatch, s)"
proof -
  from assms obtain ms ss rs db1 stake where load: "load_legs (rp_Legs req) db = Inr ((ms, ss, rs), db1)"
    and p0: "PlaceParlay \<lparr>pp_ParlayID = rp_ParlayID req, pp_UserID = rp_UserID req, pp_Markets = ms, pp_Selections = ss,
       pp_Restrictions = rs, pp_JuiceBasisPoints = parlayJuice, pp_MaxPayoutCents = maxPayout,
       pp_PlacedBy = rp_PlacedByUserID req, pp_FundingAccountType = rp_FundingAccountType req, pp_Stake = stake,
       pp_IdempotencyKey = rp_IdempotencyKey req, pp_Now = t\<rparr> = Inr p"
    by (auto simp: price_parlay_def cmd_simps)
  define c where "c = \<lparr>pp_ParlayID = rp_ParlayID req, pp_UserID = rp_UserID req, pp_Markets = ms, pp_Selections = ss,
       pp_Restrictions = rs, pp_JuiceBasisPoints = parlayJuice, pp_MaxPayoutCents = maxPayout,
       pp_PlacedBy = rp_PlacedByUserID req, pp_FundingAccountType = rp_FundingAccountType req, pp_Stake = stake,
       pp_IdempotencyKey = rp_IdempotencyKey req, pp_Now = t\<rparr>"
  have p: "PlaceParlay c = Inr p" unfolding c_def by (rule p0)
  have c: "pp_Markets c = ms" "pp_Selections c = ss" unfolding c_def by simp_all
  show "db' = db" using keepsD [OF reads.keeps_price_parlay assms] by simp
  note G = PlaceParlay_guards [OF p] and P = PlaceParlay_Inr [OF p]
  show "pa_Legs p \<noteq> []" using G by auto
  show "pa_State p = WagerPending" by (rule P(6))
  show "\<forall>l \<in> set (pa_Legs p). \<exists>m s. pg_uuid (l_MarketID l) = Some m \<and> on_board db m = Some (MarketMatch, s)"
  proof
    fix l assume "l \<in> set (pa_Legs p)"
    then have "l_MarketID l \<in> set (map l_MarketID (pa_Legs p))" by simp
    also have "map l_MarketID (pa_Legs p) = map mk_ID ms" using G c(1) by simp
    finally have "l_MarketID l \<in> set (map mk_ID ms)" .
    then obtain mk where mk: "mk \<in> set ms" "l_MarketID l = mk_ID mk" by auto
    then obtain s where "(mk, s) \<in> set (zip ms ss)" using P(8) unfolding c by (meson in_set_impl_in_set_zip1)
    then have ty: "mk_Type mk = MarketMatch" using G unfolding c by blast
    from load_legs_Inr [OF load] mk(1) obtain i where "loadMarket i db = Inr (mk, db)" by blast
    with ty mk(2) show "\<exists>m s. pg_uuid (l_MarketID l) = Some m \<and> on_board db m = Some (MarketMatch, s)"
      by (auto simp: loadMarket_Inr scanMarket_def on_board_def)
  qed
qed

lemma those_in: "those xs = Some ys \<Longrightarrow> y \<in> set ys \<Longrightarrow> Some y \<in> set xs"
  by (induction xs arbitrary: ys) (auto split: option.split_asm)

lemma those_length: "those xs = Some ys \<Longrightarrow> length ys = length xs"
  by (induction xs arbitrary: ys) (auto split: option.split_asm)

lemma place_parlay_orderly: "orderly db (snd (Store_PlaceParlay configured req t db))"
proof -
  have "keeps orderly (andThen (price_parlay k req t) insert_parlay)" for k
  proof (rule keepsI)
    fix db q db'
    assume "andThen (price_parlay k req t) insert_parlay db = Inr (q, db')"
    then obtain p db1 where price: "price_parlay k req t db = Inr (p, db1)" and ins: "insert_parlay p db1 = Inr (q, db')"
      by (auto simp: cmd_simps)
    note P = price_parlay_legs [OF price]
    show "orderly db db'"
    proof (cases "db' = db")
      case False
      with ins obtain i u placedBy legs where i: "pg_uuid (pa_ID p) = Some i" "i \<notin> (pa_ID \<circ> py_Parlay) ` set (db_Parlays db)"
        and legs: "those (map (\<lambda>l. cast_leg l db) (pa_Legs p)) = Some legs"
        and db': "db' = db\<lparr>db_Parlays := db_Parlays db @ [\<lparr>py_Parlay = p\<lparr>pa_ID := i, pa_UserID := u, pa_PlacedBy := placedBy, pa_Legs := legs\<rparr>,
          py_AcceptedBy = [], py_AcceptanceTransaction = [], py_RejectedBy = [], py_RejectionReason = []\<rparr>]\<rparr>"
        unfolding P(1)
        by (cases "null_uuid (pa_PlacedBy p)"; cases "those (map (\<lambda>l. cast_leg l db) (pa_Legs p))")
          (auto simp: insert_parlay_def cmd_simps Let_def split: if_splits option.split_asm)
      have leg: "open_leg l \<and> (\<exists>s. on_board db (l_MarketID l) = Some (MarketMatch, s))" if "l \<in> set legs" for l
        using those_in [OF legs that] P(4) by (force simp: cast_leg_def open_leg_def split: option.splits if_splits)
      have "length legs = length (pa_Legs p)" using legs those_length by fastforce
      with P(2) have ne: "legs \<noteq> []" by auto
      have same: "on_board db' = on_board db" by (simp add: db')
      have "parlay_waits db' = parlay_waits db" by (rule parlay_waits_cong [OF same])
      moreover have "wager_waits db' = wager_waits db" by (intro ext) (simp add: wager_waits_def same)
      moreover have "parlay_waits db {} {} (p\<lparr>pa_ID := i, pa_UserID := u, pa_PlacedBy := placedBy, pa_Legs := legs\<rparr>)"
        using leg ne P(3) by (simp add: parlay_waits_def)
      ultimately show ?thesis
        using i(2) pg_uuid_canonical [OF i(1)] by (auto simp: orderly_def board_ok_def board_waits_def db' keys_ok_def)
    qed (simp add: orderly.R_refl)
  qed
  then show ?thesis
    unfolding Store_PlaceParlay_def by (intro orderly.run_tx_keeps orderly.keeps_andThen [OF orderly.keeps_require])
qed

lemma accept_parlay_orderly: "keeps orderly (acceptParlayTx i actor)"
proof (rule keepsI)
  fix db x db'
  assume run: "acceptParlayTx i actor db = Inr (x, db')"
  then obtain j r where row: "pg_uuid i = Some j" "parlay_at j db = Some r" by (auto simp: acceptParlayTx_def cmd_simps)
  show "orderly db db'"
  proof (cases "pa_State (py_Parlay r) = WagerAccepted'")
    case True
    with run row have "db' = db" by (auto simp: acceptParlayTx_def cmd_simps)
    then show ?thesis by (simp add: orderly.R_refl)
  next
    case False
    let ?p = "py_Parlay r"
    obtain refs :: settlement_account_refs and db1 txn tid db2 where pend: "pa_State ?p = WagerPending" "\<not> list_ex (decided_leg db) (pa_Legs ?p)"
      and steps: "open_accounts (pa_UserID ?p) (pa_FundingAccountType ?p) (m_Currency (pa_Stake ?p)) db = Inr (refs, db1)"
        "insertLedgerTransaction txn db1 = Inr (tid, db2)"
      and upd: "update_parlay i actor (\<lambda>b r. r\<lparr>py_Parlay := (py_Parlay r)\<lparr>pa_State := WagerAccepted'\<rparr>,
        py_AcceptedBy := b, py_AcceptanceTransaction := tid\<rparr>) db2 = Inr ((), db')"
      by (rule acceptParlayTx_Inr [OF run row False]) (rule that; assumption)
    obtain b where db': "db' = set_parlay j (\<lambda>r. r\<lparr>py_Parlay := (py_Parlay r)\<lparr>pa_State := WagerAccepted'\<rparr>,
        py_AcceptedBy := b, py_AcceptanceTransaction := tid\<rparr>) db2"
      using upd row(1) by (auto elim: update_parlay_Inr)
    have same: "board_view db2 = board_view db"
      using keepsD [OF board_open_accounts steps(1)] keepsD [OF board_ledger_statements(5) steps(2)] by simp
    note E = board_view_eq [OF same]
    have "orderly db2 db'" unfolding orderly_def board_ok_def
    proof
      assume ok: "board_waits {} {} db2"
      have r: "?p \<in> set (map py_Parlay (db_Parlays db2))" "pa_ID ?p = j" using parlay_rowD [OF row(2)] by (simp_all only: E(3))
      have only: "p = ?p" if "p \<in> set (map py_Parlay (db_Parlays db2))" "pa_ID p = j" for p
        using that r ok unfolding board_waits_def keys_ok_def by (metis distinct_map inj_onD)
      have w: "parlay_waits db2 {} {} ?p" using ok r(1) unfolding board_waits_def by blast
      have "\<not> over s" if "l \<in> set (pa_Legs ?p)" "on_board db2 (l_MarketID l) = Some (MarketMatch, s)" for l s
        using that pend(2) by (auto simp: E(1) on_board_def over_def list_ex_iff decided_leg_def)
      with w have "leg_waits db2 {} i l" if "l \<in> set (pa_Legs ?p)" for i l using that by (fastforce simp: parlay_waits_def leg_waits_def)
      with w pend(1) have "parlay_waits db2 {} {} (?p\<lparr>pa_State := WagerAccepted'\<rparr>)"
        by (cases "pa_Legs ?p") (auto simp: parlay_waits_def undecided_def open_leg_def no_result_def)
      then show "board_waits {} {} db'" unfolding db'
        by (intro set_parlay_waits [where g = "\<lambda>p. p\<lparr>pa_State := WagerAccepted'\<rparr>", OF ok])
          (simp, simp, drule only, assumption, simp)
    qed
    then show ?thesis using same_orderly [OF same] orderly.R_trans by blast
  qed
qed

lemma parlay_operations_orderly:
  "orderly db (snd (Store_PlaceParlay configured req t db))" "orderly db (snd (Store_AcceptParlay i actor db))"
  "orderly db (snd (Store_RejectParlay i actor reason db))" "orderly db (snd (Store_CancelParlay i actor db))"
  unfolding Store_AcceptParlay_def Store_RejectParlay_def Store_CancelParlay_def
  by (intro place_parlay_orderly orderly.run_tx_keeps accept_parlay_orderly refuse_parlay_orderly orderly.keeps_require orderly.keeps_ret)+

section \<open>The legs on a settled market\<close>

lemma resolve_leg_waits:
  assumes "board_waits (insert (i, s) legs) is db" "i \<in> is" "r \<noteq> no_result"
  shows "board_waits legs is (resolve_leg i s r db)"
  unfolding resolve_leg_def
proof (rule set_parlay_waits [OF assms(1), where g = "\<lambda>p. p\<lparr>pa_Legs := map (\<lambda>l. if l_SelectionID l = s \<and> l_Result l = no_result
    then l\<lparr>l_Result := r\<rparr> else l) (pa_Legs p)\<rparr>"])
  fix p
  assume p: "parlay_waits db (insert (i, s) legs) is p"
  show "parlay_waits db legs is p" if "pa_ID p \<noteq> i"
    using p that by (simp add: parlay_waits_def leg_waits_def)
  show "parlay_waits db legs is (p\<lparr>pa_Legs := map (\<lambda>l. if l_SelectionID l = s \<and> l_Result l = no_result
      then l\<lparr>l_Result := r\<rparr> else l) (pa_Legs p)\<rparr>)" if "pa_ID p = i"
    using p that assms(2,3) by (auto simp: parlay_waits_def leg_waits_def open_leg_def)
qed simp_all

lemma resolve_one_waits:
  assumes "resolve_one outcome voided x db = Inr (u, db')" "board_waits (insert x legs) is db" "fst x \<in> is"
  shows "board_waits legs is db'"
proof -
  obtain i s where x: "x = (i, s)" by (cases x)
  from assms(1) obtain r where "r \<noteq> no_result" "db' = resolve_leg i s r db"
    by (auto simp: resolve_one_def x cmd_simps no_result_def split: if_split_asm option.split_asm)
  with resolve_leg_waits assms(2,3) show ?thesis by (simp add: x)
qed

lemma resolve_legs_wait:
  "each (resolve_one outcome voided) xs db = Inr (u, db') \<Longrightarrow> board_waits (set xs) is db \<Longrightarrow> fst ` set xs \<subseteq> is \<Longrightarrow> board_waits {} is db'"
proof (induction xs arbitrary: db)
  case (Cons x xs)
  then obtain u1 db1 where run: "resolve_one outcome voided x db = Inr (u1, db1)" and rest: "each (resolve_one outcome voided) xs db1 = Inr (u, db')"
    by (auto simp: cmd_simps)
  from resolve_one_waits [OF run, of "set xs"] Cons.prems(2,3) have "board_waits (set xs) is db1" by simp
  from Cons.IH [OF rest this] Cons.prems(3) show ?case by simp
qed (simp add: cmd_simps)

section \<open>Grading the parlays\<close>

lemma pay_parlay_board:
  assumes "payParlayTx i p juice db = Inr (u, db')" "pg_uuid i = Some j" "\<not> undecided p"
  shows "\<exists>db2. board_view db2 = board_view db \<and> db' = set_parlay j (\<lambda>r. r\<lparr>py_Parlay := (py_Parlay r)\<lparr>pa_State := WagerSettled'\<rparr>\<rparr>) db2"
proof -
  from assms(1) obtain refs db1 settled where refs: "open_accounts (pa_UserID p) (pa_FundingAccountType p) (m_Currency (pa_Stake p)) db = Inr (refs, db1)"
    and pay: "settleParlayIfComplete p juice (sr_UserFundingAccountID refs) (sr_EscrowAccountID refs) (sr_HouseClearingAccountID refs) = Inr settled"
    and rest: "(case settled of None \<Rightarrow> ret ()
      | Some (outcome, txn) \<Rightarrow>
      andThen (insertLedgerTransaction txn) (\<lambda>transactionID.
      andThen (uuid_arg i) (\<lambda>i.
      andThen (exec (insert_parlay_settlement i outcome transactionID)) (\<lambda>_.
      exec (set_parlay i (\<lambda>r. r\<lparr>py_Parlay := (py_Parlay r)\<lparr>pa_State := WagerSettled'\<rparr>\<rparr>)))))) db1 = Inr (u, db')"
    unfolding payParlayTx_def by (auto simp: cmd_simps)
  show ?thesis
  proof (cases settled)
    case None
    with pay have "undecided p"
      by (auto simp: settleParlayIfComplete_def Let_def undecided_def open_leg_def list_ex_iff filter_empty_conv result_simps split: if_split_asm option.split_asm)
    with assms(3) show ?thesis by simp
  next
    case (Some gt)
    with rest assms(2) obtain g t tid db2 where post: "insertLedgerTransaction t db1 = Inr (tid, db2)"
      and db': "db' = set_parlay j (\<lambda>r. r\<lparr>py_Parlay := (py_Parlay r)\<lparr>pa_State := WagerSettled'\<rparr>\<rparr>) (insert_parlay_settlement j g tid db2)"
      by (cases gt) (auto simp: cmd_simps)
    have "board_view (insert_parlay_settlement j g tid db2) = board_view db"
      using keepsD [OF board_open_accounts refs] keepsD [OF board_ledger_statements(5) post] by (simp add: insert_parlay_settlement_def)
    with db' show ?thesis by blast
  qed
qed

lemma settleParlayTx_decided:
  assumes "canonical i" "parlay_at i db = Some r"
  shows "settleParlayIfCompleteTx i juice db = Inr (u, db') \<longleftrightarrow> (if undecided (py_Parlay r) then db' = db
    else (\<exists>g. GradeParlay (if list_ex (\<lambda>l. l_Result l = ResultLoss) (pa_Legs (py_Parlay r)) then void_open_legs (py_Parlay r) else py_Parlay r) juice = Inr g)
      \<and> payParlayTx i (py_Parlay r) juice db = Inr (u, db'))"
proof -
  let ?p = "py_Parlay r"
  have load: "loadParlay i db = Inr (?p, db)" using assms by (simp add: loadParlay_Inr canonical_def)
  have und: "undecided ?p \<longleftrightarrow> list_ex (\<lambda>l. l_Result l = no_result) (pa_Legs ?p) \<and> \<not> list_ex (\<lambda>l. l_Result l = ResultLoss) (pa_Legs ?p)"
    by (auto simp: undecided_def open_leg_def list_ex_iff)
  show ?thesis
    by (cases "undecided ?p") (simp_all add: settleParlayIfCompleteTx_def andThen_def [of "loadParlay i"] load und [symmetric] andThen_Inr domain_Inr ret_Inr)
qed

lemma settle_parlay_waits:
  assumes "settleParlayIfCompleteTx i juice db = Inr (u, db')" "board_waits {} (insert i is) db" "i \<notin> is" "canonical i"
  shows "board_waits {} is db'"
proof -
  from assms(1,4) obtain r where row: "parlay_at i db = Some r"
    by (auto simp: settleParlayIfCompleteTx_def andThen_Inr loadParlay_Inr canonical_def)
  note run = settleParlayTx_decided [OF assms(4) row, THEN iffD1, OF assms(1)]
  have other: "parlay_waits db {} is p" if "parlay_waits db {} (insert i is) p" "pa_ID p \<noteq> i" for p using that by (simp add: parlay_waits_def)
  show ?thesis
  proof (cases "undecided (py_Parlay r)")
    case True
    have only: "p = py_Parlay r" if "p \<in> set (map py_Parlay (db_Parlays db))" "pa_ID p = i" for p
      using that parlay_rowD [OF row] assms(2) unfolding board_waits_def keys_ok_def by (metis distinct_map inj_onD)
    have "parlay_waits db {} is p" if "p \<in> set (map py_Parlay (db_Parlays db))" "parlay_waits db {} (insert i is) p" for p
    proof (cases "pa_ID p = i")
      case True
      with only [OF that(1)] \<open>undecided (py_Parlay r)\<close> that(2) assms(3) show ?thesis by (simp add: parlay_waits_def)
    qed (rule other [OF that(2)])
    with True run assms(2) show ?thesis unfolding board_waits_def by simp
  next
    case False
    with run have "payParlayTx i (py_Parlay r) juice db = Inr (u, db')" by simp
    from pay_parlay_board [OF this _ False] assms(4) obtain db2 where same: "board_view db2 = board_view db"
      and db': "db' = set_parlay i (\<lambda>r. r\<lparr>py_Parlay := (py_Parlay r)\<lparr>pa_State := WagerSettled'\<rparr>\<rparr>) db2"
      unfolding canonical_def by blast
    have ok2: "board_waits {} (insert i is) db2" using assms(2) board_view_eq(4) [OF same] by simp
    have "on_board db2 = on_board db" by (rule board_view_eq(1) [OF same])
    note w = parlay_waits_cong [OF this]
    show ?thesis unfolding db'
      by (rule set_parlay_waits [OF ok2, where g = "\<lambda>p. p\<lparr>pa_State := WagerSettled'\<rparr>"])
        (use assms(3) other in \<open>auto simp: w parlay_waits_def\<close>)
  qed
qed

lemma settle_parlays_wait:
  "each (\<lambda>i. settleParlayIfCompleteTx i juice) is db = Inr (u, db') \<Longrightarrow> board_waits {} (set is) db \<Longrightarrow> distinct is \<Longrightarrow> \<forall>i \<in> set is. canonical i
    \<Longrightarrow> board_waits {} {} db'"
proof (induction "is" arbitrary: db)
  case (Cons i js)
  then obtain u1 db1 where run: "settleParlayIfCompleteTx i juice db = Inr (u1, db1)"
    and rest: "each (\<lambda>i. settleParlayIfCompleteTx i juice) js db1 = Inr (u, db')" by (auto simp: cmd_simps)
  from settle_parlay_waits [OF run, of "set js"] Cons.prems have "board_waits {} (set js) db1" by simp
  from Cons.IH [OF rest this] Cons.prems show ?case by simp
qed (simp add: cmd_simps)

end
