(* ===== verification/Book_Settled.thy ===== *)
theory Book_Settled
  imports Book_Waiting
begin

text \<open>
  The settlement of a market keeps \<open>board_ok\<close>: every accepted wager on it ends before the market does. With the
  operations of \<open>Book_Board\<close> and \<open>Book_Waiting\<close> this covers every operation on the board.
\<close>

section \<open>Every accepted wager ends\<close>

definition ended :: "string set \<Rightarrow> wager \<Rightarrow> wager \<Rightarrow> bool" where
  "ended is w w' \<longleftrightarrow> w_ID w' = w_ID w \<and> w_MarketID w' = w_MarketID w
     \<and> (w' = w \<and> w_ID w \<notin> is \<or> w_State w' \<in> {WagerSettled', WagerVoided})"

definition ends :: "string set \<Rightarrow> book_db \<Rightarrow> book_db \<Rightarrow> bool" where
  "ends is db db' \<longleftrightarrow> on_board db' = on_board db \<and> map py_Parlay (db_Parlays db') = map py_Parlay (db_Parlays db)
     \<and> list_all2 (ended is) (map wr_Wager (db_Wagers db)) (map wr_Wager (db_Wagers db'))"

lemma ends_refl: "ends {} db db"
  by (simp add: ends_def list_all2_same ended_def)

lemma ends_trans:
  assumes "ends A db db'" "ends B db' db''"
  shows "ends (A \<union> B) db db''"
proof -
  have "list_all2 (ended (A \<union> B)) (map wr_Wager (db_Wagers db)) (map wr_Wager (db_Wagers db''))"
    by (rule list_all2_trans [of "ended A" "ended B"]) (use assms in \<open>auto simp: ends_def ended_def\<close>)
  with assms show ?thesis by (simp add: ends_def)
qed

lemma persist_ends:
  assumes "persist_settlement sid x db = Inr (u, db')" "canonical (ws_WagerID (fst x))"
  shows "ends {ws_WagerID (fst x)} db db'"
proof -
  obtain s e where x: "x = (s, e)" by (cases x)
  let ?st = "if ws_Result s = ResultVoid then WagerVoided else WagerSettled'"
  let ?f = "\<lambda>r. r\<lparr>wr_Wager := (wr_Wager r)\<lparr>w_State := ?st\<rparr>\<rparr>"
  obtain tid db1 k db2 where post: "insertLedgerTransaction (ws_Transaction s) db = Inr (tid, db1)" and k: "pg_uuid (ws_WagerID s) = Some k"
    and same: "board_view db2 = board_view db1" and pub: "publish e (set_wager k ?f db2) = Inr ((), db')"
    by (rule persist_Inr [OF assms(1) [unfolded x]]) (rule that; assumption)
  have k': "k = ws_WagerID s" using k assms(2) by (simp add: x canonical_def)
  have v: "board_view db2 = board_view db" "board_view db' = board_view (set_wager k ?f db2)"
    using same keepsD [OF board_ledger_statements(5) post] keepsD [OF board.unseen_publish pub] by simp_all
  have "map wr_Wager (db_Wagers db') = map (\<lambda>w. if w_ID w = k then w\<lparr>w_State := ?st\<rparr> else w) (map wr_Wager (db_Wagers db))"
    unfolding board_view_eq(2) [OF v(2)] board_view_eq(2) [OF v(1), symmetric] by (rule map_set_wager) simp
  moreover have "on_board db' = on_board db" using board_view_eq(1) [OF v(1)] board_view_eq(1) [OF v(2)] by simp
  moreover have "map py_Parlay (db_Parlays db') = map py_Parlay (db_Parlays db)"
    unfolding board_view_eq(3) [OF v(2)] board_view_eq(3) [OF v(1), symmetric] by (simp add: set_wager_def)
  ultimately show ?thesis by (auto simp: ends_def ended_def x k' list_all2_map2 list_all2_same simp del: map_map)
qed

lemma persist_all_ends:
  "each (persist_settlement sid) xs db = Inr (u, db') \<Longrightarrow> \<forall>x \<in> set xs. canonical (ws_WagerID (fst x)) \<Longrightarrow>
    ends ((ws_WagerID \<circ> fst) ` set xs) db db'"
proof (induction xs arbitrary: db)
  case (Cons x xs)
  then obtain u1 db1 where run: "persist_settlement sid x db = Inr (u1, db1)" and rest: "each (persist_settlement sid) xs db1 = Inr (u, db')"
    by (auto simp: cmd_simps)
  from persist_ends [OF run] Cons.IH [OF rest] Cons.prems(2) ends_trans show ?case by fastforce
qed (simp add: cmd_simps ends_refl)

section \<open>The market ends\<close>

lemma ends_keys: "ends is db db' \<Longrightarrow> map w_ID (map wr_Wager (db_Wagers db')) = map w_ID (map wr_Wager (db_Wagers db))"
  unfolding ends_def by (elim conjE) (erule list_all2_map_eq, simp add: ended_def)

lemma open_legs_on_in:
  "p \<in> set (map py_Parlay (db_Parlays db)) \<Longrightarrow> pa_State p = WagerAccepted' \<Longrightarrow> l \<in> set (pa_Legs p) \<Longrightarrow> open_leg l \<Longrightarrow> l_MarketID l = m
    \<Longrightarrow> (pa_ID p, l_SelectionID l) \<in> set (open_legs_on m db)"
  by (fastforce simp: open_legs_on_def open_leg_def)

lemma market_ends:
  assumes ok: "board_ok db" and ends: "ends is db db'" and s: "s \<in> {MarketSettled', MarketVoided}"
    and all: "\<forall>w \<in> set (map wr_Wager (db_Wagers db)). w_MarketID w = m \<and> w_State w = WagerAccepted' \<longrightarrow> w_ID w \<in> is"
    and db2: "db2 = set_market_state m s db'"
  shows "board_waits (set (open_legs_on m db2)) (fst ` set (open_legs_on m db2)) db2"
proof -
  let ?X = "set (open_legs_on m db2)"
  have rows: "db_Wagers db2 = db_Wagers db'" "db_Parlays db2 = db_Parlays db'" by (simp_all add: db2)
  have p: "map py_Parlay (db_Parlays db') = map py_Parlay (db_Parlays db)" and b: "on_board db' = on_board db" using ends by (simp_all add: ends_def)
  have other: "on_board db2 i = on_board db i" if "i \<noteq> m" for i using that by (simp add: db2 on_board_set b)
  have here: "on_board db2 m = map_option (\<lambda>(ty, s'). (ty, s)) (on_board db m)" by (simp add: db2 on_board_set b)
  have wagers: "wager_waits db2 w'" if "w' \<in> set (map wr_Wager (db_Wagers db'))" for w'
  proof -
    from ends that obtain w where w: "w \<in> set (map wr_Wager (db_Wagers db))" and e: "ended is w w'"
      unfolding ends_def using list_all2_set2 by metis
    have "wager_waits db w" using ok w unfolding board_ok_def board_waits_def by blast
    with w e all s show ?thesis using other [of "w_MarketID w"] here
      by (cases "w_MarketID w = m") (auto simp: wager_waits_def ended_def)
  qed
  have old: "parlay_waits db {} {} q" if "q \<in> set (map py_Parlay (db_Parlays db'))" for q
    using ok that unfolding board_ok_def board_waits_def p by blast
  have types: "\<exists>s. on_board db2 i = Some (MarketMatch, s)" if "\<exists>s. on_board db i = Some (MarketMatch, s)" for i
    using that other [of i] here by (cases "i = m") auto
  have accepted: "pa_State q = WagerAccepted'" if "q \<in> set (map py_Parlay (db_Parlays db'))" "pa_ID q \<in> fst ` ?X" for q
  proof -
    from that(2) obtain q' where q': "q' \<in> set (map py_Parlay (db_Parlays db'))" "pa_ID q' = pa_ID q" "pa_State q' = WagerAccepted'"
      using open_legs_accepted [of _ _ m db2] by (fastforce simp: rows)
    moreover have "distinct (map pa_ID (map py_Parlay (db_Parlays db')))" using ok unfolding board_ok_def board_waits_def keys_ok_def p by blast
    ultimately have "q' = q" using that(1) by (metis distinct_map inj_onD)
    with q'(3) show ?thesis by simp
  qed
  have parlays: "parlay_waits db2 ?X (fst ` ?X) q" if q: "q \<in> set (map py_Parlay (db_Parlays db'))" for q
  proof -
    have "leg_waits db2 ?X (pa_ID q) l" if "pa_State q = WagerAccepted'" "l \<in> set (pa_Legs q)" "open_leg l" for l
    proof (cases "l_MarketID l = m")
      case True
      then have "(pa_ID q, l_SelectionID l) \<in> ?X" using open_legs_on_in [of q db2 l m] q that by (simp add: rows)
      with old [OF q] that types show ?thesis by (simp add: leg_waits_def parlay_waits_def)
    next
      case False
      with old [OF q] that other show ?thesis by (fastforce simp: leg_waits_def parlay_waits_def)
    qed
    with old [OF q] types accepted [OF q] show ?thesis unfolding parlay_waits_def by blast
  qed
  have "keys_ok (map w_ID (map wr_Wager (db_Wagers db2)))" using ok unfolding board_ok_def board_waits_def rows ends_keys [OF ends] by blast
  moreover have "keys_ok (map pa_ID (map py_Parlay (db_Parlays db2)))" using ok unfolding board_ok_def board_waits_def rows p by blast
  ultimately show ?thesis unfolding board_waits_def using wagers parlays by (simp only: rows) blast
qed

lemma settled_from_ids: "settled_from xs w r \<Longrightarrow> ws_WagerID (fst r) = w_ID w"
  unfolding settled_from_def by (cases r) (auto elim!: settleWager_posts)

lemma settle_wagers_orderly: "keeps orderly (settle_wagersTx marketID ty outcome actor reason regrade dh t market version i j)"
proof (rule keepsI)
  fix db u db'
  assume "settle_wagersTx marketID ty outcome actor reason regrade dh t market version i j db = Inr (u, db')"
  then obtain ss ws xs db1 me db2 result where load: "loadWagersForMarketForUpdate marketID db = Inr (ws, db)"
    and prep: "prepare_wagers ws db = Inr (xs, db1)" and rnd: "random_uuid db1 = Inr (me, db2)"
    and dom: "settle_domain ty market ss outcome ws xs i version actor reason t me regrade dh = Inr result"
    and rec: "record_resultTx marketID ty outcome version j result db2 = Inr (u, db')"
    by (rule settle_wagersTx_Inr) (rule that; assumption)
  obtain m db3 db4 db5 where m: "pg_uuid marketID = Some m"
    and outs: "(if ty = Graded then each (insert_outcome j marketID (sx_DeadHeatDivisor result)) (DAList.impl_of outcome) else ret ()) db2 = Inr ((), db3)"
    and pers: "each (persist_settlement j) (zip (sx_Settlements result) (sx_WagerEvents result)) db3 = Inr ((), db4)"
    and leg: "resolveParlayLegsTx marketID outcome (ty = Voided) parlayJuice (set_market_state m (mk_State (sx_Market result)) db4) = Inr ((), db5)"
    and pub: "publish (sx_MarketEvent result) db5 = Inr ((), db')"
    by (rule record_resultTx_Inr [OF rec]) (rule that; assumption)
  obtain rs where rs: "list_all2 (settled_from xs) (sort_key w_ID (filter (\<lambda>w. w_State w = WagerAccepted') ws)) rs"
    and z: "zip (sx_Settlements result) (sx_WagerEvents result) = map (\<lambda>r. (fst r, snd (snd r))) rs"
    and st: "mk_State (sx_Market result) = (if ty = Graded then MarketSettled' else MarketVoided)"
    by (rule settle_domain_Inr [OF dom])
  have ws: "ws = map wagerRow (sort_key (w_ID \<circ> wr_Wager) (filter (\<lambda>r. w_MarketID (wr_Wager r) = m) (db_Wagers db)))"
    using load m by (auto simp: loadWagersForMarketForUpdate_def cmd_simps)
  have "board.unseen (if ty = Graded then each (insert_outcome j marketID (sx_DeadHeatDivisor result)) (DAList.impl_of outcome) else ret ())"
    by (intro keeps_rules)
  from keepsD [OF this outs] keepsD [OF board.unseen_random rnd] keepsD [OF board_prepare prep]
  have same: "board_view db3 = board_view db" by simp
  note E = board_view_eq [OF same]
  define ids where "ids = w_ID ` set (filter (\<lambda>w. w_State w = WagerAccepted') ws)"
  have "map (\<lambda>r. ws_WagerID (fst r)) rs = map w_ID (sort_key w_ID (filter (\<lambda>w. w_State w = WagerAccepted') ws))"
    by (rule list_all2_map_eq [OF rs]) (rule settled_from_ids)
  from arg_cong [OF this, of set] have ids: "(ws_WagerID \<circ> fst) ` set (map (\<lambda>r. (fst r, snd (snd r))) rs) = ids"
    by (simp add: ids_def image_image)
  show "orderly db db'" unfolding orderly_def
  proof
    assume "board_ok db"
    then have ok: "board_ok db3" using E(4) by (simp add: board_ok_def)
    have canon: "\<forall>w \<in> set (map wr_Wager (db_Wagers db3)). canonical (w_ID w)" using ok unfolding board_ok_def board_waits_def keys_ok_def by simp
    have "\<forall>k \<in> ids. canonical k" using canon unfolding E(2) by (auto simp: ids_def ws wagerRow_kept)
    then have ends: "ends ids db3 db4" using persist_all_ends [OF pers] unfolding z ids [symmetric] by auto
    have all: "\<forall>w \<in> set (map wr_Wager (db_Wagers db3)). w_MarketID w = m \<and> w_State w = WagerAccepted' \<longrightarrow> w_ID w \<in> ids"
    proof (intro ballI impI, elim conjE)
      fix w assume "w \<in> set (map wr_Wager (db_Wagers db3))" and w: "w_MarketID w = m" "w_State w = WagerAccepted'"
      then obtain r where r: "r \<in> set (db_Wagers db)" "w = wr_Wager r" unfolding E(2) by auto
      then have "wagerRow r \<in> set (filter (\<lambda>w. w_State w = WagerAccepted') ws)" using w by (simp add: ws wagerRow_kept)
      then show "w_ID w \<in> ids" unfolding ids_def r(2) wagerRow_kept(1) [symmetric] by (rule imageI)
    qed
    let ?db = "set_market_state m (mk_State (sx_Market result)) db4"
    have waits: "board_waits (set (open_legs_on m ?db)) (fst ` set (open_legs_on m ?db)) ?db"
      by (rule market_ends [OF ok ends _ all refl]) (simp add: st)
    from leg m obtain db6 where legs: "each (resolve_one outcome (ty = Voided)) (open_legs_on m ?db) ?db = Inr ((), db6)"
      and pay: "each (\<lambda>i. settleParlayIfCompleteTx i parlayJuice) (remdups (map fst (open_legs_on m ?db))) db6 = Inr ((), db5)"
      by (auto simp: resolveParlayLegsTx_def cmd_simps)
    have "board_waits {} (fst ` set (open_legs_on m ?db)) db6" by (rule resolve_legs_wait [OF legs waits]) simp
    moreover have "canonical i" if "i \<in> fst ` set (open_legs_on m ?db)" for i
      using that waits open_legs_accepted [of _ _ m ?db] unfolding board_waits_def keys_ok_def by fastforce
    ultimately have "board_ok db5" unfolding board_ok_def by (intro settle_parlays_wait [OF pay]) simp_all
    with keepsD [OF orderly_statements(2) pub] show "board_ok db'" by (simp add: orderly_def)
  qed
qed

lemma settleWith_orderly: "keeps orderly (settleWithTx marketID ty outcome actor reason verified regrade dh t)"
  unfolding settleWithTx_def by (intro keeps_rules settle_wagers_orderly orderly.loads)

lemma settlements_orderly:
  "orderly db (snd (Store_SettleMarket req t db))" "orderly db (snd (Store_VoidMarket m a reason t db))"
  "orderly db (snd (RegradeStrandedWagers m a reason t db))" "orderly db (snd (SettleMatchMarkets matchID o' winner verified actor t db))"
proof -
  show settle: "orderly db (snd (Store_SettleMarket req t db))" for db req
    unfolding Store_SettleMarket_def by (intro orderly.run_tx_keeps settleWith_orderly)
  show "orderly db (snd (Store_VoidMarket m a reason t db))"
    unfolding Store_VoidMarket_def by (intro orderly.run_tx_keeps settleWith_orderly)
  show "orderly db (snd (RegradeStrandedWagers m a reason t db))"
    unfolding RegradeStrandedWagers_def Let_def
    by (auto intro: orderly.R_refl orderly.run_tx_keeps settleWith_orderly split: option.split)
  show "orderly db (snd (SettleMatchMarkets matchID o' winner verified actor t db))"
    by (rule orderly.match_markets_steps) (rule market_operations_orderly, rule settle)
qed

end
