(* ===== verification/Book_Final.thy ===== *)
theory Book_Final
  imports Book_Settled
begin

text \<open>
  A market that is over stays as it is: settled, voided, cancelled and closed without action are final. \<open>on_board\<close> is
  a view of the database that most statements do not touch; a market's state moves only where the code moves it.
\<close>

section \<open>What leaves the states of the markets alone\<close>

lemma on_board_other [simp]:
  "on_board (db\<lparr>db_Draws := draws\<rparr>) = on_board db" "on_board (db\<lparr>db_Outbox := outbox\<rparr>) = on_board db" "on_board (db\<lparr>db_Audit := entries\<rparr>) = on_board db"
  "on_board (db\<lparr>db_Selections := selections\<rparr>) = on_board db" "on_board (db\<lparr>db_PriceChanges := changes\<rparr>) = on_board db"
  "on_board (db\<lparr>db_Restrictions := restrictions\<rparr>) = on_board db" "on_board (db\<lparr>db_MarketSettlements := settlements\<rparr>) = on_board db"
  "on_board (db\<lparr>db_Outcomes := outcomes\<rparr>) = on_board db" "on_board (db\<lparr>db_WagerSettlements := ws\<rparr>) = on_board db"
  "on_board (db\<lparr>db_ParlaySettlements := ps\<rparr>) = on_board db" "on_board (db\<lparr>db_Accounts := accounts\<rparr>) = on_board db"
  "on_board (db\<lparr>db_Transactions := ts\<rparr>) = on_board db" "on_board (db\<lparr>db_Users := users\<rparr>) = on_board db"
  "on_board (db\<lparr>db_Matches := matches\<rparr>) = on_board db" "on_board (db\<lparr>db_Random := random\<rparr>) = on_board db"
  by (intro ext, simp add: on_board_map)+

interpretation states: command_view on_board
  by unfold_locales simp_all

lemma states_of_board: "board.unseen m \<Longrightarrow> states.unseen m"
  by (erule keeps_mono) (rule board_view_eq(1))

lemma states_statements [keeps_rules]:
  "states.unseen (insertLedgerTransaction txn)" "states.unseen (ensureUserAccount u f c)" "states.unseen (ensureSystemAccount ty c)"
  "states.unseen (open_accounts u f c)" "states.unseen (prepare_wagers ws)"
  by (intro states_of_board keeps_rules)+

lemma states_rows [keeps_rules]:
  "states.unseen (insert_wager w)" "states.unseen (insert_parlay p)" "states.unseen (mark_accepted i actor tid)"
  "states.unseen (mark_rejected i by' reason P stale)" "states.unseen (update_accepted i Q g)" "states.unseen (update_parlay i by' h)"
  "states.unseen (persist_settlement sid x)" "states.unseen (resolve_one outcome voided y)"
  subgoal by (cases "null_uuid (w_PlacedBy w)"; rule keepsI) (auto simp: insert_wager_def cmd_simps split: if_splits)
  subgoal by (cases "null_uuid (pa_PlacedBy p)"; rule keepsI) (auto simp: insert_parlay_def cmd_simps Let_def split: if_splits option.split_asm)
  subgoal by (rule keepsI) (auto simp: mark_accepted_def Let_def cmd_simps split: if_splits option.splits)
  subgoal by (rule keepsI) (auto simp: mark_rejected_def cmd_simps split: if_splits option.splits)
  subgoal by (rule keepsI) (auto simp: update_accepted_def cmd_simps split: if_splits option.splits)
  subgoal by (rule keepsI) (auto simp: update_parlay_def cmd_simps split: if_splits)
  subgoal unfolding persist_settlement_def
    by (intro keeps_rules; rule keepsI) (auto simp: cmd_simps split: if_splits)
  subgoal by (rule keepsI) (auto simp: resolve_one_def resolve_leg_def cmd_simps split: if_splits option.splits prod.splits)
  done

lemma states_commands [keeps_rules]:
  "states.unseen (placeWagerTx k req t)" "states.unseen (acceptWagerTx i actor t)" "states.unseen (voidWagerTx i actor reason t)"
  "states.unseen (reduceWagerTx i stake actor reason t)" "states.unseen (postSettlementTx payment t)" "states.unseen (postReversalTx i actor reason)"
  "states.unseen (acceptParlayTx i actor)" "states.unseen (payParlayTx i p juice)" "states.unseen (settleParlayIfCompleteTx i juice)"
  unfolding placeWagerTx_def acceptWagerTx_def voidWagerTx_def reduceWagerTx_def postSettlementTx_def postReversalTx_def
    acceptParlayTx_def payParlayTx_def settleParlayIfCompleteTx_def Let_def
  by (intro keeps_rules states.loads; rule keepsI, auto simp: cmd_simps insert_parlay_settlement_def)+

lemma states_resolve [keeps_rules]: "states.unseen (resolveParlayLegsTx m outcome voided juice)"
  unfolding resolveParlayLegsTx_def by (intro keeps_rules)

lemma states_wagers:
  "on_board (snd (Store_PlaceWager configured bet t db)) = on_board db" "on_board (snd (Store_AcceptWager i actor t db)) = on_board db"
  "on_board (snd (Store_RejectWager i actor reason db)) = on_board db" "on_board (snd (Store_CancelWager i actor db)) = on_board db"
  "on_board (snd (Store_VoidWager exp64 i actor reason t db)) = on_board db"
  "on_board (snd (Store_ReduceWager exp64 i stake actor reason t db)) = on_board db"
proof -
  have reprice: "on_board (snd (then_reprice exp64 i f (x, db1))) = on_board db" if "on_board db1 = on_board db" for f x db1
    using that states.unseen_lines(1) by (auto simp: then_reprice_def split: sum.split)
  show "on_board (snd (Store_PlaceWager configured bet t db)) = on_board db" "on_board (snd (Store_AcceptWager i actor t db)) = on_board db"
    "on_board (snd (Store_RejectWager i actor reason db)) = on_board db" "on_board (snd (Store_CancelWager i actor db)) = on_board db"
    unfolding Store_PlaceWager_def Store_AcceptWager_def Store_RejectWager_def Store_CancelWager_def
    by (intro states.run_tx_keeps keeps_rules states.loads)+
  show "on_board (snd (Store_VoidWager exp64 i actor reason t db)) = on_board db"
    "on_board (snd (Store_ReduceWager exp64 i stake actor reason t db)) = on_board db"
    unfolding Store_VoidWager_def Store_ReduceWager_def
    by (subst prod.collapse [symmetric], intro reprice states.run_tx_keeps keeps_rules)+
qed

lemma states_parlays:
  "on_board (snd (Store_PlaceParlay configured legs t db)) = on_board db" "on_board (snd (Store_AcceptParlay i actor db)) = on_board db"
  "on_board (snd (Store_RejectParlay i actor reason db)) = on_board db" "on_board (snd (Store_CancelParlay i actor db)) = on_board db"
  unfolding Store_PlaceParlay_def Store_AcceptParlay_def Store_RejectParlay_def Store_CancelParlay_def refuse_parlay_def
  by (intro states.run_tx_keeps keeps_rules states.loads)+

lemma states_settling_up:
  "on_board (snd (RecordSettlement payment t db)) = on_board db" "on_board (snd (ReverseSettlement i actor reason db)) = on_board db"
  unfolding RecordSettlement_def ReverseSettlement_def by (intro states.run_tx_keeps keeps_rules)+

section \<open>Finality\<close>

definition finalizes :: "book_db \<Rightarrow> book_db \<Rightarrow> bool" where
  "finalizes db db' \<longleftrightarrow> (\<forall>m ty s. on_board db m = Some (ty, s) \<and> over s \<longrightarrow> on_board db' m = Some (ty, s))"

interpretation final: command_relation finalizes
  by unfold_locales (simp_all add: finalizes_def)

lemma states_final: "on_board db' = on_board db \<Longrightarrow> finalizes db db'"
  by (simp add: finalizes_def)

lemma unseen_final: "states.unseen m \<Longrightarrow> keeps finalizes m"
  by (erule keeps_mono) (rule states_final)

lemma move_market_Inr:
  "move_market m s0 s db = Inr (u, db') \<longleftrightarrow> (\<exists>i ty. pg_uuid m = Some i \<and> on_board db i = Some (ty, s0) \<and> db' = set_market_state i s db)"
  by (auto simp: move_market_def cmd_simps on_board_def split: option.split_asm if_split_asm)

lemma move_market_final: "\<not> over s0 \<Longrightarrow> keeps finalizes (move_market m s0 s)"
  by (rule keepsI) (auto simp: move_market_Inr finalizes_def on_board_set)

lemma close_final: "keeps finalizes (closeOpenMarketTx m t)" "keeps finalizes (closeMarketTx m t)"
  unfolding closeOpenMarketTx_def closeMarketTx_def
  by (intro keeps_rules final.loads move_market_final unseen_final [OF states.unseen_market_event]; simp add: over_def)+

lemma insert_market_final: "keeps finalizes (insert_market mk req)"
proof (rule keepsI)
  fix db x db'
  assume "insert_market mk req db = Inr (x, db')"
  then have "db' = db \<or> (\<exists>r. db' = db\<lparr>db_Markets := db_Markets db @ [r]\<rparr>)"
    by (cases "null_uuid (mk_MatchID mk)") (auto simp: insert_market_def cmd_simps split: if_split_asm)
  then show "finalizes db db'" by (auto simp: finalizes_def on_board_map map_add_def split: option.split)
qed

lemma no_action_final: "finalizes db (snd (CloseMarketWithoutAction m actor reason db))"
proof -
  have "finalizes db db'" if run: "market_for_update m db = Inr (r, db1)" "MarketState_CanTransitionTo (mk_State (mr_Market r)) MarketNoAction"
    "move_market m (mk_State (mr_Market r)) MarketNoAction db1 = Inr (u, db')" for r db1 u db'
  proof -
    have "db1 = db" using keepsD [OF reads.loads(19) run(1)] by simp
    moreover have "\<not> over (mk_State (mr_Market r))" using run(2) by (cases "mk_State (mr_Market r)") (auto simp: MarketState_CanTransitionTo_def over_def)
    ultimately show ?thesis using keepsD [OF move_market_final run(3)] by simp
  qed
  moreover have "finalizes db' db''" if "audit a b c d db' = Inr (u, db'')" for a b c d db' u db''
    using keepsD [OF unseen_final [OF states.unseen_audit] that] .
  ultimately show ?thesis
    unfolding CloseMarketWithoutAction_def
    by (auto simp: run_tx_def final.R_refl cmd_simps dest!: keepsD [OF reads.loads(18)] split: sum.split) (meson final.R_trans)
qed

lemma market_operations_final:
  "finalizes db (snd (Store_CloseMarket m t db))" "finalizes db (snd (Store_OpenMarket m a t db))"
  "finalizes db (snd (Store_CreateMarket req t db))" "finalizes db (snd (SetMarketCloseTime m c a reason t db))"
  "finalizes db (snd (SetStakeLimit m s limit a reason db))"
proof -
  have upd: "keeps finalizes (update_market m f)" if "\<And>r. mk_ID (mr_Market (f r)) = mk_ID (mr_Market r)"
    "\<And>r. mk_Type (mr_Market (f r)) = mk_Type (mr_Market r)" "\<And>r. mk_State (mr_Market (f r)) = mk_State (mr_Market r)" for m f
    by (rule unseen_final, rule states_of_board, rule keepsI) (auto simp: update_market_def cmd_simps board_view_def that)
  note rules = final.run_tx_keeps final.loads close_final move_market_final upd insert_market_final
    unseen_final [OF states.unseen_market_event] unseen_final [OF states.unseen_audit] unseen_final [OF states.unseen_update_selection]
    unseen_final [OF states.unseen_build_selections] unseen_final [OF states.unseen_insert_selection]
  show "finalizes db (snd (Store_CloseMarket m t db))" "finalizes db (snd (Store_OpenMarket m a t db))"
    "finalizes db (snd (Store_CreateMarket req t db))" "finalizes db (snd (SetMarketCloseTime m c a reason t db))"
    "finalizes db (snd (SetStakeLimit m s limit a reason db))"
    unfolding Store_CloseMarket_def Store_OpenMarket_def Store_CreateMarket_def SetMarketCloseTime_def SetStakeLimit_def createMarketTx_def
    by (intro rules keeps_rules; simp add: over_def)+
qed

section \<open>Settling\<close>

lemma record_result_states:
  assumes "record_resultTx marketID ty outcome version j result db = Inr (u, db')" "pg_uuid marketID = Some m"
  shows "on_board db' = on_board (set_market_state m (mk_State (sx_Market result)) db)"
proof -
  obtain db3 db4 db5 where
    outs: "(if ty = Graded then each (insert_outcome j marketID (sx_DeadHeatDivisor result)) (DAList.impl_of outcome) else ret ()) db = Inr ((), db3)"
    and pers: "each (persist_settlement j) (zip (sx_Settlements result) (sx_WagerEvents result)) db3 = Inr ((), db4)"
    and leg: "resolveParlayLegsTx marketID outcome (ty = Voided) parlayJuice (set_market_state m (mk_State (sx_Market result)) db4) = Inr ((), db5)"
    and pub: "publish (sx_MarketEvent result) db5 = Inr ((), db')"
    by (rule record_resultTx_Inr [OF assms(1)]) (use assms(2) that in auto)
  have un: "states.unseen (if ty = Graded then each (insert_outcome j marketID (sx_DeadHeatDivisor result)) (DAList.impl_of outcome) else ret ())"
    "states.unseen (each (persist_settlement j) (zip (sx_Settlements result) (sx_WagerEvents result)))"
    by (intro keeps_rules)+
  have "on_board db4 = on_board db" using keepsD [OF un(1) outs] keepsD [OF un(2) pers] by simp
  moreover have "on_board db' = on_board (set_market_state m (mk_State (sx_Market result)) db4)"
    using keepsD [OF states_resolve leg] keepsD [OF states.unseen_publish pub] by simp
  ultimately show ?thesis by (auto simp: on_board_set)
qed

lemma settle_domain_source:
  assumes "settle_domain ty market ss outcome ws xs i version actor reason t me regrade dh = Inr result" "over (mk_State market)"
  shows "ty = Graded \<and> mk_State market = MarketSettled'"
proof (cases ty)
  case Graded
  with assms(1) have "settle_source_error (mk_State market) regrade = None"
    by (auto simp: settle_domain_def Let_def elim!: SettleMarket_Inr)
  with assms(2) Graded show ?thesis by (auto simp: settle_source_error_def over_def)
next
  case Voided
  with assms show ?thesis by (auto simp: settle_domain_def Let_def VoidMarket_def over_def split: option.splits)
qed

lemma settle_wagers_states:
  assumes "settle_wagersTx marketID ty outcome actor reason regrade dh t market version i j db = Inr (u, db')" "pg_uuid marketID = Some m"
  shows "on_board db' = on_board (set_market_state m (if ty = Graded then MarketSettled' else MarketVoided) db)"
    "over (mk_State market) \<Longrightarrow> ty = Graded \<and> mk_State market = MarketSettled'"
proof -
  obtain ss ws xs db1 me db2 result where steps: "prepare_wagers ws db = Inr (xs, db1)" "random_uuid db1 = Inr (me, db2)"
    and dom: "settle_domain ty market ss outcome ws xs i version actor reason t me regrade dh = Inr result"
    and rec: "record_resultTx marketID ty outcome version j result db2 = Inr (u, db')"
    by (rule settle_wagersTx_Inr [OF assms(1)]) (rule that; assumption)
  have same: "on_board db2 = on_board db" using keepsD [OF states_statements(5) steps(1)] keepsD [OF states.unseen_random steps(2)] by simp
  obtain rs where "mk_State (sx_Market result) = (if ty = Graded then MarketSettled' else MarketVoided)" by (rule settle_domain_Inr [OF dom])
  with record_result_states [OF rec assms(2)] same
  show "on_board db' = on_board (set_market_state m (if ty = Graded then MarketSettled' else MarketVoided) db)" by (auto simp: on_board_set)
  show "over (mk_State market) \<Longrightarrow> ty = Graded \<and> mk_State market = MarketSettled'" by (rule settle_domain_source [OF dom])
qed

definition settle_source :: "string \<Rightarrow> settlement_type \<Rightarrow> go_time \<Rightarrow> market cmd" where
  \<comment> \<open>the head of \<open>settleWith\<close>: the market, an open one closed before it is graded\<close>
  "settle_source marketID ty t = andThen (loadMarket marketID) (\<lambda>market0.
     if ty = Graded \<and> mk_State market0 = MarketOpen
     then andThen (closeOpenMarketTx marketID t) (\<lambda>_. ret (market0\<lparr>mk_State := MarketClosed\<rparr>)) else ret market0)"

lemma settle_source_Inr:
  assumes "settle_source marketID ty t db = Inr (market, db1)"
  obtains m ty0 where "pg_uuid marketID = Some m" "on_board db1 m = Some (ty0, mk_State market)" "finalizes db db1"
    "over (mk_State market) \<Longrightarrow> on_board db1 = on_board db"
proof -
  from assms obtain m r where m: "pg_uuid marketID = Some m" "market_at m db = Some r"
    and run: "if ty = Graded \<and> mk_State (mr_Market r) = MarketOpen
      then closeOpenMarketTx marketID t db = Inr ((), db1) \<and> market = (scanMarket marketID r)\<lparr>mk_State := MarketClosed\<rparr>
      else db1 = db \<and> market = scanMarket marketID r"
    by (auto simp: settle_source_def cmd_simps loadMarket_Inr scanMarket_def split: if_split_asm)
  show thesis
  proof (cases "ty = Graded \<and> mk_State (mr_Market r) = MarketOpen")
    case True
    with run have close: "closeOpenMarketTx marketID t db = Inr ((), db1)" and market: "mk_State market = MarketClosed" by simp_all
    from close m obtain db0 where db0: "db0 = set_market_state m MarketClosed db" and ev: "on_board db1 = on_board db0"
      by (auto simp: closeOpenMarketTx_def cmd_simps move_market_Inr dest: keepsD [OF states.unseen_market_event])
    have "on_board db m = Some (mk_Type (mr_Market r), mk_State (mr_Market r))" by (simp add: on_board_def m(2))
    with ev market have "on_board db1 m = Some (mk_Type (mr_Market r), mk_State market)" by (simp add: db0 on_board_set)
    moreover have "finalizes db db1" by (rule keepsD [OF close_final(1) close])
    ultimately show thesis using m(1) market by (intro that) (auto simp: over_def)
  next
    case False
    with run m have "db1 = db" "on_board db1 m = Some (mk_Type (mr_Market r), mk_State market)" by (auto simp: on_board_def scanMarket_def)
    with m(1) show thesis by (intro that [of m "mk_Type (mr_Market r)"]) (auto simp: final.R_refl)
  qed
qed

lemma settleWithTx_source:
  assumes "settleWithTx marketID ty outcome actor reason verified regrade dh t db = Inr (u, db')"
  obtains market db1 db2 where "settle_source marketID ty t db = Inr (market, db1)" "validateSettleableState (mk_State market) ty regrade = None"
    "on_board db2 = on_board db1" "on_board db' = on_board db2
        \<or> (\<exists>version i j. settle_wagersTx marketID ty outcome actor reason regrade dh t market version i j db2 = Inr (u, db'))"
proof -
  from assms obtain market0 db0 market db1 db2 version db3 i db4 supersedes db5 j existed db6 where
    load: "loadMarket marketID db = Inr (market0, db0)"
      "(if ty = Graded \<and> mk_State market0 = MarketOpen then andThen (closeOpenMarketTx marketID t) (\<lambda>_. ret (market0\<lparr>mk_State := MarketClosed\<rparr>))
        else ret market0) db0 = Inr (market, db1)"
    and valid: "(case validateSettleableState (mk_State market) ty regrade of Some e \<Rightarrow> throw e | None \<Rightarrow> ret ()) db1 = Inr ((), db2)"
    and steps: "nextSettlementVersion marketID db2 = Inr (version, db3)" "random_uuid db3 = Inr (i, db4)"
      "(if sint version > 1 then previousSettlementID marketID version else ret []) db4 = Inr (supersedes, db5)"
      "insertMarketSettlement marketID i version ty verified actor reason supersedes db5 = Inr ((j, existed), db6)"
    and rest: "(if existed
    then andThen (if ty = Graded then verifyOutcomeMatches j outcome else ret ()) (\<lambda>_.
      query (\<lambda>db. Inr (settle_report_of marketID j version
        (map wt_Settlement (filter (\<lambda>r. ws_MarketSettlementID (wt_Settlement r) = j) (db_WagerSettlements db))))))
    else settle_wagersTx marketID ty outcome actor reason regrade dh t market version i j) db6 = Inr (u, db')"
    unfolding settleWithTx_def andThen_Inr by clarsimp
  have "settle_source marketID ty t db = Inr (market, db1)" using load by (simp add: settle_source_def andThen_Inr)
  moreover have "validateSettleableState (mk_State market) ty regrade = None" "db2 = db1"
    using valid by (auto simp: cmd_simps split: option.split_asm)
  moreover have un: "states.unseen (if sint version > 1 then previousSettlementID marketID version else ret [])"
    by (intro keeps_rules states.loads)
  have "on_board db6 = on_board db2"
    using keepsD [OF states.loads(23) steps(1)] keepsD [OF states.unseen_random steps(2)] keepsD [OF un steps(3)]
      keepsD [OF states.unseen_insert_settlement steps(4)] by simp
  moreover have "on_board db' = on_board db6 \<or> settle_wagersTx marketID ty outcome actor reason regrade dh t market version i j db6 = Inr (u, db')"
    using rest by (auto simp: cmd_simps dest: keepsD [OF states.loads(25)] split: if_split_asm)
  ultimately show thesis by (intro that [of market db1 db6]) auto
qed

lemma settleWith_final:
  assumes "settleWithTx marketID ty outcome actor reason verified regrade dh t db = Inr (u, db')"
  shows "finalizes db db'"
proof -
  obtain market db1 db2 where src: "settle_source marketID ty t db = Inr (market, db1)" and same: "on_board db2 = on_board db1"
    and rest: "on_board db' = on_board db2
        \<or> (\<exists>version i j. settle_wagersTx marketID ty outcome actor reason regrade dh t market version i j db2 = Inr (u, db'))"
    by (rule settleWithTx_source [OF assms])
  obtain m ty0 where m: "pg_uuid marketID = Some m" "on_board db1 m = Some (ty0, mk_State market)" "finalizes db db1"
    by (rule settle_source_Inr [OF src])
  from rest have "finalizes db1 db'"
  proof (elim disjE exE)
    fix version i j
    assume "settle_wagersTx marketID ty outcome actor reason regrade dh t market version i j db2 = Inr (u, db')"
    note S = settle_wagers_states [OF this m(1)]
    show ?thesis unfolding finalizes_def S(1) on_board_set using m(2) S(2) by (auto simp: same)
  qed (simp add: states_final same)
  with m(3) final.R_trans show ?thesis by blast
qed

lemma settlements_final:
  "finalizes db (snd (Store_SettleMarket req t db))" "finalizes db (snd (Store_VoidMarket m a reason t db))"
  "finalizes db (snd (RegradeStrandedWagers m a reason t db))" "finalizes db (snd (SettleMatchMarkets matchID o' winner verified actor t db))"
proof -
  have run: "finalizes db (snd (run_tx (settleWithTx marketID ty outcome actor reason verified regrade dh t) db))" for db marketID ty outcome actor reason verified regrade dh t
    by (intro final.run_tx_keeps keepsI settleWith_final)
  show settle: "finalizes db (snd (Store_SettleMarket req t db))" for db req
    unfolding Store_SettleMarket_def by (rule run)
  show "finalizes db (snd (Store_VoidMarket m a reason t db))" unfolding Store_VoidMarket_def by (rule run)
  show "finalizes db (snd (RegradeStrandedWagers m a reason t db))"
    unfolding RegradeStrandedWagers_def Let_def by (auto intro: final.R_refl run split: option.split)
  show "finalizes db (snd (SettleMatchMarkets matchID o' winner verified actor t db))"
    by (rule final.match_markets_steps) (rule market_operations_final, rule settle)
qed

text \<open>A market that is over is not settled or voided again.\<close>

lemma settle_over:
  assumes "pg_uuid marketID = Some m" "on_board db m = Some (ty0, s)" "over s" "\<not> regrade"
  shows "run_tx (settleWithTx marketID ty outcome actor reason verified regrade dh t) db = (Inl ErrMarketNotSettleable, db)"
proof -
  from assms(2) obtain r where r: "market_at m db = Some r" "mk_State (mr_Market r) = s" by (auto simp: on_board_def)
  have load: "loadMarket marketID db = Inr (scanMarket marketID r, db)" using r(1) assms(1) by (auto simp: loadMarket_Inr)
  have st: "mk_State (scanMarket marketID r) = s" using r(2) by (simp add: scanMarket_def)
  have "validateSettleableState s ty regrade = Some ErrMarketNotSettleable" "s \<noteq> MarketOpen"
    using assms(3,4) by (cases ty; auto simp: validateSettleableState_def over_def)+
  then show ?thesis
    by (simp add: run_tx_def settleWithTx_def andThen_def [of "loadMarket marketID"] load st) (simp add: andThen_def ret_def throw_def st)
qed

end
