(* ===== verification/Book_Reachable.thy ===== *)
theory Book_Reachable
  imports Book_Final
begin

text \<open>
  The book as a transition system. A step is one operation of \<open>internal/bettingpg\<close>, whatever it returns, or a change
  made outside it: members, matches and the outbox have other writers. \<open>book_start\<close> is a book without bets: accounts
  and transactions may have been imported, as long as nothing was posted on an escrow account, and markets may exist.
\<close>

section \<open>Steps\<close>

definition book_start :: "book_db \<Rightarrow> bool" where
  "book_start db \<longleftrightarrow> db_Wagers db = [] \<and> db_Parlays db = [] \<and> db_MarketSettlements db = [] \<and> accounts_ok db
     \<and> (\<forall>r \<in> set (db_Transactions db). \<forall>p \<in> set (t_Postings (lt_Transaction r)). p_AccountID p \<in> other_ids db)"

inductive book_step :: "book_db \<Rightarrow> book_db \<Rightarrow> bool" where
  outside: "book_step db (db\<lparr>db_Users := users, db_Matches := ms, db_Outbox := outbox, db_Random := random, db_Draws := draws\<rparr>)"
| create: "book_step db (snd (Store_CreateMarket req t db))"
| open_market: "book_step db (snd (Store_OpenMarket m actor t db))"
| close_market: "book_step db (snd (Store_CloseMarket m t db))"
| no_action: "book_step db (snd (CloseMarketWithoutAction m actor reason db))"
| close_time: "book_step db (snd (SetMarketCloseTime m closes actor reason t db))"
| stake_limit: "book_step db (snd (SetStakeLimit m s limit actor reason db))"
| side_cap: "book_step db (snd (SetTotalSideCap m s limit actor reason db))"
| opening_line: "book_step db (snd (SetOpeningLine exp64 m s odds actor reason db))"
| reprice: "book_step db (snd (RepriceMarketAfterWager exp64 m w db))"
| restrict: "book_step db (snd (RestrictMember m u s reason actor db))"
| lift: "book_step db (snd (LiftRestriction m u s db))"
| place: "book_step db (snd (Store_PlaceWager configured bet t db))"
| accept: "book_step db (snd (Store_AcceptWager w actor t db))"
| reject: "book_step db (snd (Store_RejectWager w actor reason db))"
| cancel: "book_step db (snd (Store_CancelWager w actor db))"
| void: "book_step db (snd (Store_VoidWager exp64 w actor reason t db))"
| reduce: "book_step db (snd (Store_ReduceWager exp64 w stake actor reason t db))"
| settle_up: "book_step db (snd (RecordSettlement payment t db))"
| reverse_payment: "book_step db (snd (ReverseSettlement i actor reason db))"
| place_parlay: "book_step db (snd (Store_PlaceParlay configured legs t db))"
| accept_parlay: "book_step db (snd (Store_AcceptParlay p actor db))"
| reject_parlay: "book_step db (snd (Store_RejectParlay p actor reason db))"
| cancel_parlay: "book_step db (snd (Store_CancelParlay p actor db))"
| settle: "book_step db (snd (Store_SettleMarket grading t db))"
| void_market: "book_step db (snd (Store_VoidMarket m actor reason t db))"
| regrade: "book_step db (snd (RegradeStrandedWagers m actor reason t db))"
| settle_match: "book_step db (snd (SettleMatchMarkets matchID o' winner verified actor t db))"

inductive book_reachable :: "book_db \<Rightarrow> bool" where
  start: "book_start db \<Longrightarrow> book_reachable db"
| step: "book_reachable db \<Longrightarrow> book_step db db' \<Longrightarrow> book_reachable db'"

section \<open>The book stays balanced\<close>

lemma outside_same:
  "money_view (db\<lparr>db_Users := users, db_Matches := ms, db_Outbox := outbox, db_Random := random, db_Draws := draws\<rparr>) = money_view db"
  "board_view (db\<lparr>db_Users := users, db_Matches := ms, db_Outbox := outbox, db_Random := random, db_Draws := draws\<rparr>) = board_view db"
  by (simp_all add: money_view_def board_view_def)

lemma step_balanced: "book_step db db' \<Longrightarrow> balanced db db'"
  by (induction rule: book_step.induct)
    (rule wager_operations_balanced parlay_operations_balanced settling_up_balanced market_operations_balanced match_markets_balanced
      | rule unseen_balanced, rule money_market_operations money.unseen_lines money.unseen_restrictions outside_same)+

lemma start_balanced:
  assumes "book_start db"
  shows "money_ok db" "escrow_total db c = 0" "stakes_held db c = 0"
proof -
  have acc: "accounts_ok db" and posted: "\<forall>r \<in> set (db_Transactions db). \<forall>p \<in> set (t_Postings (lt_Transaction r)). p_AccountID p \<in> other_ids db"
    using assms by (simp_all add: book_start_def)
  show "money_ok db"
    using assms ids_apart(6) [OF acc] by (auto simp: book_start_def money_ok_def ledger_ok_def wagers_ok_def parlays_ok_def)
  have "filter (\<lambda>p. p_AccountID p \<in> escrow_ids db c) (t_Postings (lt_Transaction r)) = []" if "r \<in> set (db_Transactions db)" for r
    using posted that ids_apart(1) [OF acc] by (fastforce simp: filter_empty_conv)
  then show "escrow_total db c = 0" unfolding escrow_total_def by (simp add: sum_list_0 cong: map_cong)
  show "stakes_held db c = 0" using assms by (simp add: stakes_held_def book_start_def)
qed

lemma reachable_money: "book_reachable db \<Longrightarrow> money_ok db \<and> (\<forall>c. escrow_total db c = stakes_held db c)"
proof (induction rule: book_reachable.induct)
  case (start db)
  then show ?case by (simp add: start_balanced)
next
  case (step db db')
  with step_balanced [OF step.hyps(2)] show ?case by (simp add: balanced_def)
qed

section \<open>The board stays orderly, and what is over stays over\<close>

lemma step_orderly: "book_step db db' \<Longrightarrow> orderly db db'"
  by (induction rule: book_step.induct)
    (rule market_operations_orderly no_action_orderly wager_operations_orderly parlay_operations_orderly settlements_orderly
      | rule same_orderly, rule board.unseen_lines board.unseen_restrictions board_settling_up outside_same)+

lemma reachable_board: "book_reachable db \<Longrightarrow> board_ok db"
proof (induction rule: book_reachable.induct)
  case (start db)
  then show ?case by (simp add: book_start_def board_ok_def board_waits_def keys_ok_def)
next
  case (step db db')
  with step_orderly [OF step.hyps(2)] show ?case by (simp add: orderly_def)
qed

lemma step_final: "book_step db db' \<Longrightarrow> finalizes db db'"
  by (induction rule: book_step.induct)
    (rule market_operations_final no_action_final settlements_final
      | rule states_final, rule states_wagers states_parlays states_settling_up states.unseen_lines states.unseen_restrictions
      | rule states_final, simp)+

section \<open>What a member and an admin can rely on\<close>

text \<open>C1 escrow_backed: in every currency the escrow accounts hold exactly the stakes of the accepted wagers and parlays,
  after any sequence of operations, in any order, whether each succeeds or fails.\<close>

theorem escrow_backed: "book_reachable db \<Longrightarrow> escrow_total db c = stakes_held db c"
  using reachable_money by blast



text \<open>In a database only the book's own operations have written to, the repair \<open>RegradeStrandedWagers\<close>
  has nothing to do: a well-formed request is refused with \<open>ErrNothingToRegrade\<close> and changes nothing.\<close>

lemma nothing_to_regrade:
  assumes "book_reachable db" "isUUID marketID" "isUUID actor" "\<not> blank reason"
  shows "RegradeStrandedWagers marketID actor reason t db = (Inl ErrNothingToRegrade, db)"
proof -
  obtain m where m: "pg_uuid marketID = Some m" using assms(2) by (auto simp: isUUID_def)
  have "wager_waits db (wr_Wager r)" if "r \<in> set (db_Wagers db)" for r
    using reachable_board [OF assms(1)] that by (simp add: board_ok_def board_waits_def)
  then have "strandedWagers m db = []"
    by (fastforce simp: strandedWagers_def wager_waits_def on_board_def over_def filter_empty_conv split: option.split)
  with m assms(2-4) show ?thesis by (simp add: RegradeStrandedWagers_def blank_def)
qed

text \<open>C5 decided_market_final: a market that is settled, voided, cancelled or closed without action keeps that state through
  every step, and grading or voiding it again is refused with \<open>ErrMarketNotSettleable\<close> and changes nothing.\<close>

theorem decided_market_final:
  assumes "market_at m db = Some r" "mk_State (mr_Market r) \<in> {MarketSettled', MarketVoided, MarketCancelled, MarketNoAction}"
    and "pg_uuid (rm_MarketID req) = Some m"
  shows "Store_SettleMarket req t db = (Inl ErrMarketNotSettleable, db)
    \<and> Store_VoidMarket (rm_MarketID req) actor reason t db = (Inl ErrMarketNotSettleable, db)
    \<and> (\<forall>db'. book_step db db' \<longrightarrow> (\<exists>r'. market_at m db' = Some r' \<and> mk_State (mr_Market r') = mk_State (mr_Market r)))"
proof -
  have on: "on_board db m = Some (mk_Type (mr_Market r), mk_State (mr_Market r))" and over: "over (mk_State (mr_Market r))"
    using assms(1,2) by (simp_all add: on_board_def over_def)
  have "\<exists>r'. market_at m db' = Some r' \<and> mk_State (mr_Market r') = mk_State (mr_Market r)" if "book_step db db'" for db'
    using step_final [OF that] on over by (fastforce simp: finalizes_def on_board_def)
  then show ?thesis using settle_over [OF assms(3) on over, where regrade = False] by (simp add: Store_SettleMarket_def Store_VoidMarket_def)
qed

end
