(* ===== verification/Evaluation.thy ===== *)
theory Evaluation
  imports Pg_Tx
begin

text \<open>
  Code equations with which the kernel evaluates the examples quickly: identifiers character by character, and the
  publication of a marshalled struct without parsing the text again.
\<close>

section \<open>Evaluating identifiers\<close>

text \<open>Code equations that test a character by its bits, so that the kernel evaluates casts to \<open>uuid\<close> quickly.\<close>

lemma is_hex_code [code]: "is_hex c = List.member ''0123456789abcdefABCDEF'' c"
proof -
  have "\<forall>c. is_hex c = List.member ''0123456789abcdefABCDEF'' c" by code_simp
  then show ?thesis by blast
qed

lemma is_upper_code [code]: "is_upper c = List.member ''ABCDEFGHIJKLMNOPQRSTUVWXYZ'' c"
proof -
  have "\<forall>c. is_upper c = List.member ''ABCDEFGHIJKLMNOPQRSTUVWXYZ'' c" by code_simp
  then show ?thesis by blast
qed

definition uuid_dashes :: "bool list" where
  "uuid_dashes = replicate 8 False @ True # replicate 4 False @ True # replicate 4 False @ True # replicate 4 False @ True # replicate 12 False"

lemma pg_uuid_code [code]:
  "pg_uuid s = (if list_all2 (\<lambda>dash c. if dash then c = CHR ''-'' else is_hex c) uuid_dashes s then Some (map hex_lower s) else None)"
proof -
  have len: "length uuid_dashes = 36" and dash: "\<forall>i < 36. uuid_dashes ! i = (i \<in> {8, 13, 18, 23})" by code_simp+
  have "list_all2 (\<lambda>dash c. if dash then c = CHR ''-'' else is_hex c) uuid_dashes s
      \<longleftrightarrow> length s = 36 \<and> (\<forall>i < 36. if i \<in> {8, 13, 18, 23} then s ! i = CHR ''-'' else is_hex (s ! i))"
    unfolding list_all2_conv_all_nth len using dash by auto
  then show ?thesis by (simp only: pg_uuid_def)
qed

section \<open>Publications\<close>

definition Publish_stored :: "envelope \<Rightarrow> go_int \<Rightarrow> 'w outbox \<Rightarrow> 'w outbox \<times> publish_error option" where
  \<comment> \<open>\<open>Publish\<close> of a valid envelope\<close>
  "Publish_stored e maxAttempts ob =
    (if sint maxAttempts < 1 \<or> sint maxAttempts > 100 then (ob, Some MaxAttempts)
     else case faulty ob of Some err \<Rightarrow> (called ob, Some (Database err))
     | None \<Rightarrow> (case (pg_uuid (e_ID e), pg_uuid (e_AggregateID e)) of
         (Some i, Some agg) \<Rightarrow>
           if list_ex (outbox_conflict e agg) (ob_rows ob) then (called ob, None)
           else if list_ex (\<lambda>r. r_ID r = i) (ob_rows ob) then (called ob, Some (Database ''duplicate key''))
           else if instant (e_OccurredAt e) > instant (ob_now ob) + 300000000000
             then (called ob, Some (Database ''check constraint''))
           else ((called ob)\<lparr>ob_rows := ob_rows ob @ [new_row e i agg maxAttempts (ob_now ob)]\<rparr>, None)
       | _ \<Rightarrow> (called ob, Some (Database ''invalid uuid''))))"

definition marshalled_ok :: "(string \<times> json_field) list \<Rightarrow> envelope \<Rightarrow> bool" where
  "marshalled_ok kvs e \<longleftrightarrow> list_all (\<lambda>kv. plain_key (fst kv)) kvs \<and> List.member event_types (e_Type e)
     \<and> e_CorrelationID e = [] \<and> e_CausationID e = [] \<and> \<not> blank (e_AggregateType e) \<and> length (e_AggregateType e) \<le> 80
     \<and> validUUID (e_ID e) \<and> validUUID (e_AggregateID e) \<and> 0 < sint (e_AggregateVersion e)
     \<and> \<not> IsZero (e_OccurredAt e) \<and> in_utc (e_OccurredAt e)"

lemma Publish_marshalled:
  assumes "e_Payload e = json_Marshal kvs"
  shows "Publish e n ob = (if marshalled_ok kvs e then Publish_stored e n ob else Publish e n ob)"
proof (cases "marshalled_ok kvs e")
  case True
  then have "Envelope_Validate e = None"
    by (subst Envelope_Validate_Marshal [OF assms])
      (auto simp: marshalled_ok_def list_all_iff List.member_iff)
  then show ?thesis using True by (simp add: Publish_def Publish_stored_def)
qed simp

end
