(* ===== verification/Book_Examples.thy ===== *)
theory Book_Examples
  imports Book_Guarantees Betting_Examples Evaluation
begin

text \<open>
  A concrete run of the book, evaluated by the kernel: a member places a bet, an admin accepts it, another member's
  parlay is placed and accepted. The properties of reachable databases are applied to the databases of this run.
\<close>

section \<open>The run\<close>

definition ex_event :: "string \<Rightarrow> market_type \<Rightarrow> market_state \<Rightarrow> market_row" where
  "ex_event d ty s = \<lparr>mr_Market = \<lparr>mk_ID = uuid d, mk_Type = ty, mk_MatchID = (if ty = MarketMatch then uuid d else []), mk_Title = ''Singles'',
     mk_State = s, mk_Currency = ''CAD'', mk_OpensAt = Time 10 True, mk_ClosesAt = Time 100 True\<rparr>,
     mr_DynamicPricing = False, mr_LiquidityCents = 0, mr_MaxStakeCents = None\<rparr>"

definition ex_side :: "string \<Rightarrow> string \<Rightarrow> selection_row" where
  "ex_side d m = \<lparr>sl_Selection = \<lparr>s_ID = uuid d, s_MarketID = uuid m, s_Key = ''home'', s_DisplayTerms = ''Home'',
     s_OfferedAmericanOdds = 150, s_SemanticResultKey = ''side:x'', s_Active = True\<rparr>, sl_OpeningOdds = 150,
     sl_MaxStakeCents = None, sl_TotalStakeCapCents = Some 5000\<rparr>"

definition ex_club :: book_db where
  "ex_club = \<lparr>db_Users = [\<lparr>us_ID = uuid ''5'', us_CreditLimitCents = 2000\<rparr>, \<lparr>us_ID = uuid ''6'', us_CreditLimitCents = 0\<rparr>],
     db_Accounts = [], db_Transactions = [], db_Markets = [ex_event ''1'' MarketMatch MarketOpen, ex_event ''2'' MarketMatch MarketOpen],
     db_Selections = [ex_side ''3'' ''1'', ex_side ''7'' ''2''], db_Matches = [], db_Restrictions = [], db_Wagers = [],
     db_MarketSettlements = [], db_Outcomes = [], db_WagerSettlements = [], db_PriceChanges = [], db_Parlays = [],
     db_ParlaySettlements = [], db_Audit = [],
     db_Outbox = \<lparr>ob_rows = [], ob_receipts = [], ob_now = Time 50 True, ob_faults = [], ob_world = ()\<rparr>,
     db_Random = (\<lambda>n k. of_nat (16 * n + k)), db_Draws = 0\<rparr>"

definition ex_bet :: place_wager_request where
  "ex_bet = \<lparr>rq_WagerID = uuid ''4'', rq_UserID = uuid ''5'', rq_MarketID = uuid ''1'', rq_SelectionID = uuid ''3'',
     rq_FundingAccountType = FundingUserCash, rq_StakeCents = 1001, rq_Currency = ''CAD'', rq_IdempotencyKey = ''k'',
     rq_PlacedByUserID = uuid ''5''\<rparr>"

definition ex_bet_placed :: book_db where
  "ex_bet_placed = snd (Store_PlaceWager 0 ex_bet (Time 50 True) ex_club)"

definition ex_bet_taken :: book_db where
  "ex_bet_taken = snd (Store_AcceptWager (uuid ''4'') (uuid ''6'') (Time 60 True) ex_bet_placed)"

definition ex_combo :: place_parlay_request where
  "ex_combo = \<lparr>rp_ParlayID = uuid ''8'', rp_UserID = uuid ''5'', rp_Legs = [(uuid ''1'', uuid ''3''), (uuid ''2'', uuid ''7'')],
     rp_FundingAccountType = FundingUserCash, rp_StakeCents = 500, rp_Currency = ''CAD'', rp_IdempotencyKey = ''p'',
     rp_PlacedByUserID = []\<rparr>"

definition ex_combo_placed :: book_db where
  "ex_combo_placed = snd (Store_PlaceParlay 0 ex_combo (Time 50 True) ex_club)"

definition ex_combo_taken :: book_db where
  "ex_combo_taken = snd (Store_AcceptParlay (uuid ''8'') (uuid ''6'') ex_combo_placed)"

lemma ex_reached: "book_reachable ex_club" "book_reachable ex_bet_placed" "book_reachable ex_bet_taken"
  "book_reachable ex_combo_placed" "book_reachable ex_combo_taken"
proof -
  show c: "book_reachable ex_club"
    by (rule book_reachable.start) (simp add: book_start_def ex_club_def accounts_ok_def)
  show p: "book_reachable ex_bet_placed" unfolding ex_bet_placed_def by (rule book_reachable.step [OF c book_step.place])
  show "book_reachable ex_bet_taken" unfolding ex_bet_taken_def by (rule book_reachable.step [OF p book_step.accept])
  show q: "book_reachable ex_combo_placed" unfolding ex_combo_placed_def by (rule book_reachable.step [OF c book_step.place_parlay])
  show "book_reachable ex_combo_taken" unfolding ex_combo_taken_def by (rule book_reachable.step [OF q book_step.accept_parlay])
qed

section \<open>The bet\<close>

definition ex_bet_ok :: bool where
  "ex_bet_ok = (case Store_PlaceWager 0 ex_bet (Time 50 True) ex_club of (Inl _, _) \<Rightarrow> False
     | (Inr _, p) \<Rightarrow> (case wager_at (uuid ''4'') p of None \<Rightarrow> False
         | Some r \<Rightarrow> w_State (wr_Wager r) = WagerPending \<and> w_UserID (wr_Wager r) = uuid ''5'')
       \<and> List.find (\<lambda>v. us_ID v = uuid ''5'') (db_Users p) = Some \<lparr>us_ID = uuid ''5'', us_CreditLimitCents = 2000\<rparr>
       \<and> (case Store_AcceptWager (uuid ''4'') (uuid ''6'') (Time 60 True) p of (Inl _, _) \<Rightarrow> False
         | (Inr _, d) \<Rightarrow> stakes_held d ''CAD'' = 1001 \<and> (case db_Wagers d of [] \<Rightarrow> False
             | r # _ \<Rightarrow> w_State (wr_Wager r) = WagerAccepted' \<and> market_at (w_MarketID (wr_Wager r)) d \<noteq> None)
           \<and> (case Store_VoidWager (\<lambda>x. x) (uuid ''4'') (uuid ''6'') ''typo'' (Time 70 True) d of (Inl _, _) \<Rightarrow> False | (Inr _, _) \<Rightarrow> True)))"

lemma ex_bet_runs: ex_bet_ok
  by code_simp

lemma ex_bet_facts:
  obtains w1 w2 w3 r d3 where "Store_PlaceWager 0 ex_bet (Time 50 True) ex_club = (Inr w1, ex_bet_placed)"
    "wager_at (uuid ''4'') ex_bet_placed = Some r" "w_State (wr_Wager r) = WagerPending" "w_UserID (wr_Wager r) = uuid ''5''"
    "List.find (\<lambda>v. us_ID v = uuid ''5'') (db_Users ex_bet_placed) = Some \<lparr>us_ID = uuid ''5'', us_CreditLimitCents = 2000\<rparr>"
    "Store_AcceptWager (uuid ''4'') (uuid ''6'') (Time 60 True) ex_bet_placed = (Inr w2, ex_bet_taken)"
    "stakes_held ex_bet_taken ''CAD'' = 1001"
    "db_Wagers ex_bet_taken \<noteq> []" "w_State (wr_Wager (hd (db_Wagers ex_bet_taken))) = WagerAccepted'"
    "market_at (w_MarketID (wr_Wager (hd (db_Wagers ex_bet_taken)))) ex_bet_taken \<noteq> None"
    "Store_VoidWager (\<lambda>x. x) (uuid ''4'') (uuid ''6'') ''typo'' (Time 70 True) ex_bet_taken = (Inr w3, d3)"
proof -
  obtain w1 where 1: "Store_PlaceWager 0 ex_bet (Time 50 True) ex_club = (Inr w1, ex_bet_placed)"
    using ex_bet_runs unfolding ex_bet_ok_def ex_bet_placed_def by (auto split: prod.splits sum.splits)
  obtain w2 where 2: "Store_AcceptWager (uuid ''4'') (uuid ''6'') (Time 60 True) ex_bet_placed = (Inr w2, ex_bet_taken)"
    using ex_bet_runs unfolding ex_bet_ok_def 1 ex_bet_taken_def by (auto split: prod.splits sum.splits)
  from ex_bet_runs show thesis
    unfolding ex_bet_ok_def 1 2 by (auto simp: 2 split: option.split_asm prod.split_asm sum.split_asm list.split_asm intro: that [OF 1 _ _ _ _ 2])
qed

lemma ex_uuid: "pg_uuid (uuid ''1'') = Some (uuid ''1'')" "pg_uuid (uuid ''3'') = Some (uuid ''3'')"
  "pg_uuid (uuid ''4'') = Some (uuid ''4'')" "pg_uuid (uuid ''5'') = Some (uuid ''5'')" "pg_uuid (uuid ''6'') = Some (uuid ''6'')"
  by code_simp+

lemma escrow_backed_witness: "escrow_total ex_bet_taken ''CAD'' = stakes_held ex_bet_taken ''CAD'' \<and> stakes_held ex_bet_taken ''CAD'' = 1001"
proof (rule ex_bet_facts)
  assume "stakes_held ex_bet_taken ''CAD'' = 1001"
  with escrow_backed [OF ex_reached(3), of "''CAD''"] show ?thesis by simp
qed


lemma nothing_to_regrade_witness:
  "RegradeStrandedWagers (uuid ''1'') (uuid ''6'') ''late'' (Time 80 True) ex_bet_taken = (Inl ErrNothingToRegrade, ex_bet_taken)"
proof (rule nothing_to_regrade [OF ex_reached(3)])
  show "isUUID (uuid ''1'')" "isUUID (uuid ''6'')" by (simp_all add: isUUID_def ex_uuid)
  show "\<not> blank ''late''" by code_simp
qed

lemma accept_within_credit_witness:
  "\<exists>a \<in> set (db_Accounts ex_bet_taken). la_Owner a = uuid ''5'' \<and> - 2000 \<le> account_total ex_bet_taken (la_ID a)"
proof (rule ex_bet_facts)
  fix w2 r
  assume r: "wager_at (uuid ''4'') ex_bet_placed = Some r" "w_State (wr_Wager r) = WagerPending" "w_UserID (wr_Wager r) = uuid ''5''"
    and u: "List.find (\<lambda>v. us_ID v = uuid ''5'') (db_Users ex_bet_placed) = Some \<lparr>us_ID = uuid ''5'', us_CreditLimitCents = 2000\<rparr>"
    and run: "Store_AcceptWager (uuid ''4'') (uuid ''6'') (Time 60 True) ex_bet_placed = (Inr w2, ex_bet_taken)"
  from accept_within_credit [OF ex_reached(2) run ex_uuid(3) r(1,2) _ u] r(3) ex_uuid(4) show ?thesis by auto
qed

lemma void_refunds_once_witness:
  "\<exists>w d. (\<exists>v. Store_VoidWager (\<lambda>x. x) (uuid ''4'') (uuid ''6'') ''typo'' (Time 70 True) ex_bet_taken = (Inr v, d))
    \<and> Store_VoidWager (\<lambda>x. x) (uuid ''4'') (uuid ''5'') ''again'' (Time 71 True) d = (Inr w, d) \<and> w_State w = WagerVoided"
proof (rule ex_bet_facts)
  fix w3 d3
  assume run: "Store_VoidWager (\<lambda>x. x) (uuid ''4'') (uuid ''6'') ''typo'' (Time 70 True) ex_bet_taken = (Inr w3, d3)"
  have "isUUID (uuid ''5'')" by (simp add: isUUID_def ex_uuid)
  from void_refunds_once [OF run this, of "''again''" "Time 71 True"] run show ?thesis by blast
qed


lemma decided_market_final_witness:
  "Store_VoidMarket (uuid ''1'') (uuid ''6'') ''again'' (Time 70 True) (ex_club\<lparr>db_Markets := [ex_event ''1'' MarketMatch MarketVoided]\<rparr>)
    = (Inl ErrMarketNotSettleable, ex_club\<lparr>db_Markets := [ex_event ''1'' MarketMatch MarketVoided]\<rparr>)"
  using decided_market_final [of "uuid ''1''" "ex_club\<lparr>db_Markets := [ex_event ''1'' MarketMatch MarketVoided]\<rparr>" "ex_event ''1'' MarketMatch MarketVoided"
      "\<lparr>rm_MarketID = uuid ''1'', rm_Outcome = DAList.empty, rm_ActorUserID = [], rm_Reason = [], rm_VerifiedResultID = [], rm_DeadHeat = False\<rparr>"]
  by (simp add: market_at_def ex_event_def ex_uuid)

section \<open>The parlay\<close>




lemma match_outcome_grading_witness:
  "DAList.lookup (the (buildMatchOutcome (map_of_list [(uuid ''3'', ''side:a''), (uuid ''7'', ''side:b'')]) ''side_win'' ''a'')) (uuid ''7'') = Some ResultLoss"
proof -
  let ?m = "map_of_list [(uuid ''3'', ''side:a''), (uuid ''7'', ''side:b'')]"
  have "map_size ?m \<noteq> 0 \<and> \<not> list_ex unrecognized_key (map_values ?m) \<and> DAList.lookup ?m (uuid ''7'') = Some ''side:b''" by code_simp
  moreover from this obtain outcomes where "buildMatchOutcome ?m ''side_win'' ''a'' = Some outcomes"
    using match_outcome_grading [of ?m "''side_win''" "''a''"] by auto
  ultimately show ?thesis using match_outcome_grading [of ?m "''side_win''" "''a''" outcomes "uuid ''7''"] by simp
qed

end
