(* ===== verification/Members.thy ===== *)
theory Members
  imports Pg_Tx Sessions
begin

text \<open>
  \<open>internal/identitypg/store.go\<close>: the tables of users, memberships, invitations, linked identities and sessions, the
  statements on them, and the store that \<open>identity.Service\<close> runs on. As in \<open>Book_Db\<close> a table is a list of rows, a
  statement whose constraint fails ends the transaction in \<open>ErrPg\<close>, and \<open>run_tx\<close> rolls it back. Errors that the Go code
  makes with \<open>errors.New\<close> are \<open>StoreError\<close> with their text; a wrapped sentinel is the sentinel. \<open>now()\<close> is the clock of
  the database, \<open>me_Now\<close>. What lies outside the source is in the record \<open>identity_store\<close>: \<open>lower()\<close> of PostgreSQL and
  \<open>strings.EqualFold\<close> on text beyond ASCII.
\<close>

section \<open>Tables\<close>

record user_account =
  ua_ID :: string
  ua_DisplayName :: string
  ua_Email :: "string option"
  ua_Status :: user_status
  ua_AutoApproveMaxCents :: "int64 option"
  ua_CreditLimitCents :: int64

record membership_row =
  mm_ID :: string
  mm_UserID :: string
  mm_Role :: role
  mm_GrantedBy :: "string option"
  mm_GrantedAt :: go_time
  mm_RevokedBy :: "string option"
  mm_RevokedAt :: "go_time option"
  mm_RevocationReason :: "string option"

record invitation_row =
  iv_ID :: string
  iv_TokenHash :: string
  iv_IntendedEmail :: "string option"
  iv_Role :: role
  iv_IssuedBy :: string
  iv_CreatedAt :: go_time
  iv_ExpiresAt :: go_time
  iv_ConsumedAt :: "go_time option"
  iv_ConsumedBy :: "string option"
  iv_RevokedAt :: "go_time option"
  iv_RevokedBy :: "string option"

record session_row =
  sn_ID :: string
  sn_UserID :: string
  sn_TokenHash :: string
  sn_CSRFSecretHash :: string
  sn_CreatedAt :: go_time
  sn_LastSeenAt :: go_time
  sn_ExpiresAt :: go_time
  sn_RevokedAt :: "go_time option"
  sn_RevokeReason :: "string option"
  sn_RotatedFrom :: string \<comment> \<open>empty for \<open>NULL\<close>\<close>

record members_db =
  me_Users :: "user_account list"
  me_Identities :: "auth_identity list"
  me_Memberships :: "membership_row list"
  me_Invitations :: "invitation_row list"
  me_Sessions :: "session_row list"
  me_Audit :: "audit_row list"
  me_Now :: go_time
  me_Random :: "nat \<Rightarrow> nat \<Rightarrow> 8 word"
  me_Draws :: nat

type_synonym 'a members_cmd = "(members_db, identity_error, 'a) tx"

record identity_store =
  st_Platform :: platform
  st_sql_lower :: "string \<Rightarrow> string" \<comment> \<open>\<open>lower()\<close> of a text with a character outside ASCII\<close>
  st_EqualFold :: "string \<Rightarrow> string \<Rightarrow> bool" \<comment> \<open>\<open>strings.EqualFold\<close> when one side is not ASCII\<close>
  st_DefaultCreditLimitCents :: int64

definition ErrPg :: identity_error where
  "ErrPg = StoreError ''database''"

section \<open>Values\<close>

definition is_ascii :: "string \<Rightarrow> bool" where
  "is_ascii s = list_all (\<lambda>c. byte c < 128) s"

definition sql_lower :: "identity_store \<Rightarrow> string \<Rightarrow> string" where
  "sql_lower S s = (if is_ascii s then map lower_char s else st_sql_lower S s)"

definition EqualFold :: "identity_store \<Rightarrow> string \<Rightarrow> string \<Rightarrow> bool" where
  "EqualFold S s t = (if is_ascii s \<and> is_ascii t then map lower_char s = map lower_char t else st_EqualFold S s t)"

definition btrim :: "string \<Rightarrow> string" where
  \<comment> \<open>\<open>btrim\<close> strips spaces only\<close>
  "btrim s = rev (dropWhile (\<lambda>c. c = CHR '' '') (rev (dropWhile (\<lambda>c. c = CHR '' '') s)))"

definition email_ok :: "identity_store \<Rightarrow> string \<Rightarrow> bool" where
  \<comment> \<open>\<open>CHECK (email = lower(btrim(email)))\<close>\<close>
  "email_ok S e \<longleftrightarrow> e = sql_lower S (btrim e)"

definition timestamptz :: "go_time \<Rightarrow> go_time" where
  \<comment> \<open>a time written as a parameter and read back: microseconds, in the local zone\<close>
  "timestamptz t = Time (instant t div 1000 * 1000) False"

definition cast_uuid :: "'e \<Rightarrow> string \<Rightarrow> ('s, 'e, string) tx" where
  "cast_uuid e s = (case pg_uuid s of None \<Rightarrow> throw e | Some i \<Rightarrow> ret i)"

lemma cast_uuid_Inr [cmd_simps]: "cast_uuid e s db = Inr r \<longleftrightarrow> (\<exists>i. pg_uuid s = Some i \<and> r = (i, db))"
  by (auto simp: cast_uuid_def throw_def ret_def split: option.splits)

definition gen_random_uuid :: "string members_cmd" where
  "gen_random_uuid db = Inr (draw_uuid (me_Random db) (me_Draws db), db\<lparr>me_Draws := Suc (me_Draws db)\<rparr>)"

lemma gen_random_uuid_Inr [cmd_simps]:
  "gen_random_uuid db = Inr r \<longleftrightarrow> r = (draw_uuid (me_Random db) (me_Draws db), db\<lparr>me_Draws := Suc (me_Draws db)\<rparr>)"
  by (auto simp: gen_random_uuid_def)

fun first_row :: "'a list \<Rightarrow> 'a option" where
  \<comment> \<open>\<open>QueryRow\<close>: the first row, or \<open>pgx.ErrNoRows\<close>\<close>
  "first_row [] = None"
| "first_row (x # xs) = Some x"

lemma first_row_Some: "first_row xs = Some x \<Longrightarrow> x \<in> set xs"
  by (cases xs) auto

lemma first_row_None: "first_row xs = None \<longleftrightarrow> xs = []"
  by (cases xs) auto

lemma first_row_only: "x \<in> set xs \<Longrightarrow> \<forall>y \<in> set xs. y = x \<Longrightarrow> first_row xs = Some x"
  by (cases xs) simp_all

text \<open>Branches of a command on the state it runs in.\<close>

lemma keeps_state_if: "keeps R m \<Longrightarrow> keeps R n \<Longrightarrow> keeps R (\<lambda>db. if b db then m db else n db)"
  by (auto simp: keeps_def)

lemma keeps_state_option:
  "keeps R m \<Longrightarrow> (\<And>x. keeps R (f x)) \<Longrightarrow> keeps R (\<lambda>db. case g db of None \<Rightarrow> m db | Some x \<Rightarrow> f x db)"
  by (auto simp: keeps_def split: option.split_asm)

lemma keeps_state_fail: "keeps R (\<lambda>db. Inl (e db))"
  by (simp add: keeps_def)

lemma keeps_state_same: "(\<And>db. R db db) \<Longrightarrow> keeps R (\<lambda>db. Inr (x db, db))"
  by (simp add: keeps_def)

lemma keeps_state_to: "(\<And>db. R db (f db)) \<Longrightarrow> keeps R (\<lambda>db. Inr (x db, f db))"
  by (simp add: keeps_def)

lemmas keeps_state = keeps_state_if keeps_state_option keeps_state_fail keeps_state_same

section \<open>Principals\<close>

definition coalesce :: "string option \<Rightarrow> string" where
  "coalesce v = (case v of None \<Rightarrow> [] | Some s \<Rightarrow> s)"

definition scanned_time :: "go_time option \<Rightarrow> go_time" where
  \<comment> \<open>\<open>if revoked != nil { RevokedAt = *revoked }\<close>\<close>
  "scanned_time v = (case v of None \<Rightarrow> zero_time | Some t \<Rightarrow> t)"

definition scanPrincipal :: "user_account \<Rightarrow> membership_row \<Rightarrow> principal" where
  "scanPrincipal u m = \<lparr>
     pr_User = \<lparr>u_ID = ua_ID u, u_DisplayName = ua_DisplayName u, u_Email = coalesce (ua_Email u), u_Status = ua_Status u\<rparr>,
     pr_Membership = \<lparr>mb_ID = mm_ID m, mb_UserID = mm_UserID m, mb_Role = mm_Role m, mb_GrantedAt = mm_GrantedAt m,
       mb_RevokedAt = scanned_time (mm_RevokedAt m)\<rparr>\<rparr>"

definition member_rows :: "members_db \<Rightarrow> (user_account \<times> membership_row) list" where
  \<comment> \<open>\<open>users u JOIN memberships m ON m.user_id = u.id AND m.revoked_at IS NULL \<dots> u.status = 'active'\<close>\<close>
  "member_rows db = [(u, m). u \<leftarrow> me_Users db, ua_Status u = UserActive,
     m \<leftarrow> me_Memberships db, mm_UserID m = ua_ID u \<and> mm_RevokedAt m = None]"

definition same_key :: "verified_identity \<Rightarrow> auth_identity \<Rightarrow> bool" where
  "same_key v a \<longleftrightarrow> ai_Provider a = vi_Provider v \<and> ai_Subject a = vi_Subject v"

definition principalByIdentity :: "verified_identity \<Rightarrow> members_db \<Rightarrow> principal option" where
  "principalByIdentity v db = first_row [scanPrincipal u m. a \<leftarrow> me_Identities db, same_key v a,
     (u, m) \<leftarrow> member_rows db, ua_ID u = ai_UserID a]"

definition principalByApprovedEmail :: "identity_store \<Rightarrow> string \<Rightarrow> members_db \<Rightarrow> principal option" where
  "principalByApprovedEmail S email db = first_row [scanPrincipal u m. (u, m) \<leftarrow> member_rows db,
     map_option (sql_lower S) (ua_Email u) = Some (sql_lower S email)]"

definition principalByUser :: "string \<Rightarrow> members_db \<Rightarrow> principal option" where
  "principalByUser userID db = first_row [scanPrincipal u m. (u, m) \<leftarrow> member_rows db, ua_ID u = userID]"

section \<open>Resolving a verified identity\<close>

definition authenticated :: "verified_identity \<Rightarrow> members_db \<Rightarrow> members_db" where
  \<comment> \<open>\<open>SET last_authenticated_at = now(), email = $3, email_verified = true\<close>\<close>
  "authenticated v db = db\<lparr>me_Identities := map (\<lambda>a. if same_key v a
     then a\<lparr>ai_LastAuthenticatedAt := me_Now db, ai_Email := vi_Email v, ai_EmailVerified := True\<rparr> else a) (me_Identities db)\<rparr>"

definition record_authentication :: "identity_store \<Rightarrow> verified_identity \<Rightarrow> unit members_cmd" where
  "record_authentication S v db =
    (if list_ex (same_key v) (me_Identities db) \<and> \<not> email_ok S (vi_Email v) then Inl ErrPg
     else Inr ((), authenticated v db))"

definition link_identity :: "identity_store \<Rightarrow> string \<Rightarrow> verified_identity \<Rightarrow> nat members_cmd" where
  \<comment> \<open>\<open>INSERT INTO auth_identities \<dots> ON CONFLICT (provider, subject) DO UPDATE \<dots> WHERE user_id = EXCLUDED.user_id\<close>:
    the number of rows affected\<close>
  "link_identity S userID v =
    andThen (require (providerPattern (vi_Provider v) \<and> 1 \<le> RuneCount (vi_Subject v) \<and> RuneCount (vi_Subject v) \<le> 255
      \<and> email_ok S (vi_Email v)) ErrPg) (\<lambda>_ db.
    case first_row (filter (same_key v) (me_Identities db)) of
      Some a \<Rightarrow> if ai_UserID a = userID then Inr (1, authenticated v db) else Inr (0, db)
    | None \<Rightarrow> andThen gen_random_uuid (\<lambda>i db.
        if i \<in> ai_ID ` set (me_Identities db) \<or> userID \<notin> ua_ID ` set (me_Users db) then Inl ErrPg
        else Inr (1, db\<lparr>me_Identities := me_Identities db @ [\<lparr>ai_ID = i, ai_UserID = userID, ai_Provider = vi_Provider v,
          ai_Subject = vi_Subject v, ai_Email = vi_Email v, ai_EmailVerified = True, ai_CreatedAt = me_Now db,
          ai_LastAuthenticatedAt = me_Now db\<rparr>]\<rparr>)) db)"

definition resolveApprovedIdentity :: "identity_store \<Rightarrow> verified_identity \<Rightarrow> principal members_cmd" where
  "resolveApprovedIdentity S v db =
    (case principalByIdentity v db of
       Some p \<Rightarrow> andThen (record_authentication S v) (\<lambda>_. ret p) db
     | None \<Rightarrow> (case principalByApprovedEmail S (vi_Email v) db of
         None \<Rightarrow> Inl ErrSignInNotAllowed
       | Some p \<Rightarrow> andThen (link_identity S (u_ID (pr_User p)) v) (\<lambda>affected.
           andThen (require (affected = 1) ErrSignInNotAllowed) (\<lambda>_. ret p)) db))"

section \<open>Sessions\<close>

definition scanSession :: "session_row \<Rightarrow> identity_error + session" where
  "scanSession r = (case DigestFromBytes (sn_TokenHash r) of Inl e \<Rightarrow> Inl e
     | Inr token \<Rightarrow> (case DigestFromBytes (sn_CSRFSecretHash r) of Inl e \<Rightarrow> Inl e
     | Inr csrf \<Rightarrow> Inr \<lparr>se_ID = sn_ID r, se_UserID = sn_UserID r, se_TokenHash = token, se_CSRFSecretHash = csrf,
         se_CreatedAt = sn_CreatedAt r, se_LastSeenAt = sn_LastSeenAt r, se_ExpiresAt = sn_ExpiresAt r,
         se_RevokedAt = scanned_time (sn_RevokedAt r), se_RevokeReason = coalesce (sn_RevokeReason r),
         se_RotatedFrom = sn_RotatedFrom r\<rparr>))"

definition session_constraints :: "session_row \<Rightarrow> members_db \<Rightarrow> bool" where
  "session_constraints r db \<longleftrightarrow>
     sn_ID r \<notin> sn_ID ` set (me_Sessions db) \<and> sn_UserID r \<in> ua_ID ` set (me_Users db)
   \<and> sn_TokenHash r \<notin> sn_TokenHash ` set (me_Sessions db)
   \<and> 32 \<le> length (sn_TokenHash r) \<and> 32 \<le> length (sn_CSRFSecretHash r)
   \<and> (sn_RotatedFrom r = [] \<or> sn_RotatedFrom r \<in> sn_ID ` set (me_Sessions db)
        \<and> sn_RotatedFrom r \<notin> sn_RotatedFrom ` set (me_Sessions db))
   \<and> Before (sn_CreatedAt r) (sn_ExpiresAt r) \<and> \<not> Before (sn_LastSeenAt r) (sn_CreatedAt r)"

definition drafted_row :: "string \<Rightarrow> string \<Rightarrow> session_draft \<Rightarrow> string \<Rightarrow> session_row" where
  "drafted_row i userID d from' = \<lparr>sn_ID = i, sn_UserID = userID, sn_TokenHash = d_TokenHash d,
     sn_CSRFSecretHash = d_CSRFSecretHash d, sn_CreatedAt = timestamptz (d_CreatedAt d),
     sn_LastSeenAt = timestamptz (d_LastSeenAt d), sn_ExpiresAt = timestamptz (d_ExpiresAt d),
     sn_RevokedAt = None, sn_RevokeReason = None, sn_RotatedFrom = from'\<rparr>"

definition insertSession :: "string \<Rightarrow> session_draft \<Rightarrow> string \<Rightarrow> session members_cmd" where
  "insertSession userID d rotatedFrom =
    andThen (cast_uuid ErrPg userID) (\<lambda>u.
    case null_uuid rotatedFrom of None \<Rightarrow> throw ErrPg
    | Some from' \<Rightarrow> andThen gen_random_uuid (\<lambda>i db.
        let r = drafted_row i u d from' in
        if \<not> session_constraints r db then Inl ErrPg
        else (case scanSession r of Inl e \<Rightarrow> Inl e | Inr s \<Rightarrow> Inr (s, db\<lparr>me_Sessions := me_Sessions db @ [r]\<rparr>))))"

definition live_session :: "digest \<Rightarrow> go_time \<Rightarrow> members_db \<Rightarrow> (session_row \<times> user_account \<times> membership_row) option" where
  \<comment> \<open>\<open>sessionPrincipalSQL WHERE s.token_hash = $1 AND s.revoked_at IS NULL AND s.expires_at > $2 AND \<dots>\<close>\<close>
  "live_session tokenHash now' db = first_row [(s, u, m).
     s \<leftarrow> me_Sessions db, sn_TokenHash s = tokenHash \<and> sn_RevokedAt s = None \<and> Before (timestamptz now') (sn_ExpiresAt s),
     (u, m) \<leftarrow> member_rows db, ua_ID u = sn_UserID s]"

definition findSession :: "digest \<Rightarrow> go_time \<Rightarrow> (session \<times> principal) members_cmd" where
  \<comment> \<open>\<open>scanSessionPrincipal\<close> of that row\<close>
  "findSession tokenHash now' = query (\<lambda>db. case live_session tokenHash now' db of
      None \<Rightarrow> Inl ErrUnauthenticated
    | Some (r, u, m) \<Rightarrow> map_sum id (\<lambda>s. (s, scanPrincipal u m)) (scanSession r))"

definition set_session :: "(session_row \<Rightarrow> bool) \<Rightarrow> (session_row \<Rightarrow> session_row) \<Rightarrow> members_db \<Rightarrow> members_db" where
  "set_session b f db = db\<lparr>me_Sessions := map (\<lambda>r. if b r then f r else r) (me_Sessions db)\<rparr>"

definition idleWindow :: int where
  "idleWindow = 5 * 60 * 1000000000"

definition useSession :: "digest \<Rightarrow> go_time \<Rightarrow> (session \<times> principal) members_cmd" where
  "useSession tokenHash now' =
    andThen (findSession tokenHash now') (\<lambda>(s, p).
    if instant now' - instant (se_LastSeenAt s) \<ge> idleWindow
    then andThen (exec (set_session (\<lambda>r. sn_ID r = se_ID s \<and> Before (sn_LastSeenAt r) (timestamptz now'))
           (\<lambda>r. r\<lparr>sn_LastSeenAt := timestamptz now'\<rparr>)))
         (\<lambda>_. ret (s\<lparr>se_LastSeenAt := now'\<rparr>, p))
    else ret (s, p))"

definition revoke_sessions :: "(session_row \<Rightarrow> bool) \<Rightarrow> go_time \<Rightarrow> string \<Rightarrow> nat members_cmd" where
  \<comment> \<open>\<open>UPDATE sessions SET revoked_at = $2, revoke_reason = $3 WHERE \<dots>\<close>: the number of rows affected\<close>
  "revoke_sessions b now' reason db =
    (if list_ex b (me_Sessions db) \<and> btrim reason = [] then Inl ErrPg
     else Inr (length (filter b (me_Sessions db)),
       set_session b (\<lambda>r. r\<lparr>sn_RevokedAt := Some (timestamptz now'), sn_RevokeReason := Some reason\<rparr>) db))"

definition rotateSession ::
  "digest \<Rightarrow> session_draft \<Rightarrow> go_time \<Rightarrow> string \<Rightarrow> (session \<times> principal) members_cmd" where
  "rotateSession currentHash d now' reason =
    andThen (findSession currentHash now') (\<lambda>(current, p).
    andThen (revoke_sessions (\<lambda>r. sn_ID r = se_ID current) now' reason) (\<lambda>_.
    andThen (insertSession (u_ID (pr_User p)) d (se_ID current)) (\<lambda>s.
    ret (s, p))))"

definition createSessionForIdentity ::
  "identity_store \<Rightarrow> verified_identity \<Rightarrow> session_draft \<Rightarrow> (session \<times> principal) members_cmd" where
  "createSessionForIdentity S v d =
    andThen (resolveApprovedIdentity S v) (\<lambda>p.
    andThen (insertSession (u_ID (pr_User p)) d []) (\<lambda>s.
    ret (s, p)))"

definition Store_RevokeSession :: "digest \<Rightarrow> go_time \<Rightarrow> string \<Rightarrow> members_db \<Rightarrow> members_db \<times> identity_error option" where
  "Store_RevokeSession tokenHash now' reason db =
    (case revoke_sessions (\<lambda>r. sn_TokenHash r = tokenHash \<and> sn_RevokedAt r = None) now' reason db of
       Inl e \<Rightarrow> (db, Some e)
     | Inr (affected, db') \<Rightarrow> if affected = 0 then (db', Some ErrUnauthenticated) else (db', None))"

definition as_answer :: "(session \<times> principal) members_cmd \<Rightarrow> members_db \<Rightarrow> members_db answer" where
  \<comment> \<open>\<open>withPrincipalTransaction\<close>\<close>
  "as_answer m db = (case run_tx m db of (r, db') \<Rightarrow> (db', r))"

lemma as_answer_Inr: "as_answer m db = (db', Inr x) \<longleftrightarrow> m db = Inr (x, db')"
  by (auto simp: as_answer_def run_tx_def split: prod.splits sum.splits)

lemma as_answer_Inl: "as_answer m db = (db', Inl e) \<longleftrightarrow> m db = Inl e \<and> db' = db"
  by (auto simp: as_answer_def run_tx_def split: prod.splits sum.splits)

end
