(* ===== verification/Members_Admin.thy ===== *)
theory Members_Admin
  imports Members
begin

text \<open>
  \<open>internal/identitypg/membership.go\<close>: invitations, roles, limits; the store record that \<open>identity.Service\<close> is given;
  and \<open>cmd/cabot/bootstrap.go: grantBootstrapMembership\<close>, the operator command that grants a first role.
\<close>

section \<open>Memberships\<close>

definition active_of :: "string \<Rightarrow> members_db \<Rightarrow> membership_row option" where
  \<comment> \<open>\<open>memberships WHERE user_id = $1 AND revoked_at IS NULL\<close>\<close>
  "active_of userID db = first_row (filter (\<lambda>m. mm_UserID m = userID \<and> mm_RevokedAt m = None) (me_Memberships db))"

definition membership_constraints :: "membership_row \<Rightarrow> members_db \<Rightarrow> bool" where
  "membership_constraints m db \<longleftrightarrow>
     mm_ID m \<notin> mm_ID ` set (me_Memberships db) \<and> mm_UserID m \<in> ua_ID ` set (me_Users db)
   \<and> Role_Validate (mm_Role m) = None
   \<and> (case mm_GrantedBy m of None \<Rightarrow> True | Some g \<Rightarrow> g \<in> ua_ID ` set (me_Users db))
   \<and> (\<forall>n \<in> set (me_Memberships db). \<not> (mm_UserID n = mm_UserID m \<and> mm_RevokedAt n = None))"

definition insert_membership :: "string \<Rightarrow> role \<Rightarrow> string option \<Rightarrow> unit members_cmd" where
  \<comment> \<open>\<open>INSERT INTO memberships (user_id, role, granted_by)\<close>\<close>
  "insert_membership userID r grantedBy = andThen gen_random_uuid (\<lambda>i db.
     let m = \<lparr>mm_ID = i, mm_UserID = userID, mm_Role = r, mm_GrantedBy = grantedBy, mm_GrantedAt = me_Now db,
           mm_RevokedBy = None, mm_RevokedAt = None, mm_RevocationReason = None\<rparr>
     in if \<not> membership_constraints m db then Inl ErrPg
        else Inr ((), db\<lparr>me_Memberships := me_Memberships db @ [m]\<rparr>))"

definition revoked_row :: "string \<Rightarrow> string \<Rightarrow> go_time \<Rightarrow> membership_row \<Rightarrow> membership_row" where
  "revoked_row actor reason now' m =
    m\<lparr>mm_RevokedBy := Some actor, mm_RevokedAt := Some now', mm_RevocationReason := Some reason\<rparr>"

definition revoke_memberships :: "(membership_row \<Rightarrow> bool) \<Rightarrow> string \<Rightarrow> string \<Rightarrow> unit members_cmd" where
  \<comment> \<open>\<open>UPDATE memberships SET revoked_at = now(), revoked_by = $2, revocation_reason = $3 WHERE \<dots>\<close>\<close>
  "revoke_memberships b actor reason db =
    (if (\<exists>m \<in> set (me_Memberships db). b m \<and> (btrim reason = [] \<or> Before (me_Now db) (mm_GrantedAt m)
          \<or> actor \<notin> ua_ID ` set (me_Users db))) then Inl ErrPg
     else Inr ((), db\<lparr>me_Memberships := map (\<lambda>m. if b m then revoked_row actor reason (me_Now db) m else m)
       (me_Memberships db)\<rparr>))"

definition members_audit :: "string \<Rightarrow> string \<Rightarrow> string \<Rightarrow> string \<Rightarrow> unit members_cmd" where
  \<comment> \<open>\<open>INSERT INTO audit_entries\<close>; the actor is empty for \<open>NULL\<close>\<close>
  "members_audit actor action target reason db =
    (if actor \<noteq> [] \<and> actor \<notin> ua_ID ` set (me_Users db) then Inl ErrPg
     else Inr ((), db\<lparr>me_Audit := me_Audit db @
       [\<lparr>au_Actor = actor, au_Action = action, au_TargetID = target, au_Reason = reason\<rparr>]\<rparr>))"

definition activeRole :: "string \<Rightarrow> role members_cmd" where
  "activeRole userID = andThen (cast_uuid ErrPg userID) (\<lambda>u. query (\<lambda>db.
     case active_of u db of None \<Rightarrow> Inl ErrUnauthorized | Some m \<Rightarrow> Inr (mm_Role m)))"

definition requireOwnerTx :: "string \<Rightarrow> unit members_cmd" where
  "requireOwnerTx actor = andThen (cast_uuid ErrPg actor) (\<lambda>a. query (\<lambda>db.
     case active_of a db of None \<Rightarrow> Inl ErrUnauthorized
     | Some m \<Rightarrow> if mm_Role m \<noteq> RoleOwner then Inl ErrUnauthorized else Inr ()))"

definition owner_count :: "members_db \<Rightarrow> nat" where
  "owner_count db = length (filter (\<lambda>m. mm_Role m = RoleOwner \<and> mm_RevokedAt m = None) (me_Memberships db))"

definition not_last_owner :: "role \<Rightarrow> string \<Rightarrow> unit members_cmd" where
  "not_last_owner currentRole message = (if currentRole = RoleOwner
     then query (\<lambda>db. if owner_count db \<le> 1 then Inl (StoreError message) else Inr ()) else ret ())"

definition load_membership :: "string \<Rightarrow> membership_row members_cmd" where
  "load_membership userID = query (\<lambda>db. case active_of userID db of
     None \<Rightarrow> Inl (StoreError ''target has no active membership'') | Some m \<Rightarrow> Inr m)"

definition changeMemberRole :: "string \<Rightarrow> string \<Rightarrow> role \<Rightarrow> string \<Rightarrow> unit members_cmd" where
  "changeMemberRole actor target newRole reason =
    andThen (require (newRole \<in> {RoleMember, RoleAdmin, RoleOwner}) (StoreError ''role must be member, admin, or owner'')) (\<lambda>_.
    andThen (require (TrimSpace reason \<noteq> []) ErrUnauthorized) (\<lambda>_.
    andThen (requireOwnerTx actor) (\<lambda>_.
    andThen (cast_uuid ErrPg actor) (\<lambda>a.
    andThen (cast_uuid ErrPg target) (\<lambda>t.
    andThen (load_membership t) (\<lambda>m.
    if mm_Role m = newRole then ret ()
    else andThen (not_last_owner (mm_Role m) ''cannot demote the last owner'') (\<lambda>_.
         andThen (revoke_memberships (\<lambda>n. mm_ID n = mm_ID m) a reason) (\<lambda>_.
         andThen (insert_membership t newRole (Some a)) (\<lambda>_.
         members_audit a ''membership.role_changed'' t reason)))))))))"

definition revokeMember :: "string \<Rightarrow> string \<Rightarrow> string \<Rightarrow> unit members_cmd" where
  "revokeMember actor target reason =
    andThen (require (TrimSpace reason \<noteq> []) ErrUnauthorized) (\<lambda>_.
    andThen (require (actor \<noteq> target) (StoreError ''you cannot revoke your own membership'')) (\<lambda>_.
    andThen (requireOwnerTx actor) (\<lambda>_.
    andThen (cast_uuid ErrPg actor) (\<lambda>a.
    andThen (cast_uuid ErrPg target) (\<lambda>t.
    andThen (load_membership t) (\<lambda>m.
    andThen (not_last_owner (mm_Role m) ''cannot revoke the last owner'') (\<lambda>_.
    andThen (revoke_memberships (\<lambda>n. mm_ID n = mm_ID m) a reason) (\<lambda>_.
    members_audit a ''membership.revoked'' t reason))))))))"

section \<open>Limits\<close>

definition set_user :: "string \<Rightarrow> (user_account \<Rightarrow> user_account) \<Rightarrow> unit members_cmd" where
  "set_user userID f db = (if userID \<notin> ua_ID ` set (me_Users db) then Inl (StoreError ''member not found'')
     else Inr ((), db\<lparr>me_Users := map (\<lambda>u. if ua_ID u = userID then f u else u) (me_Users db)\<rparr>))"

definition requireStaffRole :: "string \<Rightarrow> unit members_cmd" where
  \<comment> \<open>\<open>activeRole\<close> and \<open>if actorRole != "admin" && actorRole != "owner"\<close>\<close>
  "requireStaffRole actor = andThen (activeRole actor) (\<lambda>r. require (r = RoleAdmin \<or> r = RoleOwner) ErrUnauthorized)"

definition change_limit :: "string \<Rightarrow> string \<Rightarrow> string \<Rightarrow> string \<Rightarrow> (user_account \<Rightarrow> user_account) \<Rightarrow> unit members_cmd" where
  "change_limit actor target action reason f =
    andThen (requireStaffRole actor) (\<lambda>_.
    andThen (cast_uuid ErrPg actor) (\<lambda>a.
    andThen (cast_uuid ErrPg target) (\<lambda>t.
    andThen (set_user t f) (\<lambda>_.
    members_audit a action t reason))))"

definition setAutoApproveLimit :: "string \<Rightarrow> string \<Rightarrow> int64 option \<Rightarrow> unit members_cmd" where
  "setAutoApproveLimit actor target cents' =
    andThen (require (case cents' of None \<Rightarrow> True | Some c \<Rightarrow> 0 \<le> sint c)
      (StoreError ''auto-approve limit must not be negative'')) (\<lambda>_.
    change_limit actor target ''membership.auto_approve_limit_set'' ''set betting limit''
      (\<lambda>u. u\<lparr>ua_AutoApproveMaxCents := cents'\<rparr>))"

definition setCreditLimit :: "string \<Rightarrow> string \<Rightarrow> int64 \<Rightarrow> unit members_cmd" where
  "setCreditLimit actor target cents' =
    andThen (require (0 \<le> sint cents') (StoreError ''credit limit must not be negative'')) (\<lambda>_.
    change_limit actor target ''membership.credit_limit_set'' ''set credit limit''
      (\<lambda>u. u\<lparr>ua_CreditLimitCents := cents'\<rparr>))"

section \<open>Invitations\<close>

definition hashInvitationToken :: "platform \<Rightarrow> string \<Rightarrow> string" where
  "hashInvitationToken P raw = p_sha256 P (''cabot-invitation-token-v1'' @ '':'' @ raw)"

definition insert_invitation :: "identity_store \<Rightarrow> invitation_row \<Rightarrow> unit members_cmd" where
  "insert_invitation S r db =
    (if iv_ID r \<in> iv_ID ` set (me_Invitations db) \<or> iv_TokenHash r \<in> iv_TokenHash ` set (me_Invitations db)
        \<or> length (iv_TokenHash r) < 32 \<or> iv_Role r \<notin> {RoleMember, RoleAdmin} \<or> iv_IssuedBy r \<notin> ua_ID ` set (me_Users db)
        \<or> (case iv_IntendedEmail r of None \<Rightarrow> False | Some e \<Rightarrow> \<not> email_ok S e)
        \<or> \<not> Before (iv_CreatedAt r) (iv_ExpiresAt r)
     then Inl ErrPg else Inr ((), db\<lparr>me_Invitations := me_Invitations db @ [r]\<rparr>))"

definition new_invitation :: "identity_store \<Rightarrow> string \<Rightarrow> string \<Rightarrow> role \<Rightarrow> string \<Rightarrow> int64 \<Rightarrow> unit members_cmd" where
  \<comment> \<open>\<open>int64(ttl.Seconds())\<close> cuts the fraction of a second off, which is exact up to thirty days\<close>
  "new_invitation S rawToken actor r intendedEmail ttl = andThen gen_random_uuid (\<lambda>i db.
     insert_invitation S \<lparr>iv_ID = i, iv_TokenHash = hashInvitationToken (st_Platform S) rawToken,
       iv_IntendedEmail = (let trimmed = ToLower (st_Platform S) (TrimSpace intendedEmail) in if trimmed = [] then None else Some trimmed),
       iv_Role = r, iv_IssuedBy = actor, iv_CreatedAt = me_Now db,
       iv_ExpiresAt = Time (instant (me_Now db) + sint ttl div 1000000000 * 1000000000) False,
       iv_ConsumedAt = None, iv_ConsumedBy = None, iv_RevokedAt = None, iv_RevokedBy = None\<rparr> db)"

definition issueInvitation ::
  "identity_store \<Rightarrow> string \<Rightarrow> role \<Rightarrow> string \<Rightarrow> int64 \<Rightarrow> string option \<Rightarrow> string members_cmd" where
  \<comment> \<open>\<open>random\<close> is what \<open>rand.Read\<close> of 32 bytes returns\<close>
  "issueInvitation S actor r intendedEmail ttl random =
    andThen (require (r = RoleMember \<or> r = RoleAdmin) ErrUnauthorized) (\<lambda>_.
    andThen (require (0 < sint ttl \<and> sint ttl \<le> 30 * 24 * 60 * 60 * 1000000000)
      (StoreError ''invitation ttl must be between 0 and 30 days'')) (\<lambda>_.
    andThen (activeRole actor) (\<lambda>actorRole.
    andThen (require (\<not> (r = RoleAdmin \<and> actorRole \<noteq> RoleOwner)) ErrUnauthorized) (\<lambda>_.
    andThen (require (actorRole = RoleAdmin \<or> actorRole = RoleOwner) ErrUnauthorized) (\<lambda>_.
    case random of None \<Rightarrow> throw (StoreError ''generate invitation token'')
    | Some bytes \<Rightarrow> andThen (cast_uuid ErrPg actor) (\<lambda>a.
        andThen (new_invitation S (EncodeToString bytes) a r intendedEmail ttl) (\<lambda>_.
        ret (EncodeToString bytes))))))))"

definition open_invitation :: "invitation_row \<Rightarrow> bool" where
  "open_invitation r \<longleftrightarrow> iv_ConsumedAt r = None \<and> iv_RevokedAt r = None"

definition set_invitation :: "(invitation_row \<Rightarrow> bool) \<Rightarrow> (invitation_row \<Rightarrow> invitation_row) \<Rightarrow> members_db \<Rightarrow> members_db" where
  "set_invitation b f db = db\<lparr>me_Invitations := map (\<lambda>r. if b r then f r else r) (me_Invitations db)\<rparr>"

definition revokeInvitation :: "string \<Rightarrow> string \<Rightarrow> unit members_cmd" where
  "revokeInvitation actor invitationID =
    andThen (requireStaffRole actor) (\<lambda>_.
    andThen (cast_uuid ErrPg actor) (\<lambda>a.
    andThen (cast_uuid ErrPg invitationID) (\<lambda>i db.
    let b = (\<lambda>r. iv_ID r = i \<and> open_invitation r) in
    if \<not> list_ex b (me_Invitations db) then Inl (StoreError ''invitation not found or already consumed'')
    else if a \<notin> ua_ID ` set (me_Users db) then Inl ErrPg
    else Inr ((), set_invitation b (\<lambda>r. r\<lparr>iv_RevokedAt := Some (me_Now db), iv_RevokedBy := Some a\<rparr>) db))))"

definition find_invitation :: "identity_store \<Rightarrow> verified_identity \<Rightarrow> string \<Rightarrow> invitation_row members_cmd" where
  "find_invitation S v rawToken =
    andThen (require (TrimSpace rawToken \<noteq> []) ErrSignInNotAllowed) (\<lambda>_. query (\<lambda>db.
    case first_row (filter (\<lambda>r. iv_TokenHash r = hashInvitationToken (st_Platform S) rawToken \<and> open_invitation r
           \<and> Before (me_Now db) (iv_ExpiresAt r)) (me_Invitations db)) of
      None \<Rightarrow> Inl ErrSignInNotAllowed
    | Some r \<Rightarrow> (case iv_IntendedEmail r of None \<Rightarrow> Inr r
        | Some e \<Rightarrow> if \<not> EqualFold S (TrimSpace e) (vi_Email v) then Inl ErrSignInNotAllowed else Inr r)))"

definition columnDefaultCreditLimit :: int64 where
  "columnDefaultCreditLimit = 150000"

definition user_constraints :: "identity_store \<Rightarrow> user_account \<Rightarrow> members_db \<Rightarrow> bool" where
  "user_constraints S u db \<longleftrightarrow>
     ua_ID u \<notin> ua_ID ` set (me_Users db)
   \<and> 1 \<le> RuneCount (btrim (ua_DisplayName u)) \<and> RuneCount (btrim (ua_DisplayName u)) \<le> 120
   \<and> (case ua_Email u of None \<Rightarrow> True | Some e \<Rightarrow> email_ok S e
        \<and> (\<forall>w \<in> set (me_Users db). map_option (sql_lower S) (ua_Email w) \<noteq> Some (sql_lower S e)))
   \<and> 0 \<le> sint (ua_CreditLimitCents u)"

definition insert_user :: "identity_store \<Rightarrow> string \<Rightarrow> string \<Rightarrow> int64 \<Rightarrow> string members_cmd" where
  \<comment> \<open>\<open>INSERT INTO users (display_name, email, status, credit_limit_cents) VALUES ($1, $2, 'active', $3) RETURNING id\<close>\<close>
  "insert_user S displayName email creditLimit = andThen gen_random_uuid (\<lambda>i db.
     let u = \<lparr>ua_ID = i, ua_DisplayName = displayName, ua_Email = Some email, ua_Status = UserActive,
           ua_AutoApproveMaxCents = None, ua_CreditLimitCents = creditLimit\<rparr>
     in if \<not> user_constraints S u db then Inl ErrPg else Inr (i, db\<lparr>me_Users := me_Users db @ [u]\<rparr>))"

definition user_by_email :: "identity_store \<Rightarrow> string \<Rightarrow> members_db \<Rightarrow> user_account option" where
  \<comment> \<open>\<open>users WHERE lower(email) = $1\<close>\<close>
  "user_by_email S lowered db = first_row (filter (\<lambda>u. map_option (sql_lower S) (ua_Email u) = Some lowered) (me_Users db))"

definition invited_user :: "identity_store \<Rightarrow> verified_identity \<Rightarrow> string members_cmd" where
  \<comment> \<open>find or create the user for the verified email\<close>
  "invited_user S v db =
    (case user_by_email S (sql_lower S (vi_Email v)) db of
       None \<Rightarrow> insert_user S (vi_DisplayName v) (ToLower (st_Platform S) (vi_Email v))
         (if sint (st_DefaultCreditLimitCents S) \<le> 0 then columnDefaultCreditLimit else st_DefaultCreditLimitCents S) db
     | Some u \<Rightarrow> if ua_Status u \<noteq> UserActive then Inl ErrSignInNotAllowed else Inr (ua_ID u, db))"

definition mark_consumed :: "string \<Rightarrow> string \<Rightarrow> unit members_cmd" where
  \<comment> \<open>\<open>UPDATE invitations SET consumed_at = now(), consumed_by = $2 WHERE id = $1\<close>; \<open>consumed_by\<close> is \<open>UNIQUE\<close>\<close>
  "mark_consumed invitationID userID db =
    (if (\<exists>r \<in> set (me_Invitations db). iv_ID r \<noteq> invitationID \<and> iv_ConsumedBy r = Some userID) then Inl ErrPg
     else Inr ((), set_invitation (\<lambda>r. iv_ID r = invitationID)
       (\<lambda>r. r\<lparr>iv_ConsumedAt := Some (me_Now db), iv_ConsumedBy := Some userID\<rparr>) db))"

definition consumeInvitation :: "identity_store \<Rightarrow> verified_identity \<Rightarrow> string \<Rightarrow> principal members_cmd" where
  \<comment> \<open>the number of rows of the identity link is not looked at\<close>
  "consumeInvitation S v rawToken =
    andThen (find_invitation S v rawToken) (\<lambda>offer.
    andThen (invited_user S v) (\<lambda>userID.
    andThen (insert_membership userID (iv_Role offer) (Some (iv_IssuedBy offer))) (\<lambda>_.
    andThen (mark_consumed (iv_ID offer) userID) (\<lambda>_.
    andThen (link_identity S userID v) (\<lambda>_.
    andThen (members_audit (iv_IssuedBy offer) ''membership.invitation_consumed'' userID ''accepted invite'') (\<lambda>_.
    query (\<lambda>db. case principalByUser userID db of
      None \<Rightarrow> Inl (StoreError ''load invited principal'') | Some p \<Rightarrow> Inr p)))))))"

definition admitIdentity :: "identity_store \<Rightarrow> verified_identity \<Rightarrow> string \<Rightarrow> principal members_cmd" where
  \<comment> \<open>\<open>resolveApprovedIdentity\<close> writes nothing before it answers \<open>ErrSignInNotAllowed\<close>\<close>
  "admitIdentity S v inviteToken db = (case resolveApprovedIdentity S v db of
     Inl e \<Rightarrow> if e = ErrSignInNotAllowed then consumeInvitation S v inviteToken db else Inl e
   | Inr r \<Rightarrow> Inr r)"

definition createSessionForInvitedIdentity ::
  "identity_store \<Rightarrow> verified_identity \<Rightarrow> session_draft \<Rightarrow> string \<Rightarrow> (session \<times> principal) members_cmd" where
  "createSessionForInvitedIdentity S v d inviteToken =
    andThen (admitIdentity S v inviteToken) (\<lambda>p.
    andThen (insertSession (u_ID (pr_User p)) d []) (\<lambda>s.
    ret (s, p)))"

section \<open>The store of the session service\<close>

definition pg_store :: "identity_store \<Rightarrow> members_db store" where
  "pg_store S = \<lparr>
     CreateSessionForIdentity = (\<lambda>v d. as_answer (createSessionForIdentity S v d)),
     CreateSessionForInvitedIdentity = (\<lambda>v d inviteToken. as_answer (createSessionForInvitedIdentity S v d inviteToken)),
     UseSession = (\<lambda>h t. as_answer (useSession h t)),
     RotateSession = (\<lambda>h d t reason. as_answer (rotateSession h d t reason)),
     RevokeSession = Store_RevokeSession\<rparr>"

section \<open>The first role\<close>

fun role_string :: "role \<Rightarrow> string" where
  "role_string RoleMember = ''member''"
| "role_string RoleAdmin = ''admin''"
| "role_string RoleOwner = ''owner''"
| "role_string (RoleOther s) = s"

definition bootstrap_guard :: "identity_store \<Rightarrow> role \<Rightarrow> string \<Rightarrow> unit members_cmd" where
  "bootstrap_guard S r email = (if r = RoleOwner
     then query (\<lambda>db. case first_row [u. m \<leftarrow> me_Memberships db, mm_Role m = RoleOwner \<and> mm_RevokedAt m = None,
                                      u \<leftarrow> me_Users db, ua_ID u = mm_UserID m] of
            None \<Rightarrow> Inr ()
          | Some u \<Rightarrow> if sql_lower S (coalesce (ua_Email u)) \<noteq> email
              then Inl (StoreError ''an active owner already exists'') else Inr ())
     else ret ())"

definition bootstrap_user :: "identity_store \<Rightarrow> string \<Rightarrow> string \<Rightarrow> string members_cmd" where
  "bootstrap_user S displayName email db =
    (case user_by_email S email db of
       None \<Rightarrow> insert_user S displayName email columnDefaultCreditLimit db
     | Some u \<Rightarrow> if ua_Status u \<noteq> UserActive then Inl (StoreError ''user is not active'') else Inr (ua_ID u, db))"

definition bootstrap_replace :: "bool \<Rightarrow> string \<Rightarrow> string \<Rightarrow> unit members_cmd" where
  "bootstrap_replace replace userID reason db = (case active_of userID db of
     None \<Rightarrow> Inr ((), db)
   | Some m \<Rightarrow> if \<not> replace then Inl (StoreError ''user already holds an active membership'')
       else revoke_memberships (\<lambda>n. mm_UserID n = userID \<and> mm_RevokedAt n = None) userID reason db)"

definition grantBootstrapMembership ::
  "identity_store \<Rightarrow> role \<Rightarrow> string \<Rightarrow> string \<Rightarrow> string \<Rightarrow> bool \<Rightarrow> unit members_cmd" where
  \<comment> \<open>\<open>return nil\<close> on an unchanged role rolls the transaction back: the user it may have created is not kept, but
    such a user has no membership\<close>
  "grantBootstrapMembership S r email displayName reason replace =
    andThen (require (length displayName \<le> 120) (StoreError ''display name must be 1-120 characters'')) (\<lambda>_.
    let email = ToLower (st_Platform S) email in
    andThen (bootstrap_guard S r email) (\<lambda>_.
    andThen (bootstrap_user S displayName email) (\<lambda>userID db.
    if map_option mm_Role (active_of userID db) = Some r then Inr ((), db)
    else andThen (bootstrap_replace replace userID reason) (\<lambda>_.
         andThen (insert_membership userID r None) (\<lambda>_.
         members_audit [] (''membership.bootstrap_'' @ role_string r) userID reason)) db)))"

end
