(* ===== verification/Members_Rules.thy ===== *)
theory Members_Rules
  imports Members_Admin
begin

text \<open>
  What every operation on the members keeps: the keys of the tables (\<open>members_wf\<close>), that rows stay and what has ended
  stays ended (\<open>members_later\<close>), who vouched for a role (\<open>vouched\<close>), and the step relation over all operations.
\<close>

section \<open>The keys of the tables\<close>

definition one_active :: "membership_row list \<Rightarrow> bool" where
  "one_active ms \<longleftrightarrow> (\<forall>m \<in> set ms. \<forall>n \<in> set ms.
     mm_UserID m = mm_UserID n \<and> mm_RevokedAt m = None \<and> mm_RevokedAt n = None \<longrightarrow> m = n)"

definition members_wf :: "members_db \<Rightarrow> bool" where
  "members_wf db \<longleftrightarrow>
     distinct (map ua_ID (me_Users db))
   \<and> distinct (map mm_ID (me_Memberships db)) \<and> one_active (me_Memberships db)
   \<and> distinct (map sn_ID (me_Sessions db)) \<and> distinct (map sn_TokenHash (me_Sessions db))
   \<and> distinct (map iv_ID (me_Invitations db)) \<and> distinct (map iv_TokenHash (me_Invitations db))"

section \<open>Rows that stay\<close>

definition rows_kept :: "('a \<Rightarrow> 'a \<Rightarrow> bool) \<Rightarrow> 'a list \<Rightarrow> 'a list \<Rightarrow> bool" where
  "rows_kept P xs ys \<longleftrightarrow> (\<forall>x \<in> set xs. \<exists>y \<in> set ys. P x y)"

lemma rows_kept_refl: "(\<And>x. P x x) \<Longrightarrow> rows_kept P xs xs"
  by (auto simp: rows_kept_def)

lemma rows_kept_trans:
  "rows_kept P xs ys \<Longrightarrow> rows_kept P ys zs \<Longrightarrow> (\<And>x y z. P x y \<Longrightarrow> P y z \<Longrightarrow> P x z) \<Longrightarrow> rows_kept P xs zs"
  unfolding rows_kept_def by meson

lemma rows_kept_append: "(\<And>x. P x x) \<Longrightarrow> rows_kept P xs (xs @ ys)"
  by (auto simp: rows_kept_def)

lemma rows_kept_map: "(\<And>x. P x (f x)) \<Longrightarrow> rows_kept P xs (map f xs)"
  by (auto simp: rows_kept_def)

definition membership_goes_on :: "membership_row \<Rightarrow> membership_row \<Rightarrow> bool" where
  "membership_goes_on m n \<longleftrightarrow> mm_ID n = mm_ID m \<and> mm_UserID n = mm_UserID m \<and> mm_Role n = mm_Role m
     \<and> mm_GrantedBy n = mm_GrantedBy m \<and> (mm_RevokedAt m \<noteq> None \<longrightarrow> mm_RevokedAt n \<noteq> None)"

definition session_goes_on :: "session_row \<Rightarrow> session_row \<Rightarrow> bool" where
  "session_goes_on s t \<longleftrightarrow> sn_ID t = sn_ID s \<and> sn_TokenHash t = sn_TokenHash s \<and> sn_UserID t = sn_UserID s
     \<and> (sn_RevokedAt s \<noteq> None \<longrightarrow> sn_RevokedAt t \<noteq> None)"

definition invitation_goes_on :: "invitation_row \<Rightarrow> invitation_row \<Rightarrow> bool" where
  "invitation_goes_on r q \<longleftrightarrow> iv_ID q = iv_ID r \<and> iv_TokenHash q = iv_TokenHash r \<and> iv_Role q = iv_Role r
     \<and> iv_IssuedBy q = iv_IssuedBy r \<and> (\<not> open_invitation r \<longrightarrow> \<not> open_invitation q)"

lemmas goes_on_defs = membership_goes_on_def session_goes_on_def invitation_goes_on_def

definition members_later :: "members_db \<Rightarrow> members_db \<Rightarrow> bool" where
  "members_later db db' \<longleftrightarrow>
     rows_kept (\<lambda>u w. ua_ID w = ua_ID u) (me_Users db) (me_Users db')
   \<and> rows_kept membership_goes_on (me_Memberships db) (me_Memberships db')
   \<and> rows_kept session_goes_on (me_Sessions db) (me_Sessions db')
   \<and> rows_kept invitation_goes_on (me_Invitations db) (me_Invitations db')"

definition members_keep :: "members_db \<Rightarrow> members_db \<Rightarrow> bool" where
  "members_keep db db' \<longleftrightarrow> (members_wf db \<longrightarrow> members_wf db') \<and> members_later db db'"

lemma members_later_refl: "members_later db db"
  by (simp add: members_later_def rows_kept_refl goes_on_defs)

lemma members_later_trans: "members_later db db' \<Longrightarrow> members_later db' db'' \<Longrightarrow> members_later db db''"
  unfolding members_later_def
  by (auto elim!: rows_kept_trans simp: goes_on_defs)

interpretation members: tx_relation members_keep
  by unfold_locales (auto simp: members_keep_def members_later_refl intro: members_later_trans)

lemmas members_rules = members.keeps_ret members.keeps_throw members.keeps_require members.keeps_query
  members.keeps_andThen members.keeps_each keeps_if keeps_case_option keeps_case_sum keeps_case_prod keeps_Let

section \<open>Statements\<close>

lemma rows_same_keep:
  assumes "map ua_ID (me_Users db') = map ua_ID (me_Users db)" "me_Memberships db' = me_Memberships db"
    "me_Sessions db' = me_Sessions db" "me_Invitations db' = me_Invitations db"
  shows "members_keep db db'"
proof -
  have "set (map ua_ID (me_Users db')) = set (map ua_ID (me_Users db))" using assms(1) by simp
  then have "rows_kept (\<lambda>u w. ua_ID w = ua_ID u) (me_Users db) (me_Users db')"
    unfolding rows_kept_def by (metis (mono_tags, lifting) imageE image_eqI list.set_map)
  then show ?thesis
    using assms by (simp add: members_keep_def members_wf_def members_later_def rows_kept_refl goes_on_defs)
qed

lemma keep_exec: "(\<And>db. members_keep db (f db)) \<Longrightarrow> keeps members_keep (exec f)"
  by (auto simp: keeps_def cmd_simps)

lemma keep_uuid: "keeps members_keep (cast_uuid e s)" "keeps members_keep gen_random_uuid"
  by (auto simp: keeps_def cmd_simps members.R_refl intro: rows_same_keep)

lemma keep_audit: "keeps members_keep (members_audit actor action target reason)"
  by (auto simp: keeps_def members_audit_def split: if_split_asm intro: rows_same_keep)

lemma keep_set_user: "(\<And>u. ua_ID (f u) = ua_ID u) \<Longrightarrow> keeps members_keep (set_user i f)"
  by (auto simp: keeps_def set_user_def split: if_split_asm intro!: rows_same_keep)

lemma keep_insert_user: "keeps members_keep (insert_user S n e c)"
  by (auto simp: keeps_def insert_user_def cmd_simps members_keep_def members_wf_def members_later_def user_constraints_def
      Let_def rows_kept_refl rows_kept_append goes_on_defs split: if_split_asm)

lemma keep_authenticated: "members_keep db (authenticated v db)"
  by (rule rows_same_keep) (simp_all add: authenticated_def)

lemma keep_record_authentication: "keeps members_keep (record_authentication S v)"
  by (auto simp: keeps_def record_authentication_def keep_authenticated split: if_split_asm)

lemma keep_link_identity: "keeps members_keep (link_identity S u v)"
  unfolding link_identity_def
  apply (rule members.keeps_andThen, rule members.keeps_require)
  apply (clarsimp simp: keeps_def cmd_simps members.R_refl split: option.split_asm if_split_asm)
   apply (rule rows_same_keep; simp)
  apply (rule keep_authenticated)
  done

lemma keep_insert_membership: "keeps members_keep (insert_membership u r g)"
  by (auto simp: keeps_def insert_membership_def cmd_simps members_keep_def members_wf_def members_later_def
      membership_constraints_def one_active_def Let_def rows_kept_refl rows_kept_append goes_on_defs split: if_split_asm)

lemma one_active_revoke:
  assumes "one_active ms" "\<And>m. mm_RevokedAt (f m) \<noteq> None"
  shows "one_active (map (\<lambda>m. if b m then f m else m) ms)"
  unfolding one_active_def
proof (intro ballI impI)
  fix x y
  assume "x \<in> set (map (\<lambda>m. if b m then f m else m) ms)" "y \<in> set (map (\<lambda>m. if b m then f m else m) ms)"
    and same: "mm_UserID x = mm_UserID y \<and> mm_RevokedAt x = None \<and> mm_RevokedAt y = None"
  moreover have "(mm_RevokedAt (f m) = None) = False" for m using assms(2) by blast
  ultimately have "x \<in> set ms" "y \<in> set ms" by (auto simp del: not_None_eq)
  with same show "x = y" using assms(1) unfolding one_active_def by blast
qed

lemma keep_revoke_memberships: "keeps members_keep (revoke_memberships b actor reason)"
proof (rule keepsI)
  fix db db' and x :: unit
  assume "revoke_memberships b actor reason db = Inr (x, db')"
  then have db': "db' = db\<lparr>me_Memberships := map (\<lambda>m. if b m then revoked_row actor reason (me_Now db) m else m) (me_Memberships db)\<rparr>"
    by (simp add: revoke_memberships_def split: if_split_asm)
  have "map mm_ID (me_Memberships db') = map mm_ID (me_Memberships db)"
    by (simp add: db' revoked_row_def)
  moreover have "one_active (me_Memberships db')" if "one_active (me_Memberships db)"
    using one_active_revoke [OF that] by (simp add: db' revoked_row_def)
  moreover have "rows_kept membership_goes_on (me_Memberships db) (me_Memberships db')"
    unfolding db' by (simp add: rows_kept_map membership_goes_on_def revoked_row_def)
  ultimately show "members_keep db db'"
    unfolding members_keep_def members_wf_def members_later_def
    by (simp add: db' rows_kept_refl goes_on_defs del: map_map)
qed

lemma keep_insert_invitation: "keeps members_keep (insert_invitation S r)"
  by (auto simp: keeps_def insert_invitation_def members_keep_def members_wf_def members_later_def
      rows_kept_refl rows_kept_append goes_on_defs split: if_split_asm)

lemma keep_set_invitation:
  assumes "\<And>r. invitation_goes_on r (f r)"
  shows "members_keep db (set_invitation b f db)"
proof -
  have "iv_ID \<circ> (\<lambda>r. if b r then f r else r) = iv_ID" "iv_TokenHash \<circ> (\<lambda>r. if b r then f r else r) = iv_TokenHash"
    using assms by (auto simp: fun_eq_iff invitation_goes_on_def)
  moreover have "invitation_goes_on r (if b r then f r else r)" for r
    using assms by (simp add: invitation_goes_on_def)
  ultimately show ?thesis
    by (simp add: members_keep_def members_wf_def members_later_def set_invitation_def rows_kept_refl rows_kept_map
        membership_goes_on_def session_goes_on_def)
qed

lemma keep_mark_consumed: "keeps members_keep (mark_consumed i u)"
  by (auto simp: keeps_def mark_consumed_def invitation_goes_on_def open_invitation_def
      split: if_split_asm intro!: keep_set_invitation)

lemma keep_insert_session: "keeps members_keep (insertSession u d f)"
  unfolding insertSession_def
  by (rule members.keeps_andThen, rule keep_uuid, rule keeps_case_option, rule members.keeps_throw,
      rule members.keeps_andThen, rule keep_uuid)
    (auto simp: keeps_def Let_def members_keep_def members_wf_def members_later_def session_constraints_def drafted_row_def
      rows_kept_refl rows_kept_append goes_on_defs split: if_split_asm sum.split_asm)

lemma keep_set_session:
  assumes "\<And>r. session_goes_on r (f r)"
  shows "members_keep db (set_session b f db)"
proof -
  have "sn_ID \<circ> (\<lambda>r. if b r then f r else r) = sn_ID" "sn_TokenHash \<circ> (\<lambda>r. if b r then f r else r) = sn_TokenHash"
    using assms by (auto simp: fun_eq_iff session_goes_on_def)
  moreover have "session_goes_on r (if b r then f r else r)" for r
    using assms by (simp add: session_goes_on_def)
  ultimately show ?thesis
    by (simp add: members_keep_def members_wf_def members_later_def set_session_def rows_kept_refl rows_kept_map
        membership_goes_on_def invitation_goes_on_def)
qed

lemma keep_revoke_sessions: "keeps members_keep (revoke_sessions b t reason)"
  by (auto simp: keeps_def revoke_sessions_def session_goes_on_def split: if_split_asm intro!: keep_set_session)

lemmas keep_statements = keep_uuid keep_audit keep_set_user keep_insert_user keep_record_authentication keep_link_identity
  keep_insert_membership keep_revoke_memberships keep_insert_invitation keep_mark_consumed keep_insert_session
  keep_revoke_sessions

end
