(* ===== verification/Members_Steps.thy ===== *)
theory Members_Steps
  imports Members_Rules
begin

text \<open>
  The operations of \<open>internal/identitypg\<close> as steps: each keeps the keys of the tables and the rows that are there
  (\<open>members_keep\<close>), each role that is granted is vouched for, and an active owner remains.
\<close>

section \<open>Every operation keeps the tables\<close>

lemma keep_resolve: "keeps members_keep (resolveApprovedIdentity S v)"
  unfolding resolveApprovedIdentity_def [abs_def]
  by (rule keeps_state | intro members_rules keep_statements)+

lemma keep_find_invitation: "keeps members_keep (find_invitation S v tok)"
  unfolding find_invitation_def by (intro members_rules)

lemma keep_invited_user: "keeps members_keep (invited_user S v)"
  unfolding invited_user_def [abs_def]
  by (rule keeps_state keep_statements members.R_refl | simp only: if_distribR)+

lemma keep_consume: "keeps members_keep (consumeInvitation S v tok)"
  unfolding consumeInvitation_def by (intro members_rules keep_statements keep_find_invitation keep_invited_user)

lemma keep_admit: "keeps members_keep (admitIdentity S v tok)"
  by (rule keepsI) (auto simp: admitIdentity_def split: sum.split_asm if_split_asm
    dest: keepsD [OF keep_resolve] keepsD [OF keep_consume])

lemma keep_sessions:
  "keeps members_keep (createSessionForIdentity S v d)"
  "keeps members_keep (createSessionForInvitedIdentity S v d tok)"
  "keeps members_keep (useSession h t)" "keeps members_keep (rotateSession h d t reason)"
  unfolding createSessionForIdentity_def createSessionForInvitedIdentity_def useSession_def rotateSession_def findSession_def
  by (intro members_rules keep_statements keep_resolve keep_admit keep_exec keep_set_session; simp add: session_goes_on_def)+

lemma keep_membership:
  "keeps members_keep (issueInvitation S actor r email ttl random)" "keeps members_keep (revokeInvitation actor i)"
  "keeps members_keep (changeMemberRole actor target r reason)" "keeps members_keep (revokeMember actor target reason)"
  "keeps members_keep (setAutoApproveLimit actor target c)" "keeps members_keep (setCreditLimit actor target k)"
proof -
  note defs = activeRole_def requireOwnerTx_def load_membership_def requireStaffRole_def not_last_owner_def
  have new: "keeps members_keep (new_invitation S tok a r email ttl)" for tok a
    unfolding new_invitation_def
    by (rule members.keeps_andThen, rule keep_uuid) (auto simp: keeps_def dest: keepsD [OF keep_insert_invitation])
  show "keeps members_keep (issueInvitation S actor r email ttl random)"
    unfolding issueInvitation_def defs by (intro members_rules keep_statements new)
  show "keeps members_keep (changeMemberRole actor target r reason)" "keeps members_keep (revokeMember actor target reason)"
    unfolding changeMemberRole_def revokeMember_def defs by (intro members_rules keep_statements)+
  show "keeps members_keep (setAutoApproveLimit actor target c)" "keeps members_keep (setCreditLimit actor target k)"
    unfolding setAutoApproveLimit_def setCreditLimit_def change_limit_def defs
    by (intro members_rules keep_statements; simp)+
  show "keeps members_keep (revokeInvitation actor i)"
    unfolding revokeInvitation_def defs
    by (rule members.keeps_andThen members_rules keep_uuid)+
      (auto simp: keeps_def Let_def split: if_split_asm intro!: keep_set_invitation
        simp: invitation_goes_on_def open_invitation_def)
qed

lemma keep_revoke_session: "members_keep db (fst (Store_RevokeSession h t reason db))"
  by (auto simp: Store_RevokeSession_def members.R_refl split: sum.split dest: keepsD [OF keep_revoke_sessions])

lemma keep_bootstrap: "keeps members_keep (grantBootstrapMembership S r email name reason replace)"
proof -
  have user: "keeps members_keep (bootstrap_user S name e)" for e
    unfolding bootstrap_user_def [abs_def] by (rule keeps_state keep_statements members.R_refl)+
  have repl: "keeps members_keep (bootstrap_replace replace u reason)" for u
    unfolding bootstrap_replace_def [abs_def] by (rule keeps_state keep_statements members.R_refl)+
  have whole: "keeps members_keep (\<lambda>db. if map_option mm_Role (active_of u db) = Some r then Inr ((), db)
      else andThen (bootstrap_replace replace u reason) (\<lambda>_. andThen (insert_membership u r None)
      (\<lambda>_. members_audit [] (''membership.bootstrap_'' @ role_string r) u reason)) db)" for u
    by (rule keeps_state members.R_refl members_rules repl keep_statements)+
  show ?thesis
    unfolding grantBootstrapMembership_def bootstrap_guard_def Let_def
    by (intro members_rules user whole)
qed

section \<open>Steps\<close>

lemma fst_as_answer: "fst (as_answer m db) = snd (run_tx m db)"
  by (simp add: as_answer_def split: prod.split)

inductive members_step :: "identity_store \<Rightarrow> members_db \<Rightarrow> members_db \<Rightarrow> bool" for S where
  sign_in: "members_step S db (fst (CreateSessionForIdentity (pg_store S) v d db))"
| sign_in_invited: "members_step S db (fst (CreateSessionForInvitedIdentity (pg_store S) v d tok db))"
| session_used: "members_step S db (fst (UseSession (pg_store S) h t db))"
| session_rotated: "members_step S db (fst (RotateSession (pg_store S) h d t reason db))"
| session_revoked: "members_step S db (fst (RevokeSession (pg_store S) h t reason db))"
| invitation_issued: "members_step S db (snd (run_tx (issueInvitation S actor r email ttl random) db))"
| invitation_revoked: "members_step S db (snd (run_tx (revokeInvitation actor i) db))"
| role_changed: "members_step S db (snd (run_tx (changeMemberRole actor target r reason) db))"
| member_revoked: "members_step S db (snd (run_tx (revokeMember actor target reason) db))"
| auto_limit_set: "members_step S db (snd (run_tx (setAutoApproveLimit actor target c) db))"
| credit_limit_set: "members_step S db (snd (run_tx (setCreditLimit actor target k) db))"
| time_passes: "\<not> Before t (me_Now db) \<Longrightarrow> members_step S db (db\<lparr>me_Now := t\<rparr>)"

abbreviation members_run :: "identity_store \<Rightarrow> members_db \<Rightarrow> members_db \<Rightarrow> bool" where
  "members_run S \<equiv> (members_step S)\<^sup>*\<^sup>*"

lemmas keep_operations = keep_sessions keep_membership

lemma step_keep: "members_step S db db' \<Longrightarrow> members_keep db db'"
  by (induction rule: members_step.induct)
    (simp_all add: pg_store_def fst_as_answer members.run_tx_keeps keep_operations keep_revoke_session rows_same_keep)

lemma run_keep: "members_run S db db' \<Longrightarrow> members_keep db db'"
  by (induction rule: rtranclp_induct) (auto intro: members.R_refl members.R_trans step_keep)

definition members_empty :: "go_time \<Rightarrow> (nat \<Rightarrow> nat \<Rightarrow> 8 word) \<Rightarrow> members_db" where
  "members_empty now' random = \<lparr>me_Users = [], me_Identities = [], me_Memberships = [], me_Invitations = [],
     me_Sessions = [], me_Audit = [], me_Now = now', me_Random = random, me_Draws = 0\<rparr>"

inductive members_reachable :: "identity_store \<Rightarrow> members_db \<Rightarrow> bool" for S where
  fresh: "members_reachable S (members_empty now' random)"
| bootstrapped: "members_reachable S db \<Longrightarrow>
    members_reachable S (snd (run_tx (grantBootstrapMembership S r email name reason replace) db))"
| stepped: "members_reachable S db \<Longrightarrow> members_step S db db' \<Longrightarrow> members_reachable S db'"

lemma reachable_wf: "members_reachable S db \<Longrightarrow> members_wf db"
proof (induction rule: members_reachable.induct)
  case (fresh now' random)
  then show ?case by (simp add: members_empty_def members_wf_def one_active_def)
next
  case (bootstrapped db r email name reason replace)
  then show ?case using members.run_tx_keeps [OF keep_bootstrap] by (simp add: members_keep_def)
next
  case (stepped db db')
  then show ?case using step_keep by (auto simp: members_keep_def)
qed

lemma reachable_run: "members_run S db db' \<Longrightarrow> members_reachable S db \<Longrightarrow> members_reachable S db'"
  by (induction rule: rtranclp_induct) (auto intro: members_reachable.stepped)

end
