(* ===== verification/Members_Roles.thy ===== *)
theory Members_Roles
  imports Members_Steps
begin

text \<open>
  Who holds which role: an active owner remains (\<open>has_owner\<close>), and every role that was granted was granted by somebody
  who could grant it (\<open>vouched\<close>).
\<close>

section \<open>Statements that leave roles alone\<close>

definition grants_of :: "members_db \<Rightarrow> (string \<times> role \<times> string option) list" where
  "grants_of db = map (\<lambda>m. (mm_UserID m, mm_Role m, mm_GrantedBy m)) (me_Memberships db)"

definition offers_of :: "members_db \<Rightarrow> (role \<times> string) list" where
  "offers_of db = map (\<lambda>r. (iv_Role r, iv_IssuedBy r)) (me_Invitations db)"

definition same_roles :: "members_db \<Rightarrow> members_db \<Rightarrow> bool" where
  "same_roles db db' \<longleftrightarrow> me_Memberships db' = me_Memberships db \<and> offers_of db' = offers_of db"

interpretation still: tx_relation same_roles
  by unfold_locales (auto simp: same_roles_def)

lemmas still_rules = still.keeps_ret still.keeps_throw still.keeps_require still.keeps_query still.keeps_andThen
  keeps_if keeps_case_option keeps_case_sum keeps_case_prod keeps_Let

lemma still_exec: "(\<And>db. same_roles db (f db)) \<Longrightarrow> keeps same_roles (exec f)"
  by (auto simp: keeps_def cmd_simps)

lemma still_statements:
  "keeps same_roles (cast_uuid err s)" "keeps same_roles gen_random_uuid"
  "keeps same_roles (members_audit actor action target reason)" "keeps same_roles (set_user i f)"
  "keeps same_roles (insert_user S n e c)" "keeps same_roles (record_authentication S v)"
  "keeps same_roles (revoke_sessions b t reason)" "keeps same_roles (mark_consumed j u)"
  by (auto simp: keeps_def same_roles_def offers_of_def cmd_simps members_audit_def set_user_def insert_user_def
      record_authentication_def authenticated_def revoke_sessions_def set_session_def mark_consumed_def set_invitation_def
      Let_def split: if_split_asm)

lemma still_link_identity: "keeps same_roles (link_identity S u v)"
  by (auto simp: link_identity_def keeps_def same_roles_def offers_of_def cmd_simps authenticated_def
      split: option.split_asm if_split_asm)

lemma still_insert_session: "keeps same_roles (insertSession u d f)"
  by (auto simp: insertSession_def keeps_def same_roles_def offers_of_def cmd_simps Let_def throw_def
      split: option.split_asm if_split_asm sum.split_asm)

lemma still_resolve: "keeps same_roles (resolveApprovedIdentity S v)"
  unfolding resolveApprovedIdentity_def [abs_def]
  by (rule keeps_state | intro still_rules still_statements still_link_identity)+

lemma still_invited_user: "keeps same_roles (invited_user S v)"
  unfolding invited_user_def [abs_def] by (rule keeps_state still_statements still.R_refl | simp only: if_distribR)+

lemma still_operations:
  "keeps same_roles (createSessionForIdentity S v d)" "keeps same_roles (useSession h t)"
  "keeps same_roles (rotateSession h d t reason)" "keeps same_roles (revokeInvitation actor i)"
  "keeps same_roles (setAutoApproveLimit actor target c)" "keeps same_roles (setCreditLimit actor target k)"
proof -
  note defs = activeRole_def requireStaffRole_def findSession_def
  note rules = still_rules still_statements still_resolve still_insert_session
  show "keeps same_roles (createSessionForIdentity S v d)" "keeps same_roles (rotateSession h d t reason)"
    unfolding createSessionForIdentity_def rotateSession_def defs by (intro rules)+
  show "keeps same_roles (useSession h t)"
    unfolding useSession_def defs by (intro rules still_exec) (simp add: same_roles_def set_session_def offers_of_def)
  show "keeps same_roles (setAutoApproveLimit actor target c)" "keeps same_roles (setCreditLimit actor target k)"
    unfolding setAutoApproveLimit_def setCreditLimit_def change_limit_def defs by (intro rules)+
  show "keeps same_roles (revokeInvitation actor i)"
    unfolding revokeInvitation_def defs
    by (rule still_rules still_statements)+
      (auto simp: keeps_def Let_def same_roles_def offers_of_def set_invitation_def split: if_split_asm)
qed

lemma still_revoke_session: "same_roles db (fst (Store_RevokeSession h t reason db))"
  by (auto simp: Store_RevokeSession_def still.R_refl split: sum.split dest: keepsD [OF still_statements(7)])

section \<open>Statements that change them\<close>

lemma insert_membership_Inr:
  assumes "insert_membership u r g db = Inr (x, db')"
  obtains m where "me_Memberships db' = me_Memberships db @ [m]" "mm_UserID m = u" "mm_Role m = r" "mm_GrantedBy m = g"
    "mm_RevokedAt m = None" "\<forall>n \<in> set (me_Memberships db). mm_UserID n = u \<longrightarrow> mm_RevokedAt n \<noteq> None"
    "offers_of db' = offers_of db" "me_Users db' = me_Users db" "me_Identities db' = me_Identities db"
    "me_Invitations db' = me_Invitations db"
  using assms by (auto simp: insert_membership_def cmd_simps Let_def membership_constraints_def offers_of_def split: if_split_asm)

lemma insert_invitation_Inr:
  assumes "insert_invitation S r db = Inr (x, db')"
  shows "me_Memberships db' = me_Memberships db" "offers_of db' = offers_of db @ [(iv_Role r, iv_IssuedBy r)]"
  using assms by (auto simp: insert_invitation_def offers_of_def split: if_split_asm)

lemma revoke_memberships_Inr:
  assumes "revoke_memberships b a reason db = Inr (x, db')"
  shows "me_Memberships db' = map (\<lambda>m. if b m then revoked_row a reason (me_Now db) m else m) (me_Memberships db)"
    "grants_of db' = grants_of db" "offers_of db' = offers_of db"
  using assms by (auto simp: revoke_memberships_def grants_of_def offers_of_def revoked_row_def split: if_split_asm)

lemma active_of_Some:
  assumes "active_of u db = Some m"
  shows "m \<in> set (me_Memberships db)" "mm_UserID m = u" "mm_RevokedAt m = None"
  using first_row_Some [OF assms [unfolded active_of_def]] by auto

lemma activeRole_Inr:
  "activeRole u db = Inr (r, db') \<longleftrightarrow> db' = db \<and> (\<exists>i m. pg_uuid u = Some i \<and> active_of i db = Some m \<and> r = mm_Role m)"
  by (auto simp: activeRole_def cmd_simps split: option.split_asm)

lemma requireOwner_Inr:
  "requireOwnerTx u db = Inr (x, db') \<longleftrightarrow> db' = db \<and> (\<exists>i m. pg_uuid u = Some i \<and> active_of i db = Some m \<and> mm_Role m = RoleOwner)"
  by (auto simp: requireOwnerTx_def cmd_simps split: option.split_asm if_split_asm)

lemma find_invitation_Inr:
  assumes "find_invitation S v tok db = Inr (offer, db')"
  shows "offer \<in> set (me_Invitations db)" "iv_TokenHash offer = hashInvitationToken (st_Platform S) tok" "open_invitation offer"
    "Before (me_Now db) (iv_ExpiresAt offer)" "db' = db"
proof -
  have "first_row (filter (\<lambda>r. iv_TokenHash r = hashInvitationToken (st_Platform S) tok \<and> open_invitation r
      \<and> Before (me_Now db) (iv_ExpiresAt r)) (me_Invitations db)) = Some offer" and "db' = db"
    using assms by (auto simp: find_invitation_def cmd_simps split: option.split_asm if_split_asm)
  then show "offer \<in> set (me_Invitations db)" "iv_TokenHash offer = hashInvitationToken (st_Platform S) tok" "open_invitation offer"
    "Before (me_Now db) (iv_ExpiresAt offer)" "db' = db"
    by (auto dest: first_row_Some)
qed

lemma not_last_owner_Inr:
  "not_last_owner r msg db = Inr (x, db') \<longleftrightarrow> db' = db \<and> (r = RoleOwner \<longrightarrow> 1 < owner_count db)"
  by (auto simp: not_last_owner_def cmd_simps split: if_split_asm)

lemma load_membership_Inr: "load_membership t db = Inr (m, db') \<longleftrightarrow> db' = db \<and> active_of t db = Some m"
  by (auto simp: load_membership_def cmd_simps split: option.split_asm)

lemma changeMemberRole_Inr:
  assumes "changeMemberRole actor target r reason db = Inr (x, db')"
  obtains (same) "db' = db"
  | (changed) a t o' m db1 db2 where "pg_uuid actor = Some a" "active_of a db = Some o'" "mm_Role o' = RoleOwner"
      "pg_uuid target = Some t" "active_of t db = Some m" "mm_Role m \<noteq> r" "mm_Role m = RoleOwner \<longrightarrow> 1 < owner_count db"
      "revoke_memberships (\<lambda>n. mm_ID n = mm_ID m) a reason db = Inr ((), db1)"
      "insert_membership t r (Some a) db1 = Inr ((), db2)"
      "members_audit a ''membership.role_changed'' t reason db2 = Inr ((), db')"
  using assms
  by (auto simp: changeMemberRole_def cmd_simps requireOwner_Inr load_membership_Inr not_last_owner_Inr split: if_split_asm)

lemma revokeMember_Inr:
  assumes "revokeMember actor target reason db = Inr (x, db')"
  obtains a t m db1 where "pg_uuid target = Some t" "active_of t db = Some m"
      "mm_Role m = RoleOwner \<longrightarrow> 1 < owner_count db"
      "revoke_memberships (\<lambda>n. mm_ID n = mm_ID m) a reason db = Inr ((), db1)"
      "members_audit a ''membership.revoked'' t reason db1 = Inr ((), db')"
  using assms
  by (auto simp: revokeMember_def cmd_simps requireOwner_Inr load_membership_Inr not_last_owner_Inr)

lemma consumeInvitation_Inr:
  assumes "consumeInvitation S v tok db = Inr (p, db')"
  obtains offer u db1 db2 db3 n db4 where "find_invitation S v tok db = Inr (offer, db)" "invited_user S v db = Inr (u, db1)"
    "insert_membership u (iv_Role offer) (Some (iv_IssuedBy offer)) db1 = Inr ((), db2)"
    "mark_consumed (iv_ID offer) u db2 = Inr ((), db3)" "link_identity S u v db3 = Inr (n, db4)"
    "members_audit (iv_IssuedBy offer) ''membership.invitation_consumed'' u ''accepted invite'' db4 = Inr ((), db')"
    "principalByUser u db' = Some p"
proof -
  obtain offer db0 where f: "find_invitation S v tok db = Inr (offer, db0)"
    using assms by (auto simp: consumeInvitation_def cmd_simps)
  then have db0: "db0 = db" by (rule find_invitation_Inr)
  show thesis
    using assms f db0 by (auto simp: consumeInvitation_def cmd_simps split: option.split_asm intro: that)
qed

end
