(* ===== verification/Members_Access.thy ===== *)
theory Members_Access
  imports Members_Roles
begin

text \<open>
  An active owner remains, and every role was granted by somebody who held one that may grant it: by rule induction over
  the steps of \<open>Members_Steps\<close>.
\<close>

section \<open>An owner remains\<close>

definition active_owner :: "membership_row \<Rightarrow> bool" where
  "active_owner m \<longleftrightarrow> mm_Role m = RoleOwner \<and> mm_RevokedAt m = None"

definition has_owner :: "members_db \<Rightarrow> bool" where
  "has_owner db \<longleftrightarrow> (\<exists>m \<in> set (me_Memberships db). active_owner m)"

lemma run_tx_owner:
  "has_owner db \<Longrightarrow> (\<And>x db1. m db = Inr (x, db1) \<Longrightarrow> has_owner db1) \<Longrightarrow> has_owner (snd (run_tx m db))"
  by (auto simp: run_tx_def split: sum.split)

lemma admitted_roles:
  assumes "createSessionForInvitedIdentity S v d tok db = Inr (x, db')"
  shows "same_roles db db' \<or> (\<exists>m offer. me_Memberships db' = me_Memberships db @ [m] \<and> offers_of db' = offers_of db
      \<and> offer \<in> set (me_Invitations db) \<and> mm_Role m = iv_Role offer \<and> mm_GrantedBy m = Some (iv_IssuedBy offer))"
proof -
  obtain p db1 s where a: "admitIdentity S v tok db = Inr (p, db1)" and i: "insertSession (u_ID (pr_User p)) d [] db1 = Inr (s, db')"
    using assms by (auto simp: createSessionForInvitedIdentity_def cmd_simps)
  have ses: "same_roles db1 db'" using keepsD [OF still_insert_session i] .
  show ?thesis
  proof (cases "resolveApprovedIdentity S v db")
    case (Inr r)
    then have "resolveApprovedIdentity S v db = Inr (p, db1)" using a by (simp add: admitIdentity_def)
    then show ?thesis using keepsD [OF still_resolve] ses still.R_trans by blast
  next
    case (Inl e)
    then have c: "consumeInvitation S v tok db = Inr (p, db1)" using a by (simp add: admitIdentity_def split: if_split_asm)
    obtain offer u d1 d2 d3 n d4 where st: "find_invitation S v tok db = Inr (offer, db)" "invited_user S v db = Inr (u, d1)"
      "insert_membership u (iv_Role offer) (Some (iv_IssuedBy offer)) d1 = Inr ((), d2)"
      "mark_consumed (iv_ID offer) u d2 = Inr ((), d3)" "link_identity S u v d3 = Inr (n, d4)"
      "members_audit (iv_IssuedBy offer) ''membership.invitation_consumed'' u ''accepted invite'' d4 = Inr ((), db1)"
      by (rule consumeInvitation_Inr [OF c]) (rule that; assumption)
    have "same_roles db d1" using keepsD [OF still_invited_user st(2)] .
    moreover have "same_roles d2 db1"
      using keepsD [OF still_statements(8) st(4)] keepsD [OF still_link_identity st(5)] keepsD [OF still_statements(3) st(6)]
      by (simp add: same_roles_def)
    moreover note ses
    ultimately have "me_Memberships d1 = me_Memberships db" "offers_of d1 = offers_of db"
      "me_Memberships db' = me_Memberships d2" "offers_of db' = offers_of d2"
      by (simp_all add: same_roles_def)
    moreover obtain m where "me_Memberships d2 = me_Memberships d1 @ [m]" "mm_Role m = iv_Role offer"
      "mm_GrantedBy m = Some (iv_IssuedBy offer)" "offers_of d2 = offers_of d1"
      by (rule insert_membership_Inr [OF st(3)]) (rule that; assumption)
    ultimately show ?thesis using find_invitation_Inr(1) [OF st(1)] by auto
  qed
qed

lemma other_owner:
  assumes "members_wf db" "active_of t db = Some m" "mm_Role m = RoleOwner \<longrightarrow> 1 < owner_count db" "has_owner db"
  obtains n where "n \<in> set (me_Memberships db)" "active_owner n" "mm_ID n \<noteq> mm_ID m"
proof -
  let ?L = "filter active_owner (me_Memberships db)"
  have m: "m \<in> set (me_Memberships db)" "mm_RevokedAt m = None" using active_of_Some [OF assms(2)] by blast+
  have ids: "n = m" if "n \<in> set (me_Memberships db)" "mm_ID n = mm_ID m" for n
    using assms(1) m(1) that by (auto simp: members_wf_def distinct_map inj_on_def)
  have "\<exists>n \<in> set ?L. n \<noteq> m"
  proof (cases "active_owner m")
    case True
    then have "mm_Role m = RoleOwner" by (simp add: active_owner_def)
    moreover have "owner_count db = length ?L" by (simp add: owner_count_def active_owner_def [abs_def])
    ultimately have "1 < length ?L" using assms(3) by simp
    moreover have "distinct ?L" using assms(1) by (simp add: members_wf_def distinct_map)
    ultimately have "1 < card (set ?L)" by (simp only: distinct_card)
    then show ?thesis by (metis card_1_singleton_iff card_mono finite.emptyI finite.insertI insertI1 less_le_not_le subsetI One_nat_def)
  next
    case False
    then show ?thesis using assms(4) by (auto simp: has_owner_def)
  qed
  then obtain n where "n \<in> set (me_Memberships db)" "active_owner n" "n \<noteq> m" by auto
  then show thesis using ids that by blast
qed

lemma revoke_other_owner:
  assumes "members_wf db" "has_owner db" "active_of t db = Some m" "mm_Role m = RoleOwner \<longrightarrow> 1 < owner_count db"
    and "revoke_memberships (\<lambda>n. mm_ID n = mm_ID m) a reason db = Inr ((), db1)"
  shows "has_owner db1"
proof -
  obtain n where "n \<in> set (me_Memberships db)" "active_owner n" "mm_ID n \<noteq> mm_ID m"
    using other_owner [OF assms(1,3,4,2)] .
  then show ?thesis
    using revoke_memberships_Inr(1) [OF assms(5)] by (force simp: has_owner_def)
qed

lemma same_owner: "same_roles db db' \<Longrightarrow> has_owner db \<Longrightarrow> has_owner db'"
  by (simp add: same_roles_def has_owner_def)

lemma insert_owner: "insert_membership u r g db = Inr (x, db') \<Longrightarrow> has_owner db \<Longrightarrow> has_owner db'"
  by (erule insert_membership_Inr) (simp add: has_owner_def)

lemma issue_roles:
  assumes "issueInvitation S actor r email ttl random db = Inr (x, db')"
  obtains a m where "me_Memberships db' = me_Memberships db" "offers_of db' = offers_of db @ [(r, a)]" "r = RoleMember \<or> r = RoleAdmin"
    "active_of a db = Some m" "mm_Role m = RoleAdmin \<or> mm_Role m = RoleOwner" "r = RoleAdmin \<longrightarrow> mm_Role m = RoleOwner"
proof -
  obtain bytes i m where "active_of i db = Some m" "mm_Role m = RoleAdmin \<or> mm_Role m = RoleOwner" "r = RoleMember \<or> r = RoleAdmin"
    "r = RoleAdmin \<longrightarrow> mm_Role m = RoleOwner" "new_invitation S (EncodeToString bytes) i r email ttl db = Inr ((), db')"
    using assms by (auto simp: issueInvitation_def cmd_simps activeRole_Inr throw_def split: option.split_asm)
  then show thesis
    by (intro that [of i m]) (auto simp: new_invitation_def cmd_simps insert_invitation_def offers_of_def split: if_split_asm)
qed

lemma step_owner:
  assumes "members_step S db db'" "members_wf db" "has_owner db"
  shows "has_owner db'"
  using assms
proof (induction rule: members_step.induct)
  case (sign_in db v d)
  then show ?case
    unfolding pg_store_def store.simps fst_as_answer
    by (intro run_tx_owner) (auto intro: same_owner dest: keepsD [OF still_operations(1)])
next
  case (sign_in_invited db v d tok)
  then show ?case
    unfolding pg_store_def store.simps fst_as_answer
    by (intro run_tx_owner) (auto simp: has_owner_def same_roles_def dest!: admitted_roles)
next
  case (session_used db h t)
  then show ?case
    unfolding pg_store_def store.simps fst_as_answer
    by (intro run_tx_owner) (auto intro: same_owner dest: keepsD [OF still_operations(2)])
next
  case (session_rotated db h d t reason)
  then show ?case
    unfolding pg_store_def store.simps fst_as_answer
    by (intro run_tx_owner) (auto intro: same_owner dest: keepsD [OF still_operations(3)])
next
  case (session_revoked db h t reason)
  then show ?case
    unfolding pg_store_def store.simps using still_revoke_session by (blast intro: same_owner)
next
  case (invitation_issued db actor r email ttl random)
  then show ?case
    by (intro run_tx_owner) (auto elim!: issue_roles simp: has_owner_def)
next
  case (role_changed db actor target r reason)
  show ?case
  proof (rule run_tx_owner)
    show "has_owner db" by fact
    fix x db1
    assume c: "changeMemberRole actor target r reason db = Inr (x, db1)"
    show "has_owner db1"
      by (rule changeMemberRole_Inr [OF c])
        (use role_changed in \<open>blast intro: same_owner [OF keepsD [OF still_statements(3)]] insert_owner revoke_other_owner\<close>)+
  qed
next
  case (member_revoked db actor target reason)
  show ?case
  proof (rule run_tx_owner)
    show "has_owner db" by fact
    fix x db1
    assume c: "revokeMember actor target reason db = Inr (x, db1)"
    show "has_owner db1"
      by (rule revokeMember_Inr [OF c])
        (use member_revoked in \<open>blast intro: same_owner [OF keepsD [OF still_statements(3)]] revoke_other_owner\<close>)
  qed
next
  case (time_passes t db)
  then show ?case by (simp add: has_owner_def)
qed (intro run_tx_owner, auto intro: same_owner dest: keepsD [OF still_operations(4)] keepsD [OF still_operations(5)]
    keepsD [OF still_operations(6)])+

lemma run_owner: "members_run S db db' \<Longrightarrow> members_wf db \<Longrightarrow> has_owner db \<Longrightarrow> has_owner db'"
proof (induction rule: rtranclp_induct)
  case (step y z)
  then show ?case using step_owner run_keep by (auto simp: members_keep_def)
qed

section \<open>Who vouched for a role\<close>

definition vouchers :: "role \<Rightarrow> role set" where
  "vouchers r = (if r = RoleMember then {RoleAdmin, RoleOwner} else {RoleOwner})"

definition held :: "members_db \<Rightarrow> string \<Rightarrow> role set \<Rightarrow> bool" where
  \<comment> \<open>the user holds or held one of these roles\<close>
  "held db u R \<longleftrightarrow> (\<exists>(w, r, g) \<in> set (grants_of db). w = u \<and> r \<in> R)"

definition vouched :: "members_db \<Rightarrow> bool" where
  "vouched db \<longleftrightarrow> (\<forall>(u, r, g) \<in> set (grants_of db). \<forall>a. g = Some a \<longrightarrow> held db a (vouchers r))
     \<and> (\<forall>(r, a) \<in> set (offers_of db). held db a (vouchers r))"

lemma run_tx_vouched:
  "vouched db \<Longrightarrow> (\<And>x db1. m db = Inr (x, db1) \<Longrightarrow> vouched db1) \<Longrightarrow> vouched (snd (run_tx m db))"
  by (auto simp: run_tx_def split: sum.split)

lemma vouched_same: "grants_of db' = grants_of db \<Longrightarrow> offers_of db' = offers_of db \<Longrightarrow> vouched db' = vouched db"
  by (simp add: vouched_def held_def)

lemma same_roles_vouched: "same_roles db db' \<Longrightarrow> vouched db \<Longrightarrow> vouched db'"
  by (subst vouched_same [of db' db]) (simp_all add: same_roles_def grants_of_def)

lemma vouched_grant:
  assumes "vouched db" "me_Memberships db' = me_Memberships db @ [m]" "offers_of db' = offers_of db"
    and "\<forall>a. mm_GrantedBy m = Some a \<longrightarrow> held db a (vouchers (mm_Role m))"
  shows "vouched db'"
proof -
  have g: "grants_of db' = grants_of db @ [(mm_UserID m, mm_Role m, mm_GrantedBy m)]" by (simp add: grants_of_def assms(2))
  have "held db u R \<Longrightarrow> held db' u R" for u R by (auto simp: held_def g)
  then show ?thesis using assms(1,3,4) by (fastforce simp: vouched_def g)
qed

lemma insert_vouched:
  assumes "insert_membership u r g db = Inr (x, db')" "vouched db" "\<forall>a. g = Some a \<longrightarrow> held db a (vouchers r)"
  shows "vouched db'"
proof (rule insert_membership_Inr [OF assms(1)])
  fix m
  assume "me_Memberships db' = me_Memberships db @ [m]" "offers_of db' = offers_of db" "mm_Role m = r" "mm_GrantedBy m = g"
  then show ?thesis using assms(3) by (intro vouched_grant [OF assms(2)]) auto
qed

lemma active_held: "active_of a db = Some m \<Longrightarrow> mm_Role m \<in> R \<Longrightarrow> held db a R"
  unfolding held_def grants_of_def using active_of_Some [of a db m] by force

lemma offered_held: "vouched db \<Longrightarrow> offer \<in> set (me_Invitations db) \<Longrightarrow> held db (iv_IssuedBy offer) (vouchers (iv_Role offer))"
  by (auto simp: vouched_def offers_of_def)

lemma change_vouched:
  assumes "changeMemberRole actor target r reason db = Inr (x, db')" "vouched db"
  shows "vouched db'"
  using assms(1)
proof (cases rule: changeMemberRole_Inr)
  case same
  with assms(2) show ?thesis by simp
next
  case (changed a t o' m db1 db2)
  have g: "grants_of db1 = grants_of db" "offers_of db1 = offers_of db"
    using revoke_memberships_Inr [OF changed(8)] by blast+
  have "held db a {RoleOwner}" using active_held [OF changed(2)] changed(3) by simp
  then have "held db1 a (vouchers r)" by (auto simp: held_def g vouchers_def)
  moreover have "vouched db1" using assms(2) by (simp add: vouched_same [OF g])
  ultimately have "vouched db2" using insert_vouched [OF changed(9)] by blast
  then show ?thesis using same_roles_vouched [OF keepsD [OF still_statements(3) changed(10)]] by simp
qed

lemma revoke_vouched:
  assumes "revokeMember actor target reason db = Inr (x, db')" "vouched db"
  shows "vouched db'"
proof (rule revokeMember_Inr [OF assms(1)])
  fix a t m db1
  assume r: "revoke_memberships (\<lambda>n. mm_ID n = mm_ID m) a reason db = Inr ((), db1)"
    and w: "members_audit a ''membership.revoked'' t reason db1 = Inr ((), db')"
  have "vouched db1" using assms(2) by (simp add: vouched_same [OF revoke_memberships_Inr(2,3) [OF r]])
  then show ?thesis by (rule same_roles_vouched [OF keepsD [OF still_statements(3) w]])
qed

lemma issue_vouched:
  assumes "issueInvitation S actor r email ttl random db = Inr (x, db')" "vouched db"
  shows "vouched db'"
proof (rule issue_roles [OF assms(1)])
  fix a m
  assume i: "me_Memberships db' = me_Memberships db" "offers_of db' = offers_of db @ [(r, a)]" "r = RoleMember \<or> r = RoleAdmin"
    "active_of a db = Some m" "mm_Role m = RoleAdmin \<or> mm_Role m = RoleOwner" "r = RoleAdmin \<longrightarrow> mm_Role m = RoleOwner"
  have g: "grants_of db' = grants_of db" by (simp add: grants_of_def i(1))
  have "held db a (vouchers r)" using active_held [OF i(4)] i(3,5,6) by (auto simp: vouchers_def)
  then show ?thesis using assms(2) by (auto simp: vouched_def held_def g i(2))
qed

lemma admit_vouched:
  assumes "createSessionForInvitedIdentity S v d tok db = Inr (x, db')" "vouched db"
  shows "vouched db'"
  using admitted_roles [OF assms(1)]
proof
  assume "same_roles db db'"
  then show ?thesis using assms(2) by (rule same_roles_vouched)
next
  assume "\<exists>m offer. me_Memberships db' = me_Memberships db @ [m] \<and> offers_of db' = offers_of db
      \<and> offer \<in> set (me_Invitations db) \<and> mm_Role m = iv_Role offer \<and> mm_GrantedBy m = Some (iv_IssuedBy offer)"
  then show ?thesis using offered_held [OF assms(2)] vouched_grant [OF assms(2)] by auto
qed

lemma step_vouched:
  assumes "members_step S db db'" "vouched db"
  shows "vouched db'"
  using assms
proof (induction rule: members_step.induct)
  case (sign_in db v d)
  then show ?case
    unfolding pg_store_def store.simps fst_as_answer
    by (intro run_tx_vouched) (auto intro: same_roles_vouched dest: keepsD [OF still_operations(1)])
next
  case (sign_in_invited db v d tok)
  then show ?case
    unfolding pg_store_def store.simps fst_as_answer by (intro run_tx_vouched) (auto intro: admit_vouched)
next
  case (session_used db h t)
  then show ?case
    unfolding pg_store_def store.simps fst_as_answer
    by (intro run_tx_vouched) (auto intro: same_roles_vouched dest: keepsD [OF still_operations(2)])
next
  case (session_rotated db h d t reason)
  then show ?case
    unfolding pg_store_def store.simps fst_as_answer
    by (intro run_tx_vouched) (auto intro: same_roles_vouched dest: keepsD [OF still_operations(3)])
next
  case (session_revoked db h t reason)
  then show ?case
    unfolding pg_store_def store.simps using still_revoke_session by (blast intro: same_roles_vouched)
next
  case (time_passes t db)
  then show ?case by (subst vouched_same [of _ db]) (simp_all add: grants_of_def offers_of_def)
qed (intro run_tx_vouched, auto intro: same_roles_vouched issue_vouched change_vouched revoke_vouched
    dest: keepsD [OF still_operations(4)] keepsD [OF still_operations(5)] keepsD [OF still_operations(6)])+

lemma bootstrap_vouched:
  assumes "grantBootstrapMembership S r email name reason replace db = Inr (x, db')" "vouched db"
  shows "vouched db'"
proof -
  obtain email' u db1 where user: "bootstrap_user S name email' db = Inr (u, db1)" and
    rest: "db' = db1 \<or> (\<exists>db2 db3. bootstrap_replace replace u reason db1 = Inr ((), db2)
      \<and> insert_membership u r None db2 = Inr ((), db3)
      \<and> members_audit [] (''membership.bootstrap_'' @ role_string r) u reason db3 = Inr ((), db'))"
    using assms(1)
    by (auto simp: grantBootstrapMembership_def bootstrap_guard_def Let_def cmd_simps split: if_split_asm option.split_asm)
  have "same_roles db db1"
    using user by (auto simp: bootstrap_user_def still.R_refl split: option.split_asm if_split_asm dest: keepsD [OF still_statements(5)])
  then have v1: "vouched db1" using assms(2) by (rule same_roles_vouched)
  from rest show ?thesis
  proof
    assume "db' = db1" with v1 show ?thesis by simp
  next
    assume "\<exists>db2 db3. bootstrap_replace replace u reason db1 = Inr ((), db2)
      \<and> insert_membership u r None db2 = Inr ((), db3)
      \<and> members_audit [] (''membership.bootstrap_'' @ role_string r) u reason db3 = Inr ((), db')"
    then obtain db2 db3 where s: "bootstrap_replace replace u reason db1 = Inr ((), db2)"
      "insert_membership u r None db2 = Inr ((), db3)"
      "members_audit [] (''membership.bootstrap_'' @ role_string r) u reason db3 = Inr ((), db')" by blast
    have "grants_of db2 = grants_of db1 \<and> offers_of db2 = offers_of db1"
      using s(1) revoke_memberships_Inr(2,3)
      by (auto simp: bootstrap_replace_def split: option.split_asm if_split_asm)
    then have "vouched db2" using v1 vouched_same by blast
    then have "vouched db3" using insert_vouched [OF s(2)] by blast
    then show ?thesis using same_roles_vouched [OF keepsD [OF still_statements(3) s(3)]] by simp
  qed
qed

lemma reachable_vouched: "members_reachable S db \<Longrightarrow> vouched db"
proof (induction rule: members_reachable.induct)
  case (fresh now' random)
  then show ?case by (simp add: members_empty_def vouched_def grants_of_def offers_of_def)
next
  case (bootstrapped db r email name reason replace)
  then show ?case by (intro run_tx_vouched) (auto intro: bootstrap_vouched)
qed (rule step_vouched)

end
