(* ===== verification/Members_Sessions.thy ===== *)
theory Members_Sessions
  imports Members_Access Session_Service
begin

text \<open>
  The session service on its PostgreSQL store: who a token opens a session for, and what a revocation, a rotation, an
  invitation and a second identity do to later sign-ins.
\<close>

section \<open>Rows behind a session\<close>

lemma member_rows_iff:
  "(u, m) \<in> set (member_rows db) \<longleftrightarrow> u \<in> set (me_Users db) \<and> ua_Status u = UserActive \<and> m \<in> set (me_Memberships db)
     \<and> mm_UserID m = ua_ID u \<and> mm_RevokedAt m = None"
  by (auto simp: member_rows_def)

lemma member_rows_unique:
  assumes "members_wf db" "(u, m) \<in> set (member_rows db)" "(w, n) \<in> set (member_rows db)" "ua_ID w = ua_ID u"
  shows "w = u \<and> n = m"
proof -
  have "w = u" using assms by (auto simp: members_wf_def member_rows_iff distinct_map inj_on_def)
  moreover have "one_active (me_Memberships db)" using assms(1) by (simp add: members_wf_def)
  then have "n = m" using assms(2-4) unfolding member_rows_iff one_active_def by metis
  ultimately show ?thesis ..
qed

lemma live_session_Some:
  assumes "live_session h t db = Some (r, u, m)"
  shows "r \<in> set (me_Sessions db)" "sn_TokenHash r = h" "sn_RevokedAt r = None" "Before (timestamptz t) (sn_ExpiresAt r)"
    "(u, m) \<in> set (member_rows db)" "ua_ID u = sn_UserID r"
  using first_row_Some [OF assms [unfolded live_session_def]] by (auto split: if_split_asm)

lemma session_unique:
  assumes "members_wf db" "r \<in> set (me_Sessions db)" "q \<in> set (me_Sessions db)" "sn_TokenHash q = sn_TokenHash r \<or> sn_ID q = sn_ID r"
  shows "q = r"
  using assms by (auto simp: members_wf_def distinct_map inj_on_def)

lemma live_session_this:
  assumes "members_wf db" "r \<in> set (me_Sessions db)" "sn_TokenHash r = h" "sn_RevokedAt r = None"
    and "Before (timestamptz t) (sn_ExpiresAt r)" "(u, m) \<in> set (member_rows db)" "ua_ID u = sn_UserID r"
  shows "live_session h t db = Some (r, u, m)"
  unfolding live_session_def
proof (rule first_row_only)
  show "(r, u, m) \<in> set [(s, u, m). s \<leftarrow> me_Sessions db, sn_TokenHash s = h \<and> sn_RevokedAt s = None
      \<and> Before (timestamptz t) (sn_ExpiresAt s), (u, m) \<leftarrow> member_rows db, ua_ID u = sn_UserID s]"
    using assms by force
  show "\<forall>y \<in> set [(s, u, m). s \<leftarrow> me_Sessions db, sn_TokenHash s = h \<and> sn_RevokedAt s = None
      \<and> Before (timestamptz t) (sn_ExpiresAt s), (u, m) \<leftarrow> member_rows db, ua_ID u = sn_UserID s]. y = (r, u, m)"
    using session_unique [OF assms(1,2)] member_rows_unique [OF assms(1,6)] assms(3,7)
    by (auto split: if_split_asm)
qed

definition ended :: "members_db \<Rightarrow> digest \<Rightarrow> bool" where
  "ended db h \<longleftrightarrow> (\<exists>r \<in> set (me_Sessions db). sn_TokenHash r = h \<and> sn_RevokedAt r \<noteq> None)"

lemma ended_not_live: "members_wf db \<Longrightarrow> ended db h \<Longrightarrow> live_session h t db = None"
proof (cases "live_session h t db")
  case (Some x)
  obtain r u m where x: "x = (r, u, m)" by (cases x)
  assume wf: "members_wf db" and "ended db h"
  then obtain q where "q \<in> set (me_Sessions db)" "sn_TokenHash q = h" "sn_RevokedAt q \<noteq> None" by (auto simp: ended_def)
  then show ?thesis
    using session_unique [OF wf, of r q] live_session_Some(1-3) [OF Some [unfolded x]] by simp
qed

lemma ended_later: "members_keep db db' \<Longrightarrow> ended db h \<Longrightarrow> ended db' h"
  unfolding members_keep_def members_later_def rows_kept_def session_goes_on_def ended_def by metis

lemma findSession_Inr:
  "findSession h t db = Inr (x, db') \<longleftrightarrow> db' = db \<and> (\<exists>r u m s. live_session h t db = Some (r, u, m)
     \<and> scanSession r = Inr s \<and> x = (s, scanPrincipal u m))"
  by (auto simp: findSession_def cmd_simps split: option.split_asm sum.split_asm) (auto simp: map_sum_eq_Inr)

lemma scanSession_Inr:
  assumes "scanSession r = Inr s"
  shows "se_ID s = sn_ID r" "se_UserID s = sn_UserID r" "se_TokenHash s = sn_TokenHash r" "se_LastSeenAt s = sn_LastSeenAt r"
    "se_CreatedAt s = sn_CreatedAt r" "se_ExpiresAt s = sn_ExpiresAt r"
  using assms by (auto simp: scanSession_def DigestFromBytes_def split: sum.split_asm if_split_asm)

lemma ended_resume:
  assumes "sv_store sv = pg_store S" "members_wf db" "ParseSecret raw = Inr token" "ended db (HashSessionToken P token)"
  shows "Resume P sv clock raw db = (db, Inl ErrUnauthenticated)"
proof -
  have "useSession (HashSessionToken P token) (truncated clock) db = Inl ErrUnauthenticated"
    using ended_not_live [OF assms(2,4)] by (simp add: useSession_def andThen_def findSession_def query_def)
  then have "as_answer (useSession (HashSessionToken P token) (truncated clock)) db = (db, Inl ErrUnauthenticated)"
    by (simp add: as_answer_Inl)
  then show ?thesis by (simp add: Resume_def assms(1,3) pg_store_def)
qed

section \<open>Ending a session\<close>

lemma revoke_sessions_Inr:
  assumes "revoke_sessions b t reason db = Inr (n, db')"
  shows "n = length (filter b (me_Sessions db))"
    "me_Sessions db' = map (\<lambda>r. if b r then r\<lparr>sn_RevokedAt := Some (timestamptz t), sn_RevokeReason := Some reason\<rparr> else r) (me_Sessions db)"
  using assms by (auto simp: revoke_sessions_def set_session_def split: if_split_asm)

lemma revoke_sessions_ends:
  assumes "revoke_sessions b t reason db = Inr (n, db')" "r \<in> set (me_Sessions db)" "b r"
  shows "ended db' (sn_TokenHash r)"
proof -
  have "r\<lparr>sn_RevokedAt := Some (timestamptz t), sn_RevokeReason := Some reason\<rparr> \<in> set (me_Sessions db')"
    using assms(2,3) by (force simp: revoke_sessions_Inr(2) [OF assms(1)])
  then show ?thesis unfolding ended_def by (rule bexI [rotated]) simp
qed

lemma revoke_ends:
  assumes "Store_RevokeSession h t reason db = (db', None)"
  shows "ended db' h"
proof -
  let ?b = "\<lambda>r. sn_TokenHash r = h \<and> sn_RevokedAt r = None"
  obtain n where n: "revoke_sessions ?b t reason db = Inr (n, db')" "n \<noteq> 0"
    using assms by (auto simp: Store_RevokeSession_def split: sum.split_asm if_split_asm)
  then have "filter ?b (me_Sessions db) \<noteq> []" using revoke_sessions_Inr(1) [OF n(1)] by auto
  then obtain r where "r \<in> set (me_Sessions db)" "?b r" by (auto simp: filter_empty_conv)
  then show ?thesis using revoke_sessions_ends [OF n(1)] by auto
qed

lemma rotate_ends:
  assumes "rotateSession h d t reason db = Inr (x, db')"
  shows "ended db' h"
proof -
  obtain r u m c n db1 s where l: "live_session h t db = Some (r, u, m)" and c: "scanSession r = Inr c"
    and v: "revoke_sessions (\<lambda>q. sn_ID q = se_ID c) t reason db = Inr (n, db1)"
    and i: "insertSession (u_ID (pr_User (scanPrincipal u m))) d (se_ID c) db1 = Inr (s, db')"
    using assms by (auto simp: rotateSession_def cmd_simps findSession_Inr)
  have "ended db1 h"
    using revoke_sessions_ends [OF v live_session_Some(1) [OF l]] live_session_Some(2) [OF l] scanSession_Inr(1) [OF c] by simp
  then show ?thesis using ended_later [OF keepsD [OF keep_insert_session i]] by blast
qed

text \<open>C13 ended_session_stays_ended: once a token was revoked, or rotated into another one, presenting it is
  unauthenticated for ever: whatever operations on members, invitations and sessions follow, in any order and at any time.\<close>

theorem ended_session_stays_ended:
  assumes "sv_store sv = pg_store S" "members_reachable S db"
    and "Revoke P sv clock raw reason db = (db1, None) \<or> Rotate P sv rd raw reason db = (db1, Inr i)"
    and "members_run S db1 db2"
  shows "Resume P sv clock' raw db2 = (db2, Inl ErrUnauthenticated)"
proof -
  obtain token where token: "ParseSecret raw = Inr token"
    using assms(3) by (auto simp: Revoke_def Rotate_def split: sum.split_asm)
  from assms(3) have "members_step S db db1 \<and> ended db1 (HashSessionToken P token)"
  proof
    assume "Revoke P sv clock raw reason db = (db1, None)"
    then have r: "RevokeSession (pg_store S) (HashSessionToken P token) (truncated clock) (TrimSpace reason) db = (db1, None)"
      by (simp add: Revoke_def token assms(1) Let_def split: if_split_asm)
    then show ?thesis
      using members_step.session_revoked [of S db "HashSessionToken P token" "truncated clock" "TrimSpace reason"]
      by (simp add: pg_store_def revoke_ends)
  next
    assume "Rotate P sv rd raw reason db = (db1, Inr i)"
    then obtain d t where r: "RotateSession (pg_store S) (HashSessionToken P token) d t (TrimSpace reason) db
        = (db1, Inr (is_Session i, is_Principal i))"
      by (auto simp: Rotate_def token assms(1) Let_def result_simps answer_Inr)
    then have "rotateSession (HashSessionToken P token) d t (TrimSpace reason) db = Inr ((is_Session i, is_Principal i), db1)"
      by (simp add: pg_store_def as_answer_Inr)
    then show ?thesis
      using members_step.session_rotated [of S db "HashSessionToken P token" d t "TrimSpace reason"]
      by (simp add: r rotate_ends)
  qed
  then have "members_reachable S db2" "ended db2 (HashSessionToken P token)"
    using assms(2,4) reachable_run members_reachable.stepped ended_later [OF run_keep [OF assms(4)]] by blast+
  then show ?thesis using ended_resume [OF assms(1) reachable_wf token] by blast
qed

section \<open>Signing in\<close>

lemma approved_row:
  assumes "principalByIdentity v db = Some p \<or> principalByApprovedEmail S email db = Some p \<or> principalByUser i db = Some p"
  obtains u m where "(u, m) \<in> set (member_rows db)" "p = scanPrincipal u m"
  using assms unfolding principalByIdentity_def principalByApprovedEmail_def principalByUser_def
  by (auto dest!: first_row_Some split: if_split_asm)

definition same_members :: "members_db \<Rightarrow> members_db \<Rightarrow> bool" where
  "same_members db db' \<longleftrightarrow> me_Users db' = me_Users db \<and> me_Memberships db' = me_Memberships db"

lemma same_member_rows: "same_members db db' \<Longrightarrow> member_rows db' = member_rows db"
  unfolding member_rows_def same_members_def by (elim conjE) (simp only:)

lemma link_identity_members: "link_identity S u v db = Inr (n, db') \<Longrightarrow> same_members db db' \<and> me_Sessions db' = me_Sessions db"
  by (auto simp: link_identity_def cmd_simps same_members_def authenticated_def split: option.split_asm if_split_asm)

lemma resolve_Inr:
  assumes "resolveApprovedIdentity S v db = Inr (p, db')"
  obtains u m where "(u, m) \<in> set (member_rows db)" "p = scanPrincipal u m" "same_members db db'"
    "me_Sessions db' = me_Sessions db"
proof (cases "principalByIdentity v db")
  case (Some q)
  then have "q = p" "same_members db db' \<and> me_Sessions db' = me_Sessions db"
    using assms by (auto simp: resolveApprovedIdentity_def cmd_simps record_authentication_def same_members_def authenticated_def
        split: if_split_asm)
  with Some show thesis by (metis approved_row that)
next
  case None
  then obtain n where "principalByApprovedEmail S (vi_Email v) db = Some p" "link_identity S (u_ID (pr_User p)) v db = Inr (n, db')"
    using assms by (auto simp: resolveApprovedIdentity_def cmd_simps split: option.split_asm)
  then show thesis by (metis approved_row link_identity_members that)
qed

lemma insertSession_Inr:
  assumes "insertSession userID d from' db = Inr (s, db')"
  obtains u f i where "pg_uuid userID = Some u" "null_uuid from' = Some f"
    "session_constraints (drafted_row i u d f) (db\<lparr>me_Draws := Suc (me_Draws db)\<rparr>)" "scanSession (drafted_row i u d f) = Inr s"
    "me_Sessions db' = me_Sessions db @ [drafted_row i u d f]" "same_members db db'"
    "me_Invitations db' = me_Invitations db" "me_Identities db' = me_Identities db"
proof -
  obtain u f where u: "pg_uuid userID = Some u" "null_uuid from' = Some f"
    using assms by (auto simp: insertSession_def cmd_simps split: option.split_asm)
  let ?i = "draw_uuid (me_Random db) (me_Draws db)"
  have "session_constraints (drafted_row ?i u d f) (db\<lparr>me_Draws := Suc (me_Draws db)\<rparr>)
    \<and> scanSession (drafted_row ?i u d f) = Inr s
    \<and> db' = db\<lparr>me_Draws := Suc (me_Draws db), me_Sessions := me_Sessions db @ [drafted_row ?i u d f]\<rparr>"
    using assms by (auto simp: insertSession_def u cmd_simps Let_def split: if_split_asm sum.split_asm)
  with u show thesis by (intro that [of u f ?i]) (simp_all add: same_members_def)
qed

lemma truncated_timestamptz: "instant (timestamptz (truncated t)) = instant (truncated t)"
  by (simp add: timestamptz_def truncated_def)

lemma useSession_live:
  assumes "live_session h t db = Some (r, u, m)" "scanSession r = Inr s"
  obtains db' where "useSession h t db =
    Inr ((if instant t - instant (se_LastSeenAt s) \<ge> idleWindow then s\<lparr>se_LastSeenAt := t\<rparr> else s, scanPrincipal u m), db')"
proof (rule that)
  show "useSession h t db = Inr ((if instant t - instant (se_LastSeenAt s) \<ge> idleWindow then s\<lparr>se_LastSeenAt := t\<rparr> else s,
      scanPrincipal u m), if instant t - instant (se_LastSeenAt s) \<ge> idleWindow
        then set_session (\<lambda>r. sn_ID r = se_ID s \<and> Before (sn_LastSeenAt r) (timestamptz t)) (\<lambda>r. r\<lparr>sn_LastSeenAt := timestamptz t\<rparr>) db
        else db)"
    by (simp add: useSession_def andThen_def findSession_def query_def exec_def ret_def assms)
qed

lemma seen_active:
  assumes "ActiveAt s t0 = None" "\<not> IsZero t" "Before t (se_ExpiresAt s)"
  shows "ActiveAt (if instant t - instant (se_LastSeenAt s) \<ge> idleWindow then s\<lparr>se_LastSeenAt := t\<rparr> else s) t = None"
  using assms by (auto simp: ActiveAt_None Session_Validate_def Before_def After_def idleWindow_def split: if_split_asm)

text \<open>C14 sign_in_resumes: on the PostgreSQL store, the token that a sign-in hands out opens the session it was issued for,
  for the same principal, at any later time before the session expires: no answer of the store is assumed.\<close>

theorem sign_in_resumes:
  assumes "sv_store sv = pg_store S" "members_reachable S db" "CompleteSignIn P sv rd v db = (db1, Inr i)"
    and "\<forall>b. rd_random1 rd = Some b \<longrightarrow> length b = secretBytes"
    and "\<not> IsZero (truncated clock)" "Before (truncated clock) (se_ExpiresAt (is_Session i))"
  shows "\<exists>db2 s. Resume P sv clock (Value (is_Token i)) db1 = (db2, Inr (s, is_Principal i))
    \<and> se_ID s = se_ID (is_Session i) \<and> se_UserID s = u_ID (pr_User (is_Principal i))"
proof -
  obtain token csrf d where D: "newDraft P sv rd = Inr (token, csrf, d)" "is_Token i = token"
    and c: "createSessionForIdentity S v d db = Inr ((is_Session i, is_Principal i), db1)"
    and V: "validateStoredSession P (is_Session i) (is_Principal i) d = None"
    using assms(3) by (auto simp: CompleteSignIn_def assms(1) pg_store_def result_simps answer_Inr as_answer_Inr)
  have T: "d_TokenHash d = HashSessionToken P token" "ParseSecret (Value token) = Inr token"
    by (rule newDraft_Inr [OF D(1)]; use assms(4) in \<open>auto simp: ParseSecret_Inr\<close>)+
  obtain p db0 where res: "resolveApprovedIdentity S v db = Inr (is_Principal i, db0)"
    and ins: "insertSession (u_ID (pr_User (is_Principal i))) d [] db0 = Inr (is_Session i, db1)"
    using c by (auto simp: createSessionForIdentity_def cmd_simps)
  obtain u m where um: "(u, m) \<in> set (member_rows db)" "is_Principal i = scanPrincipal u m" "same_members db db0"
    by (rule resolve_Inr [OF res])
  obtain w f k where "scanSession (drafted_row k w d f) = Inr (is_Session i)"
    "me_Sessions db1 = me_Sessions db0 @ [drafted_row k w d f]" "same_members db0 db1"
    by (rule insertSession_Inr [OF ins]) (rule that; assumption)
  then obtain r where r: "r = drafted_row k w d f" "scanSession r = Inr (is_Session i)" "me_Sessions db1 = me_Sessions db0 @ [r]"
    "same_members db0 db1" by blast
  have S: "ActiveAt (is_Session i) (d_CreatedAt d) = None" "Principal_Validate P (is_Principal i) = None"
    "se_UserID (is_Session i) = u_ID (pr_User (is_Principal i))" "se_TokenHash (is_Session i) = HashSessionToken P token"
    using V T(1) by (auto simp: validateStoredSession_def result_simps)
  have wf: "members_wf db1"
    using reachable_wf [OF assms(2)] keepsD [OF keep_sessions(1) c] by (simp add: members_keep_def)
  have mem: "(u, m) \<in> set (member_rows db1)" using um(1,3) r(4) by (simp add: same_member_rows)
  have live: "live_session (HashSessionToken P token) (truncated clock) db1 = Some (r, u, m)"
  proof (rule live_session_this [OF wf _ _ _ _ mem])
    show "r \<in> set (me_Sessions db1)" by (simp add: r(3))
    show "sn_TokenHash r = HashSessionToken P token" "sn_RevokedAt r = None" by (simp_all add: r(1) drafted_row_def T(1))
    show "Before (timestamptz (truncated clock)) (sn_ExpiresAt r)"
      using assms(6) scanSession_Inr(6) [OF r(2)] by (simp add: Before_def truncated_timestamptz)
    show "ua_ID u = sn_UserID r" using S(3) scanSession_Inr(2) [OF r(2)] by (simp add: um(2) scanPrincipal_def)
  qed
  let ?s = "if instant (truncated clock) - instant (se_LastSeenAt (is_Session i)) \<ge> idleWindow
    then (is_Session i)\<lparr>se_LastSeenAt := truncated clock\<rparr> else is_Session i"
  have "\<exists>db2. useSession (HashSessionToken P token) (truncated clock) db1 = Inr ((?s, scanPrincipal u m), db2)"
    by (rule useSession_live [OF live r(2)]) blast
  then obtain db2 where use: "useSession (HashSessionToken P token) (truncated clock) db1 = Inr ((?s, is_Principal i), db2)"
    unfolding um(2) [symmetric] ..
  have "as_answer (useSession (HashSessionToken P token) (truncated clock)) db1 = (db2, Inr (?s, is_Principal i))"
    using use by (simp add: as_answer_Inr)
  moreover have "validateActiveSession P ?s (is_Principal i) (truncated clock) = None"
    using seen_active [OF S(1) assms(5,6)] S(2,3) by (simp add: validateActiveSession_def)
  ultimately have "Resume P sv clock (Value (is_Token i)) db1 = (db2, Inr (?s, is_Principal i))"
    using S(4) by (simp add: Resume_def T(2) D(2) assms(1) pg_store_def Let_def)
  moreover have "se_ID ?s = se_ID (is_Session i)" "se_UserID ?s = u_ID (pr_User (is_Principal i))" using S(3) by simp_all
  ultimately show ?thesis by blast
qed

end
