(* ===== verification/Members_Guarantees.thy ===== *)
theory Members_Guarantees
  imports Members_Sessions
begin

text \<open>
  What the club may rely on: owners, roles, revoked members and invitations, in every reachable database; and two
  members the code locks out although it means to admit them.
\<close>

section \<open>Owners and roles\<close>

text \<open>C11 owner_remains: as soon as a member is an active owner, the club has an active owner after any sequence of
  sign-ins, invitations, role changes, revocations, limits and sessions: no order of operations locks everybody out.\<close>

theorem owner_remains:
  assumes "members_reachable S db" "members_run S db db'"
    and "m \<in> set (me_Memberships db)" "mm_Role m = RoleOwner" "mm_RevokedAt m = None"
  shows "\<exists>n \<in> set (me_Memberships db'). mm_Role n = RoleOwner \<and> mm_RevokedAt n = None"
  using run_owner [OF assms(2) reachable_wf [OF assms(1)]] assms(3-5) by (auto simp: has_owner_def active_owner_def)

text \<open>C17 role_was_granted: in every reachable database, whoever is named as the grantor of a membership holds or held a
  role that may grant it: an owner for an admin or an owner, an admin or an owner for a member. The same holds of the
  issuer of an invitation, whoever accepts it.\<close>

theorem role_was_granted:
  assumes "members_reachable S db"
    and "m \<in> set (me_Memberships db) \<and> mm_GrantedBy m = Some g \<and> mm_Role m = r
      \<or> offer \<in> set (me_Invitations db) \<and> iv_IssuedBy offer = g \<and> iv_Role offer = r"
  shows "\<exists>n \<in> set (me_Memberships db). mm_UserID n = g
    \<and> (mm_Role n = RoleOwner \<or> r = RoleMember \<and> mm_Role n = RoleAdmin)"
proof -
  have "held db g (vouchers r)"
    using reachable_vouched [OF assms(1)] assms(2) by (fastforce simp: vouched_def grants_of_def offers_of_def)
  then show ?thesis by (auto simp: held_def grants_of_def vouchers_def split: if_split_asm)
qed

section \<open>Revoked members\<close>

lemma resume_member:
  assumes "sv_store sv = pg_store S" "Resume P sv clock raw db = (db', Inr (s, p))"
  obtains u m where "(u, m) \<in> set (member_rows db)" "p = scanPrincipal u m"
proof -
  obtain h t where "useSession h t db = Inr ((s, p), db')"
    using assms by (auto simp: Resume_def pg_store_def Let_def result_simps answer_Inr as_answer_Inr split: sum.split_asm)
  then show thesis
    by (auto simp: useSession_def cmd_simps findSession_Inr split: if_split_asm dest!: live_session_Some(5) intro: that)
qed

lemma sign_in_member:
  assumes "sv_store sv = pg_store S" "CompleteSignIn P sv rd v db = (db', Inr i)"
  obtains u m where "(u, m) \<in> set (member_rows db)" "is_Principal i = scanPrincipal u m"
proof -
  obtain d where "createSessionForIdentity S v d db = Inr ((is_Session i, is_Principal i), db')"
    using assms by (auto simp: CompleteSignIn_def pg_store_def result_simps answer_Inr as_answer_Inr)
  then show thesis
    by (auto simp: createSessionForIdentity_def cmd_simps elim!: resolve_Inr intro: that)
qed

lemma revoked_inactive:
  assumes "members_wf db" "revokeMember actor target reason db = Inr (x, db1)" "pg_uuid target = Some t"
    and "n \<in> set (me_Memberships db1)" "mm_UserID n = t"
  shows "mm_RevokedAt n \<noteq> None"
proof (rule revokeMember_Inr [OF assms(2)])
  fix a t' m db0
  assume p: "pg_uuid target = Some t'" "active_of t' db = Some m"
    and r: "revoke_memberships (\<lambda>n. mm_ID n = mm_ID m) a reason db = Inr ((), db0)"
    and w: "members_audit a ''membership.revoked'' t' reason db0 = Inr ((), db1)"
  have rows: "me_Memberships db1 = map (\<lambda>n. if mm_ID n = mm_ID m then revoked_row a reason (me_Now db) n else n) (me_Memberships db)"
    using keepsD [OF still_statements(3) w] revoke_memberships_Inr(1) [OF r] by (simp add: same_roles_def)
  have m: "m \<in> set (me_Memberships db)" "mm_UserID m = t" "mm_RevokedAt m = None"
    using active_of_Some [OF p(2)] p(1) assms(3) by auto
  obtain k where k: "k \<in> set (me_Memberships db)" "n = (if mm_ID k = mm_ID m then revoked_row a reason (me_Now db) k else k)"
    using assms(4) rows by auto
  show ?thesis
  proof
    assume none: "mm_RevokedAt n = None"
    then have "n = k" "mm_ID k \<noteq> mm_ID m" using k(2) by (auto simp: revoked_row_def split: if_split_asm)
    moreover have "one_active (me_Memberships db)" using assms(1) by (simp add: members_wf_def)
    ultimately show False using none k(1) m assms(5) unfolding one_active_def by metis
  qed
qed

text \<open>C12 revoked_member_locked_out: after an owner has revoked a member, no session that exists resumes for that member and
  no sign-in admits him, however many operations follow, until somebody grants him a new membership; nor does he pass the
  role checks of the administration.\<close>

theorem revoked_member_locked_out:
  assumes "sv_store sv = pg_store S" "members_reachable S db" "pg_uuid target = Some t"
    and "run_tx (revokeMember actor target reason) db = (Inr (), db1)" "members_run S db1 db2"
    and "\<forall>m \<in> set (me_Memberships db2). mm_UserID m = t \<longrightarrow> mm_ID m \<in> mm_ID ` set (me_Memberships db1)"
  shows "(Resume P sv clock raw db2 = (db3, Inr (s, p)) \<longrightarrow> u_ID (pr_User p) \<noteq> t)
    \<and> (CompleteSignIn P sv rd v db2 = (db4, Inr i) \<longrightarrow> u_ID (pr_User (is_Principal i)) \<noteq> t)
    \<and> activeRole target db2 = Inl ErrUnauthorized"
proof -
  have r: "revokeMember actor target reason db = Inr ((), db1)" using assms(4) by (simp add: run_tx_Inr)
  have wf: "members_wf db" using reachable_wf [OF assms(2)] .
  have wf2: "members_wf db2"
    using wf keepsD [OF keep_membership(4) r] run_keep [OF assms(5)] by (simp add: members_keep_def)
  have out: "mm_RevokedAt m \<noteq> None" if m: "m \<in> set (me_Memberships db2)" "mm_UserID m = t" for m
  proof -
    obtain n where n: "n \<in> set (me_Memberships db1)" "mm_ID n = mm_ID m" using assms(6) m by fastforce
    then obtain k where k: "k \<in> set (me_Memberships db2)" "membership_goes_on n k"
      using run_keep [OF assms(5)] by (auto simp: members_keep_def members_later_def rows_kept_def)
    then have "k = m" using wf2 m(1) n(2) by (auto simp: members_wf_def membership_goes_on_def distinct_map inj_on_def)
    then show ?thesis
      using revoked_inactive [OF wf r assms(3) n(1)] k(2) m(2) by (simp add: membership_goes_on_def)
  qed
  then have none: "ua_ID u \<noteq> t" if "(u, m) \<in> set (member_rows db2)" for u m
    using that out [of m] by (auto simp: member_rows_iff)
  have "active_of t db2 = None" using out by (auto simp: active_of_def first_row_None filter_empty_conv)
  then have "activeRole target db2 = Inl ErrUnauthorized"
    by (simp add: activeRole_def andThen_def cast_uuid_def assms(3) ret_def query_def)
  moreover have "u_ID (pr_User p) \<noteq> t" if "Resume P sv clock raw db2 = (db3, Inr (s, p))"
    by (rule resume_member [OF assms(1) that]) (simp add: none scanPrincipal_def)
  moreover have "u_ID (pr_User (is_Principal i)) \<noteq> t" if "CompleteSignIn P sv rd v db2 = (db4, Inr i)"
    by (rule sign_in_member [OF assms(1) that]) (simp add: none scanPrincipal_def)
  ultimately show ?thesis by blast
qed

section \<open>Invitations\<close>

definition spent :: "identity_store \<Rightarrow> string \<Rightarrow> members_db \<Rightarrow> bool" where
  "spent S tok db \<longleftrightarrow> (\<exists>r \<in> set (me_Invitations db). iv_TokenHash r = hashInvitationToken (st_Platform S) tok \<and> \<not> open_invitation r)"

lemma spent_later: "members_keep db db' \<Longrightarrow> spent S tok db \<Longrightarrow> spent S tok db'"
  unfolding members_keep_def members_later_def rows_kept_def invitation_goes_on_def spent_def by metis

lemma spent_rejected:
  assumes "members_wf db" "spent S tok db"
  shows "consumeInvitation S v tok db = Inl ErrSignInNotAllowed"
proof -
  obtain r where r: "r \<in> set (me_Invitations db)" "iv_TokenHash r = hashInvitationToken (st_Platform S) tok" "\<not> open_invitation r"
    using assms(2) by (auto simp: spent_def)
  have "q = r" if "q \<in> set (me_Invitations db)" "iv_TokenHash q = hashInvitationToken (st_Platform S) tok" for q
    using assms(1) r that by (auto simp: members_wf_def distinct_map inj_on_def)
  then have "filter (\<lambda>r. iv_TokenHash r = hashInvitationToken (st_Platform S) tok \<and> open_invitation r
      \<and> Before (me_Now db) (iv_ExpiresAt r)) (me_Invitations db) = []"
    using r(3) by (auto simp: filter_empty_conv)
  then have "find_invitation S v tok db = Inl ErrSignInNotAllowed"
    by (auto simp: find_invitation_def andThen_def require_def query_def ret_def throw_def)
  then show ?thesis by (simp add: consumeInvitation_def andThen_def)
qed

lemma consume_spends:
  assumes "consumeInvitation S v tok db = Inr (p, db')"
  shows "spent S tok db'"
proof -
  obtain offer u db1 db2 db3 n db4 where f: "find_invitation S v tok db = Inr (offer, db)" "invited_user S v db = Inr (u, db1)"
    "insert_membership u (iv_Role offer) (Some (iv_IssuedBy offer)) db1 = Inr ((), db2)"
    "mark_consumed (iv_ID offer) u db2 = Inr ((), db3)" "link_identity S u v db3 = Inr (n, db4)"
    "members_audit (iv_IssuedBy offer) ''membership.invitation_consumed'' u ''accepted invite'' db4 = Inr ((), db')"
    by (rule consumeInvitation_Inr [OF assms]) (rule that; assumption)
  have "me_Invitations db1 = me_Invitations db"
    using f(2) by (auto simp: invited_user_def insert_user_def cmd_simps Let_def split: option.split_asm if_split_asm)
  moreover have "me_Invitations db2 = me_Invitations db1" by (rule insert_membership_Inr [OF f(3)])
  moreover have "me_Invitations db' = me_Invitations db3"
    using f(5,6) by (auto simp: link_identity_def cmd_simps authenticated_def members_audit_def split: option.split_asm if_split_asm)
  moreover have "me_Invitations db3 = map (\<lambda>r. if iv_ID r = iv_ID offer then r\<lparr>iv_ConsumedAt := Some (me_Now db2),
      iv_ConsumedBy := Some u\<rparr> else r) (me_Invitations db2)"
    using f(4) by (auto simp: mark_consumed_def set_invitation_def split: if_split_asm)
  ultimately have "offer\<lparr>iv_ConsumedAt := Some (me_Now db2), iv_ConsumedBy := Some u\<rparr> \<in> set (me_Invitations db')"
    using find_invitation_Inr(1) [OF f(1)] by force
  then show ?thesis
    using find_invitation_Inr(2) [OF f(1)] unfolding spent_def by (rule_tac bexI) (simp_all add: open_invitation_def)
qed

lemma revoke_spends:
  assumes "revokeInvitation actor i db = Inr (x, db')" "pg_uuid i = Some k" "offer \<in> set (me_Invitations db)" "iv_ID offer = k"
    "iv_TokenHash offer = hashInvitationToken (st_Platform S) tok"
  shows "spent S tok db'"
proof (cases "open_invitation offer")
  case True
  obtain a where db': "db' = set_invitation (\<lambda>r. iv_ID r = k \<and> open_invitation r)
      (\<lambda>r. r\<lparr>iv_RevokedAt := Some (me_Now db), iv_RevokedBy := Some a\<rparr>) db"
    using assms(1,2)
    by (auto simp: revokeInvitation_def requireStaffRole_def cmd_simps activeRole_Inr Let_def split: if_split_asm)
  have "offer\<lparr>iv_RevokedAt := Some (me_Now db), iv_RevokedBy := Some a\<rparr> \<in> set (me_Invitations db')"
    using True assms(3,4) by (force simp: db' set_invitation_def)
  then show ?thesis using assms(5) unfolding spent_def by (rule_tac bexI) (simp_all add: open_invitation_def)
next
  case False
  then have "spent S tok db" using assms(3,5) by (auto simp: spent_def)
  then show ?thesis using spent_later [OF keepsD [OF keep_membership(2) assms(1)]] by blast
qed

text \<open>C18 invitation_used_once: an invitation admits one person. Once it was accepted, or once it was revoked, its token
  admits nobody again, whichever identity presents it and whatever operations come between.\<close>

theorem invitation_used_once:
  assumes "members_reachable S db" "members_run S db1 db2"
    and "run_tx (createSessionForInvitedIdentity S v d tok) db = (Inr x, db1) \<and> resolveApprovedIdentity S v db = Inl e
      \<or> run_tx (revokeInvitation actor i) db = (Inr (), db1) \<and> pg_uuid i = Some (iv_ID offer) \<and> offer \<in> set (me_Invitations db)
        \<and> iv_TokenHash offer = hashInvitationToken (st_Platform S) tok"
  shows "consumeInvitation S w tok db2 = Inl ErrSignInNotAllowed"
  using assms(3)
proof
  assume a: "run_tx (createSessionForInvitedIdentity S v d tok) db = (Inr x, db1) \<and> resolveApprovedIdentity S v db = Inl e"
  then have c: "createSessionForInvitedIdentity S v d tok db = Inr (x, db1)" by (simp add: run_tx_Inr)
  obtain p db0 s where "admitIdentity S v tok db = Inr (p, db0)" and i: "insertSession (u_ID (pr_User p)) d [] db0 = Inr (s, db1)"
    using c by (auto simp: createSessionForInvitedIdentity_def cmd_simps)
  then have "consumeInvitation S v tok db = Inr (p, db0)" using a by (simp add: admitIdentity_def split: if_split_asm)
  then have "spent S tok db1" using consume_spends spent_later [OF keepsD [OF keep_insert_session i]] by blast
  moreover have "members_wf db2"
    using reachable_wf [OF assms(1)] keepsD [OF keep_sessions(2) c] run_keep [OF assms(2)] by (simp add: members_keep_def)
  ultimately show ?thesis using spent_rejected spent_later [OF run_keep [OF assms(2)]] by blast
next
  assume a: "run_tx (revokeInvitation actor i) db = (Inr (), db1) \<and> pg_uuid i = Some (iv_ID offer) \<and> offer \<in> set (me_Invitations db)
        \<and> iv_TokenHash offer = hashInvitationToken (st_Platform S) tok"
  then have c: "revokeInvitation actor i db = Inr ((), db1)" by (simp add: run_tx_Inr)
  then have "spent S tok db1" using revoke_spends a by blast
  moreover have "members_wf db2"
    using reachable_wf [OF assms(1)] keepsD [OF keep_membership(2) c] run_keep [OF assms(2)] by (simp add: members_keep_def)
  ultimately show ?thesis using spent_rejected spent_later [OF run_keep [OF assms(2)]] by blast
qed

section \<open>Members the code locks out\<close>

lemma insert_membership_error: "insert_membership u r g db = Inl e \<Longrightarrow> e = ErrPg"
  by (auto simp: insert_membership_def andThen_def gen_random_uuid_def Let_def split: if_split_asm)

text \<open>C37 reinvited_member_stuck: whoever once came in by an invitation and has lost the membership cannot be invited again:
  \<open>consumed_by\<close> is unique, so accepting any later invitation fails in the database and the sign-in is refused, for as
  long as the first invitation is kept (which is for ever).\<close>

theorem reinvited_member_stuck:
  assumes "find_invitation S v tok db = Inr (offer, db)"
    and "user_by_email S (sql_lower S (vi_Email v)) db = Some u" "ua_Status u = UserActive"
    and "earlier \<in> set (me_Invitations db)" "iv_ConsumedBy earlier = Some (ua_ID u)" "iv_ConsumedAt earlier \<noteq> None"
    and "members_reachable S db"
  shows "consumeInvitation S v tok db = Inl ErrPg"
proof -
  have offer: "offer \<in> set (me_Invitations db)" "open_invitation offer" using find_invitation_Inr [OF assms(1)] by blast+
  have "iv_ID earlier \<noteq> iv_ID offer"
    using reachable_wf [OF assms(7)] offer assms(4,6)
    by (auto simp: members_wf_def distinct_map inj_on_def open_invitation_def)
  then have "mark_consumed (iv_ID offer) (ua_ID u) db2 = Inl ErrPg" if "me_Invitations db2 = me_Invitations db" for db2
    using assms(4,5) that by (auto simp: mark_consumed_def)
  moreover have "me_Invitations db2 = me_Invitations db"
    if "insert_membership (ua_ID u) (iv_Role offer) (Some (iv_IssuedBy offer)) db = Inr (x, db2)" for x db2
    by (rule insert_membership_Inr [OF that])
  ultimately show ?thesis
    using assms(1-3) insert_membership_error
    by (auto simp: consumeInvitation_def andThen_def invited_user_def split: sum.split)
qed

text \<open>C38 second_account_locked_out: an invited member whose sign-in identity is linked to another, former account (the
  address of the same Google account changed) is admitted once, because the link that was not made goes unnoticed, and
  is refused at the next sign-in.\<close>

theorem second_account_locked_out:
  assumes "members_reachable S db" "consumeInvitation S v tok db = Inr (p, db')"
    and "first_row (filter (same_key v) (me_Identities db)) = Some a" "ai_UserID a \<noteq> u_ID (pr_User p)"
    and "\<forall>b \<in> set (me_Identities db). same_key v b \<longrightarrow> b = a" "active_of (ai_UserID a) db = None"
  shows "resolveApprovedIdentity S v db' = Inl ErrSignInNotAllowed"
proof -
  obtain offer u db1 db2 db3 n db4 where "find_invitation S v tok db = Inr (offer, db)" and f: "invited_user S v db = Inr (u, db1)"
    "insert_membership u (iv_Role offer) (Some (iv_IssuedBy offer)) db1 = Inr ((), db2)"
    "mark_consumed (iv_ID offer) u db2 = Inr ((), db3)" "link_identity S u v db3 = Inr (n, db4)"
    "members_audit (iv_IssuedBy offer) ''membership.invitation_consumed'' u ''accepted invite'' db4 = Inr ((), db')"
    "principalByUser u db' = Some p"
    by (rule consumeInvitation_Inr [OF assms(2)]) (rule that; assumption)
  have p: "u_ID (pr_User p) = u"
    using first_row_Some [OF f(6) [unfolded principalByUser_def]] by (auto simp: scanPrincipal_def split: if_split_asm)
  have i1: "me_Identities db1 = me_Identities db" "me_Memberships db1 = me_Memberships db"
    using f(1) by (auto simp: invited_user_def insert_user_def cmd_simps Let_def split: option.split_asm if_split_asm)
  obtain m where i2: "me_Identities db2 = me_Identities db1" "me_Memberships db2 = me_Memberships db1 @ [m]" "mm_UserID m = u"
    by (rule insert_membership_Inr [OF f(2)]) (rule that; assumption)
  have i3: "me_Identities db3 = me_Identities db2" "me_Memberships db3 = me_Memberships db2"
    using f(3) by (auto simp: mark_consumed_def set_invitation_def split: if_split_asm)
  have i5: "me_Identities db' = me_Identities db4" "me_Memberships db' = me_Memberships db4"
    using f(5) by (auto simp: members_audit_def split: if_split_asm)
  have "db4 = db3"
    using f(4) assms(3,4) i1 i2 i3 by (auto simp: link_identity_def cmd_simps p)
  then have ids: "me_Identities db' = me_Identities db" and mem: "me_Memberships db' = me_Memberships db @ [m]"
    using i1 i2 i3 i5 by simp_all
  have inactive: "ua_ID w \<noteq> ai_UserID a" if w: "(w, k) \<in> set (member_rows db')" for w k
  proof
    assume "ua_ID w = ai_UserID a"
    then have "k \<in> set (me_Memberships db) \<and> mm_UserID k = ai_UserID a \<and> mm_RevokedAt k = None"
      using w assms(4) p i2(3) by (auto simp: member_rows_iff mem)
    moreover have "filter (\<lambda>m. mm_UserID m = ai_UserID a \<and> mm_RevokedAt m = None) (me_Memberships db) = []"
      using assms(6) by (simp add: active_of_def first_row_None)
    ultimately show False unfolding filter_empty_conv by blast
  qed
  have "concat (map (\<lambda>(u, m). if ua_ID u = ai_UserID a then [scanPrincipal u m] else []) (member_rows db')) = []"
    using inactive by auto
  then have none: "principalByIdentity v db' = None"
    using assms(5) by (auto simp: principalByIdentity_def first_row_None ids)
  show ?thesis
  proof (cases "principalByApprovedEmail S (vi_Email v) db'")
    case None
    then show ?thesis using none by (simp add: resolveApprovedIdentity_def)
  next
    case (Some q)
    obtain w k where w: "(w, k) \<in> set (member_rows db')" "q = scanPrincipal w k" using approved_row Some by blast
    then have "ai_UserID a \<noteq> u_ID (pr_User q)" using inactive [OF w(1)] by (simp add: w(2) scanPrincipal_def)
    moreover have "providerPattern (vi_Provider v) \<and> 1 \<le> RuneCount (vi_Subject v) \<and> RuneCount (vi_Subject v) \<le> 255
        \<and> email_ok S (vi_Email v)"
      using f(4) by (auto simp: link_identity_def cmd_simps)
    ultimately have "link_identity S (u_ID (pr_User q)) v db' = Inr (0, db')"
      using assms(3) by (simp add: link_identity_def andThen_def require_def ret_def ids)
    then show ?thesis
      using none Some by (simp add: resolveApprovedIdentity_def andThen_def require_def throw_def)
  qed
qed

end
