(* ===== verification/Members_Examples.thy ===== *)
theory Members_Examples
  imports Members_Guarantees Evaluation
begin

text \<open>
  A concrete club, evaluated by the kernel: a first owner, an invitation, a member who signs in and is revoked, and who is
  invited again. The properties of reachable databases are applied to the databases of this run.
\<close>

section \<open>The run\<close>

definition mx_platform :: platform where
  "mx_platform = \<lparr>p_lower = (\<lambda>s. s), p_address = (\<lambda>v. Some ([], v)),
     p_sha256 = (\<lambda>s. (s ! 10) # take 31 (rev s @ replicate 31 (CHR ''x'')))\<rparr>"

definition mx_store :: identity_store where
  "mx_store = \<lparr>st_Platform = mx_platform, st_sql_lower = (\<lambda>s. s), st_EqualFold = (\<lambda>s t. s = t), st_DefaultCreditLimitCents = 0\<rparr>"

definition mx_service :: "members_db service" where
  "mx_service = \<lparr>sv_store = pg_store mx_store, sv_lifetime = 400000000000\<rparr>"

definition mx_id :: "char \<Rightarrow> string" where
  "mx_id c = ''0000000'' @ [c] @ ''-0000-4000-8000-000000000000''"

definition mx_random :: "nat \<Rightarrow> nat \<Rightarrow> 8 word" where
  "mx_random n k = (if k = 3 then of_nat n else 0)"

definition mx_ann :: verified_identity where
  "mx_ann = \<lparr>vi_Provider = ''google'', vi_Subject = ''s'', vi_Email = ''a@b'', vi_EmailVerified = True, vi_DisplayName = ''Ann''\<rparr>"

definition mx_ann2 :: verified_identity where
  "mx_ann2 = mx_ann\<lparr>vi_Email := ''c@d''\<rparr>"

definition mx_draft :: session_draft where
  "mx_draft = \<lparr>d_TokenHash = HashSessionToken mx_platform (Secret []), d_CSRFSecretHash = HashCSRFSecret mx_platform (Secret []),
     d_CreatedAt = Time 1000000 True, d_LastSeenAt = Time 1000000 True, d_ExpiresAt = Time 400001000000 True\<rparr>"

definition mx_bytes :: "char \<Rightarrow> string" where
  "mx_bytes c = replicate 32 c"

definition mx_reading :: reading where
  "mx_reading = \<lparr>rd_now = Time 1000007 False, rd_random1 = Some (mx_bytes (CHR ''a'')), rd_random2 = Some (mx_bytes (CHR ''b''))\<rparr>"

definition mx_token :: "char \<Rightarrow> string" where
  "mx_token c = EncodeToString (mx_bytes c)"

text \<open>The keys are drawn in the order 0: the owner, 1: the owner's membership, 2: the invitation, 3: Ann, \<dots>\<close>

definition mx_founded :: members_db where
  "mx_founded = snd (run_tx (grantBootstrapMembership mx_store RoleOwner ''o@x'' ''Olga'' ''start'' False)
     (members_empty (Time 1000000000 True) mx_random))"

definition mx_invited :: members_db where
  "mx_invited = snd (run_tx (issueInvitation mx_store (mx_id (CHR ''0'')) RoleMember [] 60000000000 (Some (mx_bytes (CHR ''i'')))) mx_founded)"

definition mx_joined :: members_db where
  "mx_joined = snd (run_tx (createSessionForInvitedIdentity mx_store mx_ann mx_draft (mx_token (CHR ''i''))) mx_invited)"

definition mx_signed_in :: members_db where
  "mx_signed_in = fst (CompleteSignIn mx_platform mx_service mx_reading mx_ann mx_joined)"

definition mx_signed_out :: members_db where
  "mx_signed_out = fst (Revoke mx_platform mx_service (Time 2000000 True) (mx_token (CHR ''a'')) ''bye'' mx_signed_in)"

definition mx_revoked :: members_db where
  "mx_revoked = snd (run_tx (revokeMember (mx_id (CHR ''0'')) (mx_id (CHR ''3'')) ''left'') mx_signed_in)"

definition mx_invited_again :: members_db where
  "mx_invited_again = snd (run_tx (issueInvitation mx_store (mx_id (CHR ''0'')) RoleMember [] 60000000000 (Some (mx_bytes (CHR ''j'')))) mx_revoked)"

definition mx_story :: bool where
  "mx_story = (case run_tx (grantBootstrapMembership mx_store RoleOwner ''o@x'' ''Olga'' ''start'' False)
       (members_empty (Time 1000000000 True) mx_random) of (Inl _, _) \<Rightarrow> False | (Inr _, d1) \<Rightarrow>
     list_ex (\<lambda>m. mm_Role m = RoleOwner \<and> mm_RevokedAt m = None) (me_Memberships d1) \<and>
     (case run_tx (issueInvitation mx_store (mx_id (CHR ''0'')) RoleMember [] 60000000000 (Some (mx_bytes (CHR ''i'')))) d1 of
       (Inl _, _) \<Rightarrow> False | (Inr _, d2) \<Rightarrow>
     (case resolveApprovedIdentity mx_store mx_ann d2 of Inl e \<Rightarrow> e = ErrSignInNotAllowed | Inr _ \<Rightarrow> False) \<and>
     (case run_tx (createSessionForInvitedIdentity mx_store mx_ann mx_draft (mx_token (CHR ''i''))) d2 of
       (Inl _, _) \<Rightarrow> False | (Inr _, d3) \<Rightarrow>
     list_ex (\<lambda>m. mm_GrantedBy m = Some (mx_id (CHR ''0'')) \<and> mm_Role m = RoleMember) (me_Memberships d3) \<and>
     (case CompleteSignIn mx_platform mx_service mx_reading mx_ann d3 of (_, Inl _) \<Rightarrow> False | (d4, Inr i) \<Rightarrow>
     Value (is_Token i) = mx_token (CHR ''a'') \<and> Before (truncated (Time 2000000 True)) (se_ExpiresAt (is_Session i)) \<and>
     snd (Revoke mx_platform mx_service (Time 2000000 True) (mx_token (CHR ''a'')) ''bye'' d4) = None \<and>
     (case run_tx (revokeMember (mx_id (CHR ''0'')) (mx_id (CHR ''3'')) ''left'') d4 of (Inl _, _) \<Rightarrow> False | (Inr _, d5) \<Rightarrow>
     (case run_tx (issueInvitation mx_store (mx_id (CHR ''0'')) RoleMember [] 60000000000 (Some (mx_bytes (CHR ''j'')))) d5 of
       (Inl _, _) \<Rightarrow> False | (Inr _, d6) \<Rightarrow>
     (case find_invitation mx_store mx_ann (mx_token (CHR ''j'')) d6 of Inl _ \<Rightarrow> False | Inr _ \<Rightarrow> True) \<and>
     (case user_by_email mx_store (sql_lower mx_store (vi_Email mx_ann)) d6 of None \<Rightarrow> False
       | Some u \<Rightarrow> ua_Status u = UserActive \<and> ua_ID u = mx_id (CHR ''3'')) \<and>
     list_ex (\<lambda>r. iv_ConsumedBy r = Some (mx_id (CHR ''3'')) \<and> iv_ConsumedAt r \<noteq> None) (me_Invitations d6) \<and>
     (case consumeInvitation mx_store mx_ann2 (mx_token (CHR ''j'')) d6 of Inl _ \<Rightarrow> False
       | Inr (p, d7) \<Rightarrow> u_ID (pr_User p) \<noteq> mx_id (CHR ''3'')) \<and>
     map ai_UserID (filter (same_key mx_ann2) (me_Identities d6)) = [mx_id (CHR ''3'')] \<and>
     active_of (mx_id (CHR ''3'')) d6 = None))))))"

lemma mx_story_runs: mx_story
  by code_simp

lemma pair_Inr: "(case r of (Inl x, y) \<Rightarrow> False | (Inr x, y) \<Rightarrow> f x y) \<longleftrightarrow> (\<exists>x. r = (Inr x, snd r) \<and> f x (snd r))"
  by (auto split: prod.split sum.split)

lemma pair_answer: "(case r of (x, Inl y) \<Rightarrow> False | (x, Inr y) \<Rightarrow> f x y) \<longleftrightarrow> (\<exists>y. r = (fst r, Inr y) \<and> f (fst r) y)"
  by (auto split: prod.split sum.split)

lemmas mx_steps = mx_founded_def [symmetric] mx_invited_def [symmetric] mx_joined_def [symmetric] mx_signed_in_def [symmetric]
  mx_revoked_def [symmetric] mx_invited_again_def [symmetric]

lemmas mx_facts = mx_story_runs [unfolded mx_story_def pair_Inr pair_answer mx_steps]

lemma mx_issued:
  obtains i where "CompleteSignIn mx_platform mx_service mx_reading mx_ann mx_joined = (mx_signed_in, Inr i)"
    "Value (is_Token i) = mx_token (CHR ''a'')" "Before (truncated (Time 2000000 True)) (se_ExpiresAt (is_Session i))"
  using mx_facts by blast

lemma mx_reached: "members_reachable mx_store mx_founded" "members_reachable mx_store mx_invited"
  "members_reachable mx_store mx_joined" "members_reachable mx_store mx_signed_in" "members_reachable mx_store mx_revoked"
  "members_reachable mx_store mx_invited_again"
proof -
  show f: "members_reachable mx_store mx_founded"
    unfolding mx_founded_def by (rule members_reachable.bootstrapped [OF members_reachable.fresh])
  show i: "members_reachable mx_store mx_invited"
    unfolding mx_invited_def by (rule members_reachable.stepped [OF f members_step.invitation_issued])
  have join: "mx_joined = fst (CreateSessionForInvitedIdentity (pg_store mx_store) mx_ann mx_draft (mx_token (CHR ''i'')) mx_invited)"
    by (simp add: mx_joined_def pg_store_def fst_as_answer)
  show j: "members_reachable mx_store mx_joined"
    unfolding join by (rule members_reachable.stepped [OF i members_step.sign_in_invited])
  obtain k where k: "CompleteSignIn mx_platform mx_service mx_reading mx_ann mx_joined = (mx_signed_in, Inr k)" by (rule mx_issued)
  obtain d where "CreateSessionForIdentity (pg_store mx_store) mx_ann d mx_joined = (mx_signed_in, Inr (is_Session k, is_Principal k))"
    using k by (auto simp: CompleteSignIn_def mx_service_def result_simps answer_Inr)
  then have sign: "mx_signed_in = fst (CreateSessionForIdentity (pg_store mx_store) mx_ann d mx_joined)" by simp
  show s: "members_reachable mx_store mx_signed_in"
    unfolding sign by (rule members_reachable.stepped [OF j members_step.sign_in])
  show r: "members_reachable mx_store mx_revoked"
    unfolding mx_revoked_def by (rule members_reachable.stepped [OF s members_step.member_revoked])
  show "members_reachable mx_store mx_invited_again"
    unfolding mx_invited_again_def by (rule members_reachable.stepped [OF r members_step.invitation_issued])
qed

lemma mx_run: "members_run mx_store mx_signed_in mx_invited_again"
proof -
  have "members_step mx_store mx_signed_in mx_revoked" unfolding mx_revoked_def by (rule members_step.member_revoked)
  moreover have "members_step mx_store mx_revoked mx_invited_again"
    unfolding mx_invited_again_def by (rule members_step.invitation_issued)
  ultimately show ?thesis by (meson rtranclp.rtrancl_into_rtrancl rtranclp.rtrancl_refl)
qed

lemma mx_uuid: "pg_uuid (mx_id (CHR ''3'')) = Some (mx_id (CHR ''3''))"
  by code_simp

section \<open>The properties on this run\<close>

theorem ended_session_stays_ended_witness:
  "snd (Resume mx_platform mx_service (Time 3000000 True) (mx_token (CHR ''a'')) mx_signed_out) = Inl ErrUnauthenticated"
proof -
  have "Revoke mx_platform mx_service (Time 2000000 True) (mx_token (CHR ''a'')) ''bye'' mx_signed_in = (mx_signed_out, None)"
    using mx_facts unfolding mx_signed_out_def by (metis prod.collapse)
  then show ?thesis
    using ended_session_stays_ended [where sv = mx_service and S = mx_store, OF _ mx_reached(4) disjI1 rtranclp.rtrancl_refl]
    by (simp add: mx_service_def)
qed

theorem sign_in_resumes_witness:
  "\<exists>db s p. Resume mx_platform mx_service (Time 2000000 True) (mx_token (CHR ''a'')) mx_signed_in = (db, Inr (s, p))"
proof -
  obtain i where i: "CompleteSignIn mx_platform mx_service mx_reading mx_ann mx_joined = (mx_signed_in, Inr i)"
    "Value (is_Token i) = mx_token (CHR ''a'')" "Before (truncated (Time 2000000 True)) (se_ExpiresAt (is_Session i))" by (rule mx_issued)
  show ?thesis
    using sign_in_resumes [OF _ mx_reached(3) i(1) _ _ i(3)] i(2)
    by (auto simp: mx_service_def mx_reading_def mx_bytes_def secretBytes_def truncated_def IsZero_def)
qed

theorem owner_remains_witness:
  "\<exists>n \<in> set (me_Memberships mx_invited). mm_Role n = RoleOwner \<and> mm_RevokedAt n = None"
proof -
  obtain m where "m \<in> set (me_Memberships mx_founded)" "mm_Role m = RoleOwner" "mm_RevokedAt m = None"
    using mx_facts by (auto simp: list_ex_iff)
  moreover have "members_run mx_store mx_founded mx_invited"
    unfolding mx_invited_def by (rule r_into_rtranclp) (rule members_step.invitation_issued)
  ultimately show ?thesis using owner_remains [OF mx_reached(1)] by blast
qed

theorem role_was_granted_witness:
  "\<exists>n \<in> set (me_Memberships mx_joined). mm_UserID n = mx_id (CHR ''0'') \<and> (mm_Role n = RoleOwner \<or> mm_Role n = RoleAdmin)"
proof -
  obtain m where "m \<in> set (me_Memberships mx_joined)" "mm_GrantedBy m = Some (mx_id (CHR ''0''))" "mm_Role m = RoleMember"
    using mx_facts by (auto simp: list_ex_iff)
  then show ?thesis using role_was_granted [OF mx_reached(3), of m "mx_id (CHR ''0'')" RoleMember] by auto
qed

theorem revoked_member_locked_out_witness:
  "activeRole (mx_id (CHR ''3'')) mx_revoked = Inl ErrUnauthorized"
proof -
  obtain x where "run_tx (revokeMember (mx_id (CHR ''0'')) (mx_id (CHR ''3'')) ''left'') mx_signed_in = (Inr x, mx_revoked)"
    using mx_facts by blast
  then have "run_tx (revokeMember (mx_id (CHR ''0'')) (mx_id (CHR ''3'')) ''left'') mx_signed_in = (Inr (), mx_revoked)"
    by simp
  then show ?thesis
    using revoked_member_locked_out [where sv = mx_service and S = mx_store, OF _ mx_reached(4) mx_uuid _ rtranclp.rtrancl_refl]
    by (auto simp: mx_service_def)
qed

theorem invitation_used_once_witness:
  "consumeInvitation mx_store mx_ann2 (mx_token (CHR ''i'')) mx_joined = Inl ErrSignInNotAllowed"
proof -
  obtain x where "run_tx (createSessionForInvitedIdentity mx_store mx_ann mx_draft (mx_token (CHR ''i''))) mx_invited = (Inr x, mx_joined)"
    using mx_facts by blast
  moreover obtain e where "resolveApprovedIdentity mx_store mx_ann mx_invited = Inl e"
    using mx_facts by (auto split: sum.split_asm)
  ultimately show ?thesis
    using invitation_used_once [OF mx_reached(2) rtranclp.rtrancl_refl] by blast
qed

theorem reinvited_member_stuck_witness:
  "consumeInvitation mx_store mx_ann (mx_token (CHR ''j'')) mx_invited_again = Inl ErrPg"
proof -
  obtain offer d where f: "find_invitation mx_store mx_ann (mx_token (CHR ''j'')) mx_invited_again = Inr (offer, d)"
    using mx_facts by (auto split: sum.split_asm)
  obtain u r where "user_by_email mx_store (sql_lower mx_store (vi_Email mx_ann)) mx_invited_again = Some u" "ua_Status u = UserActive"
    "ua_ID u = mx_id (CHR ''3'')" "r \<in> set (me_Invitations mx_invited_again)" "iv_ConsumedBy r = Some (mx_id (CHR ''3''))"
    "iv_ConsumedAt r \<noteq> None"
    using mx_facts by (auto simp: list_ex_iff split: option.split_asm)
  then show ?thesis
    using reinvited_member_stuck [OF f [unfolded find_invitation_Inr(5) [OF f]] _ _ _ _ _ mx_reached(6)] by simp
qed

theorem second_account_locked_out_witness:
  "\<exists>p db. consumeInvitation mx_store mx_ann2 (mx_token (CHR ''j'')) mx_invited_again = Inr (p, db)
    \<and> resolveApprovedIdentity mx_store mx_ann2 db = Inl ErrSignInNotAllowed"
proof -
  obtain p db where c: "consumeInvitation mx_store mx_ann2 (mx_token (CHR ''j'')) mx_invited_again = Inr (p, db)"
    "u_ID (pr_User p) \<noteq> mx_id (CHR ''3'')"
    using mx_facts by (auto split: sum.split_asm)
  have "map ai_UserID (filter (same_key mx_ann2) (me_Identities mx_invited_again)) = [mx_id (CHR ''3'')]"
    "active_of (mx_id (CHR ''3'')) mx_invited_again = None"
    using mx_facts by blast+
  then obtain a where a: "filter (same_key mx_ann2) (me_Identities mx_invited_again) = [a]" "ai_UserID a = mx_id (CHR ''3'')"
    "active_of (ai_UserID a) mx_invited_again = None" by auto
  have only: "\<forall>b \<in> set (me_Identities mx_invited_again). same_key mx_ann2 b \<longrightarrow> b = a"
    using a(1) by (metis (mono_tags, lifting) filter_set list.set(1,2) mem_Collect_eq singletonD set_filter)
  show ?thesis
    using second_account_locked_out [OF mx_reached(6) c(1) _ _ only a(3)] c a(1,2) by auto
qed

end
