(* ===== verification/Club.thy ===== *)
theory Club
  imports Competition_Types Members_Steps
begin

text \<open>
  \<open>internal/competitionpg/store.go\<close>: the tables of the competition and the operations that set a season up (events, teams,
  players, matches) and record an admin's result. Tables and statements are as in \<open>Members\<close>; the tables of members and
  the audit are those of \<open>Members\<close> (\<open>cl_Members\<close>), the outbox is the one of \<open>Outbox\<close>. Rows of other packages that mention
  a match, a team or an event (markets, submissions, media, imports) are pairs in \<open>cl_History\<close>. States of events and
  matches are the strings of the schema. \<open>now'\<close> is a reading of \<open>time.Now\<close>.
\<close>

section \<open>Tables\<close>

record event_row =
  cev_ID :: string
  cev_Slug :: string
  cev_Name :: string
  cev_SeasonYear :: go_int
  cev_Venue :: string
  cev_State :: string

record team_row =
  ctm_ID :: string
  ctm_EventID :: string
  ctm_Slug :: string
  ctm_Name :: string
  ctm_Version :: int64

record player_row =
  cpl_ID :: string
  cpl_LinkedUserID :: string \<comment> \<open>empty for \<open>NULL\<close>\<close>
  cpl_Slug :: string
  cpl_DisplayName :: string
  cpl_Active :: bool

record roster_row =
  cro_EventID :: string
  cro_TeamID :: string
  cro_PlayerID :: string
  cro_IsCaptain :: bool

record club_match_row =
  cmt_ID :: string
  cmt_EventID :: string
  cmt_Number :: int
  cmt_Format :: match_format
  cmt_State :: string

record side_row =
  csd_ID :: string
  csd_EventID :: string
  csd_MatchID :: string
  csd_Number :: nat
  csd_TeamID :: string

record participant_row =
  cpa_MatchID :: string
  cpa_SideID :: string
  cpa_PlayerID :: string
  cpa_Order :: nat

record verified_row =
  cvr_ID :: string
  cvr_MatchID :: string
  cvr_Version :: nat
  cvr_Side1Points :: rat
  cvr_Side2Points :: rat
  cvr_Outcome :: string
  cvr_VerifiedBy :: string
  cvr_Reason :: string
  cvr_DisplayScore :: string \<comment> \<open>empty for \<open>NULL\<close>\<close>

record tally =
  ta_Played :: int
  ta_Wins :: int
  ta_Losses :: int
  ta_Ties :: int
  ta_Points :: rat

record stat_row =
  cst_PlayerID :: string
  cst_EventID :: string
  cst_All :: tally
  cst_Singles :: tally
  cst_Team :: tally

record club_db =
  cl_Members :: members_db
  cl_Events :: "event_row list"
  cl_Teams :: "team_row list"
  cl_Players :: "player_row list"
  cl_Rosters :: "roster_row list"
  cl_Matches :: "club_match_row list"
  cl_Sides :: "side_row list"
  cl_Participants :: "participant_row list"
  cl_Verified :: "verified_row list"
  cl_Applied :: "string list" \<comment> \<open>\<open>match_stat_applications\<close>\<close>
  cl_Stats :: "stat_row list"
  cl_History :: "(string \<times> string) list"
  cl_Outbox :: "unit outbox"
  cl_Random :: "nat \<Rightarrow> nat \<Rightarrow> 8 word"
  cl_Draws :: nat

datatype club_error =
    ErrCompetition competition_error | ErrIdentity identity_error | ErrRequest string
  | ErrDeleteNotFound | ErrDeleteProtected | ErrRosterNotFound | ErrRosterProtected | ErrLastCaptain
  | ErrPlayerNotFound | ErrMemberNotFound | ErrPlayerAlreadyLinked | ErrMemberAlreadyLinked | ErrPlayerLinkMismatch
  | ErrPublishing publish_error | ErrClubDatabase

type_synonym 'a club_cmd = "(club_db, club_error, 'a) tx"

section \<open>Statements shared by the operations\<close>

definition cast :: "string \<Rightarrow> string club_cmd" where
  "cast s = cast_uuid ErrClubDatabase s"

lemma cast_Inr [cmd_simps]: "cast s db = Inr r \<longleftrightarrow> (\<exists>i. pg_uuid s = Some i \<and> r = (i, db))"
  by (simp add: cast_def cmd_simps)

definition club_uuid :: "string club_cmd" where
  \<comment> \<open>\<open>newUUID\<close> and the default \<open>gen_random_uuid()\<close> of a key column\<close>
  "club_uuid db = Inr (draw_uuid (cl_Random db) (cl_Draws db), db\<lparr>cl_Draws := Suc (cl_Draws db)\<rparr>)"

lemma club_uuid_Inr [cmd_simps]:
  "club_uuid db = Inr r \<longleftrightarrow> r = (draw_uuid (cl_Random db) (cl_Draws db), db\<lparr>cl_Draws := Suc (cl_Draws db)\<rparr>)"
  by (auto simp: club_uuid_def)

definition check :: "(club_db \<Rightarrow> bool) \<Rightarrow> unit club_cmd" where
  \<comment> \<open>the constraints of the statement that follows\<close>
  "check ok = query (\<lambda>db. if ok db then Inr () else Inl ErrClubDatabase)"

lemma check_Inr [cmd_simps]: "check ok db = Inr r \<longleftrightarrow> ok db \<and> r = ((), db)"
  by (auto simp: check_def cmd_simps split: if_split_asm)

definition user_ids :: "club_db \<Rightarrow> string set" where
  "user_ids db = ua_ID ` set (me_Users (cl_Members db))"

definition requireStaff :: "string \<Rightarrow> unit club_cmd" where
  "requireStaff actor = andThen (cast actor) (\<lambda>a. query (\<lambda>db.
     case first_row [mm_Role m. (u, m) \<leftarrow> member_rows (cl_Members db), mm_UserID m = a] of
       None \<Rightarrow> Inl (ErrIdentity Identity_Types.ErrUnauthorized)
     | Some r \<Rightarrow> if r \<noteq> Identity_Types.RoleAdmin \<and> r \<noteq> Identity_Types.RoleOwner
         then Inl (ErrIdentity Identity_Types.ErrUnauthorized) else Inr ()))"

definition club_audit :: "string \<Rightarrow> string \<Rightarrow> string \<Rightarrow> string \<Rightarrow> unit club_cmd" where
  \<comment> \<open>\<open>INSERT INTO audit_entries\<close>, without the JSON objects\<close>
  "club_audit actor action target reason = andThen (cast actor) (\<lambda>a. andThen (cast target) (\<lambda>t db.
     case members_audit a action t reason (cl_Members db) of Inl e \<Rightarrow> Inl (ErrIdentity e)
     | Inr (_, members) \<Rightarrow> Inr ((), db\<lparr>cl_Members := members\<rparr>)))"

definition maxSetupOutboxAttempts :: go_int where
  \<comment> \<open>\<open>maxOutboxAttempts\<close> of the package\<close>
  "maxSetupOutboxAttempts = 20"

definition announce ::
  "string \<Rightarrow> string \<Rightarrow> int64 \<Rightarrow> event_type \<Rightarrow> (string \<times> json_field) list \<Rightarrow> go_time \<Rightarrow> unit club_cmd" where
  \<comment> \<open>\<open>newUUID\<close>, \<open>json.Marshal\<close> and \<open>eventspg.Publish\<close> on the transaction\<close>
  "announce aggregateType aggregateID aggregateVersion eventType payload now' = andThen club_uuid (\<lambda>i db.
     case Publish \<lparr>e_ID = i, e_AggregateType = aggregateType, e_AggregateID = aggregateID,
         e_AggregateVersion = aggregateVersion, e_Type = eventType, e_Payload = json_Marshal payload,
         e_OccurredAt = UTC now', e_CorrelationID = [], e_CausationID = []\<rparr> maxSetupOutboxAttempts (cl_Outbox db) of
       (ob, None) \<Rightarrow> Inr ((), db\<lparr>cl_Outbox := ob\<rparr>) | (_, Some e) \<Rightarrow> Inl (ErrPublishing e))"

section \<open>Slugs\<close>

definition slug_char :: "char \<Rightarrow> bool" where
  "slug_char c \<longleftrightarrow> between 97 122 c \<or> is_digit c"

fun slug_strip :: "bool \<Rightarrow> string \<Rightarrow> string" where
  \<comment> \<open>\<open>[^a-z0-9]+\<close> replaced by a dash; the flag: inside such a run\<close>
  "slug_strip inside [] = []"
| "slug_strip inside (c # s) = (if slug_char c then c # slug_strip False s
     else if inside then slug_strip True s else CHR ''-'' # slug_strip True s)"

definition trim_dashes :: "string \<Rightarrow> string" where
  "trim_dashes s = rev (dropWhile (\<lambda>c. c = CHR ''-'') (rev (dropWhile (\<lambda>c. c = CHR ''-'') s)))"

definition slugify :: "platform \<Rightarrow> string \<Rightarrow> string" where
  "slugify P value = trim_dashes (slug_strip False (ToLower P (TrimSpace value)))"

fun slug_from :: "bool \<Rightarrow> string \<Rightarrow> bool" where
  \<comment> \<open>the flag: a letter or digit was just read\<close>
  "slug_from b [] = b"
| "slug_from b (c # s) = (if slug_char c then slug_from True s else c = CHR ''-'' \<and> b \<and> slug_from False s)"

definition slug_pattern :: "string \<Rightarrow> bool" where
  \<comment> \<open>\<open>CHECK (slug ~ '^[a-z0-9]+(?:-[a-z0-9]+)*$')\<close>\<close>
  "slug_pattern s = slug_from False s"

definition text_length :: "nat \<Rightarrow> string \<Rightarrow> bool" where
  \<comment> \<open>\<open>CHECK (length(btrim(s)) BETWEEN 1 AND n)\<close>\<close>
  "text_length n s \<longleftrightarrow> 1 \<le> RuneCount (btrim s) \<and> RuneCount (btrim s) \<le> n"

section \<open>Events, teams, players\<close>

definition createEvent :: "platform \<Rightarrow> string \<Rightarrow> string \<Rightarrow> go_int \<Rightarrow> string \<Rightarrow> string club_cmd" where
  "createEvent P name venue seasonYear createdBy =
    (let name = TrimSpace name; venue = TrimSpace venue; slug = slugify P (name @ ''-'' @ decimal (sint seasonYear)) in
    andThen (require (name \<noteq> [] \<and> venue \<noteq> []) (ErrRequest ''event requires a name and venue'')) (\<lambda>_.
    andThen (require (\<not> (sint seasonYear < 2010 \<or> sint seasonYear > 2200)) (ErrRequest ''event season year is out of range'')) (\<lambda>_.
    andThen (require (slug \<noteq> []) (ErrRequest ''event name must contain letters or digits'')) (\<lambda>_.
    andThen (cast createdBy) (\<lambda>u.
    andThen club_uuid (\<lambda>i.
    andThen (check (\<lambda>db. i \<notin> cev_ID ` set (cl_Events db) \<and> slug \<notin> cev_Slug ` set (cl_Events db) \<and> slug_pattern slug
      \<and> text_length 160 name \<and> text_length 200 venue \<and> u \<in> user_ids db
      \<and> (\<forall>e \<in> set (cl_Events db). \<not> (cev_SeasonYear e = seasonYear \<and> cev_Name e = name)))) (\<lambda>_.
    andThen (exec (\<lambda>db. db\<lparr>cl_Events := cl_Events db @ [\<lparr>cev_ID = i, cev_Slug = slug, cev_Name = name,
      cev_SeasonYear = seasonYear, cev_Venue = venue, cev_State = ''active''\<rparr>]\<rparr>)) (\<lambda>_. ret i))))))))"

definition createTeam :: "platform \<Rightarrow> string \<Rightarrow> string \<Rightarrow> string club_cmd" where
  \<comment> \<open>the argument \<open>createdBy\<close> is not used\<close>
  "createTeam P eventID name =
    (let name = TrimSpace name; slug = slugify P name in
    andThen (require (name \<noteq> []) (ErrRequest ''team requires a name'')) (\<lambda>_.
    andThen (require (slug \<noteq> []) (ErrRequest ''team name must contain letters or digits'')) (\<lambda>_.
    andThen (cast eventID) (\<lambda>e.
    andThen club_uuid (\<lambda>i.
    andThen (check (\<lambda>db. i \<notin> ctm_ID ` set (cl_Teams db) \<and> e \<in> cev_ID ` set (cl_Events db) \<and> slug_pattern slug
      \<and> text_length 120 name \<and> (\<forall>t \<in> set (cl_Teams db). \<not> (ctm_EventID t = e \<and> ctm_Slug t = slug)))) (\<lambda>_.
    andThen (exec (\<lambda>db. db\<lparr>cl_Teams := cl_Teams db @ [\<lparr>ctm_ID = i, ctm_EventID = e, ctm_Slug = slug, ctm_Name = name,
      ctm_Version = 1\<rparr>]\<rparr>)) (\<lambda>_. ret i)))))))"

definition createPlayer :: "platform \<Rightarrow> string \<Rightarrow> string \<Rightarrow> string club_cmd" where
  "createPlayer P displayName linkedUserID =
    (let displayName = TrimSpace displayName; slug = slugify P displayName in
    andThen (require (displayName \<noteq> []) (ErrRequest ''player requires a display name'')) (\<lambda>_.
    andThen (require (slug \<noteq> []) (ErrRequest ''player name must contain letters or digits'')) (\<lambda>_.
    andThen club_uuid (\<lambda>unique.
    let slug = slug @ ''-'' @ takeWhile (\<lambda>c. c \<noteq> CHR ''-'') unique in
    case null_uuid linkedUserID of None \<Rightarrow> throw ErrClubDatabase
    | Some u \<Rightarrow> andThen club_uuid (\<lambda>i.
    andThen (check (\<lambda>db. i \<notin> cpl_ID ` set (cl_Players db) \<and> slug \<notin> cpl_Slug ` set (cl_Players db) \<and> slug_pattern slug
      \<and> text_length 120 displayName \<and> (u = [] \<or> u \<in> user_ids db \<and> u \<notin> cpl_LinkedUserID ` set (cl_Players db)))) (\<lambda>_.
    andThen (exec (\<lambda>db. db\<lparr>cl_Players := cl_Players db @ [\<lparr>cpl_ID = i, cpl_LinkedUserID = u, cpl_Slug = slug,
      cpl_DisplayName = displayName, cpl_Active = True\<rparr>]\<rparr>)) (\<lambda>_. ret i)))))))"

section \<open>Matches\<close>

definition normalizeParticipantIDs :: "string list \<Rightarrow> string list" where
  "normalizeParticipantIDs playerIDs = filter (\<lambda>p. p \<noteq> []) (map TrimSpace playerIDs)"

fun participants_valid :: "string list \<Rightarrow> string list \<Rightarrow> club_error option" where
  \<comment> \<open>the loop, the map \<open>seen\<close> in the accumulator\<close>
  "participants_valid [] seen = None"
| "participants_valid (p # ps) seen = (if \<not> isUUID p then Some (ErrCompetition Competition_Types.ErrInvalid)
     else if p \<in> set seen then Some (ErrCompetition Competition_Types.ErrInvalid) else participants_valid ps (p # seen))"

definition validateParticipantIDs :: "string list \<Rightarrow> string list \<Rightarrow> club_error option" where
  "validateParticipantIDs sideOne sideTwo = participants_valid (sideOne @ sideTwo) []"

definition attempt :: "club_error option \<Rightarrow> unit club_cmd" where
  \<comment> \<open>\<open>if err := \<dots>; err != nil { return err }\<close>\<close>
  "attempt e = (case e of None \<Rightarrow> ret () | Some e \<Rightarrow> throw e)"

lemma attempt_Inr [cmd_simps]: "attempt e db = Inr r \<longleftrightarrow> e = None \<and> r = ((), db)"
  by (auto simp: attempt_def cmd_simps split: option.split)

definition cast_list :: "string list \<Rightarrow> string list club_cmd" where
  \<comment> \<open>\<open>$3::uuid[]\<close>\<close>
  "cast_list is = (case those (map pg_uuid is) of None \<Rightarrow> throw ErrClubDatabase | Some us \<Rightarrow> ret us)"

lemma cast_list_Inr [cmd_simps]: "cast_list is db = Inr r \<longleftrightarrow> (\<exists>us. those (map pg_uuid is) = Some us \<and> r = (us, db))"
  by (auto simp: cast_list_def cmd_simps split: option.split)

definition requireDistinctEventTeams :: "string \<Rightarrow> string \<Rightarrow> string \<Rightarrow> unit club_cmd" where
  "requireDistinctEventTeams e t1 t2 = query (\<lambda>db.
     if length (filter (\<lambda>t. ctm_EventID t = e \<and> ctm_ID t \<in> {t1, t2}) (cl_Teams db)) \<noteq> 2
     then Inl (ErrCompetition Competition_Types.ErrInvalid) else Inr ())"

definition team_roster :: "string \<Rightarrow> string \<Rightarrow> club_db \<Rightarrow> roster_row list" where
  "team_roster e t db = filter (\<lambda>r. cro_EventID r = e \<and> cro_TeamID r = t) (cl_Rosters db)"

definition active_players :: "club_db \<Rightarrow> string set" where
  "active_players db = cpl_ID ` set (filter cpl_Active (cl_Players db))"

definition requireActiveRosterPlayers :: "string \<Rightarrow> string \<Rightarrow> string list \<Rightarrow> unit club_cmd" where
  "requireActiveRosterPlayers e t playerIDs = andThen (cast_list playerIDs) (\<lambda>us. query (\<lambda>db.
     let roster = filter (\<lambda>r. cro_PlayerID r \<in> cpl_ID ` set (cl_Players db)) (team_roster e t db);
         activeCount = length (filter (\<lambda>r. cro_PlayerID r \<in> active_players db \<and> cro_PlayerID r \<in> set us) roster);
         captainCount = length (filter cro_IsCaptain roster)
     in if captainCount = 0 then Inl (ErrCompetition Competition_Types.ErrInvalid)
        else if activeCount \<noteq> length playerIDs then Inl (ErrCompetition Competition_Types.ErrInvalid)
        else Inr ()))"

definition side_constraints :: "side_row \<Rightarrow> club_db \<Rightarrow> bool" where
  "side_constraints r db \<longleftrightarrow> csd_ID r \<notin> csd_ID ` set (cl_Sides db)
     \<and> (\<exists>x \<in> set (cl_Matches db). cmt_EventID x = csd_EventID r \<and> cmt_ID x = csd_MatchID r)
     \<and> (\<exists>x \<in> set (cl_Teams db). ctm_EventID x = csd_EventID r \<and> ctm_ID x = csd_TeamID r)
     \<and> (\<forall>s \<in> set (cl_Sides db). \<not> (csd_MatchID s = csd_MatchID r \<and> (csd_Number s = csd_Number r \<or> csd_TeamID s = csd_TeamID r)))"

definition insertSide :: "string \<Rightarrow> string \<Rightarrow> nat \<Rightarrow> string \<Rightarrow> string club_cmd" where
  "insertSide e m number t =
    andThen club_uuid (\<lambda>i.
    let r = \<lparr>csd_ID = i, csd_EventID = e, csd_MatchID = m, csd_Number = number, csd_TeamID = t\<rparr> in
    andThen (check (side_constraints r)) (\<lambda>_.
    andThen (exec (\<lambda>db. db\<lparr>cl_Sides := cl_Sides db @ [r]\<rparr>)) (\<lambda>_. ret i)))"

definition insert_participant :: "string \<Rightarrow> string \<Rightarrow> string \<Rightarrow> nat \<Rightarrow> unit club_cmd" where
  "insert_participant m s p order =
    andThen (check (\<lambda>db. (\<exists>x \<in> set (cl_Sides db). csd_MatchID x = m \<and> csd_ID x = s) \<and> p \<in> cpl_ID ` set (cl_Players db)
      \<and> (\<forall>x \<in> set (cl_Participants db). \<not> (cpa_MatchID x = m \<and> cpa_PlayerID x = p)
          \<and> \<not> (cpa_SideID x = s \<and> cpa_Order x = order)))) (\<lambda>_.
    exec (\<lambda>db. db\<lparr>cl_Participants := cl_Participants db @ [\<lparr>cpa_MatchID = m, cpa_SideID = s, cpa_PlayerID = p, cpa_Order = order\<rparr>]\<rparr>))"

definition insertParticipants :: "string \<Rightarrow> string \<Rightarrow> string list \<Rightarrow> unit club_cmd" where
  \<comment> \<open>blank identifiers were removed by \<open>normalizeParticipantIDs\<close>\<close>
  "insertParticipants m s playerIDs = each (\<lambda>(k, p). andThen (cast p) (\<lambda>u. insert_participant m s u (Suc k)))
     (enumerate 0 playerIDs)"

definition next_number :: "string \<Rightarrow> club_db \<Rightarrow> int" where
  "next_number e db = Max (insert 0 (cmt_Number ` set (filter (\<lambda>m. cmt_EventID m = e) (cl_Matches db)))) + 1"

definition insert_match :: "string \<Rightarrow> match_format \<Rightarrow> string \<Rightarrow> string club_cmd" where
  "insert_match e format createdBy =
    andThen (query (\<lambda>db. Inr (next_number e db))) (\<lambda>number.
    andThen club_uuid (\<lambda>i.
    andThen (check (\<lambda>db. i \<notin> cmt_ID ` set (cl_Matches db) \<and> e \<in> cev_ID ` set (cl_Events db) \<and> createdBy \<in> user_ids db
      \<and> number < 2 ^ 31 \<and> ParticipantRuleFor format \<noteq> Inl Competition_Types.ErrInvalid)) (\<lambda>_.
    andThen (exec (\<lambda>db. db\<lparr>cl_Matches := cl_Matches db @ [\<lparr>cmt_ID = i, cmt_EventID = e, cmt_Number = number,
      cmt_Format = format, cmt_State = ''open''\<rparr>]\<rparr>)) (\<lambda>_. ret i))))"

record create_match_request =
  cmr_EventID :: string
  cmr_Format :: match_format
  cmr_Side1TeamID :: string
  cmr_Side2TeamID :: string
  cmr_Side1PlayerIDs :: "string list"
  cmr_Side2PlayerIDs :: "string list"
  cmr_CreatedBy :: string

definition createMatch :: "create_match_request \<Rightarrow> (string \<times> string \<times> string) club_cmd" where
  "createMatch req =
    (let players1 = normalizeParticipantIDs (cmr_Side1PlayerIDs req); players2 = normalizeParticipantIDs (cmr_Side2PlayerIDs req) in
    andThen (require (cmr_Side1TeamID req \<noteq> cmr_Side2TeamID req) (ErrRequest ''a match needs two different teams'')) (\<lambda>_.
    andThen (attempt (map_option ErrCompetition (ValidateParticipantCounts (cmr_Format req) (length players1) (length players2)))) (\<lambda>_.
    andThen (attempt (validateParticipantIDs players1 players2)) (\<lambda>_.
    andThen (requireStaff (cmr_CreatedBy req)) (\<lambda>_.
    andThen (cast (cmr_EventID req)) (\<lambda>e.
    andThen (cast (cmr_Side1TeamID req)) (\<lambda>t1.
    andThen (cast (cmr_Side2TeamID req)) (\<lambda>t2.
    andThen (requireDistinctEventTeams e t1 t2) (\<lambda>_.
    andThen (requireActiveRosterPlayers e t1 players1) (\<lambda>_.
    andThen (requireActiveRosterPlayers e t2 players2) (\<lambda>_.
    andThen (cast (cmr_CreatedBy req)) (\<lambda>u.
    andThen (insert_match e (cmr_Format req) u) (\<lambda>m.
    andThen (insertSide e m 1 t1) (\<lambda>s1.
    andThen (insertSide e m 2 t2) (\<lambda>s2.
    andThen (insertParticipants m s1 players1) (\<lambda>_.
    andThen (insertParticipants m s2 players2) (\<lambda>_.
    ret (m, s1, s2))))))))))))))))))"

section \<open>Results\<close>

definition loadSideIDs :: "string \<Rightarrow> (nat \<Rightarrow> string) club_cmd" where
  \<comment> \<open>the Go map by its lookup, which is empty for a missing key\<close>
  "loadSideIDs m = query (\<lambda>db.
     let sides = map (\<lambda>s. (csd_Number s, csd_ID s)) (filter (\<lambda>s. csd_MatchID s = m) (cl_Sides db))
     in if length (remdups (map fst sides)) \<noteq> 2 then Inl (ErrRequest ''match does not have two sides'')
        else Inr (\<lambda>n. case map_of (rev sides) n of None \<Rightarrow> [] | Some i \<Rightarrow> i))"

definition resolveOutcome :: "string \<Rightarrow> (nat \<Rightarrow> string) \<Rightarrow> string \<times> string \<times> rat \<times> rat" where
  "resolveOutcome winner sides =
    (if winner = ''side_1'' then (''side_win'', sides 1, 1, 0)
     else if winner = ''side_2'' then (''side_win'', sides 2, 0, 1)
     else (''tie'', [], 1 / 2, 1 / 2))"

definition verifiedOutcome :: "string \<Rightarrow> string" where
  "verifiedOutcome winner = (if winner = ''side_1'' then ''side_1'' else if winner = ''side_2'' then ''side_2'' else ''tie'')"

definition outcome_points_ok :: "string \<Rightarrow> rat \<Rightarrow> rat \<Rightarrow> bool" where
  \<comment> \<open>the check on \<open>verified_results\<close>\<close>
  "outcome_points_ok outcome p1 p2 \<longleftrightarrow> 0 \<le> p1 \<and> 0 \<le> p2 \<and> (outcome = ''side_1'' \<and> p1 > p2 \<or> outcome = ''side_2'' \<and> p2 > p1
     \<or> outcome = ''tie'' \<and> p1 = p2 \<or> outcome = ''void'' \<and> p1 = 0 \<and> p2 = 0)"

definition insert_verified :: "verified_row \<Rightarrow> string club_cmd" where
  "insert_verified r =
    andThen club_uuid (\<lambda>i.
    andThen (check (\<lambda>db. i \<notin> cvr_ID ` set (cl_Verified db) \<and> cvr_MatchID r \<in> cmt_ID ` set (cl_Matches db)
      \<and> (\<forall>v \<in> set (cl_Verified db). \<not> (cvr_MatchID v = cvr_MatchID r \<and> cvr_Version v = cvr_Version r))
      \<and> cvr_VerifiedBy r \<in> user_ids db \<and> btrim (cvr_Reason r) \<noteq> []
      \<and> (cvr_DisplayScore r = [] \<or> text_length 120 (cvr_DisplayScore r))
      \<and> outcome_points_ok (cvr_Outcome r) (cvr_Side1Points r) (cvr_Side2Points r))) (\<lambda>_.
    andThen (exec (\<lambda>db. db\<lparr>cl_Verified := cl_Verified db @ [r\<lparr>cvr_ID := i\<rparr>]\<rparr>)) (\<lambda>_. ret i)))"

definition set_match_state :: "string \<Rightarrow> string \<Rightarrow> club_db \<Rightarrow> club_db" where
  "set_match_state m s db = db\<lparr>cl_Matches := map (\<lambda>r. if cmt_ID r = m then r\<lparr>cmt_State := s\<rparr> else r) (cl_Matches db)\<rparr>"

definition latest_verification :: "string \<Rightarrow> club_db \<Rightarrow> verified_row option" where
  \<comment> \<open>\<open>ORDER BY version DESC LIMIT 1\<close>\<close>
  "latest_verification m db = first_row (sort_key (\<lambda>v. - int (cvr_Version v)) (filter (\<lambda>v. cvr_MatchID v = m) (cl_Verified db)))"

record result_payload =
  rp_MatchID :: string
  rp_CompetitionEventID :: string
  rp_VerificationID :: string
  rp_Outcome :: string
  rp_WinningSideID :: string
  rp_Score :: string

definition matchResultPayload :: "result_payload \<Rightarrow> (string \<times> json_field) list" where
  \<comment> \<open>\<open>winning_side_id\<close> has the tag \<open>omitempty\<close>\<close>
  "matchResultPayload p = [(''match_id'', JString (rp_MatchID p)), (''competition_event_id'', JString (rp_CompetitionEventID p)),
     (''verification_id'', JString (rp_VerificationID p)), (''outcome'', JString (rp_Outcome p))]
     @ (if rp_WinningSideID p = [] then [] else [(''winning_side_id'', JString (rp_WinningSideID p))])
     @ [(''score'', JString (rp_Score p))]"

record record_result_request =
  rr_MatchID :: string
  rr_Winner :: string
  rr_Score :: string
  rr_ActorUserID :: string
  rr_Reason :: string

definition verify_match :: "record_result_request \<Rightarrow> string \<Rightarrow> string \<Rightarrow> go_time \<Rightarrow> string club_cmd" where
  \<comment> \<open>the part after the state of the match was checked; \<open>m\<close>: the match, \<open>eventID\<close>: its event\<close>
  "verify_match req m eventID now' =
    andThen (cast (rr_ActorUserID req)) (\<lambda>u.
    andThen (loadSideIDs m) (\<lambda>sides.
    case resolveOutcome (rr_Winner req) sides of (outcome, winningSideID, p1, p2) \<Rightarrow>
    andThen (insert_verified \<lparr>cvr_ID = [], cvr_MatchID = m, cvr_Version = 1, cvr_Side1Points = p1, cvr_Side2Points = p2,
      cvr_Outcome = verifiedOutcome (rr_Winner req), cvr_VerifiedBy = u, cvr_Reason = rr_Reason req,
      cvr_DisplayScore = rr_Score req\<rparr>) (\<lambda>verificationID.
    andThen (exec (set_match_state m ''verified'')) (\<lambda>_.
    andThen (club_audit (rr_ActorUserID req) ''competition.result_admin_verified'' (rr_MatchID req) (TrimSpace (rr_Reason req))) (\<lambda>_.
    andThen (announce ''match'' (rr_MatchID req) 1 MatchResultVerified
      (matchResultPayload \<lparr>rp_MatchID = rr_MatchID req, rp_CompetitionEventID = eventID, rp_VerificationID = verificationID,
        rp_Outcome = outcome, rp_WinningSideID = winningSideID, rp_Score = rr_Score req\<rparr>) now') (\<lambda>_.
    ret verificationID))))))"

definition cleaned :: "record_result_request \<Rightarrow> record_result_request" where
  "cleaned req = req\<lparr>rr_Reason := (if TrimSpace (rr_Reason req) = [] then ''Recorded by admin'' else TrimSpace (rr_Reason req)),
     rr_Score := TrimSpace (rr_Score req)\<rparr>"

definition recordAdminResult :: "record_result_request \<Rightarrow> go_time \<Rightarrow> string club_cmd" where
  "recordAdminResult req now' =
    andThen (require (rr_Winner req \<in> {''side_1'', ''side_2'', ''tie''}) (ErrRequest ''winner must be side_1, side_2, or tie'')) (\<lambda>_.
    andThen (require (\<not> length (rr_Score (cleaned req)) > 120) (ErrRequest ''score must be at most 120 characters'')) (\<lambda>_.
    andThen (requireStaff (rr_ActorUserID req)) (\<lambda>_.
    andThen (cast (rr_MatchID req)) (\<lambda>m.
    andThen (query (\<lambda>db. case first_row (filter (\<lambda>r. cmt_ID r = m) (cl_Matches db)) of
      None \<Rightarrow> Inl (ErrRequest ''match not found'') | Some r \<Rightarrow> Inr r)) (\<lambda>r.
    if cmt_State r = ''verified''
    then query (\<lambda>db. case latest_verification m db of None \<Rightarrow> Inl ErrClubDatabase | Some v \<Rightarrow> Inr (cvr_ID v))
    else andThen (require (cmt_State r \<in> {''open'', ''pending_verification'', ''disputed''}) (ErrRequest ''match cannot be verified''))
      (\<lambda>_. verify_match (cleaned req) m (cmt_EventID r) now'))))))"

end
