(* ===== verification/Club_Slugs.thy ===== *)
theory Club_Slugs
  imports Club
begin

text \<open>
  The slugs of events, teams and players: whatever the name, a slug that is not empty satisfies the pattern that the
  schema demands.
\<close>

fun dashes :: "bool \<Rightarrow> string \<Rightarrow> bool" where
  \<comment> \<open>letters, digits and single dashes; the flag: a dash was just read\<close>
  "dashes b [] = True"
| "dashes b (c # s) = (if slug_char c then dashes False s else c = CHR ''-'' \<and> \<not> b \<and> dashes True s)"

lemma not_slug_dash: "\<not> slug_char CHR ''-''"
  by (simp add: slug_char_def between_def byte_def)

lemma slug_strip_dashes: "dashes b (slug_strip b s)"
  by (induction b s rule: slug_strip.induct) (auto simp: not_slug_dash)

lemma dashes_prefix: "dashes b (xs @ ys) \<Longrightarrow> dashes b xs"
  by (induction b xs rule: dashes.induct) (auto split: if_split_asm)

lemma dashes_elem: "dashes b s \<Longrightarrow> c \<in> set s \<Longrightarrow> slug_char c \<or> c = CHR ''-''"
  by (induction b s rule: dashes.induct) (auto split: if_split_asm)

lemma dashes_weaken: "dashes True s \<Longrightarrow> dashes False s"
  by (cases s) (auto split: if_split_asm)

lemma dashes_dropWhile: "dashes b s \<Longrightarrow> dashes True (dropWhile (\<lambda>c. c = CHR ''-'') s)"
proof (induction b s rule: dashes.induct)
  case (2 b c s)
  then show ?case by (cases "slug_char c") (auto simp: not_slug_dash)
qed simp

lemma slug_from_dashes:
  "dashes (\<not> b) s \<Longrightarrow> (s = [] \<Longrightarrow> b) \<Longrightarrow> (s \<noteq> [] \<Longrightarrow> slug_char (last s)) \<Longrightarrow> slug_from b s"
proof (induction s arbitrary: b)
  case (Cons c s)
  show ?case
  proof (cases "slug_char c")
    case True
    then show ?thesis using Cons.prems by (cases "s = []") (auto intro!: Cons.IH)
  next
    case False
    then have "s \<noteq> []" using Cons.prems(3) by auto
    then show ?thesis using Cons.prems False by (auto intro!: Cons.IH)
  qed
qed simp

lemma trim_dashes_slug:
  assumes "dashes False s" "trim_dashes s \<noteq> []"
  shows "slug_from False (trim_dashes s)"
proof (rule slug_from_dashes)
  let ?t = "dropWhile (\<lambda>c. c = CHR ''-'') s"
  have "?t = rev (rev ?t)" by simp
  also have "\<dots> = rev (takeWhile (\<lambda>c. c = CHR ''-'') (rev ?t) @ dropWhile (\<lambda>c. c = CHR ''-'') (rev ?t))"
    by (simp only: takeWhile_dropWhile_id)
  also have "\<dots> = trim_dashes s @ rev (takeWhile (\<lambda>c. c = CHR ''-'') (rev ?t))" by (simp only: rev_append trim_dashes_def)
  finally have "dashes True (trim_dashes s @ rev (takeWhile (\<lambda>c. c = CHR ''-'') (rev ?t)))"
    using dashes_dropWhile [OF assms(1)] by simp
  then show clean: "dashes (\<not> False) (trim_dashes s)" by (auto dest: dashes_prefix)
  have "last (trim_dashes s) \<noteq> CHR ''-''"
    using assms(2) hd_dropWhile [of "\<lambda>c. c = CHR ''-''" "rev ?t"] by (simp add: trim_dashes_def last_rev)
  then show "slug_char (last (trim_dashes s))" using dashes_elem [OF clean] assms(2) last_in_set by blast
qed (use assms in simp)

end
