(* ===== verification/Club_Roster.thy ===== *)
theory Club_Roster
  imports Club
begin

text \<open>
  \<open>internal/competitionpg/roster.go\<close>, \<open>delete.go\<close> and \<open>links.go\<close>: who is on a team of an event, the deletion of an unused
  match, team or event, and the link between a player and a member. The JSON objects of the audit are left out.
\<close>

section \<open>Rosters\<close>

definition lockRosterTeam :: "string \<Rightarrow> string \<Rightarrow> int64 club_cmd" where
  "lockRosterTeam e t = query (\<lambda>db. case first_row (filter (\<lambda>x. ctm_ID x = t \<and> ctm_EventID x = e) (cl_Teams db)) of
     None \<Rightarrow> Inl ErrDeleteNotFound | Some x \<Rightarrow> Inr (ctm_Version x))"

definition roster_entry :: "string \<Rightarrow> string \<Rightarrow> string \<Rightarrow> club_db \<Rightarrow> roster_row option" where
  "roster_entry e t p db = first_row (filter (\<lambda>r. cro_PlayerID r = p) (team_roster e t db))"

definition captains :: "roster_row list \<Rightarrow> nat" where
  "captains rs = length (filter cro_IsCaptain rs)"

definition upsert_roster :: "string \<Rightarrow> string \<Rightarrow> string \<Rightarrow> bool \<Rightarrow> unit club_cmd" where
  \<comment> \<open>\<open>INSERT \<dots> ON CONFLICT (event_id, player_id) DO UPDATE \<dots> WHERE team_id = EXCLUDED.team_id\<close>\<close>
  "upsert_roster e t p captain db =
    (if \<exists>r \<in> set (cl_Rosters db). cro_EventID r = e \<and> cro_PlayerID r = p then
       Inr ((), db\<lparr>cl_Rosters := map (\<lambda>r. if cro_EventID r = e \<and> cro_PlayerID r = p \<and> cro_TeamID r = t
         then r\<lparr>cro_IsCaptain := captain\<rparr> else r) (cl_Rosters db)\<rparr>)
     else if (\<exists>r \<in> set (cl_Rosters db). cro_TeamID r = t \<and> cro_PlayerID r = p)
         \<or> \<not> (\<exists>x \<in> set (cl_Teams db). ctm_EventID x = e \<and> ctm_ID x = t) \<or> p \<notin> cpl_ID ` set (cl_Players db)
       then Inl ErrClubDatabase
     else Inr ((), db\<lparr>cl_Rosters := cl_Rosters db @ [\<lparr>cro_EventID = e, cro_TeamID = t, cro_PlayerID = p, cro_IsCaptain = captain\<rparr>]\<rparr>))"

definition set_team_version :: "string \<Rightarrow> int64 \<Rightarrow> unit club_cmd" where
  \<comment> \<open>\<open>UPDATE teams SET version = $2\<close>, with \<open>CHECK (version > 0)\<close>\<close>
  "set_team_version t v =
    andThen (check (\<lambda>db. (\<exists>x \<in> set (cl_Teams db). ctm_ID x = t) \<longrightarrow> 0 < sint v)) (\<lambda>_.
    exec (\<lambda>db. db\<lparr>cl_Teams := map (\<lambda>x. if ctm_ID x = t then x\<lparr>ctm_Version := v\<rparr> else x) (cl_Teams db)\<rparr>))"

record team_member_request =
  tm_EventID :: string
  tm_TeamID :: string
  tm_PlayerID :: string
  tm_IsCaptain :: bool
  tm_ActorUserID :: string

definition teamRosterPayload :: "team_member_request \<Rightarrow> string \<Rightarrow> bool \<Rightarrow> (string \<times> json_field) list" where
  "teamRosterPayload req action isCaptain =
    [(''event_id'', JString (tm_EventID req)), (''team_id'', JString (tm_TeamID req)),
     (''player_id'', JString (tm_PlayerID req)), (''action'', JString action), (''is_captain'', JBool isCaptain)]"

definition publishRosterChanged :: "team_member_request \<Rightarrow> int64 \<Rightarrow> string \<Rightarrow> bool \<Rightarrow> go_time \<Rightarrow> unit club_cmd" where
  "publishRosterChanged req version action isCaptain =
    announce ''team'' (tm_TeamID req) version TeamRosterChanged (teamRosterPayload req action isCaptain)"

definition recordRosterAudit :: "string \<Rightarrow> string \<Rightarrow> string \<Rightarrow> string \<Rightarrow> unit club_cmd" where
  "recordRosterAudit actor teamID action = club_audit actor (''competition.roster_'' @ action) teamID"

definition change_roster :: "team_member_request \<Rightarrow> string \<Rightarrow> string \<Rightarrow> string \<Rightarrow> int64 \<Rightarrow> bool \<Rightarrow> bool \<Rightarrow> go_time \<Rightarrow> unit club_cmd" where
  \<comment> \<open>the statements of \<open>SetTeamMember\<close> after its checks\<close>
  "change_roster req e t p version existed newCaptain now' =
    andThen (upsert_roster e t p newCaptain) (\<lambda>_.
    andThen (query (\<lambda>db. Inr (roster_entry e t p db \<noteq> None))) (\<lambda>belongsToTeam.
    andThen (require belongsToTeam (ErrCompetition Competition_Types.ErrInvalid)) (\<lambda>_.
    andThen (set_team_version t (version + 1)) (\<lambda>_.
    let action = if existed then ''captain_status_changed'' else ''added'' in
    andThen (recordRosterAudit (tm_ActorUserID req) (tm_TeamID req) action ''team roster updated'') (\<lambda>_.
    publishRosterChanged req (version + 1) action newCaptain now')))))"

definition set_member ::
  "team_member_request \<Rightarrow> string \<Rightarrow> string \<Rightarrow> string \<Rightarrow> int64 \<Rightarrow> roster_row option \<Rightarrow> roster_row list \<Rightarrow> go_time \<Rightarrow> unit club_cmd" where
  \<comment> \<open>\<open>SetTeamMember\<close> once the member and the roster of the team were read\<close>
  "set_member req e t p version member roster now' =
    (let existed = member \<noteq> None; oldCaptain = (case member of None \<Rightarrow> False | Some r \<Rightarrow> cro_IsCaptain r);
         newCaptain = tm_IsCaptain req \<or> length roster = 0 \<or> captains roster = 0 in
    andThen (require (\<not> (existed \<and> oldCaptain \<and> \<not> newCaptain \<and> captains roster = 1)) ErrLastCaptain) (\<lambda>_.
    if existed \<and> oldCaptain = newCaptain then ret ()
    else change_roster req e t p version existed newCaptain now'))"

definition setTeamMember :: "team_member_request \<Rightarrow> go_time \<Rightarrow> unit club_cmd" where
  "setTeamMember req now' =
    andThen (require (isUUID (tm_EventID req) \<and> isUUID (tm_TeamID req) \<and> isUUID (tm_PlayerID req))
      (ErrCompetition Competition_Types.ErrInvalid)) (\<lambda>_.
    andThen (requireStaff (tm_ActorUserID req)) (\<lambda>_.
    andThen (cast (tm_EventID req)) (\<lambda>e. andThen (cast (tm_TeamID req)) (\<lambda>t. andThen (cast (tm_PlayerID req)) (\<lambda>p.
    andThen (lockRosterTeam e t) (\<lambda>version.
    andThen (query (\<lambda>db. if p \<in> active_players db then Inr () else Inl (ErrCompetition Competition_Types.ErrInvalid))) (\<lambda>_.
    andThen (query (\<lambda>db. Inr (roster_entry e t p db, team_roster e t db))) (\<lambda>(member, roster).
    set_member req e t p version member roster now'))))))))"

definition maxDeleteReasonLength :: nat where
  "maxDeleteReasonLength = 500"

definition plays_for :: "string \<Rightarrow> string \<Rightarrow> string \<Rightarrow> club_db \<Rightarrow> bool" where
  "plays_for e t p db \<longleftrightarrow> (\<exists>a \<in> set (cl_Participants db). \<exists>s \<in> set (cl_Sides db).
     csd_ID s = cpa_SideID a \<and> csd_EventID s = e \<and> csd_TeamID s = t \<and> cpa_PlayerID a = p)"

definition removal_guard :: "string \<Rightarrow> string \<Rightarrow> string \<Rightarrow> club_db \<Rightarrow> club_error + unit" where
  \<comment> \<open>\<open>RemoveTeamMember\<close> up to the deletion of the row\<close>
  "removal_guard e t p db =
    (case first_row (filter (\<lambda>r. cro_PlayerID r \<in> cpl_ID ` set (cl_Players db) \<and> cro_PlayerID r = p) (team_roster e t db)) of
       None \<Rightarrow> Inl ErrRosterNotFound
     | Some r \<Rightarrow> if plays_for e t p db then Inl ErrRosterProtected
         else let others = filter (\<lambda>x. cro_PlayerID x \<noteq> p) (team_roster e t db) in
           if cro_IsCaptain r \<and> length others > 0 \<and> captains others = 0 then Inl ErrLastCaptain else Inr ())"

definition delete_roster :: "string \<Rightarrow> string \<Rightarrow> string \<Rightarrow> club_db \<Rightarrow> club_db" where
  "delete_roster e t p db = db\<lparr>cl_Rosters := filter (\<lambda>r. \<not> (cro_EventID r = e \<and> cro_TeamID r = t \<and> cro_PlayerID r = p)) (cl_Rosters db)\<rparr>"

definition removeTeamMember :: "string \<Rightarrow> string \<Rightarrow> string \<Rightarrow> string \<Rightarrow> string \<Rightarrow> go_time \<Rightarrow> unit club_cmd" where
  "removeTeamMember eventID teamID playerID actor reason now' =
    andThen (require (isUUID eventID \<and> isUUID teamID \<and> isUUID playerID) (ErrCompetition Competition_Types.ErrInvalid)) (\<lambda>_.
    let reason = TrimSpace reason in
    andThen (require (\<not> (reason = [] \<or> length reason > maxDeleteReasonLength))
      (ErrRequest ''roster removal requires a reason of at most 500 characters'')) (\<lambda>_.
    andThen (requireStaff actor) (\<lambda>_.
    andThen (cast eventID) (\<lambda>e. andThen (cast teamID) (\<lambda>t. andThen (cast playerID) (\<lambda>p.
    andThen (lockRosterTeam e t) (\<lambda>version.
    andThen (query (removal_guard e t p)) (\<lambda>_.
    andThen (exec (delete_roster e t p)) (\<lambda>_.
    andThen (set_team_version t (version + 1)) (\<lambda>_.
    andThen (recordRosterAudit actor teamID ''removed'' reason) (\<lambda>_.
    publishRosterChanged \<lparr>tm_EventID = eventID, tm_TeamID = teamID, tm_PlayerID = playerID, tm_IsCaptain = False,
      tm_ActorUserID = actor\<rparr> (version + 1) ''removed'' False now')))))))))))"

section \<open>Deletions\<close>

record deleted_setup =
  ds_RecordType :: string
  ds_RecordID :: string
  ds_Name :: string
  ds_Reason :: string

definition setupDeletedPayload :: "deleted_setup \<Rightarrow> (string \<times> json_field) list" where
  "setupDeletedPayload d = [(''record_type'', JString (ds_RecordType d)), (''record_id'', JString (ds_RecordID d)),
     (''name'', JString (ds_Name d)), (''reason'', JString (ds_Reason d))]"

definition publishSetupDeleted :: "deleted_setup \<Rightarrow> go_time \<Rightarrow> unit club_cmd" where
  "publishSetupDeleted d = announce (ds_RecordType d) (ds_RecordID d) 1 CompetitionSetupDeleted (setupDeletedPayload d)"

definition deleteSetup :: "string \<Rightarrow> string \<Rightarrow> (string \<Rightarrow> deleted_setup club_cmd) \<Rightarrow> go_time \<Rightarrow> unit club_cmd" where
  "deleteSetup actor reason deleteRecord now' = (let reason = TrimSpace reason in
    andThen (require (\<not> (reason = [] \<or> length reason > maxDeleteReasonLength))
      (ErrRequest ''deletion requires a reason of at most 500 characters'')) (\<lambda>_.
    andThen (requireStaff actor) (\<lambda>_.
    andThen (deleteRecord reason) (\<lambda>d.
    andThen (club_audit actor (''competition.'' @ ds_RecordType d @ ''_deleted'') (ds_RecordID d) (ds_Reason d)) (\<lambda>_.
    publishSetupDeleted d now')))))"

definition referenced :: "string list \<Rightarrow> string \<Rightarrow> club_db \<Rightarrow> bool" where
  \<comment> \<open>a row of one of these tables of other packages names the record\<close>
  "referenced tables i db \<longleftrightarrow> (\<exists>t \<in> set tables. (t, i) \<in> set (cl_History db))"

definition match_protected :: "club_match_row \<Rightarrow> club_db \<Rightarrow> bool" where
  "match_protected r db \<longleftrightarrow> cmt_State r \<notin> {''scheduled'', ''open''}
     \<or> referenced [''markets'', ''result_submissions'', ''media_match_links'', ''legacy_import_records''] (cmt_ID r) db
     \<or> cmt_ID r \<in> cvr_MatchID ` set (cl_Verified db) \<or> cmt_ID r \<in> set (cl_Applied db)"

definition delete_match :: "string \<Rightarrow> club_db \<Rightarrow> club_db" where
  \<comment> \<open>\<open>ON DELETE CASCADE\<close> on the sides and their participants\<close>
  "delete_match m db = db\<lparr>cl_Matches := filter (\<lambda>r. cmt_ID r \<noteq> m) (cl_Matches db),
     cl_Sides := filter (\<lambda>s. csd_MatchID s \<noteq> m) (cl_Sides db),
     cl_Participants := filter (\<lambda>p. cpa_MatchID p \<noteq> m) (cl_Participants db)\<rparr>"

definition side_team_name :: "string \<Rightarrow> nat \<Rightarrow> club_db \<Rightarrow> string" where
  "side_team_name m k db = (case first_row [ctm_Name t. s \<leftarrow> cl_Sides db, csd_MatchID s = m \<and> csd_Number s = k,
     t \<leftarrow> cl_Teams db, ctm_ID t = csd_TeamID s] of None \<Rightarrow> [] | Some n \<Rightarrow> n)"

definition match_label :: "club_match_row \<Rightarrow> club_db \<Rightarrow> string" where
  \<comment> \<open>the two bytes of the middle dot\<close>
  "match_label r db = ''Match '' @ decimal (cmt_Number r) @ '' '' @ [CHR 0xC2, CHR 0xB7] @ '' ''
     @ side_team_name (cmt_ID r) 1 db @ '' vs '' @ side_team_name (cmt_ID r) 2 db"

definition deleteMatch :: "string \<Rightarrow> string \<Rightarrow> string \<Rightarrow> go_time \<Rightarrow> unit club_cmd" where
  "deleteMatch matchID actor reason = deleteSetup actor reason (\<lambda>reason. andThen (cast matchID) (\<lambda>m.
    andThen (query (\<lambda>db. case first_row (filter (\<lambda>r. cmt_ID r = m) (cl_Matches db)) of None \<Rightarrow> Inl ErrDeleteNotFound
      | Some r \<Rightarrow> if match_protected r db then Inl ErrDeleteProtected else Inr (match_label r db))) (\<lambda>name.
    andThen (exec (delete_match m)) (\<lambda>_.
    ret \<lparr>ds_RecordType = ''match'', ds_RecordID = matchID, ds_Name = name, ds_Reason = reason\<rparr>))))"

definition team_protected :: "string \<Rightarrow> club_db \<Rightarrow> bool" where
  "team_protected t db \<longleftrightarrow> t \<in> csd_TeamID ` set (cl_Sides db) \<or> t \<in> cro_TeamID ` set (cl_Rosters db)
     \<or> referenced [''legacy_import_records''] t db"

definition delete_team :: "string \<Rightarrow> club_db \<Rightarrow> club_db" where
  \<comment> \<open>\<open>ON DELETE CASCADE\<close> on the roster\<close>
  "delete_team t db = db\<lparr>cl_Teams := filter (\<lambda>x. ctm_ID x \<noteq> t) (cl_Teams db),
     cl_Rosters := filter (\<lambda>r. cro_TeamID r \<noteq> t) (cl_Rosters db)\<rparr>"

definition deleteTeam :: "string \<Rightarrow> string \<Rightarrow> string \<Rightarrow> string \<Rightarrow> go_time \<Rightarrow> unit club_cmd" where
  "deleteTeam eventID teamID actor reason = deleteSetup actor reason (\<lambda>reason.
    andThen (cast teamID) (\<lambda>t. andThen (cast eventID) (\<lambda>e.
    andThen (query (\<lambda>db. case first_row (filter (\<lambda>x. ctm_ID x = t \<and> ctm_EventID x = e) (cl_Teams db)) of
      None \<Rightarrow> Inl ErrDeleteNotFound
      | Some x \<Rightarrow> if team_protected t db then Inl ErrDeleteProtected else Inr (ctm_Name x))) (\<lambda>name.
    andThen (exec (delete_team t)) (\<lambda>_.
    ret \<lparr>ds_RecordType = ''team'', ds_RecordID = teamID, ds_Name = name, ds_Reason = reason\<rparr>)))))"

definition event_protected :: "event_row \<Rightarrow> club_db \<Rightarrow> bool" where
  "event_protected v db \<longleftrightarrow> cev_State v \<notin> {''draft'', ''scheduled'', ''active''}
     \<or> cev_ID v \<in> ctm_EventID ` set (cl_Teams db) \<or> cev_ID v \<in> cmt_EventID ` set (cl_Matches db)
     \<or> cev_ID v \<in> cst_EventID ` set (cl_Stats db)
     \<or> referenced [''media_event_links'', ''legacy_import_records''] (cev_ID v) db"

definition delete_event :: "string \<Rightarrow> club_db \<Rightarrow> club_db" where
  \<comment> \<open>\<open>ON DELETE CASCADE\<close> on the rosters; an event that is deleted has no teams, matches or statistics\<close>
  "delete_event e db = db\<lparr>cl_Events := filter (\<lambda>x. cev_ID x \<noteq> e) (cl_Events db),
     cl_Rosters := filter (\<lambda>r. cro_EventID r \<noteq> e) (cl_Rosters db)\<rparr>"

definition deleteEvent :: "string \<Rightarrow> string \<Rightarrow> string \<Rightarrow> go_time \<Rightarrow> unit club_cmd" where
  "deleteEvent eventID actor reason = deleteSetup actor reason (\<lambda>reason. andThen (cast eventID) (\<lambda>e.
    andThen (query (\<lambda>db. case first_row (filter (\<lambda>x. cev_ID x = e) (cl_Events db)) of None \<Rightarrow> Inl ErrDeleteNotFound
      | Some v \<Rightarrow> if event_protected v db then Inl ErrDeleteProtected
          else Inr (cev_Name v @ '' '' @ decimal (sint (cev_SeasonYear v))))) (\<lambda>name.
    andThen (exec (delete_event e)) (\<lambda>_.
    ret \<lparr>ds_RecordType = ''event'', ds_RecordID = eventID, ds_Name = name, ds_Reason = reason\<rparr>))))"

section \<open>Links between players and members\<close>

definition link_actions :: "string set" where
  "link_actions = {''player.linked_to_user'', ''player.unlinked_from_user''}"

definition link_version :: "string \<Rightarrow> club_db \<Rightarrow> nat" where
  \<comment> \<open>the audit entries of the player's link; the two actions are recorded for players only\<close>
  "link_version p db = length (filter (\<lambda>a. au_TargetID a = p \<and> au_Action a \<in> link_actions) (me_Audit (cl_Members db)))"

definition publishPlayerLinkEvent :: "string \<Rightarrow> string \<Rightarrow> event_type \<Rightarrow> go_time \<Rightarrow> unit club_cmd" where
  "publishPlayerLinkEvent playerID userID eventType now' = andThen (cast playerID) (\<lambda>p.
    andThen (query (\<lambda>db. Inr (link_version p db))) (\<lambda>version.
    announce ''player'' playerID (of_nat version) eventType
      [(''player_id'', JString playerID), (''user_id'', JString userID)] now'))"

definition set_link :: "string \<Rightarrow> string \<Rightarrow> unit club_cmd" where
  \<comment> \<open>\<open>UPDATE players SET linked_user_id\<close>, empty for \<open>NULL\<close>; the column is unique\<close>
  "set_link p u = andThen (check (\<lambda>db. u = [] \<or> u \<in> user_ids db \<and>
      (\<forall>x \<in> set (cl_Players db). cpl_LinkedUserID x = u \<longrightarrow> cpl_ID x = p))) (\<lambda>_.
    exec (\<lambda>db. db\<lparr>cl_Players := map (\<lambda>x. if cpl_ID x = p then x\<lparr>cpl_LinkedUserID := u\<rparr> else x) (cl_Players db)\<rparr>))"

definition link_target :: "string \<Rightarrow> string \<Rightarrow> club_db \<Rightarrow> club_error + string" where
  \<comment> \<open>the two queries on players of \<open>LinkPlayerToUser\<close>; the value is the current link\<close>
  "link_target u p db =
    (if \<exists>x \<in> set (cl_Players db). cpl_LinkedUserID x = u \<and> cpl_ID x \<noteq> p then Inl ErrMemberAlreadyLinked
     else case first_row (filter (\<lambda>x. cpl_ID x = p \<and> cpl_Active x) (cl_Players db)) of
       None \<Rightarrow> Inl ErrPlayerNotFound | Some x \<Rightarrow> Inr (cpl_LinkedUserID x))"

definition linkPlayerToUser :: "string \<Rightarrow> string \<Rightarrow> string \<Rightarrow> go_time \<Rightarrow> unit club_cmd" where
  "linkPlayerToUser actor playerID targetUserID now' =
    andThen (requireStaff actor) (\<lambda>_.
    andThen (cast targetUserID) (\<lambda>u.
    andThen (query (\<lambda>db. if first_row (filter (\<lambda>(a, m). mm_UserID m = u) (member_rows (cl_Members db))) = None
      then Inl ErrMemberNotFound else Inr ())) (\<lambda>_.
    andThen (cast playerID) (\<lambda>p.
    andThen (query (link_target u p)) (\<lambda>currentUser.
    if currentUser = targetUserID then ret ()
    else andThen (require (currentUser = []) ErrPlayerAlreadyLinked) (\<lambda>_.
    andThen (set_link p u) (\<lambda>_.
    andThen (club_audit actor ''player.linked_to_user'' playerID ''mapped member to historical player'') (\<lambda>_.
    publishPlayerLinkEvent playerID targetUserID PlayerLinkedToUser now'))))))))"

definition unlinkPlayer :: "string \<Rightarrow> string \<Rightarrow> string \<Rightarrow> go_time \<Rightarrow> unit club_cmd" where
  "unlinkPlayer actor playerID targetUserID now' =
    andThen (requireStaff actor) (\<lambda>_.
    andThen (cast playerID) (\<lambda>p.
    andThen (query (\<lambda>db. case first_row (filter (\<lambda>x. cpl_ID x = p) (cl_Players db)) of
      None \<Rightarrow> Inl ErrPlayerNotFound | Some x \<Rightarrow> Inr (cpl_LinkedUserID x))) (\<lambda>currentUser.
    if currentUser = [] then ret ()
    else andThen (require (currentUser = targetUserID) ErrPlayerLinkMismatch) (\<lambda>_.
    andThen (set_link p []) (\<lambda>_.
    andThen (club_audit actor ''player.unlinked_from_user'' playerID ''removed member-player mapping'') (\<lambda>_.
    publishPlayerLinkEvent playerID targetUserID PlayerUnlinkedFromUser now'))))))"

end
