(* ===== verification/Club_Stats.thy ===== *)
theory Club_Stats
  imports Club_Roster
begin

text \<open>
  \<open>internal/competitionpg/stats.go\<close>: the consumer of verified results that projects player statistics. Its argument is the
  payload after \<open>json.Unmarshal\<close>, \<open>None\<close> when that fails. Points are rationals with two decimals in the schema.
\<close>

definition Stats_Handles :: "event_type \<Rightarrow> bool" where
  "Stats_Handles t \<longleftrightarrow> t = MatchResultVerified"

definition outcomeForSide :: "string \<Rightarrow> string \<Rightarrow> string \<Rightarrow> int \<times> int \<times> int \<times> rat" where
  "outcomeForSide outcome winningSideID sideID =
    (if outcome = ''tie'' then (0, 0, 1, 1 / 2)
     else if outcome = ''side_win'' then (if sideID = winningSideID then (1, 0, 0, 1) else (0, 1, 0, 0))
     else (0, 0, 0, 0))"

definition no_tally :: tally where
  "no_tally = \<lparr>ta_Played = 0, ta_Wins = 0, ta_Losses = 0, ta_Ties = 0, ta_Points = 0\<rparr>"

definition add_tally :: "tally \<Rightarrow> tally \<Rightarrow> tally" where
  "add_tally s t = \<lparr>ta_Played = ta_Played s + ta_Played t, ta_Wins = ta_Wins s + ta_Wins t,
     ta_Losses = ta_Losses s + ta_Losses t, ta_Ties = ta_Ties s + ta_Ties t, ta_Points = ta_Points s + ta_Points t\<rparr>"

definition side_tally :: "result_payload \<Rightarrow> string \<Rightarrow> tally" where
  "side_tally p sideID = (case outcomeForSide (rp_Outcome p) (rp_WinningSideID p) sideID of (wins, losses, ties, points) \<Rightarrow>
     \<lparr>ta_Played = 1, ta_Wins = wins, ta_Losses = losses, ta_Ties = ties, ta_Points = points\<rparr>)"

definition stat_increment :: "string \<Rightarrow> string \<Rightarrow> match_format \<Rightarrow> tally \<Rightarrow> stat_row" where
  \<comment> \<open>the values of the \<open>INSERT\<close>\<close>
  "stat_increment playerID e format t = \<lparr>cst_PlayerID = playerID, cst_EventID = e, cst_All = t,
     cst_Singles = (if format = FormatSingles then t else no_tally),
     cst_Team = (if format = FormatSingles then no_tally else t)\<rparr>"

definition add_stat :: "stat_row \<Rightarrow> stat_row \<Rightarrow> stat_row" where
  "add_stat r d = r\<lparr>cst_All := add_tally (cst_All r) (cst_All d), cst_Singles := add_tally (cst_Singles r) (cst_Singles d),
     cst_Team := add_tally (cst_Team r) (cst_Team d)\<rparr>"

definition tally_fits :: "tally \<Rightarrow> bool" where
  \<comment> \<open>the columns are \<open>integer\<close> and \<open>numeric(10, 2)\<close>\<close>
  "tally_fits t \<longleftrightarrow> ta_Played t < 2 ^ 31 \<and> ta_Points t < 10 ^ 8"

definition same_stat :: "stat_row \<Rightarrow> stat_row \<Rightarrow> bool" where
  "same_stat d r \<longleftrightarrow> cst_PlayerID r = cst_PlayerID d \<and> cst_EventID r = cst_EventID d"

definition upsert_stat :: "stat_row \<Rightarrow> unit club_cmd" where
  \<comment> \<open>\<open>INSERT INTO player_stat_projections \<dots> ON CONFLICT (player_id, event_id) DO UPDATE\<close>\<close>
  "upsert_stat d db =
    (if list_ex (same_stat d) (cl_Stats db) then
       let stats = map (\<lambda>r. if same_stat d r then add_stat r d else r) (cl_Stats db) in
       if list_all (\<lambda>r. tally_fits (cst_All r)) stats then Inr ((), db\<lparr>cl_Stats := stats\<rparr>) else Inl ErrClubDatabase
     else if cst_PlayerID d \<in> cpl_ID ` set (cl_Players db) \<and> cst_EventID d \<in> cev_ID ` set (cl_Events db)
       then Inr ((), db\<lparr>cl_Stats := cl_Stats db @ [d]\<rparr>)
     else Inl ErrClubDatabase)"

definition match_participants :: "string \<Rightarrow> club_db \<Rightarrow> (string \<times> string \<times> match_format) list" where
  \<comment> \<open>\<open>match_participants JOIN matches\<close>\<close>
  "match_participants m db = [(cpa_PlayerID p, cpa_SideID p, cmt_Format r). p \<leftarrow> cl_Participants db, cpa_MatchID p = m,
     r \<leftarrow> cl_Matches db, cmt_ID r = m]"

definition guard_application :: "string \<Rightarrow> bool club_cmd" where
  \<comment> \<open>\<open>INSERT INTO match_stat_applications \<dots> ON CONFLICT DO NOTHING\<close>; the value: a row was inserted\<close>
  "guard_application m db =
    (if m \<in> set (cl_Applied db) then Inr (False, db)
     else if m \<notin> cmt_ID ` set (cl_Matches db) then Inl ErrClubDatabase
     else Inr (True, db\<lparr>cl_Applied := cl_Applied db @ [m]\<rparr>))"

definition project :: "result_payload \<Rightarrow> string \<times> string \<times> match_format \<Rightarrow> unit club_cmd" where
  "project payload = (\<lambda>(playerID, sideID, format). andThen (cast (rp_CompetitionEventID payload)) (\<lambda>e.
     upsert_stat (stat_increment playerID e format (side_tally payload sideID))))"

definition Stats_Handle :: "result_payload option \<Rightarrow> unit club_cmd" where
  "Stats_Handle decoded = (case decoded of None \<Rightarrow> throw (ErrRequest ''parse MatchResultVerified payload'')
   | Some payload \<Rightarrow>
      andThen (require (rp_MatchID payload \<noteq> [] \<and> rp_CompetitionEventID payload \<noteq> [])
        (ErrRequest ''competition-stats-projection: payload missing match or event ID'')) (\<lambda>_.
      andThen (cast (rp_MatchID payload)) (\<lambda>m.
      andThen (guard_application m) (\<lambda>inserted.
      if \<not> inserted then ret ()
      else andThen (query (\<lambda>db. Inr (match_participants m db))) (each (project payload))))))"

end
