(* ===== verification/Club_Rules.thy ===== *)
theory Club_Rules
  imports Club_Stats
begin

text \<open>
  What a successful operation on the competition has done to the tables: one lemma per operation that changes them, over
  \<open>same_tables\<close> for the statements that only touch the audit, the outbox and the random source.
\<close>

section \<open>Statements beside the tables\<close>

definition same_tables :: "club_db \<Rightarrow> club_db \<Rightarrow> bool" where
  "same_tables db db' \<longleftrightarrow> cl_Events db' = cl_Events db \<and> cl_Teams db' = cl_Teams db \<and> cl_Players db' = cl_Players db
     \<and> cl_Rosters db' = cl_Rosters db \<and> cl_Matches db' = cl_Matches db \<and> cl_Sides db' = cl_Sides db
     \<and> cl_Participants db' = cl_Participants db \<and> cl_Verified db' = cl_Verified db \<and> cl_Applied db' = cl_Applied db
     \<and> cl_Stats db' = cl_Stats db \<and> cl_History db' = cl_History db"

interpretation beside: tx_relation same_tables
  by unfold_locales (simp_all add: same_tables_def)

lemma beside_audit: "keeps same_tables (club_audit actor action target reason)"
  by (auto simp: keeps_def club_audit_def cmd_simps same_tables_def split: sum.split_asm prod.split_asm)

lemma beside_announce: "keeps same_tables (announce ag i v t payload now')"
  by (auto simp: keeps_def announce_def cmd_simps same_tables_def split: prod.split_asm option.split_asm)

lemma beside_uuid: "keeps same_tables club_uuid"
  by (auto simp: keeps_def cmd_simps same_tables_def)

lemma requireStaff_Inr: "requireStaff actor db = Inr r \<Longrightarrow> r = ((), db)"
  by (auto simp: requireStaff_def cmd_simps split: option.split_asm if_split_asm)

lemmas besideD = keepsD [OF beside_audit] keepsD [OF beside_announce]

section \<open>Set-up\<close>

lemma createEvent_Inr:
  assumes "createEvent P name venue year actor db = Inr (i, db')"
  obtains v n where "db' = db\<lparr>cl_Draws := n, cl_Events := cl_Events db @ [v]\<rparr>" "cev_ID v = i" "slug_pattern (cev_Slug v)"
  using assms by (auto simp: createEvent_def cmd_simps Let_def)

lemma createTeam_Inr:
  assumes "createTeam P eventID name db = Inr (i, db')"
  obtains t n where "db' = db\<lparr>cl_Draws := n, cl_Teams := cl_Teams db @ [t]\<rparr>" "ctm_ID t = i"
    "i \<notin> ctm_ID ` set (cl_Teams db)"
  using assms by (auto simp: createTeam_def cmd_simps Let_def)

lemma createPlayer_Inr:
  assumes "createPlayer P name u db = Inr (i, db')"
  obtains p n where "db' = db\<lparr>cl_Draws := n, cl_Players := cl_Players db @ [p]\<rparr>"
    "cpl_LinkedUserID p \<noteq> [] \<longrightarrow> cpl_LinkedUserID p \<notin> cpl_LinkedUserID ` set (cl_Players db)"
    "cpl_ID p \<notin> cpl_ID ` set (cl_Players db)"
  using assms by (auto simp: createPlayer_def cmd_simps Let_def split: option.split_asm)

section \<open>Rosters\<close>

lemma set_team_version_Inr:
  assumes "set_team_version t v db = Inr r"
  obtains "r = ((), db\<lparr>cl_Teams := map (\<lambda>x. if ctm_ID x = t then x\<lparr>ctm_Version := v\<rparr> else x) (cl_Teams db)\<rparr>)"
  using assms by (auto simp: set_team_version_def cmd_simps)

definition versioned :: "string \<Rightarrow> int64 \<Rightarrow> club_db \<Rightarrow> club_db" where
  "versioned t v db = db\<lparr>cl_Teams := map (\<lambda>x. if ctm_ID x = t then x\<lparr>ctm_Version := v\<rparr> else x) (cl_Teams db)\<rparr>"

lemma upsert_roster_Inr:
  assumes "upsert_roster e t p c db = Inr (x, db')"
  obtains (known) "\<exists>r \<in> set (cl_Rosters db). cro_EventID r = e \<and> cro_PlayerID r = p"
      "db' = db\<lparr>cl_Rosters := map (\<lambda>r. if cro_EventID r = e \<and> cro_PlayerID r = p \<and> cro_TeamID r = t
         then r\<lparr>cro_IsCaptain := c\<rparr> else r) (cl_Rosters db)\<rparr>"
  | (new) "\<not> (\<exists>r \<in> set (cl_Rosters db). cro_EventID r = e \<and> cro_PlayerID r = p)"
      "\<exists>x \<in> set (cl_Teams db). ctm_EventID x = e \<and> ctm_ID x = t"
      "db' = db\<lparr>cl_Rosters := cl_Rosters db @ [\<lparr>cro_EventID = e, cro_TeamID = t, cro_PlayerID = p, cro_IsCaptain = c\<rparr>]\<rparr>"
  using assms by (auto simp: upsert_roster_def split: if_split_asm)

lemma change_roster_Inr:
  assumes "change_roster req e t p v existed c now' db = Inr (x, db')"
  obtains db1 where "upsert_roster e t p c db = Inr ((), db1)" "roster_entry e t p db1 \<noteq> None"
    "same_tables (versioned t (v + 1) db1) db'"
  using assms unfolding change_roster_def recordRosterAudit_def publishRosterChanged_def
  by (auto simp: cmd_simps Let_def versioned_def elim!: set_team_version_Inr dest!: besideD dest: beside.R_trans)

definition captain_stays :: "bool \<Rightarrow> roster_row option \<Rightarrow> roster_row list \<Rightarrow> bool" where
  "captain_stays c member roster \<longleftrightarrow> c \<or> captains roster \<noteq> 0
     \<and> \<not> ((case member of None \<Rightarrow> False | Some r \<Rightarrow> cro_IsCaptain r) \<and> captains roster = 1)"

lemma set_member_Inr:
  assumes "set_member req e t p v member roster now' db = Inr (x, db')"
  obtains (same) "db' = db"
  | (changed) c db1 where "upsert_roster e t p c db = Inr ((), db1)" "roster_entry e t p db1 \<noteq> None"
      "same_tables (versioned t (v + 1) db1) db'" "captain_stays c member roster"
proof (cases "db' = db")
  case False
  let ?c = "tm_IsCaptain req \<or> length roster = 0 \<or> captains roster = 0"
  have "change_roster req e t p v (member \<noteq> None) ?c now' db = Inr (x, db')"
    using assms False by (auto simp: set_member_def cmd_simps Let_def split: if_split_asm)
  moreover have "captain_stays ?c member roster"
    using assms by (auto simp: set_member_def cmd_simps Let_def captain_stays_def split: option.split)
  ultimately show thesis by (elim change_roster_Inr) (rule changed)
qed (rule same)

lemma setTeamMember_Inr:
  assumes "setTeamMember req now' db = Inr (x, db')"
  obtains (same) "db' = db"
  | (changed) e t p c v db1 where "upsert_roster e t p c db = Inr ((), db1)" "roster_entry e t p db1 \<noteq> None"
      "same_tables (versioned t v db1) db'" "captain_stays c (roster_entry e t p db) (team_roster e t db)"
  using assms unfolding setTeamMember_def
  by (auto simp: cmd_simps lockRosterTeam_def dest!: requireStaff_Inr elim!: set_member_Inr
      split: if_split_asm option.split_asm)

lemma removeTeamMember_Inr:
  assumes "removeTeamMember eventID teamID playerID actor reason now' db = Inr (x, db')"
  obtains e t p v where "removal_guard e t p db = Inr ()" "same_tables (versioned t v (delete_roster e t p db)) db'"
  using assms unfolding removeTeamMember_def recordRosterAudit_def publishRosterChanged_def
  by (auto simp: cmd_simps Let_def lockRosterTeam_def versioned_def dest!: requireStaff_Inr besideD
      elim!: set_team_version_Inr split: option.split_asm) (blast intro: beside.R_trans)

section \<open>Matches\<close>

definition participant_key :: "participant_row \<Rightarrow> string \<times> string" where
  "participant_key p = (cpa_MatchID p, cpa_PlayerID p)"

lemma insert_participant_Inr:
  "insert_participant m s p k db = Inr r \<longleftrightarrow>
     (\<exists>x \<in> set (cl_Sides db). csd_MatchID x = m \<and> csd_ID x = s) \<and> p \<in> cpl_ID ` set (cl_Players db)
   \<and> (\<forall>x \<in> set (cl_Participants db). \<not> (cpa_MatchID x = m \<and> cpa_PlayerID x = p) \<and> \<not> (cpa_SideID x = s \<and> cpa_Order x = k))
   \<and> r = ((), db\<lparr>cl_Participants := cl_Participants db @ [\<lparr>cpa_MatchID = m, cpa_SideID = s, cpa_PlayerID = p, cpa_Order = k\<rparr>]\<rparr>)"
  by (auto simp: insert_participant_def cmd_simps)

lemma each_participant_Inr:
  assumes "each (\<lambda>(k, p). andThen (cast p) (\<lambda>u. insert_participant m s u (Suc k))) (enumerate n ps) db = Inr (x, db')"
  obtains rows where "db' = db\<lparr>cl_Participants := cl_Participants db @ rows\<rparr>"
    "map (\<lambda>r. Some (cpa_PlayerID r)) rows = map pg_uuid ps" "\<forall>r \<in> set rows. cpa_MatchID r = m \<and> cpa_SideID r = s"
    "distinct (map participant_key (cl_Participants db)) \<Longrightarrow> distinct (map participant_key (cl_Participants db @ rows))"
    "ps \<noteq> [] \<Longrightarrow> \<exists>x \<in> set (cl_Sides db). csd_MatchID x = m \<and> csd_ID x = s"
  using assms
proof (induction ps arbitrary: n db thesis)
  case Nil
  from Nil(2) have "db' = db" by (simp add: cmd_simps)
  then show ?case using Nil(1) [of "[]"] by simp
next
  case (Cons p ps)
  from Cons.prems(2) obtain u db1 where u: "pg_uuid p = Some u"
    and one: "insert_participant m s u (Suc n) db = Inr ((), db1)"
    and rest: "each (\<lambda>(k, p). andThen (cast p) (\<lambda>u. insert_participant m s u (Suc k))) (enumerate (Suc n) ps) db1 = Inr (x, db')"
    by (auto simp: cmd_simps)
  let ?row = "\<lparr>cpa_MatchID = m, cpa_SideID = s, cpa_PlayerID = u, cpa_Order = Suc n\<rparr>"
  have db1: "db1 = db\<lparr>cl_Participants := cl_Participants db @ [?row]\<rparr>"
    and side: "\<exists>x \<in> set (cl_Sides db). csd_MatchID x = m \<and> csd_ID x = s"
    and fresh: "\<forall>x \<in> set (cl_Participants db). participant_key x \<noteq> participant_key ?row"
    using one by (auto simp: insert_participant_Inr participant_key_def)
  obtain rows where rows: "db' = db1\<lparr>cl_Participants := cl_Participants db1 @ rows\<rparr>"
    "map (\<lambda>r. Some (cpa_PlayerID r)) rows = map pg_uuid ps" "\<forall>r \<in> set rows. cpa_MatchID r = m \<and> cpa_SideID r = s"
    "distinct (map participant_key (cl_Participants db1)) \<Longrightarrow> distinct (map participant_key (cl_Participants db1 @ rows))"
    using Cons.IH [OF _ rest] by metis
  have "distinct (map participant_key (cl_Participants db)) \<Longrightarrow> distinct (map participant_key (cl_Participants db1))"
    using fresh by (auto simp: db1)
  then show ?case
    using rows side u by (intro Cons.prems(1) [of "?row # rows"]) (auto simp: db1 simp del: distinct_map distinct_append)
qed

lemma insert_match_Inr:
  assumes "insert_match e fmt u db = Inr (m, db')"
  obtains r n where "db' = db\<lparr>cl_Draws := n, cl_Matches := cl_Matches db @ [r]\<rparr>" "cmt_ID r = m" "cmt_EventID r = e"
    "cmt_State r = ''open''" "m \<notin> cmt_ID ` set (cl_Matches db)" "cmt_Format r = fmt"
  using assms by (auto simp: insert_match_def cmd_simps)

lemma side_constraints_fresh: "side_constraints r db \<Longrightarrow> csd_ID r \<notin> csd_ID ` set (cl_Sides db)
    \<and> (csd_MatchID r, csd_Number r) \<notin> (\<lambda>s. (csd_MatchID s, csd_Number s)) ` set (cl_Sides db)"
  by (auto simp: side_constraints_def)

lemma insertSide_Inr:
  assumes "insertSide e m k t db = Inr (i, db')"
  shows "db' = db\<lparr>cl_Draws := Suc (cl_Draws db),
      cl_Sides := cl_Sides db @ [\<lparr>csd_ID = i, csd_EventID = e, csd_MatchID = m, csd_Number = k, csd_TeamID = t\<rparr>]\<rparr>"
    "i \<notin> csd_ID ` set (cl_Sides db)" "(m, k) \<notin> (\<lambda>s. (csd_MatchID s, csd_Number s)) ` set (cl_Sides db)"
  using assms unfolding insertSide_def Let_def andThen_Inr club_uuid_Inr check_Inr exec_Inr ret_Inr
  by (auto dest!: side_constraints_fresh)

lemma insertParticipants_Inr:
  assumes "insertParticipants m s ps db = Inr (x, db')"
  obtains rows where "db' = db\<lparr>cl_Participants := cl_Participants db @ rows\<rparr>"
    "map (\<lambda>r. Some (cpa_PlayerID r)) rows = map pg_uuid ps" "\<forall>r \<in> set rows. cpa_MatchID r = m \<and> cpa_SideID r = s"
    "distinct (map participant_key (cl_Participants db)) \<Longrightarrow> distinct (map participant_key (cl_Participants db @ rows))"
  using assms unfolding insertParticipants_def by (elim each_participant_Inr) blast

definition rostered :: "string \<Rightarrow> string \<Rightarrow> string list \<Rightarrow> club_db \<Rightarrow> bool" where
  "rostered e t ps db \<longleftrightarrow> (\<exists>us. those (map pg_uuid ps) = Some us
     \<and> length (filter (\<lambda>r. cro_PlayerID r \<in> active_players db \<and> cro_PlayerID r \<in> set us)
         (filter (\<lambda>r. cro_PlayerID r \<in> cpl_ID ` set (cl_Players db)) (team_roster e t db))) = length ps)"

lemma requireActiveRosterPlayers_Inr:
  "requireActiveRosterPlayers e t ps db = Inr r \<Longrightarrow> rostered e t ps db \<and> r = ((), db)"
  by (auto simp: requireActiveRosterPlayers_def cmd_simps Let_def rostered_def split: if_split_asm)

lemma createMatch_Inr:
  assumes "createMatch req db = Inr ((m, s1, s2), db')"
  obtains e t1 t2 r rows1 rows2 n where
    "rostered e t1 (normalizeParticipantIDs (cmr_Side1PlayerIDs req)) db"
    "rostered e t2 (normalizeParticipantIDs (cmr_Side2PlayerIDs req)) db"
    "map (\<lambda>r. Some (cpa_PlayerID r)) rows1 = map pg_uuid (normalizeParticipantIDs (cmr_Side1PlayerIDs req))"
    "map (\<lambda>r. Some (cpa_PlayerID r)) rows2 = map pg_uuid (normalizeParticipantIDs (cmr_Side2PlayerIDs req))"
    "\<forall>r \<in> set rows1. cpa_MatchID r = m \<and> cpa_SideID r = s1" "\<forall>r \<in> set rows2. cpa_MatchID r = m \<and> cpa_SideID r = s2"
    "distinct (map participant_key (cl_Participants db)) \<Longrightarrow>
      distinct (map participant_key (cl_Participants db @ rows1 @ rows2))"
    "m \<notin> cmt_ID ` set (cl_Matches db)" "s1 \<notin> csd_ID ` set (cl_Sides db)" "s2 \<notin> insert s1 (csd_ID ` set (cl_Sides db))"
    "cmt_ID r = m" "cmt_EventID r = e" "cmt_State r = ''open''"
    "{(m, 1), (m, 2)} \<inter> (\<lambda>s. (csd_MatchID s, csd_Number s)) ` set (cl_Sides db) = {}"
    "db' = db\<lparr>cl_Draws := n, cl_Matches := cl_Matches db @ [r], cl_Sides := cl_Sides db @
        [\<lparr>csd_ID = s1, csd_EventID = e, csd_MatchID = m, csd_Number = 1, csd_TeamID = t1\<rparr>,
         \<lparr>csd_ID = s2, csd_EventID = e, csd_MatchID = m, csd_Number = 2, csd_TeamID = t2\<rparr>],
      cl_Participants := cl_Participants db @ rows1 @ rows2\<rparr>"
proof -
  let ?ps1 = "normalizeParticipantIDs (cmr_Side1PlayerIDs req)" and ?ps2 = "normalizeParticipantIDs (cmr_Side2PlayerIDs req)"
  obtain e t1 t2 u db1 db2 db3 db4 where *: "rostered e t1 ?ps1 db" "rostered e t2 ?ps2 db"
    and 1: "insert_match e (cmr_Format req) u db = Inr (m, db1)" and 2: "insertSide e m (Suc 0) t1 db1 = Inr (s1, db2)"
    and 3: "insertSide e m 2 t2 db2 = Inr (s2, db3)" and 4: "insertParticipants m s1 ?ps1 db3 = Inr ((), db4)"
    and 5: "insertParticipants m s2 ?ps2 db4 = Inr ((), db')"
    using assms unfolding createMatch_def requireDistinctEventTeams_def
    by (auto simp: cmd_simps Let_def split: if_split_asm dest!: requireStaff_Inr requireActiveRosterPlayers_Inr)
  obtain r n1 where db1: "db1 = db\<lparr>cl_Draws := n1, cl_Matches := cl_Matches db @ [r]\<rparr>" "cmt_ID r = m" "cmt_EventID r = e"
      "cmt_State r = ''open''" "m \<notin> cmt_ID ` set (cl_Matches db)"
    using insert_match_Inr [OF 1] by metis
  note db2 = insertSide_Inr [OF 2] and db3 = insertSide_Inr [OF 3]
  obtain rows1 where db4: "db4 = db3\<lparr>cl_Participants := cl_Participants db3 @ rows1\<rparr>"
      "map (\<lambda>r. Some (cpa_PlayerID r)) rows1 = map pg_uuid ?ps1" "\<forall>r \<in> set rows1. cpa_MatchID r = m \<and> cpa_SideID r = s1"
      "distinct (map participant_key (cl_Participants db3)) \<Longrightarrow> distinct (map participant_key (cl_Participants db3 @ rows1))"
    using insertParticipants_Inr [OF 4] by metis
  obtain rows2 where db5: "db' = db4\<lparr>cl_Participants := cl_Participants db4 @ rows2\<rparr>"
      "map (\<lambda>r. Some (cpa_PlayerID r)) rows2 = map pg_uuid ?ps2" "\<forall>r \<in> set rows2. cpa_MatchID r = m \<and> cpa_SideID r = s2"
      "distinct (map participant_key (cl_Participants db4)) \<Longrightarrow> distinct (map participant_key (cl_Participants db4 @ rows2))"
    using insertParticipants_Inr [OF 5] by metis
  show thesis
  proof (rule that)
    show "rostered e t1 ?ps1 db" "rostered e t2 ?ps2 db" by (rule *)+
    show "distinct (map participant_key (cl_Participants db)) \<Longrightarrow>
        distinct (map participant_key (cl_Participants db @ rows1 @ rows2))"
      using db5(4) db4(4) by (simp add: db1(1) db2(1) db3(1) db4(1))
    show "db' = db\<lparr>cl_Draws := Suc (Suc n1), cl_Matches := cl_Matches db @ [r], cl_Sides := cl_Sides db @
        [\<lparr>csd_ID = s1, csd_EventID = e, csd_MatchID = m, csd_Number = 1, csd_TeamID = t1\<rparr>,
         \<lparr>csd_ID = s2, csd_EventID = e, csd_MatchID = m, csd_Number = 2, csd_TeamID = t2\<rparr>],
      cl_Participants := cl_Participants db @ rows1 @ rows2\<rparr>"
      by (simp add: db1(1) db2(1) db3(1) db4(1) db5(1))
  qed (use db1 db2 db3 db4(2,3) db5(2,3) in auto)
qed

section \<open>Results\<close>

definition found_match :: "string \<Rightarrow> club_db \<Rightarrow> club_match_row option" where
  "found_match m db = first_row (filter (\<lambda>r. cmt_ID r = m) (cl_Matches db))"

lemma insert_verified_Inr:
  assumes "insert_verified r db = Inr (i, db')"
  shows "db' = db\<lparr>cl_Draws := Suc (cl_Draws db), cl_Verified := cl_Verified db @ [r\<lparr>cvr_ID := i\<rparr>]\<rparr>"
    "\<forall>v \<in> set (cl_Verified db). \<not> (cvr_MatchID v = cvr_MatchID r \<and> cvr_Version v = cvr_Version r)"
  using assms by (auto simp: insert_verified_def cmd_simps)

definition verdict :: "record_result_request \<Rightarrow> string \<Rightarrow> string \<Rightarrow> verified_row \<Rightarrow> bool" where
  \<comment> \<open>the row that records the admin's verdict\<close>
  "verdict req m i v \<longleftrightarrow> cvr_ID v = i \<and> cvr_MatchID v = m \<and> cvr_Version v = 1 \<and> cvr_Outcome v = verifiedOutcome (rr_Winner req)"

lemma verify_match_Inr:
  assumes "verify_match req m e now' db = Inr (i, db')"
  obtains v n where "verdict req m i v" "\<forall>w \<in> set (cl_Verified db). \<not> (cvr_MatchID w = m \<and> cvr_Version w = 1)"
    "same_tables (set_match_state m ''verified'' (db\<lparr>cl_Draws := n, cl_Verified := cl_Verified db @ [v]\<rparr>)) db'"
proof -
  obtain r db1 db2 db3 where r: "insert_verified r db = Inr (i, db1)" "verdict req m (cvr_ID r) r"
    and db2: "db2 = set_match_state m ''verified'' db1" "same_tables db2 db3" "same_tables db3 db'"
    using assms unfolding verify_match_def loadSideIDs_def verdict_def
    by (auto simp: cmd_simps Let_def split_beta split: if_split_asm dest!: besideD)
  note row = insert_verified_Inr [OF r(1)]
  show thesis
    by (rule that [of "r\<lparr>cvr_ID := i\<rparr>"]) (use r row db2 in \<open>auto simp: verdict_def intro: beside.R_trans\<close>)
qed

lemma recordAdminResult_Inr:
  assumes "recordAdminResult req now' db = Inr (i, db')"
  obtains (known) m r v where "pg_uuid (rr_MatchID req) = Some m" "found_match m db = Some r" "cmt_State r = ''verified''"
      "latest_verification m db = Some v" "i = cvr_ID v" "db' = db"
  | (new) m r v n where "pg_uuid (rr_MatchID req) = Some m" "found_match m db = Some r" "cmt_State r \<noteq> ''verified''"
      "verdict req m i v" "\<forall>w \<in> set (cl_Verified db). \<not> (cvr_MatchID w = m \<and> cvr_Version w = 1)"
      "same_tables (set_match_state m ''verified'' (db\<lparr>cl_Draws := n, cl_Verified := cl_Verified db @ [v]\<rparr>)) db'"
proof -
  have verdict: "verdict (cleaned req) m i v = verdict req m i v" for m v by (simp add: verdict_def cleaned_def)
  obtain m r where *: "pg_uuid (rr_MatchID req) = Some m" "found_match m db = Some r"
    and rest: "if cmt_State r = ''verified'' then (\<exists>v. latest_verification m db = Some v \<and> i = cvr_ID v) \<and> db' = db
      else verify_match (cleaned req) m (cmt_EventID r) now' db = Inr (i, db')"
    using assms unfolding recordAdminResult_def found_match_def
    by (auto simp: cmd_simps dest!: requireStaff_Inr split: option.split_asm if_split_asm)
  show thesis
  proof (cases "cmt_State r = ''verified''")
    case True
    then show thesis using known * rest by auto
  next
    case False
    then have "verify_match (cleaned req) m (cmt_EventID r) now' db = Inr (i, db')" using rest by simp
    then show thesis by (rule verify_match_Inr) (rule new [OF * False]; simp add: verdict)
  qed
qed

section \<open>Deletions, links, statistics\<close>

lemma deleteSetup_Inr:
  assumes "deleteSetup actor reason f now' db = Inr (x, db')"
  obtains d db1 where "f (TrimSpace reason) db = Inr (d, db1)" "same_tables db1 db'"
  using assms unfolding deleteSetup_def publishSetupDeleted_def
  by (auto simp: cmd_simps Let_def dest!: requireStaff_Inr besideD intro: beside.R_trans)

lemma deleteMatch_Inr:
  assumes "deleteMatch matchID actor reason now' db = Inr (x, db')"
  obtains m r where "pg_uuid matchID = Some m" "found_match m db = Some r" "\<not> match_protected r db"
    "same_tables (delete_match m db) db'"
  using assms unfolding deleteMatch_def found_match_def
  by (elim deleteSetup_Inr) (auto simp: cmd_simps split: option.split_asm if_split_asm)

lemma deleteTeam_Inr:
  assumes "deleteTeam eventID teamID actor reason now' db = Inr (x, db')"
  obtains t where "\<not> team_protected t db" "same_tables (delete_team t db) db'"
  using assms unfolding deleteTeam_def
  by (elim deleteSetup_Inr) (auto simp: cmd_simps split: option.split_asm if_split_asm)

lemma deleteEvent_Inr:
  assumes "deleteEvent eventID actor reason now' db = Inr (x, db')"
  obtains v where "\<not> event_protected v db" "same_tables (delete_event (cev_ID v) db) db'"
  using assms unfolding deleteEvent_def
  by (elim deleteSetup_Inr) (auto simp: cmd_simps dest!: first_row_Some split: option.split_asm if_split_asm)

definition linked :: "string \<Rightarrow> string \<Rightarrow> club_db \<Rightarrow> club_db" where
  "linked p u db = db\<lparr>cl_Players := map (\<lambda>x. if cpl_ID x = p then x\<lparr>cpl_LinkedUserID := u\<rparr> else x) (cl_Players db)\<rparr>"

definition link_free :: "string \<Rightarrow> string \<Rightarrow> club_db \<Rightarrow> bool" where
  "link_free p u db \<longleftrightarrow> u = [] \<or> (\<forall>x \<in> set (cl_Players db). cpl_LinkedUserID x = u \<longrightarrow> cpl_ID x = p)"

lemma set_link_Inr: "set_link p u db = Inr r \<Longrightarrow> link_free p u db \<and> r = ((), linked p u db)"
  by (auto simp: set_link_def cmd_simps link_free_def linked_def)

lemma beside_publish_link: "keeps same_tables (publishPlayerLinkEvent p u t now')"
proof -
  have "keeps same_tables (cast p)" by (auto simp: keeps_def cmd_simps beside.R_refl)
  then show ?thesis
    unfolding publishPlayerLinkEvent_def by (intro beside.keeps_andThen beside.keeps_query beside_announce)
qed

lemma linkPlayerToUser_Inr:
  assumes "linkPlayerToUser actor playerID target now' db = Inr (x, db')"
  obtains (same) "db' = db" | (changed) p u where "link_free p u db" "same_tables (linked p u db) db'"
  using assms unfolding linkPlayerToUser_def
  by (auto simp: cmd_simps split: if_split_asm dest!: requireStaff_Inr set_link_Inr besideD keepsD [OF beside_publish_link]
      intro: beside.R_trans)

lemma unlinkPlayer_Inr:
  assumes "unlinkPlayer actor playerID target now' db = Inr (x, db')"
  obtains (same) "db' = db" | (changed) p u where "link_free p u db" "same_tables (linked p u db) db'"
  using assms unfolding unlinkPlayer_def
  by (auto simp: cmd_simps split: if_split_asm option.split_asm dest!: requireStaff_Inr set_link_Inr besideD
      keepsD [OF beside_publish_link] intro: beside.R_trans)

definition beside_statistics :: "club_db \<Rightarrow> club_db \<Rightarrow> bool" where
  \<comment> \<open>nothing but the statistics and their guard table\<close>
  "beside_statistics db db' \<longleftrightarrow> db' = db\<lparr>cl_Applied := cl_Applied db', cl_Stats := cl_Stats db'\<rparr>"

lemma beside_statistics_trans: "beside_statistics db db' \<Longrightarrow> beside_statistics db' db'' \<Longrightarrow> beside_statistics db db''"
  by (cases db; cases db'; cases db'') (simp add: beside_statistics_def)

interpretation statistics: tx_relation beside_statistics
  by unfold_locales (simp add: beside_statistics_def, rule beside_statistics_trans)

lemma statistics_project: "keeps beside_statistics (project payload p)"
  by (auto simp: keeps_def project_def cmd_simps upsert_stat_def beside_statistics_def Let_def
      split: prod.split_asm if_split_asm)

lemma statistics_guard: "keeps beside_statistics (guard_application m)"
  by (auto simp: keeps_def guard_application_def beside_statistics_def split: if_split_asm)

lemma statistics_handle: "keeps beside_statistics (Stats_Handle d)"
proof -
  have "keeps beside_statistics (cast i)" for i by (auto simp: keeps_def cmd_simps statistics.R_refl)
  then show ?thesis
    unfolding Stats_Handle_def
    by (intro keeps_case_option keeps_if statistics.keeps_andThen statistics.keeps_throw statistics.keeps_ret
        statistics.keeps_require statistics.keeps_query statistics.keeps_each statistics_project statistics_guard)
qed

end
