(* ===== verification/Club_Invariant.thy ===== *)
theory Club_Invariant
  imports Club_Rules
begin

text \<open>
  What every operation of \<open>internal/competitionpg\<close> keeps: rosters with a captain and one team per player and event,
  participants that are on the roster of their side's team, one verification per match, one player per member.
\<close>

section \<open>Rosters\<close>

definition roster_key :: "roster_row \<Rightarrow> string \<times> string" where
  "roster_key r = (cro_EventID r, cro_PlayerID r)"

definition team_of :: "roster_row \<Rightarrow> string \<times> string" where
  "team_of r = (cro_EventID r, cro_TeamID r)"

definition captained :: "roster_row list \<Rightarrow> bool" where
  "captained rs \<longleftrightarrow> (\<forall>r \<in> set rs. \<exists>c \<in> set rs. team_of c = team_of r \<and> cro_IsCaptain c)"

definition rosters_ok :: "club_db \<Rightarrow> bool" where
  "rosters_ok db \<longleftrightarrow> distinct (map roster_key (cl_Rosters db)) \<and> captained (cl_Rosters db)
     \<and> team_of ` set (cl_Rosters db) \<subseteq> (\<lambda>t. (ctm_EventID t, ctm_ID t)) ` set (cl_Teams db)"

lemma team_roster_set: "r \<in> set (team_roster e t db) \<longleftrightarrow> r \<in> set (cl_Rosters db) \<and> team_of r = (e, t)"
  by (auto simp: team_roster_def team_of_def)

lemma distinct_roster:
  assumes "distinct (map roster_key rs)"
  shows "distinct (map cro_PlayerID (filter (\<lambda>r. cro_EventID r = e \<and> cro_TeamID r = t) rs))"
  using assms by (auto simp: distinct_map inj_on_def roster_key_def)

lemma captains_pos: "captains rs \<noteq> 0 \<longleftrightarrow> (\<exists>c \<in> set rs. cro_IsCaptain c)"
  by (auto simp: captains_def filter_empty_conv)

lemma other_captain:
  assumes "distinct (map cro_PlayerID rs)" "captains rs \<noteq> 0"
    "\<not> ((\<exists>r \<in> set rs. cro_PlayerID r = p \<and> cro_IsCaptain r) \<and> captains rs = 1)"
  obtains c where "c \<in> set rs" "cro_IsCaptain c" "cro_PlayerID c \<noteq> p"
proof (rule ccontr)
  assume "\<not> thesis"
  then have all: "\<forall>c \<in> set (filter cro_IsCaptain rs). cro_PlayerID c = p" using that by auto
  have "distinct (map cro_PlayerID (filter cro_IsCaptain rs))"
    using assms(1) by (simp add: distinct_map inj_on_def)
  then have "card (set (map cro_PlayerID (filter cro_IsCaptain rs))) = captains rs"
    by (simp add: captains_def distinct_card del: set_map set_filter)
  moreover have "set (map cro_PlayerID (filter cro_IsCaptain rs)) \<subseteq> {p}" using all by auto
  ultimately have "captains rs \<le> 1" by (metis card.empty card_insert_disjoint card_mono empty_iff finite.intros One_nat_def)
  with assms(2) have one: "captains rs = 1" by linarith
  then obtain c where "c \<in> set rs" "cro_IsCaptain c" using captains_pos [of rs] by auto
  with all assms(3) one show False by auto
qed

lemma key_unique:
  assumes "distinct (map roster_key rs)" "r \<in> set rs" "q \<in> set rs" "roster_key r = roster_key q"
  shows "r = q"
  using assms by (metis distinct_map inj_onD)

lemma roster_entry_Some: "roster_entry e t p db = Some r \<Longrightarrow> r \<in> set (team_roster e t db) \<and> cro_PlayerID r = p"
  by (auto simp: roster_entry_def dest!: first_row_Some)

lemma captained_map:
  assumes "captained rs" "\<And>r. team_of (f r) = team_of r" "\<And>r. team_of r \<noteq> T \<Longrightarrow> f r = r"
    and "\<exists>q \<in> set rs. team_of q = T \<and> cro_IsCaptain (f q)"
  shows "captained (map f rs)"
  unfolding captained_def
proof
  fix y
  assume "y \<in> set (map f rs)"
  then obtain r where r: "r \<in> set rs" "y = f r" by auto
  show "\<exists>c \<in> set (map f rs). team_of c = team_of y \<and> cro_IsCaptain c"
  proof (cases "team_of r = T")
    case True
    then show ?thesis using assms(2,4) r by auto
  next
    case False
    obtain q where "q \<in> set rs" "team_of q = team_of r" "cro_IsCaptain q" using assms(1) r by (auto simp: captained_def)
    moreover from this have "f q = q" using assms(3) False by simp
    ultimately have "q \<in> set (map f rs)" by (metis image_eqI set_map)
    then show ?thesis using \<open>team_of q = team_of r\<close> \<open>cro_IsCaptain q\<close> assms(2) r by auto
  qed
qed

lemma upsert_captained:
  assumes ok: "distinct (map roster_key (cl_Rosters db))" "captained (cl_Rosters db)"
    and up: "upsert_roster e t p c db = Inr ((), db1)" "roster_entry e t p db1 \<noteq> None"
    and stays: "captain_stays c (roster_entry e t p db) (team_roster e t db)"
  shows "distinct (map roster_key (cl_Rosters db1))" "captained (cl_Rosters db1)"
    "team_of ` set (cl_Rosters db1) \<subseteq> team_of ` set (cl_Rosters db) \<union> (\<lambda>x. (ctm_EventID x, ctm_ID x)) ` set (cl_Teams db)"
    "\<forall>r \<in> set (cl_Rosters db). \<exists>q \<in> set (cl_Rosters db1). roster_key q = roster_key r \<and> team_of q = team_of r"
    "\<exists>rs. db1 = db\<lparr>cl_Rosters := rs\<rparr>"
proof -
  have other: "\<exists>q \<in> set (cl_Rosters db). team_of q = (e, t) \<and> cro_IsCaptain q \<and> cro_PlayerID q \<noteq> p" if "\<not> c"
  proof -
    have "\<not> ((\<exists>r \<in> set (team_roster e t db). cro_PlayerID r = p \<and> cro_IsCaptain r) \<and> captains (team_roster e t db) = 1)"
    proof (cases "roster_entry e t p db")
      case None
      then show ?thesis by (auto simp: roster_entry_def first_row_None filter_empty_conv)
    next
      case (Some r)
      then have "r \<in> set (cl_Rosters db)" "cro_PlayerID r = p" "team_of r = (e, t)"
        by (auto dest: roster_entry_Some simp: team_roster_set)
      then have "q = r" if "q \<in> set (team_roster e t db)" "cro_PlayerID q = p" for q
        using that by (intro key_unique [OF ok(1)]) (auto simp: team_roster_set roster_key_def team_of_def)
      then show ?thesis using stays Some \<open>\<not> c\<close> by (auto simp: captain_stays_def)
    qed
    moreover have "distinct (map cro_PlayerID (team_roster e t db))"
      using distinct_roster [OF ok(1)] by (simp add: team_roster_def)
    moreover have "captains (team_roster e t db) \<noteq> 0" using stays \<open>\<not> c\<close> by (simp add: captain_stays_def)
    ultimately show ?thesis by (elim other_captain) (auto simp: team_roster_set)
  qed
  have "distinct (map roster_key (cl_Rosters db1)) \<and> captained (cl_Rosters db1)
    \<and> team_of ` set (cl_Rosters db1) \<subseteq> team_of ` set (cl_Rosters db) \<union> (\<lambda>x. (ctm_EventID x, ctm_ID x)) ` set (cl_Teams db)
    \<and> (\<forall>r \<in> set (cl_Rosters db). \<exists>q \<in> set (cl_Rosters db1). roster_key q = roster_key r \<and> team_of q = team_of r)
    \<and> (\<exists>rs. db1 = db\<lparr>cl_Rosters := rs\<rparr>)"
    using up(1)
  proof (cases rule: upsert_roster_Inr)
    case known
    let ?f = "\<lambda>r. if cro_EventID r = e \<and> cro_PlayerID r = p \<and> cro_TeamID r = t then r\<lparr>cro_IsCaptain := c\<rparr> else r"
    have f: "roster_key (?f r) = roster_key r" "team_of (?f r) = team_of r" for r by (simp_all add: roster_key_def team_of_def)
    have rs: "cl_Rosters db1 = map ?f (cl_Rosters db)" using known(2) by simp
    have keys: "map roster_key (cl_Rosters db1) = map roster_key (cl_Rosters db)" by (simp only: rs map_map o_def f)
    have "\<exists>q \<in> set (cl_Rosters db). team_of q = (e, t) \<and> cro_IsCaptain (?f q)"
    proof (cases c)
      case True
      obtain r1 where "r1 \<in> set (cl_Rosters db1)" "roster_key r1 = (e, p)" "team_of r1 = (e, t)"
        using up(2) by (auto simp: team_roster_set roster_key_def team_of_def dest!: roster_entry_Some)
      moreover from this obtain r0 where "r0 \<in> set (cl_Rosters db)" "r1 = ?f r0" unfolding rs set_map by (elim imageE)
      ultimately have "r0 \<in> set (cl_Rosters db)" "roster_key r0 = (e, p)" "team_of r0 = (e, t)" by (simp_all only: f)
      then show ?thesis using True by (intro bexI [of _ r0]) (auto simp: team_of_def roster_key_def)
    next
      case False
      with other show ?thesis by fastforce
    qed
    then have "captained (cl_Rosters db1)"
      unfolding rs using ok(2) f(2) by (intro captained_map [of _ _ "(e, t)"]) (auto simp: team_of_def)
    moreover have "team_of ` set (cl_Rosters db1) = team_of ` set (cl_Rosters db)"
      unfolding rs set_map image_image f(2) ..
    moreover have "\<forall>r \<in> set (cl_Rosters db). \<exists>q \<in> set (cl_Rosters db1). roster_key q = roster_key r \<and> team_of q = team_of r"
    proof
      fix r
      assume "r \<in> set (cl_Rosters db)"
      then have "?f r \<in> set (cl_Rosters db1)" unfolding rs set_map by (rule imageI)
      then show "\<exists>q \<in> set (cl_Rosters db1). roster_key q = roster_key r \<and> team_of q = team_of r" using f by blast
    qed
    moreover have "\<exists>rs. db1 = db\<lparr>cl_Rosters := rs\<rparr>" using known(2) by blast
    ultimately show ?thesis using ok(1) keys by (simp del: distinct_map)
  next
    case new
    let ?r = "\<lparr>cro_EventID = e, cro_TeamID = t, cro_PlayerID = p, cro_IsCaptain = c\<rparr>"
    have rs: "cl_Rosters db1 = cl_Rosters db @ [?r]" using new(3) by simp
    have "roster_key ?r \<notin> roster_key ` set (cl_Rosters db)" using new(1) by (auto simp: roster_key_def)
    moreover have "\<exists>q \<in> set (cl_Rosters db1). team_of q = team_of ?r \<and> cro_IsCaptain q"
      using other by (cases c) (auto simp: rs team_of_def)
    ultimately show ?thesis
      using ok new(2,3) by (auto simp: captained_def rs team_of_def)
  qed
  then show "distinct (map roster_key (cl_Rosters db1))" "captained (cl_Rosters db1)"
    "team_of ` set (cl_Rosters db1) \<subseteq> team_of ` set (cl_Rosters db) \<union> (\<lambda>x. (ctm_EventID x, ctm_ID x)) ` set (cl_Teams db)"
    "\<forall>r \<in> set (cl_Rosters db). \<exists>q \<in> set (cl_Rosters db1). roster_key q = roster_key r \<and> team_of q = team_of r"
    "\<exists>rs. db1 = db\<lparr>cl_Rosters := rs\<rparr>"
    by simp_all
qed

lemma versioned_teams: "(\<lambda>x. (ctm_EventID x, ctm_ID x)) ` set (cl_Teams (versioned u v db)) = (\<lambda>x. (ctm_EventID x, ctm_ID x)) ` set (cl_Teams db)"
proof -
  have "map (\<lambda>x. (ctm_EventID x, ctm_ID x)) (cl_Teams (versioned u v db)) = map (\<lambda>x. (ctm_EventID x, ctm_ID x)) (cl_Teams db)"
    by (simp add: versioned_def)
  then show ?thesis by (metis set_map)
qed

lemma set_keeps_rosters:
  assumes "rosters_ok db" "upsert_roster e t p c db = Inr ((), db1)" "roster_entry e t p db1 \<noteq> None"
    "captain_stays c (roster_entry e t p db) (team_roster e t db)"
  shows "rosters_ok (versioned u v db1)"
proof -
  have ok: "distinct (map roster_key (cl_Rosters db))" "captained (cl_Rosters db)" using assms(1) by (simp_all add: rosters_ok_def)
  note up = upsert_captained [OF ok assms(2-4)]
  have teams: "(\<lambda>x. (ctm_EventID x, ctm_ID x)) ` set (cl_Teams (versioned u v db1)) = (\<lambda>x. (ctm_EventID x, ctm_ID x)) ` set (cl_Teams db)"
    using up(5) by (auto simp: versioned_teams)
  have "team_of ` set (cl_Rosters db1) \<subseteq> (\<lambda>x. (ctm_EventID x, ctm_ID x)) ` set (cl_Teams db)"
    using up(3) assms(1) unfolding rosters_ok_def by blast
  then show ?thesis using up(1,2) teams unfolding rosters_ok_def by (simp add: versioned_def)
qed

lemma captained_remove:
  assumes "captained rs" "distinct (map roster_key rs)" "r \<in> set rs" "roster_key r = (e, p)" "team_of r = (e, t)"
    and last: "cro_IsCaptain r \<Longrightarrow> \<exists>q \<in> set rs. team_of q = (e, t) \<and> cro_PlayerID q \<noteq> p \<Longrightarrow>
      \<exists>q \<in> set rs. team_of q = (e, t) \<and> cro_PlayerID q \<noteq> p \<and> cro_IsCaptain q"
  shows "captained (filter (\<lambda>x. x \<noteq> r) rs)"
  unfolding captained_def
proof
  fix q
  assume "q \<in> set (filter (\<lambda>x. x \<noteq> r) rs)"
  then have q: "q \<in> set rs" "q \<noteq> r" by auto
  obtain c where c: "c \<in> set rs" "team_of c = team_of q" "cro_IsCaptain c" using assms(1) q by (auto simp: captained_def)
  show "\<exists>c \<in> set (filter (\<lambda>x. x \<noteq> r) rs). team_of c = team_of q \<and> cro_IsCaptain c"
  proof (cases "c = r")
    case True
    then have "team_of q = (e, t)" using c assms(5) by simp
    moreover have "roster_key q \<noteq> roster_key r" using key_unique [OF assms(2) q(1) assms(3)] q(2) by blast
    ultimately have "cro_PlayerID q \<noteq> p" using assms(4) by (auto simp: team_of_def roster_key_def)
    then obtain b where "b \<in> set rs" "team_of b = (e, t)" "cro_PlayerID b \<noteq> p" "cro_IsCaptain b"
      using last c(3) True q(1) \<open>team_of q = (e, t)\<close> by blast
    moreover from this have "b \<noteq> r" using assms(4) by (auto simp: roster_key_def)
    ultimately show ?thesis using \<open>team_of q = (e, t)\<close> by (intro bexI [of _ b]) auto
  qed (use c in auto)
qed

lemma removal_guard_row:
  assumes "removal_guard e t p db = Inr ()" "rosters_ok db"
  obtains r where "r \<in> set (cl_Rosters db)" "roster_key r = (e, p)" "team_of r = (e, t)" "\<not> plays_for e t p db"
    "cl_Rosters (delete_roster e t p db) = filter (\<lambda>x. x \<noteq> r) (cl_Rosters db)" "captained (filter (\<lambda>x. x \<noteq> r) (cl_Rosters db))"
proof -
  obtain r where r: "r \<in> set (cl_Rosters db)" "roster_key r = (e, p)" "team_of r = (e, t)" "\<not> plays_for e t p db"
    and others: "\<not> (cro_IsCaptain r \<and> length (filter (\<lambda>x. cro_PlayerID x \<noteq> p) (team_roster e t db)) > 0
      \<and> captains (filter (\<lambda>x. cro_PlayerID x \<noteq> p) (team_roster e t db)) = 0)"
    using assms(1) unfolding removal_guard_def
    by (auto simp: Let_def roster_key_def team_of_def team_roster_def split: option.split_asm if_split_asm dest!: first_row_Some)
  have key: "distinct (map roster_key (cl_Rosters db))" and cap: "captained (cl_Rosters db)"
    using assms(2) by (simp_all add: rosters_ok_def)
  have "x = r" if "x \<in> set (cl_Rosters db)" "cro_EventID x = e" "cro_PlayerID x = p" for x
    using key_unique [OF key that(1) r(1)] that r(2) by (simp add: roster_key_def)
  then have del: "cl_Rosters (delete_roster e t p db) = filter (\<lambda>x. x \<noteq> r) (cl_Rosters db)"
    using r(2,3) by (auto simp: delete_roster_def roster_key_def team_of_def intro!: filter_cong)
  have "captained (filter (\<lambda>x. x \<noteq> r) (cl_Rosters db))"
  proof (rule captained_remove [OF cap key r(1-3)])
    assume "cro_IsCaptain r" "\<exists>q \<in> set (cl_Rosters db). team_of q = (e, t) \<and> cro_PlayerID q \<noteq> p"
    then have "captains (filter (\<lambda>x. cro_PlayerID x \<noteq> p) (team_roster e t db)) \<noteq> 0"
      using others by (auto simp: team_roster_set filter_empty_conv)
    then show "\<exists>q \<in> set (cl_Rosters db). team_of q = (e, t) \<and> cro_PlayerID q \<noteq> p \<and> cro_IsCaptain q"
      unfolding captains_pos by (auto simp: team_roster_set)
  qed
  with r del show thesis by (rule that)
qed

lemma filter_keeps_distinct: "distinct (map f xs) \<Longrightarrow> distinct (map f (filter b xs))"
  by (induction xs) auto

lemma remove_keeps_rosters:
  assumes "removal_guard e t p db = Inr ()" "rosters_ok db"
  shows "rosters_ok (versioned u v (delete_roster e t p db))"
proof -
  obtain r where r: "cl_Rosters (delete_roster e t p db) = filter (\<lambda>x. x \<noteq> r) (cl_Rosters db)"
    "captained (filter (\<lambda>x. x \<noteq> r) (cl_Rosters db))"
    using removal_guard_row [OF assms] by metis
  have teams: "(\<lambda>x. (ctm_EventID x, ctm_ID x)) ` set (cl_Teams (versioned u v (delete_roster e t p db)))
      = (\<lambda>x. (ctm_EventID x, ctm_ID x)) ` set (cl_Teams db)"
    by (simp add: versioned_teams) (simp add: delete_roster_def)
  have rs: "cl_Rosters (versioned u v (delete_roster e t p db)) = filter (\<lambda>x. x \<noteq> r) (cl_Rosters db)"
    using r(1) by (simp add: versioned_def)
  show ?thesis
    unfolding rosters_ok_def rs teams using assms(2) r(2) unfolding rosters_ok_def
    by (auto simp del: distinct_map intro: filter_keeps_distinct)
qed

end
