(* ===== verification/Club_Steps.thy ===== *)
theory Club_Steps
  imports Club_Invariant
begin

text \<open>
  The invariant of the competition's tables (\<open>club_wf\<close>), the step relation over all operations of \<open>competitionpg\<close>
  together with everything that other packages do (\<open>club_step\<close>), and that every step keeps the invariant and the verified
  results.
\<close>

section \<open>The invariant\<close>

definition on_side :: "club_db \<Rightarrow> participant_row \<Rightarrow> bool" where
  \<comment> \<open>a participant's side belongs to the match and the player to the roster of its team\<close>
  "on_side db a \<longleftrightarrow> (\<exists>s \<in> set (cl_Sides db). csd_ID s = cpa_SideID a \<and> csd_MatchID s = cpa_MatchID a
     \<and> (\<exists>r \<in> set (cl_Rosters db). roster_key r = (csd_EventID s, cpa_PlayerID a) \<and> team_of r = (csd_EventID s, csd_TeamID s)))"

definition participants_ok :: "club_db \<Rightarrow> bool" where
  "participants_ok db \<longleftrightarrow> distinct (map csd_ID (cl_Sides db)) \<and> distinct (map participant_key (cl_Participants db))
     \<and> (\<forall>a \<in> set (cl_Participants db). on_side db a)"

definition results_ok :: "club_db \<Rightarrow> bool" where
  "results_ok db \<longleftrightarrow> distinct (map cmt_ID (cl_Matches db)) \<and> distinct (map cvr_MatchID (cl_Verified db))
     \<and> (\<forall>v \<in> set (cl_Verified db). cvr_Version v = 1 \<and> (\<exists>r \<in> set (cl_Matches db). cmt_ID r = cvr_MatchID v \<and> cmt_State r = ''verified''))
     \<and> (\<forall>r \<in> set (cl_Matches db). cmt_State r = ''verified'' \<longrightarrow> cmt_ID r \<in> cvr_MatchID ` set (cl_Verified db))"

definition links_ok :: "club_db \<Rightarrow> bool" where
  "links_ok db \<longleftrightarrow> distinct (map cpl_ID (cl_Players db)) \<and> distinct (filter (\<lambda>u. u \<noteq> []) (map cpl_LinkedUserID (cl_Players db)))"

definition sides_ok :: "club_db \<Rightarrow> bool" where
  "sides_ok db \<longleftrightarrow> csd_Number ` set (cl_Sides db) \<subseteq> {1, 2} \<and> distinct (map (\<lambda>s. (csd_MatchID s, csd_Number s)) (cl_Sides db))"

definition stat_ok :: "stat_row \<Rightarrow> bool" where
  \<comment> \<open>the checks on \<open>player_stat_projections\<close>: the totals are those of both kinds of matches\<close>
  "stat_ok r \<longleftrightarrow> cst_All r = add_tally (cst_Singles r) (cst_Team r)
     \<and> ta_Wins (cst_All r) + ta_Losses (cst_All r) + ta_Ties (cst_All r) \<le> ta_Played (cst_All r)
     \<and> (\<forall>t \<in> {cst_Singles r, cst_Team r}. 0 \<le> ta_Played t \<and> 0 \<le> ta_Wins t \<and> 0 \<le> ta_Losses t \<and> 0 \<le> ta_Ties t \<and> 0 \<le> ta_Points t)"

definition stats_ok :: "club_db \<Rightarrow> bool" where
  "stats_ok db \<longleftrightarrow> (\<forall>r \<in> set (cl_Stats db). stat_ok r)"

definition club_wf :: "club_db \<Rightarrow> bool" where
  "club_wf db \<longleftrightarrow> rosters_ok db \<and> participants_ok db \<and> results_ok db \<and> links_ok db \<and> sides_ok db \<and> stats_ok db"

lemmas ok_defs = rosters_ok_def participants_ok_def results_ok_def links_ok_def sides_ok_def stats_ok_def on_side_def

definition club_keep :: "club_db \<Rightarrow> club_db \<Rightarrow> bool" where
  "club_keep db db' \<longleftrightarrow> (club_wf db \<longrightarrow> club_wf db' \<and> set (cl_Verified db) \<subseteq> set (cl_Verified db'))"

interpretation club: tx_relation club_keep
  by unfold_locales (auto simp: club_keep_def)

lemma beside_wf: "same_tables db db' \<Longrightarrow> club_wf db' = club_wf db"
  by (simp add: same_tables_def club_wf_def ok_defs)

lemma keep_beside: "same_tables db1 db' \<Longrightarrow> club_keep db db1 \<Longrightarrow> club_keep db db'"
  unfolding club_keep_def using beside_wf [of db1 db'] by (simp add: same_tables_def)

section \<open>Participants\<close>

lemma participants_follow:
  assumes "participants_ok db" "cl_Sides db' = cl_Sides db" "cl_Participants db' = cl_Participants db"
    and "\<And>r. r \<in> set (cl_Rosters db) \<Longrightarrow> (\<exists>a \<in> set (cl_Participants db). cpa_PlayerID a = snd (roster_key r)) \<Longrightarrow>
      plays_for (cro_EventID r) (cro_TeamID r) (cro_PlayerID r) db \<Longrightarrow>
      \<exists>q \<in> set (cl_Rosters db'). roster_key q = roster_key r \<and> team_of q = team_of r"
  shows "participants_ok db'"
proof -
  have "on_side db' a" if a: "a \<in> set (cl_Participants db)" for a
  proof -
    obtain s r where s: "s \<in> set (cl_Sides db)" "csd_ID s = cpa_SideID a" "csd_MatchID s = cpa_MatchID a"
      and r: "r \<in> set (cl_Rosters db)" "roster_key r = (csd_EventID s, cpa_PlayerID a)" "team_of r = (csd_EventID s, csd_TeamID s)"
      using assms(1) a unfolding participants_ok_def on_side_def by blast
    then have "plays_for (cro_EventID r) (cro_TeamID r) (cro_PlayerID r) db"
      using a by (auto simp: plays_for_def roster_key_def team_of_def)
    moreover have "\<exists>a \<in> set (cl_Participants db). cpa_PlayerID a = snd (roster_key r)" using a r(2) by auto
    ultimately obtain q where "q \<in> set (cl_Rosters db')" "roster_key q = roster_key r" "team_of q = team_of r"
      using assms(4) [OF r(1)] by blast
    then show ?thesis using s r assms(2) unfolding on_side_def by metis
  qed
  then show ?thesis using assms(1-3) by (simp add: participants_ok_def)
qed

lemma those_map: "those xs = Some ys \<Longrightarrow> xs = map Some ys"
  by (induction xs arbitrary: ys) (auto split: option.splits)

lemma rostered_row:
  assumes "rostered e t ps db" "rosters_ok db" "map (\<lambda>r. Some (cpa_PlayerID r)) rows = map pg_uuid ps" "a \<in> set rows"
  obtains r where "r \<in> set (cl_Rosters db)" "roster_key r = (e, cpa_PlayerID a)" "team_of r = (e, t)"
proof -
  obtain us where us: "those (map pg_uuid ps) = Some us" and
    count: "length (filter (\<lambda>r. cro_PlayerID r \<in> active_players db \<and> cro_PlayerID r \<in> set us)
         (filter (\<lambda>r. cro_PlayerID r \<in> cpl_ID ` set (cl_Players db)) (team_roster e t db))) = length ps"
    using assms(1) by (auto simp: rostered_def)
  let ?fs = "filter (\<lambda>r. cro_PlayerID r \<in> active_players db \<and> cro_PlayerID r \<in> set us)
         (filter (\<lambda>r. cro_PlayerID r \<in> cpl_ID ` set (cl_Players db)) (team_roster e t db))"
  have "map Some us = map Some (map cpa_PlayerID rows)" using those_map [OF us] assms(3) by (simp add: o_def)
  then have us_rows: "us = map cpa_PlayerID rows" by (metis map_injective inj_Some)
  have "distinct (map roster_key (cl_Rosters db))" using assms(2) by (simp add: rosters_ok_def)
  then have "distinct (map cro_PlayerID (team_roster e t db))" unfolding team_roster_def by (rule distinct_roster)
  then have "distinct (map cro_PlayerID ?fs)" by (rule filter_keeps_distinct [OF filter_keeps_distinct])
  from distinct_card [OF this] have "card (set (map cro_PlayerID ?fs)) = length ps"
    unfolding length_map count .
  moreover have "length ps = length us" using those_map [OF us] by (metis length_map)
  moreover have sub: "set (map cro_PlayerID ?fs) \<subseteq> set us" by auto
  ultimately have "set (map cro_PlayerID ?fs) = set us"
    by (intro card_seteq) (use card_length [of us] in auto)
  then have "cpa_PlayerID a \<in> set (map cro_PlayerID ?fs)" using us_rows assms(4) by simp
  then obtain r where "r \<in> set (team_roster e t db)" "cro_PlayerID r = cpa_PlayerID a" by auto
  then show thesis by (intro that [of r]) (auto simp: team_roster_set roster_key_def team_of_def)
qed

section \<open>Every operation\<close>

lemma keep_setup:
  "keeps club_keep (createEvent P name venue year actor)" "keeps club_keep (createTeam P eventID name)"
  "keeps club_keep (createPlayer P name u)"
proof -
  show "keeps club_keep (createEvent P name venue year actor)"
    by (rule keepsI, elim createEvent_Inr) (simp add: club_keep_def club_wf_def ok_defs)
  show "keeps club_keep (createTeam P eventID name)"
    by (rule keepsI, elim createTeam_Inr) (auto simp: club_keep_def club_wf_def ok_defs)
  show "keeps club_keep (createPlayer P name u)"
    by (rule keepsI, elim createPlayer_Inr) (auto simp: club_keep_def club_wf_def ok_defs)
qed

lemma keep_setTeamMember: "keeps club_keep (setTeamMember req now')"
proof (rule keepsI)
  fix db db' and x :: unit
  assume "setTeamMember req now' db = Inr (x, db')"
  then show "club_keep db db'"
  proof (cases rule: setTeamMember_Inr)
    case (changed e t p c v db1)
    have "club_keep db (versioned t v db1)"
      unfolding club_keep_def
    proof (intro impI conjI)
      assume wf: "club_wf db"
      then have ok: "distinct (map roster_key (cl_Rosters db))" "captained (cl_Rosters db)"
        by (simp_all add: club_wf_def rosters_ok_def)
      obtain rs where db1: "db1 = db\<lparr>cl_Rosters := rs\<rparr>" and kept: "\<forall>r \<in> set (cl_Rosters db). \<exists>q \<in> set rs.
          roster_key q = roster_key r \<and> team_of q = team_of r"
        using upsert_captained(4,5) [OF ok changed(1,2,4)] by auto
      have "rosters_ok (versioned t v db1)" using wf set_keeps_rosters [OF _ changed(1,2,4)] by (simp add: club_wf_def)
      moreover have "participants_ok (versioned t v db1)"
        by (rule participants_follow [of db]) (use wf kept in \<open>auto simp: versioned_def db1 club_wf_def\<close>)
      ultimately show "club_wf (versioned t v db1)" "set (cl_Verified db) \<subseteq> set (cl_Verified (versioned t v db1))"
        using wf by (simp_all add: club_wf_def results_ok_def links_ok_def sides_ok_def stats_ok_def versioned_def db1)
    qed
    with changed(3) show ?thesis by (rule keep_beside)
  qed (simp add: club.R_refl)
qed

lemma keep_removeTeamMember: "keeps club_keep (removeTeamMember eventID teamID playerID actor reason now')"
proof (rule keepsI)
  fix db db' and x :: unit
  assume "removeTeamMember eventID teamID playerID actor reason now' db = Inr (x, db')"
  then obtain e t p v where guard: "removal_guard e t p db = Inr ()" and same: "same_tables (versioned t v (delete_roster e t p db)) db'"
    by (rule removeTeamMember_Inr)
  have "club_keep db (versioned t v (delete_roster e t p db))"
    unfolding club_keep_def
  proof (intro impI conjI)
    assume wf: "club_wf db"
    then have rosters: "rosters_ok db" by (simp add: club_wf_def)
    obtain r where r: "roster_key r = (e, p)" "team_of r = (e, t)" "\<not> plays_for e t p db"
        "cl_Rosters (delete_roster e t p db) = filter (\<lambda>x. x \<noteq> r) (cl_Rosters db)"
      by (rule removal_guard_row [OF guard rosters])
    have "participants_ok (versioned t v (delete_roster e t p db))"
      by (rule participants_follow [of db])
        (use wf r in \<open>auto simp: versioned_def club_wf_def delete_roster_def roster_key_def team_of_def\<close>)
    then show "club_wf (versioned t v (delete_roster e t p db))"
      using wf remove_keeps_rosters [OF guard rosters]
      by (simp add: club_wf_def results_ok_def links_ok_def sides_ok_def stats_ok_def versioned_def delete_roster_def)
    show "set (cl_Verified db) \<subseteq> set (cl_Verified (versioned t v (delete_roster e t p db)))"
      by (simp add: versioned_def delete_roster_def)
  qed
  with same show "club_keep db db'" by (rule keep_beside)
qed

lemma keep_createMatch: "keeps club_keep (createMatch req)"
proof (rule keepsI)
  fix db db' and x :: "string \<times> string \<times> string"
  assume step: "createMatch req db = Inr (x, db')"
  obtain m s1 s2 where x: "x = (m, s1, s2)" by (cases x)
  show "club_keep db db'"
    unfolding club_keep_def
  proof (intro impI conjI)
    assume wf: "club_wf db"
    then have rosters: "rosters_ok db" and parts: "participants_ok db" by (simp_all add: club_wf_def)
    from step show "club_wf db'" unfolding x
    proof (rule createMatch_Inr)
      fix e t1 t2 r rows1 rows2 n
      let ?side1 = "\<lparr>csd_ID = s1, csd_EventID = e, csd_MatchID = m, csd_Number = 1, csd_TeamID = t1\<rparr>"
      let ?side2 = "\<lparr>csd_ID = s2, csd_EventID = e, csd_MatchID = m, csd_Number = 2, csd_TeamID = t2\<rparr>"
      assume rostered: "rostered e t1 (normalizeParticipantIDs (cmr_Side1PlayerIDs req)) db"
          "rostered e t2 (normalizeParticipantIDs (cmr_Side2PlayerIDs req)) db"
        and rows: "map (\<lambda>r. Some (cpa_PlayerID r)) rows1 = map pg_uuid (normalizeParticipantIDs (cmr_Side1PlayerIDs req))"
          "map (\<lambda>r. Some (cpa_PlayerID r)) rows2 = map pg_uuid (normalizeParticipantIDs (cmr_Side2PlayerIDs req))"
          "\<forall>r \<in> set rows1. cpa_MatchID r = m \<and> cpa_SideID r = s1" "\<forall>r \<in> set rows2. cpa_MatchID r = m \<and> cpa_SideID r = s2"
        and keys: "distinct (map participant_key (cl_Participants db)) \<Longrightarrow>
          distinct (map participant_key (cl_Participants db @ rows1 @ rows2))"
        and fresh: "m \<notin> cmt_ID ` set (cl_Matches db)" "s1 \<notin> csd_ID ` set (cl_Sides db)" "s2 \<notin> insert s1 (csd_ID ` set (cl_Sides db))"
        and r: "cmt_ID r = m" "cmt_State r = ''open''"
        and sides: "{(m, 1), (m, 2)} \<inter> (\<lambda>s. (csd_MatchID s, csd_Number s)) ` set (cl_Sides db) = {}"
        and db': "db' = db\<lparr>cl_Draws := n, cl_Matches := cl_Matches db @ [r], cl_Sides := cl_Sides db @ [?side1, ?side2],
          cl_Participants := cl_Participants db @ rows1 @ rows2\<rparr>"
      have old: "on_side db' a" if "a \<in> set (cl_Participants db)" for a
        using parts that by (fastforce simp: participants_ok_def on_side_def db')
      have one: "on_side db' a" if "a \<in> set rows1" for a
        using rostered_row [OF rostered(1) rosters rows(1) that] rows(3) that by (auto simp: on_side_def db')
      have two: "on_side db' a" if "a \<in> set rows2" for a
        using rostered_row [OF rostered(2) rosters rows(2) that] rows(4) that by (auto simp: on_side_def db')
      have "distinct (map csd_ID (cl_Sides db'))" using parts fresh(2,3) by (auto simp: participants_ok_def db')
      moreover have "distinct (map participant_key (cl_Participants db'))"
        using keys parts by (simp add: participants_ok_def db' del: distinct_map map_append distinct_append)
      ultimately have "participants_ok db'" using old one two by (auto simp: participants_ok_def db' simp del: distinct_map)
      moreover have "results_ok db'" using wf fresh(1) r by (auto simp: club_wf_def results_ok_def db')
      moreover have "sides_ok db'" using wf sides by (auto simp: club_wf_def sides_ok_def db')
      ultimately show "club_wf db'"
        using wf by (simp add: club_wf_def rosters_ok_def links_ok_def stats_ok_def db')
    qed
    from step show "set (cl_Verified db) \<subseteq> set (cl_Verified db')" unfolding x by (rule createMatch_Inr) simp
  qed
qed

lemma found_match_Some: "found_match m db = Some r \<Longrightarrow> r \<in> set (cl_Matches db) \<and> cmt_ID r = m"
  by (auto simp: found_match_def dest!: first_row_Some)

lemma keep_recordAdminResult: "keeps club_keep (recordAdminResult req now')"
proof (rule keepsI)
  fix db db' and i
  assume "recordAdminResult req now' db = Inr (i, db')"
  then show "club_keep db db'"
  proof (cases rule: recordAdminResult_Inr)
    case (new m r v n)
    let ?db1 = "set_match_state m ''verified'' (db\<lparr>cl_Draws := n, cl_Verified := cl_Verified db @ [v]\<rparr>)"
    let ?f = "\<lambda>r. if cmt_ID r = m then r\<lparr>cmt_State := ''verified''\<rparr> else r"
    have matches: "cl_Matches ?db1 = map ?f (cl_Matches db)" by (simp add: set_match_state_def)
    have "results_ok ?db1" if ok: "results_ok db"
    proof -
      have f: "cmt_ID (?f q) = cmt_ID q" "cmt_State q = ''verified'' \<Longrightarrow> cmt_State (?f q) = ''verified''" for q by simp_all
      have v: "cvr_MatchID v = m" "cvr_Version v = 1" using new(4) by (simp_all add: verdict_def)
      have marked: "\<exists>q \<in> set (map ?f (cl_Matches db)). cmt_ID q = cvr_MatchID w \<and> cmt_State q = ''verified''"
        if "w \<in> set (cl_Verified db @ [v])" for w
      proof (cases "cvr_MatchID w = m")
        case True
        define q where q: "q = ?f r"
        have "q \<in> set (map ?f (cl_Matches db))" unfolding q set_map using found_match_Some [OF new(2)] by (intro imageI) simp
        moreover have "cmt_State q = ''verified''" "cmt_ID q = cvr_MatchID w"
          using found_match_Some [OF new(2)] True by (simp_all add: q)
        ultimately show ?thesis by blast
      next
        case False
        then have "w \<in> set (cl_Verified db)" using that v(1) by auto
        then obtain q where "q \<in> set (cl_Matches db)" "cmt_ID q = cvr_MatchID w" "cmt_State q = ''verified''"
          using ok unfolding results_ok_def by blast
        then show ?thesis using f by (intro bexI [of _ "?f q"]) auto
      qed
      have "map cmt_ID (map ?f (cl_Matches db)) = map cmt_ID (cl_Matches db)" by simp
      then have "distinct (map cmt_ID (map ?f (cl_Matches db)))" using ok by (simp add: results_ok_def del: map_map)
      moreover have "\<forall>w \<in> set (cl_Verified db). cvr_MatchID w \<noteq> m" using ok new(5) by (auto simp: results_ok_def)
      then have "distinct (map cvr_MatchID (cl_Verified db @ [v]))" using ok v(1) by (auto simp: results_ok_def)
      moreover have "\<forall>q \<in> set (map ?f (cl_Matches db)). cmt_State q = ''verified'' \<longrightarrow> cmt_ID q \<in> cvr_MatchID ` set (cl_Verified db @ [v])"
        using ok v(1) by (auto simp: results_ok_def)
      ultimately show ?thesis
        using ok v(2) marked unfolding results_ok_def by (simp add: set_match_state_def del: distinct_map set_map map_map)
    qed
    then have "club_keep db ?db1"
      by (auto simp: club_keep_def club_wf_def set_match_state_def rosters_ok_def participants_ok_def on_side_def links_ok_def
        sides_ok_def stats_ok_def)
    with new(6) show ?thesis by (rule keep_beside)
  qed (simp add: club.R_refl)
qed

lemma keep_deletions:
  "keeps club_keep (deleteMatch matchID actor reason now')" "keeps club_keep (deleteTeam eventID teamID actor reason now')"
  "keeps club_keep (deleteEvent eventID actor reason now')"
proof -
  have unstaffed: "filter (\<lambda>r. cro_TeamID r \<noteq> t) (cl_Rosters db) = cl_Rosters db" if "\<not> team_protected t db" for t db
    using that by (auto simp: team_protected_def filter_id_conv)
  have empty: "filter (\<lambda>r. cro_EventID r \<noteq> cev_ID v) (cl_Rosters db) = cl_Rosters db"
    if "rosters_ok db" "\<not> event_protected v db" for v db
  proof -
    have "cro_EventID r \<noteq> cev_ID v" if "r \<in> set (cl_Rosters db)" for r
    proof -
      have "team_of r \<in> (\<lambda>t. (ctm_EventID t, ctm_ID t)) ` set (cl_Teams db)" using \<open>rosters_ok db\<close> that unfolding rosters_ok_def by blast
      then have "cro_EventID r \<in> ctm_EventID ` set (cl_Teams db)" by (auto simp: team_of_def)
      then show ?thesis using \<open>\<not> event_protected v db\<close> by (auto simp: event_protected_def)
    qed
    then show ?thesis by (simp add: filter_id_conv)
  qed
  show "keeps club_keep (deleteMatch matchID actor reason now')"
  proof (rule keepsI, elim deleteMatch_Inr)
    fix db db' m r
    assume m: "found_match m db = Some r" "\<not> match_protected r db" and same: "same_tables (delete_match m db) db'"
    then have "m \<notin> cvr_MatchID ` set (cl_Verified db)" by (auto simp: match_protected_def dest!: found_match_Some)
    then have "results_ok (delete_match m db)" if "results_ok db"
      using that by (fastforce simp: results_ok_def delete_match_def simp del: distinct_map intro: filter_keeps_distinct)
    moreover have "participants_ok (delete_match m db)" if "participants_ok db"
      using that by (fastforce simp: participants_ok_def delete_match_def on_side_def simp del: distinct_map intro: filter_keeps_distinct)
    moreover have "sides_ok (delete_match m db)" if "sides_ok db"
      using that by (auto simp: sides_ok_def delete_match_def simp del: distinct_map intro: filter_keeps_distinct)
    ultimately have "club_keep db (delete_match m db)"
      by (auto simp: club_keep_def club_wf_def rosters_ok_def links_ok_def stats_ok_def delete_match_def)
    with same show "club_keep db db'" by (rule keep_beside)
  qed
  show "keeps club_keep (deleteTeam eventID teamID actor reason now')"
  proof (rule keepsI, elim deleteTeam_Inr)
    fix db db' t
    assume t: "\<not> team_protected t db" and same: "same_tables (delete_team t db) db'"
    have "rosters_ok (delete_team t db)" if ok: "rosters_ok db"
    proof -
      have "team_of r \<in> (\<lambda>t. (ctm_EventID t, ctm_ID t)) ` set (cl_Teams (delete_team t db))" if r: "r \<in> set (cl_Rosters db)" for r
      proof -
        obtain x where "x \<in> set (cl_Teams db)" "team_of r = (ctm_EventID x, ctm_ID x)" using ok r by (auto simp: rosters_ok_def)
        moreover have "cro_TeamID r \<noteq> t" using t r by (auto simp: team_protected_def)
        ultimately show ?thesis by (auto simp: delete_team_def team_of_def)
      qed
      then show ?thesis using ok unstaffed [OF t] by (auto simp: rosters_ok_def delete_team_def)
    qed
    then have "club_keep db (delete_team t db)"
      using unstaffed [OF t]
      by (simp add: club_keep_def club_wf_def participants_ok_def on_side_def results_ok_def links_ok_def sides_ok_def stats_ok_def delete_team_def)
    with same show "club_keep db db'" by (rule keep_beside)
  qed
  show "keeps club_keep (deleteEvent eventID actor reason now')"
  proof (rule keepsI, elim deleteEvent_Inr)
    fix db db' v
    assume v: "\<not> event_protected v db" and same: "same_tables (delete_event (cev_ID v) db) db'"
    have "club_keep db (delete_event (cev_ID v) db)"
      using empty [OF _ v] by (auto simp: club_keep_def club_wf_def ok_defs delete_event_def)
    with same show "club_keep db db'" by (rule keep_beside)
  qed
qed

lemma linked_distinct:
  assumes "distinct (map cpl_ID xs)" "distinct (filter (\<lambda>u. u \<noteq> []) (map cpl_LinkedUserID xs))"
    "u = [] \<or> (\<forall>x \<in> set xs. cpl_LinkedUserID x = u \<longrightarrow> cpl_ID x = p)"
  shows "distinct (filter (\<lambda>u. u \<noteq> []) (map cpl_LinkedUserID (map (\<lambda>x. if cpl_ID x = p then x\<lparr>cpl_LinkedUserID := u\<rparr> else x) xs)))"
  using assms
proof (induction xs)
  case (Cons x xs)
  let ?f = "\<lambda>x. if cpl_ID x = p then x\<lparr>cpl_LinkedUserID := u\<rparr> else x"
  show ?case
  proof (cases "cpl_ID x = p")
    case True
    then have ids: "\<forall>y \<in> set xs. cpl_ID y \<noteq> p" using Cons.prems(1) by (auto simp: image_iff)
    then have "map ?f xs = xs" by (intro map_idI) simp
    then have "map ?f (x # xs) = x\<lparr>cpl_LinkedUserID := u\<rparr> # xs" using True by simp
    moreover have "distinct (filter (\<lambda>u. u \<noteq> []) (map cpl_LinkedUserID xs))"
      using Cons.prems(2) by (simp del: filter_map split: if_split_asm)
    moreover have "u = [] \<or> u \<notin> set (map cpl_LinkedUserID xs)" using Cons.prems(3) ids by auto
    ultimately show ?thesis by (simp only: list.map) auto
  next
    case False
    have "cpl_LinkedUserID x \<notin> set (map cpl_LinkedUserID (map ?f xs))" if "cpl_LinkedUserID x \<noteq> []"
      using Cons.prems False that by (auto split: if_split_asm)
    moreover have "distinct (filter (\<lambda>u. u \<noteq> []) (map cpl_LinkedUserID (map ?f xs)))"
      using Cons.prems by (intro Cons.IH) (auto split: if_split_asm)
    ultimately show ?thesis using False by (auto simp del: map_map set_map)
  qed
qed simp

lemma keep_linked: "link_free p u db \<Longrightarrow> club_keep db (linked p u db)"
proof -
  assume free: "link_free p u db"
  have "map cpl_ID (cl_Players (linked p u db)) = map cpl_ID (cl_Players db)" by (simp add: linked_def)
  then have "links_ok (linked p u db)" if "links_ok db"
    using that linked_distinct [of "cl_Players db" u p] free unfolding links_ok_def link_free_def
    by (simp add: linked_def del: map_map filter_map)
  then show ?thesis
    by (auto simp: club_keep_def club_wf_def rosters_ok_def participants_ok_def results_ok_def on_side_def sides_ok_def stats_ok_def linked_def)
qed

lemma keep_links: "keeps club_keep (linkPlayerToUser actor i u now')" "keeps club_keep (unlinkPlayer actor i u now')"
  by (rule keepsI, elim linkPlayerToUser_Inr unlinkPlayer_Inr; use keep_beside keep_linked club.R_refl in blast)+

definition stats_keep :: "club_db \<Rightarrow> club_db \<Rightarrow> bool" where
  "stats_keep db db' \<longleftrightarrow> (stats_ok db \<longrightarrow> stats_ok db')"

interpretation stats: tx_relation stats_keep
  by unfold_locales (auto simp: stats_keep_def)

lemma stat_ok_increment: "stat_ok (stat_increment p e f (side_tally payload side))"
  by (auto simp: stat_ok_def stat_increment_def side_tally_def outcomeForSide_def add_tally_def no_tally_def)

lemma stat_ok_add: "stat_ok r \<Longrightarrow> stat_ok d \<Longrightarrow> stat_ok (add_stat r d)"
  by (auto simp: stat_ok_def add_stat_def add_tally_def)

lemma stats_keep_handle: "keeps stats_keep (Stats_Handle d)"
proof -
  have "keeps stats_keep (upsert_stat r)" if "stat_ok r" for r
    using that stat_ok_add [OF _ that]
    by (auto simp: keeps_def stats_keep_def stats_ok_def upsert_stat_def Let_def split: if_split_asm)
  then have upsert: "keeps stats_keep (upsert_stat (stat_increment p e f (side_tally payload side)))" for p e f payload side
    using stat_ok_increment by blast
  have plain: "keeps stats_keep (cast i)" "keeps stats_keep (guard_application i)" for i
    by (auto simp: keeps_def cmd_simps stats.R_refl guard_application_def stats_keep_def stats_ok_def split: if_split_asm)
  show ?thesis
    unfolding Stats_Handle_def project_def
    by (intro keeps_case_option keeps_if keeps_case_prod stats.keeps_andThen stats.keeps_throw stats.keeps_ret
        stats.keeps_require stats.keeps_query stats.keeps_each upsert plain)
qed

lemma keep_statistics: "keeps club_keep (Stats_Handle d)"
proof (rule keepsI)
  fix db db' and x :: unit
  assume handled: "Stats_Handle d db = Inr (x, db')"
  then have "beside_statistics db db'" by (rule keepsD [OF statistics_handle])
  then obtain a s where db': "db' = db\<lparr>cl_Applied := a, cl_Stats := s\<rparr>" unfolding beside_statistics_def by blast
  moreover have "stats_keep db db'" using handled by (rule keepsD [OF stats_keep_handle])
  ultimately show "club_keep db db'"
    by (simp add: club_keep_def club_wf_def stats_keep_def rosters_ok_def participants_ok_def on_side_def results_ok_def
        links_ok_def sides_ok_def)
qed

section \<open>Steps\<close>

inductive club_step :: "platform \<Rightarrow> club_db \<Rightarrow> club_db \<Rightarrow> bool" for P where
  event_created: "club_step P db (snd (run_tx (createEvent P name venue year actor) db))"
| team_created: "club_step P db (snd (run_tx (createTeam P eventID name) db))"
| player_created: "club_step P db (snd (run_tx (createPlayer P name u) db))"
| match_created: "club_step P db (snd (run_tx (createMatch mreq) db))"
| member_set: "club_step P db (snd (run_tx (setTeamMember treq now') db))"
| member_removed: "club_step P db (snd (run_tx (removeTeamMember eventID teamID playerID actor reason now') db))"
| result_recorded: "club_step P db (snd (run_tx (recordAdminResult rreq now') db))"
| match_deleted: "club_step P db (snd (run_tx (deleteMatch matchID actor reason now') db))"
| team_deleted: "club_step P db (snd (run_tx (deleteTeam eventID teamID actor reason now') db))"
| event_deleted: "club_step P db (snd (run_tx (deleteEvent eventID actor reason now') db))"
| player_linked: "club_step P db (snd (run_tx (linkPlayerToUser actor playerID u now') db))"
| player_unlinked: "club_step P db (snd (run_tx (unlinkPlayer actor playerID u now') db))"
| stats_delivered: "club_step P db (snd (run_tx (Stats_Handle payload) db))"
| other_packages: "club_step P db (db\<lparr>cl_Members := members, cl_History := history, cl_Outbox := outbox\<rparr>)"

abbreviation club_run :: "platform \<Rightarrow> club_db \<Rightarrow> club_db \<Rightarrow> bool" where
  "club_run P \<equiv> (club_step P)\<^sup>*\<^sup>*"

lemmas keep_club = keep_setup keep_createMatch keep_setTeamMember keep_removeTeamMember keep_recordAdminResult
  keep_deletions keep_links keep_statistics

lemma club_step_keep: "club_step P db db' \<Longrightarrow> club_keep db db'"
proof (induction rule: club_step.induct)
  case (other_packages db members history outbox)
  then show ?case by (simp add: club_keep_def club_wf_def ok_defs)
qed (rule club.run_tx_keeps, rule keep_club)+

lemma club_run_keep: "club_run P db db' \<Longrightarrow> club_keep db db'"
  by (induction rule: rtranclp_induct) (auto intro: club.R_refl club.R_trans club_step_keep)

definition club_empty :: "members_db \<Rightarrow> unit outbox \<Rightarrow> (nat \<Rightarrow> nat \<Rightarrow> 8 word) \<Rightarrow> club_db" where
  "club_empty members ob random = \<lparr>cl_Members = members, cl_Events = [], cl_Teams = [], cl_Players = [], cl_Rosters = [],
     cl_Matches = [], cl_Sides = [], cl_Participants = [], cl_Verified = [], cl_Applied = [], cl_Stats = [],
     cl_History = [], cl_Outbox = ob, cl_Random = random, cl_Draws = 0\<rparr>"

definition club_reachable :: "platform \<Rightarrow> club_db \<Rightarrow> bool" where
  "club_reachable P db \<longleftrightarrow> (\<exists>members ob random. club_run P (club_empty members ob random) db)"

lemma club_reachable_wf: "club_reachable P db \<Longrightarrow> club_wf db"
proof -
  assume "club_reachable P db"
  then obtain members ob random where "club_run P (club_empty members ob random) db" by (auto simp: club_reachable_def)
  moreover have "club_wf (club_empty members ob random)"
    by (simp add: club_empty_def club_wf_def ok_defs captained_def)
  ultimately show ?thesis using club_run_keep by (auto simp: club_keep_def)
qed

lemma club_reachable_step: "club_reachable P db \<Longrightarrow> club_step P db db' \<Longrightarrow> club_reachable P db'"
  by (auto simp: club_reachable_def intro: rtranclp.rtrancl_into_rtrancl)

end
