(* ===== verification/Club_Totals.thy ===== *)
theory Club_Totals
  imports Club_Steps
begin

text \<open>
  The statistics against a reference: after any sequence of deliveries, redeliveries and failures included, a player's
  tally of an event is what it was plus one entry per match that was credited, each match once.
\<close>

section \<open>Tallies\<close>

lemma add_tally_0 [simp]: "add_tally no_tally t = t" "add_tally t no_tally = t"
  by (simp_all add: add_tally_def no_tally_def)

lemma add_tally_assoc: "add_tally (add_tally r s) t = add_tally r (add_tally s t)"
  by (simp add: add_tally_def)

definition tally_sum :: "tally list \<Rightarrow> tally" where
  "tally_sum ts = foldr add_tally ts no_tally"

lemma tally_sum_simps [simp]: "tally_sum [] = no_tally" "tally_sum (t # ts) = add_tally t (tally_sum ts)"
  by (simp_all add: tally_sum_def)

lemma tally_sum_append: "tally_sum (ts @ us) = add_tally (tally_sum ts) (tally_sum us)"
  by (induction ts) (simp_all add: add_tally_assoc)

section \<open>The reference\<close>

definition standing :: "club_db \<Rightarrow> string \<Rightarrow> string \<Rightarrow> tally" where
  \<comment> \<open>the row of the player and the event, all zero when there is none\<close>
  "standing db p e = (case first_row (filter (\<lambda>r. cst_PlayerID r = p \<and> cst_EventID r = e) (cl_Stats db)) of
     None \<Rightarrow> no_tally | Some r \<Rightarrow> cst_All r)"

definition match_of :: "result_payload option \<Rightarrow> string option" where
  \<comment> \<open>the match that a delivery is about, when it is well formed\<close>
  "match_of d = (case d of None \<Rightarrow> None
   | Some payload \<Rightarrow> if rp_MatchID payload = [] \<or> rp_CompetitionEventID payload = [] then None else pg_uuid (rp_MatchID payload))"

definition entries :: "(string \<times> string \<times> match_format) list \<Rightarrow> string \<Rightarrow> string \<Rightarrow> result_payload \<Rightarrow> tally" where
  "entries ps p e payload = tally_sum (map (\<lambda>(_, side, _). side_tally payload side)
     (filter (\<lambda>(player, _, _). player = p \<and> pg_uuid (rp_CompetitionEventID payload) = Some e) ps))"

definition entry :: "club_db \<Rightarrow> string \<Rightarrow> string \<Rightarrow> result_payload option \<Rightarrow> tally" where
  "entry db p e d = (case (d, match_of d) of (Some payload, Some m) \<Rightarrow> entries (match_participants m db) p e payload
   | _ \<Rightarrow> no_tally)"

definition deliver :: "result_payload option \<Rightarrow> club_db \<Rightarrow> club_db" where
  "deliver d db = snd (run_tx (Stats_Handle d) db)"

fun credited :: "result_payload option list \<Rightarrow> club_db \<Rightarrow> result_payload option list" where
  \<comment> \<open>the deliveries that succeed and are the first of their match\<close>
  "credited [] db = []"
| "credited (d # ds) db =
    (let rest = credited ds (deliver d db); m = the (match_of d) in
     if (\<exists>x db'. Stats_Handle d db = Inr (x, db')) \<and> m \<notin> set (cl_Applied db) then d # rest else rest)"

section \<open>One delivery\<close>

lemma upsert_stat_standing:
  assumes "upsert_stat d db = Inr (x, db')"
  shows "standing db' p e = add_tally (standing db p e) (if cst_PlayerID d = p \<and> cst_EventID d = e then cst_All d else no_tally)"
proof -
  have upd: "first_row (filter (\<lambda>r. cst_PlayerID r = p \<and> cst_EventID r = e) (map (\<lambda>r. if same_stat d r then add_stat r d else r) rs))
      = map_option (\<lambda>r. if cst_PlayerID d = p \<and> cst_EventID d = e then add_stat r d else r)
          (first_row (filter (\<lambda>r. cst_PlayerID r = p \<and> cst_EventID r = e) rs))" for rs
    by (induction rs) (auto simp: same_stat_def add_stat_def)
  have new: "first_row (filter (\<lambda>r. cst_PlayerID r = p \<and> cst_EventID r = e) rs) = None"
    if "\<not> list_ex (same_stat d) rs" "cst_PlayerID d = p" "cst_EventID d = e" for rs
    using that by (auto simp: first_row_None filter_empty_conv list_ex_iff same_stat_def)
  have old: "first_row (filter (\<lambda>r. cst_PlayerID r = p \<and> cst_EventID r = e) rs) \<noteq> None"
    if "list_ex (same_stat d) rs" "cst_PlayerID d = p" "cst_EventID d = e" for rs
    using that by (auto simp: first_row_None filter_empty_conv list_ex_iff same_stat_def)
  have append: "first_row (xs @ ys) = (case first_row xs of None \<Rightarrow> first_row ys | Some y \<Rightarrow> Some y)" for xs ys :: "stat_row list"
    by (cases xs) simp_all
  show ?thesis
  proof (cases "list_ex (same_stat d) (cl_Stats db)")
    case True
    then have "cl_Stats db' = map (\<lambda>r. if same_stat d r then add_stat r d else r) (cl_Stats db)"
      using assms by (auto simp: upsert_stat_def Let_def split: if_split_asm)
    then show ?thesis
      using old [OF True] by (auto simp: standing_def upd add_stat_def split: option.split)
  next
    case False
    then have "cl_Stats db' = cl_Stats db @ [d]" using assms by (auto simp: upsert_stat_def split: if_split_asm)
    then show ?thesis
      using new [OF False] by (auto simp: standing_def append split: option.split)
  qed
qed

lemma project_standing:
  assumes "project payload (player, side, fmt) db = Inr (x, db')"
  shows "standing db' p e = add_tally (standing db p e)
    (if player = p \<and> pg_uuid (rp_CompetitionEventID payload) = Some e then side_tally payload side else no_tally)"
  using assms upsert_stat_standing by (fastforce simp: project_def cmd_simps stat_increment_def)

lemma each_project_standing:
  assumes "each (project payload) ps db = Inr (x, db')"
  shows "standing db' p e = add_tally (standing db p e) (entries ps p e payload)"
  using assms
proof (induction ps arbitrary: db)
  case (Cons q ps)
  obtain player side fmt where q: "q = (player, side, fmt)" by (cases q)
  from Cons.prems obtain db1 where one: "project payload (player, side, fmt) db = Inr ((), db1)"
    and rest: "each (project payload) ps db1 = Inr (x, db')" by (auto simp: cmd_simps q)
  show ?case
    using project_standing [OF one, of p e] Cons.IH [OF rest] by (simp add: entries_def q add_tally_assoc)
qed (simp add: cmd_simps entries_def)

lemma match_participants_same:
  "cl_Participants db' = cl_Participants db \<Longrightarrow> cl_Matches db' = cl_Matches db \<Longrightarrow>
    match_participants m db' = match_participants m db"
  by (simp only: match_participants_def)

lemma Stats_Handle_Inr:
  assumes "Stats_Handle d db = Inr (x, db')"
  obtains (again) m where "match_of d = Some m" "m \<in> set (cl_Applied db)" "db' = db"
  | (first) m payload where "match_of d = Some m" "m \<notin> set (cl_Applied db)" "d = Some payload"
      "each (project payload) (match_participants m db) (db\<lparr>cl_Applied := cl_Applied db @ [m]\<rparr>) = Inr (x, db')"
proof -
  have eq: "match_participants m (db\<lparr>cl_Applied := a\<rparr>) = match_participants m db" for m a
    by (rule match_participants_same) simp_all
  obtain payload m b db1 where d: "d = Some payload" and m: "match_of d = Some m" "guard_application m db = Inr (b, db1)"
    and rest: "if \<not> b then db' = db1 else each (project payload) (match_participants m db1) db1 = Inr (x, db')"
    using assms unfolding Stats_Handle_def
    by (auto simp: cmd_simps match_of_def split: option.split_asm if_split_asm)
  show thesis
  proof (cases "m \<in> set (cl_Applied db)")
    case True
    then show thesis using again m rest by (simp add: guard_application_def)
  next
    case False
    then have "b" "db1 = db\<lparr>cl_Applied := cl_Applied db @ [m]\<rparr>"
      using m(2) by (auto simp: guard_application_def split: if_split_asm)
    then show thesis using first [OF m(1) False d] rest by (simp add: eq)
  qed
qed

end
