(* ===== verification/Club_Guarantees.thy ===== *)
theory Club_Guarantees
  imports Club_Slugs Club_Totals Book_Guarantees
begin

text \<open>
  What the competition promises: a staffed team keeps a captain, the participants of a match are on the rosters of its
  teams, a recorded result stands, the statistics count every match once, and one verdict gives the same result to the
  statistics and to the bets on the match.
\<close>

section \<open>Results\<close>

lemma recorded_result:
  assumes "recordAdminResult req now' db = Inr (i, db')" "pg_uuid (rr_MatchID req) = Some m"
  obtains v where "v \<in> set (cl_Verified db')" "cvr_MatchID v = m" "cvr_ID v = i"
  using assms(1)
proof (cases rule: recordAdminResult_Inr)
  case (known m' r v)
  then have "v \<in> set (cl_Verified db)" "cvr_MatchID v = m'"
    by (auto simp: latest_verification_def dest!: first_row_Some)
  then show thesis using known assms(2) that by simp
next
  case (new m' r v n)
  then have "v \<in> set (cl_Verified db')" by (simp add: same_tables_def set_match_state_def)
  then show thesis using new assms(2) that by (simp add: verdict_def)
qed

lemma recorded_again:
  assumes "club_wf db" "v \<in> set (cl_Verified db)" "pg_uuid (rr_MatchID req) = Some (cvr_MatchID v)"
    "recordAdminResult req now' db = Inr (j, db')"
  shows "j = cvr_ID v" "db' = db"
proof -
  have ok: "results_ok db" using assms(1) by (simp add: club_wf_def)
  have "j = cvr_ID v \<and> db' = db"
    using assms(4)
  proof (cases rule: recordAdminResult_Inr)
    case (known m r w)
    then have "w \<in> set (cl_Verified db)" "cvr_MatchID w = cvr_MatchID v"
      using assms(3) by (auto simp: latest_verification_def dest!: first_row_Some)
    then have "w = v" using ok assms(2) unfolding results_ok_def by (metis distinct_map inj_onD)
    then show ?thesis using known by simp
  next
    case (new m r w n)
    then show ?thesis using ok assms(2,3) by (auto simp: results_ok_def)
  qed
  then show "j = cvr_ID v" "db' = db" by simp_all
qed

section \<open>Statistics\<close>

lemma each_applied: "each (project payload) ps db = Inr (x, db') \<Longrightarrow> cl_Applied db' = cl_Applied db"
  by (induction ps arbitrary: db)
    (auto simp: cmd_simps project_def upsert_stat_def Let_def split: prod.split_asm if_split_asm)

lemma deliver_frame:
  shows "match_participants m (deliver d db) = match_participants m db"
    and "set (cl_Applied db) \<subseteq> set (cl_Applied (deliver d db))"
proof -
  have "match_participants m db' = match_participants m db \<and> set (cl_Applied db) \<subseteq> set (cl_Applied db')"
    if "Stats_Handle d db = Inr (x, db')" for x db'
  proof
    have "beside_statistics db db'" using that by (rule keepsD [OF statistics_handle])
    then obtain a s where "db' = db\<lparr>cl_Applied := a, cl_Stats := s\<rparr>" unfolding beside_statistics_def by blast
    then show "match_participants m db' = match_participants m db" by (intro match_participants_same) simp_all
    from that show "set (cl_Applied db) \<subseteq> set (cl_Applied db')"
      by (cases rule: Stats_Handle_Inr) (auto dest: each_applied)
  qed
  then show "match_participants m (deliver d db) = match_participants m db"
    "set (cl_Applied db) \<subseteq> set (cl_Applied (deliver d db))"
    by (auto simp: deliver_def run_tx_def split: sum.split)
qed

lemma deliver_entry: "entry (deliver d db) p e c = entry db p e c"
  by (simp add: entry_def deliver_frame split: option.split)

lemma deliver_first:
  assumes "Stats_Handle d db = Inr (x, db')" "the (match_of d) \<notin> set (cl_Applied db)"
  shows "the (match_of d) \<in> set (cl_Applied db')" "standing db' p e = add_tally (standing db p e) (entry db p e d)"
proof -
  have "the (match_of d) \<in> set (cl_Applied db') \<and> standing db' p e = add_tally (standing db p e) (entry db p e d)"
    using assms(1)
  proof (cases rule: Stats_Handle_Inr)
    case (first m payload)
    have "standing (db\<lparr>cl_Applied := cl_Applied db @ [m]\<rparr>) p e = standing db p e" by (simp add: standing_def)
    then show ?thesis
      using first each_project_standing [OF first(4), of p e] each_applied [OF first(4)] by (simp add: entry_def)
  qed (use assms(2) in auto)
  then show "the (match_of d) \<in> set (cl_Applied db')" "standing db' p e = add_tally (standing db p e) (entry db p e d)"
    by simp_all
qed

lemma deliver_other:
  assumes "\<not> ((\<exists>x db'. Stats_Handle d db = Inr (x, db')) \<and> the (match_of d) \<notin> set (cl_Applied db))"
  shows "deliver d db = db"
proof (cases "Stats_Handle d db")
  case (Inl err)
  then show ?thesis by (simp add: deliver_def run_tx_def)
next
  case (Inr r)
  obtain x db' where r: "r = (x, db')" by (cases r)
  then have known: "the (match_of d) \<in> set (cl_Applied db)" using assms Inr by auto
  have "Stats_Handle d db = Inr (x, db')" using Inr r by simp
  then have "db' = db" by (cases rule: Stats_Handle_Inr) (use known in auto)
  then show ?thesis using Inr r by (simp add: deliver_def run_tx_def)
qed

lemma credited_fresh: "set (map (\<lambda>d. the (match_of d)) (credited ds db)) \<inter> set (cl_Applied db) = {}"
proof (induction ds arbitrary: db)
  case (Cons d ds)
  have "set (map (\<lambda>d. the (match_of d)) (credited ds (deliver d db))) \<inter> set (cl_Applied db) = {}"
    using Cons.IH [of "deliver d db"] deliver_frame(2) by blast
  then show ?case by (auto simp: Let_def)
qed simp

lemma credited_once: "distinct (map (\<lambda>d. the (match_of d)) (credited ds db))"
proof (induction ds arbitrary: db)
  case (Cons d ds)
  show ?case
  proof (cases "(\<exists>x db'. Stats_Handle d db = Inr (x, db')) \<and> the (match_of d) \<notin> set (cl_Applied db)")
    case True
    then obtain x db' where handled: "Stats_Handle d db = Inr (x, db')" by blast
    then have "deliver d db = db'" by (simp add: deliver_def run_tx_def)
    with deliver_first(1) [OF handled] True have "the (match_of d) \<in> set (cl_Applied (deliver d db))" by simp
    then have "the (match_of d) \<notin> set (map (\<lambda>d. the (match_of d)) (credited ds (deliver d db)))"
      using credited_fresh [of ds "deliver d db"] by blast
    then show ?thesis using True Cons.IH [of "deliver d db"] by (simp add: Let_def)
  next
    case False
    then have "credited (d # ds) db = credited ds (deliver d db)" by (simp add: Let_def)
    then show ?thesis using Cons.IH by simp
  qed
qed simp

lemma standing_delivered:
  "standing (fold deliver ds db) p e = add_tally (standing db p e) (tally_sum (map (entry db p e) (credited ds db)))"
proof (induction ds arbitrary: db)
  case (Cons d ds)
  have same: "map (entry (deliver d db) p e) cs = map (entry db p e) cs" for cs by (simp add: deliver_entry)
  show ?case
  proof (cases "(\<exists>x db'. Stats_Handle d db = Inr (x, db')) \<and> the (match_of d) \<notin> set (cl_Applied db)")
    case True
    then obtain x db' where handled: "Stats_Handle d db = Inr (x, db')" by blast
    then have "deliver d db = db'" by (simp add: deliver_def run_tx_def)
    with deliver_first(2) [OF handled] True
    have "standing (deliver d db) p e = add_tally (standing db p e) (entry db p e d)" by simp
    then show ?thesis using True Cons.IH [of "deliver d db"] same by (simp add: Let_def add_tally_assoc)
  next
    case False
    then have "credited (d # ds) db = credited ds db" "deliver d db = db"
      using deliver_other [OF False] by (simp_all add: Let_def)
    then show ?thesis using Cons.IH [of db] by simp
  qed
qed simp

section \<open>One verdict for the statistics and for the bets\<close>

definition winner_side :: "string \<Rightarrow> nat option" where
  \<comment> \<open>the number of the side that the admin names\<close>
  "winner_side winner = (if winner = ''side_1'' then Some 1 else if winner = ''side_2'' then Some 2 else None)"

lemma loadSideIDs_Inr:
  assumes "loadSideIDs m db = Inr (sides, db')" "sides_ok db" "s \<in> set (cl_Sides db)" "csd_MatchID s = m"
  shows "sides (csd_Number s) = csd_ID s"
proof -
  let ?pairs = "map (\<lambda>s. (csd_Number s, csd_ID s)) (filter (\<lambda>s. csd_MatchID s = m) (cl_Sides db))"
  have "distinct (map (\<lambda>s. (csd_MatchID s, csd_Number s)) (filter (\<lambda>s. csd_MatchID s = m) (cl_Sides db)))"
    using assms(2) unfolding sides_ok_def by (intro filter_keeps_distinct) simp
  then have "distinct (map fst (rev ?pairs))"
    by (simp add: rev_map [symmetric] o_def) (auto simp: distinct_map inj_on_def)
  moreover have "(csd_Number s, csd_ID s) \<in> set (rev ?pairs)" using assms(3,4) by auto
  ultimately have "map_of (rev ?pairs) (csd_Number s) = Some (csd_ID s)" by (rule map_of_is_SomeI)
  moreover have "sides = (\<lambda>n. case map_of (rev ?pairs) n of None \<Rightarrow> [] | Some i \<Rightarrow> i)"
    using assms(1) by (auto simp: loadSideIDs_def cmd_simps Let_def split: if_split_asm)
  ultimately show ?thesis by simp
qed

lemma loadSideIDs_both:
  assumes "loadSideIDs m db = Inr (sides, db')" "sides_ok db" "k \<in> {1, 2}"
  obtains s where "s \<in> set (cl_Sides db)" "csd_MatchID s = m" "csd_Number s = k"
proof -
  let ?ns = "map csd_Number (filter (\<lambda>s. csd_MatchID s = m) (cl_Sides db))"
  have "card (set ?ns) = 2"
    using assms(1) by (auto simp: loadSideIDs_def cmd_simps Let_def length_remdups_card_conv image_image split: if_split_asm)
  moreover have "set ?ns \<subseteq> {1, 2}" using assms(2) by (auto simp: sides_ok_def)
  ultimately have "set ?ns = {1, 2}" by (intro card_subset_eq) auto
  then have "k \<in> set ?ns" using assms(3) by simp
  then show thesis using that by auto
qed

lemma winning_side:
  assumes "loadSideIDs m db = Inr (sides, db')" "club_wf db" "s \<in> set (cl_Sides db)" "csd_MatchID s = m" "k \<in> {1, 2}"
  shows "csd_ID s = sides k \<longleftrightarrow> csd_Number s = k"
proof -
  have ok: "sides_ok db" "distinct (map csd_ID (cl_Sides db))" using assms(2) by (simp_all add: club_wf_def participants_ok_def)
  obtain w where w: "w \<in> set (cl_Sides db)" "csd_MatchID w = m" "csd_Number w = k"
    by (rule loadSideIDs_both [OF assms(1) ok(1) assms(5)])
  then have k: "sides k = csd_ID w" using loadSideIDs_Inr [OF assms(1) ok(1)] by auto
  have "s = w" if "csd_ID s = csd_ID w" using that ok(2) assms(3) w(1) by (metis distinct_map inj_onD)
  then have "csd_ID s = sides k \<Longrightarrow> csd_Number s = k" using k w(3) by metis
  moreover have "csd_Number s = k \<Longrightarrow> csd_ID s = sides k" using loadSideIDs_Inr [OF assms(1) ok(1) assms(3,4)] by simp
  ultimately show ?thesis by (rule iffI)
qed

definition tally_of :: "settlement_result \<Rightarrow> tally" where
  "tally_of r = (case r of ResultWin \<Rightarrow> \<lparr>ta_Played = 1, ta_Wins = 1, ta_Losses = 0, ta_Ties = 0, ta_Points = 1\<rparr>
   | ResultLoss \<Rightarrow> \<lparr>ta_Played = 1, ta_Wins = 0, ta_Losses = 1, ta_Ties = 0, ta_Points = 0\<rparr>
   | _ \<Rightarrow> \<lparr>ta_Played = 1, ta_Wins = 0, ta_Losses = 0, ta_Ties = 1, ta_Points = 1 / 2\<rparr>)"

definition fate :: "string \<Rightarrow> nat \<Rightarrow> settlement_result" where
  \<comment> \<open>what the admin's verdict means for a side\<close>
  "fate winner k = (case winner_side winner of None \<Rightarrow> ResultPush | Some w \<Rightarrow> if w = k then ResultWin else ResultLoss)"

lemma resolved_fate:
  assumes sides: "loadSideIDs m db = Inr (sides, db')" and wf: "club_wf db"
    and p: "resolveOutcome winner sides = (rp_Outcome p, rp_WinningSideID p, p1, p2)"
    and s: "s \<in> set (cl_Sides db)" "csd_MatchID s = m"
  shows "side_tally p (csd_ID s) = tally_of (fate winner (csd_Number s))"
    "buildMatchOutcome keys (rp_Outcome p) (rp_WinningSideID p) = Some outcomes \<Longrightarrow>
      DAList.lookup keys sel = Some (sideSemanticKey (csd_ID s)) \<Longrightarrow> DAList.lookup outcomes sel =
        Some (if winner_side winner = None \<and> ''tie'' \<in> set (map_values keys) then ResultLoss else fate winner (csd_Number s))"
proof -
  note win = winning_side [OF sides wf s]
  have other: "rp_Outcome p = ''tie'' \<and> rp_WinningSideID p = []" if "winner_side winner = None"
    using that p by (auto simp: resolveOutcome_def winner_side_def split: if_split_asm)
  have won: "rp_Outcome p = ''side_win'' \<and> rp_WinningSideID p = sides k \<and> k \<in> {1, 2}" if "winner_side winner = Some k" for k
    using that p by (auto simp: resolveOutcome_def winner_side_def split: if_split_asm)
  have key: "sideSemanticKey (csd_ID s) = ''side:'' @ x \<longleftrightarrow> csd_ID s = x" "sideSemanticKey (csd_ID s) \<noteq> ''tie''" for x
    by (auto simp: sideSemanticKey_def sideSemanticKeyPrefix_def)
  show "side_tally p (csd_ID s) = tally_of (fate winner (csd_Number s))"
    using other won win
    by (cases "winner_side winner") (auto simp: side_tally_def outcomeForSide_def tally_of_def fate_def)
  assume "buildMatchOutcome keys (rp_Outcome p) (rp_WinningSideID p) = Some outcomes"
    "DAList.lookup keys sel = Some (sideSemanticKey (csd_ID s))"
  then show "DAList.lookup outcomes sel =
        Some (if winner_side winner = None \<and> ''tie'' \<in> set (map_values keys) then ResultLoss else fate winner (csd_Number s))"
    using match_outcome_grading [of keys "rp_Outcome p" "rp_WinningSideID p" outcomes sel] other won win key
    by (cases "winner_side winner") (auto simp: fate_def)
qed

lemma keeps_outbox: "keeps (\<lambda>db db'. cl_Outbox db' = cl_Outbox db) (club_audit actor action target reason)"
  by (auto simp: keeps_def club_audit_def cmd_simps split: sum.split_asm prod.split_asm)

lemmas audit_outbox = keepsD [OF keeps_outbox]

lemma verify_match_publishes:
  assumes "verify_match req m e now' db = Inr (i, db')"
  obtains sides p p1 p2 env where "loadSideIDs m db = Inr (sides, db)"
    "resolveOutcome (rr_Winner req) sides = (rp_Outcome p, rp_WinningSideID p, p1, p2)"
    "rp_MatchID p = rr_MatchID req" "rp_CompetitionEventID p = e" "rp_VerificationID p = i"
    "e_Type env = MatchResultVerified" "e_Payload env = json_Marshal (matchResultPayload p)"
    "Publish env maxSetupOutboxAttempts (cl_Outbox db) = (cl_Outbox db', None)"
proof -
  obtain sides db1 db2 p1 p2 p where sides: "loadSideIDs m db = Inr (sides, db)"
    and r: "resolveOutcome (rr_Winner req) sides = (rp_Outcome p, rp_WinningSideID p, p1, p2)"
    and p: "rp_MatchID p = rr_MatchID req" "rp_CompetitionEventID p = e" "rp_VerificationID p = i"
    and outbox: "cl_Outbox db2 = cl_Outbox db"
    and ann: "announce ''match'' (rr_MatchID req) 1 MatchResultVerified (matchResultPayload p) now' db2 = Inr ((), db')"
  proof -
    obtain sides row db1 db2 where *: "loadSideIDs m db = Inr (sides, db)" "insert_verified row db = Inr (i, db1)"
      "club_audit (rr_ActorUserID req) ''competition.result_admin_verified'' (rr_MatchID req) (TrimSpace (rr_Reason req))
        (set_match_state m ''verified'' db1) = Inr ((), db2)"
      "announce ''match'' (rr_MatchID req) 1 MatchResultVerified (matchResultPayload \<lparr>rp_MatchID = rr_MatchID req,
        rp_CompetitionEventID = e, rp_VerificationID = i, rp_Outcome = fst (resolveOutcome (rr_Winner req) sides),
        rp_WinningSideID = fst (snd (resolveOutcome (rr_Winner req) sides)), rp_Score = rr_Score req\<rparr>) now' db2 = Inr ((), db')"
      using assms unfolding verify_match_def
      by (auto simp: cmd_simps split_beta loadSideIDs_def Let_def split: if_split_asm)
    have "cl_Outbox db2 = cl_Outbox (set_match_state m ''verified'' db1)"
      by (rule audit_outbox [OF *(3)])
    then have "cl_Outbox db2 = cl_Outbox db" using insert_verified_Inr(1) [OF *(2)] by (simp add: set_match_state_def)
    with * show thesis
      by (intro that [OF *(1) _ _ _ _ _ *(4), of "fst (snd (snd (resolveOutcome (rr_Winner req) sides)))"
          "snd (snd (snd (resolveOutcome (rr_Winner req) sides)))"]) simp_all
  qed
  define env where "env = \<lparr>e_ID = draw_uuid (cl_Random db2) (cl_Draws db2), e_AggregateType = ''match'',
    e_AggregateID = rr_MatchID req, e_AggregateVersion = 1, e_Type = MatchResultVerified,
    e_Payload = json_Marshal (matchResultPayload p), e_OccurredAt = UTC now', e_CorrelationID = [], e_CausationID = []\<rparr>"
  have "Publish env maxSetupOutboxAttempts (cl_Outbox db2) = (cl_Outbox db', None)"
    using ann unfolding env_def by (auto simp: announce_def cmd_simps split: prod.split_asm option.split_asm)
  with sides r p outbox show thesis by (intro that [of sides p p1 p2 env]) (simp_all add: env_def)
qed

section \<open>The promises\<close>

text \<open>C10 captain_remains: whatever the admins do, a team with members keeps a captain, and a player is on at most one team of
  an event.\<close>

theorem captain_remains:
  assumes "club_reachable P db" "r \<in> set (cl_Rosters db)"
  shows "(\<exists>c \<in> set (cl_Rosters db). cro_EventID c = cro_EventID r \<and> cro_TeamID c = cro_TeamID r \<and> cro_IsCaptain c)
    \<and> (\<forall>q \<in> set (cl_Rosters db). cro_EventID q = cro_EventID r \<and> cro_PlayerID q = cro_PlayerID r \<longrightarrow> q = r)"
proof -
  have "rosters_ok db" using club_reachable_wf [OF assms(1)] by (simp add: club_wf_def)
  then have "captained (cl_Rosters db)" "distinct (map roster_key (cl_Rosters db))" by (simp_all add: rosters_ok_def)
  then show ?thesis using assms(2) key_unique by (fastforce simp: captained_def team_of_def roster_key_def)
qed


text \<open>C9 result_stands: once an admin has recorded a result, whatever happens in between, recording any result of that match
  again returns the verification that stands and changes nothing: no second verification, no second event.\<close>

theorem result_stands:
  assumes "club_reachable P db" "run_tx (recordAdminResult req t) db = (Inr i, db1)" "club_run P db1 db2"
    "run_tx (recordAdminResult again t') db2 = (Inr j, db3)" "pg_uuid (rr_MatchID again) = pg_uuid (rr_MatchID req)"
  shows "j = i \<and> db3 = db2"
proof -
  have first: "recordAdminResult req t db = Inr (i, db1)" and second: "recordAdminResult again t' db2 = Inr (j, db3)"
    using assms(2,4) by (simp_all add: run_tx_Inr)
  have "club_reachable P db1"
    using club_reachable_step [OF assms(1) club_step.result_recorded [of P db req t]] assms(2) by simp
  then have wf: "club_wf db1" by (rule club_reachable_wf)
  then have later: "club_wf db2" "set (cl_Verified db1) \<subseteq> set (cl_Verified db2)"
    using club_run_keep [OF assms(3)] by (simp_all add: club_keep_def)
  obtain m where m: "pg_uuid (rr_MatchID req) = Some m" using first by (cases rule: recordAdminResult_Inr)
  obtain v where v: "v \<in> set (cl_Verified db1)" "cvr_MatchID v = m" "cvr_ID v = i" by (rule recorded_result [OF first m])
  have "pg_uuid (rr_MatchID again) = Some (cvr_MatchID v)" "v \<in> set (cl_Verified db2)" using assms(5) m v later(2) by auto
  then show ?thesis using recorded_again [OF later(1) _ _ second] v(3) by blast
qed

text \<open>C16 statistics_total: after any sequence of deliveries, with redeliveries, contradicting payloads and failures, a player's
  tally of an event is what it was plus the entry of each credited match, and no match is credited twice or had been
  credited before.\<close>

theorem statistics_total:
  "standing (fold deliver ds db) p e = add_tally (standing db p e) (tally_sum (map (entry db p e) (credited ds db)))
    \<and> distinct (map (\<lambda>d. the (match_of d)) (credited ds db))
    \<and> set (map (\<lambda>d. the (match_of d)) (credited ds db)) \<inter> set (cl_Applied db) = {}"
  using standing_delivered credited_once credited_fresh by blast

text \<open>C8 verdict_reaches_consumers: the first result recorded for a match publishes one event whose payload gives every player
  of a side the tally of the admin's verdict for that side, and grades the bets on that side the same way: won, lost, or
  tied, a tie being a push unless the market sells the tie itself.\<close>

theorem verdict_reaches_consumers:
  assumes "club_reachable P db" "run_tx (recordAdminResult req t) db = (Inr i, db')"
    "pg_uuid (rr_MatchID req) = Some m" "found_match m db = Some r" "cmt_State r \<noteq> ''verified''"
  shows "\<exists>env p. Publish env maxSetupOutboxAttempts (cl_Outbox db) = (cl_Outbox db', None) \<and> e_Type env = MatchResultVerified
    \<and> e_Payload env = json_Marshal (matchResultPayload p) \<and> rp_MatchID p = rr_MatchID req \<and> rp_VerificationID p = i
    \<and> (\<forall>s keys outcomes sel. s \<in> set (cl_Sides db) \<and> csd_MatchID s = m \<longrightarrow>
        side_tally p (csd_ID s) = tally_of (fate (rr_Winner req) (csd_Number s))
      \<and> (buildMatchOutcome keys (rp_Outcome p) (rp_WinningSideID p) = Some outcomes
          \<and> DAList.lookup keys sel = Some (sideSemanticKey (csd_ID s)) \<longrightarrow> DAList.lookup outcomes sel =
            Some (if winner_side (rr_Winner req) = None \<and> ''tie'' \<in> set (map_values keys) then ResultLoss
              else fate (rr_Winner req) (csd_Number s))))"
proof -
  have wf: "club_wf db" using assms(1) by (rule club_reachable_wf)
  have "recordAdminResult req t db = Inr (i, db')" using assms(2) by (simp add: run_tx_Inr)
  then have "verify_match (cleaned req) m (cmt_EventID r) t db = Inr (i, db')"
    using assms(3-5) unfolding recordAdminResult_def found_match_def
    by (auto simp: cmd_simps dest!: requireStaff_Inr split: option.split_asm if_split_asm)
  then obtain sides p p1 p2 env where sides: "loadSideIDs m db = Inr (sides, db)"
    and p: "resolveOutcome (rr_Winner (cleaned req)) sides = (rp_Outcome p, rp_WinningSideID p, p1, p2)"
    and rest: "rp_MatchID p = rr_MatchID (cleaned req)" "rp_VerificationID p = i" "e_Type env = MatchResultVerified"
      "e_Payload env = json_Marshal (matchResultPayload p)"
      "Publish env maxSetupOutboxAttempts (cl_Outbox db) = (cl_Outbox db', None)"
    by (elim verify_match_publishes)
  have winner: "rr_Winner (cleaned req) = rr_Winner req" "rr_MatchID (cleaned req) = rr_MatchID req" by (simp_all add: cleaned_def)
  show ?thesis
    using resolved_fate [OF sides wf p] rest unfolding winner by (intro exI [of _ env] exI [of _ p]) blast
qed

text \<open>C40 slugify_pattern: whatever the name, in whatever script, a slug that is not empty satisfies the pattern of the schema:
  runs of letters and digits with single dashes between them.\<close>

theorem slugify_pattern: "slugify P name \<noteq> [] \<Longrightarrow> slug_pattern (slugify P name)"
  unfolding slugify_def slug_pattern_def by (rule trim_dashes_slug [OF slug_strip_dashes])

end
