(* ===== verification/Club_Season.thy ===== *)
theory Club_Season
  imports Club_Steps Evaluation "HOL-Library.Code_Target_Numeral"
begin

text \<open>
  A concrete season, evaluated by the kernel: an event with two teams of one golfer each, their match, its result, and a
  second attempt to record another one.
\<close>

section \<open>Evaluating announcements\<close>

lemma announce_code [code]:
  "announce ag agID version t payload now' = andThen club_uuid (\<lambda>i db.
     let e = \<lparr>e_ID = i, e_AggregateType = ag, e_AggregateID = agID, e_AggregateVersion = version, e_Type = t,
       e_Payload = json_Marshal payload, e_OccurredAt = UTC now', e_CorrelationID = [], e_CausationID = []\<rparr>
     in case if marshalled_ok payload e then Publish_stored e maxSetupOutboxAttempts (cl_Outbox db)
         else Publish e maxSetupOutboxAttempts (cl_Outbox db) of
       (ob, None) \<Rightarrow> Inr ((), db\<lparr>cl_Outbox := ob\<rparr>) | (_, Some e) \<Rightarrow> Inl (ErrPublishing e))"
  unfolding announce_def Let_def by (subst Publish_marshalled [where kvs = payload]) simp_all

section \<open>The run\<close>

definition cx_platform :: platform where
  "cx_platform = \<lparr>p_lower = (\<lambda>s. s), p_address = (\<lambda>v. None), p_sha256 = (\<lambda>s. s)\<rparr>"

definition cx_id :: "char \<Rightarrow> string" where
  "cx_id c = ''0000000'' @ [c] @ ''-0000-4000-8000-000000000000''"

definition cx_random :: "nat \<Rightarrow> nat \<Rightarrow> 8 word" where
  "cx_random n k = (if k = 3 then of_nat n else 0)"

definition cx_staff :: string where
  "cx_staff = cx_id (CHR ''f'')"

definition cx_members :: members_db where
  "cx_members = \<lparr>me_Users = [\<lparr>ua_ID = cx_staff, ua_DisplayName = ''Olga'', ua_Email = None, ua_Status = UserActive,
       ua_AutoApproveMaxCents = None, ua_CreditLimitCents = 0\<rparr>], me_Identities = [],
     me_Memberships = [\<lparr>mm_ID = cx_id (CHR ''e''), mm_UserID = cx_staff, mm_Role = Identity_Types.RoleAdmin, mm_GrantedBy = None,
       mm_GrantedAt = Time 0 True, mm_RevokedBy = None, mm_RevokedAt = None, mm_RevocationReason = None\<rparr>],
     me_Invitations = [], me_Sessions = [], me_Audit = [], me_Now = Time 0 True, me_Random = cx_random, me_Draws = 0\<rparr>"

definition cx_start :: club_db where
  "cx_start = club_empty cx_members \<lparr>ob_rows = [], ob_receipts = [], ob_now = Time 1000 True, ob_faults = [], ob_world = ()\<rparr> cx_random"

definition cx_now :: go_time where
  "cx_now = Time 1000 True"

text \<open>The keys are drawn in the order 0: the event, 1 and 2: the teams, 4 and 6: the golfers, 9: the match, a and b: its sides.\<close>

definition cx_event :: club_db where
  "cx_event = snd (run_tx (createEvent cx_platform ''Open'' ''Links'' 2026 cx_staff) cx_start)"

definition cx_team1 :: club_db where
  "cx_team1 = snd (run_tx (createTeam cx_platform (cx_id (CHR ''0'')) ''Reds'') cx_event)"

definition cx_team2 :: club_db where
  "cx_team2 = snd (run_tx (createTeam cx_platform (cx_id (CHR ''0'')) ''Blues'') cx_team1)"

definition cx_ann :: club_db where
  "cx_ann = snd (run_tx (createPlayer cx_platform ''Ann'' []) cx_team2)"

definition cx_bob :: club_db where
  "cx_bob = snd (run_tx (createPlayer cx_platform ''Bob'' []) cx_ann)"

definition cx_member :: "char \<Rightarrow> char \<Rightarrow> team_member_request" where
  "cx_member t p = \<lparr>tm_EventID = cx_id (CHR ''0''), tm_TeamID = cx_id t, tm_PlayerID = cx_id p, tm_IsCaptain = False,
     tm_ActorUserID = cx_staff\<rparr>"

definition cx_reds :: club_db where
  "cx_reds = snd (run_tx (setTeamMember (cx_member (CHR ''1'') (CHR ''4'')) cx_now) cx_bob)"

definition cx_blues :: club_db where
  "cx_blues = snd (run_tx (setTeamMember (cx_member (CHR ''2'') (CHR ''6'')) cx_now) cx_reds)"

definition cx_request :: create_match_request where
  "cx_request = \<lparr>cmr_EventID = cx_id (CHR ''0''), cmr_Format = FormatSingles, cmr_Side1TeamID = cx_id (CHR ''1''),
     cmr_Side2TeamID = cx_id (CHR ''2''), cmr_Side1PlayerIDs = [cx_id (CHR ''4'')], cmr_Side2PlayerIDs = [cx_id (CHR ''6'')],
     cmr_CreatedBy = cx_staff\<rparr>"

definition cx_match :: club_db where
  "cx_match = snd (run_tx (createMatch cx_request) cx_blues)"

definition cx_result :: "string \<Rightarrow> record_result_request" where
  "cx_result winner = \<lparr>rr_MatchID = cx_id (CHR ''9''), rr_Winner = winner, rr_Score = ''3&2'', rr_ActorUserID = cx_staff, rr_Reason = []\<rparr>"

definition cx_done :: club_db where
  "cx_done = snd (run_tx (recordAdminResult (cx_result ''side_1'') cx_now) cx_match)"

definition cx_again :: club_db where
  "cx_again = snd (run_tx (recordAdminResult (cx_result ''side_2'') cx_now) cx_done)"

section \<open>Its evaluation\<close>

definition then_run :: "'a club_cmd \<Rightarrow> (club_db \<Rightarrow> bool) \<Rightarrow> club_db \<Rightarrow> bool" where
  "then_run m k db = (case m db of Inl _ \<Rightarrow> False | Inr (_, db') \<Rightarrow> k db')"

lemma then_run_iff: "then_run m k db \<longleftrightarrow> (\<exists>x. run_tx m db = (Inr x, snd (run_tx m db))) \<and> k (snd (run_tx m db))"
  by (auto simp: then_run_def run_tx_def split: sum.split)

definition cx_played :: "club_db \<Rightarrow> bool" where
  "cx_played db \<longleftrightarrow> \<not> List.null (cl_Rosters db) \<and> \<not> List.null (cl_Participants db)
     \<and> (case found_match (cx_id (CHR ''9'')) db of None \<Rightarrow> False | Some r \<Rightarrow> cmt_State r \<noteq> ''verified'')
     \<and> then_run (recordAdminResult (cx_result ''side_1'') cx_now)
         (then_run (recordAdminResult (cx_result ''side_2'') cx_now) (\<lambda>_. True)) db"

lemma cx_runs:
  "then_run (createEvent cx_platform ''Open'' ''Links'' 2026 cx_staff)
    (then_run (createTeam cx_platform (cx_id (CHR ''0'')) ''Reds'') (then_run (createTeam cx_platform (cx_id (CHR ''0'')) ''Blues'')
    (then_run (createPlayer cx_platform ''Ann'' []) (then_run (createPlayer cx_platform ''Bob'' [])
    (then_run (setTeamMember (cx_member (CHR ''1'') (CHR ''4'')) cx_now) (then_run (setTeamMember (cx_member (CHR ''2'') (CHR ''6'')) cx_now)
    (then_run (createMatch cx_request) cx_played))))))) cx_start"
  by code_simp

lemma cx_match_uuid: "pg_uuid (rr_MatchID (cx_result winner)) = Some (cx_id (CHR ''9''))"
proof -
  have "pg_uuid (cx_id (CHR ''9'')) = Some (cx_id (CHR ''9''))" by code_simp
  then show ?thesis by (simp add: cx_result_def)
qed

lemmas cx_facts = cx_runs [unfolded then_run_iff cx_played_def, folded cx_event_def, folded cx_team1_def, folded cx_team2_def,
  folded cx_ann_def, folded cx_bob_def, folded cx_reds_def, folded cx_blues_def, folded cx_match_def, folded cx_done_def,
  folded cx_again_def]

lemma cx_reachable: "club_reachable cx_platform cx_match" "club_reachable cx_platform cx_done"
proof -
  have "club_reachable cx_platform cx_start" by (auto simp: club_reachable_def cx_start_def)
  then have "club_reachable cx_platform cx_event" unfolding cx_event_def by (rule club_reachable_step) (rule club_step.event_created)
  then have "club_reachable cx_platform cx_team1" unfolding cx_team1_def by (rule club_reachable_step) (rule club_step.team_created)
  then have "club_reachable cx_platform cx_team2" unfolding cx_team2_def by (rule club_reachable_step) (rule club_step.team_created)
  then have "club_reachable cx_platform cx_ann" unfolding cx_ann_def by (rule club_reachable_step) (rule club_step.player_created)
  then have "club_reachable cx_platform cx_bob" unfolding cx_bob_def by (rule club_reachable_step) (rule club_step.player_created)
  then have "club_reachable cx_platform cx_reds" unfolding cx_reds_def by (rule club_reachable_step) (rule club_step.member_set)
  then have "club_reachable cx_platform cx_blues" unfolding cx_blues_def by (rule club_reachable_step) (rule club_step.member_set)
  then show "club_reachable cx_platform cx_match" unfolding cx_match_def by (rule club_reachable_step) (rule club_step.match_created)
  then show "club_reachable cx_platform cx_done" unfolding cx_done_def by (rule club_reachable_step) (rule club_step.result_recorded)
qed

end
