(* ===== verification/Club_Examples.thy ===== *)
theory Club_Examples
  imports Club_Guarantees Club_Season
begin

text \<open>
  The properties of reachable databases, applied to the databases of the season of \<open>Club_Season\<close>.
\<close>

lemma captain_remains_witness:
  "\<exists>r \<in> set (cl_Rosters cx_match). \<exists>c \<in> set (cl_Rosters cx_match).
     cro_EventID c = cro_EventID r \<and> cro_TeamID c = cro_TeamID r \<and> cro_IsCaptain c"
proof -
  obtain r where "r \<in> set (cl_Rosters cx_match)" using cx_facts by (cases "cl_Rosters cx_match") auto
  with captain_remains [OF cx_reachable(1) this] show ?thesis by blast
qed


lemma result_stands_witness:
  "\<exists>i. run_tx (recordAdminResult (cx_result ''side_1'') cx_now) cx_match = (Inr i, cx_done)
     \<and> run_tx (recordAdminResult (cx_result ''side_2'') cx_now) cx_done = (Inr i, cx_done)"
proof -
  obtain i j where "run_tx (recordAdminResult (cx_result ''side_1'') cx_now) cx_match = (Inr i, cx_done)"
    "run_tx (recordAdminResult (cx_result ''side_2'') cx_now) cx_done = (Inr j, cx_again)"
    using cx_facts by blast
  moreover from this have "j = i \<and> cx_again = cx_done"
    by (rule result_stands [OF cx_reachable(1) _ rtranclp.rtrancl_refl]) (simp add: cx_match_uuid)
  ultimately show ?thesis by metis
qed

lemma verdict_reaches_consumers_witness:
  "\<exists>env p. Publish env maxSetupOutboxAttempts (cl_Outbox cx_match) = (cl_Outbox cx_done, None)
     \<and> e_Payload env = json_Marshal (matchResultPayload p) \<and> rp_MatchID p = cx_id (CHR ''9'')"
proof -
  obtain i where step: "run_tx (recordAdminResult (cx_result ''side_1'') cx_now) cx_match = (Inr i, cx_done)"
    using cx_facts by blast
  obtain r where "found_match (cx_id (CHR ''9'')) cx_match = Some r" "cmt_State r \<noteq> ''verified''"
    using cx_facts by (auto split: option.split_asm)
  from verdict_reaches_consumers [OF cx_reachable(1) step cx_match_uuid this] show ?thesis
    by (auto simp: cx_result_def)
qed

lemma slugify_pattern_witness: "slug_pattern (slugify cx_platform '' St. Andrews - Open '') \<and> slugify cx_platform '' St. Andrews - Open '' \<noteq> []"
proof -
  have "slugify cx_platform '' St. Andrews - Open '' \<noteq> []" by code_simp
  with slugify_pattern [OF this] show ?thesis by blast
qed

end
