(* ===== verification/Spec2Isabelle.thy ===== *)
theory Spec2Isabelle
  imports Betting_Examples Parlay_Examples Match_Examples Session_Service Outbox_Delivery Book_Properties Book_Examples Members_Examples
    Club_Examples
begin

text \<open>
  A model of the core of go-book, a Go web application in which the members of a club play golf matches
  and bet on them with an admin's book. The model covers the packages under \<open>src/internal\<close> that decide
  something (who may do what, what a bet pays, which result of a match stands, which event is delivered);
  the packages that render pages, speak HTTP or only read rows for display are left out (see the end).

  \<^bold>\<open>The program.\<close> \<open>competition\<close> holds the match aggregate: teams, the submission of a result by one side,
  its confirmation or dispute by the other, an admin's override or correction. \<open>betting\<close> holds markets,
  wagers and parlays; every operation on them that moves money returns a double-entry transaction of
  \<open>ledger\<close> and an envelope of \<open>events\<close>. \<open>pricing\<close> moves the posted lines with the money bet. \<open>identity\<close>
  issues and checks sessions and decides on permissions. \<open>eventspg\<close> keeps the outbox in PostgreSQL, from
  which the dispatcher of \<open>events\<close> hands every event to its consumers. \<open>bettingpg\<close> is the book itself: every
  request is one PostgreSQL transaction that loads its rows, calls the operation of \<open>betting\<close> or \<open>pricing\<close>,
  and writes the rows, the ledger entries and the outbox events it returns. The packages call each other only
  through values.

  \<^bold>\<open>Theories, in the order of their imports.\<close>
  \<^item> \<open>Go_Base\<close>: the prelude. Results \<open>'e + 't\<close>, machine integers as words read by \<open>sint\<close>, \<open>strings.TrimSpace\<close>,
    decimal text, \<open>time.Time\<close>, maps; the locales \<open>lifecycle\<close> (a transition table) and \<open>idempotent_command\<close>
    (a command keyed by an identifier); the named theorem collections the proofs share.
  \<^item> \<open>Json\<close>: \<open>json.Marshal\<close> of a flat struct and \<open>json.Valid\<close>, the scanner of \<open>encoding/json\<close> as a machine
    with a stack; what \<open>Marshal\<close> writes, \<open>Valid\<close> accepts. \<open>Float64\<close>: binary64 as rationals rounded to 53 bits.
  \<^item> \<open>Ledger\<close> (\<open>ledger/money.go\<close>, \<open>odds.go\<close>), \<open>Postings\<close> (\<open>ledger/posting.go\<close> and the book that posts
    transactions; the locale \<open>transaction_builder\<close> is what every money operation is held to),
    \<open>Pricing\<close> and \<open>Repricing\<close> (\<open>pricing/pricing.go\<close>), \<open>Book_Properties\<close> (their properties).
  \<^item> \<open>Events\<close> (\<open>events/envelope.go\<close>, \<open>state.go\<close>), \<open>Dispatcher\<close> (\<open>events/dispatcher.go\<close>; the locale
    \<open>outbox_contract\<close> is what the dispatcher needs of a store), \<open>Outbox\<close> (\<open>eventspg/store.go\<close>),
    \<open>Outbox_Delivery\<close> (that store keeps the contract; delivery of events).
  \<^item> \<open>Betting_Types\<close> (\<open>betting/types.go\<close>, \<open>errors.go\<close>, \<open>events.go\<close>), \<open>Betting_Place\<close> (\<open>place.go\<close>),
    \<open>Betting_Settle\<close> (\<open>settle.go\<close>), \<open>Betting_Adjust\<close> (\<open>adjust.go\<close>, \<open>voidwager.go\<close>, \<open>reducewager.go\<close>),
    \<open>Betting_Parlay\<close> (\<open>parlay.go\<close>, \<open>parlayprice.go\<close>, and the decision part of
    \<open>bettingpg/parlay.go: settleParlayIfCompleteTx\<close>).
  \<^item> \<open>Settlement\<close>, \<open>Market_Settlement\<close>: what one settlement and the grading of a whole market pay, against a
    reference over the integers. \<open>Wager_Lifecycle\<close>: the step relation of one wager over all operations, its
    invariants. \<open>Parlays\<close>: price, placement, grading, payment. \<open>Betting_Examples\<close>, \<open>Parlay_Examples\<close>: concrete runs.
  \<^item> \<open>Competition_Types\<close> (\<open>competition/types.go\<close>, \<open>errors.go\<close>, \<open>events.go\<close>), \<open>Competition_Match\<close>
    (\<open>match.go\<close>), \<open>Match_Lifecycle\<close> (step relation, reachable matches, what verification guarantees),
    \<open>Match_Examples\<close>.
  \<^item> \<open>Pg_Tx\<close>: what the PostgreSQL packages share. A statement is a function on the tables that fails or returns a value and
    the tables after it, \<open>run_tx\<close> is begin, commit and the deferred rollback; the locale \<open>tx_relation\<close>: a relation on tables
    that is reflexive and transitive is kept by a command when its statements keep it.
  \<^item> The book in its database (\<open>bettingpg\<close>). \<open>Book_Db\<close> (\<open>store.go\<close>, \<open>errors.go\<close>, the tables of \<open>migrations\<close>): tables as
    lists of rows, statements as commands \<open>'a cmd\<close>, \<open>run_tx\<close> as begin, commit and the deferred rollback.
    \<open>Book_Lines\<close> (\<open>reprice.go\<close>, \<open>setline.go\<close>, \<open>closetime.go\<close>, \<open>stakelimit.go\<close>, \<open>restrict.go\<close>, \<open>noaction.go\<close>), \<open>Book_Wagers\<close>
    (\<open>place.go\<close>, \<open>accept.go\<close>, \<open>voidwager.go\<close>, \<open>reducewager.go\<close>, \<open>adjust.go\<close>), \<open>Book_Parlays\<close> (\<open>parlay.go\<close>, \<open>parlayload.go\<close>),
    \<open>Book_Markets\<close> (\<open>create.go\<close>, \<open>market.go\<close>, \<open>regrade.go\<close>, \<open>noaction.go\<close>), \<open>Book_Matches\<close> (\<open>mapping.go\<close>,
    \<open>match_settlement.go\<close>).
  \<^item> What the book keeps. \<open>Book_Frames\<close>: which tables a command writes (the locale \<open>command_relation\<close>: \<open>tx_relation\<close>
    on the tables of the book; \<open>command_view\<close>: a
    projection a command leaves alone). \<open>Book_Ledger\<close>: a ledger transaction moves what its postings say, accounts stay
    unique. \<open>Book_Escrow\<close>, \<open>Book_Wager_Money\<close>, \<open>Book_Parlay_Money\<close>, \<open>Book_Market_Money\<close>: every operation moves the
    escrow by what it moves the stakes held. \<open>Book_Board\<close>, \<open>Book_Waiting\<close>, \<open>Book_Settled\<close>, \<open>Book_Final\<close>: who waits for
    which market, and that a market which is over stays so. \<open>Book_Reachable\<close>: the step relation of all operations
    and what holds in every reachable database. \<open>Book_Guarantees\<close>: credit, caps, refunds, the grading of a match.
    \<open>Book_Examples\<close>: a concrete club, from an empty book to accepted bets, and the witnesses.
  \<^item> \<open>Identity_Types\<close> (\<open>identity/types.go\<close>, \<open>errors.go\<close>, \<open>authorization.go\<close>), \<open>Sessions\<close> (\<open>secrets.go\<close>,
    \<open>session.go\<close>), \<open>Session_Service\<close> (the locale \<open>issuer\<close> of the operations that hand out a session).
  \<^item> The members in their database (\<open>identitypg\<close>). \<open>Members\<close> (\<open>store.go\<close>: users, linked identities, sessions),
    \<open>Members_Admin\<close> (\<open>membership.go\<close>: invitations, roles, limits; the store record \<open>pg_store\<close> that the session service runs
    on; \<open>cmd/cabot/bootstrap.go\<close>). \<open>Members_Rules\<close>: the keys of the tables and the rows that stay. \<open>Members_Steps\<close>: the
    step relation of all operations, reachable databases. \<open>Members_Roles\<close>, \<open>Members_Access\<close>: an owner remains, who vouched
    for a role. \<open>Members_Sessions\<close>: the session service on this store. \<open>Members_Guarantees\<close>: revoked members, invitations, the
    two members whom the code locks out. \<open>Members_Examples\<close>: a concrete club and the witnesses.
  \<^item> The competition in its database (\<open>competitionpg\<close>). \<open>Club\<close> (\<open>store.go\<close>: events, teams, players, matches, an admin's
    result), \<open>Club_Roster\<close> (\<open>roster.go\<close>, \<open>delete.go\<close>, \<open>links.go\<close>), \<open>Club_Stats\<close> (\<open>stats.go\<close>, the consumer of verified results).
    \<open>Club_Rules\<close>: what each operation did when it succeeded. \<open>Club_Invariant\<close>, \<open>Club_Steps\<close>: the invariant \<open>club_wf\<close> of the
    tables (rosters with captains, rostered participants, one verification per match, one player per member, the checks
    on the statistics), the step relation of all operations and of everything other packages do, reachable databases.
    \<open>Club_Slugs\<close>, \<open>Club_Totals\<close> (the statistics against a reference over the deliveries), \<open>Club_Guarantees\<close> (the
    properties; with \<open>Book_Matches\<close>, what one verdict means for the statistics and for the bets). \<open>Club_Season\<close>,
    \<open>Club_Examples\<close>: a concrete season and the witnesses. \<open>Evaluation\<close>: code equations that the examples share.

  \<^bold>\<open>How state and operations correspond.\<close> A Go struct is a record whose fields carry a short prefix
  (record fields share one name space); a string type with constants is a datatype with one constructor
  per constant and one for any other string. A function \<open>func f(x) (T, error)\<close> is \<open>f :: x \<Rightarrow> error + T\<close>, and
  every early return is a branch. A method \<open>(m *Match) M\<close> takes the match and returns the new one. Errors are
  compared by sentinel; their rendered text is left out, except in the outbox, which stores it. An \<open>int64\<close>
  is a \<open>64 word\<close>, and its arithmetic wraps. A nondeterministic map iteration never decides a result in the
  modelled code. Stores that the code reaches through an interface (\<open>identity.Store\<close>, \<open>OutboxStore\<close>) are
  records of functions over a state of their own. The operations of \<open>bettingpg\<close> run on one record \<open>book_db\<close>, a list of rows
  per table: \<open>func (s Store) AcceptWager\<close> is \<open>Store_AcceptWager\<close>, a function on databases, whose body in the
  transaction is \<open>acceptWagerTx\<close>. A statement whose constraint fails ends the transaction in \<open>ErrDatabase\<close>, and the
  database is what it was. Row locks make transactions that touch the same rows follow one another, so that one
  operation is one step of \<open>book_step\<close>. The transactions inside \<open>SettleMatchMarkets\<close>, and the repricing that follows a
  voided or reduced wager, are steps of their own as well, so that runs in which other operations come between them
  are covered. \<open>RegradeStrandedWagers\<close> reads before its transaction; it is taken as one step.

  \<^bold>\<open>Groups of lemmas.\<close> For each operation: an inversion lemma (what holds when it succeeds) and the cases of its
  errors; for the operations on money: the transaction validates, moves exactly the stated amounts, and posting
  it conserves the book; for wagers, matches, outbox rows and the whole databases of the book, the members and the competition: a step relation or an
  interface with an invariant that every step keeps; for keys, secrets, lines and postings: exact characterisations.

  \<^bold>\<open>Parameters and hypotheses.\<close> \<open>math.Exp\<close> (last place unspecified), the Unicode case tables beyond ASCII,
  \<open>mail.ParseAddress\<close>, SHA-256, \<open>lower()\<close> of PostgreSQL and \<open>strings.EqualFold\<close> beyond ASCII, the clock, random bytes and the answers of the stores are arguments.
  \<open>reprice_idle_board\<close> assumes of \<open>math.Exp\<close> that it is 1 at 0 (\<open>math.Exp\<close> of a non-negative number is at least 1,
  so that the division by the sum of the weights is never one by zero); the delivery properties assume that consumers leave the outbox rows and receipts that exist alone.

  \<^bold>\<open>Fuel and bounds.\<close> \<open>drift_passes\<close> and \<open>round_back\<close> count the source's own loop bounds (one pass per selection
  and one more; \<open>maxRoundingSteps\<close>); every other loop is a structural recursion or has a measure.

  \<^bold>\<open>Not modelled.\<close> The web packages (\<open>bettingweb\<close>, \<open>competitionweb\<close>, \<open>privateweb\<close>, \<open>membersweb\<close>, \<open>authweb\<close>, \<open>web\<close>),
  the HTTP platform, the configuration, the OIDC client and \<open>cmd\<close> are input and output around the modelled code; the
  package \<open>privatepg\<close>, \<open>public.go\<close> of \<open>competitionpg\<close>, the lists of \<open>competitionpg\<close> and \<open>identitypg\<close> and the files \<open>readers.go\<close>,
  \<open>record.go\<close>, \<open>memberbook.go\<close> of \<open>bettingpg\<close> are SQL text that reads rows for pages; rows of other packages that name a match or an
  event are pairs in the competition's tables, and the JSON objects of the audit are left out; the two event consumers of \<open>bettingpg\<close> decode a
  payload (\<open>json.Unmarshal\<close>) and call \<open>SettleMatchMarkets\<close> and \<open>RepriceMarketAfterWager\<close>, which are modelled; migrations and
  the legacy import run once. \<open>Match.Snapshot\<close> copies fields. Mutexes are not modelled: a command method
  holds its lock for its whole body, so commands are atomic.
\<close>

end
